(* ===== verification/DBOS_Prelude.thy ===== *)
theory DBOS_Prelude
  imports Main "HOL-Library.Product_Lexorder" "HOL-Library.Multiset" "HOL-Library.Sublist"
begin

text \<open>
  Shared vocabulary of the development.

  \<^item> Operations of the program that read and write state and may throw are functions of type
    \<open>('s, 'e, 'a) op\<close>: they take the state and return either the thrown error (\<open>Inl\<close>) or the
    result (\<open>Inr\<close>), together with the state at that moment. An exception does not undo the
    effects that came before it; \<open>transaction\<close> is the \<open>BEGIN ... COMMIT / ROLLBACK\<close> bracket of
    the source, which does.
  \<^item> SQL tables are lists of rows; \<open>update_where\<close>, \<open>delete_where\<close>, \<open>find_row\<close> and \<open>row_count\<close>
    are the statements the source issues. The locale \<open>keyed_table\<close> states what a table with a
    primary key promises; each table of the schema interprets it.
  \<^item> \<open>preserves\<close> is the contract "whatever the outcome, the invariant is kept".
  \<^item> The locale \<open>invariant_system\<close> lifts a one-step invariant to the reachable states.
\<close>

section \<open>Collections of facts\<close>

named_theorems op_simps \<open>evaluation rules of the operations\<close>
named_theorems keep_rules \<open>invariants that operations keep\<close>
named_theorems frame_rules \<open>parts of the state an operation leaves alone\<close>

section \<open>Operations that may throw\<close>

type_synonym ('s, 'e, 'a) op = "'s \<Rightarrow> ('e + 'a) \<times> 's"

definition ret :: "'a \<Rightarrow> ('s, 'e, 'a) op" where
  "ret x s = (Inr x, s)"

definition throw :: "'e \<Rightarrow> ('s, 'e, 'a) op" where
  "throw e s = (Inl e, s)"

definition and_then :: "('s, 'e, 'a) op \<Rightarrow> ('a \<Rightarrow> ('s, 'e, 'b) op) \<Rightarrow> ('s, 'e, 'b) op" where
  "and_then m k s = (case m s of (Inl e, s') \<Rightarrow> (Inl e, s') | (Inr x, s') \<Rightarrow> k x s')"

definition gets :: "('s \<Rightarrow> 'a) \<Rightarrow> ('s, 'e, 'a) op" where
  "gets f s = (Inr (f s), s)"

definition modify :: "('s \<Rightarrow> 's) \<Rightarrow> ('s, 'e, unit) op" where
  "modify f s = (Inr (), f s)"

definition transaction :: "('s, 'e, 'a) op \<Rightarrow> ('s, 'e, 'a) op" where
  "transaction m s = (case m s of (Inl e, s') \<Rightarrow> (Inl e, s) | (Inr x, s') \<Rightarrow> (Inr x, s'))"

definition map_error :: "('e \<Rightarrow> 'e) \<Rightarrow> ('s, 'e, 'a) op \<Rightarrow> ('s, 'e, 'a) op" where
  "map_error h m s = (case m s of (Inl e, s') \<Rightarrow> (Inl (h e), s') | (Inr x, s') \<Rightarrow> (Inr x, s'))"

fun for_each :: "('a \<Rightarrow> ('s, 'e, unit) op) \<Rightarrow> 'a list \<Rightarrow> ('s, 'e, unit) op" where
  "for_each f [] = ret ()"
| "for_each f (x # xs) = and_then (f x) (\<lambda>_. for_each f xs)"

lemma ret_apply [simp]: "ret x s = (Inr x, s)"
  by (simp add: ret_def)

lemma throw_apply [simp]: "throw e s = (Inl e, s)"
  by (simp add: throw_def)

lemma gets_apply [simp]: "gets f s = (Inr (f s), s)"
  by (simp add: gets_def)

lemma modify_apply [simp]: "modify f s = (Inr (), f s)"
  by (simp add: modify_def)

lemma and_then_Inl [simp]: "m s = (Inl e, s') \<Longrightarrow> and_then m k s = (Inl e, s')"
  by (simp add: and_then_def)

lemma and_then_Inr [simp]: "m s = (Inr x, s') \<Longrightarrow> and_then m k s = k x s'"
  by (simp add: and_then_def)

lemma and_then_gets [simp]: "and_then (gets f) k s = k (f s) s"
  by simp

lemma and_then_modify [simp]: "and_then (modify f) k s = k () (f s)"
  by simp

lemma and_then_ret [simp]: "and_then (ret x) k s = k x s"
  by simp

lemma and_then_throw [simp]: "and_then (throw e) k s = (Inl e, s)"
  by simp

lemma and_then_if [simp]:
  "and_then (if b then m else m') k s = (if b then and_then m k s else and_then m' k s)"
  by simp

lemma and_then_success:
  "and_then m k s = (Inr y, s') \<longleftrightarrow> (\<exists>x s1. m s = (Inr x, s1) \<and> k x s1 = (Inr y, s'))"
  by (auto simp: and_then_def split: prod.splits sum.splits)

lemma and_then_failure:
  "and_then m k s = (Inl e, s') \<longleftrightarrow>
    m s = (Inl e, s') \<or> (\<exists>x s1. m s = (Inr x, s1) \<and> k x s1 = (Inl e, s'))"
  by (auto simp: and_then_def split: prod.splits sum.splits)

lemma transaction_success [simp]:
  "transaction m s = (Inr x, s') \<longleftrightarrow> m s = (Inr x, s')"
  by (auto simp: transaction_def split: prod.splits sum.splits)

lemma transaction_failure:
  "transaction m s = (Inl e, s') \<longleftrightarrow> s' = s \<and> (\<exists>s1. m s = (Inl e, s1))"
  by (auto simp: transaction_def split: prod.splits sum.splits)

lemma transaction_Inl: "m s = (Inl e, s') \<Longrightarrow> transaction m s = (Inl e, s)"
  by (simp add: transaction_def)

lemma transaction_Inr: "m s = (Inr x, s') \<Longrightarrow> transaction m s = (Inr x, s')"
  by simp

section \<open>Invariants of operations\<close>

definition preserves :: "('s \<Rightarrow> bool) \<Rightarrow> ('s, 'e, 'a) op \<Rightarrow> bool" where
  "preserves I m \<longleftrightarrow> (\<forall>s. I s \<longrightarrow> I (snd (m s)))"

lemma preservesI: "(\<And>s. I s \<Longrightarrow> I (snd (m s))) \<Longrightarrow> preserves I m"
  by (simp add: preserves_def)

lemma preservesD: "preserves I m \<Longrightarrow> I s \<Longrightarrow> m s = (r, s') \<Longrightarrow> I s'"
  by (metis preserves_def snd_conv)

lemma preserves_ret [keep_rules]: "preserves I (ret x)"
  by (simp add: preserves_def)

lemma preserves_throw [keep_rules]: "preserves I (throw e)"
  by (simp add: preserves_def)

lemma preserves_gets [keep_rules]: "preserves I (gets f)"
  by (simp add: preserves_def)

lemma preserves_modify: "(\<And>s. I s \<Longrightarrow> I (f s)) \<Longrightarrow> preserves I (modify f)"
  by (simp add: preserves_def)

lemma preserves_and_then [keep_rules]:
  assumes "preserves I m" and "\<And>x. preserves I (k x)"
  shows "preserves I (and_then m k)"
proof (rule preservesI)
  fix s assume "I s"
  obtain r s1 where m: "m s = (r, s1)" by (cases "m s")
  with assms(1) \<open>I s\<close> have "I s1" by (rule preservesD)
  with assms(2) m show "I (snd (and_then m k s))"
    by (cases r) (auto simp: preserves_def and_then_def)
qed

lemma preserves_transaction [keep_rules]:
  "preserves I m \<Longrightarrow> preserves I (transaction m)"
  by (auto simp: preserves_def transaction_def split: prod.splits sum.splits)

lemma preserves_map_error [keep_rules]:
  "preserves I m \<Longrightarrow> preserves I (map_error h m)"
  by (auto simp: preserves_def map_error_def split: prod.splits sum.splits)

lemma preserves_if [keep_rules]:
  "preserves I m \<Longrightarrow> preserves I m' \<Longrightarrow> preserves I (if b then m else m')"
  by simp

lemma preserves_option [keep_rules]:
  "preserves I m \<Longrightarrow> (\<And>x. preserves I (k x)) \<Longrightarrow>
    preserves I (case v of None \<Rightarrow> m | Some x \<Rightarrow> k x)"
  by (cases v) simp_all

lemma preserves_list [keep_rules]:
  "preserves I m \<Longrightarrow> (\<And>x xs. preserves I (k x xs)) \<Longrightarrow>
    preserves I (case v of [] \<Rightarrow> m | x # xs \<Rightarrow> k x xs)"
  by (cases v) simp_all

lemma preserves_for_each [keep_rules]:
  "(\<And>x. preserves I (f x)) \<Longrightarrow> preserves I (for_each f xs)"
  by (induction xs) (auto intro: keep_rules)

section \<open>Tables\<close>

definition update_where :: "('r \<Rightarrow> bool) \<Rightarrow> ('r \<Rightarrow> 'r) \<Rightarrow> 'r list \<Rightarrow> 'r list" where
  "update_where P f rows = map (\<lambda>r. if P r then f r else r) rows"

definition delete_where :: "('r \<Rightarrow> bool) \<Rightarrow> 'r list \<Rightarrow> 'r list" where
  "delete_where P rows = filter (\<lambda>r. \<not> P r) rows"

definition row_count :: "('r \<Rightarrow> bool) \<Rightarrow> 'r list \<Rightarrow> nat" where
  "row_count P rows = length (filter P rows)"

definition find_row :: "('r \<Rightarrow> 'k) \<Rightarrow> 'k \<Rightarrow> 'r list \<Rightarrow> 'r option" where
  "find_row key k rows = List.find (\<lambda>r. key r = k) rows"

definition unique_key :: "('r \<Rightarrow> 'k) \<Rightarrow> 'r list \<Rightarrow> bool" where
  "unique_key key rows = distinct (map key rows)"

lemma update_where_Nil [simp]: "update_where P f [] = []"
  by (simp add: update_where_def)

lemma update_where_Cons [simp]:
  "update_where P f (r # rs) = (if P r then f r else r) # update_where P f rs"
  by (simp add: update_where_def)

lemma length_update_where [simp]: "length (update_where P f rows) = length rows"
  by (simp add: update_where_def)

lemma update_where_append [simp]:
  "update_where P f (rs @ ss) = update_where P f rs @ update_where P f ss"
  by (simp add: update_where_def)

lemma set_update_where:
  "set (update_where P f rows) = {if P r then f r else r |r. r \<in> set rows}"
  by (auto simp: update_where_def)

lemma update_where_no_match: "(\<And>r. r \<in> set rows \<Longrightarrow> \<not> P r) \<Longrightarrow> update_where P f rows = rows"
  by (induction rows) auto

lemma update_where_id: "(\<And>r. r \<in> set rows \<Longrightarrow> P r \<Longrightarrow> f r = r) \<Longrightarrow> update_where P f rows = rows"
  by (induction rows) auto

lemma filter_update_where_empty:
  "(\<And>r. P r \<Longrightarrow> \<not> Q (f r)) \<Longrightarrow> (\<And>r. Q r \<Longrightarrow> P r) \<Longrightarrow> filter Q (update_where P f rows) = []"
  by (induction rows) auto

lemma delete_where_Nil [simp]: "delete_where P [] = []"
  by (simp add: delete_where_def)

lemma delete_where_Cons [simp]:
  "delete_where P (r # rs) = (if P r then delete_where P rs else r # delete_where P rs)"
  by (simp add: delete_where_def)

lemma set_delete_where [simp]: "set (delete_where P rows) = {r \<in> set rows. \<not> P r}"
  by (auto simp: delete_where_def)

lemma row_count_Nil [simp]: "row_count P [] = 0"
  by (simp add: row_count_def)

lemma row_count_Cons [simp]:
  "row_count P (r # rs) = (if P r then Suc (row_count P rs) else row_count P rs)"
  by (simp add: row_count_def)

lemma row_count_append [simp]: "row_count P (rs @ ss) = row_count P rs + row_count P ss"
  by (simp add: row_count_def)

lemma row_count_0_iff: "row_count P rows = 0 \<longleftrightarrow> (\<forall>r\<in>set rows. \<not> P r)"
  by (induction rows) auto

lemma map_key_update_where:
  "(\<And>r. P r \<Longrightarrow> key (f r) = key r) \<Longrightarrow> map key (update_where P f rows) = map key rows"
  by (induction rows) auto

lemma image_update_where:
  "(\<And>r. P r \<Longrightarrow> key (f r) = key r) \<Longrightarrow> key ` set (update_where P f rows) = key ` set rows"
  using map_key_update_where by (metis list.set_map)

lemma unique_key_update_where:
  "(\<And>r. P r \<Longrightarrow> key (f r) = key r) \<Longrightarrow> unique_key key (update_where P f rows) = unique_key key rows"
  by (simp add: unique_key_def map_key_update_where)

lemma unique_key_delete_where: "unique_key key rows \<Longrightarrow> unique_key key (delete_where P rows)"
  by (simp add: unique_key_def delete_where_def distinct_map_filter)

lemma unique_key_Nil [simp]: "unique_key key []"
  by (simp add: unique_key_def)

lemma unique_key_snoc [simp]:
  "unique_key key (rows @ [r]) \<longleftrightarrow> unique_key key rows \<and> key r \<notin> key ` set rows"
  by (auto simp: unique_key_def)

lemma unique_key_eq:
  "unique_key key rows \<Longrightarrow> r \<in> set rows \<Longrightarrow> r' \<in> set rows \<Longrightarrow> key r = key r' \<Longrightarrow> r = r'"
  by (auto simp: unique_key_def distinct_map inj_on_def)

lemma find_row_Nil [simp]: "find_row key k [] = None"
  by (simp add: find_row_def)

lemma find_row_Cons [simp]:
  "find_row key k (r # rs) = (if key r = k then Some r else find_row key k rs)"
  by (simp add: find_row_def)

lemma find_row_None_iff: "find_row key k rows = None \<longleftrightarrow> k \<notin> key ` set rows"
  by (induction rows) auto

lemma find_row_NoneI: "(\<And>r. r \<in> set rows \<Longrightarrow> key r \<noteq> k) \<Longrightarrow> find_row key k rows = None"
  by (induction rows) auto

lemma find_row_SomeD: "find_row key k rows = Some r \<Longrightarrow> r \<in> set rows \<and> key r = k"
  by (induction rows) (auto split: if_splits)

lemma find_row_append:
  "find_row key k (rs @ ss) =
    (case find_row key k rs of None \<Rightarrow> find_row key k ss | Some r \<Rightarrow> Some r)"
  by (induction rs) auto

lemma find_row_unique:
  "unique_key key rows \<Longrightarrow> r \<in> set rows \<Longrightarrow> find_row key (key r) rows = Some r"
  by (induction rows) (auto simp: unique_key_def rev_image_eqI)

lemma find_row_iff:
  "unique_key key rows \<Longrightarrow> find_row key k rows = Some r \<longleftrightarrow> r \<in> set rows \<and> key r = k"
  by (auto dest: find_row_SomeD find_row_unique)

lemma find_row_update_where:
  "(\<And>r. P r \<Longrightarrow> key (f r) = key r) \<Longrightarrow>
    find_row key k (update_where P f rows) = map_option (\<lambda>r. if P r then f r else r) (find_row key k rows)"
  by (induction rows) auto

lemma map_option_other_key [simp]:
  "k' \<noteq> k \<Longrightarrow> map_option (\<lambda>r. if key r = k \<and> Q r then f r else r) (find_row key k' rows) = find_row key k' rows"
  "k' \<noteq> k \<Longrightarrow> map_option (\<lambda>r. if key r = k then f r else r) (find_row key k' rows) = find_row key k' rows"
  by (cases "find_row key k' rows"; auto dest: find_row_SomeD)+

lemma find_row_delete_where:
  "unique_key key rows \<Longrightarrow> find_row key k (delete_where P rows) =
    (case find_row key k rows of None \<Rightarrow> None | Some r \<Rightarrow> if P r then None else Some r)"
proof (induction rows)
  case (Cons a rows)
  have "find_row key (key a) rows = None" and "find_row key (key a) (delete_where P rows) = None"
    using Cons.prems by (auto simp: find_row_None_iff unique_key_def)
  moreover have "unique_key key rows" using Cons.prems by (simp add: unique_key_def)
  ultimately show ?case using Cons.IH by (cases "key a = k") auto
qed simp

subsection \<open>What a table with a primary key promises\<close>

locale keyed_table =
  fixes key :: "'r \<Rightarrow> 'k"
    and lookup :: "'k \<Rightarrow> 't \<Rightarrow> 'r option"
    and insert_row :: "'r \<Rightarrow> 't \<Rightarrow> 't"
    and update_rows :: "('r \<Rightarrow> bool) \<Rightarrow> ('r \<Rightarrow> 'r) \<Rightarrow> 't \<Rightarrow> 't"
    and delete_rows :: "('r \<Rightarrow> bool) \<Rightarrow> 't \<Rightarrow> 't"
    and invar :: "'t \<Rightarrow> bool"
  assumes lookup_key: "lookup k t = Some r \<Longrightarrow> key r = k"
    and lookup_insert: "lookup (key r) t = None \<Longrightarrow>
      lookup k (insert_row r t) = (if k = key r then Some r else lookup k t)"
    and lookup_update: "(\<And>r. P r \<Longrightarrow> key (f r) = key r) \<Longrightarrow>
      lookup k (update_rows P f t) = map_option (\<lambda>r. if P r then f r else r) (lookup k t)"
    and lookup_delete: "invar t \<Longrightarrow>
      lookup k (delete_rows P t) = Option.bind (lookup k t) (\<lambda>r. if P r then None else Some r)"
    and invar_insert: "invar t \<Longrightarrow> lookup (key r) t = None \<Longrightarrow> invar (insert_row r t)"
    and invar_update: "(\<And>r. P r \<Longrightarrow> key (f r) = key r) \<Longrightarrow> invar t \<Longrightarrow> invar (update_rows P f t)"
    and invar_delete: "invar t \<Longrightarrow> invar (delete_rows P t)"
begin

lemma lookup_insert_same: "lookup (key r) t = None \<Longrightarrow> lookup (key r) (insert_row r t) = Some r"
  by (simp add: lookup_insert)

lemma lookup_insert_other:
  "lookup (key r) t = None \<Longrightarrow> k \<noteq> key r \<Longrightarrow> lookup k (insert_row r t) = lookup k t"
  by (simp add: lookup_insert)

lemma lookup_update_key:
  assumes "\<And>r. key (f r) = key r"
  shows "lookup k (update_rows (\<lambda>r. key r = k' \<and> Q r) f t) =
    (if k = k' then map_option (\<lambda>r. if Q r then f r else r) (lookup k t) else lookup k t)"
proof -
  have "lookup k (update_rows (\<lambda>r. key r = k' \<and> Q r) f t) =
    map_option (\<lambda>r. if key r = k' \<and> Q r then f r else r) (lookup k t)"
    by (rule lookup_update) (simp add: assms)
  then show ?thesis by (cases "lookup k t") (auto dest: lookup_key)
qed

lemma lookup_delete_key:
  "invar t \<Longrightarrow> lookup k (delete_rows (\<lambda>r. key r = k') t) = (if k = k' then None else lookup k t)"
  by (cases "lookup k t") (auto simp: lookup_delete dest: lookup_key)

lemma lookup_update_miss:
  assumes "\<And>r. key (f r) = key r" and "\<And>r. P r \<Longrightarrow> key r \<noteq> k"
  shows "lookup k (update_rows P f t) = lookup k t"
proof -
  have "lookup k (update_rows P f t) = map_option (\<lambda>r. if P r then f r else r) (lookup k t)"
    by (rule lookup_update) (simp add: assms)
  then show ?thesis using assms(2) by (cases "lookup k t") (auto dest: lookup_key)
qed

end

lemma keyed_table_list:
  "keyed_table key (find_row key) (\<lambda>r rows. rows @ [r]) update_where delete_where (unique_key key)"
proof (unfold_locales, goal_cases)
  case 1 then show ?case by (auto dest: find_row_SomeD)
next
  case (2 r t k)
  then show ?case by (cases "find_row key k t") (auto simp: find_row_append)
next
  case 3 then show ?case by (rule find_row_update_where)
next
  case 4 then show ?case by (auto simp: find_row_delete_where split: option.splits)
next
  case 5 then show ?case by (simp add: find_row_None_iff)
next
  case 6 then show ?case by (simp add: unique_key_update_where)
next
  case 7 then show ?case by (rule unique_key_delete_where)
qed

section \<open>Step systems and their invariants\<close>

locale invariant_system =
  fixes init :: "'s \<Rightarrow> bool"
    and step :: "'s \<Rightarrow> 's \<Rightarrow> bool"
    and inv :: "'s \<Rightarrow> bool"
  assumes init_inv: "init s \<Longrightarrow> inv s"
    and step_inv: "step s s' \<Longrightarrow> inv s \<Longrightarrow> inv s'"
begin

lemma run_inv: "step\<^sup>*\<^sup>* s s' \<Longrightarrow> inv s \<Longrightarrow> inv s'"
  by (induction rule: rtranclp_induct) (auto intro: step_inv)

lemma reachable_inv: "init s \<Longrightarrow> step\<^sup>*\<^sup>* s s' \<Longrightarrow> inv s'"
  by (blast intro: run_inv init_inv)

end

text \<open>A system each step of which is, for every component of its state, at most one move of an abstract machine.\<close>

locale simulation = invariant_system +
  fixes abs :: "'s \<Rightarrow> 'c \<Rightarrow> 'a"
    and abs_step :: "'a \<Rightarrow> 'a \<Rightarrow> bool"
  assumes simulates: "step s s' \<Longrightarrow> inv s \<Longrightarrow> abs_step\<^sup>=\<^sup>= (abs s c) (abs s' c)"
begin

text \<open>A set \<open>A\<close> of abstract states that a move leaves only into \<open>B\<close> is not left by a run that stays out of \<open>B\<close>.\<close>

lemma run_closed:
  assumes "\<And>a b. abs_step a b \<Longrightarrow> a \<in> A \<Longrightarrow> b \<in> A \<or> b \<in> B"
  shows "(\<lambda>s t. step s t \<and> abs t c \<notin> B)\<^sup>*\<^sup>* s s' \<Longrightarrow> inv s \<Longrightarrow> abs s c \<in> A \<Longrightarrow> inv s' \<and> abs s' c \<in> A"
proof (induction rule: rtranclp_induct)
  case (step t t')
  then have "inv t" "abs t c \<in> A" "inv t'" using step_inv by blast+
  with simulates [of t t' c] step.hyps(2) assms show ?case by auto
qed simp

end

section \<open>JavaScript and SQL idioms\<close>

text \<open>A string is truthy unless it is empty; \<open>row.x ? row.x : null\<close> maps \<open>''\<close> to \<open>null\<close>.\<close>

definition truthy :: "string option \<Rightarrow> bool" where
  "truthy v = (case v of None \<Rightarrow> False | Some s \<Rightarrow> s \<noteq> [])"

definition or_null :: "string option \<Rightarrow> string option" where
  "or_null v = (if truthy v then v else None)"

text \<open>\<open>v ?? d\<close>.\<close>

definition coalesce :: "'a option \<Rightarrow> 'a \<Rightarrow> 'a" where
  "coalesce v d = (case v of None \<Rightarrow> d | Some x \<Rightarrow> x)"

definition coalesce_opt :: "'a option \<Rightarrow> 'a option \<Rightarrow> 'a option" where
  "coalesce_opt v d = (case v of None \<Rightarrow> d | Some x \<Rightarrow> Some x)"

text \<open>\<open>x === '' ? null : x\<close>.\<close>

definition empty_to_null :: "string \<Rightarrow> string option" where
  "empty_to_null s = (if s = [] then None else Some s)"

text \<open>\<open>MAX\<close> and \<open>MIN\<close> of a column ignore NULLs and are NULL on no value.\<close>

definition sql_max :: "int list \<Rightarrow> int option" where
  "sql_max xs = (if xs = [] then None else Some (Max (set xs)))"

definition sql_min :: "int list \<Rightarrow> int option" where
  "sql_min xs = (if xs = [] then None else Some (Min (set xs)))"

lemma coalesce_simps [simp]: "coalesce None d = d" "coalesce (Some x) d = x"
  by (simp_all add: coalesce_def)

lemma coalesce_opt_simps [simp]: "coalesce_opt None d = d" "coalesce_opt (Some x) d = Some x"
  by (simp_all add: coalesce_opt_def)

lemma empty_to_null_simps [simp]: "empty_to_null [] = None" "empty_to_null (c # s) = Some (c # s)"
  by (simp_all add: empty_to_null_def)

lemma coalesce_empty_to_null [simp]: "coalesce (empty_to_null s) [] = s"
  by (simp add: empty_to_null_def)

lemma sql_max_None_iff [simp]: "sql_max xs = None \<longleftrightarrow> xs = []"
  by (simp add: sql_max_def)

lemma sql_max_ge: "sql_max xs = Some m \<Longrightarrow> x \<in> set xs \<Longrightarrow> x \<le> m"
  by (auto simp: sql_max_def split: if_splits)

lemma sql_max_above: "x \<in> set xs \<Longrightarrow> \<exists>m. sql_max xs = Some m \<and> x \<le> m"
  by (auto simp: sql_max_def)

lemma sql_max_mem: "sql_max xs = Some m \<Longrightarrow> m \<in> set xs"
proof -
  assume m: "sql_max xs = Some m"
  then have "xs \<noteq> []" and "m = Max (set xs)" by (auto simp: sql_max_def split: if_splits)
  then show ?thesis using Max_in [of "set xs"] by simp
qed

lemma set_map_filter_iff: "y \<in> set (List.map_filter f xs) \<longleftrightarrow> (\<exists>x\<in>set xs. f x = Some y)"
  by (induction xs) (auto simp: List.map_filter_simps split: option.splits)

lemma find_cong_mem: "List.find P xs = Some x \<Longrightarrow> x \<in> set xs \<and> P x"
  by (metis find_Some_iff nth_mem)

end
