(* ===== verification/JS_Text.thy ===== *)
theory JS_Text
  imports DBOS_Prelude
begin

text \<open>
  The parts of JavaScript's string and JSON library that the source uses, on \<open>string\<close>
  (characters are code units below 256): decimal printing and reading of integers, \<open>split\<close>,
  \<open>join\<close>, \<open>includes\<close>, \<open>startsWith\<close>, \<open>toLowerCase\<close>, and \<open>JSON.stringify\<close> / \<open>JSON.parse\<close> on the JSON
  values of \<open>schemas/system_db_schema.ts\<close>, with numbers restricted to integers.
\<close>

section \<open>Decimal numerals\<close>

definition digit_char :: "nat \<Rightarrow> char" where
  "digit_char d = char_of (48 + d)"

definition is_digit :: "char \<Rightarrow> bool" where
  "is_digit c = (48 \<le> (of_char c :: nat) \<and> (of_char c :: nat) \<le> 57)"

definition digit_value :: "char \<Rightarrow> nat" where
  "digit_value c = of_char c - 48"

fun show_nat :: "nat \<Rightarrow> string" where
  "show_nat n = (if n < 10 then [digit_char n] else show_nat (n div 10) @ [digit_char (n mod 10)])"

declare show_nat.simps [simp del]

definition show_int :: "int \<Rightarrow> string" where
  "show_int i = (if i < 0 then ''-'' @ show_nat (nat (- i)) else show_nat (nat i))"

definition read_digits :: "string \<Rightarrow> nat" where
  "read_digits s = foldl (\<lambda>n c. n * 10 + digit_value c) 0 s"

lemma of_char_digit_char: "d < 10 \<Longrightarrow> (of_char (digit_char d) :: nat) = 48 + d"
  by (simp add: digit_char_def)

lemma is_digit_digit_char [simp]: "d < 10 \<Longrightarrow> is_digit (digit_char d)"
  by (simp add: is_digit_def of_char_digit_char)

lemma digit_value_digit_char [simp]: "d < 10 \<Longrightarrow> digit_value (digit_char d) = d"
  by (simp add: digit_value_def of_char_digit_char)

lemma show_nat_digits: "c \<in> set (show_nat n) \<Longrightarrow> is_digit c"
proof (induction n rule: show_nat.induct)
  case (1 n)
  then show ?case by (cases "n < 10") (auto simp: show_nat.simps [of n])
qed

lemma show_nat_not_Nil [simp]: "show_nat n \<noteq> []"
  by (subst show_nat.simps) simp

lemma read_digits_snoc: "read_digits (s @ [c]) = read_digits s * 10 + digit_value c"
  by (simp add: read_digits_def)

lemma read_show_nat [simp]: "read_digits (show_nat n) = n"
proof (induction n rule: show_nat.induct)
  case (1 n)
  show ?case
  proof (cases "n < 10")
    case True
    then show ?thesis by (simp add: show_nat.simps [of n] read_digits_def)
  next
    case False
    with 1 show ?thesis by (simp add: show_nat.simps [of n] read_digits_snoc)
  qed
qed

lemma show_nat_inj [simp]: "show_nat m = show_nat n \<longleftrightarrow> m = n"
  by (metis read_show_nat)

lemma minus_not_digit [simp]: "\<not> is_digit (CHR ''-'')"
  by (simp add: is_digit_def)

lemma show_nat_no_minus: "show_nat n \<noteq> CHR ''-'' # s"
proof
  assume "show_nat n = CHR ''-'' # s"
  then have "CHR ''-'' \<in> set (show_nat n)" by simp
  then show False using show_nat_digits minus_not_digit by blast
qed

lemma show_int_inj [simp]: "show_int i = show_int j \<longleftrightarrow> i = j"
  by (auto simp: show_int_def show_nat_no_minus show_nat_no_minus [symmetric])

section \<open>String methods\<close>

fun js_split :: "char \<Rightarrow> string \<Rightarrow> string list" where
  "js_split d [] = [[]]"
| "js_split d (c # cs) =
     (if c = d then [] # js_split d cs
      else (case js_split d cs of [] \<Rightarrow> [[c]] | w # ws \<Rightarrow> (c # w) # ws))"

fun js_join :: "string \<Rightarrow> string list \<Rightarrow> string" where
  "js_join sep [] = []"
| "js_join sep [w] = w"
| "js_join sep (w # v # ws) = w @ sep @ js_join sep (v # ws)"

fun starts_with :: "string \<Rightarrow> string \<Rightarrow> bool" where
  "starts_with [] s = True"
| "starts_with (p # ps) [] = False"
| "starts_with (p # ps) (c # cs) = (p = c \<and> starts_with ps cs)"

fun js_includes :: "string \<Rightarrow> string \<Rightarrow> bool" where
  "js_includes sub [] = (sub = [])"
| "js_includes sub (c # cs) = (starts_with sub (c # cs) \<or> js_includes sub cs)"

definition lower_char :: "char \<Rightarrow> char" where
  "lower_char c = (if 65 \<le> (of_char c :: nat) \<and> (of_char c :: nat) \<le> 90 then char_of ((of_char c :: nat) + 32) else c)"

definition to_lower :: "string \<Rightarrow> string" where
  "to_lower s = map lower_char s"

lemma js_split_not_Nil [simp]: "js_split d s \<noteq> []"
  by (induction s) (auto split: list.splits)

lemma js_split_word:
  "d \<notin> set w \<Longrightarrow> js_split d w = [w]"
  by (induction w) auto

lemma js_split_append:
  "d \<notin> set w \<Longrightarrow> js_split d (w @ d # s) = w # js_split d s"
  by (induction w) auto

lemma js_split_join:
  "ws \<noteq> [] \<Longrightarrow> (\<forall>w\<in>set ws. d \<notin> set w) \<Longrightarrow> js_split d (js_join [d] ws) = ws"
  by (induction ws rule: induct_list012) (simp_all add: js_split_word js_split_append)

lemma js_join_split: "js_join [d] (js_split d s) = s"
proof (induction s)
  case (Cons c s)
  show ?case
  proof (cases "js_split d s")
    case (Cons w ws)
    with Cons.IH show ?thesis by (cases ws) auto
  qed simp
qed simp

lemma js_split_no_sep: "w \<in> set (js_split d s) \<Longrightarrow> d \<notin> set w"
  by (induction s arbitrary: w) (auto split: list.splits if_splits)

lemma starts_with_iff: "starts_with p s \<longleftrightarrow> (\<exists>r. s = p @ r)"
  by (induction p s rule: starts_with.induct) auto

lemma js_includes_iff: "js_includes sub s \<longleftrightarrow> (\<exists>a b. s = a @ sub @ b)"
proof (induction s)
  case (Cons c cs)
  show ?case
  proof
    assume "js_includes sub (c # cs)"
    then show "\<exists>a b. c # cs = a @ sub @ b"
    proof (cases "starts_with sub (c # cs)")
      case True
      then show ?thesis by (auto simp: starts_with_iff intro: exI [of _ "[]"])
    next
      case False
      with \<open>js_includes sub (c # cs)\<close> obtain a b where "cs = a @ sub @ b"
        using Cons.IH by auto
      then have "c # cs = (c # a) @ sub @ b" by simp
      then show ?thesis by blast
    qed
  next
    assume "\<exists>a b. c # cs = a @ sub @ b"
    then obtain a b where eq: "c # cs = a @ sub @ b" by blast
    show "js_includes sub (c # cs)"
    proof (cases a)
      case Nil
      with eq have "starts_with sub (c # cs)" by (auto simp: starts_with_iff)
      then show ?thesis by simp
    next
      case (Cons x a')
      with eq have "\<exists>a b. cs = a @ sub @ b" by auto
      then show ?thesis using Cons.IH by simp
    qed
  qed
qed simp

section \<open>JSON\<close>

datatype json =
    JNull
  | JBool bool
  | JNum int
  | JStr string
  | JArr "json list"
  | JObj "(string \<times> json) list"

definition dquote :: char where "dquote = CHR 0x22"
definition backslash :: char where "backslash = CHR 0x5C"

definition hex_digit :: "nat \<Rightarrow> char" where
  "hex_digit d = (if d < 10 then char_of (48 + d) else char_of (87 + d))"

definition hex_value :: "char \<Rightarrow> nat option" where
  "hex_value c =
     (let n = of_char c in
      if 48 \<le> n \<and> n \<le> 57 then Some (n - 48)
      else if 97 \<le> n \<and> n \<le> 102 then Some (n - 87)
      else if 65 \<le> n \<and> n \<le> 70 then Some (n - 55)
      else None)"

text \<open>\<open>JSON.stringify\<close> escapes the quote, the backslash and the control characters.\<close>

definition escape_char :: "char \<Rightarrow> string" where
  "escape_char c =
     (let n = (of_char c :: nat) in
      if c = dquote then [backslash, dquote]
      else if c = backslash then [backslash, backslash]
      else if n = 8 then [backslash, CHR ''b'']
      else if n = 9 then [backslash, CHR ''t'']
      else if n = 10 then [backslash, CHR ''n'']
      else if n = 12 then [backslash, CHR ''f'']
      else if n = 13 then [backslash, CHR ''r'']
      else if n < 32 then [backslash, CHR ''u'', CHR ''0'', CHR ''0'', hex_digit (n div 16), hex_digit (n mod 16)]
      else [c])"

definition quote_string :: "string \<Rightarrow> string" where
  "quote_string s = [dquote] @ concat (map escape_char s) @ [dquote]"

fun JSON_stringify :: "json \<Rightarrow> string" where
  "JSON_stringify JNull = ''null''"
| "JSON_stringify (JBool b) = (if b then ''true'' else ''false'')"
| "JSON_stringify (JNum i) = show_int i"
| "JSON_stringify (JStr s) = quote_string s"
| "JSON_stringify (JArr js) = ''['' @ js_join '','' (map JSON_stringify js) @ '']''"
| "JSON_stringify (JObj ms) =
     ''{'' @ js_join '','' (map (\<lambda>(k, v). quote_string k @ '':'' @ JSON_stringify v) ms) @ ''}''"

definition is_ws :: "char \<Rightarrow> bool" where
  "is_ws c = (c = CHR '' '' \<or> c = CHR 0x09 \<or> c = CHR 0x0A \<or> c = CHR 0x0D)"

definition skip_ws :: "string \<Rightarrow> string" where
  "skip_ws s = dropWhile is_ws s"

definition expect :: "char \<Rightarrow> string \<Rightarrow> string option" where
  "expect c s = (case skip_ws s of [] \<Rightarrow> None | d # r \<Rightarrow> if d = c then Some r else None)"

text \<open>The body of a string literal, after its opening quote.\<close>

fun parse_chars :: "string \<Rightarrow> (string \<times> string) option" where
  "parse_chars [] = None"
| "parse_chars (c # cs) =
     (if c = dquote then Some ([], cs)
      else if c = backslash then
        (case cs of
           [] \<Rightarrow> None
         | e # r \<Rightarrow>
             if e = CHR ''u'' then
               (case r of
                  a # b # x # y # r' \<Rightarrow>
                    (case (hex_value a, hex_value b, hex_value x, hex_value y) of
                       (Some 0, Some 0, Some h, Some l) \<Rightarrow>
                         map_option (\<lambda>(s, t). (char_of (16 * h + l) # s, t)) (parse_chars r')
                     | _ \<Rightarrow> None)
                | _ \<Rightarrow> None)
             else
               (case map_of [(dquote, dquote), (backslash, backslash), (CHR ''/'', CHR ''/''), (CHR ''b'', CHR 0x08),
                   (CHR ''t'', CHR 0x09), (CHR ''n'', CHR 0x0A), (CHR ''f'', CHR 0x0C), (CHR ''r'', CHR 0x0D)] e of
                  None \<Rightarrow> None
                | Some d \<Rightarrow> map_option (\<lambda>(s, t). (d # s, t)) (parse_chars r)))
      else if (of_char c :: nat) < 32 then None
      else map_option (\<lambda>(s, t). (c # s, t)) (parse_chars cs))"

text \<open>An integer literal: no leading zero, no fraction, no exponent.\<close>

definition parse_number :: "string \<Rightarrow> (int \<times> string) option" where
  "parse_number s =
     (let neg = (s \<noteq> [] \<and> hd s = CHR ''-'');
          body = (if neg then tl s else s);
          ds = takeWhile is_digit body
      in if ds = [] \<or> (length ds > 1 \<and> hd ds = CHR ''0'') then None
         else Some ((if neg then - int (read_digits ds) else int (read_digits ds)), dropWhile is_digit body))"

text \<open>
  Values, array elements and object members by recursive descent; the fuel bounds the depth of
  the recursion, and \<open>JSON_parse\<close> supplies the length of the text, which is always enough for a
  text that \<open>JSON_stringify\<close> printed.
\<close>

fun parse_value :: "nat \<Rightarrow> string \<Rightarrow> (json \<times> string) option"
  and parse_elements :: "nat \<Rightarrow> string \<Rightarrow> (json list \<times> string) option"
  and parse_members :: "nat \<Rightarrow> string \<Rightarrow> ((string \<times> json) list \<times> string) option" where
  "parse_value 0 s = None"
| "parse_value (Suc n) s0 =
     (let s = skip_ws s0 in
      if starts_with ''null'' s then Some (JNull, drop 4 s)
      else if starts_with ''true'' s then Some (JBool True, drop 4 s)
      else if starts_with ''false'' s then Some (JBool False, drop 5 s)
      else
        (case s of
           [] \<Rightarrow> None
         | c # r \<Rightarrow>
             if c = dquote then map_option (\<lambda>(str, t). (JStr str, t)) (parse_chars r)
             else if c = CHR ''['' then
               (case expect (CHR '']'') r of
                  Some t \<Rightarrow> Some (JArr [], t)
                | None \<Rightarrow> map_option (\<lambda>(js, t). (JArr js, t)) (parse_elements n r))
             else if c = CHR ''{'' then
               (case expect (CHR ''}'') r of
                  Some t \<Rightarrow> Some (JObj [], t)
                | None \<Rightarrow> map_option (\<lambda>(ms, t). (JObj ms, t)) (parse_members n r))
             else map_option (\<lambda>(i, t). (JNum i, t)) (parse_number s)))"
| "parse_elements 0 s = None"
| "parse_elements (Suc n) s =
     (case parse_value n s of
        None \<Rightarrow> None
      | Some (j, t) \<Rightarrow>
          (case expect (CHR '','') t of
             Some t' \<Rightarrow> map_option (\<lambda>(js, u). (j # js, u)) (parse_elements n t')
           | None \<Rightarrow> map_option (\<lambda>u. ([j], u)) (expect (CHR '']'') t)))"
| "parse_members 0 s = None"
| "parse_members (Suc n) s =
     (case expect dquote s of
        None \<Rightarrow> None
      | Some r \<Rightarrow>
          (case parse_chars r of
             None \<Rightarrow> None
           | Some (k, t) \<Rightarrow>
               (case expect (CHR '':'') t of
                  None \<Rightarrow> None
                | Some t1 \<Rightarrow>
                    (case parse_value n t1 of
                       None \<Rightarrow> None
                     | Some (j, u) \<Rightarrow>
                         (case expect (CHR '','') u of
                            Some u' \<Rightarrow> map_option (\<lambda>(ms, w). ((k, j) # ms, w)) (parse_members n u')
                          | None \<Rightarrow> map_option (\<lambda>w. ([(k, j)], w)) (expect (CHR ''}'') u))))))"

definition JSON_parse :: "string \<Rightarrow> json option" where
  "JSON_parse s =
     (case parse_value (Suc (length s)) s of
        Some (j, r) \<Rightarrow> if skip_ws r = [] then Some j else None
      | None \<Rightarrow> None)"


subsection \<open>Reading back what was printed\<close>

lemma dquote_neq_backslash [simp]: "dquote \<noteq> backslash" "backslash \<noteq> dquote"
  by (simp_all add: dquote_def backslash_def)

lemma hex_value_hex_digit [simp]: "d < 16 \<Longrightarrow> hex_value (hex_digit d) = Some d"
  by (auto simp: hex_value_def hex_digit_def Let_def)

lemma hex_value_zero [simp]: "hex_value (CHR ''0'') = Some 0"
  by (simp add: hex_value_def)

lemma parse_escape_char:
  "parse_chars (escape_char c @ r) = map_option (\<lambda>(s, t). (c # s, t)) (parse_chars r)"
proof -
  have ctrl: "((of_char c :: nat) = 8) = (c = CHR 0x08)" "((of_char c :: nat) = 9) = (c = CHR 0x09)"
    "((of_char c :: nat) = 10) = (c = CHR 0x0A)" "((of_char c :: nat) = 12) = (c = CHR 0x0C)"
    "((of_char c :: nat) = 13) = (c = CHR 0x0D)"
    using of_char_eq_iff [of c "CHR 0x08", where ?'a = nat] of_char_eq_iff [of c "CHR 0x09", where ?'a = nat]
      of_char_eq_iff [of c "CHR 0x0A", where ?'a = nat] of_char_eq_iff [of c "CHR 0x0C", where ?'a = nat]
      of_char_eq_iff [of c "CHR 0x0D", where ?'a = nat] by simp_all
  consider "c \<in> {dquote, backslash, CHR 0x08, CHR 0x09, CHR 0x0A, CHR 0x0C, CHR 0x0D}"
    | "c \<notin> {dquote, backslash, CHR 0x08, CHR 0x09, CHR 0x0A, CHR 0x0C, CHR 0x0D}" "(of_char c :: nat) < 32"
    | "c \<noteq> dquote" "c \<noteq> backslash" "32 \<le> (of_char c :: nat)"
    by force
  then show ?thesis
  proof cases
    case 1
    then show ?thesis by (auto simp: escape_char_def Let_def dquote_def backslash_def)
  next
    case 2
    then have "char_of (16 * ((of_char c :: nat) div 16) + (of_char c :: nat) mod 16) = c" by simp
    with 2 show ?thesis
      by (simp add: escape_char_def Let_def ctrl del: mult_div_mod_eq)
  next
    case 3
    then show ?thesis by (simp add: escape_char_def Let_def)
  qed
qed

lemma parse_chars_quote:
  "parse_chars (concat (map escape_char s) @ dquote # r) = Some (s, r)"
  by (induction s) (simp_all add: parse_escape_char)

lemma is_ws_not: "\<not> is_ws dquote" "\<not> is_ws (CHR ''['')" "\<not> is_ws (CHR '']'')" "\<not> is_ws (CHR ''{'')"
  "\<not> is_ws (CHR ''}'')" "\<not> is_ws (CHR '','')" "\<not> is_ws (CHR '':'')" "\<not> is_ws (CHR ''n'')"
  "\<not> is_ws (CHR ''t'')" "\<not> is_ws (CHR ''f'')" "\<not> is_ws (CHR ''-'')"
  by (simp_all add: is_ws_def dquote_def)

lemma is_ws_digit: "is_digit c \<Longrightarrow> \<not> is_ws c"
  by (auto simp: is_ws_def is_digit_def)

lemma skip_ws_Cons [simp]: "\<not> is_ws c \<Longrightarrow> skip_ws (c # s) = c # s"
  by (simp add: skip_ws_def)

lemma expect_Cons [simp]: "\<not> is_ws c \<Longrightarrow> expect d (c # s) = (if c = d then Some s else None)"
  by (simp add: expect_def)

lemma show_nat_hd: "0 < n \<Longrightarrow> hd (show_nat n) \<noteq> CHR ''0''"
proof (induction n rule: show_nat.induct)
  case (1 n)
  show ?case
  proof (cases "n < 10")
    case True
    with "1.prems" have "(of_char (digit_char n) :: nat) \<noteq> of_char (CHR ''0'')"
      by (simp add: of_char_digit_char)
    with True show ?thesis by (auto simp: show_nat.simps [of n])
  next
    case False
    with 1 show ?thesis by (simp add: show_nat.simps [of n])
  qed
qed

definition no_digit_first :: "string \<Rightarrow> bool" where
  "no_digit_first r = (case r of [] \<Rightarrow> True | c # _ \<Rightarrow> \<not> is_digit c)"

lemma takeWhile_show_nat:
  assumes "no_digit_first r"
  shows "takeWhile is_digit (show_nat n @ r) = show_nat n" "dropWhile is_digit (show_nat n @ r) = r"
proof -
  have all: "\<forall>c\<in>set (show_nat n). is_digit c" by (blast intro: show_nat_digits)
  with assms show "takeWhile is_digit (show_nat n @ r) = show_nat n"
    by (cases r) (auto simp: no_digit_first_def takeWhile_append)
  from all assms show "dropWhile is_digit (show_nat n @ r) = r"
    by (cases r) (auto simp: no_digit_first_def dropWhile_append)
qed

lemma show_nat_first: "\<exists>c s. show_nat n = c # s \<and> is_digit c"
  using show_nat_digits [of "hd (show_nat n)" n] by (cases "show_nat n") auto

lemma parse_number_show_int:
  assumes "no_digit_first r"
  shows "parse_number (show_int i @ r) = Some (i, r)"
proof (cases "i < 0")
  case True
  then have "hd (show_nat (nat (- i))) \<noteq> CHR ''0''" by (intro show_nat_hd) simp
  with True show ?thesis
    by (simp add: parse_number_def show_int_def Let_def takeWhile_show_nat [OF assms])
next
  case False
  obtain c s where c: "show_nat (nat i) = c # s" "is_digit c" using show_nat_first by blast
  then have first: "hd (show_nat (nat i)) \<noteq> CHR ''-''" by auto
  have "\<not> (length (show_nat (nat i)) > 1 \<and> hd (show_nat (nat i)) = CHR ''0'')"
    using show_nat_hd [of "nat i"] by (cases "nat i = 0") (auto simp: show_nat.simps [of 0])
  with False first show ?thesis
    by (auto simp: parse_number_def show_int_def Let_def takeWhile_show_nat [OF assms])
qed

lemma quote_string_first: "quote_string s @ r = dquote # concat (map escape_char s) @ dquote # r"
  by (simp add: quote_string_def)

lemma starts_with_first_neq [simp]: "p \<noteq> c \<Longrightarrow> \<not> starts_with (p # ps) (c # cs)"
  by simp

lemma digit_not_special:
  assumes "is_digit c \<or> c = CHR ''-''"
  shows "c \<noteq> CHR ''n''" "c \<noteq> CHR ''t''" "c \<noteq> CHR ''f''" "c \<noteq> dquote" "c \<noteq> CHR ''[''" "c \<noteq> CHR ''{''" "\<not> is_ws c" "c \<noteq> CHR '']''"
  using assms by (auto simp: is_digit_def dquote_def is_ws_def)

lemma show_int_first: "\<exists>c s. show_int i = c # s \<and> (is_digit c \<or> c = CHR ''-'')"
  using show_nat_first [of "nat i"] by (auto simp: show_int_def)

lemma parse_value_number:
  assumes "no_digit_first r"
  shows "parse_value (Suc n) (show_int i @ r) = Some (JNum i, r)"
proof -
  obtain c s where c: "show_int i = c # s" "is_digit c \<or> c = CHR ''-''" using show_int_first by blast
  note ns = digit_not_special [OF c(2)]
  from c(1) have "show_int i @ r = c # s @ r" by simp
  moreover have "parse_number (c # s @ r) = Some (i, r)"
    using parse_number_show_int [OF assms, of i] c(1) by simp
  ultimately show ?thesis using ns by (simp add: Let_def)
qed

lemma JSON_stringify_length: "0 < length (JSON_stringify j)"
proof (cases j)
  case (JNum i)
  then show ?thesis using show_int_first [of i] by auto
qed (simp_all add: quote_string_def)

text \<open>
  The fuel that \<open>JSON_parse\<close> supplies is enough: a text of length \<open>k\<close> needs at most \<open>k\<close> units.
\<close>

lemma parse_elements_join:
  assumes "\<And>j n r. j \<in> set js \<Longrightarrow> length (JSON_stringify j) \<le> n \<Longrightarrow> no_digit_first r \<Longrightarrow>
      parse_value n (JSON_stringify j @ r) = Some (j, r)"
    and "js \<noteq> []" and "length (js_join '','' (map JSON_stringify js)) < n"
  shows "parse_elements n (js_join '','' (map JSON_stringify js) @ CHR '']'' # r) = Some (js, r)"
  using assms
proof (induction js arbitrary: n)
  case (Cons j js)
  obtain m where n: "n = Suc m" using Cons.prems(3) by (cases n) auto
  note IHj = Cons.prems(1) [of j]
  show ?case
  proof (cases js)
    case Nil
    with Cons.prems(3) n have "length (JSON_stringify j) \<le> m" by simp
    then have "parse_value m (JSON_stringify j @ CHR '']'' # r) = Some (j, CHR '']'' # r)"
      by (intro IHj) (simp_all add: no_digit_first_def is_digit_def)
    with Nil n show ?thesis by (simp add: is_ws_not)
  next
    case (Cons j' js')
    let ?rest = "js_join '','' (map JSON_stringify js) @ CHR '']'' # r"
    have len: "length (JSON_stringify j) \<le> m" "length (js_join '','' (map JSON_stringify js)) < m"
      using Cons.prems(3) n Cons JSON_stringify_length [of j] by auto
    have "parse_value m (JSON_stringify j @ CHR '','' # ?rest) = Some (j, CHR '','' # ?rest)"
      using len(1) by (intro IHj) (simp_all add: no_digit_first_def is_digit_def)
    moreover have "parse_elements m ?rest = Some (js, r)"
      using Cons.prems(1) len(2) Cons by (intro Cons.IH) auto
    ultimately show ?thesis using n Cons by (simp add: is_ws_not)
  qed
qed simp

definition show_member :: "string \<times> json \<Rightarrow> string" where
  "show_member m = quote_string (fst m) @ '':'' @ JSON_stringify (snd m)"

lemma JSON_stringify_JObj: "JSON_stringify (JObj ms) = ''{'' @ js_join '','' (map show_member ms) @ ''}''"
proof -
  have "(\<lambda>(k, v). quote_string k @ '':'' @ JSON_stringify v) = show_member"
    by (auto simp: show_member_def)
  then show ?thesis by simp
qed

lemma show_member_append:
  "show_member (k, v) @ r = dquote # concat (map escape_char k) @ dquote # CHR '':'' # JSON_stringify v @ r"
  by (simp add: show_member_def quote_string_def)

lemma parse_members_join:
  assumes "\<And>k j n r. (k, j) \<in> set ms \<Longrightarrow> length (JSON_stringify j) \<le> n \<Longrightarrow> no_digit_first r \<Longrightarrow>
      parse_value n (JSON_stringify j @ r) = Some (j, r)"
    and "ms \<noteq> []" and "length (js_join '','' (map show_member ms)) < n"
  shows "parse_members n (js_join '','' (map show_member ms) @ CHR ''}'' # r) = Some (ms, r)"
  using assms
proof (induction ms arbitrary: n)
  case (Cons km ms)
  obtain k j where km: "km = (k, j)" by (cases km)
  obtain m where n: "n = Suc m" using Cons.prems(3) by (cases n) auto
  note IHj = Cons.prems(1) [of k j]
  have len_j: "length (JSON_stringify j) < length (show_member km)"
    by (simp add: km show_member_def quote_string_def)
  show ?case
  proof (cases ms)
    case Nil
    with Cons.prems(3) n len_j have "length (JSON_stringify j) \<le> m" by simp
    then have "parse_value m (JSON_stringify j @ CHR ''}'' # r) = Some (j, CHR ''}'' # r)"
      by (intro IHj) (simp_all add: km no_digit_first_def is_digit_def)
    with Nil n km show ?thesis by (simp add: show_member_append parse_chars_quote is_ws_not)
  next
    case (Cons m' ms')
    let ?rest = "js_join '','' (map show_member ms) @ CHR ''}'' # r"
    have len: "length (JSON_stringify j) \<le> m" "length (js_join '','' (map show_member ms)) < m"
      using Cons.prems(3) n Cons len_j by auto
    have "parse_value m (JSON_stringify j @ CHR '','' # ?rest) = Some (j, CHR '','' # ?rest)"
      using len(1) by (intro IHj) (simp_all add: km no_digit_first_def is_digit_def)
    moreover have "parse_members m ?rest = Some (ms, r)"
      using Cons.prems(1) len(2) Cons by (intro Cons.IH) auto
    ultimately show ?thesis
      using n Cons km by (simp add: show_member_append parse_chars_quote is_ws_not)
  qed
qed simp

lemma js_join_first:
  assumes "ws \<noteq> []" and "hd ws = c # w"
  shows "\<exists>s. js_join sep ws = c # s"
  using assms by (cases ws rule: remdups_adj.cases) auto

lemma JSON_stringify_first:
  "\<exists>c s. JSON_stringify j = c # s \<and> \<not> is_ws c \<and> c \<noteq> CHR '']''"
proof (cases j)
  case (JNum i)
  obtain c s where c: "show_int i = c # s" "is_digit c \<or> c = CHR ''-''" using show_int_first by blast
  with JNum show ?thesis using digit_not_special(7,8) [OF c(2)] by simp
qed (auto simp: quote_string_def is_ws_def dquote_def)

lemma parse_value_stringify:
  "length (JSON_stringify j) \<le> n \<Longrightarrow> no_digit_first r \<Longrightarrow>
    parse_value n (JSON_stringify j @ r) = Some (j, r)"
proof (induction j arbitrary: n r)
  case (JNum i)
  then obtain m where "n = Suc m" using JSON_stringify_length [of "JNum i"] by (cases n) auto
  with JNum.prems show ?case by (simp only: JSON_stringify.simps parse_value_number)
next
  case (JStr s)
  then obtain m where "n = Suc m" by (cases n) (auto simp: quote_string_def)
  then show ?case by (simp add: quote_string_first parse_chars_quote is_ws_not Let_def) (simp add: dquote_def)
next
  case (JArr js)
  then obtain m where n: "n = Suc m" by (cases n) auto
  show ?case
  proof (cases "js = []")
    case True
    with n show ?thesis by (simp add: is_ws_not dquote_def)
  next
    case False
    let ?body = "js_join '','' (map JSON_stringify js)"
    obtain c s where "JSON_stringify (hd js) = c # s" "\<not> is_ws c" "c \<noteq> CHR '']''"
      using JSON_stringify_first by blast
    moreover from this False obtain t where "?body = c # t"
      using js_join_first [of "map JSON_stringify js" c s "'',''"] by (auto simp: hd_map)
    ultimately have "expect (CHR '']'') (?body @ CHR '']'' # r) = None" by simp
    moreover have "parse_elements m (?body @ CHR '']'' # r) = Some (js, r)"
      using JArr n False by (intro parse_elements_join) auto
    ultimately show ?thesis using n by (simp add: is_ws_not dquote_def)
  qed
next
  case (JObj ms)
  then obtain m where n: "n = Suc m" by (cases n) auto
  show ?case
  proof (cases "ms = []")
    case True
    with n show ?thesis by (simp add: is_ws_not dquote_def)
  next
    case False
    let ?body = "js_join '','' (map show_member ms)"
    have "hd (map show_member ms) = dquote # tl (show_member (hd ms))"
      using False by (simp add: hd_map show_member_def quote_string_def)
    with False obtain t where "?body = dquote # t"
      using js_join_first [of "map show_member ms" dquote _ "'',''"] by auto
    then have "expect (CHR ''}'') (?body @ CHR ''}'' # r) = None"
      by (simp add: is_ws_not) (simp add: dquote_def)
    moreover have "parse_members m (?body @ CHR ''}'' # r) = Some (ms, r)"
    proof (rule parse_members_join)
      show "length ?body < m" using JObj.prems(1) n by (simp add: JSON_stringify_JObj del: JSON_stringify.simps)
    qed (use JObj.IH False in auto)
    ultimately show ?thesis
      using n by (simp add: JSON_stringify_JObj is_ws_not dquote_def del: JSON_stringify.simps)
  qed
next
  case JNull
  then obtain m where "n = Suc m" by (cases n) auto
  then show ?case by (simp add: is_ws_not)
next
  case (JBool b)
  then obtain m where "n = Suc m" by (cases n) (auto split: if_splits)
  then show ?case by (simp add: is_ws_not)
qed

lemma JSON_parse_stringify [simp]: "JSON_parse (JSON_stringify j) = Some j"
  using parse_value_stringify [of j "Suc (length (JSON_stringify j))" "[]"]
  by (simp add: JSON_parse_def no_digit_first_def skip_ws_def)

end
