(* ===== verification/SysDB_Schema.thy ===== *)
theory SysDB_Schema
  imports JS_Text
begin

text \<open>
  The data model of the system database: the error classes of \<open>src/error.ts\<close>, the status
  strings of \<open>src/workflow.ts\<close>, the table rows of \<open>schemas/system_db_schema.ts\<close> with the defaults
  and constraints of \<open>src/sysdb_migrations/internal/migrations.ts\<close>, the in-memory status record of
  \<open>src/system_database.ts\<close>, and the state of a \<open>SystemDatabase\<close> object: its tables and its
  in-memory maps.

  A nullable column is an option; an absent optional property is \<open>None\<close>. Columns of type
  \<open>bigint\<close> arrive in JavaScript as decimal strings, so \<open>row.x ? Number(row.x) : undefined\<close> is the
  column itself. Timestamps are integers (epoch milliseconds). A table is the list of its rows;
  each table interprets \<open>keyed_table\<close> with its primary key.
\<close>

section \<open>Errors\<close>

datatype dbos_error =
    DBOSError string
  | DBOSInitializationError string
  | DBOSWorkflowConflictError string
  | DBOSNotRegisteredError string
  | DBOSDataValidationError string
  | DBOSNotAuthorizedError string
  | DBOSConfigKeyTypeError string string string
  | DBOSNonExistentWorkflowError string
  | DBOSFailLoadOperationsError string
  | DBOSMaxRecoveryAttemptsExceededError string int
  | DBOSExecutorNotInitializedError
  | DBOSInvalidWorkflowTransitionError string
  | DBOSConflictingWorkflowError string string
  | DBOSMaxStepRetriesError string int "dbos_error list"
  | DBOSWorkflowCancelledError string
  | DBOSConflictingRegistrationError string
  | DBOSUnexpectedStepError string int string string
  | DBOSAwaitedWorkflowCancelledError string
  | DBOSQueueDuplicatedError string string string
  | DBOSInvalidQueuePriorityError int int int
  | DBOSAwaitedWorkflowExceededMaxRecoveryAttempts string
  | DBOSStepTimeoutError string int
  | DBOSInvalidWorkflowInputError string string
  | PortableWorkflowError string string "json option" "json option"
  | PlainError string
  | PgError string

text \<open>
  \<open>PortableWorkflowError\<close> (message, name, code, data) is the error class of portable results;
  \<open>PlainError\<close> is JavaScript's \<open>Error\<close> / \<open>TypeError\<close> and carries no code; \<open>PgError\<close> is a
  \<open>DatabaseError\<close> of the driver with its SQLSTATE.
\<close>

fun dbosErrorCode :: "dbos_error \<Rightarrow> nat option" where
  "dbosErrorCode (DBOSError _) = Some 1"
| "dbosErrorCode (DBOSInitializationError _) = Some 3"
| "dbosErrorCode (DBOSWorkflowConflictError _) = Some 5"
| "dbosErrorCode (DBOSNotRegisteredError _) = Some 6"
| "dbosErrorCode (DBOSDataValidationError _) = Some 9"
| "dbosErrorCode (DBOSNotAuthorizedError _) = Some 12"
| "dbosErrorCode (DBOSConfigKeyTypeError _ _ _) = Some 14"
| "dbosErrorCode (DBOSNonExistentWorkflowError _) = Some 16"
| "dbosErrorCode (DBOSFailLoadOperationsError _) = Some 17"
| "dbosErrorCode (DBOSMaxRecoveryAttemptsExceededError _ _) = Some 18"
| "dbosErrorCode DBOSExecutorNotInitializedError = Some 20"
| "dbosErrorCode (DBOSInvalidWorkflowTransitionError _) = Some 21"
| "dbosErrorCode (DBOSConflictingWorkflowError _ _) = Some 22"
| "dbosErrorCode (DBOSMaxStepRetriesError _ _ _) = Some 23"
| "dbosErrorCode (DBOSWorkflowCancelledError _) = Some 24"
| "dbosErrorCode (DBOSConflictingRegistrationError _) = Some 25"
| "dbosErrorCode (DBOSUnexpectedStepError _ _ _ _) = Some 26"
| "dbosErrorCode (DBOSAwaitedWorkflowCancelledError _) = Some 27"
| "dbosErrorCode (DBOSQueueDuplicatedError _ _ _) = Some 28"
| "dbosErrorCode (DBOSInvalidQueuePriorityError _ _ _) = Some 29"
| "dbosErrorCode (DBOSAwaitedWorkflowExceededMaxRecoveryAttempts _) = Some 30"
| "dbosErrorCode (DBOSStepTimeoutError _ _) = Some 31"
| "dbosErrorCode (DBOSInvalidWorkflowInputError _ _) = Some 32"
| "dbosErrorCode (PortableWorkflowError _ _ _ _) = None"
| "dbosErrorCode (PlainError _) = None"
| "dbosErrorCode (PgError _) = None"

definition isDataValidationError :: "dbos_error \<Rightarrow> bool" where
  "isDataValidationError e = (dbosErrorCode e = Some 9)"

section \<open>Workflow status values\<close>

datatype wf_status =
    PENDING | SUCCESS | ERROR | MAX_RECOVERY_ATTEMPTS_EXCEEDED | CANCELLED | ENQUEUED | DELAYED

fun status_string :: "wf_status \<Rightarrow> string" where
  "status_string PENDING = ''PENDING''"
| "status_string SUCCESS = ''SUCCESS''"
| "status_string ERROR = ''ERROR''"
| "status_string MAX_RECOVERY_ATTEMPTS_EXCEEDED = ''MAX_RECOVERY_ATTEMPTS_EXCEEDED''"
| "status_string CANCELLED = ''CANCELLED''"
| "status_string ENQUEUED = ''ENQUEUED''"
| "status_string DELAYED = ''DELAYED''"

definition isWorkflowActive :: "wf_status \<Rightarrow> bool" where
  "isWorkflowActive s = (s = PENDING \<or> s = ENQUEUED \<or> s = DELAYED)"

section \<open>Table rows\<close>

record workflow_status =
  ws_workflow_uuid :: string
  ws_status :: wf_status
  ws_name :: string
  ws_class_name :: "string option"
  ws_config_name :: "string option"
  ws_authenticated_user :: "string option"
  ws_output :: "string option"
  ws_error :: "string option"
  ws_assumed_role :: "string option"
  ws_authenticated_roles :: "string option"
  ws_request :: "string option"
  ws_executor_id :: "string option"
  ws_application_version :: "string option"
  ws_queue_name :: "string option"
  ws_created_at :: int
  ws_updated_at :: int
  ws_application_id :: "string option"
  ws_recovery_attempts :: int
  ws_workflow_timeout_ms :: "int option"
  ws_workflow_deadline_epoch_ms :: "int option"
  ws_inputs :: "string option"
  ws_started_at_epoch_ms :: "int option"
  ws_deduplication_id :: "string option"
  ws_priority :: int
  ws_queue_partition_key :: "string option"
  ws_forked_from :: "string option"
  ws_was_forked_from :: bool
  ws_owner_xid :: "string option"
  ws_parent_workflow_id :: "string option"
  ws_serialization :: "string option"
  ws_delay_until_epoch_ms :: "int option"
  ws_rate_limited :: bool
  ws_completed_at :: "int option"
  ws_attributes :: "json option"
  ws_schedule_name :: "string option"
  ws_debounce_deadline_epoch_ms :: "int option"
  ws_is_debounced :: bool

record notifications =
  nt_destination_uuid :: string
  nt_topic :: string
  nt_message :: "string option"
  nt_created_at_epoch_ms :: int
  nt_message_uuid :: string
  nt_consumed :: bool
  nt_serialization :: "string option"

record workflow_events =
  we_workflow_uuid :: string
  we_key :: string
  we_value :: "string option"
  we_serialization :: "string option"

record operation_outputs =
  oo_workflow_uuid :: string
  oo_function_id :: int
  oo_output :: "string option"
  oo_error :: "string option"
  oo_child_workflow_id :: "string option"
  oo_function_name :: string
  oo_started_at_epoch_ms :: "int option"
  oo_completed_at_epoch_ms :: "int option"
  oo_serialization :: "string option"

record event_dispatch_kv =
  ed_service_name :: string
  ed_workflow_fn_name :: string
  ed_key :: string
  ed_value :: "string option"
  ed_update_time :: "int option"
  ed_update_seq :: "int option"

record streams =
  st_workflow_uuid :: string
  st_key :: string
  st_value :: string
  st_offset :: int
  st_function_id :: int
  st_serialization :: "string option"

record workflow_events_history =
  eh_workflow_uuid :: string
  eh_function_id :: int
  eh_key :: string
  eh_value :: "string option"
  eh_serialization :: "string option"

record workflow_schedules =
  sc_schedule_id :: string
  sc_schedule_name :: string
  sc_workflow_name :: string
  sc_workflow_class_name :: string
  sc_schedule :: string
  sc_status :: string
  sc_context :: string
  sc_last_fired_at :: "string option"
  sc_automatic_backfill :: bool
  sc_cron_timezone :: "string option"
  sc_queue_name :: "string option"

record application_versions =
  av_version_id :: string
  av_version_name :: string
  av_version_timestamp :: int
  av_created_at :: int

record queues =
  qu_queue_id :: string
  qu_name :: string
  qu_concurrency :: "int option"
  qu_worker_concurrency :: "int option"
  qu_rate_limit_max :: "int option"
  qu_rate_limit_period_ms :: "int option"
  qu_priority_enabled :: bool
  qu_partition_queue :: bool
  qu_polling_interval_ms :: int
  qu_created_at :: int
  qu_updated_at :: int

text \<open>
  The two \<open>double precision\<close> columns of \<open>queues\<close> are seconds that the source multiplies by 1000
  before use (\<open>findAndMarkStartableWorkflows\<close>, \<open>refreshFromDb\<close>); the row keeps them in milliseconds.
\<close>

section \<open>The in-memory status record\<close>

record WorkflowStatusInternal =
  si_workflowUUID :: string
  si_status :: wf_status
  si_workflowName :: string
  si_workflowClassName :: string
  si_workflowConfigName :: string
  si_queueName :: "string option"
  si_authenticatedUser :: "string option"
  si_output :: "string option"
  si_error :: "string option"
  si_input :: "string option"
  si_assumedRole :: "string option"
  si_authenticatedRoles :: json
  si_request :: json
  si_executorId :: "string option"
  si_applicationVersion :: "string option"
  si_applicationID :: "string option"
  si_createdAt :: int
  si_updatedAt :: "int option"
  si_recoveryAttempts :: "int option"
  si_timeoutMS :: "int option"
  si_deadlineEpochMS :: "int option"
  si_deduplicationID :: "string option"
  si_priority :: int
  si_queuePartitionKey :: "string option"
  si_startedAtEpochMs :: "int option"
  si_forkedFrom :: "string option"
  si_wasForkedFrom :: "bool option"
  si_parentWorkflowID :: "string option"
  si_serialization :: "string option"
  si_delayUntilEpochMS :: "int option"
  si_completedAt :: "int option"
  si_attributes :: "json option"
  si_scheduleName :: "string option"
  si_debounceDeadlineEpochMS :: "int option"
  si_isDebounced :: "bool option"

text \<open>
  Reading a row back. The two JSON columns are parsed (\<open>JSON.parse\<close> throws on text that is not
  JSON; a row of this program never holds such text); \<open>output\<close>, \<open>error\<close> and \<open>inputs\<close> turn an empty
  text into \<open>null\<close>.
\<close>

definition parse_json_column :: "string option \<Rightarrow> json option" where
  "parse_json_column v = (case v of None \<Rightarrow> Some JNull | Some s \<Rightarrow> JSON_parse s)"

definition mapWorkflowStatus :: "workflow_status \<Rightarrow> WorkflowStatusInternal option" where
  "mapWorkflowStatus row =
     (case parse_json_column (ws_authenticated_roles row) of
        None \<Rightarrow> None
      | Some roles \<Rightarrow>
     (case (if truthy (ws_request row) then parse_json_column (ws_request row) else Some (JObj [])) of
        None \<Rightarrow> None
      | Some request \<Rightarrow> Some \<lparr>
          si_workflowUUID = ws_workflow_uuid row,
          si_status = ws_status row,
          si_workflowName = ws_name row,
          si_workflowClassName = coalesce (ws_class_name row) [],
          si_workflowConfigName = coalesce (ws_config_name row) [],
          si_queueName = ws_queue_name row,
          si_authenticatedUser = ws_authenticated_user row,
          si_output = or_null (ws_output row),
          si_error = or_null (ws_error row),
          si_input = or_null (ws_inputs row),
          si_assumedRole = ws_assumed_role row,
          si_authenticatedRoles = roles,
          si_request = request,
          si_executorId = ws_executor_id row,
          si_applicationVersion = ws_application_version row,
          si_applicationID = ws_application_id row,
          si_createdAt = ws_created_at row,
          si_updatedAt = Some (ws_updated_at row),
          si_recoveryAttempts = Some (ws_recovery_attempts row),
          si_timeoutMS = ws_workflow_timeout_ms row,
          si_deadlineEpochMS = ws_workflow_deadline_epoch_ms row,
          si_deduplicationID = ws_deduplication_id row,
          si_priority = ws_priority row,
          si_queuePartitionKey = ws_queue_partition_key row,
          si_startedAtEpochMs = ws_started_at_epoch_ms row,
          si_forkedFrom = ws_forked_from row,
          si_wasForkedFrom = Some (ws_was_forked_from row),
          si_parentWorkflowID = ws_parent_workflow_id row,
          si_serialization = ws_serialization row,
          si_delayUntilEpochMS = ws_delay_until_epoch_ms row,
          si_completedAt = ws_completed_at row,
          si_attributes = ws_attributes row,
          si_scheduleName = ws_schedule_name row,
          si_debounceDeadlineEpochMS = ws_debounce_deadline_epoch_ms row,
          si_isDebounced = Some (ws_is_debounced row) \<rparr>))"

section \<open>The state of a system database\<close>

record running_entry =
  rw_queueName :: "string option"
  rw_queuePartitionKey :: "string option"

text \<open>
  The tables, then the in-memory state of the \<open>SystemDatabase\<close> object: the running-workflow map
  (keys in insertion order), the \<open>created_at\<close> cursors of batch enqueues, the notifications waiting
  to be flushed (per channel, a set of payloads), the flag \<open>shouldUseDBNotifications\<close>, and the
  executor ID of the process (\<open>globalParams.executorID\<close>).
\<close>

record sysdb =
  t_workflow_status :: "workflow_status list"
  t_operation_outputs :: "operation_outputs list"
  t_notifications :: "notifications list"
  t_workflow_events :: "workflow_events list"
  t_workflow_events_history :: "workflow_events_history list"
  t_streams :: "streams list"
  t_event_dispatch_kv :: "event_dispatch_kv list"
  t_workflow_schedules :: "workflow_schedules list"
  t_application_versions :: "application_versions list"
  t_queues :: "queues list"
  m_runningWorkflowMap :: "(string \<times> running_entry) list"
  m_batchCreatedAtCursors :: "string \<rightharpoonup> int"
  m_pendingNotifications :: "(string \<times> string list) list"
  m_shouldUseDBNotifications :: bool
  m_executorID :: string

type_synonym 'a db_op = "(sysdb, dbos_error, 'a) op"

definition oo_pk :: "operation_outputs \<Rightarrow> string \<times> int" where
  "oo_pk r = (oo_workflow_uuid r, oo_function_id r)"

definition we_pk :: "workflow_events \<Rightarrow> string \<times> string" where
  "we_pk r = (we_workflow_uuid r, we_key r)"

definition eh_pk :: "workflow_events_history \<Rightarrow> string \<times> int \<times> string" where
  "eh_pk r = (eh_workflow_uuid r, eh_function_id r, eh_key r)"

definition st_pk :: "streams \<Rightarrow> string \<times> string \<times> int" where
  "st_pk r = (st_workflow_uuid r, st_key r, st_offset r)"

definition ed_pk :: "event_dispatch_kv \<Rightarrow> string \<times> string \<times> string" where
  "ed_pk r = (ed_service_name r, ed_workflow_fn_name r, ed_key r)"

interpretation ws_table: keyed_table ws_workflow_uuid "find_row ws_workflow_uuid"
    "\<lambda>r rows. rows @ [r]" update_where delete_where "unique_key ws_workflow_uuid"
  by (rule keyed_table_list)

interpretation oo_table: keyed_table oo_pk "find_row oo_pk"
    "\<lambda>r rows. rows @ [r]" update_where delete_where "unique_key oo_pk"
  by (rule keyed_table_list)

interpretation nt_table: keyed_table nt_message_uuid "find_row nt_message_uuid"
    "\<lambda>r rows. rows @ [r]" update_where delete_where "unique_key nt_message_uuid"
  by (rule keyed_table_list)

interpretation we_table: keyed_table we_pk "find_row we_pk"
    "\<lambda>r rows. rows @ [r]" update_where delete_where "unique_key we_pk"
  by (rule keyed_table_list)

interpretation eh_table: keyed_table eh_pk "find_row eh_pk"
    "\<lambda>r rows. rows @ [r]" update_where delete_where "unique_key eh_pk"
  by (rule keyed_table_list)

interpretation st_table: keyed_table st_pk "find_row st_pk"
    "\<lambda>r rows. rows @ [r]" update_where delete_where "unique_key st_pk"
  by (rule keyed_table_list)

interpretation ed_table: keyed_table ed_pk "find_row ed_pk"
    "\<lambda>r rows. rows @ [r]" update_where delete_where "unique_key ed_pk"
  by (rule keyed_table_list)

interpretation sc_table: keyed_table sc_schedule_name "find_row sc_schedule_name"
    "\<lambda>r rows. rows @ [r]" update_where delete_where "unique_key sc_schedule_name"
  by (rule keyed_table_list)

interpretation av_table: keyed_table av_version_name "find_row av_version_name"
    "\<lambda>r rows. rows @ [r]" update_where delete_where "unique_key av_version_name"
  by (rule keyed_table_list)

interpretation qu_table: keyed_table qu_name "find_row qu_name"
    "\<lambda>r rows. rows @ [r]" update_where delete_where "unique_key qu_name"
  by (rule keyed_table_list)

section \<open>Constraints of the schema\<close>

text \<open>
  The unique index \<open>uq_workflow_status_dedup_id\<close> on \<open>(queue_name, deduplication_id)\<close>: a NULL in
  either column never conflicts.
\<close>

definition dedup_conflict :: "workflow_status \<Rightarrow> workflow_status \<Rightarrow> bool" where
  "dedup_conflict r r' =
     (ws_queue_name r \<noteq> None \<and> ws_deduplication_id r \<noteq> None \<and>
      ws_queue_name r = ws_queue_name r' \<and> ws_deduplication_id r = ws_deduplication_id r')"

definition dedup_unique :: "workflow_status list \<Rightarrow> bool" where
  "dedup_unique rows = sorted_wrt (\<lambda>r r'. \<not> dedup_conflict r r') rows"

text \<open>The foreign keys onto \<open>workflow_status\<close>, all \<open>ON DELETE CASCADE\<close>.\<close>

definition workflow_ids :: "sysdb \<Rightarrow> string set" where
  "workflow_ids db = ws_workflow_uuid ` set (t_workflow_status db)"

definition foreign_keys :: "sysdb \<Rightarrow> bool" where
  "foreign_keys db =
     ((\<forall>r\<in>set (t_operation_outputs db). oo_workflow_uuid r \<in> workflow_ids db) \<and>
      (\<forall>r\<in>set (t_notifications db). nt_destination_uuid r \<in> workflow_ids db) \<and>
      (\<forall>r\<in>set (t_workflow_events db). we_workflow_uuid r \<in> workflow_ids db) \<and>
      (\<forall>r\<in>set (t_workflow_events_history db). eh_workflow_uuid r \<in> workflow_ids db) \<and>
      (\<forall>r\<in>set (t_streams db). st_workflow_uuid r \<in> workflow_ids db))"

definition primary_keys :: "sysdb \<Rightarrow> bool" where
  "primary_keys db =
     (unique_key ws_workflow_uuid (t_workflow_status db) \<and>
      unique_key oo_pk (t_operation_outputs db) \<and>
      unique_key nt_message_uuid (t_notifications db) \<and>
      unique_key we_pk (t_workflow_events db) \<and>
      unique_key eh_pk (t_workflow_events_history db) \<and>
      unique_key st_pk (t_streams db) \<and>
      unique_key ed_pk (t_event_dispatch_kv db) \<and>
      unique_key sc_schedule_name (t_workflow_schedules db) \<and>
      unique_key av_version_name (t_application_versions db) \<and>
      unique_key qu_name (t_queues db))"

definition db_wf :: "sysdb \<Rightarrow> bool" where
  "db_wf db = (primary_keys db \<and> foreign_keys db \<and> dedup_unique (t_workflow_status db))"

definition empty_sysdb :: "string \<Rightarrow> bool \<Rightarrow> sysdb" where
  "empty_sysdb executorID useListenNotify = \<lparr>
     t_workflow_status = [], t_operation_outputs = [], t_notifications = [], t_workflow_events = [],
     t_workflow_events_history = [], t_streams = [], t_event_dispatch_kv = [], t_workflow_schedules = [],
     t_application_versions = [], t_queues = [], m_runningWorkflowMap = [],
     m_batchCreatedAtCursors = (\<lambda>_. None), m_pendingNotifications = [],
     m_shouldUseDBNotifications = useListenNotify, m_executorID = executorID \<rparr>"

lemmas db_wf_defs = db_wf_def primary_keys_def foreign_keys_def workflow_ids_def

lemma db_wf_empty: "db_wf (empty_sysdb e u)"
  by (simp add: db_wf_defs empty_sysdb_def dedup_unique_def)

lemma dedup_conflict_sym: "dedup_conflict r r' = dedup_conflict r' r"
  by (auto simp: dedup_conflict_def)

lemma dedup_unique_Nil [simp]: "dedup_unique []"
  by (simp add: dedup_unique_def)

lemma dedup_unique_Cons [simp]:
  "dedup_unique (r # rs) \<longleftrightarrow> (\<forall>r'\<in>set rs. \<not> dedup_conflict r r') \<and> dedup_unique rs"
  by (simp add: dedup_unique_def)

lemma dedup_unique_append:
  "dedup_unique (rs @ ss) \<longleftrightarrow>
    dedup_unique rs \<and> dedup_unique ss \<and> (\<forall>r\<in>set rs. \<forall>s\<in>set ss. \<not> dedup_conflict r s)"
  by (auto simp: dedup_unique_def sorted_wrt_append)

lemma dedup_unique_delete_where: "dedup_unique rows \<Longrightarrow> dedup_unique (delete_where P rows)"
  by (simp add: dedup_unique_def delete_where_def sorted_wrt_filter)

text \<open>An update that drops the deduplication ID, or leaves it and the queue alone, keeps the index.\<close>

lemma dedup_unique_update_where:
  assumes "\<And>r. P r \<Longrightarrow> ws_deduplication_id (f r) = None \<or>
      ws_deduplication_id (f r) = ws_deduplication_id r \<and> ws_queue_name (f r) = ws_queue_name r"
    and "dedup_unique rows"
  shows "dedup_unique (update_where P f rows)"
proof -
  define g where "g r = (if P r then f r else r)" for r
  have conf: "\<not> dedup_conflict (g r) (g r')" if "\<not> dedup_conflict r r'" for r r'
    using that assms(1) [of r] assms(1) [of r'] by (auto simp: dedup_conflict_def g_def)
  have "update_where P f rows = map g rows" by (simp add: update_where_def g_def)
  moreover have "sorted_wrt (\<lambda>r r'. \<not> dedup_conflict (g r) (g r')) rows"
    using sorted_wrt_mono_rel [OF conf] assms(2) by (simp add: dedup_unique_def)
  ultimately show ?thesis by (simp add: dedup_unique_def sorted_wrt_map)
qed

lemma db_wf_update_status:
  assumes "db_wf db" and "\<And>r. P r \<Longrightarrow> ws_workflow_uuid (f r) = ws_workflow_uuid r"
    and "dedup_unique (update_where P f (t_workflow_status db))"
  shows "db_wf (db\<lparr>t_workflow_status := update_where P f (t_workflow_status db)\<rparr>)"
proof -
  have ids: "ws_workflow_uuid ` set (update_where P f (t_workflow_status db)) =
      ws_workflow_uuid ` set (t_workflow_status db)"
    using map_key_update_where [of P ws_workflow_uuid f "t_workflow_status db"] assms(2)
    by (metis list.set_map)
  show ?thesis using assms by (simp add: db_wf_defs ids unique_key_update_where)
qed

lemma db_wf_insert_status:
  assumes "db_wf db" and "ws_workflow_uuid r \<notin> workflow_ids db"
    and "\<And>r'. r' \<in> set (t_workflow_status db) \<Longrightarrow> \<not> dedup_conflict r r'"
  shows "db_wf (db\<lparr>t_workflow_status := t_workflow_status db @ [r]\<rparr>)"
  using assms by (auto simp: db_wf_defs dedup_unique_append dedup_conflict_sym)

lemma db_wf_status_key [simp]:
  "db_wf db \<Longrightarrow> unique_key ws_workflow_uuid (t_workflow_status db)"
  by (simp add: db_wf_defs)

lemma workflow_ids_iff: "wfid \<in> workflow_ids db \<longleftrightarrow> find_row ws_workflow_uuid wfid (t_workflow_status db) \<noteq> None"
  by (simp add: workflow_ids_def find_row_None_iff)

text \<open>The invariant does not look at the in-memory state.\<close>

lemma db_wf_memory [simp]:
  "db_wf (db\<lparr>m_runningWorkflowMap := a\<rparr>) = db_wf db"
  "db_wf (db\<lparr>m_batchCreatedAtCursors := b\<rparr>) = db_wf db"
  "db_wf (db\<lparr>m_pendingNotifications := c\<rparr>) = db_wf db"
  "db_wf (db\<lparr>m_shouldUseDBNotifications := d\<rparr>) = db_wf db"
  by (simp_all add: db_wf_defs)

lemma db_wf_extend_status:
  assumes "db_wf db" and "unique_key ws_workflow_uuid rows" and "dedup_unique rows"
    and "workflow_ids db \<subseteq> ws_workflow_uuid ` set rows"
  shows "db_wf (db\<lparr>t_workflow_status := rows\<rparr>)"
  using assms unfolding db_wf_defs by (simp add: subset_iff)

lemma db_wf_update_status_frame:
  assumes "db_wf db"
    and "\<And>r. P r \<Longrightarrow> ws_workflow_uuid (f r) = ws_workflow_uuid r"
    and "\<And>r. P r \<Longrightarrow> ws_deduplication_id (f r) = None \<or>
      ws_deduplication_id (f r) = ws_deduplication_id r \<and> ws_queue_name (f r) = ws_queue_name r"
  shows "db_wf (db\<lparr>t_workflow_status := update_where P f (t_workflow_status db)\<rparr>)"
  using assms db_wf_update_status dedup_unique_update_where db_wf_def by metis

lemma workflow_ids_update_where [simp]:
  assumes "\<And>r. P r \<Longrightarrow> ws_workflow_uuid (f r) = ws_workflow_uuid r"
  shows "workflow_ids (db\<lparr>t_workflow_status := update_where P f (t_workflow_status db)\<rparr>) = workflow_ids db"
  using map_key_update_where [of P ws_workflow_uuid f "t_workflow_status db", OF assms]
  by (metis (no_types, lifting) list.set_map select_convs(1) surjective update_convs(1) workflow_ids_def)

subsection \<open>Replacing one table\<close>

lemma workflow_ids_frame [simp]:
  "workflow_ids (t_operation_outputs_update f1 db) = workflow_ids db"
  "workflow_ids (t_notifications_update f2 db) = workflow_ids db"
  "workflow_ids (t_workflow_events_update f3 db) = workflow_ids db"
  "workflow_ids (t_workflow_events_history_update f4 db) = workflow_ids db"
  "workflow_ids (t_streams_update f5 db) = workflow_ids db"
  "workflow_ids (t_event_dispatch_kv_update f6 db) = workflow_ids db"
  "workflow_ids (t_workflow_schedules_update f7 db) = workflow_ids db"
  "workflow_ids (t_application_versions_update f8 db) = workflow_ids db"
  "workflow_ids (t_queues_update f9 db) = workflow_ids db"
  "workflow_ids (m_runningWorkflowMap_update f10 db) = workflow_ids db"
  "workflow_ids (m_batchCreatedAtCursors_update f11 db) = workflow_ids db"
  "workflow_ids (m_pendingNotifications_update f12 db) = workflow_ids db"
  by (simp_all add: workflow_ids_def)

lemma db_wf_keys:
  assumes "db_wf db"
  shows "unique_key oo_pk (t_operation_outputs db)"
    and "unique_key nt_message_uuid (t_notifications db)"
    and "unique_key we_pk (t_workflow_events db)"
    and "unique_key eh_pk (t_workflow_events_history db)"
    and "unique_key st_pk (t_streams db)"
    and "unique_key ed_pk (t_event_dispatch_kv db)"
    and "unique_key sc_schedule_name (t_workflow_schedules db)"
    and "unique_key av_version_name (t_application_versions db)"
    and "unique_key qu_name (t_queues db)"
  using assms unfolding db_wf_def primary_keys_def by blast+

lemma db_wf_refs:
  assumes "db_wf db"
  shows "oo_workflow_uuid ` set (t_operation_outputs db) \<subseteq> workflow_ids db"
    and "nt_destination_uuid ` set (t_notifications db) \<subseteq> workflow_ids db"
    and "we_workflow_uuid ` set (t_workflow_events db) \<subseteq> workflow_ids db"
    and "eh_workflow_uuid ` set (t_workflow_events_history db) \<subseteq> workflow_ids db"
    and "st_workflow_uuid ` set (t_streams db) \<subseteq> workflow_ids db"
  using assms unfolding db_wf_def foreign_keys_def by blast+

lemma db_wf_operation_outputs:
  assumes "db_wf db" and "unique_key oo_pk rows" and "oo_workflow_uuid ` set rows \<subseteq> workflow_ids db"
  shows "db_wf (db\<lparr>t_operation_outputs := rows\<rparr>)"
  using assms unfolding db_wf_def primary_keys_def foreign_keys_def by (simp add: image_subset_iff)

lemma db_wf_notifications:
  assumes "db_wf db" and "unique_key nt_message_uuid rows" and "nt_destination_uuid ` set rows \<subseteq> workflow_ids db"
  shows "db_wf (db\<lparr>t_notifications := rows\<rparr>)"
  using assms unfolding db_wf_def primary_keys_def foreign_keys_def by (simp add: image_subset_iff)

lemma db_wf_workflow_events:
  assumes "db_wf db" and "unique_key we_pk rows" and "we_workflow_uuid ` set rows \<subseteq> workflow_ids db"
  shows "db_wf (db\<lparr>t_workflow_events := rows\<rparr>)"
  using assms unfolding db_wf_def primary_keys_def foreign_keys_def by (simp add: image_subset_iff)

lemma db_wf_workflow_events_history:
  assumes "db_wf db" and "unique_key eh_pk rows" and "eh_workflow_uuid ` set rows \<subseteq> workflow_ids db"
  shows "db_wf (db\<lparr>t_workflow_events_history := rows\<rparr>)"
  using assms unfolding db_wf_def primary_keys_def foreign_keys_def by (simp add: image_subset_iff)

lemma db_wf_streams:
  assumes "db_wf db" and "unique_key st_pk rows" and "st_workflow_uuid ` set rows \<subseteq> workflow_ids db"
  shows "db_wf (db\<lparr>t_streams := rows\<rparr>)"
  using assms unfolding db_wf_def primary_keys_def foreign_keys_def by (simp add: image_subset_iff)

lemma db_wf_event_dispatch_kv:
  assumes "db_wf db" and "unique_key ed_pk rows"
  shows "db_wf (db\<lparr>t_event_dispatch_kv := rows\<rparr>)"
  using assms unfolding db_wf_def primary_keys_def foreign_keys_def by simp

lemma db_wf_workflow_schedules:
  assumes "db_wf db" and "unique_key sc_schedule_name rows"
  shows "db_wf (db\<lparr>t_workflow_schedules := rows\<rparr>)"
  using assms unfolding db_wf_def primary_keys_def foreign_keys_def by simp

lemma db_wf_application_versions:
  assumes "db_wf db" and "unique_key av_version_name rows"
  shows "db_wf (db\<lparr>t_application_versions := rows\<rparr>)"
  using assms unfolding db_wf_def primary_keys_def foreign_keys_def by simp

lemma db_wf_queues:
  assumes "db_wf db" and "unique_key qu_name rows"
  shows "db_wf (db\<lparr>t_queues := rows\<rparr>)"
  using assms unfolding db_wf_def primary_keys_def foreign_keys_def by simp

lemmas db_wf_replace = db_wf_operation_outputs db_wf_notifications db_wf_workflow_events db_wf_workflow_events_history db_wf_streams db_wf_event_dispatch_kv db_wf_workflow_schedules db_wf_application_versions db_wf_queues

end
