(* ===== verification/SysDB_Status.thy ===== *)
theory SysDB_Status
  imports SysDB_Schema
begin

text \<open>
  Workflow status rows (the sections "Workflow Status" and "Internal" of
  \<open>src/system_database.ts\<close>): the upsert behind every workflow start, its interpretation by
  \<open>initWorkflowStatus\<close>, the conditional update behind every status transition, the recording of
  outcomes, batch enqueues with their per-partition \<open>created_at\<close> cursors, and recovery.

  \<open>Date.now()\<close> and SQL \<open>now()\<close> are arguments. \<open>initWorkflowStatus\<close> writes its own commit and
  rollback out, since it commits on one of its error paths.
\<close>

section \<open>Reading a status\<close>

definition getWorkflowStatusValue :: "string \<Rightarrow> sysdb \<Rightarrow> wf_status option" where
  "getWorkflowStatusValue workflowID db =
     map_option ws_status (find_row ws_workflow_uuid workflowID (t_workflow_status db))"

definition checkIfCanceled :: "string \<Rightarrow> unit db_op" where
  "checkIfCanceled workflowID =
     and_then (gets (getWorkflowStatusValue workflowID)) (\<lambda>statusValue.
       if statusValue = Some CANCELLED then throw (DBOSWorkflowCancelledError workflowID) else ret ())"

section \<open>The upsert\<close>

record InsertWorkflowResult =
  ir_recovery_attempts :: int
  ir_status :: wf_status
  ir_name :: string
  ir_class_name :: string
  ir_config_name :: string
  ir_queue_name :: "string option"
  ir_workflow_deadline_epoch_ms :: "int option"
  ir_executor_id :: "string option"
  ir_owner_xid :: "string option"
  ir_serialization :: "string option"

definition new_status_row :: "int \<Rightarrow> WorkflowStatusInternal \<Rightarrow> string option \<Rightarrow> workflow_status" where
  "new_status_row now initStatus ownerXid = \<lparr>
     ws_workflow_uuid = si_workflowUUID initStatus,
     ws_status = si_status initStatus,
     ws_name = si_workflowName initStatus,
     ws_class_name = empty_to_null (si_workflowClassName initStatus),
     ws_config_name = empty_to_null (si_workflowConfigName initStatus),
     ws_authenticated_user = si_authenticatedUser initStatus,
     ws_output = None,
     ws_error = None,
     ws_assumed_role = si_assumedRole initStatus,
     ws_authenticated_roles = Some (JSON_stringify (si_authenticatedRoles initStatus)),
     ws_request = Some (JSON_stringify (si_request initStatus)),
     ws_executor_id = si_executorId initStatus,
     ws_application_version = si_applicationVersion initStatus,
     ws_queue_name = si_queueName initStatus,
     ws_created_at = si_createdAt initStatus,
     ws_updated_at = coalesce (si_updatedAt initStatus) now,
     ws_application_id = si_applicationID initStatus,
     ws_recovery_attempts = (if si_status initStatus = ENQUEUED \<or> si_status initStatus = DELAYED then 0 else 1),
     ws_workflow_timeout_ms = si_timeoutMS initStatus,
     ws_workflow_deadline_epoch_ms = si_deadlineEpochMS initStatus,
     ws_inputs = si_input initStatus,
     ws_started_at_epoch_ms = None,
     ws_deduplication_id = si_deduplicationID initStatus,
     ws_priority = si_priority initStatus,
     ws_queue_partition_key = si_queuePartitionKey initStatus,
     ws_forked_from = si_forkedFrom initStatus,
     ws_was_forked_from = False,
     ws_owner_xid = ownerXid,
     ws_parent_workflow_id = si_parentWorkflowID initStatus,
     ws_serialization = si_serialization initStatus,
     ws_delay_until_epoch_ms = si_delayUntilEpochMS initStatus,
     ws_rate_limited = False,
     ws_completed_at = None,
     ws_attributes = si_attributes initStatus,
     ws_schedule_name = si_scheduleName initStatus,
     ws_debounce_deadline_epoch_ms = si_debounceDeadlineEpochMS initStatus,
     ws_is_debounced = coalesce (si_isDebounced initStatus) False \<rparr>"

text \<open>The \<open>ON CONFLICT (workflow_uuid) DO UPDATE\<close> clause; \<open>new\<close> is \<open>EXCLUDED\<close>.\<close>

definition on_conflict_status :: "workflow_status \<Rightarrow> bool \<Rightarrow> workflow_status \<Rightarrow> workflow_status" where
  "on_conflict_status new incrementAttempts old = old\<lparr>
     ws_recovery_attempts :=
       (if ws_status old \<noteq> ENQUEUED \<and> ws_status old \<noteq> DELAYED
        then ws_recovery_attempts old + (if incrementAttempts then 1 else 0)
        else ws_recovery_attempts old),
     ws_updated_at := ws_updated_at new,
     ws_executor_id :=
       (if ws_status new \<noteq> ENQUEUED \<and> ws_status new \<noteq> DELAYED
        then ws_executor_id new else ws_executor_id old)\<rparr>"

definition insert_result :: "workflow_status \<Rightarrow> InsertWorkflowResult" where
  "insert_result row = \<lparr>
     ir_recovery_attempts = ws_recovery_attempts row,
     ir_status = ws_status row,
     ir_name = ws_name row,
     ir_class_name = coalesce (ws_class_name row) [],
     ir_config_name = coalesce (ws_config_name row) [],
     ir_queue_name = ws_queue_name row,
     ir_workflow_deadline_epoch_ms = ws_workflow_deadline_epoch_ms row,
     ir_executor_id = ws_executor_id row,
     ir_owner_xid = ws_owner_xid row,
     ir_serialization = ws_serialization row \<rparr>"

definition insertWorkflowStatus ::
  "int \<Rightarrow> WorkflowStatusInternal \<Rightarrow> string option \<Rightarrow> bool \<Rightarrow> InsertWorkflowResult db_op" where
  "insertWorkflowStatus now initStatus ownerXid incrementAttempts db =
     (let new = new_status_row now initStatus ownerXid; wfid = si_workflowUUID initStatus in
      case find_row ws_workflow_uuid wfid (t_workflow_status db) of
        Some old \<Rightarrow>
          (Inr (insert_result (on_conflict_status new incrementAttempts old)),
           db\<lparr>t_workflow_status :=
             update_where (\<lambda>r. ws_workflow_uuid r = wfid) (on_conflict_status new incrementAttempts)
               (t_workflow_status db)\<rparr>)
      | None \<Rightarrow>
          if \<exists>r\<in>set (t_workflow_status db). dedup_conflict new r
          then (Inl (DBOSQueueDuplicatedError wfid (coalesce (si_queueName initStatus) [])
                  (coalesce (si_deduplicationID initStatus) [])), db)
          else (Inr (insert_result new), db\<lparr>t_workflow_status := t_workflow_status db @ [new]\<rparr>))"

section \<open>The conditional status update\<close>

record status_update =
  su_output :: "string option"
  su_error :: "string option"
  su_resetRecoveryAttempts :: bool
  su_queueName :: "string option option"
  su_resetDeadline :: bool
  su_resetDeduplicationID :: bool
  su_resetStartedAtEpochMs :: bool
  su_executorId :: "string option"
  su_resetNameTo :: "string option"
  su_setCompletedAt :: bool
  su_clearCompletedAt :: bool

record status_where =
  wh_status :: "wf_status option"
  wh_notStatus :: "wf_status option"

definition no_update :: status_update where
  "no_update = \<lparr>su_output = None, su_error = None, su_resetRecoveryAttempts = False, su_queueName = None,
     su_resetDeadline = False, su_resetDeduplicationID = False, su_resetStartedAtEpochMs = False,
     su_executorId = None, su_resetNameTo = None, su_setCompletedAt = False, su_clearCompletedAt = False\<rparr>"

definition apply_status_update :: "int \<Rightarrow> wf_status \<Rightarrow> status_update \<Rightarrow> workflow_status \<Rightarrow> workflow_status" where
  "apply_status_update now status u r = r\<lparr>
     ws_status := status,
     ws_updated_at := now,
     ws_output := (if truthy (su_output u) then su_output u else ws_output r),
     ws_error := (if truthy (su_error u) then su_error u else ws_error r),
     ws_recovery_attempts := (if su_resetRecoveryAttempts u then 0 else ws_recovery_attempts r),
     ws_workflow_deadline_epoch_ms := (if su_resetDeadline u then None else ws_workflow_deadline_epoch_ms r),
     ws_queue_name := coalesce (su_queueName u) (ws_queue_name r),
     ws_deduplication_id := (if su_resetDeduplicationID u then None else ws_deduplication_id r),
     ws_started_at_epoch_ms := (if su_resetStartedAtEpochMs u then None else ws_started_at_epoch_ms r),
     ws_executor_id := (case su_executorId u of None \<Rightarrow> ws_executor_id r | Some e \<Rightarrow> Some e),
     ws_name := coalesce (su_resetNameTo u) (ws_name r),
     ws_completed_at := (if su_setCompletedAt u then Some now
       else if su_clearCompletedAt u then None else ws_completed_at r)\<rparr>"

definition status_where_matches :: "status_where \<Rightarrow> workflow_status \<Rightarrow> bool" where
  "status_where_matches w r =
     ((case wh_status w of None \<Rightarrow> True | Some s \<Rightarrow> ws_status r = s) \<and>
      (case wh_notStatus w of None \<Rightarrow> True | Some s \<Rightarrow> ws_status r \<noteq> s))"

definition updateWorkflowStatus ::
  "int \<Rightarrow> string \<Rightarrow> wf_status \<Rightarrow> status_update \<Rightarrow> status_where \<Rightarrow> bool \<Rightarrow> unit db_op" where
  "updateWorkflowStatus now workflowID status upd wh throwOnFailure db =
     (let matches = (\<lambda>r. ws_workflow_uuid r = workflowID \<and> status_where_matches wh r);
          rows = update_where matches (apply_status_update now status upd) (t_workflow_status db)
      in if su_queueName upd \<noteq> None \<and> \<not> dedup_unique rows then (Inl (PgError ''23505''), db)
         else if throwOnFailure \<and> row_count matches (t_workflow_status db) \<noteq> 1
         then (Inl (DBOSWorkflowConflictError
                 (''Attempt to record transition of nonexistent workflow '' @ workflowID)),
               db\<lparr>t_workflow_status := rows\<rparr>)
         else (Inr (), db\<lparr>t_workflow_status := rows\<rparr>))"

definition setWorkflowStatus :: "int \<Rightarrow> string \<Rightarrow> wf_status \<Rightarrow> bool \<Rightarrow> string option \<Rightarrow> unit db_op" where
  "setWorkflowStatus now workflowID status resetRecoveryAttempts updateName =
     updateWorkflowStatus now workflowID status
       (no_update\<lparr>su_resetRecoveryAttempts := resetRecoveryAttempts, su_resetNameTo := updateName\<rparr>)
       \<lparr>wh_status = None, wh_notStatus = None\<rparr> True"

section \<open>Starting a workflow\<close>

record init_result =
  in_status :: wf_status
  in_shouldExecuteOnThisExecutor :: bool
  in_deadlineEpochMS :: "int option"
  in_serialization :: "string option"

definition max_retries_exceeded :: "int option \<Rightarrow> int \<Rightarrow> bool" where
  "max_retries_exceeded maxRetries attempts =
     (case maxRetries of None \<Rightarrow> False | Some m \<Rightarrow> m \<noteq> 0 \<and> attempts > m + 1)"

definition initWorkflowStatus ::
  "int \<Rightarrow> WorkflowStatusInternal \<Rightarrow> string option \<Rightarrow> bool \<Rightarrow> bool \<Rightarrow> int option \<Rightarrow> init_result db_op" where
  "initWorkflowStatus now initStatus ownerXid isRecoveryRequest isDequeuedRequest maxRetries db =
     (let wfid = si_workflowUUID initStatus in
      case insertWorkflowStatus now initStatus ownerXid (isRecoveryRequest \<or> isDequeuedRequest) db of
        (Inl e, _) \<Rightarrow> (Inl e, db)
      | (Inr resRow, db1) \<Rightarrow>
          if ir_name resRow \<noteq> si_workflowName initStatus then
            (Inl (DBOSConflictingWorkflowError wfid
              (''Workflow already exists with a different function name: '' @ ir_name resRow @
               '', but the provided function name is: '' @ si_workflowName initStatus)), db)
          else if ir_class_name resRow \<noteq> si_workflowClassName initStatus then
            (Inl (DBOSConflictingWorkflowError wfid
              (''Workflow already exists with a different class name: '' @ ir_class_name resRow @
               '', but the provided class name is: '' @ si_workflowClassName initStatus)), db)
          else if ir_config_name resRow \<noteq> si_workflowConfigName initStatus then
            (Inl (DBOSConflictingWorkflowError wfid
              (''Workflow already exists with a different class configuration: '' @ ir_config_name resRow @
               '', but the provided class configuration is: '' @ si_workflowConfigName initStatus)), db)
          else if ownerXid \<noteq> ir_owner_xid resRow \<and> \<not> isRecoveryRequest \<and> \<not> isDequeuedRequest then
            (if ir_status resRow = MAX_RECOVERY_ATTEMPTS_EXCEEDED
             then Inl (DBOSMaxRecoveryAttemptsExceededError wfid (coalesce maxRetries (-1)))
             else Inr \<lparr>in_status = ir_status resRow, in_shouldExecuteOnThisExecutor = False,
                    in_deadlineEpochMS = ir_workflow_deadline_epoch_ms resRow,
                    in_serialization = ir_serialization resRow\<rparr>, db)
          else if max_retries_exceeded maxRetries (ir_recovery_attempts resRow) then
            (Inl (DBOSMaxRecoveryAttemptsExceededError wfid (coalesce maxRetries 0)),
             snd (updateWorkflowStatus now wfid MAX_RECOVERY_ATTEMPTS_EXCEEDED
               (no_update\<lparr>su_resetDeduplicationID := True\<rparr>)
               \<lparr>wh_status = Some PENDING, wh_notStatus = None\<rparr> False db1))
          else
            (Inr \<lparr>in_status = ir_status resRow, in_shouldExecuteOnThisExecutor = True,
               in_deadlineEpochMS = ir_workflow_deadline_epoch_ms resRow,
               in_serialization = ir_serialization resRow\<rparr>, db1))"

section \<open>Recording an outcome\<close>

definition recordWorkflowOutcome ::
  "int \<Rightarrow> string \<Rightarrow> wf_status \<Rightarrow> string option \<Rightarrow> string option \<Rightarrow> unit db_op" where
  "recordWorkflowOutcome now workflowID status output error =
     and_then
       (transaction (and_then
         (updateWorkflowStatus now workflowID status
           (no_update\<lparr>su_output := output, su_error := error, su_resetDeduplicationID := True,
              su_setCompletedAt := True\<rparr>)
           \<lparr>wh_status = None, wh_notStatus = Some CANCELLED\<rparr> False)
         (\<lambda>_. gets (\<lambda>db. getWorkflowStatusValue workflowID db = Some CANCELLED))))
       (\<lambda>cancelled. if cancelled then throw (DBOSWorkflowCancelledError workflowID) else ret ())"

definition recordWorkflowOutput :: "int \<Rightarrow> string \<Rightarrow> WorkflowStatusInternal \<Rightarrow> unit db_op" where
  "recordWorkflowOutput now workflowID status =
     recordWorkflowOutcome now workflowID SUCCESS (si_output status) None"

definition recordWorkflowError :: "int \<Rightarrow> string \<Rightarrow> WorkflowStatusInternal \<Rightarrow> unit db_op" where
  "recordWorkflowError now workflowID status =
     recordWorkflowOutcome now workflowID ERROR None (si_error status)"

section \<open>Recovery\<close>

definition getPendingWorkflows :: "string \<Rightarrow> string \<Rightarrow> sysdb \<Rightarrow> string list" where
  "getPendingWorkflows executorID appVersion db =
     map ws_workflow_uuid (filter (\<lambda>r. ws_status r = PENDING \<and> ws_executor_id r = Some executorID \<and>
       ws_application_version r = Some appVersion) (t_workflow_status db))"

definition reenqueueWorkflowsForRecovery :: "int \<Rightarrow> string \<Rightarrow> string \<Rightarrow> string \<Rightarrow> string list db_op" where
  "reenqueueWorkflowsForRecovery now executorID appVersion recoveryQueueName db =
     (let matches = (\<lambda>r. ws_status r = PENDING \<and> ws_executor_id r = Some executorID \<and>
            ws_application_version r = Some appVersion);
          rows = update_where matches (\<lambda>r. r\<lparr>ws_started_at_epoch_ms := None, ws_status := ENQUEUED,
            ws_updated_at := now,
            ws_queue_name := Some (coalesce (ws_queue_name r) recoveryQueueName)\<rparr>) (t_workflow_status db)
      in if dedup_unique rows
         then (Inr (map ws_workflow_uuid (filter matches (t_workflow_status db))),
               db\<lparr>t_workflow_status := rows\<rparr>)
         else (Inl (PgError ''23505''), db))"

section \<open>Batch enqueue\<close>

definition maxPartitionKeyCreatedAt :: "string list \<Rightarrow> sysdb \<Rightarrow> (string \<rightharpoonup> int)" where
  "maxPartitionKeyCreatedAt keys db k =
     (if k \<in> set keys then
        sql_max (map ws_created_at (filter (\<lambda>r. ws_queue_partition_key r = Some k \<and>
          (ws_status r = ENQUEUED \<or> ws_status r = PENDING)) (t_workflow_status db)))
      else None)"

fun assign_created_ats ::
  "int \<Rightarrow> (string \<rightharpoonup> int) \<Rightarrow> (string \<rightharpoonup> int) \<Rightarrow> WorkflowStatusInternal list \<Rightarrow> int list \<times> (string \<rightharpoonup> int)" where
  "assign_created_ats nowMS cursors nextForKey [] = ([], nextForKey)"
| "assign_created_ats nowMS cursors nextForKey (status # statuses) =
     (case si_queuePartitionKey status of
        None \<Rightarrow>
          (let (cs, nx) = assign_created_ats nowMS cursors nextForKey statuses in (nowMS # cs, nx))
      | Some key \<Rightarrow>
          (let value = (case nextForKey key of
                 Some v \<Rightarrow> v | None \<Rightarrow> max nowMS (coalesce (cursors key) 0));
               (cs, nx) = assign_created_ats nowMS cursors (nextForKey(key \<mapsto> value + 1)) statuses
           in (value # cs, nx)))"

definition batch_keys :: "WorkflowStatusInternal list \<Rightarrow> string list" where
  "batch_keys statuses = remdups (List.map_filter si_queuePartitionKey statuses)"

definition seed_cursors :: "(string \<rightharpoonup> int) \<Rightarrow> (string \<rightharpoonup> int) \<Rightarrow> (string \<rightharpoonup> int)" where
  "seed_cursors cursors seeds key =
     (case seeds key of
        None \<Rightarrow> cursors key
      | Some seededMax \<Rightarrow> Some (max (coalesce (cursors key) 0) (seededMax + 1)))"

definition assignBatchCreatedAt :: "int \<Rightarrow> WorkflowStatusInternal list \<Rightarrow> int list db_op" where
  "assignBatchCreatedAt nowMS statuses db =
     (let cursors = m_batchCreatedAtCursors db;
          unseen = filter (\<lambda>k. cursors k = None) (batch_keys statuses);
          seeded = seed_cursors cursors (maxPartitionKeyCreatedAt unseen db);
          (createdAts, nextForKey) = assign_created_ats nowMS seeded (\<lambda>_. None) statuses
      in (Inr createdAts, db\<lparr>m_batchCreatedAtCursors := seeded ++ nextForKey\<rparr>))"

text \<open>The row of one batch entry: never a deduplication ID, never an owner, no attempts yet.\<close>

definition batch_row :: "WorkflowStatusInternal \<Rightarrow> int \<Rightarrow> workflow_status" where
  "batch_row status createdAt = (new_status_row createdAt status None)\<lparr>
     ws_created_at := createdAt,
     ws_recovery_attempts := 0,
     ws_updated_at := createdAt,
     ws_deduplication_id := None,
     ws_forked_from := None,
     ws_debounce_deadline_epoch_ms := None,
     ws_is_debounced := False\<rparr>"

text \<open>\<open>INSERT ... ON CONFLICT (workflow_uuid) DO NOTHING RETURNING workflow_uuid\<close>, row by row.\<close>

fun insert_skipping ::
  "(WorkflowStatusInternal \<times> int) list \<Rightarrow> workflow_status list \<Rightarrow> string list \<times> workflow_status list" where
  "insert_skipping [] rows = ([], rows)"
| "insert_skipping ((status, createdAt) # chunk) rows =
     (if si_workflowUUID status \<in> ws_workflow_uuid ` set rows then insert_skipping chunk rows
      else (let (ids, rows') = insert_skipping chunk (rows @ [batch_row status createdAt])
            in (si_workflowUUID status # ids, rows')))"

function insert_chunks ::
  "nat \<Rightarrow> (WorkflowStatusInternal \<times> int) list \<Rightarrow> workflow_status list \<Rightarrow> string list \<times> workflow_status list" where
  "insert_chunks chunkSize entries rows =
     (if entries = [] \<or> chunkSize = 0 then ([], rows)
      else (let (ids, rows1) = insert_skipping (take chunkSize entries) rows;
                (ids', rows2) = insert_chunks chunkSize (drop chunkSize entries) rows1
            in (ids @ ids', rows2)))"
  by pat_completeness auto
termination
  by (relation "measure (\<lambda>(c, es, rows). length es)") auto

declare insert_chunks.simps [simp del]

fun check_batch :: "WorkflowStatusInternal list \<Rightarrow> dbos_error option" where
  "check_batch [] = None"
| "check_batch (status # statuses) =
     (if si_status status \<noteq> ENQUEUED then
        Some (DBOSError (''enqueueWorkflows only accepts ENQUEUED workflows, but '' @ si_workflowUUID status @
          '' is '' @ status_string (si_status status)))
      else if si_deduplicationID status \<noteq> None then
        Some (DBOSError (''enqueueWorkflows does not support deduplication IDs, but '' @ si_workflowUUID status @
          '' has one''))
      else check_batch statuses)"

definition enqueueWorkflows :: "int \<Rightarrow> WorkflowStatusInternal list \<Rightarrow> string list db_op" where
  "enqueueWorkflows nowMS statuses =
     (if statuses = [] then ret []
      else case check_batch statuses of
        Some e \<Rightarrow> throw e
      | None \<Rightarrow>
          and_then (assignBatchCreatedAt nowMS statuses) (\<lambda>createdAts db.
            let (ids, rows) = insert_chunks 500 (zip statuses createdAts) (t_workflow_status db)
            in (Inr ids, db\<lparr>t_workflow_status := rows\<rparr>)))"

section \<open>Facts about single statements\<close>

lemma on_conflict_status_frame [simp]:
  "ws_workflow_uuid (on_conflict_status new inc old) = ws_workflow_uuid old"
  "ws_status (on_conflict_status new inc old) = ws_status old"
  "ws_name (on_conflict_status new inc old) = ws_name old"
  "ws_class_name (on_conflict_status new inc old) = ws_class_name old"
  "ws_config_name (on_conflict_status new inc old) = ws_config_name old"
  "ws_queue_name (on_conflict_status new inc old) = ws_queue_name old"
  "ws_deduplication_id (on_conflict_status new inc old) = ws_deduplication_id old"
  "ws_owner_xid (on_conflict_status new inc old) = ws_owner_xid old"
  "ws_workflow_deadline_epoch_ms (on_conflict_status new inc old) = ws_workflow_deadline_epoch_ms old"
  "ws_serialization (on_conflict_status new inc old) = ws_serialization old"
  by (simp_all add: on_conflict_status_def)

lemma apply_status_update_frame [simp]:
  "ws_workflow_uuid (apply_status_update now st u r) = ws_workflow_uuid r"
  "ws_status (apply_status_update now st u r) = st"
  by (simp_all add: apply_status_update_def)

lemma no_update_simps [simp]:
  "su_output no_update = None" "su_error no_update = None" "su_queueName no_update = None"
  "su_executorId no_update = None" "su_resetNameTo no_update = None"
  "\<not> su_resetRecoveryAttempts no_update" "\<not> su_resetDeadline no_update"
  "\<not> su_resetDeduplicationID no_update" "\<not> su_resetStartedAtEpochMs no_update"
  "\<not> su_setCompletedAt no_update" "\<not> su_clearCompletedAt no_update"
  by (simp_all add: no_update_def)

lemma new_status_row_uuid [simp]:
  "ws_workflow_uuid (new_status_row now st xid) = si_workflowUUID st"
  "ws_workflow_uuid (batch_row st c) = si_workflowUUID st"
  "ws_deduplication_id (batch_row st c) = None"
  by (simp_all add: new_status_row_def batch_row_def)

lemma dedup_update_without_queue:
  "su_queueName u = None \<Longrightarrow> ws_deduplication_id (apply_status_update now st u r) = None \<or>
    ws_deduplication_id (apply_status_update now st u r) = ws_deduplication_id r \<and>
    ws_queue_name (apply_status_update now st u r) = ws_queue_name r"
  by (simp add: apply_status_update_def)

section \<open>Every statement keeps the constraints of the schema\<close>

lemma insertWorkflowStatus_keeps [keep_rules]:
  "preserves db_wf (insertWorkflowStatus now st xid inc)"
proof (rule preservesI)
  fix db assume wf: "db_wf db"
  show "db_wf (snd (insertWorkflowStatus now st xid inc db))"
  proof (cases "find_row ws_workflow_uuid (si_workflowUUID st) (t_workflow_status db)")
    case None
    with wf show ?thesis
      by (auto simp: insertWorkflowStatus_def Let_def workflow_ids_iff intro!: db_wf_insert_status)
  next
    case (Some old)
    with wf show ?thesis
      by (auto simp: insertWorkflowStatus_def Let_def intro!: db_wf_update_status_frame)
  qed
qed

lemma updateWorkflowStatus_keeps [keep_rules]:
  "preserves db_wf (updateWorkflowStatus now wfid st u w t)"
proof (rule preservesI)
  fix db assume wf: "db_wf db"
  show "db_wf (snd (updateWorkflowStatus now wfid st u w t db))"
  proof (cases "su_queueName u")
    case None
    then show ?thesis using wf
      by (auto simp: updateWorkflowStatus_def Let_def
          intro!: db_wf_update_status_frame dedup_update_without_queue)
  next
    case (Some q)
    then show ?thesis using wf
      by (auto simp: updateWorkflowStatus_def Let_def intro!: db_wf_update_status)
  qed
qed

lemma setWorkflowStatus_keeps [keep_rules]:
  "preserves db_wf (setWorkflowStatus now wfid st reset nm)"
  unfolding setWorkflowStatus_def by (rule keep_rules)

lemma checkIfCanceled_keeps [keep_rules]: "preserves I (checkIfCanceled wfid)"
  unfolding checkIfCanceled_def by (intro keep_rules)

lemma initWorkflowStatus_keeps [keep_rules]:
  "preserves db_wf (initWorkflowStatus now st xid rec deq mx)"
proof (rule preservesI)
  fix db assume wf: "db_wf db"
  obtain r db1 where ins: "insertWorkflowStatus now st xid (rec \<or> deq) db = (r, db1)" by fastforce
  have wf1: "db_wf db1" by (rule preservesD [OF insertWorkflowStatus_keeps wf ins])
  have wf2: "db_wf (snd (updateWorkflowStatus now wfid s u w t db1))" for wfid s u w t
    using updateWorkflowStatus_keeps wf1 by (simp add: preserves_def)
  show "db_wf (snd (initWorkflowStatus now st xid rec deq mx db))"
    using wf wf1 wf2 ins by (cases r) (auto simp: initWorkflowStatus_def Let_def)
qed

lemma recordWorkflowOutcome_keeps [keep_rules]:
  "preserves db_wf (recordWorkflowOutcome now wfid st out err)"
  unfolding recordWorkflowOutcome_def by (intro keep_rules)

lemma recordWorkflowOutput_keeps [keep_rules]: "preserves db_wf (recordWorkflowOutput now wfid st)"
  unfolding recordWorkflowOutput_def by (rule keep_rules)

lemma recordWorkflowError_keeps [keep_rules]: "preserves db_wf (recordWorkflowError now wfid st)"
  unfolding recordWorkflowError_def by (rule keep_rules)

lemma reenqueueWorkflowsForRecovery_keeps [keep_rules]:
  "preserves db_wf (reenqueueWorkflowsForRecovery now ex ver q)"
  by (rule preservesI) (auto simp: reenqueueWorkflowsForRecovery_def Let_def intro!: db_wf_update_status)

section \<open>Batch inserts\<close>

lemma insert_skipping_append:
  "insert_skipping (es @ es') rows =
    (let (ids, rows1) = insert_skipping es rows; (ids', rows2) = insert_skipping es' rows1
     in (ids @ ids', rows2))"
  by (induction es rows rule: insert_skipping.induct) (auto simp: Let_def split: prod.splits)

lemma insert_skipping_known:
  "\<forall>e\<in>set es. si_workflowUUID (fst e) \<in> ws_workflow_uuid ` set rows \<Longrightarrow>
    insert_skipping es rows = ([], rows)"
  by (induction es rows rule: insert_skipping.induct) auto

lemma insert_skipping_extends:
  "insert_skipping es rows = (ids, rows') \<Longrightarrow>
    \<exists>new. rows' = rows @ new \<and> ids = map ws_workflow_uuid new \<and>
      set new \<subseteq> {batch_row st c |st c. (st, c) \<in> set es}"
proof (induction es rows arbitrary: ids rows' rule: insert_skipping.induct)
  case (2 status createdAt chunk rows)
  show ?case
  proof (cases "si_workflowUUID status \<in> ws_workflow_uuid ` set rows")
    case True
    with 2 show ?thesis by fastforce
  next
    case False
    obtain ids1 where rest: "insert_skipping chunk (rows @ [batch_row status createdAt]) = (ids1, rows')"
      and ids: "ids = si_workflowUUID status # ids1"
      using 2(3) False by (auto simp: Let_def split: prod.splits)
    obtain new where "rows' = (rows @ [batch_row status createdAt]) @ new"
      "ids1 = map ws_workflow_uuid new" "set new \<subseteq> {batch_row st c |st c. (st, c) \<in> set chunk}"
      using 2(2) [OF False rest] by blast
    with ids show ?thesis
      by (intro exI [of _ "batch_row status createdAt # new"]) (simp, blast)
  qed
qed simp

lemma insert_skipping_unique:
  "unique_key ws_workflow_uuid rows \<Longrightarrow> unique_key ws_workflow_uuid (snd (insert_skipping es rows))"
  by (induction es rows rule: insert_skipping.induct) (auto simp: Let_def split: prod.splits)

lemma insert_skipping_covers:
  "e \<in> set es \<Longrightarrow> si_workflowUUID (fst e) \<in> ws_workflow_uuid ` set (snd (insert_skipping es rows))"
proof (induction es rows rule: insert_skipping.induct)
  case (2 status createdAt chunk rows)
  have mono: "ws_workflow_uuid ` set rows \<subseteq> ws_workflow_uuid ` set (snd (insert_skipping es rows))"
    for es and rows :: "workflow_status list"
    using insert_skipping_extends [of es rows] by (metis Un_upper1 image_mono prod.collapse set_append)
  show ?case
  proof (cases "si_workflowUUID status \<in> ws_workflow_uuid ` set rows")
    case True
    then show ?thesis using 2(1) [OF True] 2(3) mono [of rows chunk] by auto
  next
    case False
    then show ?thesis
      using 2(2) [OF False] 2(3) mono [of "rows @ [batch_row status createdAt]" chunk]
      by (auto simp: Let_def split: prod.splits)
  qed
qed simp

text \<open>Splitting a batch into statements of bounded size does not change what it does.\<close>

lemma insert_chunks_eq:
  "0 < chunkSize \<Longrightarrow> insert_chunks chunkSize es rows = insert_skipping es rows"
proof (induction chunkSize es rows rule: insert_chunks.induct)
  case (1 chunkSize es rows)
  show ?case
  proof (cases "es = []")
    case False
    have "insert_skipping es rows = insert_skipping (take chunkSize es @ drop chunkSize es) rows" by simp
    also have "\<dots> = insert_chunks chunkSize es rows"
      using 1 False
      by (subst insert_chunks.simps, subst insert_skipping_append) (auto simp: Let_def split: prod.splits)
    finally show ?thesis by simp
  qed (simp add: insert_chunks.simps)
qed

lemma db_wf_batch_insert:
  assumes wf: "db_wf db" and ins: "insert_skipping es (t_workflow_status db) = (ids, rows)"
  shows "db_wf (db\<lparr>t_workflow_status := rows\<rparr>)"
proof -
  obtain new where new: "rows = t_workflow_status db @ new"
    "set new \<subseteq> {batch_row st c |st c. (st, c) \<in> set es}"
    using insert_skipping_extends [OF ins] by blast
  have no: "\<not> dedup_conflict r r'" if "ws_deduplication_id r' = None" for r r'
    using that by (auto simp: dedup_conflict_def)
  have null: "ws_deduplication_id r = None" if "r \<in> set new" for r using new(2) that by auto
  have "dedup_unique new"
    using null by (induction new) (simp_all add: no)
  with new null wf have "dedup_unique rows"
    by (simp add: db_wf_def dedup_unique_append no)
  moreover have "unique_key ws_workflow_uuid rows"
    using insert_skipping_unique [of "t_workflow_status db" es] wf ins by simp
  moreover have "workflow_ids db \<subseteq> ws_workflow_uuid ` set rows"
    using new(1) by (auto simp: workflow_ids_def)
  ultimately show ?thesis by (intro db_wf_extend_status [OF wf])
qed

lemma assignBatchCreatedAt_effect:
  "\<exists>cs cur. assignBatchCreatedAt now sts db = (Inr cs, db\<lparr>m_batchCreatedAtCursors := cur\<rparr>)"
  by (auto simp: assignBatchCreatedAt_def Let_def split: prod.splits)

lemma enqueueWorkflows_keeps [keep_rules]: "preserves db_wf (enqueueWorkflows now sts)"
proof (rule preservesI)
  fix db assume wf: "db_wf db"
  obtain cs cur where a: "assignBatchCreatedAt now sts db = (Inr cs, db\<lparr>m_batchCreatedAtCursors := cur\<rparr>)"
    using assignBatchCreatedAt_effect by blast
  obtain ids rows where i: "insert_skipping (zip sts cs) (t_workflow_status db) = (ids, rows)" by fastforce
  have "db_wf (db\<lparr>m_batchCreatedAtCursors := cur, t_workflow_status := rows\<rparr>)"
    using db_wf_batch_insert [of "db\<lparr>m_batchCreatedAtCursors := cur\<rparr>"] wf i by simp
  then show "db_wf (snd (enqueueWorkflows now sts db))"
    using wf i a by (auto simp: enqueueWorkflows_def insert_chunks_eq split: option.splits)
qed

section \<open>Batch timestamps\<close>

definition per_key_increasing :: "(WorkflowStatusInternal \<times> int) list \<Rightarrow> bool" where
  "per_key_increasing = sorted_wrt (\<lambda>(st, c) (st', c').
     si_queuePartitionKey st \<noteq> None \<and> si_queuePartitionKey st = si_queuePartitionKey st' \<longrightarrow> c < c')"

definition next_created_at :: "int \<Rightarrow> (string \<rightharpoonup> int) \<Rightarrow> (string \<rightharpoonup> int) \<Rightarrow> string \<Rightarrow> int" where
  "next_created_at nowMS cursors nextForKey key =
     (case nextForKey key of Some v \<Rightarrow> v | None \<Rightarrow> max nowMS (coalesce (cursors key) 0))"

lemma assign_created_ats_spec:
  assumes "assign_created_ats nowMS cursors nextForKey sts = (cs, nx)"
  shows "length cs = length sts \<and> per_key_increasing (zip sts cs) \<and>
    (\<forall>(st, c)\<in>set (zip sts cs). \<forall>k. si_queuePartitionKey st = Some k \<longrightarrow>
       next_created_at nowMS cursors nextForKey k \<le> c \<and> (\<exists>v. nx k = Some v \<and> c < v)) \<and>
    (\<forall>k v. nextForKey k = Some v \<longrightarrow> (\<exists>v'. nx k = Some v' \<and> v \<le> v')) \<and>
    (\<forall>k. nx k = None \<or> next_created_at nowMS cursors nextForKey k \<le> the (nx k))"
  using assms
proof (induction sts arbitrary: nextForKey cs nx)
  case Nil
  then show ?case by (auto simp: per_key_increasing_def next_created_at_def split: option.splits)
next
  case (Cons st sts)
  show ?case
  proof (cases "si_queuePartitionKey st")
    case None
    then obtain cs1 where r: "assign_created_ats nowMS cursors nextForKey sts = (cs1, nx)"
      and cs: "cs = nowMS # cs1" using Cons.prems by (auto split: prod.splits)
    show ?thesis using Cons.IH [OF r] None cs by (auto simp: per_key_increasing_def)
  next
    case (Some k)
    define v where "v = next_created_at nowMS cursors nextForKey k"
    obtain cs1 where r: "assign_created_ats nowMS cursors (nextForKey(k \<mapsto> v + 1)) sts = (cs1, nx)"
      and cs: "cs = v # cs1"
      using Cons.prems Some by (auto simp: Let_def v_def next_created_at_def split: prod.splits)
    have nc: "next_created_at nowMS cursors (nextForKey(k \<mapsto> v + 1)) k' =
        (if k' = k then v + 1 else next_created_at nowMS cursors nextForKey k')" for k'
      by (simp add: next_created_at_def)
    note ih = Cons.IH [OF r]
    have ih_low: "next_created_at nowMS cursors (nextForKey(k \<mapsto> v + 1)) k' \<le> c \<and> (\<exists>v. nx k' = Some v \<and> c < v)"
      if "(st', c) \<in> set (zip sts cs1)" "si_queuePartitionKey st' = Some k'" for st' c k'
      using ih that by blast
    have later: "v < c" if "(st', c) \<in> set (zip sts cs1)" "si_queuePartitionKey st' = Some k" for st' c
      using ih_low [OF that] nc [of k] by simp
    have inc: "per_key_increasing (zip (st # sts) cs)"
      using ih later Some cs by (fastforce simp: per_key_increasing_def)
    have nx_ge: "\<exists>v'. nx k' = Some v' \<and> v0 \<le> v'" if "(nextForKey(k \<mapsto> v + 1)) k' = Some v0" for k' v0
      using ih that by blast
    obtain w where w: "nx k = Some w" "v + 1 \<le> w" using nx_ge [of k "v + 1"] by auto
    have low: "next_created_at nowMS cursors nextForKey k' \<le> c \<and> (\<exists>v. nx k' = Some v \<and> c < v)"
      if "(st', c) \<in> set (zip (st # sts) cs)" "si_queuePartitionKey st' = Some k'" for st' c k'
    proof (cases "(st', c) \<in> set (zip sts cs1)")
      case True
      with ih_low [OF True that(2)] nc [of k'] show ?thesis by (auto simp: v_def split: if_splits)
    next
      case False
      with that cs have "st' = st" "c = v" by auto
      with that(2) Some w show ?thesis by (auto simp: v_def)
    qed
    have keep: "\<exists>v'. nx k' = Some v' \<and> v0 \<le> v'" if "nextForKey k' = Some v0" for k' v0
      using nx_ge [of k' v0] that w by (cases "k' = k") (auto simp: v_def next_created_at_def)
    have "nx k' = None \<or> next_created_at nowMS cursors nextForKey k' \<le> the (nx k')" for k'
    proof (cases "k' = k")
      case False
      have "nx k' = None \<or> next_created_at nowMS cursors (nextForKey(k \<mapsto> v + 1)) k' \<le> the (nx k')"
        using ih by blast
      with False nc [of k'] show ?thesis by simp
    qed (use w v_def in auto)
    with ih inc low keep cs show ?thesis by auto
  qed
qed

definition active_with_key :: "string \<Rightarrow> workflow_status \<Rightarrow> bool" where
  "active_with_key k r = (ws_queue_partition_key r = Some k \<and> (ws_status r = ENQUEUED \<or> ws_status r = PENDING))"

lemma seed_cursors_ge: "coalesce (cursors k) 0 \<le> coalesce (seed_cursors cursors seeds k) 0 \<or> cursors k = None"
  by (auto simp: seed_cursors_def split: option.splits)

lemma seeded_above_rows:
  assumes "cursors k = None" and "k \<in> set keys" and "r \<in> set (t_workflow_status db)" and "active_with_key k r"
  shows "ws_created_at r < coalesce (seed_cursors cursors (maxPartitionKeyCreatedAt keys db) k) 0"
proof -
  let ?xs = "map ws_created_at (filter (\<lambda>r. ws_queue_partition_key r = Some k \<and>
          (ws_status r = ENQUEUED \<or> ws_status r = PENDING)) (t_workflow_status db))"
  have mem: "ws_created_at r \<in> set ?xs" using assms(3,4) by (auto simp: active_with_key_def)
  then obtain m where m: "sql_max ?xs = Some m" "ws_created_at r \<le> m" by (blast dest: sql_max_above)
  with m assms(1,2) show ?thesis by (simp add: seed_cursors_def maxPartitionKeyCreatedAt_def)
qed

lemma assignBatchCreatedAt_spec:
  assumes "assignBatchCreatedAt now sts db = (Inr cs, db')"
  shows "length cs = length sts" and "per_key_increasing (zip sts cs)"
    and "\<And>st c k. (st, c) \<in> set (zip sts cs) \<Longrightarrow> si_queuePartitionKey st = Some k \<Longrightarrow>
      now \<le> c \<and> (\<forall>v. m_batchCreatedAtCursors db k = Some v \<longrightarrow> v \<le> c) \<and>
      (\<exists>v. m_batchCreatedAtCursors db' k = Some v \<and> c < v)"
    and "\<And>st c k r. (st, c) \<in> set (zip sts cs) \<Longrightarrow> si_queuePartitionKey st = Some k \<Longrightarrow>
      m_batchCreatedAtCursors db k = None \<Longrightarrow> r \<in> set (t_workflow_status db) \<Longrightarrow> active_with_key k r \<Longrightarrow>
      ws_created_at r < c"
proof -
  let ?cur = "m_batchCreatedAtCursors db"
  define unseen where "unseen = filter (\<lambda>k. ?cur k = None) (batch_keys sts)"
  define seeded where "seeded = seed_cursors ?cur (maxPartitionKeyCreatedAt unseen db)"
  obtain nx where a: "assign_created_ats now seeded (\<lambda>_. None) sts = (cs, nx)"
    and db': "db' = db\<lparr>m_batchCreatedAtCursors := seeded ++ nx\<rparr>"
    using assms by (auto simp: assignBatchCreatedAt_def Let_def unseen_def seeded_def split: prod.splits)
  note spec = assign_created_ats_spec [OF a]
  show "length cs = length sts" and "per_key_increasing (zip sts cs)" using spec by blast+
  fix st c k assume mem: "(st, c) \<in> set (zip sts cs)" and k: "si_queuePartitionKey st = Some k"
  from spec mem k have low: "max now (coalesce (seeded k) 0) \<le> c" and up: "\<exists>v. nx k = Some v \<and> c < v"
    unfolding next_created_at_def by fastforce+
  from up have "\<exists>v. m_batchCreatedAtCursors db' k = Some v \<and> c < v" by (auto simp: db')
  moreover have "v \<le> c" if "?cur k = Some v" for v
    using that seed_cursors_ge [of ?cur k] low by (simp add: seeded_def) (metis coalesce_simps(2) order_trans)
  ultimately show "now \<le> c \<and> (\<forall>v. ?cur k = Some v \<longrightarrow> v \<le> c) \<and>
      (\<exists>v. m_batchCreatedAtCursors db' k = Some v \<and> c < v)" using low by auto
  fix r assume "?cur k = None" "r \<in> set (t_workflow_status db)" "active_with_key k r"
  moreover have "k \<in> set (batch_keys sts)"
    using set_zip_leftD [OF mem] k by (auto simp: batch_keys_def set_map_filter_iff)
  ultimately have "ws_created_at r < coalesce (seeded k) 0"
    unfolding seeded_def by (intro seeded_above_rows) (simp_all add: unseen_def)
  with low show "ws_created_at r < c" by simp
qed

section \<open>Properties\<close>

text \<open>A concrete workflow and a database holding it, for the examples that follow some theorems.\<close>

definition example_init :: "string \<Rightarrow> wf_status \<Rightarrow> WorkflowStatusInternal" where
  "example_init wfid status = \<lparr>si_workflowUUID = wfid, si_status = status, si_workflowName = ''checkout'',
     si_workflowClassName = ''Shop'', si_workflowConfigName = [], si_queueName = Some ''q'',
     si_authenticatedUser = Some ''ann'', si_output = Some ''7'', si_error = None, si_input = Some ''[1]'',
     si_assumedRole = Some ''buyer'', si_authenticatedRoles = JArr [JStr ''buyer''], si_request = JObj [],
     si_executorId = Some ''local'', si_applicationVersion = Some ''v1'', si_applicationID = Some ''app'',
     si_createdAt = 100, si_updatedAt = None, si_recoveryAttempts = None, si_timeoutMS = None,
     si_deadlineEpochMS = None, si_deduplicationID = None, si_priority = 0,
     si_queuePartitionKey = Some ''k'', si_startedAtEpochMs = None, si_forkedFrom = None, si_wasForkedFrom = None,
     si_parentWorkflowID = None, si_serialization = None, si_delayUntilEpochMS = None, si_completedAt = None,
     si_attributes = None, si_scheduleName = None, si_debounceDeadlineEpochMS = None, si_isDebounced = None\<rparr>"

definition example_row :: "string \<Rightarrow> wf_status \<Rightarrow> workflow_status" where
  "example_row wfid status = new_status_row 100 (example_init wfid status) (Some ''xid1'')"

definition example_db :: "workflow_status list \<Rightarrow> sysdb" where
  "example_db rows = (empty_sysdb ''local'' False)\<lparr>t_workflow_status := rows\<rparr>"

lemmas example_defs = example_init_def example_row_def example_db_def new_status_row_def empty_sysdb_def

lemma example_rows [simp]:
  "ws_workflow_uuid (example_row w s) = w" "ws_status (example_row w s) = s"
  "ws_owner_xid (example_row w s) = Some ''xid1''" "ws_name (example_row w s) = ''checkout''"
  "ws_class_name (example_row w s) = Some ''Shop''" "ws_config_name (example_row w s) = None"
  "ws_deduplication_id (example_row w s) = None" "ws_executor_id (example_row w s) = Some ''local''"
  "ws_application_version (example_row w s) = Some ''v1''" "ws_queue_name (example_row w s) = Some ''q''"
  "ws_created_at (example_row w s) = 100" "ws_queue_partition_key (example_row w s) = Some ''k''"
  "ws_recovery_attempts (example_row w s) = (if s = ENQUEUED \<or> s = DELAYED then 0 else 1)"
  by (simp_all add: example_defs)

lemma example_inits [simp]:
  "si_workflowUUID (example_init w s) = w" "si_status (example_init w s) = s"
  "si_workflowName (example_init w s) = ''checkout''" "si_workflowClassName (example_init w s) = ''Shop''"
  "si_workflowConfigName (example_init w s) = []" "si_queuePartitionKey (example_init w s) = Some ''k''"
  "si_deduplicationID (example_init w s) = None"
  by (simp_all add: example_init_def)

lemma t_example_db [simp]: "t_workflow_status (example_db rows) = rows"
  by (simp add: example_db_def)

lemma db_wf_example [simp]:
  "unique_key ws_workflow_uuid rows \<Longrightarrow> dedup_unique rows \<Longrightarrow> db_wf (example_db rows)"
  by (simp add: db_wf_defs example_db_def empty_sysdb_def)

text \<open>
  C8: A workflow ID runs once. If the ID already has a row of another owner and the call is neither a
  recovery nor a dequeue, \<open>initWorkflowStatus\<close> rolls its upsert back: the database is exactly as
  before, whatever the call returns, and it never tells the caller to execute.
\<close>

theorem init_existing_workflow_rolls_back:
  assumes "find_row ws_workflow_uuid (si_workflowUUID st) (t_workflow_status db) = Some old"
    and "ws_owner_xid old \<noteq> xid"
  shows "snd (initWorkflowStatus now st xid False False mx db) = db \<and>
    (\<forall>res. fst (initWorkflowStatus now st xid False False mx db) = Inr res \<longrightarrow>
       \<not> in_shouldExecuteOnThisExecutor res \<and> in_status res = ws_status old \<and>
       ws_name old = si_workflowName st)"
  using assms by (auto simp: initWorkflowStatus_def insertWorkflowStatus_def insert_result_def Let_def)

theorem init_existing_workflow_rolls_back_witness:
  "snd (initWorkflowStatus 200 (example_init ''w'' PENDING) (Some ''xid2'') False False None
     (example_db [example_row ''w'' PENDING])) = example_db [example_row ''w'' PENDING]"
  using init_existing_workflow_rolls_back
    [of "example_init ''w'' PENDING" "example_db [example_row ''w'' PENDING]" "example_row ''w'' PENDING"
      "Some ''xid2''" 200 None] by simp

text \<open>
  C9: Recovery is bounded. Recovering a \<open>PENDING\<close> row whose function matches counts one attempt; within
  \<open>maxRetries + 1\<close> attempts the workflow is handed out for execution and claimed by this executor,
  beyond them it becomes \<open>MAX_RECOVERY_ATTEMPTS_EXCEEDED\<close>, gives up its deduplication ID and the call
  throws, with that transition committed. The comment on the test of the code says that the workflow
  is marked when its attempts become equal to \<open>maxRetries + 1\<close>; the code compares with \<open>>\<close>, so that the
  attempt with that number still runs and the next one is refused.
\<close>

theorem recovery_attempts_bounded:
  assumes "find_row ws_workflow_uuid (si_workflowUUID st) (t_workflow_status db) = Some old"
    and "ws_status old = PENDING" and "si_status st = PENDING"
    and "ws_name old = si_workflowName st" and "coalesce (ws_class_name old) [] = si_workflowClassName st"
    and "coalesce (ws_config_name old) [] = si_workflowConfigName st"
    and "0 < maxRetries"
  shows "\<exists>row'. find_row ws_workflow_uuid (si_workflowUUID st)
      (t_workflow_status (snd (initWorkflowStatus now st xid True deq (Some maxRetries) db))) = Some row' \<and>
    ws_recovery_attempts row' = ws_recovery_attempts old + 1 \<and> ws_executor_id row' = si_executorId st \<and>
    (if ws_recovery_attempts old \<le> maxRetries
     then ws_status row' = PENDING \<and> ws_deduplication_id row' = ws_deduplication_id old \<and>
       (\<exists>res. fst (initWorkflowStatus now st xid True deq (Some maxRetries) db) = Inr res \<and>
          in_shouldExecuteOnThisExecutor res)
     else ws_status row' = MAX_RECOVERY_ATTEMPTS_EXCEEDED \<and> ws_deduplication_id row' = None \<and>
       fst (initWorkflowStatus now st xid True deq (Some maxRetries) db) =
         Inl (DBOSMaxRecoveryAttemptsExceededError (si_workflowUUID st) maxRetries))"
  using assms find_row_SomeD [OF assms(1)]
  by (simp add: initWorkflowStatus_def insertWorkflowStatus_def insert_result_def Let_def
      max_retries_exceeded_def updateWorkflowStatus_def find_row_update_where status_where_matches_def
      on_conflict_status_def new_status_row_def apply_status_update_def)

theorem recovery_attempts_bounded_witness:
  "\<exists>row'. find_row ws_workflow_uuid ''w'' (t_workflow_status
      (snd (initWorkflowStatus 200 (example_init ''w'' PENDING) (Some ''xid2'') True False (Some 5)
        (example_db [example_row ''w'' PENDING])))) = Some row' \<and>
    ws_recovery_attempts row' = 2 \<and> ws_status row' = PENDING"
  using recovery_attempts_bounded
    [of "example_init ''w'' PENDING" "example_db [example_row ''w'' PENDING]" "example_row ''w'' PENDING"
      5 200 "Some ''xid2''" False] by auto

lemma recordWorkflowOutcome_result:
  assumes "find_row ws_workflow_uuid wfid (t_workflow_status db) = Some row" and "db_wf db"
    and "st \<noteq> CANCELLED"
  shows "if ws_status row = CANCELLED
    then recordWorkflowOutcome now wfid st out err db = (Inl (DBOSWorkflowCancelledError wfid), db)
    else \<exists>db'. recordWorkflowOutcome now wfid st out err db = (Inr (), db') \<and>
      find_row ws_workflow_uuid wfid (t_workflow_status db') = Some (row\<lparr>ws_status := st, ws_updated_at := now,
        ws_output := (if truthy out then out else ws_output row),
        ws_error := (if truthy err then err else ws_error row),
        ws_deduplication_id := None, ws_completed_at := Some now\<rparr>) \<and>
      (\<forall>other. other \<noteq> wfid \<longrightarrow> find_row ws_workflow_uuid other (t_workflow_status db') =
        find_row ws_workflow_uuid other (t_workflow_status db))"
proof -
  let ?m = "\<lambda>r. ws_workflow_uuid r = wfid \<and> ws_status r \<noteq> CANCELLED"
  have key: "ws_workflow_uuid row = wfid" using assms(1) by (auto dest: find_row_SomeD)
  have only: "r = row" if "r \<in> set (t_workflow_status db)" "ws_workflow_uuid r = wfid" for r
    using find_row_unique [of ws_workflow_uuid "t_workflow_status db" r] assms that by simp
  have same: "update_where ?m f (t_workflow_status db) = t_workflow_status db" if "ws_status row = CANCELLED" for f
    using only that by (intro update_where_no_match) blast
  show ?thesis
    using assms key same
    by (auto simp: recordWorkflowOutcome_def updateWorkflowStatus_def Let_def status_where_matches_def
        and_then_def transaction_def getWorkflowStatusValue_def find_row_update_where apply_status_update_def
        split: option.splits)
qed

lemma recordWorkflowOutcome_memory:
  "recordWorkflowOutcome now wfid st out err db = (r, db') \<Longrightarrow> m_runningWorkflowMap db' = m_runningWorkflowMap db"
  by (auto simp: recordWorkflowOutcome_def updateWorkflowStatus_def Let_def and_then_def transaction_def
      split: if_splits prod.splits sum.splits)

text \<open>
  C10: A cancelled workflow cannot complete. Recording an outcome for a \<open>CANCELLED\<close> row throws and
  leaves the database as it was; for any other existing row it stores the outcome, stamps the
  completion, frees the deduplication ID and changes no other row.
\<close>

theorem outcome_never_overwrites_cancelled:
  assumes "find_row ws_workflow_uuid wfid (t_workflow_status db) = Some row" and "db_wf db"
    and "st \<noteq> CANCELLED"
  shows "if ws_status row = CANCELLED
    then recordWorkflowOutcome now wfid st out err db = (Inl (DBOSWorkflowCancelledError wfid), db)
    else \<exists>db'. recordWorkflowOutcome now wfid st out err db = (Inr (), db') \<and>
      find_row ws_workflow_uuid wfid (t_workflow_status db') = Some (row\<lparr>ws_status := st, ws_updated_at := now,
        ws_output := (if truthy out then out else ws_output row),
        ws_error := (if truthy err then err else ws_error row),
        ws_deduplication_id := None, ws_completed_at := Some now\<rparr>) \<and>
      (\<forall>other. other \<noteq> wfid \<longrightarrow> find_row ws_workflow_uuid other (t_workflow_status db') =
        find_row ws_workflow_uuid other (t_workflow_status db))"
  by (rule recordWorkflowOutcome_result [OF assms])

theorem outcome_never_overwrites_cancelled_witness:
  "recordWorkflowOutcome 200 ''w'' SUCCESS (Some ''1'') None (example_db [example_row ''w'' CANCELLED]) =
     (Inl (DBOSWorkflowCancelledError ''w''), example_db [example_row ''w'' CANCELLED])"
  using outcome_never_overwrites_cancelled
    [of "''w''" "example_db [example_row ''w'' CANCELLED]" "example_row ''w'' CANCELLED" SUCCESS 200 "Some ''1''" None]
  by (simp add: unique_key_def)

text \<open>
  Recovery hands every \<open>PENDING\<close> workflow of the failed executor and version back to a queue and
  touches nothing else. After a successful re-enqueue no such workflow is pending, the returned IDs
  are exactly the ones \<open>getPendingWorkflows\<close> listed before, and each of them is \<open>ENQUEUED\<close> on its old
  queue or, if it had none, on the recovery queue.
\<close>

lemma reenqueue_moves_pending_to_queue:
  assumes "reenqueueWorkflowsForRecovery now ex ver q db = (Inr ids, db')"
  shows "ids = getPendingWorkflows ex ver db \<and> getPendingWorkflows ex ver db' = [] \<and>
    (\<forall>wfid row. find_row ws_workflow_uuid wfid (t_workflow_status db) = Some row \<longrightarrow>
       find_row ws_workflow_uuid wfid (t_workflow_status db') =
         Some (if ws_status row = PENDING \<and> ws_executor_id row = Some ex \<and> ws_application_version row = Some ver
           then row\<lparr>ws_started_at_epoch_ms := None, ws_status := ENQUEUED, ws_updated_at := now,
             ws_queue_name := Some (coalesce (ws_queue_name row) q)\<rparr>
           else row))"
  using assms
  by (auto simp: reenqueueWorkflowsForRecovery_def getPendingWorkflows_def Let_def find_row_update_where
      filter_update_where_empty split: if_splits)

text \<open>
  Redelivery is harmless. Enqueueing a batch again inserts nothing and leaves the status table as
  the first call left it; the first call returns exactly the IDs it inserted, keeps every existing
  row in place, and after it every ID of the batch has a row.
\<close>

lemma enqueue_batch_idempotent:
  assumes "enqueueWorkflows now sts db = (Inr ids, db1)"
  shows "fst (enqueueWorkflows now' sts db1) = Inr [] \<and>
    t_workflow_status (snd (enqueueWorkflows now' sts db1)) = t_workflow_status db1 \<and>
    (\<exists>new. t_workflow_status db1 = t_workflow_status db @ new \<and> ids = map ws_workflow_uuid new) \<and>
    si_workflowUUID ` set sts \<subseteq> workflow_ids db1"
proof (cases "sts = []")
  case False
  obtain cs cur where a: "assignBatchCreatedAt now sts db = (Inr cs, db\<lparr>m_batchCreatedAtCursors := cur\<rparr>)"
    using assignBatchCreatedAt_effect by blast
  have ok: "check_batch sts = None"
    using assms False by (cases "check_batch sts") (auto simp: enqueueWorkflows_def)
  obtain rows where ins: "insert_skipping (zip sts cs) (t_workflow_status db) = (ids, rows)"
    and db1: "db1 = db\<lparr>m_batchCreatedAtCursors := cur, t_workflow_status := rows\<rparr>"
    using assms False a ok by (auto simp: enqueueWorkflows_def insert_chunks_eq split: prod.splits)
  have len: "length cs = length sts" by (rule assignBatchCreatedAt_spec(1) [OF a])
  have cover: "si_workflowUUID st \<in> ws_workflow_uuid ` set rows" if "st \<in> set sts" for st
    using insert_skipping_covers [of _ "zip sts cs" "t_workflow_status db"] ins that len
    by (metis (no_types, lifting) fst_conv in_set_impl_in_set_zip1 snd_conv)
  obtain cs' cur' where a': "assignBatchCreatedAt now' sts db1 = (Inr cs', db1\<lparr>m_batchCreatedAtCursors := cur'\<rparr>)"
    using assignBatchCreatedAt_effect by blast
  have "insert_skipping (zip sts cs') rows = ([], rows)"
    using cover by (intro insert_skipping_known) (auto dest: set_zip_leftD)
  then have "enqueueWorkflows now' sts db1 = (Inr [], db1\<lparr>m_batchCreatedAtCursors := cur'\<rparr>)"
    using False ok a' db1 by (simp add: enqueueWorkflows_def insert_chunks_eq)
  then show ?thesis
    using insert_skipping_extends [OF ins] cover by (auto simp: db1 workflow_ids_def)
qed (use assms in \<open>simp add: enqueueWorkflows_def\<close>)

text \<open>
  Per-partition order survives batching. Over two consecutive batches of one process, whatever the
  clock does in between and whatever happened to the tables, the timestamps given to entries with the
  same partition key strictly increase in submission order, and the first batch that sees a key starts
  after every active row of that key.
\<close>

lemma batch_timestamps_increase:
  assumes "assignBatchCreatedAt now1 b1 db = (Inr cs1, db1)"
    and "m_batchCreatedAtCursors db2 = m_batchCreatedAtCursors db1"
    and "assignBatchCreatedAt now2 b2 db2 = (Inr cs2, db3)"
  shows "per_key_increasing (zip (b1 @ b2) (cs1 @ cs2)) \<and>
    (\<forall>k. m_batchCreatedAtCursors db k = None \<longrightarrow>
      (\<forall>r\<in>set (t_workflow_status db). active_with_key k r \<longrightarrow>
        (\<forall>(st, c)\<in>set (zip b1 cs1). si_queuePartitionKey st = Some k \<longrightarrow> ws_created_at r < c)))"
proof -
  note s1 = assignBatchCreatedAt_spec [OF assms(1)] and s2 = assignBatchCreatedAt_spec [OF assms(3)]
  have cross: "c < c'" if "(st, c) \<in> set (zip b1 cs1)" "(st', c') \<in> set (zip b2 cs2)"
    "si_queuePartitionKey st = Some k" "si_queuePartitionKey st' = Some k" for st c st' c' k
    using s1(3) [OF that(1,3)] s2(3) [OF that(2,4)] assms(2) by fastforce
  have "zip (b1 @ b2) (cs1 @ cs2) = zip b1 cs1 @ zip b2 cs2" using s1(1) by simp
  with s1(2) s2(2) cross have "per_key_increasing (zip (b1 @ b2) (cs1 @ cs2))"
    by (fastforce simp: per_key_increasing_def sorted_wrt_append)
  with s1(4) show ?thesis by blast
qed

end
