(* ===== verification/SysDB_Steps.thy ===== *)
theory SysDB_Steps
  imports SysDB_Status
begin

text \<open>
  Step checkpoints (\<open>operation_outputs\<close>; the section "Step Results", "Sleep" and the internal
  helpers of \<open>src/system_database.ts\<close>): recording an operation result, replaying it, transactional
  steps, patch markers and durable sleeps.

  The locale \<open>replayed_step\<close> is the contract the workflow engine relies on: once a step has
  succeeded, every later execution of the same step returns the recorded result and changes
  nothing. \<open>runAndRecordResult\<close> (the engine of send, setEvent, stream writes and status queries) and
  \<open>durableSleep\<close> interpret it here.
\<close>

section \<open>Recording and reading a checkpoint\<close>

record SystemDatabaseStoredResult =
  sr_output :: "string option"
  sr_error :: "string option"
  sr_childWorkflowID :: "string option"
  sr_functionName :: string
  sr_serialization :: "string option"

record operation_options =
  po_childWorkflowID :: "string option"
  po_output :: "string option"
  po_error :: "string option"
  po_serialization :: "string option"

definition output_only :: "string option \<Rightarrow> operation_options" where
  "output_only out = \<lparr>po_childWorkflowID = None, po_output = out, po_error = None, po_serialization = None\<rparr>"

definition new_operation_row ::
  "string \<Rightarrow> int \<Rightarrow> string \<Rightarrow> int \<Rightarrow> int \<Rightarrow> operation_options \<Rightarrow> operation_outputs" where
  "new_operation_row workflowID functionID functionName startTimeEpochMs endTimeEpochMs opts = \<lparr>
     oo_workflow_uuid = workflowID,
     oo_function_id = functionID,
     oo_output = po_output opts,
     oo_error = po_error opts,
     oo_child_workflow_id = po_childWorkflowID opts,
     oo_function_name = functionName,
     oo_started_at_epoch_ms = Some startTimeEpochMs,
     oo_completed_at_epoch_ms = Some endTimeEpochMs,
     oo_serialization = po_serialization opts \<rparr>"

definition claim_executor :: "string \<Rightarrow> sysdb \<Rightarrow> sysdb" where
  "claim_executor workflowID db = db\<lparr>t_workflow_status :=
     update_where (\<lambda>r. ws_workflow_uuid r = workflowID \<and> ws_executor_id r \<noteq> Some (m_executorID db))
       (\<lambda>r. r\<lparr>ws_executor_id := Some (m_executorID db)\<rparr>) (t_workflow_status db)\<rparr>"

text \<open>
  \<open>INSERT ... ON CONFLICT DO UPDATE SET completed_at = completed_at RETURNING completed_at\<close>: the
  caller knows it lost the race when the returned completion time is not its own. \<open>Number(null)\<close> is 0.
\<close>

definition recordOperationResultInternal ::
  "string \<Rightarrow> int \<Rightarrow> string \<Rightarrow> bool \<Rightarrow> int \<Rightarrow> int \<Rightarrow> operation_options \<Rightarrow> unit db_op" where
  "recordOperationResultInternal workflowID functionID functionName checkConflict
      startTimeEpochMs endTimeEpochMs opts db =
     (case find_row oo_pk (workflowID, functionID) (t_operation_outputs db) of
        Some r \<Rightarrow>
          (let completed = coalesce (oo_completed_at_epoch_ms r) 0 in
           if checkConflict \<and> completed \<noteq> endTimeEpochMs then (Inl (DBOSWorkflowConflictError workflowID), db)
           else if completed = endTimeEpochMs then (Inr (), claim_executor workflowID db)
           else (Inr (), db))
      | None \<Rightarrow>
          if workflowID \<notin> workflow_ids db then (Inl (PgError ''23503''), db)
          else (Inr (), claim_executor workflowID (db\<lparr>t_operation_outputs := t_operation_outputs db @
                 [new_operation_row workflowID functionID functionName startTimeEpochMs endTimeEpochMs opts]\<rparr>)))"

definition recordOperationResult ::
  "string \<Rightarrow> int \<Rightarrow> string \<Rightarrow> bool \<Rightarrow> int \<Rightarrow> int \<Rightarrow> operation_options \<Rightarrow> unit db_op" where
  "recordOperationResult workflowID functionID functionName checkConflict startTimeEpochMs endTimeEpochMs opts =
     recordOperationResultInternal workflowID functionID functionName checkConflict
       startTimeEpochMs endTimeEpochMs opts"

definition stored_result :: "operation_outputs \<Rightarrow> SystemDatabaseStoredResult" where
  "stored_result r = \<lparr>sr_output = oo_output r, sr_error = oo_error r, sr_childWorkflowID = oo_child_workflow_id r,
     sr_functionName = oo_function_name r, sr_serialization = oo_serialization r\<rparr>"

definition getOperationResultAndThrowIfCancelled ::
  "string \<Rightarrow> int \<Rightarrow> SystemDatabaseStoredResult option db_op" where
  "getOperationResultAndThrowIfCancelled workflowID functionID =
     and_then (checkIfCanceled workflowID) (\<lambda>_.
       gets (\<lambda>db. map_option stored_result (find_row oo_pk (workflowID, functionID) (t_operation_outputs db))))"

text \<open>\<open>LIMIT\<close> and \<open>OFFSET\<close>, both optional.\<close>

definition limit_offset :: "nat option \<Rightarrow> nat option \<Rightarrow> 'a list \<Rightarrow> 'a list" where
  "limit_offset limit offset xs =
     (let ys = (case offset of None \<Rightarrow> xs | Some n \<Rightarrow> drop n xs)
      in case limit of None \<Rightarrow> ys | Some n \<Rightarrow> take n ys)"

definition getAllOperationResults :: "string \<Rightarrow> nat option \<Rightarrow> nat option \<Rightarrow> sysdb \<Rightarrow> operation_outputs list" where
  "getAllOperationResults workflowID limit offset db =
     limit_offset limit offset
       (sort_key oo_function_id (filter (\<lambda>r. oo_workflow_uuid r = workflowID) (t_operation_outputs db)))"

section \<open>Running an operation once\<close>

definition runAndRecordResult ::
  "int \<Rightarrow> int \<Rightarrow> string \<Rightarrow> string \<Rightarrow> int \<Rightarrow> string option db_op \<Rightarrow> string option db_op" where
  "runAndRecordResult startTime endTime functionName workflowID functionID func =
     and_then (getOperationResultAndThrowIfCancelled workflowID functionID) (\<lambda>result.
       case result of
         Some res \<Rightarrow>
           if sr_functionName res \<noteq> functionName
           then throw (DBOSUnexpectedStepError workflowID functionID functionName (sr_functionName res))
           else ret (sr_output res)
       | None \<Rightarrow>
           and_then func (\<lambda>output.
             and_then (recordOperationResultInternal workflowID functionID functionName True startTime endTime
               (output_only output)) (\<lambda>_. ret output)))"

definition runTransactionalStep ::
  "int \<Rightarrow> int \<Rightarrow> string \<Rightarrow> int \<Rightarrow> string \<Rightarrow> string option db_op \<Rightarrow> SystemDatabaseStoredResult option db_op" where
  "runTransactionalStep startTime endTime workflowID functionID functionName callback =
     transaction (and_then (getOperationResultAndThrowIfCancelled workflowID functionID) (\<lambda>existing.
       case existing of
         Some res \<Rightarrow> ret (Some res)
       | None \<Rightarrow>
           and_then callback (\<lambda>output.
             and_then (recordOperationResultInternal workflowID functionID functionName True startTime endTime
               (output_only output)) (\<lambda>_. ret None))))"

section \<open>Patch markers\<close>

record patch_result =
  pr_isPatched :: bool
  pr_hasEntry :: bool

definition checkPatch :: "int \<Rightarrow> string \<Rightarrow> int \<Rightarrow> string \<Rightarrow> bool \<Rightarrow> patch_result db_op" where
  "checkPatch dn workflowID functionID name deprecated db =
     (let patchName = ''DBOS.patch-'' @ name in
      case find_row oo_pk (workflowID, functionID) (t_operation_outputs db) of
        Some r \<Rightarrow>
          if deprecated then (Inr \<lparr>pr_isPatched = True, pr_hasEntry = (oo_function_name r = patchName)\<rparr>, db)
          else if oo_function_name r = patchName then (Inr \<lparr>pr_isPatched = True, pr_hasEntry = True\<rparr>, db)
          else (Inr \<lparr>pr_isPatched = False, pr_hasEntry = False\<rparr>, db)
      | None \<Rightarrow>
          if deprecated then (Inr \<lparr>pr_isPatched = True, pr_hasEntry = False\<rparr>, db)
          else if workflowID \<notin> workflow_ids db then (Inl (PgError ''23503''), db)
          else (Inr \<lparr>pr_isPatched = True, pr_hasEntry = True\<rparr>,
                db\<lparr>t_operation_outputs := t_operation_outputs db @
                  [new_operation_row workflowID functionID patchName dn dn (output_only None)]\<rparr>))"

section \<open>Durable sleep\<close>

definition read_number :: "string option \<Rightarrow> int db_op" where
  "read_number text = (case text of
       None \<Rightarrow> ret 0
     | Some s \<Rightarrow> (case JSON_parse s of Some (JNum n) \<Rightarrow> ret n | _ \<Rightarrow> throw (PlainError ''SyntaxError'')))"

text \<open>
  The wakeup time is recorded as portable JSON; a replay reads it back with \<open>JSON.parse\<close>
  (\<open>null\<close> compares like 0; a text that is not a number is never stored under this step name).
\<close>

definition durableSleep :: "int \<Rightarrow> string \<Rightarrow> int \<Rightarrow> int \<Rightarrow> int db_op" where
  "durableSleep now workflowID functionID durationMS =
     (let endTimeMs = now + durationMS in
      and_then (getOperationResultAndThrowIfCancelled workflowID functionID) (\<lambda>result.
        case result of
          Some res \<Rightarrow>
            if sr_functionName res \<noteq> ''DBOS.sleep''
            then throw (DBOSUnexpectedStepError workflowID functionID ''DBOS.sleep'' (sr_functionName res))
            else read_number (sr_output res)
        | None \<Rightarrow>
            and_then (recordOperationResultInternal workflowID functionID ''DBOS.sleep'' False now now
                \<lparr>po_childWorkflowID = None, po_output = Some (JSON_stringify (JNum endTimeMs)), po_error = None,
                 po_serialization = Some ''portable_json''\<rparr>) (\<lambda>_. ret endTimeMs)))"

text \<open>The waiting loop of \<open>durableSleepms\<close>: the timers it starts when each lasts as long as asked.\<close>

function sleep_timers :: "nat \<Rightarrow> int \<Rightarrow> int \<Rightarrow> int list" where
  "sleep_timers maxTimeoutMS now endTime =
     (if now < endTime \<and> 0 < maxTimeoutMS
      then (let t = min (endTime - now) (int maxTimeoutMS) in t # sleep_timers maxTimeoutMS (now + t) endTime)
      else [])"
  by pat_completeness auto
termination
  by (relation "measure (\<lambda>(m, now, e). nat (e - now))") auto

declare sleep_timers.simps [simp del]

definition sleepConfig_maxTimeoutMS :: nat where
  "sleepConfig_maxTimeoutMS = 2147483647"

section \<open>Basic facts\<close>

lemma oo_pk_new_operation_row [simp]: "oo_pk (new_operation_row w f n s e opts) = (w, f)"
  by (simp add: oo_pk_def new_operation_row_def)

lemma new_operation_row_fields [simp]:
  "oo_workflow_uuid (new_operation_row w f n s e opts) = w"
  "oo_function_id (new_operation_row w f n s e opts) = f"
  "oo_function_name (new_operation_row w f n s e opts) = n"
  "oo_output (new_operation_row w f n s e opts) = po_output opts"
  by (simp_all add: new_operation_row_def)

lemma po_output_output_only [simp]: "po_output (output_only out) = out"
  by (simp add: output_only_def)

lemma stored_result_fields [simp]:
  "sr_functionName (stored_result r) = oo_function_name r" "sr_output (stored_result r) = oo_output r"
  by (simp_all add: stored_result_def)

lemma claim_executor_frame [simp]:
  "t_operation_outputs (claim_executor w db) = t_operation_outputs db"
  "t_notifications (claim_executor w db) = t_notifications db"
  "t_workflow_events (claim_executor w db) = t_workflow_events db"
  "t_workflow_events_history (claim_executor w db) = t_workflow_events_history db"
  "t_streams (claim_executor w db) = t_streams db"
  "workflow_ids (claim_executor w db) = workflow_ids db"
  "m_executorID (claim_executor w db) = m_executorID db"
  by (simp_all add: claim_executor_def)

lemma getWorkflowStatusValue_claim [simp]:
  "getWorkflowStatusValue w (claim_executor w' db) = getWorkflowStatusValue w db"
  by (simp add: getWorkflowStatusValue_def claim_executor_def find_row_update_where option.map_comp comp_def
      if_distrib cong: if_cong)

lemma claim_executor_keeps [keep_rules]: "db_wf db \<Longrightarrow> db_wf (claim_executor w db)"
  unfolding claim_executor_def by (rule db_wf_update_status_frame) simp_all

text \<open>Inserting a row of a table that hangs off \<open>workflow_status\<close>.\<close>

lemma db_wf_insert_operation:
  assumes "db_wf db" and "find_row oo_pk (oo_pk r) (t_operation_outputs db) = None"
    and "oo_workflow_uuid r \<in> workflow_ids db"
  shows "db_wf (db\<lparr>t_operation_outputs := t_operation_outputs db @ [r]\<rparr>)"
  using assms unfolding db_wf_defs by (simp add: find_row_None_iff)

lemma recordOperationResultInternal_keeps [keep_rules]:
  "preserves db_wf (recordOperationResultInternal w f n chk s e opts)"
proof (rule preservesI)
  fix db assume wf: "db_wf db"
  show "db_wf (snd (recordOperationResultInternal w f n chk s e opts db))"
  proof (cases "find_row oo_pk (w, f) (t_operation_outputs db)")
    case None
    then show ?thesis using wf db_wf_insert_operation [OF wf, of "new_operation_row w f n s e opts"]
      by (auto simp: recordOperationResultInternal_def intro: claim_executor_keeps)
  next
    case (Some r)
    then show ?thesis using wf
      by (auto simp: recordOperationResultInternal_def Let_def intro: claim_executor_keeps)
  qed
qed

lemma getOperationResult_keeps [keep_rules]: "preserves I (getOperationResultAndThrowIfCancelled w f)"
  unfolding getOperationResultAndThrowIfCancelled_def by (intro keep_rules)

lemma recordOperationResult_keeps [keep_rules]:
  "preserves db_wf (recordOperationResult w f n chk s e opts)"
  unfolding recordOperationResult_def by (rule keep_rules)

lemma runAndRecordResult_keeps [keep_rules]:
  "preserves db_wf func \<Longrightarrow> preserves db_wf (runAndRecordResult s e n w f func)"
  unfolding runAndRecordResult_def by (intro keep_rules)

lemma runTransactionalStep_keeps [keep_rules]:
  "preserves db_wf callback \<Longrightarrow> preserves db_wf (runTransactionalStep s e w f n callback)"
  unfolding runTransactionalStep_def by (intro keep_rules)

lemma checkPatch_keeps [keep_rules]: "preserves db_wf (checkPatch dn w f n dep)"
proof (rule preservesI)
  fix db assume wf: "db_wf db"
  show "db_wf (snd (checkPatch dn w f n dep db))"
    using wf db_wf_insert_operation [OF wf, of "new_operation_row w f (''DBOS.patch-'' @ n) dn dn (output_only None)"]
    by (auto simp: checkPatch_def Let_def split: option.splits)
qed

lemma read_number_keeps [keep_rules]: "preserves I (read_number t)"
  by (auto simp: preserves_def read_number_def split: option.splits json.splits)

lemma durableSleep_keeps [keep_rules]: "preserves db_wf (durableSleep now w f d)"
  unfolding durableSleep_def Let_def by (intro keep_rules)

section \<open>Evaluation of the replay test\<close>

definition cancelled :: "string \<Rightarrow> sysdb \<Rightarrow> bool" where
  "cancelled workflowID db = (getWorkflowStatusValue workflowID db = Some CANCELLED)"

lemma checkIfCanceled_eval [op_simps]:
  "checkIfCanceled w db =
    (if cancelled w db then (Inl (DBOSWorkflowCancelledError w), db) else (Inr (), db))"
  by (simp add: checkIfCanceled_def cancelled_def)

lemma getOperationResult_eval [op_simps]:
  "getOperationResultAndThrowIfCancelled w f db =
    (if cancelled w db then (Inl (DBOSWorkflowCancelledError w), db)
     else (Inr (map_option stored_result (find_row oo_pk (w, f) (t_operation_outputs db))), db))"
  by (simp add: getOperationResultAndThrowIfCancelled_def and_then_def op_simps)

lemma recordOperationResult_new [op_simps]:
  "find_row oo_pk (w, f) (t_operation_outputs db) = None \<Longrightarrow> w \<in> workflow_ids db \<Longrightarrow>
    recordOperationResultInternal w f n chk s e opts db =
      (Inr (), claim_executor w (db\<lparr>t_operation_outputs := t_operation_outputs db @
        [new_operation_row w f n s e opts]\<rparr>))"
  by (simp add: recordOperationResultInternal_def)

lemma runAndRecordResult_eval:
  "runAndRecordResult s e n w f func db =
    (if cancelled w db then (Inl (DBOSWorkflowCancelledError w), db)
     else case find_row oo_pk (w, f) (t_operation_outputs db) of
       Some r \<Rightarrow> (if oo_function_name r \<noteq> n then Inl (DBOSUnexpectedStepError w f n (oo_function_name r))
          else Inr (oo_output r), db)
     | None \<Rightarrow> and_then func (\<lambda>output. and_then (recordOperationResultInternal w f n True s e (output_only output))
          (\<lambda>_. ret output)) db)"
  by (simp add: runAndRecordResult_def and_then_def op_simps split: option.splits)

section \<open>The once-and-only-once contract\<close>

text \<open>
  \<open>run i\<close> is one execution of a step (its inputs, clock readings included, are \<open>i\<close>; \<open>ok i\<close> says the
  body does not write the step's own checkpoint), \<open>recorded\<close> reads the checkpoint, \<open>ready\<close> says that
  the workflow may still run, and \<open>env\<close> is what the rest of the system may do to the state meanwhile.
\<close>

locale replayed_step =
  fixes run :: "'i \<Rightarrow> ('s, 'e, 'a) op"
    and ok :: "'i \<Rightarrow> bool"
    and recorded :: "'s \<Rightarrow> 'a option"
    and ready :: "'s \<Rightarrow> bool"
    and env :: "'s \<Rightarrow> 's \<Rightarrow> bool"
  assumes records: "ok i \<Longrightarrow> run i s = (Inr x, s') \<Longrightarrow> recorded s' = Some x"
    and replays: "recorded s = Some x \<Longrightarrow> ready s \<Longrightarrow> run i s = (Inr x, s)"
    and stable: "env s s' \<Longrightarrow> recorded s = Some x \<Longrightarrow> recorded s' = Some x"
begin

lemma recorded_run: "env\<^sup>*\<^sup>* s s' \<Longrightarrow> recorded s = Some x \<Longrightarrow> recorded s' = Some x"
  by (induction rule: rtranclp_induct) (auto intro: stable)

lemma once_and_only_once:
  assumes "ok i" and "run i s = (Inr x, s1)" and "env\<^sup>*\<^sup>* s1 s2" and "ready s2"
  shows "run j s2 = (Inr x, s2)"
  using assms by (blast intro: replays recorded_run records)

end

text \<open>What the rest of the system may do to checkpoints: anything that keeps the existing ones.\<close>

definition keeps_checkpoints :: "sysdb \<Rightarrow> sysdb \<Rightarrow> bool" where
  "keeps_checkpoints db db' = (\<forall>k r. find_row oo_pk k (t_operation_outputs db) = Some r \<longrightarrow>
     find_row oo_pk k (t_operation_outputs db') = Some r)"

definition recorded_output :: "string \<Rightarrow> string \<Rightarrow> int \<Rightarrow> sysdb \<Rightarrow> string option option" where
  "recorded_output n w f db = (case find_row oo_pk (w, f) (t_operation_outputs db) of
     None \<Rightarrow> None | Some r \<Rightarrow> if oo_function_name r = n then Some (oo_output r) else None)"

definition leaves_checkpoints :: "'a db_op \<Rightarrow> bool" where
  "leaves_checkpoints m = (\<forall>db. t_operation_outputs (snd (m db)) = t_operation_outputs db)"

lemma recorded_output_stable:
  "keeps_checkpoints db db' \<Longrightarrow> recorded_output n w f db = Some x \<Longrightarrow> recorded_output n w f db' = Some x"
  by (auto simp: keeps_checkpoints_def recorded_output_def split: option.splits)

lemma runAndRecordResult_records:
  assumes "leaves_checkpoints func" and "runAndRecordResult s e n w f func db = (Inr x, db')"
  shows "recorded_output n w f db' = Some x"
proof (cases "find_row oo_pk (w, f) (t_operation_outputs db)")
  case (Some r)
  then show ?thesis using assms(2)
    by (auto simp: runAndRecordResult_eval recorded_output_def split: if_splits)
next
  case None
  then obtain db1 where f1: "func db = (Inr x, db1)"
    and rec: "recordOperationResultInternal w f n True s e (output_only x) db1 = (Inr (), db')"
    using assms(2) by (auto simp: runAndRecordResult_eval and_then_success split: if_splits)
  have "find_row oo_pk (w, f) (t_operation_outputs db1) = None"
    using assms(1) f1 None unfolding leaves_checkpoints_def by (metis snd_conv)
  with rec show ?thesis
    by (auto simp: recordOperationResultInternal_def recorded_output_def find_row_append split: if_splits)
qed

lemma runAndRecordResult_replays:
  "recorded_output n w f db = Some x \<Longrightarrow> \<not> cancelled w db \<Longrightarrow> runAndRecordResult s e n w f func db = (Inr x, db)"
  by (auto simp: runAndRecordResult_eval recorded_output_def split: option.splits if_splits)

interpretation recorded_step: replayed_step "\<lambda>(s, e, func). runAndRecordResult s e n w f func"
    "\<lambda>(s, e, func). leaves_checkpoints func" "recorded_output n w f" "\<lambda>db. \<not> cancelled w db" keeps_checkpoints
    for n w f
  by unfold_locales
    (auto intro: runAndRecordResult_records runAndRecordResult_replays recorded_output_stable)

lemma recorded_step_replay:
  assumes "leaves_checkpoints func" and "runAndRecordResult s e n w f func db = (Inr x, db1)"
    and "keeps_checkpoints\<^sup>*\<^sup>* db1 db2" and "\<not> cancelled w db2"
  shows "runAndRecordResult s' e' n w f func' db2 = (Inr x, db2)"
  using recorded_step.once_and_only_once [of "(s, e, func)" n w f db x db1 db2 "(s', e', func')"] assms by simp

definition recorded_sleep :: "string \<Rightarrow> int \<Rightarrow> sysdb \<Rightarrow> int option" where
  "recorded_sleep w f db = (case recorded_output ''DBOS.sleep'' w f db of
     None \<Rightarrow> None
   | Some None \<Rightarrow> Some 0
   | Some (Some s) \<Rightarrow> (case JSON_parse s of Some (JNum n) \<Rightarrow> Some n | _ \<Rightarrow> None))"

lemma read_number_success: "read_number t db = (Inr n, db') \<longleftrightarrow> db' = db \<and>
    (case t of None \<Rightarrow> n = 0 | Some s \<Rightarrow> JSON_parse s = Some (JNum n))"
  by (auto simp: read_number_def split: option.splits json.splits)

lemma durableSleep_eval:
  "durableSleep now w f d db =
    (if cancelled w db then (Inl (DBOSWorkflowCancelledError w), db)
     else case find_row oo_pk (w, f) (t_operation_outputs db) of
       Some r \<Rightarrow> if oo_function_name r \<noteq> ''DBOS.sleep''
         then (Inl (DBOSUnexpectedStepError w f ''DBOS.sleep'' (oo_function_name r)), db)
         else read_number (oo_output r) db
     | None \<Rightarrow> and_then (recordOperationResultInternal w f ''DBOS.sleep'' False now now
           \<lparr>po_childWorkflowID = None, po_output = Some (JSON_stringify (JNum (now + d))), po_error = None,
            po_serialization = Some ''portable_json''\<rparr>) (\<lambda>_. ret (now + d)) db)"
  by (simp add: durableSleep_def Let_def and_then_def op_simps split: option.splits)

lemma JSON_parse_show_int [simp]: "JSON_parse (show_int i) = Some (JNum i)"
  using JSON_parse_stringify [of "JNum i"] by simp

lemma durableSleep_records:
  assumes "durableSleep now w f d db = (Inr n, db')"
  shows "recorded_sleep w f db' = Some n"
proof (cases "find_row oo_pk (w, f) (t_operation_outputs db)")
  case (Some r)
  then show ?thesis using assms
    by (auto simp: durableSleep_eval recorded_sleep_def recorded_output_def read_number_success
        split: if_splits option.splits)
next
  case None
  then show ?thesis using assms
    by (auto simp: durableSleep_eval and_then_success recordOperationResultInternal_def recorded_sleep_def
        recorded_output_def find_row_append split: if_splits)
qed

lemma durableSleep_replays:
  "recorded_sleep w f db = Some n \<Longrightarrow> \<not> cancelled w db \<Longrightarrow> durableSleep now w f d db = (Inr n, db)"
  by (auto simp: durableSleep_eval recorded_sleep_def recorded_output_def read_number_def
      split: option.splits if_splits json.splits)

lemma recorded_sleep_stable:
  "keeps_checkpoints db db' \<Longrightarrow> recorded_sleep w f db = Some n \<Longrightarrow> recorded_sleep w f db' = Some n"
  by (auto simp: recorded_sleep_def split: option.splits dest: recorded_output_stable)

interpretation sleep_step: replayed_step "\<lambda>(now, d). durableSleep now w f d" "\<lambda>_. True"
    "recorded_sleep w f" "\<lambda>db. \<not> cancelled w db" keeps_checkpoints for w f
  by unfold_locales (auto intro: durableSleep_records durableSleep_replays recorded_sleep_stable)

lemma sleep_timers_sum:
  "0 < m \<Longrightarrow> sum_list (sleep_timers m now e) = max 0 (e - now) \<and> (\<forall>t\<in>set (sleep_timers m now e). 0 < t \<and> t \<le> int m)"
proof (induction m now e rule: sleep_timers.induct)
  case (1 m now e)
  show ?case
  proof (cases "now < e")
    case True
    then show ?thesis using 1 by (subst (1 2) sleep_timers.simps) (auto simp: Let_def)
  qed (simp add: sleep_timers.simps)
qed

section \<open>Properties\<close>

definition example_db2 :: sysdb where
  "example_db2 = (example_db [example_row ''w'' PENDING])\<lparr>t_operation_outputs :=
     [new_operation_row ''w'' 0 ''step0'' 100 110 (output_only (Some ''5''))]\<rparr>"

lemma example_db2_simps [simp]:
  "t_workflow_status example_db2 = [example_row ''w'' PENDING]"
  "t_operation_outputs example_db2 = [new_operation_row ''w'' 0 ''step0'' 100 110 (output_only (Some ''5''))]"
  by (simp_all add: example_db2_def)

text \<open>
  C2: Steps happen once. If a recorded step of a workflow succeeds with a result, then after any
  activity that keeps checkpoints, every later execution of that step in a workflow that is not
  cancelled (other clock, other body) returns that same result, without running the body and without
  any change to the database.
\<close>

theorem step_once_and_only_once:
  assumes "leaves_checkpoints func" and "runAndRecordResult s e n w f func db = (Inr x, db1)"
    and "keeps_checkpoints\<^sup>*\<^sup>* db1 db2" and "\<not> cancelled w db2"
  shows "runAndRecordResult s' e' n w f func' db2 = (Inr x, db2)"
  using assms by (rule recorded_step_replay)

theorem step_once_and_only_once_witness:
  "runAndRecordResult 300 301 ''step1'' ''w'' 1 (ret (Some ''other''))
     (snd (runAndRecordResult 200 201 ''step1'' ''w'' 1 (ret (Some ''42'')) example_db2)) =
   (Inr (Some ''42''), snd (runAndRecordResult 200 201 ''step1'' ''w'' 1 (ret (Some ''42'')) example_db2))"
proof (rule step_once_and_only_once)
  show "leaves_checkpoints (ret (Some ''42''))" by (simp add: leaves_checkpoints_def)
  show "runAndRecordResult 200 201 ''step1'' ''w'' 1 (ret (Some ''42'')) example_db2 =
      (Inr (Some ''42''), snd (runAndRecordResult 200 201 ''step1'' ''w'' 1 (ret (Some ''42'')) example_db2))"
    by (simp add: runAndRecordResult_eval cancelled_def getWorkflowStatusValue_def and_then_def
        recordOperationResultInternal_def workflow_ids_def)
  show "keeps_checkpoints\<^sup>*\<^sup>* (snd (runAndRecordResult 200 201 ''step1'' ''w'' 1 (ret (Some ''42'')) example_db2))
      (snd (runAndRecordResult 200 201 ''step1'' ''w'' 1 (ret (Some ''42'')) example_db2))" by simp
  show "\<not> cancelled ''w'' (snd (runAndRecordResult 200 201 ''step1'' ''w'' 1 (ret (Some ''42'')) example_db2))"
    by (simp add: runAndRecordResult_eval cancelled_def and_then_def getWorkflowStatusValue_def
        recordOperationResultInternal_def workflow_ids_def claim_executor_def)
qed

text \<open>
  A durable sleep has one wakeup time. Whatever the clock and the requested duration at a replay,
  the recorded wakeup time is returned unchanged; and the timers that wait for it sum up to exactly the
  remaining time, none above the largest delay a JavaScript timer accepts.
\<close>

lemma durable_sleep_deadline_stable:
  assumes "durableSleep now w f d db = (Inr t, db1)" and "keeps_checkpoints\<^sup>*\<^sup>* db1 db2" and "\<not> cancelled w db2"
  shows "durableSleep now' w f d' db2 = (Inr t, db2) \<and>
    sum_list (sleep_timers sleepConfig_maxTimeoutMS now' t) = max 0 (t - now') \<and>
    (\<forall>x\<in>set (sleep_timers sleepConfig_maxTimeoutMS now' t). 0 < x \<and> x \<le> 2147483647)"
proof -
  have "(\<lambda>(now, d). durableSleep now w f d) (now', d') db2 = (Inr t, db2)"
    by (rule sleep_step.once_and_only_once [where i = "(now, d)" and s = db and ?s1.0 = db1]) (use assms in auto)
  then show ?thesis
    using sleep_timers_sum [of sleepConfig_maxTimeoutMS now' t] by (simp add: sleepConfig_maxTimeoutMS_def)
qed

text \<open>
  A transactional step is atomic. Either it throws and the database is untouched, or a checkpoint
  existed and the callback did not run, or the callback's writes and the checkpoint of its output were
  committed together.
\<close>

lemma transactional_step_atomic:
  assumes "runTransactionalStep s e w f n callback db = (r, db')"
  shows "case r of
      Inl _ \<Rightarrow> db' = db
    | Inr (Some res) \<Rightarrow> db' = db \<and>
        map_option stored_result (find_row oo_pk (w, f) (t_operation_outputs db)) = Some res
    | Inr None \<Rightarrow> find_row oo_pk (w, f) (t_operation_outputs db) = None \<and>
        (\<exists>output db1. callback db = (Inr output, db1) \<and>
          recordOperationResultInternal w f n True s e (output_only output) db1 = (Inr (), db'))"
proof (cases r)
  case (Inl err)
  with assms show ?thesis by (auto simp: runTransactionalStep_def transaction_failure)
next
  case (Inr v)
  with assms show ?thesis
    by (cases "find_row oo_pk (w, f) (t_operation_outputs db)")
      (auto simp: runTransactionalStep_def and_then_success op_simps split: if_splits)
qed

text \<open>
  The first checkpoint of a step is final. Recording a result for a step that already has one never
  changes any checkpoint, and throws a conflict exactly when conflicts are checked and the stored
  completion time differs from the caller's; with equal completion times the caller is told it won
  although its output was dropped.
\<close>

lemma first_checkpoint_wins:
  assumes "find_row oo_pk (w, f) (t_operation_outputs db) = Some r"
  shows "t_operation_outputs (snd (recordOperationResultInternal w f n chk s e opts db)) = t_operation_outputs db \<and>
    fst (recordOperationResultInternal w f n chk s e opts db) =
      (if chk \<and> coalesce (oo_completed_at_epoch_ms r) 0 \<noteq> e then Inl (DBOSWorkflowConflictError w) else Inr ())"
  using assms by (auto simp: recordOperationResultInternal_def Let_def)

text \<open>
  A patch decision is stable. What the first patch check of a call decides, every later check of the
  same patch at the same call decides again as long as checkpoints are kept, without writing anything;
  a call that already ran as some other step is never patched.
\<close>

lemma patch_decision_stable:
  assumes "checkPatch t1 w f p False db = (Inr res, db1)" and "keeps_checkpoints\<^sup>*\<^sup>* db1 db2"
  shows "checkPatch t2 w f p False db2 = (Inr res, db2) \<and>
    (\<forall>r. find_row oo_pk (w, f) (t_operation_outputs db) = Some r \<longrightarrow>
      db1 = db \<and> pr_isPatched res = (oo_function_name r = ''DBOS.patch-'' @ p))"
proof -
  have keep: "find_row oo_pk (w, f) (t_operation_outputs db2) = Some r"
    if "find_row oo_pk (w, f) (t_operation_outputs db1) = Some r" for r
    using assms(2) that by (induction rule: rtranclp_induct) (auto simp: keeps_checkpoints_def)
  show ?thesis
  proof (cases "find_row oo_pk (w, f) (t_operation_outputs db)")
    case None
    with assms(1) have "find_row oo_pk (w, f) (t_operation_outputs db1) =
        Some (new_operation_row w f (''DBOS.patch-'' @ p) t1 t1 (output_only None))"
      by (auto simp: checkPatch_def Let_def find_row_append split: if_splits)
    from keep [OF this] None assms(1) show ?thesis
      by (auto simp: checkPatch_def Let_def split: if_splits)
  next
    case (Some r)
    with assms(1) have "db1 = db" by (auto simp: checkPatch_def Let_def split: if_splits)
    with keep Some assms(1) show ?thesis by (auto simp: checkPatch_def Let_def split: if_splits)
  qed
qed

end
