(* ===== verification/SysDB_Await.thy ===== *)
theory SysDB_Await
  imports SysDB_Steps
begin

text \<open>
  Waiting for other workflows (the section "Awaiting Workflows" of \<open>src/system_database.ts\<close>): the
  in-memory map of running workflows and the polling loops.

  A polling loop alternates a look at the database with a sleep during which everything else in the
  system runs. \<open>poll_loop\<close> is that loop: \<open>env d (db, now)\<close> is the database and the clock after
  sleeping for \<open>d\<close> milliseconds, \<open>look\<close> the query, and the loop returns \<open>None\<close> when the given number
  of iterations was not enough. With a deadline and a clock that advances it always is, which is
  proved below.
\<close>

section \<open>The running-workflow map\<close>

definition registerRunningWorkflow ::
  "string \<Rightarrow> string option \<Rightarrow> string option \<Rightarrow> sysdb \<Rightarrow> sysdb" where
  "registerRunningWorkflow workflowID queueName queuePartitionKey db =
     (let entry = \<lparr>rw_queueName = queueName, rw_queuePartitionKey = queuePartitionKey\<rparr>;
          old = m_runningWorkflowMap db
      in db\<lparr>m_runningWorkflowMap :=
           (if workflowID \<in> fst ` set old
            then map (\<lambda>(k, v). (k, if k = workflowID then entry else v)) old
            else old @ [(workflowID, entry)])\<rparr>)"

definition checkForRunningWorkflow :: "string \<Rightarrow> sysdb \<Rightarrow> bool" where
  "checkForRunningWorkflow workflowID db = (workflowID \<in> fst ` set (m_runningWorkflowMap db))"

definition clearRunningWorkflow :: "string \<Rightarrow> sysdb \<Rightarrow> sysdb" where
  "clearRunningWorkflow workflowID db =
     db\<lparr>m_runningWorkflowMap := filter (\<lambda>(k, v). k \<noteq> workflowID) (m_runningWorkflowMap db)\<rparr>"

definition countRunningWorkflowsForQueue :: "string \<Rightarrow> string option \<Rightarrow> sysdb \<Rightarrow> nat" where
  "countRunningWorkflowsForQueue queueName queuePartitionKey db =
     row_count (\<lambda>(k, v). rw_queueName v = Some queueName \<and> rw_queuePartitionKey v = queuePartitionKey)
       (m_runningWorkflowMap db)"

section \<open>Polling\<close>

text \<open>\<open>finishTime && ct > finishTime\<close> and \<open>finishTime ? finishTime - Date.now() : pollIntervalMs\<close>.\<close>

definition time_is_up :: "int option \<Rightarrow> int \<Rightarrow> bool" where
  "time_is_up finishTime ct = (case finishTime of None \<Rightarrow> False | Some t \<Rightarrow> t \<noteq> 0 \<and> ct > t)"

definition poll_delay :: "int option \<Rightarrow> int \<Rightarrow> int \<Rightarrow> int" where
  "poll_delay finishTime pollIntervalMs ct =
     min pollIntervalMs (case finishTime of None \<Rightarrow> pollIntervalMs
       | Some t \<Rightarrow> if t = 0 then pollIntervalMs else t - ct)"

type_synonym world = "sysdb \<times> int"

fun poll_loop ::
  "nat \<Rightarrow> (int \<Rightarrow> world \<Rightarrow> world) \<Rightarrow> string option \<Rightarrow> (sysdb \<Rightarrow> 'a option) \<Rightarrow> int option \<Rightarrow> int \<Rightarrow> world \<Rightarrow>
   ((dbos_error + 'a option) \<times> world) option" where
  "poll_loop 0 env caller look finishTime pollIntervalMs w = None"
| "poll_loop (Suc fuel) env caller look finishTime pollIntervalMs w =
     (let (db, now) = w in
      if (case caller of None \<Rightarrow> False | Some c \<Rightarrow> cancelled c db)
      then Some (Inl (DBOSWorkflowCancelledError (the caller)), w)
      else case look db of
        Some x \<Rightarrow> Some (Inr (Some x), w)
      | None \<Rightarrow>
          if time_is_up finishTime now then Some (Inr None, w)
          else poll_loop fuel env caller look finishTime pollIntervalMs
                 (env (poll_delay finishTime pollIntervalMs now) w))"

section \<open>Awaiting results\<close>

datatype awaited =
    AwaitedOutput "string option" "string option"
  | AwaitedError "string option" "string option"
  | AwaitedCancelled
  | AwaitedMaxRecoveryAttemptsExceeded

definition look_result :: "string \<Rightarrow> sysdb \<Rightarrow> awaited option" where
  "look_result workflowID db =
     (case find_row ws_workflow_uuid workflowID (t_workflow_status db) of
        None \<Rightarrow> None
      | Some r \<Rightarrow>
          if ws_status r = SUCCESS then Some (AwaitedOutput (ws_output r) (ws_serialization r))
          else if ws_status r = ERROR then Some (AwaitedError (ws_error r) (ws_serialization r))
          else if ws_status r = CANCELLED then Some AwaitedCancelled
          else if ws_status r = MAX_RECOVERY_ATTEMPTS_EXCEEDED then Some AwaitedMaxRecoveryAttemptsExceeded
          else None)"

text \<open>An empty caller ID is falsy: it is checked for cancellation only when it is not empty.\<close>

definition awaitWorkflowResult ::
  "nat \<Rightarrow> (int \<Rightarrow> world \<Rightarrow> world) \<Rightarrow> string \<Rightarrow> int option \<Rightarrow> string option \<Rightarrow> int option \<Rightarrow> int \<Rightarrow> world \<Rightarrow>
   ((dbos_error + awaited option) \<times> world) option" where
  "awaitWorkflowResult fuel env workflowID timeoutms callerID timerFuncID pollIntervalMs w =
     (let (db, now) = w in
      case (case (timerFuncID, callerID, timeoutms) of
              (Some f, Some c, Some t) \<Rightarrow> map_prod (map_sum id Some) id (durableSleep now c f t db)
            | _ \<Rightarrow> (Inr (map_option (\<lambda>t. now + t) timeoutms), db)) of
        (Inl e, db1) \<Rightarrow> Some (Inl e, (db1, now))
      | (Inr finishTime, db1) \<Rightarrow>
          poll_loop fuel env (or_null callerID) (look_result workflowID) finishTime pollIntervalMs (db1, now))"

definition finished_ids :: "string list \<Rightarrow> sysdb \<Rightarrow> string list" where
  "finished_ids workflowIds db =
     map ws_workflow_uuid (filter (\<lambda>r. ws_workflow_uuid r \<in> set workflowIds \<and> \<not> isWorkflowActive (ws_status r))
       (t_workflow_status db))"

text \<open>SQL leaves open which of the finished workflows \<open>LIMIT 1\<close> returns; the model takes the first row.\<close>

definition look_first :: "string list \<Rightarrow> sysdb \<Rightarrow> string option" where
  "look_first workflowIds db = (case finished_ids workflowIds db of [] \<Rightarrow> None | i # _ \<Rightarrow> Some i)"

definition awaitFirstWorkflowId ::
  "nat \<Rightarrow> (int \<Rightarrow> world \<Rightarrow> world) \<Rightarrow> string list \<Rightarrow> string option \<Rightarrow> int \<Rightarrow> world \<Rightarrow>
   ((dbos_error + string option) \<times> world) option" where
  "awaitFirstWorkflowId fuel env workflowIds callerID pollIntervalMs w =
     poll_loop fuel env (or_null callerID) (look_first workflowIds) None pollIntervalMs w"

fun awaitWorkflowIds ::
  "nat \<Rightarrow> (int \<Rightarrow> world \<Rightarrow> world) \<Rightarrow> string list \<Rightarrow> string option \<Rightarrow> int \<Rightarrow> world \<Rightarrow>
   ((dbos_error + unit) \<times> world) option" where
  "awaitWorkflowIds 0 env remaining callerID pollIntervalMs w = None"
| "awaitWorkflowIds (Suc fuel) env remaining callerID pollIntervalMs w =
     (if remaining = [] then Some (Inr (), w)
      else (case or_null callerID of
              Some c \<Rightarrow> if cancelled c (fst w) then Some (Inl (DBOSWorkflowCancelledError c), w)
                 else (let left = filter (\<lambda>i. i \<notin> set (finished_ids remaining (fst w))) remaining in
                       if left = [] then Some (Inr (), w)
                       else awaitWorkflowIds fuel env left callerID pollIntervalMs (env pollIntervalMs w))
            | None \<Rightarrow> (let left = filter (\<lambda>i. i \<notin> set (finished_ids remaining (fst w))) remaining in
                       if left = [] then Some (Inr (), w)
                       else awaitWorkflowIds fuel env left callerID pollIntervalMs (env pollIntervalMs w))))"

section \<open>Facts about polling\<close>

text \<open>A clock that advances by at least a millisecond per sleep exhausts every deadline.\<close>

definition clock_advances :: "(int \<Rightarrow> world \<Rightarrow> world) \<Rightarrow> bool" where
  "clock_advances env = (\<forall>d w. snd w < snd (env d w))"

lemma poll_loop_returns:
  assumes "clock_advances env" and "t \<noteq> 0" and "nat (t + 1 - snd w) < fuel"
  shows "\<exists>r w'. poll_loop fuel env caller look (Some t) poll w = Some (r, w')"
  using assms(3)
proof (induction fuel arbitrary: w)
  case (Suc fuel)
  obtain db now where w: "w = (db, now)" by (cases w)
  let ?w1 = "env (poll_delay (Some t) poll now) w"
  show ?case
  proof (cases "now > t")
    case True
    then show ?thesis using w assms(2) by (auto simp: Let_def time_is_up_def split: option.splits)
  next
    case False
    have "now < snd ?w1" using assms(1) w unfolding clock_advances_def by (metis snd_conv)
    then have "nat (t + 1 - snd ?w1) < fuel" using Suc.prems False w by simp
    from Suc.IH [OF this] show ?thesis
      using w False by (auto simp: Let_def time_is_up_def split: option.splits)
  qed
qed simp

text \<open>What a returned value means: it was seen in the final database.\<close>

lemma poll_loop_sound:
  assumes "poll_loop fuel env caller look ft poll w = Some (r, w')"
  shows "case r of
      Inl e \<Rightarrow> (\<exists>c. caller = Some c \<and> cancelled c (fst w') \<and> e = DBOSWorkflowCancelledError c)
    | Inr (Some x) \<Rightarrow> look (fst w') = Some x
    | Inr None \<Rightarrow> look (fst w') = None \<and> time_is_up ft (snd w')"
  using assms
proof (induction fuel arbitrary: w)
  case (Suc fuel)
  then show ?case
    by (cases w; cases "look (fst w)"; cases caller) (auto simp: Let_def split: if_splits)
qed simp

lemma poll_loop_invariant:
  assumes "\<And>d w. I (fst w) \<Longrightarrow> I (fst (env d w))"
    and "I (fst w)" and "poll_loop fuel env caller look ft poll w = Some (r, w')"
  shows "I (fst w')"
  using assms(2,3)
proof (induction fuel arbitrary: w)
  case (Suc fuel)
  obtain db now where w: "w = (db, now)" by (cases w)
  have step: "I (fst (env d w))" for d using assms(1) Suc.prems(1) .
  show ?case
    using Suc.prems w Suc.IH [OF step] by (auto simp: Let_def split: if_splits option.splits)
qed simp

section \<open>Properties\<close>

text \<open>
  The time at which awaiting with a timeout gives up: in a workflow that reserved a step for its
  timer, the time recorded under that step; otherwise the clock plus the timeout.
\<close>

definition await_deadline :: "int \<Rightarrow> string option \<Rightarrow> int option \<Rightarrow> int \<Rightarrow> sysdb \<Rightarrow> dbos_error + int" where
  "await_deadline now callerID timerFuncID timeoutms db =
     (case (timerFuncID, callerID) of (Some f, Some c) \<Rightarrow> fst (durableSleep now c f timeoutms db) | _ \<Rightarrow> Inr (now + timeoutms))"

lemma await_rejected:
  "await_deadline now caller tf t db = Inl e \<Longrightarrow>
    \<exists>db1. awaitWorkflowResult fuel env wfid (Some t) caller tf poll (db, now) = Some (Inl e, (db1, now))"
  by (cases "durableSleep now (the caller) (the tf) t db")
    (auto simp: awaitWorkflowResult_def await_deadline_def split: option.splits)

lemma await_polls:
  "await_deadline now caller tf t db = Inr ft \<Longrightarrow>
    \<exists>db1. awaitWorkflowResult fuel env wfid (Some t) caller tf poll (db, now) =
      poll_loop fuel env (or_null caller) (look_result wfid) (Some ft) poll (db1, now)"
  by (cases "durableSleep now (the caller) (the tf) t db")
    (auto simp: awaitWorkflowResult_def await_deadline_def split: option.splits)

lemma await_deadline_fresh:
  assumes "await_deadline now caller tf t db = Inr ft"
    and "\<And>c f. caller = Some c \<Longrightarrow> tf = Some f \<Longrightarrow> find_row oo_pk (c, f) (t_operation_outputs db) = None"
  shows "ft = now + t"
  using assms by (cases tf; cases caller)
    (auto simp: await_deadline_def durableSleep_eval and_then_def split: prod.splits sum.splits if_splits)

text \<open>
  C34: Awaiting a result with a timeout always returns, and what it returns is true, in and outside
  workflows. With a clock that advances, any deadline other than the epoch makes the loop stop: it throws
  the error of recording the deadline, or that the caller is cancelled; or it returns the outcome which the
  awaited workflow has in the database at that moment; or it reports a timeout, and then the deadline has
  passed and the awaited workflow has no final status. The deadline is the clock plus the timeout, unless
  the caller's timer step has recorded one before: a workflow that recovers and awaits again, at whatever
  time and with whatever timeout, keeps the deadline of the first time.
\<close>

theorem await_result_returns_truth:
  assumes "clock_advances env" and "\<forall>ft. await_deadline now caller tf t db = Inr ft \<longrightarrow> ft \<noteq> 0 \<and> nat (ft + 1 - now) < fuel"
  shows "(\<exists>r db' now'. awaitWorkflowResult fuel env wfid (Some t) caller tf poll (db, now) = Some (r, (db', now')) \<and>
     (case r of
        Inl e \<Rightarrow> await_deadline now caller tf t db = Inl e \<or> (\<exists>c. caller = Some c \<and> cancelled c db' \<and> e = DBOSWorkflowCancelledError c)
      | Inr (Some x) \<Rightarrow> look_result wfid db' = Some x
      | Inr None \<Rightarrow> (\<exists>ft. await_deadline now caller tf t db = Inr ft \<and> ft < now') \<and>
          (\<forall>r. find_row ws_workflow_uuid wfid (t_workflow_status db') = Some r \<longrightarrow> isWorkflowActive (ws_status r)))) \<and>
    (\<forall>ft. await_deadline now caller tf t db = Inr ft \<and> (\<forall>c f. caller = Some c \<and> tf = Some f \<longrightarrow> find_row oo_pk (c, f) (t_operation_outputs db) = None) \<longrightarrow> ft = now + t) \<and>
    (\<forall>c f ft db1 db2 now2 t2. caller = Some c \<and> tf = Some f \<and> durableSleep now c f t db = (Inr ft, db1) \<and> keeps_checkpoints\<^sup>*\<^sup>* db1 db2 \<and>
       \<not> cancelled c db2 \<longrightarrow> await_deadline now2 caller tf t2 db2 = Inr ft)"
proof (intro conjI allI impI)
  consider e where "await_deadline now caller tf t db = Inl e" | ft where "await_deadline now caller tf t db = Inr ft"
    by (cases "await_deadline now caller tf t db")
  then show "\<exists>r db' now'. awaitWorkflowResult fuel env wfid (Some t) caller tf poll (db, now) = Some (r, (db', now')) \<and>
     (case r of
        Inl e \<Rightarrow> await_deadline now caller tf t db = Inl e \<or> (\<exists>c. caller = Some c \<and> cancelled c db' \<and> e = DBOSWorkflowCancelledError c)
      | Inr (Some x) \<Rightarrow> look_result wfid db' = Some x
      | Inr None \<Rightarrow> (\<exists>ft. await_deadline now caller tf t db = Inr ft \<and> ft < now') \<and>
          (\<forall>r. find_row ws_workflow_uuid wfid (t_workflow_status db') = Some r \<longrightarrow> isWorkflowActive (ws_status r)))"
  proof cases
    case (1 e)
    from await_rejected [OF 1] show ?thesis using 1 by fastforce
  next
    case (2 ft)
    from await_polls [OF 2] obtain db1 where run: "awaitWorkflowResult fuel env wfid (Some t) caller tf poll (db, now) =
      poll_loop fuel env (or_null caller) (look_result wfid) (Some ft) poll (db1, now)" by blast
    with assms 2 obtain r db' now' where loop: "poll_loop fuel env (or_null caller) (look_result wfid) (Some ft) poll (db1, now) = Some (r, (db', now'))"
      using poll_loop_returns [of env ft "(db1, now)" fuel] by fastforce
    moreover have "isWorkflowActive (ws_status row)"
      if "look_result wfid db' = None" "find_row ws_workflow_uuid wfid (t_workflow_status db') = Some row" for row
      using that by (cases "ws_status row") (auto simp: look_result_def isWorkflowActive_def)
    ultimately show ?thesis unfolding run using 2 poll_loop_sound [OF loop]
      by (auto simp: or_null_def time_is_up_def split: sum.splits option.splits if_splits)
  qed
next
  fix ft assume "await_deadline now caller tf t db = Inr ft \<and> (\<forall>c f. caller = Some c \<and> tf = Some f \<longrightarrow> find_row oo_pk (c, f) (t_operation_outputs db) = None)"
  then show "ft = now + t" using await_deadline_fresh [of now caller tf t db ft] by blast
next
  fix c f ft db1 db2 now2 t2
  assume "caller = Some c \<and> tf = Some f \<and> durableSleep now c f t db = (Inr ft, db1) \<and> keeps_checkpoints\<^sup>*\<^sup>* db1 db2 \<and> \<not> cancelled c db2"
  then show "await_deadline now2 caller tf t2 db2 = Inr ft"
    using durable_sleep_deadline_stable [of now c f t db ft db1 db2 now2 t2] by (simp add: await_deadline_def)
qed

definition example_env :: "int \<Rightarrow> world \<Rightarrow> world" where
  "example_env d w = (fst w, snd w + max 1 d)"

lemma example_env_advances: "clock_advances example_env"
  by (simp add: clock_advances_def example_env_def less_max_iff_disj)

theorem await_result_returns_truth_witness:
  "\<exists>r w. awaitWorkflowResult 100 example_env ''other'' (Some 20) (Some ''w'') (Some 1) 5 (example_db2, 1000) = Some (r, w)"
proof -
  have "await_deadline 1000 (Some ''w'') (Some 1) 20 example_db2 = Inr 1020"
    by (simp add: await_deadline_def durableSleep_eval and_then_def recordOperationResultInternal_def cancelled_def getWorkflowStatusValue_def
        workflow_ids_def example_db2_def example_db_def)
  then have "\<forall>ft. await_deadline 1000 (Some ''w'') (Some 1) 20 example_db2 = Inr ft \<longrightarrow> ft \<noteq> 0 \<and> nat (ft + 1 - 1000) < 100" by simp
  from await_result_returns_truth [OF example_env_advances this, of "''other''" 5] show ?thesis by blast
qed

end
