(* ===== verification/SysDB_Messaging.thy ===== *)
theory SysDB_Messaging
  imports SysDB_Await
begin

text \<open>
  Messages, events, streams and their notifications (the sections "Messaging", "Events", "Streams",
  "Observability" of \<open>src/system_database.ts\<close>, its class \<open>NotificationMap\<close>, and \<open>readStream\<close> of
  \<open>src/dbos.ts\<close>).

  \<open>randomUUID()\<close> and the clock are arguments. The waiting loops of \<open>recv\<close> and \<open>getEvent\<close> are the
  polling loop of \<open>SysDB_Await\<close>: a notification only shortens a sleep, so it is part of the environment.
\<close>

section \<open>Sending\<close>

definition nullTopic :: string where
  "nullTopic = ''__null__topic__''"

text \<open>\<open>INSERT INTO notifications ... ON CONFLICT (message_uuid) DO NOTHING\<close>.\<close>

definition insert_notification ::
  "int \<Rightarrow> string \<Rightarrow> string \<Rightarrow> string option \<Rightarrow> string option \<Rightarrow> string \<Rightarrow> unit db_op" where
  "insert_notification now destinationID topic message serialization messageUUID db =
     (if messageUUID \<in> nt_message_uuid ` set (t_notifications db) then (Inr (), db)
      else if destinationID \<notin> workflow_ids db then (Inl (PgError ''23503''), db)
      else (Inr (), db\<lparr>t_notifications := t_notifications db @
        [\<lparr>nt_destination_uuid = destinationID, nt_topic = topic, nt_message = message,
          nt_created_at_epoch_ms = now, nt_message_uuid = messageUUID, nt_consumed = False,
          nt_serialization = serialization\<rparr>]\<rparr>))"

definition message_uuid :: "string option \<Rightarrow> string \<Rightarrow> string \<Rightarrow> string" where
  "message_uuid idempotencyKey destinationID randomUUID =
     (if truthy idempotencyKey then the idempotencyKey @ ''::'' @ destinationID else randomUUID)"

definition no_destination :: "string \<Rightarrow> dbos_error \<Rightarrow> dbos_error" where
  "no_destination destinationID e =
     (if e = PgError ''23503''
      then DBOSNonExistentWorkflowError (''Sent to non-existent destination workflow UUID: '' @ destinationID) else e)"

definition send ::
  "int \<Rightarrow> int \<Rightarrow> string \<Rightarrow> string \<Rightarrow> int \<Rightarrow> string \<Rightarrow> string option \<Rightarrow> string option \<Rightarrow> string option \<Rightarrow>
   string option \<Rightarrow> unit db_op" where
  "send startTime endTime randomUUID workflowID functionID destinationID message topic serialization idempotencyKey =
     map_error (no_destination destinationID)
       (transaction (and_then
         (runAndRecordResult startTime endTime ''DBOS.send'' workflowID functionID
           (and_then (insert_notification startTime destinationID (coalesce topic nullTopic) message serialization
             (message_uuid idempotencyKey destinationID randomUUID)) (\<lambda>_. ret None)))
         (\<lambda>_. ret ())))"

definition sendDirect ::
  "int \<Rightarrow> string \<Rightarrow> string \<Rightarrow> string option \<Rightarrow> string option \<Rightarrow> string option \<Rightarrow> string option \<Rightarrow> unit db_op" where
  "sendDirect now randomUUID destinationID message topic serialization idempotencyKey =
     map_error (no_destination destinationID)
       (insert_notification now destinationID (coalesce topic nullTopic) message serialization
         (message_uuid idempotencyKey destinationID randomUUID))"

section \<open>Receiving\<close>

definition waiting_messages :: "string \<Rightarrow> string \<Rightarrow> sysdb \<Rightarrow> notifications list" where
  "waiting_messages workflowID topic db =
     filter (\<lambda>n. nt_destination_uuid n = workflowID \<and> nt_topic n = topic \<and> \<not> nt_consumed n) (t_notifications db)"

text \<open>
  The consuming update: the oldest unconsumed message (SQL leaves the order of equal timestamps open;
  the model takes the one inserted first).
\<close>

definition consume_oldest :: "string \<Rightarrow> string \<Rightarrow> (string option \<times> string option) db_op" where
  "consume_oldest workflowID topic db =
     (case sort_key nt_created_at_epoch_ms (waiting_messages workflowID topic db) of
        [] \<Rightarrow> (Inr (None, None), db)
      | n # _ \<Rightarrow>
          (Inr (nt_message n, nt_serialization n),
           db\<lparr>t_notifications := update_where
             (\<lambda>m. nt_destination_uuid m = workflowID \<and> nt_topic m = topic \<and> \<not> nt_consumed m \<and>
                nt_message_uuid m = nt_message_uuid n)
             (\<lambda>m. m\<lparr>nt_consumed := True\<rparr>) (t_notifications db)\<rparr>))"

definition recv_consume :: "int \<Rightarrow> int \<Rightarrow> string \<Rightarrow> int \<Rightarrow> string \<Rightarrow> (string option \<times> string option) db_op" where
  "recv_consume startTime endTime workflowID functionID topic =
     transaction (and_then (consume_oldest workflowID topic) (\<lambda>(message, serialization).
       and_then (recordOperationResultInternal workflowID functionID ''DBOS.recv'' True startTime endTime
           \<lparr>po_childWorkflowID = None, po_output = message, po_error = None, po_serialization = serialization\<rparr>)
         (\<lambda>_. ret (message, serialization))))"

definition recv ::
  "nat \<Rightarrow> (int \<Rightarrow> world \<Rightarrow> world) \<Rightarrow> string \<Rightarrow> int \<Rightarrow> int \<Rightarrow> string option \<Rightarrow> int \<Rightarrow> int \<Rightarrow> world \<Rightarrow>
   ((dbos_error + string option \<times> string option) \<times> world) option" where
  "recv fuel env workflowID functionID timeoutFunctionID topic timeoutms pollIntervalMs w =
     (let (db, startTime) = w; tp = coalesce topic nullTopic in
      case getOperationResultAndThrowIfCancelled workflowID functionID db of
        (Inl e, db1) \<Rightarrow> Some (Inl e, (db1, startTime))
      | (Inr (Some res), db1) \<Rightarrow>
          Some (if sr_functionName res \<noteq> ''DBOS.recv''
            then Inl (DBOSUnexpectedStepError workflowID functionID ''DBOS.recv'' (sr_functionName res))
            else Inr (sr_output res, sr_serialization res), (db1, startTime))
      | (Inr None, db1) \<Rightarrow>
          (case (if timeoutms = 0 then (Inr startTime, db1)
                 else durableSleep startTime workflowID timeoutFunctionID timeoutms db1) of
             (Inl e, db2) \<Rightarrow> Some (Inl e, (db2, startTime))
           | (Inr finishTime, db2) \<Rightarrow>
               (case poll_loop fuel env (Some workflowID)
                       (\<lambda>db. if waiting_messages workflowID tp db \<noteq> [] then Some () else None)
                       (Some finishTime) pollIntervalMs (db2, startTime) of
                  None \<Rightarrow> None
                | Some (Inl e, w') \<Rightarrow> Some (Inl e, w')
                | Some (Inr _, (db3, now)) \<Rightarrow>
                    (let (r, db4) = and_then (checkIfCanceled workflowID)
                           (\<lambda>_. recv_consume startTime now workflowID functionID tp) db3
                     in Some (r, (db4, now))))))"

section \<open>Wakeups\<close>

fun add_payload :: "string \<Rightarrow> string \<Rightarrow> (string \<times> string list) list \<Rightarrow> (string \<times> string list) list" where
  "add_payload channel payload [] = [(channel, [payload])]"
| "add_payload channel payload ((c, batch) # rest) =
     (if c = channel then (c, if payload \<in> set batch then batch else batch @ [payload]) # rest
      else (c, batch) # add_payload channel payload rest)"

definition signalNotification :: "string \<Rightarrow> string \<Rightarrow> sysdb \<Rightarrow> sysdb" where
  "signalNotification channel payload db =
     (if \<not> m_shouldUseDBNotifications db then db
      else db\<lparr>m_pendingNotifications := add_payload channel payload (m_pendingNotifications db)\<rparr>)"

text \<open>
  Flushing takes all batches at once and emits one statement per non-empty channel; \<open>deliverable\<close>
  says whether the database accepts a batch (it refuses payloads over its size limit), and a refused
  batch is dropped. The result lists what was emitted.
\<close>

definition flushNotifications ::
  "(string \<Rightarrow> string list \<Rightarrow> bool) \<Rightarrow> (string \<times> string list) list db_op" where
  "flushNotifications deliverable db =
     (if \<forall>(c, batch)\<in>set (m_pendingNotifications db). batch = [] then (Inr [], db)
      else (Inr (filter (\<lambda>(c, batch). batch \<noteq> [] \<and> deliverable c batch) (m_pendingNotifications db)),
            db\<lparr>m_pendingNotifications := []\<rparr>))"

section \<open>Events\<close>

definition upsert_event :: "string \<Rightarrow> string \<Rightarrow> string option \<Rightarrow> string option \<Rightarrow> unit db_op" where
  "upsert_event workflowID key message serialization db =
     (if (workflowID, key) \<in> we_pk ` set (t_workflow_events db)
      then (Inr (), db\<lparr>t_workflow_events := update_where (\<lambda>e. we_pk e = (workflowID, key))
              (\<lambda>e. e\<lparr>we_value := message, we_serialization := serialization\<rparr>) (t_workflow_events db)\<rparr>)
      else if workflowID \<notin> workflow_ids db then (Inl (PgError ''23503''), db)
      else (Inr (), db\<lparr>t_workflow_events := t_workflow_events db @
             [\<lparr>we_workflow_uuid = workflowID, we_key = key, we_value = message, we_serialization = serialization\<rparr>]\<rparr>))"

definition upsert_event_history ::
  "string \<Rightarrow> int \<Rightarrow> string \<Rightarrow> string option \<Rightarrow> string option \<Rightarrow> unit db_op" where
  "upsert_event_history workflowID functionID key message serialization db =
     (if (workflowID, functionID, key) \<in> eh_pk ` set (t_workflow_events_history db)
      then (Inr (), db\<lparr>t_workflow_events_history :=
              update_where (\<lambda>e. eh_pk e = (workflowID, functionID, key))
                (\<lambda>e. e\<lparr>eh_value := message, eh_serialization := serialization\<rparr>) (t_workflow_events_history db)\<rparr>)
      else if workflowID \<notin> workflow_ids db then (Inl (PgError ''23503''), db)
      else (Inr (), db\<lparr>t_workflow_events_history := t_workflow_events_history db @
             [\<lparr>eh_workflow_uuid = workflowID, eh_function_id = functionID, eh_key = key, eh_value = message,
               eh_serialization = serialization\<rparr>]\<rparr>))"

text \<open>\<open>didWrite\<close> is set by the body, which runs exactly when the step has no checkpoint yet.\<close>

definition unrecorded :: "string \<Rightarrow> int \<Rightarrow> sysdb \<Rightarrow> bool" where
  "unrecorded workflowID functionID db = (find_row oo_pk (workflowID, functionID) (t_operation_outputs db) = None)"

definition setEvent ::
  "int \<Rightarrow> int \<Rightarrow> string \<Rightarrow> int \<Rightarrow> string \<Rightarrow> string option \<Rightarrow> string option \<Rightarrow> unit db_op" where
  "setEvent startTime endTime workflowID functionID key message serialization =
     and_then (gets (unrecorded workflowID functionID)) (\<lambda>didWrite.
       and_then (transaction (runAndRecordResult startTime endTime ''DBOS.setEvent'' workflowID functionID
         (and_then (upsert_event workflowID key message serialization) (\<lambda>_.
          and_then (upsert_event_history workflowID functionID key message serialization) (\<lambda>_. ret None)))))
       (\<lambda>_. if didWrite then modify (signalNotification ''dbos_workflow_events_channel'' (workflowID @ ''::'' @ key))
            else ret ()))"

definition look_event :: "string \<Rightarrow> string \<Rightarrow> sysdb \<Rightarrow> (string option \<times> string option) option" where
  "look_event workflowID key db =
     map_option (\<lambda>e. (we_value e, we_serialization e)) (find_row we_pk (workflowID, key) (t_workflow_events db))"

record caller_workflow =
  cw_workflowID :: string
  cw_functionID :: int
  cw_timeoutFunctionID :: int

definition event_replay ::
  "caller_workflow option \<Rightarrow> (string option \<times> string option) option db_op" where
  "event_replay callerWorkflow =
     (case callerWorkflow of
        None \<Rightarrow> ret None
      | Some c \<Rightarrow>
          and_then (getOperationResultAndThrowIfCancelled (cw_workflowID c) (cw_functionID c)) (\<lambda>result.
            case result of
              None \<Rightarrow> ret None
            | Some res \<Rightarrow>
                if sr_functionName res \<noteq> ''DBOS.getEvent''
                then throw (DBOSUnexpectedStepError (cw_workflowID c) (cw_functionID c) ''DBOS.getEvent''
                       (sr_functionName res))
                else ret (Some (sr_output res, sr_serialization res))))"

definition event_deadline :: "int \<Rightarrow> caller_workflow option \<Rightarrow> int \<Rightarrow> int db_op" where
  "event_deadline now callerWorkflow timeoutms =
     (case callerWorkflow of
        Some c \<Rightarrow> if timeoutms = 0 then ret (now + timeoutms)
                  else durableSleep now (cw_workflowID c) (cw_timeoutFunctionID c) timeoutms
      | None \<Rightarrow> ret (now + timeoutms))"

definition record_event_read ::
  "int \<Rightarrow> int \<Rightarrow> caller_workflow option \<Rightarrow> (string option \<times> string option) \<Rightarrow> (string option \<times> string option) db_op" where
  "record_event_read startTime endTime callerWorkflow v =
     (case callerWorkflow of
        None \<Rightarrow> ret v
      | Some c \<Rightarrow>
          and_then (recordOperationResult (cw_workflowID c) (cw_functionID c) ''DBOS.getEvent'' True startTime endTime
            \<lparr>po_childWorkflowID = None, po_output = fst v, po_error = None, po_serialization = snd v\<rparr>) (\<lambda>_. ret v))"

definition getEvent ::
  "nat \<Rightarrow> (int \<Rightarrow> world \<Rightarrow> world) \<Rightarrow> string \<Rightarrow> string \<Rightarrow> int \<Rightarrow> caller_workflow option \<Rightarrow> int \<Rightarrow> world \<Rightarrow>
   ((dbos_error + string option \<times> string option) \<times> world) option" where
  "getEvent fuel env workflowID key timeoutms callerWorkflow pollIntervalMs w =
     (let (db, startTime) = w in
      case event_replay callerWorkflow db of
        (Inl e, db1) \<Rightarrow> Some (Inl e, (db1, startTime))
      | (Inr (Some v), db1) \<Rightarrow> Some (Inr v, (db1, startTime))
      | (Inr None, db1) \<Rightarrow>
          (case event_deadline startTime callerWorkflow timeoutms db1 of
             (Inl e, db2) \<Rightarrow> Some (Inl e, (db2, startTime))
           | (Inr finishTime, db2) \<Rightarrow>
               (case poll_loop fuel env (or_null (map_option cw_workflowID callerWorkflow)) (look_event workflowID key)
                       (Some finishTime) pollIntervalMs (db2, startTime) of
                  None \<Rightarrow> None
                | Some (Inl e, w') \<Rightarrow> Some (Inl e, w')
                | Some (Inr v, (db3, now)) \<Rightarrow>
                    (let (r, db4) = record_event_read startTime now callerWorkflow (coalesce v (None, None)) db3
                     in Some (r, (db4, now))))))"

section \<open>Event dispatcher state\<close>

text \<open>A comparison with NULL is not true; \<open>GREATEST\<close> ignores NULLs.\<close>

definition sql_greater :: "int option \<Rightarrow> int option \<Rightarrow> bool" where
  "sql_greater a b = (case (a, b) of (Some x, Some y) \<Rightarrow> x > y | _ \<Rightarrow> False)"

definition sql_greatest :: "int option \<Rightarrow> int option \<Rightarrow> int option" where
  "sql_greatest a b = (case (a, b) of (Some x, Some y) \<Rightarrow> Some (max x y) | (None, b) \<Rightarrow> b | (a, None) \<Rightarrow> a)"

definition getEventDispatchState :: "string \<Rightarrow> string \<Rightarrow> string \<Rightarrow> sysdb \<Rightarrow> event_dispatch_kv option" where
  "getEventDispatchState service workflowName key db =
     find_row ed_pk (service, workflowName, key) (t_event_dispatch_kv db)"

definition merge_dispatch :: "event_dispatch_kv \<Rightarrow> event_dispatch_kv \<Rightarrow> event_dispatch_kv" where
  "merge_dispatch new old = old\<lparr>
     ed_update_time := sql_greatest (ed_update_time new) (ed_update_time old),
     ed_update_seq := sql_greatest (ed_update_seq new) (ed_update_seq old),
     ed_value := (if sql_greater (ed_update_time new) (ed_update_time old)
                   \<or> sql_greater (ed_update_seq new) (ed_update_seq old)
                   \<or> (ed_update_time old = None \<and> ed_update_seq old = None)
                 then ed_value new else ed_value old)\<rparr>"

definition upsertEventDispatchState :: "event_dispatch_kv \<Rightarrow> event_dispatch_kv db_op" where
  "upsertEventDispatchState state db =
     (case find_row ed_pk (ed_pk state) (t_event_dispatch_kv db) of
        None \<Rightarrow> (Inr state, db\<lparr>t_event_dispatch_kv := t_event_dispatch_kv db @ [state]\<rparr>)
      | Some old \<Rightarrow> (Inr (merge_dispatch state old),
          db\<lparr>t_event_dispatch_kv := update_where (\<lambda>r. ed_pk r = ed_pk state) (merge_dispatch state)
            (t_event_dispatch_kv db)\<rparr>))"

section \<open>Streams\<close>

definition stream_rows :: "string \<Rightarrow> string \<Rightarrow> sysdb \<Rightarrow> streams list" where
  "stream_rows workflowID key db = filter (\<lambda>r. st_workflow_uuid r = workflowID \<and> st_key r = key) (t_streams db)"

definition next_offset :: "string \<Rightarrow> string \<Rightarrow> sysdb \<Rightarrow> int" where
  "next_offset workflowID key db =
     (case sql_max (map st_offset (stream_rows workflowID key db)) of None \<Rightarrow> 0 | Some m \<Rightarrow> m + 1)"

definition insert_stream :: "string \<Rightarrow> int \<Rightarrow> string \<Rightarrow> string \<Rightarrow> string option \<Rightarrow> unit db_op" where
  "insert_stream workflowID functionID key serializedValue serialization db =
     (let row = \<lparr>st_workflow_uuid = workflowID, st_key = key, st_value = serializedValue,
            st_offset = next_offset workflowID key db, st_function_id = functionID,
            st_serialization = serialization\<rparr>
      in if st_pk row \<in> st_pk ` set (t_streams db) then (Inl (PgError ''23505''), db)
         else if workflowID \<notin> workflow_ids db then (Inl (PgError ''23503''), db)
         else (Inr (), db\<lparr>t_streams := t_streams db @ [row]\<rparr>))"

definition stream_payload :: "string \<Rightarrow> string \<Rightarrow> string" where
  "stream_payload workflowID key = workflowID @ ''::'' @ key"

definition writeStreamFromStep :: "string \<Rightarrow> int \<Rightarrow> string \<Rightarrow> string \<Rightarrow> string option \<Rightarrow> unit db_op" where
  "writeStreamFromStep workflowID functionID key serializedValue serialization =
     and_then (transaction (insert_stream workflowID functionID key serializedValue serialization)) (\<lambda>_.
       modify (signalNotification ''dbos_streams_channel'' (stream_payload workflowID key)))"

definition writeStreamFromWorkflow ::
  "int \<Rightarrow> int \<Rightarrow> string \<Rightarrow> int \<Rightarrow> string \<Rightarrow> string \<Rightarrow> string option \<Rightarrow> string \<Rightarrow> unit db_op" where
  "writeStreamFromWorkflow startTime endTime workflowID functionID key serializedValue serialization functionName =
     and_then (gets (unrecorded workflowID functionID)) (\<lambda>didWrite.
       and_then (transaction (runAndRecordResult startTime endTime functionName workflowID functionID
         (and_then (insert_stream workflowID functionID key serializedValue serialization) (\<lambda>_. ret None))))
       (\<lambda>_. if didWrite then modify (signalNotification ''dbos_streams_channel'' (stream_payload workflowID key))
            else ret ()))"

definition DBOS_STREAM_CLOSED_SENTINEL :: string where
  "DBOS_STREAM_CLOSED_SENTINEL = ''__DBOS_STREAM_CLOSED__''"

definition closeStream :: "int \<Rightarrow> int \<Rightarrow> string \<Rightarrow> int \<Rightarrow> string \<Rightarrow> unit db_op" where
  "closeStream startTime endTime workflowID functionID key =
     writeStreamFromWorkflow startTime endTime workflowID functionID key DBOS_STREAM_CLOSED_SENTINEL
       (Some ''portable_json'') ''DBOS.closeStream''"

definition readStreamValue ::
  "string \<Rightarrow> string \<Rightarrow> int \<Rightarrow> sysdb \<Rightarrow> wf_status option \<times> (string \<times> string option) option" where
  "readStreamValue workflowID key offset db =
     (case find_row ws_workflow_uuid workflowID (t_workflow_status db) of
        None \<Rightarrow> (None, None)
      | Some ws \<Rightarrow>
          (Some (ws_status ws), map_option (\<lambda>s. (st_value s, st_serialization s))
             (find_row st_pk (workflowID, key, offset) (t_streams db))))"

text \<open>\<open>DBOS.readStream\<close>: the values it yields, in order; \<open>env\<close> is what happens while it waits.\<close>

fun readStream ::
  "nat \<Rightarrow> (int \<Rightarrow> sysdb \<Rightarrow> sysdb) \<Rightarrow> string \<Rightarrow> string \<Rightarrow> int \<Rightarrow> bool \<Rightarrow> sysdb \<Rightarrow>
   ((string \<times> string option) list \<times> dbos_error option) option" where
  "readStream 0 env workflowID key offset finalRead db = None"
| "readStream (Suc fuel) env workflowID key offset finalRead db =
     (case readStreamValue workflowID key offset db of
        (None, _) \<Rightarrow> Some ([], Some (DBOSNonExistentWorkflowError (''Workflow '' @ workflowID @ '' does not exist'')))
      | (Some status, Some v) \<Rightarrow>
          if fst v = DBOS_STREAM_CLOSED_SENTINEL then Some ([], None)
          else map_option (\<lambda>(vs, e). (v # vs, e))
                 (readStream fuel env workflowID key (offset + 1) finalRead db)
      | (Some status, None) \<Rightarrow>
          if finalRead then Some ([], None)
          else if \<not> isWorkflowActive status then readStream fuel env workflowID key offset True db
          else readStream fuel env workflowID key offset finalRead (env 1000 db))"

section \<open>Observability\<close>

text \<open>
  \<open>safeParse\<close> deserializes with the configured serializer and falls back to the raw text; the
  serializer is user code, so the function is a parameter.
\<close>

definition getAllEvents :: "(string option \<Rightarrow> string option \<Rightarrow> 'v) \<Rightarrow> string \<Rightarrow> sysdb \<Rightarrow> (string \<rightharpoonup> 'v)" where
  "getAllEvents safeParse workflowID db =
     map_of (rev (map (\<lambda>e. (we_key e, safeParse (we_value e) (we_serialization e)))
       (filter (\<lambda>e. we_workflow_uuid e = workflowID) (t_workflow_events db))))"

record 'v message_info =
  mi_topic :: "string option"
  mi_message :: 'v
  mi_createdAtEpochMs :: int
  mi_consumed :: bool

definition getAllNotifications ::
  "(string option \<Rightarrow> string option \<Rightarrow> 'v) \<Rightarrow> string \<Rightarrow> sysdb \<Rightarrow> 'v message_info list" where
  "getAllNotifications safeParse workflowID db =
     map (\<lambda>n. \<lparr>mi_topic = (if nt_topic n = nullTopic then None else Some (nt_topic n)),
        mi_message = safeParse (nt_message n) (nt_serialization n),
        mi_createdAtEpochMs = nt_created_at_epoch_ms n, mi_consumed = nt_consumed n\<rparr>)
       (sort_key nt_created_at_epoch_ms (filter (\<lambda>n. nt_destination_uuid n = workflowID) (t_notifications db)))"

definition getAllStreamEntries ::
  "(string option \<Rightarrow> string option \<Rightarrow> 'v) \<Rightarrow> ('v \<Rightarrow> bool) \<Rightarrow> string \<Rightarrow> sysdb \<Rightarrow> (string \<rightharpoonup> 'v list)" where
  "getAllStreamEntries safeParse isClosedSentinel workflowID db key =
     (let values = filter (\<lambda>v. \<not> isClosedSentinel v)
            (map (\<lambda>r. safeParse (Some (st_value r)) (st_serialization r))
              (sort_key st_offset (stream_rows workflowID key db)))
      in if values = [] then None else Some values)"

section \<open>Every operation keeps the constraints\<close>

lemma db_wf_update_notifications:
  assumes "db_wf db" and "\<And>m. nt_message_uuid (f m) = nt_message_uuid m" and "\<And>m. nt_destination_uuid (f m) = nt_destination_uuid m"
  shows "db_wf (db\<lparr>t_notifications := update_where P f (t_notifications db)\<rparr>)"
  using assms db_wf_keys [OF assms(1)] db_wf_refs [OF assms(1)]
  by (intro db_wf_notifications) (simp_all add: unique_key_update_where image_update_where)

lemma insert_notification_keeps [keep_rules]: "preserves db_wf (insert_notification now d t m ser u)"
proof (rule preservesI)
  fix db assume "db_wf db"
  with db_wf_keys [OF this] db_wf_refs [OF this] show "db_wf (snd (insert_notification now d t m ser u db))"
    by (simp add: insert_notification_def db_wf_notifications)
qed

lemma send_keeps [keep_rules]: "preserves db_wf (send s e u w f d m t ser k)"
  unfolding send_def by (intro keep_rules)

lemma sendDirect_keeps [keep_rules]: "preserves db_wf (sendDirect now u d m t ser k)"
  unfolding sendDirect_def by (intro keep_rules)

lemma consume_oldest_keeps [keep_rules]: "preserves db_wf (consume_oldest w t)"
  by (rule preservesI) (auto simp: consume_oldest_def intro!: db_wf_update_notifications split: list.splits)

lemma preserves_case_prod [keep_rules]: "(\<And>x y. preserves I (k x y)) \<Longrightarrow> preserves I (case v of (x, y) \<Rightarrow> k x y)"
  by (cases v) simp

lemma recv_consume_keeps [keep_rules]: "preserves db_wf (recv_consume s e w f t)"
  unfolding recv_consume_def by (intro keep_rules)

lemma upsert_event_keeps [keep_rules]: "preserves db_wf (upsert_event w k m ser)"
proof (rule preservesI)
  fix db assume "db_wf db"
  moreover have "we_pk (e\<lparr>we_value := m, we_serialization := ser\<rparr>) = we_pk e" for e :: workflow_events
    by (simp add: we_pk_def)
  ultimately show "db_wf (snd (upsert_event w k m ser db))"
    using db_wf_keys(3) [of db] db_wf_refs(3) [of db]
    by (simp add: upsert_event_def db_wf_workflow_events unique_key_update_where image_update_where we_pk_def)
qed

lemma upsert_event_history_keeps [keep_rules]: "preserves db_wf (upsert_event_history w f k m ser)"
proof (rule preservesI)
  fix db assume "db_wf db"
  moreover have "eh_pk (e\<lparr>eh_value := m, eh_serialization := ser\<rparr>) = eh_pk e" for e :: workflow_events_history
    by (simp add: eh_pk_def)
  ultimately show "db_wf (snd (upsert_event_history w f k m ser db))"
    using db_wf_keys(4) [of db] db_wf_refs(4) [of db]
    by (simp add: upsert_event_history_def db_wf_workflow_events_history unique_key_update_where image_update_where eh_pk_def)
qed

lemma signalNotification_keeps [keep_rules]: "db_wf db \<Longrightarrow> db_wf (signalNotification c p db)"
  by (simp add: signalNotification_def)

lemma signal_modify_keeps [keep_rules]: "preserves db_wf (modify (signalNotification c p))"
  by (intro preserves_modify keep_rules)

lemma setEvent_keeps [keep_rules]: "preserves db_wf (setEvent s e w f k m ser)"
  unfolding setEvent_def by (intro keep_rules)

lemma event_replay_keeps [keep_rules]: "preserves I (event_replay c)"
  unfolding event_replay_def by (intro keep_rules)

lemma event_deadline_keeps [keep_rules]: "preserves db_wf (event_deadline now c t)"
  unfolding event_deadline_def by (intro keep_rules)

lemma record_event_read_keeps [keep_rules]: "preserves db_wf (record_event_read s e c v)"
  unfolding record_event_read_def by (intro keep_rules)

lemma merge_dispatch_pk [simp]: "ed_pk (merge_dispatch new old) = ed_pk old"
  by (simp add: merge_dispatch_def ed_pk_def)

lemma upsertEventDispatchState_keeps [keep_rules]: "preserves db_wf (upsertEventDispatchState st)"
proof (rule preservesI)
  fix db assume "db_wf db"
  with db_wf_keys(6) [OF this] show "db_wf (snd (upsertEventDispatchState st db))"
    by (simp add: upsertEventDispatchState_def db_wf_event_dispatch_kv unique_key_update_where find_row_None_iff
        split: option.splits)
qed

lemma insert_stream_keeps [keep_rules]: "preserves db_wf (insert_stream w f k v ser)"
proof (rule preservesI)
  fix db assume "db_wf db"
  with db_wf_keys(5) [OF this] db_wf_refs(5) [OF this] show "db_wf (snd (insert_stream w f k v ser db))"
    by (simp add: insert_stream_def Let_def db_wf_streams)
qed

lemma writeStreamFromStep_keeps [keep_rules]: "preserves db_wf (writeStreamFromStep w f k v ser)"
  unfolding writeStreamFromStep_def by (intro keep_rules)

lemma writeStreamFromWorkflow_keeps [keep_rules]: "preserves db_wf (writeStreamFromWorkflow s e w f k v ser n)"
  unfolding writeStreamFromWorkflow_def by (intro keep_rules)

lemma closeStream_keeps [keep_rules]: "preserves db_wf (closeStream s e w f k)"
  unfolding closeStream_def by (rule keep_rules)

lemma flushNotifications_keeps [keep_rules]: "preserves db_wf (flushNotifications ok)"
  by (rule preservesI) (auto simp: flushNotifications_def)

section \<open>Facts about messages\<close>

lemma leaves_checkpoints_and_then:
  "leaves_checkpoints m \<Longrightarrow> (\<And>x. leaves_checkpoints (k x)) \<Longrightarrow> leaves_checkpoints (and_then m k)"
  by (auto simp: leaves_checkpoints_def and_then_def split: prod.splits sum.splits) (metis snd_conv)+

lemma leaves_checkpoints_ret [simp]: "leaves_checkpoints (ret x)"
  by (simp add: leaves_checkpoints_def)

lemma leaves_checkpoints_insert [simp]:
  "leaves_checkpoints (insert_notification now d t m ser u)"
  "leaves_checkpoints (upsert_event w k m ser)"
  "leaves_checkpoints (upsert_event_history w f k m ser)"
  "leaves_checkpoints (insert_stream w f k v ser)"
  by (simp_all add: leaves_checkpoints_def insert_notification_def upsert_event_def upsert_event_history_def
      insert_stream_def Let_def)

lemma send_success:
  "send s e u w f d m t ser k db = (Inr x, db') \<longleftrightarrow>
    (\<exists>out. runAndRecordResult s e ''DBOS.send'' w f
      (and_then (insert_notification s d (coalesce t nullTopic) m ser (message_uuid k d u)) (\<lambda>_. ret None)) db = (Inr out, db'))"
  by (auto simp: send_def map_error_def and_then_success split: prod.splits sum.splits)
    (auto simp: transaction_def and_then_def split: prod.splits sum.splits)

lemma waiting_after_consume:
  assumes "unique_key nt_message_uuid (t_notifications db)"
    and "sort_key nt_created_at_epoch_ms (waiting_messages w t db) = n # rest"
  shows "waiting_messages w t (snd (consume_oldest w t db)) =
    filter (\<lambda>m. nt_message_uuid m \<noteq> nt_message_uuid n) (waiting_messages w t db)"
proof -
  have "filter (\<lambda>m. nt_destination_uuid m = w \<and> nt_topic m = t \<and> \<not> nt_consumed m)
      (update_where (\<lambda>m. nt_destination_uuid m = w \<and> nt_topic m = t \<and> \<not> nt_consumed m \<and>
         nt_message_uuid m = nt_message_uuid n) (\<lambda>m. m\<lparr>nt_consumed := True\<rparr>) rows) =
      filter (\<lambda>m. nt_destination_uuid m = w \<and> nt_topic m = t \<and> \<not> nt_consumed m \<and>
        nt_message_uuid m \<noteq> nt_message_uuid n) rows" for rows
    by (induction rows) auto
  with assms(2) show ?thesis by (simp add: consume_oldest_def waiting_messages_def)
qed

lemma consume_oldest_result:
  "consume_oldest w t db = (r, db') \<Longrightarrow> (waiting_messages w t db = [] \<and> r = Inr (None, None) \<and> db' = db) \<or>
    (\<exists>n rest. sort_key nt_created_at_epoch_ms (waiting_messages w t db) = n # rest \<and>
      r = Inr (nt_message n, nt_serialization n) \<and> db' = snd (consume_oldest w t db))"
  by (cases "sort_key nt_created_at_epoch_ms (waiting_messages w t db)")
    (auto simp: consume_oldest_def simp flip: length_0_conv)

lemma sort_key_hd_least:
  "sort_key g xs = n # rest \<Longrightarrow> n \<in> set xs \<and> (\<forall>m\<in>set xs. g n \<le> g m)"
  by (metis list.set_intros(1) set_ConsD set_sort sorted_sort_key sorted_wrt.simps(2) list.simps(9) image_eqI list.set_map order_refl)

section \<open>Properties\<close>

text \<open>
  C18: A message is sent once. When a send step succeeds for the first time it appends at most one
  message (none if its idempotency key was used before), and every replay of that step, with whatever
  clock, random UUID or arguments, succeeds without changing the database.
\<close>

theorem send_exactly_once:
  assumes "send s e u w f d m t ser k db = (Inr x, db1)" and "keeps_checkpoints\<^sup>*\<^sup>* db1 db2" and "\<not> cancelled w db2"
  shows "send s' e' u' w f d' m' t' ser' k' db2 = (Inr (), db2) \<and>
    (unrecorded w f db \<longrightarrow> t_notifications db1 = t_notifications db @
      (if message_uuid k d u \<in> nt_message_uuid ` set (t_notifications db) then []
       else [\<lparr>nt_destination_uuid = d, nt_topic = coalesce t nullTopic, nt_message = m, nt_created_at_epoch_ms = s,
              nt_message_uuid = message_uuid k d u, nt_consumed = False, nt_serialization = ser\<rparr>]))"
proof -
  obtain out where run: "runAndRecordResult s e ''DBOS.send'' w f
      (and_then (insert_notification s d (coalesce t nullTopic) m ser (message_uuid k d u)) (\<lambda>_. ret None)) db = (Inr out, db1)"
    using assms(1) send_success by blast
  have "runAndRecordResult s' e' ''DBOS.send'' w f
      (and_then (insert_notification s' d' (coalesce t' nullTopic) m' ser' (message_uuid k' d' u')) (\<lambda>_. ret None)) db2 =
      (Inr out, db2)"
    using run assms(2,3)
    by (intro recorded_step_replay) (auto intro!: leaves_checkpoints_and_then)
  then have "send s' e' u' w f d' m' t' ser' k' db2 = (Inr (), db2)"
    by (auto simp: send_success)
  moreover have "t_notifications db1 = t_notifications db @
      (if message_uuid k d u \<in> nt_message_uuid ` set (t_notifications db) then []
       else [\<lparr>nt_destination_uuid = d, nt_topic = coalesce t nullTopic, nt_message = m, nt_created_at_epoch_ms = s,
              nt_message_uuid = message_uuid k d u, nt_consumed = False, nt_serialization = ser\<rparr>])"
    if new: "unrecorded w f db"
  proof -
    obtain db' where ins: "insert_notification s d (coalesce t nullTopic) m ser (message_uuid k d u) db = (Inr (), db')"
      and rec: "recordOperationResultInternal w f ''DBOS.send'' True s e (output_only None) db' = (Inr (), db1)"
      using run new by (auto simp: runAndRecordResult_eval unrecorded_def and_then_success split: if_splits)
    from rec have "t_notifications db1 = t_notifications db'"
      by (auto simp: recordOperationResultInternal_def Let_def split: if_splits option.splits)
    with ins show ?thesis by (auto simp: insert_notification_def split: if_splits)
  qed
  ultimately show ?thesis by blast
qed

theorem send_exactly_once_witness:
  "send 900 901 ''uuid2'' ''w'' 1 ''w'' (Some ''other'') None None None
     (snd (send 500 501 ''uuid1'' ''w'' 1 ''w'' (Some ''hi'') None None None example_db2)) =
   (Inr (), snd (send 500 501 ''uuid1'' ''w'' 1 ''w'' (Some ''hi'') None None None example_db2))"
proof -
  let ?db1 = "snd (send 500 501 ''uuid1'' ''w'' 1 ''w'' (Some ''hi'') None None None example_db2)"
  have run: "send 500 501 ''uuid1'' ''w'' 1 ''w'' (Some ''hi'') None None None example_db2 = (Inr (), ?db1)"
    and live: "\<not> cancelled ''w'' ?db1"
    by (simp_all add: send_def map_error_def transaction_def and_then_def runAndRecordResult_eval cancelled_def
        getWorkflowStatusValue_def insert_notification_def message_uuid_def truthy_def workflow_ids_def
        recordOperationResultInternal_def claim_executor_def)
  show ?thesis using send_exactly_once [OF run rtranclp.rtrancl_refl live] by blast
qed

lemma keeps_checkpoints_run:
  "keeps_checkpoints\<^sup>*\<^sup>* db db' \<Longrightarrow> find_row oo_pk k (t_operation_outputs db) = Some r \<Longrightarrow>
    find_row oo_pk k (t_operation_outputs db') = Some r"
  by (induction rule: rtranclp_induct) (auto simp: keeps_checkpoints_def simp del: split_paired_All)

lemma consumed_exactly:
  assumes "unique_key nt_message_uuid (t_notifications db)"
    and "sort_key nt_created_at_epoch_ms (waiting_messages w t db) = n # rest"
  shows "t_notifications (snd (consume_oldest w t db)) =
    map (\<lambda>m. if nt_message_uuid m = nt_message_uuid n then m\<lparr>nt_consumed := True\<rparr> else m) (t_notifications db)"
proof -
  from sort_key_hd_least [OF assms(2)] have n: "n \<in> set (waiting_messages w t db)" by blast
  have "m = n" if "m \<in> set (t_notifications db)" "nt_message_uuid m = nt_message_uuid n" for m
    using that n assms(1) by (auto simp: waiting_messages_def unique_key_def distinct_map inj_on_def)
  with n assms(2) show ?thesis by (auto simp: consume_oldest_def update_where_def waiting_messages_def)
qed

text \<open>
  C17: A receive takes the oldest waiting message, once. The consuming transaction of a step without a
  checkpoint succeeds if its workflow exists: it returns the oldest unconsumed message of the topic
  (\<open>null\<close> when there is none), marks exactly that message as consumed, and records it, so that replaying
  the receive returns the same message whatever else has arrived, and consumes nothing. When it fails
  it has consumed nothing; so it is when another process has recorded the step at another time in the
  meantime, which is reported as a conflict.
\<close>

theorem recv_consumes_oldest_once:
  assumes "db_wf db" and "recv_consume s e w f (coalesce topic nullTopic) db = (r, db1)"
  shows "(\<forall>err. r = Inl err \<longrightarrow> db1 = db) \<and>
    (\<forall>row. find_row oo_pk (w, f) (t_operation_outputs db) = Some row \<and> coalesce (oo_completed_at_epoch_ms row) 0 \<noteq> e \<longrightarrow>
       r = Inl (DBOSWorkflowConflictError w)) \<and>
    (unrecorded w f db \<and> w \<in> workflow_ids db \<longrightarrow>
      (\<exists>msg ser. r = Inr (msg, ser) \<and>
        (if waiting_messages w (coalesce topic nullTopic) db = []
         then (msg, ser) = (None, None) \<and> t_notifications db1 = t_notifications db
         else \<exists>n\<in>set (waiting_messages w (coalesce topic nullTopic) db).
           (\<forall>m\<in>set (waiting_messages w (coalesce topic nullTopic) db). nt_created_at_epoch_ms n \<le> nt_created_at_epoch_ms m) \<and>
           (msg, ser) = (nt_message n, nt_serialization n) \<and>
           t_notifications db1 =
             map (\<lambda>m. if nt_message_uuid m = nt_message_uuid n then m\<lparr>nt_consumed := True\<rparr> else m) (t_notifications db)) \<and>
        (\<forall>db2. keeps_checkpoints\<^sup>*\<^sup>* db1 db2 \<and> \<not> cancelled w db2 \<longrightarrow>
           recv fuel env w f tf topic timeoutms poll (db2, now) = Some (Inr (msg, ser), (db2, now)))))"
proof (intro conjI allI impI)
  fix err assume "r = Inl err"
  with assms(2) show "db1 = db" by (simp add: recv_consume_def transaction_failure)
next
  fix row assume "find_row oo_pk (w, f) (t_operation_outputs db) = Some row \<and> coalesce (oo_completed_at_epoch_ms row) 0 \<noteq> e"
  with assms(2) show "r = Inl (DBOSWorkflowConflictError w)"
    by (auto simp: recv_consume_def transaction_def and_then_def consume_oldest_def recordOperationResultInternal_def Let_def split: list.splits)
next
  let ?t = "coalesce topic nullTopic"
  assume new: "unrecorded w f db \<and> w \<in> workflow_ids db"
  obtain msg ser db' where con: "consume_oldest w ?t db = (Inr (msg, ser), db')"
    using consume_oldest_result [of w ?t db] by (cases "consume_oldest w ?t db") auto
  let ?opts = "\<lparr>po_childWorkflowID = None, po_output = msg, po_error = None, po_serialization = ser\<rparr>"
  have keep: "t_operation_outputs db' = t_operation_outputs db" "workflow_ids db' = workflow_ids db"
    using con by (auto simp: consume_oldest_def split: list.splits)
  with con new assms(2) have res: "r = Inr (msg, ser)" "recordOperationResultInternal w f ''DBOS.recv'' True s e ?opts db' = (Inr (), db1)"
    by (auto simp: recv_consume_def transaction_def and_then_def recordOperationResultInternal_def unrecorded_def)
  from res(2) new keep have nt: "t_notifications db1 = t_notifications db'"
    and row: "find_row oo_pk (w, f) (t_operation_outputs db1) = Some (new_operation_row w f ''DBOS.recv'' s e ?opts)"
    by (auto simp: recordOperationResultInternal_def unrecorded_def find_row_append split: if_splits)
  have replay: "recv fuel env w f tf topic timeoutms poll (db2, now) = Some (Inr (msg, ser), (db2, now))"
    if "keeps_checkpoints\<^sup>*\<^sup>* db1 db2" "\<not> cancelled w db2" for db2
    using that row keeps_checkpoints_run [OF that(1)] by (simp add: recv_def op_simps stored_result_def new_operation_row_def)
  consider "waiting_messages w ?t db = []" "(msg, ser) = (None, None)" "db' = db"
    | n rest where "sort_key nt_created_at_epoch_ms (waiting_messages w ?t db) = n # rest" "(msg, ser) = (nt_message n, nt_serialization n)"
    using consume_oldest_result [OF con] by auto
  then have "if waiting_messages w ?t db = [] then (msg, ser) = (None, None) \<and> t_notifications db1 = t_notifications db
      else \<exists>n\<in>set (waiting_messages w ?t db).
        (\<forall>m\<in>set (waiting_messages w ?t db). nt_created_at_epoch_ms n \<le> nt_created_at_epoch_ms m) \<and>
        (msg, ser) = (nt_message n, nt_serialization n) \<and>
        t_notifications db1 = map (\<lambda>m. if nt_message_uuid m = nt_message_uuid n then m\<lparr>nt_consumed := True\<rparr> else m) (t_notifications db)"
  proof cases
    case (2 n rest)
    note least = sort_key_hd_least [OF 2(1)]
    have "t_notifications db1 = map (\<lambda>m. if nt_message_uuid m = nt_message_uuid n then m\<lparr>nt_consumed := True\<rparr> else m) (t_notifications db)"
      using consumed_exactly [OF db_wf_keys(2) [OF assms(1)] 2(1)] con nt by simp
    with least 2(2) show ?thesis by (auto intro!: bexI [of _ n])
  qed (simp add: nt)
  with res(1) replay show "\<exists>msg ser. r = Inr (msg, ser) \<and>
        (if waiting_messages w ?t db = []
         then (msg, ser) = (None, None) \<and> t_notifications db1 = t_notifications db
         else \<exists>n\<in>set (waiting_messages w ?t db).
           (\<forall>m\<in>set (waiting_messages w ?t db). nt_created_at_epoch_ms n \<le> nt_created_at_epoch_ms m) \<and>
           (msg, ser) = (nt_message n, nt_serialization n) \<and>
           t_notifications db1 =
             map (\<lambda>m. if nt_message_uuid m = nt_message_uuid n then m\<lparr>nt_consumed := True\<rparr> else m) (t_notifications db)) \<and>
        (\<forall>db2. keeps_checkpoints\<^sup>*\<^sup>* db1 db2 \<and> \<not> cancelled w db2 \<longrightarrow>
           recv fuel env w f tf topic timeoutms poll (db2, now) = Some (Inr (msg, ser), (db2, now)))" by blast
qed

definition example_message :: "string \<Rightarrow> int \<Rightarrow> string \<Rightarrow> notifications" where
  "example_message u created m = \<lparr>nt_destination_uuid = ''w'', nt_topic = nullTopic, nt_message = Some m, nt_created_at_epoch_ms = created,
     nt_message_uuid = u, nt_consumed = False, nt_serialization = None\<rparr>"

text \<open>Two messages wait; the second in the table is the older one.\<close>

theorem recv_consumes_oldest_once_witness:
  "\<exists>db1. recv_consume 500 501 ''w'' 1 nullTopic (example_db2\<lparr>t_notifications := [example_message ''m1'' 20 ''b'', example_message ''m2'' 10 ''a'']\<rparr>) =
      (Inr (Some ''a'', None), db1) \<and>
    t_notifications db1 = [example_message ''m1'' 20 ''b'', (example_message ''m2'' 10 ''a'')\<lparr>nt_consumed := True\<rparr>]"
proof -
  let ?db = "example_db2\<lparr>t_notifications := [example_message ''m1'' 20 ''b'', example_message ''m2'' 10 ''a'']\<rparr>"
  have wf: "db_wf ?db"
    by (intro db_wf_notifications) (simp_all add: example_db2_def db_wf_operation_outputs unique_key_def workflow_ids_def example_message_def)
  have wait: "waiting_messages ''w'' nullTopic ?db = [example_message ''m1'' 20 ''b'', example_message ''m2'' 10 ''a'']"
    by (simp add: waiting_messages_def example_message_def)
  have new: "unrecorded ''w'' 1 ?db" "''w'' \<in> workflow_ids ?db" by (simp_all add: unrecorded_def workflow_ids_def example_db2_def)
  obtain r db1 where run: "recv_consume 500 501 ''w'' 1 (coalesce None nullTopic) ?db = (r, db1)" by (metis surj_pair)
  from recv_consumes_oldest_once [OF wf run] new wait run show ?thesis by (auto simp: example_message_def)
qed

lemma look_after_upsert:
  assumes "upsert_event w key msg ser db = (Inr (), da)"
  shows "look_event w' key' da = (if (w', key') = (w, key) then Some (msg, ser) else look_event w' key' db)"
proof -
  have upd: "we_pk (x\<lparr>we_value := msg, we_serialization := ser\<rparr>) = we_pk x" for x :: workflow_events
    by (simp add: we_pk_def)
  have mk: "we_pk \<lparr>we_workflow_uuid = w, we_key = key, we_value = msg, we_serialization = ser\<rparr> = (w, key)"
    by (simp add: we_pk_def)
  show ?thesis
  proof (cases "find_row we_pk (w, key) (t_workflow_events db)")
    case None
    then have "(w, key) \<notin> we_pk ` set (t_workflow_events db)" by (simp add: find_row_None_iff)
    with assms None show ?thesis
      by (auto simp: upsert_event_def look_event_def find_row_append mk split: if_splits option.splits)
  next
    case (Some r)
    then have "(w, key) \<in> we_pk ` set (t_workflow_events db)" by (metis find_row_None_iff option.distinct(1))
    with assms have "da = db\<lparr>t_workflow_events := update_where (\<lambda>e. we_pk e = (w, key))
        (\<lambda>e. e\<lparr>we_value := msg, we_serialization := ser\<rparr>) (t_workflow_events db)\<rparr>"
      by (simp add: upsert_event_def)
    with Some find_row_SomeD [OF Some] show ?thesis
      by (cases "(w', key') = (w, key)") (auto simp: look_event_def find_row_update_where upd)
  qed
qed

text \<open>
  An event is what was last set. After a first successful \<open>setEvent\<close>, reading that key returns the
  value at once and leaves the database alone, the value is in the history under the step that set it,
  and the events of every other key and workflow are as before.
\<close>

lemma set_event_then_get:
  assumes "setEvent s e w f key msg ser db = (Inr (), db1)" and "unrecorded w f db" and "db_wf db"
  shows "getEvent (Suc fuel) env w key timeoutms None poll (db1, now) = Some (Inr (msg, ser), (db1, now)) \<and>
    \<lparr>eh_workflow_uuid = w, eh_function_id = f, eh_key = key, eh_value = msg, eh_serialization = ser\<rparr>
      \<in> set (t_workflow_events_history db1) \<and>
    (\<forall>w' key'. (w', key') \<noteq> (w, key) \<longrightarrow> look_event w' key' db1 = look_event w' key' db)"
proof -
  obtain da db' dc where ev: "upsert_event w key msg ser db = (Inr (), da)"
    and hist: "upsert_event_history w f key msg ser da = (Inr (), db')"
    and rec: "recordOperationResultInternal w f ''DBOS.setEvent'' True s e (output_only None) db' = (Inr (), dc)"
    and sig: "db1 = signalNotification ''dbos_workflow_events_channel'' (w @ ''::'' @ key) dc"
    using assms(1,2)
    by (auto simp: setEvent_def and_then_success runAndRecordResult_eval unrecorded_def split: if_splits)
  note look = look_after_upsert [OF ev]
  have "t_workflow_events dc = t_workflow_events da" "t_workflow_events_history dc = t_workflow_events_history db'"
    using rec hist
    by (auto simp: recordOperationResultInternal_def upsert_event_history_def Let_def split: if_splits option.splits)
  with sig have "look_event w' key' db1 = look_event w' key' da" for w' key'
    by (simp add: look_event_def signalNotification_def)
  with look have "look_event w' key' db1 = (if (w', key') = (w, key) then Some (msg, ser) else look_event w' key' db)"
      for w' key' by metis
  moreover have "\<lparr>eh_workflow_uuid = w, eh_function_id = f, eh_key = key, eh_value = msg, eh_serialization = ser\<rparr>
      \<in> set (t_workflow_events_history db')"
    using hist
    by (force simp: upsert_event_history_def set_update_where eh_pk_def split: if_splits)
  ultimately show ?thesis
    using sig \<open>t_workflow_events_history dc = t_workflow_events_history db'\<close>
    by (simp add: getEvent_def event_replay_def event_deadline_def record_event_read_def Let_def or_null_def truthy_def
        signalNotification_def)
qed

definition stream_contiguous :: "string \<Rightarrow> string \<Rightarrow> sysdb \<Rightarrow> bool" where
  "stream_contiguous w key db =
     (map st_offset (stream_rows w key db) = map int [0..<length (stream_rows w key db)])"

lemma sql_max_upto: "sql_max (map int [0..<n]) = (if n = 0 then None else Some (int n - 1))"
proof (cases n)
  case (Suc m)
  have "Max (int ` {0..<Suc m}) = int m"
    by (intro Max_eqI) auto
  with Suc show ?thesis by (simp add: sql_max_def del: upt_Suc)
qed (simp add: sql_max_def)

lemma next_offset_contiguous: "stream_contiguous w key db \<Longrightarrow> next_offset w key db = int (length (stream_rows w key db))"
  by (simp add: next_offset_def stream_contiguous_def sql_max_upto)

lemma insert_stream_success:
  assumes "insert_stream w f key v ser db = (Inr (), db1)"
  shows "db1 = db\<lparr>t_streams := t_streams db @ [\<lparr>st_workflow_uuid = w, st_key = key, st_value = v,
            st_offset = next_offset w key db, st_function_id = f, st_serialization = ser\<rparr>]\<rparr>"
  using assms by (auto simp: insert_stream_def Let_def split: if_splits)

lemma stream_rows_append:
  "stream_rows w' key' (db\<lparr>t_streams := t_streams db @ [r]\<rparr>) =
    stream_rows w' key' db @ (if st_workflow_uuid r = w' \<and> st_key r = key' then [r] else [])"
  by (simp add: stream_rows_def)

lemma stream_rows_signal [simp]: "stream_rows w key (signalNotification c p db) = stream_rows w key db"
  by (simp add: stream_rows_def signalNotification_def)

text \<open>Reading a contiguous stream row by row.\<close>

lemma readStreamValue_contiguous:
  assumes "stream_contiguous w key db" and "db_wf db"
    and "find_row ws_workflow_uuid w (t_workflow_status db) = Some row"
  shows "readStreamValue w key (int i) db =
    (Some (ws_status row), if i < length (stream_rows w key db)
      then Some (st_value (stream_rows w key db ! i), st_serialization (stream_rows w key db ! i)) else None)"
proof -
  let ?rows = "stream_rows w key db"
  have off: "st_offset (?rows ! j) = int j" if "j < length ?rows" for j
    using arg_cong [OF assms(1) [unfolded stream_contiguous_def], of "\<lambda>xs. xs ! j"] that by simp
  have pk: "st_pk r = (w, key, st_offset r)" if "r \<in> set ?rows" for r
    using that by (auto simp: stream_rows_def st_pk_def)
  have sub: "set ?rows \<subseteq> set (t_streams db)" by (auto simp: stream_rows_def)
  have "find_row st_pk (w, key, int i) (t_streams db) = (if i < length ?rows then Some (?rows ! i) else None)"
  proof (cases "i < length ?rows")
    case True
    then have mem: "?rows ! i \<in> set ?rows" by simp
    with sub have "?rows ! i \<in> set (t_streams db)" by blast
    with pk [OF mem] off [OF True] show ?thesis
      using find_row_unique [OF db_wf_keys(5) [OF assms(2)], of "?rows ! i"] True by simp
  next
    case False
    have "(w, key, int i) \<noteq> st_pk r" if "r \<in> set (t_streams db)" for r
    proof
      assume "(w, key, int i) = st_pk r"
      with that have "r \<in> set ?rows" "st_offset r = int i" by (auto simp: stream_rows_def st_pk_def)
      with off False show False by (metis in_set_conv_nth of_nat_eq_iff)
    qed
    then show ?thesis using False by (auto simp: find_row_None_iff)
  qed
  with assms(3) show ?thesis by (simp add: readStreamValue_def)
qed

definition stream_output :: "streams \<Rightarrow> string \<times> string option" where
  "stream_output r = (st_value r, st_serialization r)"

lemma readStream_finished:
  assumes "stream_contiguous w key db" and "db_wf db"
    and "find_row ws_workflow_uuid w (t_workflow_status db) = Some row" and "\<not> isWorkflowActive (ws_status row)"
    and "length (stream_rows w key db) + 1 < fuel + i" and "i \<le> length (stream_rows w key db)"
  shows "readStream fuel env w key (int i) final db =
    Some (takeWhile (\<lambda>v. fst v \<noteq> DBOS_STREAM_CLOSED_SENTINEL) (map stream_output (drop i (stream_rows w key db))), None)"
  using assms(5,6)
proof (induction fuel arbitrary: i final)
  case (Suc fuel)
  let ?rows = "stream_rows w key db"
  note read = readStreamValue_contiguous [OF assms(1-3), of i]
  show ?case
  proof (cases "i < length ?rows")
    case True
    have step: "drop i ?rows = ?rows ! i # drop (Suc i) ?rows" using True by (rule Cons_nth_drop_Suc [symmetric])
    have "readStream fuel env w key (int i + 1) final db =
      Some (takeWhile (\<lambda>v. fst v \<noteq> DBOS_STREAM_CLOSED_SENTINEL) (map stream_output (drop (Suc i) ?rows)), None)"
      using Suc.IH [of "Suc i" final] Suc.prems True by (simp add: add.commute)
    moreover have "stream_output (?rows ! i) = (st_value (?rows ! i), st_serialization (?rows ! i))"
      by (simp add: stream_output_def)
    ultimately show ?thesis using read step True by simp
  next
    case False
    then have i: "i = length ?rows" using Suc.prems by simp
    then obtain fuel' where "fuel = Suc fuel'" using Suc.prems by (cases fuel) auto
    with read i assms(4) show ?thesis by simp
  qed
qed simp



text \<open>
  The event dispatcher's position never moves back. After an upsert the stored time and sequence are
  at least both the old and the submitted ones, and a value that is older in both respects never
  replaces the stored one, so replays of old events are harmless.
\<close>

lemma dispatch_state_monotone:
  assumes "getEventDispatchState svc fn k db = Some old" and "ed_pk st = (svc, fn, k)"
    and "upsertEventDispatchState st db = (Inr new, db1)"
  shows "getEventDispatchState svc fn k db1 = Some new \<and>
    (\<forall>t. ed_update_time old = Some t \<or> ed_update_time st = Some t \<longrightarrow>
      (\<exists>t'. ed_update_time new = Some t' \<and> t \<le> t')) \<and>
    (\<forall>q. ed_update_seq old = Some q \<or> ed_update_seq st = Some q \<longrightarrow>
      (\<exists>q'. ed_update_seq new = Some q' \<and> q \<le> q')) \<and>
    ed_value new = (if sql_greater (ed_update_time st) (ed_update_time old) \<or>
        sql_greater (ed_update_seq st) (ed_update_seq old) \<or> ed_update_time old = None \<and> ed_update_seq old = None
      then ed_value st else ed_value old)"
proof -
  have old: "find_row ed_pk (svc, fn, k) (t_event_dispatch_kv db) = Some old" "ed_pk old = (svc, fn, k)"
    using assms(1) by (auto simp: getEventDispatchState_def dest: find_row_SomeD)
  have new: "new = merge_dispatch st old" using old assms by (simp add: upsertEventDispatchState_def)
  have "getEventDispatchState svc fn k db1 = Some new"
    using old assms new by (auto simp: upsertEventDispatchState_def getEventDispatchState_def find_row_update_where)
  with new show ?thesis
    by (auto simp: merge_dispatch_def sql_greatest_def split: option.splits)
qed

definition example_state :: "int \<Rightarrow> string \<Rightarrow> event_dispatch_kv" where
  "example_state t v = \<lparr>ed_service_name = ''cron'', ed_workflow_fn_name = ''job'', ed_key = ''last'',
     ed_value = Some v, ed_update_time = Some t, ed_update_seq = None\<rparr>"

lemma map_of_add_payload: "map_of (add_payload c p batches) c' =
    (if c' = c then Some (case map_of batches c of None \<Rightarrow> [p] | Some b \<Rightarrow> if p \<in> set b then b else b @ [p])
     else map_of batches c')"
  by (induction c p batches rule: add_payload.induct) auto

lemma add_payload_keys: "distinct (map fst batches) \<Longrightarrow> distinct (map fst (add_payload c p batches))"
proof (induction c p batches rule: add_payload.induct)
  case (2 channel payload c batch rest)
  have "fst ` set (add_payload channel payload rest) = insert channel (fst ` set rest)"
    by (induction channel payload rest rule: add_payload.induct) auto
  with 2 show ?case by auto
qed simp

text \<open>
  A signalled payload wakes its readers. In a process with listen/notify, the flush after a signal
  emits the payload on its channel exactly once however often it was signalled before, provided the
  database accepts that channel's batch, and leaves nothing pending.
\<close>

lemma flush_emits_signalled:
  assumes "distinct (map fst (m_pendingNotifications db))" and "m_shouldUseDBNotifications db"
    and "\<forall>b. deliverable channel b" and "\<forall>(c, b)\<in>set (m_pendingNotifications db). distinct b"
  shows "\<exists>emitted db1. flushNotifications deliverable (signalNotification channel payload db) = (Inr emitted, db1) \<and>
    m_pendingNotifications db1 = [] \<and> (\<exists>b. map_of emitted channel = Some b \<and> count_list b payload = 1)"
proof -
  let ?p = "add_payload channel payload (m_pendingNotifications db)"
  obtain b where b: "map_of ?p channel = Some b" "payload \<in> set b" "distinct b"
  proof (cases "map_of (m_pendingNotifications db) channel")
    case None
    then show ?thesis using that by (simp add: map_of_add_payload)
  next
    case (Some b0)
    then have "distinct b0" using assms(4) by (auto dest: map_of_SomeD)
    then show ?thesis using that Some by (simp add: map_of_add_payload split: if_splits)
  qed
  then have mem: "(channel, b) \<in> set ?p" and ne: "b \<noteq> []" by (auto dest: map_of_SomeD)
  let ?e = "filter (\<lambda>(c, batch). batch \<noteq> [] \<and> deliverable c batch) ?p"
  have "distinct (map fst ?e)" using add_payload_keys [OF assms(1)] by (rule distinct_map_filter)
  then have "map_of ?e channel = Some b"
    using mem ne assms(3) by (intro map_of_is_SomeI) auto
  moreover have "count_list b payload = 1" using b(2,3) by (induction b) auto
  ultimately show ?thesis
    using assms(2) mem ne by (auto simp: flushNotifications_def signalNotification_def)
qed

end
