(* ===== verification/SysDB_Management.thy ===== *)
theory SysDB_Management
  imports SysDB_Messaging
begin

text \<open>
  Workflow management (the section "Workflow Management" of \<open>src/system_database.ts\<close>, and
  \<open>garbageCollect\<close>): cancelling with cascade to children, resuming, priorities and delays, the
  debounce update, the search for descendants, and deletion with the cascading foreign keys.
\<close>

section \<open>Children\<close>

definition getDirectChildren :: "string list \<Rightarrow> workflow_status list \<Rightarrow> string list" where
  "getDirectChildren workflowIDs rows =
     map ws_workflow_uuid (filter (\<lambda>r. \<exists>p\<in>set workflowIDs. ws_parent_workflow_id r = Some p) rows)"

lemma getDirectChildren_ids: "set (getDirectChildren ids rows) \<subseteq> ws_workflow_uuid ` set rows"
  by (auto simp: getDirectChildren_def)

lemma bfs_decreases:
  assumes "frontier \<noteq> []" and "next = filter (\<lambda>i. i \<notin> set visited) (getDirectChildren frontier rows)"
  shows "2 * card (ws_workflow_uuid ` set rows - set (visited @ next)) + (if next = [] then 0 else 1) <
    2 * card (ws_workflow_uuid ` set rows - set visited) + (if frontier = [] then 0 else (1 :: nat))"
proof (cases "next = []")
  case False
  then obtain i where i: "i \<in> set next" by fastforce
  then have "i \<in> ws_workflow_uuid ` set rows - set visited"
    using assms(2) getDirectChildren_ids [of frontier rows] by auto
  moreover have "i \<notin> ws_workflow_uuid ` set rows - set (visited @ next)" using i by simp
  ultimately have "card (ws_workflow_uuid ` set rows - set (visited @ next)) < card (ws_workflow_uuid ` set rows - set visited)"
    by (intro psubset_card_mono) auto
  then show ?thesis using assms(1) by simp
qed (use assms in simp)

text \<open>The breadth-first loop of \<open>getWorkflowChildren\<close>; it visits each stored workflow at most once.\<close>

function children_loop :: "workflow_status list \<Rightarrow> string list \<Rightarrow> string list \<Rightarrow> string list" where
  "children_loop rows descendants frontier =
     (if frontier = [] then descendants
      else (let next = filter (\<lambda>i. i \<notin> set descendants) (getDirectChildren frontier rows)
            in children_loop rows (descendants @ next) next))"
  by pat_completeness auto
termination
  by (relation "measure (\<lambda>(rows, descendants, frontier).
      2 * card (ws_workflow_uuid ` set rows - set descendants) + (if frontier = [] then 0 else 1))")
    (use bfs_decreases in \<open>simp_all del: set_append\<close>)

declare children_loop.simps [simp del]

definition getWorkflowChildren :: "string \<Rightarrow> sysdb \<Rightarrow> string list" where
  "getWorkflowChildren workflowID db = children_loop (t_workflow_status db) [] [workflowID]"

section \<open>Cancelling and resuming\<close>

definition cancelled_row :: "int \<Rightarrow> workflow_status \<Rightarrow> workflow_status" where
  "cancelled_row now r = r\<lparr>ws_status := CANCELLED, ws_queue_name := None, ws_deduplication_id := None,
     ws_started_at_epoch_ms := None, ws_updated_at := now, ws_completed_at := Some now\<rparr>"

definition cancel_rows :: "int \<Rightarrow> string list \<Rightarrow> workflow_status list \<Rightarrow> workflow_status list" where
  "cancel_rows now workflowIDs = update_where
     (\<lambda>r. ws_workflow_uuid r \<in> set workflowIDs \<and> ws_status r \<noteq> SUCCESS \<and> ws_status r \<noteq> ERROR) (cancelled_row now)"

lemma cancelled_row_frame [simp]:
  "ws_workflow_uuid (cancelled_row now r) = ws_workflow_uuid r"
  "ws_parent_workflow_id (cancelled_row now r) = ws_parent_workflow_id r"
  "ws_status (cancelled_row now r) = CANCELLED"
  "ws_deduplication_id (cancelled_row now r) = None"
  "cancelled_row now (cancelled_row now r) = cancelled_row now r"
  by (simp_all add: cancelled_row_def)

lemma cancel_rows_ids [simp]: "ws_workflow_uuid ` set (cancel_rows now ids rows) = ws_workflow_uuid ` set rows"
  by (simp add: cancel_rows_def image_update_where)

text \<open>The cascade: cancel a level, look up its children, go on with those not visited yet.\<close>

function cancel_cascade :: "int \<Rightarrow> string list \<Rightarrow> string list \<Rightarrow> workflow_status list \<Rightarrow> workflow_status list" where
  "cancel_cascade now visited frontier rows =
     (if frontier = [] then rows
      else (let rows1 = cancel_rows now frontier rows;
                next = filter (\<lambda>i. i \<notin> set visited) (getDirectChildren frontier rows1)
            in cancel_cascade now (visited @ next) next rows1))"
  by pat_completeness auto
termination
proof (relation "measure (\<lambda>(now, visited, frontier, rows).
      2 * card (ws_workflow_uuid ` set rows - set visited) + (if frontier = [] then 0 else 1))", goal_cases)
  case (2 now visited frontier rows rows1 "next")
  then show ?case
    using bfs_decreases [of frontier "next" visited rows1] by (simp del: set_append)
qed simp

declare cancel_cascade.simps [simp del]

text \<open>The cascade of the source is several statements, each committed on its own with its own \<open>now()\<close>, and it stops where one of them fails. Here it
  is one operation at one time. It is still a sequence of the single statements (\<open>cancel_cascade_statements\<close>), and each of these is an operation of its own,
  \<open>cancelWorkflows\<close> without children, so that a cascade which is interrupted or interleaved with other operations is a run of such operations.\<close>

lemma cancel_cascade_statements:
  "\<exists>levels. cancel_cascade now visited frontier rows = fold (cancel_rows now) levels rows"
proof (induction now visited frontier rows rule: cancel_cascade.induct)
  case (1 now visited frontier rows)
  show ?case
  proof (cases "frontier = []")
    case True
    then show ?thesis by (intro exI [of _ "[]"]) (simp add: cancel_cascade.simps)
  next
    case False
    from "1.IH" [OF False refl refl] obtain levels where
      "cancel_cascade now (visited @ filter (\<lambda>i. i \<notin> set visited) (getDirectChildren frontier (cancel_rows now frontier rows)))
         (filter (\<lambda>i. i \<notin> set visited) (getDirectChildren frontier (cancel_rows now frontier rows))) (cancel_rows now frontier rows)
       = fold (cancel_rows now) levels (cancel_rows now frontier rows)" by blast
    with False show ?thesis
      by (intro exI [of _ "frontier # levels"]) (simp add: cancel_cascade.simps [of now visited frontier rows] Let_def)
  qed
qed

definition cancelWorkflows :: "int \<Rightarrow> string list \<Rightarrow> bool \<Rightarrow> unit db_op" where
  "cancelWorkflows now workflowIDs cancelChildren db =
     (Inr (), db\<lparr>t_workflow_status :=
        (if \<not> cancelChildren then cancel_rows now workflowIDs (t_workflow_status db)
         else cancel_cascade now workflowIDs workflowIDs (t_workflow_status db))\<rparr>)"

definition INTERNAL_QUEUE_NAME :: string where
  "INTERNAL_QUEUE_NAME = ''_dbos_internal_queue''"

definition resumeWorkflows :: "int \<Rightarrow> string list \<Rightarrow> string option \<Rightarrow> unit db_op" where
  "resumeWorkflows now workflowIDs queueName db =
     (Inr (), db\<lparr>t_workflow_status := update_where
        (\<lambda>r. ws_workflow_uuid r \<in> set workflowIDs \<and> ws_status r \<noteq> SUCCESS \<and> ws_status r \<noteq> ERROR)
        (\<lambda>r. r\<lparr>ws_status := ENQUEUED, ws_queue_name := Some (coalesce queueName INTERNAL_QUEUE_NAME),
           ws_recovery_attempts := 0, ws_workflow_deadline_epoch_ms := None, ws_deduplication_id := None,
           ws_started_at_epoch_ms := None, ws_updated_at := now, ws_completed_at := None\<rparr>)
        (t_workflow_status db)\<rparr>)"

definition setWorkflowPriority :: "int \<Rightarrow> string \<Rightarrow> int \<Rightarrow> unit db_op" where
  "setWorkflowPriority now workflowID priority db =
     (Inr (), db\<lparr>t_workflow_status := update_where
        (\<lambda>r. ws_workflow_uuid r = workflowID \<and> (ws_status r = ENQUEUED \<or> ws_status r = DELAYED))
        (\<lambda>r. r\<lparr>ws_priority := priority, ws_updated_at := now\<rparr>) (t_workflow_status db)\<rparr>)"

definition setWorkflowDelay :: "int \<Rightarrow> string \<Rightarrow> int \<Rightarrow> unit db_op" where
  "setWorkflowDelay now workflowID delayUntilEpochMS db =
     (Inr (), db\<lparr>t_workflow_status := update_where
        (\<lambda>r. ws_workflow_uuid r = workflowID \<and> ws_status r = DELAYED)
        (\<lambda>r. r\<lparr>ws_delay_until_epoch_ms := Some delayUntilEpochMS, ws_updated_at := now\<rparr>) (t_workflow_status db)\<rparr>)"

section \<open>Debouncing a delayed workflow\<close>

record DebounceParams =
  dp_workflowName :: string
  dp_workflowClassName :: string
  dp_queueName :: string
  dp_deduplicationID :: string
  dp_delayUntilEpochMS :: int
  dp_input :: "string option"
  dp_serialization :: "string option"

record DebounceResult =
  dr_bouncedWorkflowID :: "string option"
  dr_holderWorkflowID :: "string option"
  dr_holderIsDebounced :: bool
  dr_holderWorkflowName :: "string option"
  dr_holderWorkflowClassName :: "string option"

definition holds_key :: "DebounceParams \<Rightarrow> workflow_status \<Rightarrow> bool" where
  "holds_key params r =
     (ws_queue_name r = Some (dp_queueName params) \<and> ws_deduplication_id r = Some (dp_deduplicationID params))"

definition bounceable :: "DebounceParams \<Rightarrow> workflow_status \<Rightarrow> bool" where
  "bounceable params r =
     (ws_name r = dp_workflowName params \<and> ws_class_name r = empty_to_null (dp_workflowClassName params) \<and>
      holds_key params r \<and> ws_status r = DELAYED \<and> ws_is_debounced r)"

definition bounce_row :: "int \<Rightarrow> DebounceParams \<Rightarrow> workflow_status \<Rightarrow> workflow_status" where
  "bounce_row now params r = r\<lparr>
     ws_delay_until_epoch_ms := (case ws_debounce_deadline_epoch_ms r of
         Some deadline \<Rightarrow> if deadline < dp_delayUntilEpochMS params then Some deadline
                          else Some (dp_delayUntilEpochMS params)
       | None \<Rightarrow> Some (dp_delayUntilEpochMS params)),
     ws_inputs := dp_input params, ws_serialization := dp_serialization params, ws_updated_at := now\<rparr>"

text \<open>
  An update and, when it finds no row, a query. The transaction is \<open>READ COMMITTED\<close>: the query sees what other transactions commit
  after the update, which is the parameter \<open>between\<close>. The row that the update finds is locked until the commit.
\<close>

definition debounceDelayedWorkflow :: "int \<Rightarrow> DebounceParams \<Rightarrow> (sysdb \<Rightarrow> sysdb) \<Rightarrow> DebounceResult db_op" where
  "debounceDelayedWorkflow now params between db =
     (case filter (bounceable params) (t_workflow_status db) of
        r # _ \<Rightarrow>
          (Inr \<lparr>dr_bouncedWorkflowID = Some (ws_workflow_uuid r), dr_holderWorkflowID = None,
             dr_holderIsDebounced = False, dr_holderWorkflowName = None, dr_holderWorkflowClassName = None\<rparr>,
           db\<lparr>t_workflow_status := update_where (bounceable params) (bounce_row now params) (t_workflow_status db)\<rparr>)
      | [] \<Rightarrow>
          (let db1 = between db in
           case filter (holds_key params) (t_workflow_status db1) of
             [] \<Rightarrow> (Inr \<lparr>dr_bouncedWorkflowID = None, dr_holderWorkflowID = None, dr_holderIsDebounced = False,
                      dr_holderWorkflowName = None, dr_holderWorkflowClassName = None\<rparr>, db1)
           | h # _ \<Rightarrow> (Inr \<lparr>dr_bouncedWorkflowID = None, dr_holderWorkflowID = Some (ws_workflow_uuid h),
                      dr_holderIsDebounced = ws_is_debounced h, dr_holderWorkflowName = Some (ws_name h),
                      dr_holderWorkflowClassName = ws_class_name h\<rparr>, db1)))"

section \<open>Deleting\<close>

text \<open>\<open>DELETE FROM workflow_status WHERE ...\<close> with the cascading foreign keys of the schema.\<close>

definition delete_workflow_rows :: "(workflow_status \<Rightarrow> bool) \<Rightarrow> sysdb \<Rightarrow> sysdb" where
  "delete_workflow_rows P db =
     (let gone = ws_workflow_uuid ` {r \<in> set (t_workflow_status db). P r} in
      db\<lparr>t_workflow_status := delete_where P (t_workflow_status db),
         t_operation_outputs := delete_where (\<lambda>r. oo_workflow_uuid r \<in> gone) (t_operation_outputs db),
         t_notifications := delete_where (\<lambda>r. nt_destination_uuid r \<in> gone) (t_notifications db),
         t_workflow_events := delete_where (\<lambda>r. we_workflow_uuid r \<in> gone) (t_workflow_events db),
         t_workflow_events_history := delete_where (\<lambda>r. eh_workflow_uuid r \<in> gone) (t_workflow_events_history db),
         t_streams := delete_where (\<lambda>r. st_workflow_uuid r \<in> gone) (t_streams db)\<rparr>)"

definition deleteWorkflows :: "string list \<Rightarrow> bool \<Rightarrow> unit db_op" where
  "deleteWorkflows workflowIDs deleteChildren db =
     (let allIds = workflowIDs @ (if deleteChildren then concat (map (\<lambda>w. getWorkflowChildren w db) workflowIDs) else []);
          db1 = delete_workflow_rows (\<lambda>r. ws_workflow_uuid r \<in> set allIds) db
      in (Inr (), db1\<lparr>m_runningWorkflowMap := filter (\<lambda>(k, v). k \<notin> set allIds) (m_runningWorkflowMap db1)\<rparr>))"

text \<open>The \<open>rowsThreshold\<close> newest row gives a cutoff; a negative OFFSET is refused by the database.\<close>

definition rows_cutoff :: "int \<Rightarrow> workflow_status list \<Rightarrow> int option" where
  "rows_cutoff rowsThreshold rows =
     (case drop (nat (rowsThreshold - 1)) (rev (sort (map ws_created_at rows))) of [] \<Rightarrow> None | c # _ \<Rightarrow> Some c)"

definition effective_cutoff :: "int option \<Rightarrow> int option \<Rightarrow> int option" where
  "effective_cutoff cutoff rowsBased =
     (case rowsBased of
        None \<Rightarrow> cutoff
      | Some r \<Rightarrow> (case cutoff of None \<Rightarrow> Some r | Some c \<Rightarrow> if r > c then Some r else Some c))"

definition garbageCollect :: "int option \<Rightarrow> int option \<Rightarrow> unit db_op" where
  "garbageCollect cutoffEpochTimestampMs rowsThreshold db =
     (case rowsThreshold of
        Some n \<Rightarrow>
          if n < 1 then (Inl (PgError ''2201X''), db)
          else (case effective_cutoff cutoffEpochTimestampMs (rows_cutoff n (t_workflow_status db)) of
                  None \<Rightarrow> (Inr (), db)
                | Some c \<Rightarrow> (Inr (), delete_workflow_rows
                     (\<lambda>r. ws_created_at r < c \<and> \<not> isWorkflowActive (ws_status r)) db))
      | None \<Rightarrow>
          (case cutoffEpochTimestampMs of
             None \<Rightarrow> (Inr (), db)
           | Some c \<Rightarrow> (Inr (), delete_workflow_rows
                (\<lambda>r. ws_created_at r < c \<and> \<not> isWorkflowActive (ws_status r)) db)))"

section \<open>Every operation keeps the constraints\<close>

lemma cancel_rows_keeps: "db_wf db \<Longrightarrow> db_wf (db\<lparr>t_workflow_status := cancel_rows now ids (t_workflow_status db)\<rparr>)"
  unfolding cancel_rows_def by (rule db_wf_update_status_frame) simp_all

lemma cancel_cascade_keeps:
  "db_wf (db\<lparr>t_workflow_status := rows\<rparr>) \<Longrightarrow> db_wf (db\<lparr>t_workflow_status := cancel_cascade now visited frontier rows\<rparr>)"
proof (induction now visited frontier rows rule: cancel_cascade.induct)
  case (1 now visited frontier rows)
  show ?case
  proof (cases "frontier = []")
    case False
    have "db_wf (db\<lparr>t_workflow_status := cancel_rows now frontier rows\<rparr>)"
      using cancel_rows_keeps [OF 1(2), of now frontier] by simp
    with 1(1) [OF False refl refl] False show ?thesis
      by (subst cancel_cascade.simps) (simp add: Let_def)
  qed (use 1 in \<open>simp add: cancel_cascade.simps\<close>)
qed

lemma cancelWorkflows_keeps [keep_rules]: "preserves db_wf (cancelWorkflows now ids cc)"
proof (rule preservesI)
  fix db assume wf: "db_wf db"
  then have "db_wf (db\<lparr>t_workflow_status := cancel_cascade now ids ids (t_workflow_status db)\<rparr>)"
    by (intro cancel_cascade_keeps) simp
  with cancel_rows_keeps [OF wf] show "db_wf (snd (cancelWorkflows now ids cc db))"
    by (simp add: cancelWorkflows_def)
qed

lemma resumeWorkflows_keeps [keep_rules]: "preserves db_wf (resumeWorkflows now ids q)"
  by (rule preservesI) (auto simp: resumeWorkflows_def intro!: db_wf_update_status_frame)

lemma setWorkflowPriority_keeps [keep_rules]: "preserves db_wf (setWorkflowPriority now w p)"
  by (rule preservesI) (auto simp: setWorkflowPriority_def intro!: db_wf_update_status_frame)

lemma setWorkflowDelay_keeps [keep_rules]: "preserves db_wf (setWorkflowDelay now w d)"
  by (rule preservesI) (auto simp: setWorkflowDelay_def intro!: db_wf_update_status_frame)

lemma bounce_row_frame [simp]:
  "ws_workflow_uuid (bounce_row now p r) = ws_workflow_uuid r" "ws_status (bounce_row now p r) = ws_status r"
  "ws_queue_name (bounce_row now p r) = ws_queue_name r"
  "ws_deduplication_id (bounce_row now p r) = ws_deduplication_id r"
  by (simp_all add: bounce_row_def)

lemma debounceDelayedWorkflow_keeps [keep_rules]: "preserves db_wf (debounceDelayedWorkflow now p (\<lambda>db. db))"
  by (rule preservesI)
    (auto simp: debounceDelayedWorkflow_def Let_def intro!: db_wf_update_status_frame split: list.splits)

lemma delete_workflow_rows_ids:
  assumes "unique_key ws_workflow_uuid (t_workflow_status db)"
  shows "workflow_ids (delete_workflow_rows P db) =
    workflow_ids db - ws_workflow_uuid ` {r \<in> set (t_workflow_status db). P r}"
proof -
  have "workflow_ids (delete_workflow_rows P db) = ws_workflow_uuid ` {r \<in> set (t_workflow_status db). \<not> P r}"
    by (simp add: workflow_ids_def delete_workflow_rows_def Let_def)
  also have "\<dots> = workflow_ids db - ws_workflow_uuid ` {r \<in> set (t_workflow_status db). P r}"
    using unique_key_eq [OF assms] by (auto simp: workflow_ids_def image_iff)
  finally show ?thesis .
qed

lemma delete_workflow_rows_keeps: 
  assumes "db_wf db"
  shows "db_wf (delete_workflow_rows P db)"
proof -
  let ?gone = "ws_workflow_uuid ` {r \<in> set (t_workflow_status db). P r}"
  have ids: "workflow_ids (delete_workflow_rows P db) = workflow_ids db - ?gone"
    using delete_workflow_rows_ids assms by simp
  have fk: "foreign_keys (delete_workflow_rows P db)"
    using db_wf_refs [OF assms] ids
    unfolding foreign_keys_def by (simp add: delete_workflow_rows_def Let_def image_subset_iff)
  have pk: "primary_keys (delete_workflow_rows P db)"
    using assms unfolding db_wf_def primary_keys_def
    by (simp add: delete_workflow_rows_def Let_def unique_key_delete_where)
  have "dedup_unique (t_workflow_status (delete_workflow_rows P db))"
    using assms by (simp add: db_wf_def delete_workflow_rows_def Let_def dedup_unique_delete_where)
  with fk pk show ?thesis by (simp add: db_wf_def)
qed

lemma deleteWorkflows_keeps [keep_rules]: "preserves db_wf (deleteWorkflows ids cc)"
  by (rule preservesI) (simp add: deleteWorkflows_def Let_def delete_workflow_rows_keeps)

lemma garbageCollect_keeps [keep_rules]: "preserves db_wf (garbageCollect c n)"
  by (rule preservesI) (auto simp: garbageCollect_def delete_workflow_rows_keeps split: option.splits)

section \<open>The descendants of a workflow\<close>

definition child_of :: "workflow_status list \<Rightarrow> string \<Rightarrow> string \<Rightarrow> bool" where
  "child_of rows p c = (\<exists>r\<in>set rows. ws_parent_workflow_id r = Some p \<and> ws_workflow_uuid r = c)"

lemma rtranclp_iff: "R\<^sup>*\<^sup>* a b \<longleftrightarrow> a = b \<or> R\<^sup>+\<^sup>+ a b"
  by (metis rtranclp.rtrancl_refl rtranclpD tranclp_into_rtranclp)

lemma set_getDirectChildren: "set (getDirectChildren ids rows) = {c. \<exists>p\<in>set ids. child_of rows p c}"
  by (auto simp: getDirectChildren_def child_of_def)

lemma reach_step:
  assumes closed: "\<forall>v\<in>V - F. \<forall>c. child_of rows v c \<longrightarrow> c \<in> V"
    and F': "F' = {c. \<exists>p\<in>F. child_of rows p c} - V"
  shows "V \<union> {b. \<exists>f\<in>F. (child_of rows)\<^sup>+\<^sup>+ f b} = (V \<union> F') \<union> {b. \<exists>f\<in>F'. (child_of rows)\<^sup>+\<^sup>+ f b}" (is "?l = ?r")
proof
  have base: "c \<in> V \<union> F'" if "f \<in> F" "child_of rows f c" for f c using F' that by auto
  have step: "c \<in> ?r" if "b \<in> ?r" "child_of rows b c" for b c
    using that closed F' by (cases "b \<in> F") (auto intro: tranclp.intros)
  have "b \<in> ?r" if "(child_of rows)\<^sup>+\<^sup>+ f b" "f \<in> F" for f b
    using that by (induction rule: tranclp_induct) (use base step in blast)+
  then show "?l \<subseteq> ?r" by blast
  have "b \<in> ?l" if "f' \<in> F'" "(child_of rows)\<^sup>+\<^sup>+ f' b" for f' b
    using that F' by (auto intro: tranclp_into_tranclp2)
  then show "?r \<subseteq> ?l" using F' by (auto intro: tranclp.r_into_trancl)
qed

lemma children_loop_set:
  assumes "\<forall>v\<in>set V - set F. \<forall>c. child_of rows v c \<longrightarrow> c \<in> set V"
  shows "set (children_loop rows V F) = set V \<union> {b. \<exists>f\<in>set F. (child_of rows)\<^sup>+\<^sup>+ f b}"
  using assms
proof (induction rows V F rule: children_loop.induct)
  case (1 rows V F)
  show ?case
  proof (cases "F = []")
    case False
    define next1 where "next1 = filter (\<lambda>i. i \<notin> set V) (getDirectChildren F rows)"
    have set_next: "set next1 = {c. \<exists>p\<in>set F. child_of rows p c} - set V"
      by (auto simp: next1_def set_getDirectChildren)
    have closed: "\<forall>v\<in>set (V @ next1) - set next1. \<forall>c. child_of rows v c \<longrightarrow> c \<in> set (V @ next1)"
      using 1(2) set_next by fastforce
    have "children_loop rows V F = children_loop rows (V @ next1) next1"
      using False by (subst children_loop.simps) (simp add: next1_def Let_def)
    with 1(1) [OF False next1_def closed] show ?thesis
      using reach_step [OF 1(2) set_next] by simp
  qed (simp add: children_loop.simps)
qed

lemma getDirectChildren_cancel [simp]:
  "getDirectChildren F (cancel_rows now ids rows) = getDirectChildren F rows"
  by (induction rows) (auto simp: getDirectChildren_def cancel_rows_def)

lemma cancel_rows_twice: "cancel_rows now ids (cancel_rows now ids' rows) = cancel_rows now (ids' @ ids) rows"
  by (induction rows) (auto simp: cancel_rows_def)

lemma children_loop_cancel [simp]: "children_loop (cancel_rows now ids rows) V F = children_loop rows V F"
proof (induction rows V F rule: children_loop.induct)
  case (1 rows V F)
  then show ?case
    by (subst (1 2) children_loop.simps) (simp add: Let_def)
qed

lemma children_loop_extends: "\<exists>new. children_loop rows V F = V @ new"
proof (induction rows V F rule: children_loop.induct)
  case (1 rows V F)
  then show ?case by (subst children_loop.simps) (auto simp: Let_def)
qed

lemma cancel_cascade_flat:
  "children_loop rows V F = V @ new \<Longrightarrow> cancel_cascade now V F rows = cancel_rows now (F @ new) rows"
proof (induction now V F rows arbitrary: new rule: cancel_cascade.induct)
  case (1 now V F rows)
  show ?case
  proof (cases "F = []")
    case True
    with 1(2) show ?thesis
      by (simp add: cancel_cascade.simps children_loop.simps cancel_rows_def update_where_no_match)
  next
    case False
    define next1 where "next1 = filter (\<lambda>i. i \<notin> set V) (getDirectChildren F rows)"
    have loop: "children_loop rows V F = children_loop rows (V @ next1) next1"
      using False by (subst children_loop.simps) (simp add: next1_def Let_def)
    then obtain new' where new': "children_loop rows (V @ next1) next1 = (V @ next1) @ new'" "new = next1 @ new'"
      using children_loop_extends [of rows "V @ next1" next1] 1(2) by auto
    have "cancel_cascade now V F rows = cancel_cascade now (V @ next1) next1 (cancel_rows now F rows)"
      using False by (subst cancel_cascade.simps) (simp add: next1_def Let_def)
    also have "\<dots> = cancel_rows now (next1 @ new') (cancel_rows now F rows)"
      using 1(1) [OF False refl, of next1 new'] new'(1) by (simp add: next1_def)
    finally show ?thesis using new'(2) by (simp add: cancel_rows_twice)
  qed
qed

section \<open>Properties\<close>

text \<open>
  C11: Cascading cancellation reaches exactly the descendants. The search loop terminates on every table,
  cyclic parent links included; afterwards every row that descends from a requested workflow, or is one,
  and has neither succeeded nor failed is cancelled, and every other row is untouched.
\<close>

theorem cancel_cascades_to_descendants:
  "cancelWorkflows now ids True db =
    (Inr (), db\<lparr>t_workflow_status := map (\<lambda>r.
      if (\<exists>i\<in>set ids. (child_of (t_workflow_status db))\<^sup>*\<^sup>* i (ws_workflow_uuid r)) \<and>
         ws_status r \<noteq> SUCCESS \<and> ws_status r \<noteq> ERROR
      then r\<lparr>ws_status := CANCELLED, ws_queue_name := None, ws_deduplication_id := None,
        ws_started_at_epoch_ms := None, ws_updated_at := now, ws_completed_at := Some now\<rparr>
      else r) (t_workflow_status db)\<rparr>)"
proof -
  let ?rows = "t_workflow_status db"
  obtain new where new: "children_loop ?rows ids ids = ids @ new" using children_loop_extends by blast
  have "set (ids @ new) = set ids \<union> {b. \<exists>f\<in>set ids. (child_of ?rows)\<^sup>+\<^sup>+ f b}"
    using children_loop_set [of ids ids ?rows] new by simp
  also have "\<dots> = {b. \<exists>i\<in>set ids. (child_of ?rows)\<^sup>*\<^sup>* i b}"
    by (auto simp: rtranclp_iff)
  finally have mem: "x \<in> set (ids @ new) \<longleftrightarrow> (\<exists>i\<in>set ids. (child_of ?rows)\<^sup>*\<^sup>* i x)" for x by blast
  have "cancel_cascade now ids ids ?rows = map (\<lambda>r. if ws_workflow_uuid r \<in> set (ids @ new) \<and>
      ws_status r \<noteq> SUCCESS \<and> ws_status r \<noteq> ERROR then cancelled_row now r else r) ?rows"
    by (simp add: cancel_cascade_flat [OF new] cancel_rows_def update_where_def)
  then show ?thesis by (simp only: cancelWorkflows_def mem cancelled_row_def) simp
qed

text \<open>
  \<open>getWorkflowChildren\<close> returns exactly the proper descendants of a workflow, whatever the shape of
  the parent links.
\<close>

lemma workflow_children_are_descendants:
  "set (getWorkflowChildren w db) = {d. (child_of (t_workflow_status db))\<^sup>+\<^sup>+ w d}"
  using children_loop_set [of "[]" "[w]" "t_workflow_status db"] by (simp add: getWorkflowChildren_def)

text \<open>
  C31: Deletion leaves nothing behind and nothing dangling. Deleting with children removes the requested
  workflows and all their descendants together with their steps, messages, events, event history and
  streams, keeps the rows of every other workflow exactly, forgets them as running, and keeps the
  constraints of the schema.
\<close>

theorem delete_removes_tree:
  assumes "db_wf db" and "doomed = {d. \<exists>i\<in>set ids. (child_of (t_workflow_status db))\<^sup>*\<^sup>* i d}"
  shows "\<exists>db'. deleteWorkflows ids True db = (Inr (), db') \<and> db_wf db' \<and>
    t_workflow_status db' = filter (\<lambda>r. ws_workflow_uuid r \<notin> doomed) (t_workflow_status db) \<and>
    t_operation_outputs db' = filter (\<lambda>r. oo_workflow_uuid r \<notin> doomed) (t_operation_outputs db) \<and>
    t_notifications db' = filter (\<lambda>r. nt_destination_uuid r \<notin> doomed) (t_notifications db) \<and>
    t_workflow_events db' = filter (\<lambda>r. we_workflow_uuid r \<notin> doomed) (t_workflow_events db) \<and>
    t_workflow_events_history db' = filter (\<lambda>r. eh_workflow_uuid r \<notin> doomed) (t_workflow_events_history db) \<and>
    t_streams db' = filter (\<lambda>r. st_workflow_uuid r \<notin> doomed) (t_streams db) \<and>
    (\<forall>d\<in>doomed. \<not> checkForRunningWorkflow d db')"
proof -
  let ?rows = "t_workflow_status db"
  let ?all = "ids @ concat (map (\<lambda>w. getWorkflowChildren w db) ids)"
  have all: "set ?all = doomed"
    using assms(2) children_loop_set [of "[]" "[_]" ?rows]
    by (auto simp: getWorkflowChildren_def rtranclp_iff)
  define gone where "gone = ws_workflow_uuid ` {r \<in> set ?rows. ws_workflow_uuid r \<in> doomed}"
  have gone: "x \<in> gone \<longleftrightarrow> x \<in> doomed" if "x \<in> workflow_ids db" for x
    using that by (auto simp: gone_def workflow_ids_def)
  have drop: "filter (\<lambda>r. g r \<notin> gone) rows = filter (\<lambda>r. g r \<notin> doomed) rows"
    if "g ` set rows \<subseteq> workflow_ids db" for g :: "'r \<Rightarrow> string" and rows
    using that gone by (intro filter_cong) auto
  let ?db1 = "delete_workflow_rows (\<lambda>r. ws_workflow_uuid r \<in> doomed) db"
  let ?db' = "?db1\<lparr>m_runningWorkflowMap := filter (\<lambda>(k, v). k \<notin> doomed) (m_runningWorkflowMap ?db1)\<rparr>"
  have "deleteWorkflows ids True db = (Inr (), ?db')"
    using all by (simp add: deleteWorkflows_def Let_def del: set_append)
  moreover have "db_wf ?db'" using delete_workflow_rows_keeps [OF assms(1)] by simp
  moreover have "t_workflow_status ?db' = filter (\<lambda>r. ws_workflow_uuid r \<notin> doomed) ?rows"
    by (simp add: delete_workflow_rows_def delete_where_def Let_def)
  moreover have "\<forall>d\<in>doomed. \<not> checkForRunningWorkflow d ?db'" by (auto simp: checkForRunningWorkflow_def)
  ultimately show ?thesis
    using drop [OF db_wf_refs(1) [OF assms(1)]] drop [OF db_wf_refs(2) [OF assms(1)]]
      drop [OF db_wf_refs(3) [OF assms(1)]] drop [OF db_wf_refs(4) [OF assms(1)]] drop [OF db_wf_refs(5) [OF assms(1)]]
    by (simp add: delete_workflow_rows_def delete_where_def Let_def gone_def)
qed

theorem delete_removes_tree_witness:
  "\<exists>db'. deleteWorkflows [''w''] True example_db2 = (Inr (), db') \<and> db_wf db' \<and> t_workflow_status db' = []"
proof -
  have wf: "db_wf example_db2"
    by (simp add: example_db2_def db_wf_operation_outputs unique_key_def workflow_ids_def)
  from delete_removes_tree [OF wf refl, of "[''w'']"] show ?thesis by auto
qed

text \<open>
  Garbage collection is safe. It deletes only workflows that have ended and were created before the
  effective cutoff (the later of the given time and the creation time of the \<open>rowsThreshold\<close>-th newest
  row), it deletes all of those, and it keeps the constraints.
\<close>

lemma garbage_collect_spares_active:
  assumes "garbageCollect cutoff threshold db = (Inr (), db')" and "db_wf db"
  shows "db_wf db' \<and> set (t_workflow_status db') \<subseteq> set (t_workflow_status db) \<and>
    (\<forall>r\<in>set (t_workflow_status db). r \<notin> set (t_workflow_status db') \<longleftrightarrow>
      \<not> isWorkflowActive (ws_status r) \<and>
      (\<exists>c. effective_cutoff cutoff (Option.bind threshold (\<lambda>n. rows_cutoff n (t_workflow_status db))) = Some c \<and>
        ws_created_at r < c))"
proof -
  have "db_wf db'" by (rule preservesD [OF garbageCollect_keeps assms(2,1)])
  then show ?thesis
    using assms(1)
    by (auto simp: garbageCollect_def delete_workflow_rows_def Let_def effective_cutoff_def split: option.splits if_splits)
qed

lemma dedup_unique_eq:
  "dedup_unique rows \<Longrightarrow> r \<in> set rows \<Longrightarrow> r' \<in> set rows \<Longrightarrow> dedup_conflict r r' \<Longrightarrow> r = r'"
  by (induction rows) (auto simp: dedup_conflict_sym)

lemma bounceable_unique:
  assumes "db_wf db" and "bounceable p r" and "bounceable p r'"
    and "r \<in> set (t_workflow_status db)" and "r' \<in> set (t_workflow_status db)"
  shows "r = r'"
proof (rule dedup_unique_eq [OF _ assms(4,5)])
  show "dedup_unique (t_workflow_status db)" using assms(1) by (simp add: db_wf_def)
  show "dedup_conflict r r'" using assms(2,3) by (auto simp: bounceable_def holds_key_def dedup_conflict_def)
qed

text \<open>
  A bounce moves exactly one workflow, and never past its deadline. When a debounced workflow holds
  the key, the bounce changes that row alone: the new start time is the requested one capped at the
  debounce deadline, and the inputs are replaced; in every other case the database is unchanged,
  but for what others do between its two statements.
\<close>

lemma debounce_moves_one_within_deadline:
  assumes "db_wf db" and "debounceDelayedWorkflow now p (\<lambda>db. db) db = (Inr res, db')"
  shows "case dr_bouncedWorkflowID res of
      None \<Rightarrow> db' = db \<and> (\<forall>r\<in>set (t_workflow_status db). \<not> bounceable p r)
    | Some wfid \<Rightarrow> (\<exists>r\<in>set (t_workflow_status db). ws_workflow_uuid r = wfid \<and> bounceable p r \<and>
        db' = db\<lparr>t_workflow_status := map (\<lambda>r'. if r' = r then bounce_row now p r else r') (t_workflow_status db)\<rparr> \<and>
        (\<exists>t. ws_delay_until_epoch_ms (bounce_row now p r) = Some t \<and> t \<le> dp_delayUntilEpochMS p \<and>
          (\<forall>d. ws_debounce_deadline_epoch_ms r = Some d \<longrightarrow> t \<le> d)))"
proof (cases "filter (bounceable p) (t_workflow_status db)")
  case Nil
  then show ?thesis using assms(2)
    by (auto simp: debounceDelayedWorkflow_def Let_def filter_empty_conv split: list.splits)
next
  case (Cons r rest)
  then have r: "r \<in> set (t_workflow_status db)" "bounceable p r"
    using filter_eq_ConsD [OF Cons] by auto
  then have "update_where (bounceable p) (bounce_row now p) (t_workflow_status db) =
      map (\<lambda>r'. if r' = r then bounce_row now p r else r') (t_workflow_status db)"
    using bounceable_unique [OF assms(1)] by (auto simp: update_where_def)
  with r Cons assms(2) show ?thesis
    by (auto simp: debounceDelayedWorkflow_def bounce_row_def split: option.splits intro!: bexI [of _ r])
qed

end
