(* ===== verification/SysDB_Fork.thy ===== *)
theory SysDB_Fork
  imports SysDB_Management
begin

text \<open>
  Forking workflows from a step, and moving workflows between databases
  (\<open>forkWorkflow\<close>, \<open>forkFromFailure\<close>, \<open>bulkForkWorkflows\<close>, \<open>exportWorkflow\<close>, \<open>importWorkflow\<close> of
  \<open>src/system_database.ts\<close>).

  Three tables are copied row by row up to the start step; the locale \<open>forkable_table\<close> states what
  such a copy needs and what it gives, and each of the tables interprets it. Imports insert child rows
  one statement at a time; the locale \<open>child_table\<close> is the access to one of those tables.
\<close>

section \<open>Copying the rows of earlier steps\<close>

type_synonym fork_mapping = "string \<times> string \<times> int"

definition copy_prefix ::
  "('r \<Rightarrow> string) \<Rightarrow> ('r \<Rightarrow> int) \<Rightarrow> (string \<Rightarrow> 'r \<Rightarrow> 'r) \<Rightarrow> fork_mapping list \<Rightarrow> 'r list \<Rightarrow> 'r list" where
  "copy_prefix owner step rename mappings rows =
     concat (map (\<lambda>(orig_id, fork_id, start_step).
       map (rename fork_id) (filter (\<lambda>r. owner r = orig_id \<and> step r < start_step) rows)) mappings)"

definition replace_child :: "(string \<times> string) list \<Rightarrow> string option \<Rightarrow> string option" where
  "replace_child replacementChildren child =
     (case child of
        None \<Rightarrow> None
      | Some c \<Rightarrow> (case map_of replacementChildren c of None \<Rightarrow> Some c | Some n \<Rightarrow> Some n))"

definition rename_operation :: "(string \<times> string) list \<Rightarrow> string \<Rightarrow> operation_outputs \<Rightarrow> operation_outputs" where
  "rename_operation replacementChildren fork_id r =
     r\<lparr>oo_workflow_uuid := fork_id, oo_child_workflow_id := replace_child replacementChildren (oo_child_workflow_id r)\<rparr>"

definition rename_stream :: "string \<Rightarrow> streams \<Rightarrow> streams" where
  "rename_stream fork_id r = r\<lparr>st_workflow_uuid := fork_id\<rparr>"

definition rename_history :: "string \<Rightarrow> workflow_events_history \<Rightarrow> workflow_events_history" where
  "rename_history fork_id r = r\<lparr>eh_workflow_uuid := fork_id\<rparr>"

text \<open>
  The latest events: \<open>ROW_NUMBER() OVER (PARTITION BY weh.workflow_uuid, weh.key ORDER BY function_id
  DESC) = 1\<close> over the join of mappings and history. The partition is by the original workflow.
\<close>

definition joined_history ::
  "fork_mapping list \<Rightarrow> workflow_events_history list \<Rightarrow> (string \<times> workflow_events_history) list" where
  "joined_history mappings history =
     concat (map (\<lambda>(orig_id, fork_id, start_step).
       map (Pair fork_id) (filter (\<lambda>h. eh_workflow_uuid h = orig_id \<and> eh_function_id h < start_step) history)) mappings)"

definition history_partition :: "string \<times> workflow_events_history \<Rightarrow> string \<times> string" where
  "history_partition x = (eh_workflow_uuid (snd x), eh_key (snd x))"

definition first_ranked ::
  "(string \<times> workflow_events_history) list \<Rightarrow> string \<times> string \<Rightarrow> string \<times> workflow_events_history" where
  "first_ranked joined p =
     hd (sort_key (\<lambda>x. - eh_function_id (snd x)) (filter (\<lambda>x. history_partition x = p) joined))"

definition latest_events :: "fork_mapping list \<Rightarrow> workflow_events_history list \<Rightarrow> workflow_events list" where
  "latest_events mappings history =
     (let joined = joined_history mappings history in
      map (\<lambda>p. let (fork_id, h) = first_ranked joined p in
          \<lparr>we_workflow_uuid = fork_id, we_key = eh_key h, we_value = eh_value h, we_serialization = eh_serialization h\<rparr>)
        (remdups (map history_partition joined)))"

section \<open>Forking\<close>

record fork_options =
  fo_applicationVersion :: "string option"
  fo_timeoutMS :: "int option"
  fo_queueName :: "string option"
  fo_queuePartitionKey :: "string option"
  fo_replacementChildren :: "(string \<times> string) list"

definition fork_row :: "int \<Rightarrow> fork_options \<Rightarrow> workflow_status \<Rightarrow> string \<Rightarrow> workflow_status" where
  "fork_row now opts ws forkID = \<lparr>
     ws_workflow_uuid = forkID,
     ws_status = ENQUEUED,
     ws_name = ws_name ws,
     ws_class_name = ws_class_name ws,
     ws_config_name = ws_config_name ws,
     ws_authenticated_user = ws_authenticated_user ws,
     ws_output = None,
     ws_error = None,
     ws_assumed_role = ws_assumed_role ws,
     ws_authenticated_roles = ws_authenticated_roles ws,
     ws_request = ws_request ws,
     ws_executor_id = None,
     ws_application_version = coalesce_opt (fo_applicationVersion opts) (ws_application_version ws),
     ws_queue_name = Some (coalesce (fo_queueName opts) INTERNAL_QUEUE_NAME),
     ws_created_at = now,
     ws_updated_at = now,
     ws_application_id = ws_application_id ws,
     ws_recovery_attempts = 0,
     ws_workflow_timeout_ms = fo_timeoutMS opts,
     ws_workflow_deadline_epoch_ms = None,
     ws_inputs = ws_inputs ws,
     ws_started_at_epoch_ms = None,
     ws_deduplication_id = None,
     ws_priority = 0,
     ws_queue_partition_key = fo_queuePartitionKey opts,
     ws_forked_from = Some (ws_workflow_uuid ws),
     ws_was_forked_from = False,
     ws_owner_xid = None,
     ws_parent_workflow_id = None,
     ws_serialization = ws_serialization ws,
     ws_delay_until_epoch_ms = None,
     ws_rate_limited = False,
     ws_completed_at = None,
     ws_attributes = ws_attributes ws,
     ws_schedule_name = None,
     ws_debounce_deadline_epoch_ms = None,
     ws_is_debounced = False \<rparr>"

definition missing_workflow :: "string list \<Rightarrow> sysdb \<Rightarrow> string option" where
  "missing_workflow workflowIDs db = List.find (\<lambda>w. w \<notin> workflow_ids db) workflowIDs"

definition insert_forks ::
  "int \<Rightarrow> fork_options \<Rightarrow> (string \<times> string) list \<Rightarrow> unit db_op" where
  "insert_forks now opts pairs db =
     (let new = List.map_filter (\<lambda>(origID, forkID).
            map_option (\<lambda>ws. fork_row now opts ws forkID) (find_row ws_workflow_uuid origID (t_workflow_status db))) pairs;
          rows = t_workflow_status db @ new
      in if unique_key ws_workflow_uuid rows then (Inr (), db\<lparr>t_workflow_status := rows\<rparr>)
         else (Inl (PgError ''23505''), db))"

definition mark_forked_from :: "string list \<Rightarrow> sysdb \<Rightarrow> sysdb" where
  "mark_forked_from workflowIDs db = db\<lparr>t_workflow_status :=
     update_where (\<lambda>r. ws_workflow_uuid r \<in> set workflowIDs) (\<lambda>r. r\<lparr>ws_was_forked_from := True\<rparr>) (t_workflow_status db)\<rparr>"

definition copy_tables :: "(string \<times> string) list \<Rightarrow> fork_mapping list \<Rightarrow> sysdb \<Rightarrow> sysdb" where
  "copy_tables replacementChildren mappings db = db\<lparr>
     t_operation_outputs := t_operation_outputs db @
       copy_prefix oo_workflow_uuid oo_function_id (rename_operation replacementChildren) mappings (t_operation_outputs db),
     t_streams := t_streams db @ copy_prefix st_workflow_uuid st_function_id rename_stream mappings (t_streams db),
     t_workflow_events_history := t_workflow_events_history db @
       copy_prefix eh_workflow_uuid eh_function_id rename_history mappings (t_workflow_events_history db),
     t_workflow_events := t_workflow_events db @
       latest_events mappings (t_workflow_events_history db)\<rparr>"

text \<open>
  The last two statements read the history table after the copy into it: the copied rows belong to the
  forks, so the join with the originals does not see them.
\<close>

definition bulkForkWorkflows ::
  "int \<Rightarrow> string list \<Rightarrow> string list \<Rightarrow> int list \<Rightarrow> fork_options \<Rightarrow> string list db_op" where
  "bulkForkWorkflows now originalWorkflowIDs forkedWorkflowIDs startSteps opts =
     (if originalWorkflowIDs = [] then ret []
      else if length originalWorkflowIDs \<noteq> length forkedWorkflowIDs \<or> length originalWorkflowIDs \<noteq> length startSteps
      then throw (PlainError ''originalWorkflowIDs, forkedWorkflowIDs, and startSteps must have the same length'')
      else transaction (and_then (gets (missing_workflow originalWorkflowIDs)) (\<lambda>missing.
        case missing of
          Some wid \<Rightarrow> throw (DBOSNonExistentWorkflowError (''Workflow '' @ wid @ '' does not exist''))
        | None \<Rightarrow>
            and_then (insert_forks now opts (zip originalWorkflowIDs forkedWorkflowIDs)) (\<lambda>_.
            and_then (modify (mark_forked_from originalWorkflowIDs)) (\<lambda>_.
            and_then (modify (copy_tables (fo_replacementChildren opts)
              (filter (\<lambda>(origID, forkID, startStep). startStep > 0)
                (zip originalWorkflowIDs (zip forkedWorkflowIDs startSteps))))) (\<lambda>_.
            ret forkedWorkflowIDs))))))"

definition forkWorkflow ::
  "int \<Rightarrow> string \<Rightarrow> string \<Rightarrow> int \<Rightarrow> string option \<Rightarrow> fork_options \<Rightarrow> string db_op" where
  "forkWorkflow now randomUUID workflowID startStep newWorkflowID opts =
     and_then (bulkForkWorkflows now [workflowID] [coalesce newWorkflowID randomUUID] [startStep] opts)
       (\<lambda>result. ret (hd result))"

record fork_mode =
  fm_fromLastFailure :: bool
  fm_fromLastStep :: bool
  fm_fromStep :: "int option"
  fm_fromStepName :: "string option"

definition mode_count :: "fork_mode \<Rightarrow> nat" where
  "mode_count mode = length (filter id
     [fm_fromLastFailure mode, fm_fromLastStep mode, fm_fromStep mode \<noteq> None, fm_fromStepName mode \<noteq> None])"

definition start_step_of :: "fork_mode \<Rightarrow> operation_outputs list \<Rightarrow> string \<Rightarrow> int option" where
  "start_step_of mode rows workflowID =
     (let own = filter (\<lambda>r. oo_workflow_uuid r = workflowID) rows in
      if fm_fromLastFailure mode
      then coalesce_opt (sql_max (map oo_function_id (filter (\<lambda>r. oo_error r \<noteq> None) own)))
             (sql_max (map oo_function_id own))
      else if fm_fromLastStep mode then sql_max (map oo_function_id own)
      else sql_max (map oo_function_id (filter (\<lambda>r. Some (oo_function_name r) = fm_fromStepName mode) own)))"

definition no_step_error :: "fork_mode \<Rightarrow> string \<Rightarrow> dbos_error" where
  "no_step_error mode wid = PlainError (case fm_fromStepName mode of
       Some name \<Rightarrow> ''Workflow '' @ wid @ '' has no step named '' @ [CHR 0x27] @ name @ [CHR 0x27]
     | None \<Rightarrow> ''Workflow '' @ wid @ '' has no steps'')"

definition forkFromFailure ::
  "int \<Rightarrow> string list \<Rightarrow> string list \<Rightarrow> fork_mode \<Rightarrow> fork_options \<Rightarrow> string list db_op" where
  "forkFromFailure now randomUUIDs workflowIDs mode opts db =
     (if mode_count mode \<noteq> 1
      then (Inl (PlainError ''Exactly one of fromLastFailure, fromLastStep, fromStep, or fromStepName must be specified''), db)
      else case fm_fromStep mode of
        Some s \<Rightarrow> bulkForkWorkflows now workflowIDs randomUUIDs (replicate (length workflowIDs) s) opts db
      | None \<Rightarrow>
          (case List.find (\<lambda>w. start_step_of mode (t_operation_outputs db) w = None) workflowIDs of
             Some wid \<Rightarrow> (Inl (no_step_error mode wid), db)
           | None \<Rightarrow> bulkForkWorkflows now workflowIDs randomUUIDs
               (map (\<lambda>w. the (start_step_of mode (t_operation_outputs db) w)) workflowIDs) opts db))"

section \<open>Export and import\<close>

record ExportedWorkflow =
  ex_workflow_status :: workflow_status
  ex_operation_outputs :: "operation_outputs list"
  ex_workflow_events :: "workflow_events list"
  ex_workflow_events_history :: "workflow_events_history list"
  ex_streams :: "streams list"

text \<open>The exported columns are all but the owner transaction ID. The queries of the source have no \<open>ORDER BY\<close>; here the rows come in the order of the tables,
  which is one of the orders the server may choose.\<close>

definition export_one :: "string \<Rightarrow> sysdb \<Rightarrow> ExportedWorkflow option" where
  "export_one wfID db =
     map_option (\<lambda>r. \<lparr>ex_workflow_status = r\<lparr>ws_owner_xid := None\<rparr>,
        ex_operation_outputs = filter (\<lambda>x. oo_workflow_uuid x = wfID) (t_operation_outputs db),
        ex_workflow_events = filter (\<lambda>x. we_workflow_uuid x = wfID) (t_workflow_events db),
        ex_workflow_events_history = filter (\<lambda>x. eh_workflow_uuid x = wfID) (t_workflow_events_history db),
        ex_streams = filter (\<lambda>x. st_workflow_uuid x = wfID) (t_streams db)\<rparr>)
      (find_row ws_workflow_uuid wfID (t_workflow_status db))"

fun export_all :: "string list \<Rightarrow> sysdb \<Rightarrow> dbos_error + ExportedWorkflow list" where
  "export_all [] db = Inr []"
| "export_all (wfID # ids) db =
     (case export_one wfID db of
        None \<Rightarrow> Inl (DBOSNonExistentWorkflowError (''Workflow '' @ wfID @ '' does not exist''))
      | Some e \<Rightarrow> map_sum id (Cons e) (export_all ids db))"

definition exportWorkflow :: "string \<Rightarrow> bool \<Rightarrow> ExportedWorkflow list db_op" where
  "exportWorkflow workflowID exportChildren db =
     (export_all (workflowID # (if exportChildren then getWorkflowChildren workflowID db else [])) db, db)"

definition insert_status_row :: "workflow_status \<Rightarrow> unit db_op" where
  "insert_status_row r db =
     (if ws_workflow_uuid r \<in> workflow_ids db \<or> (\<exists>r'\<in>set (t_workflow_status db). dedup_conflict r r')
      then (Inl (PgError ''23505''), db)
      else (Inr (), db\<lparr>t_workflow_status := t_workflow_status db @ [r]\<rparr>))"

definition insert_child_row ::
  "('r \<Rightarrow> 'k) \<Rightarrow> ('r \<Rightarrow> string) \<Rightarrow> (sysdb \<Rightarrow> 'r list) \<Rightarrow> (('r list \<Rightarrow> 'r list) \<Rightarrow> sysdb \<Rightarrow> sysdb) \<Rightarrow> 'r \<Rightarrow> unit db_op" where
  "insert_child_row key owner table upd r db =
     (if key r \<in> key ` set (table db) then (Inl (PgError ''23505''), db)
      else if owner r \<notin> workflow_ids db then (Inl (PgError ''23503''), db)
      else (Inr (), upd (\<lambda>rows. rows @ [r]) db))"

definition import_one :: "ExportedWorkflow \<Rightarrow> unit db_op" where
  "import_one e =
     and_then (insert_status_row ((ex_workflow_status e)\<lparr>ws_owner_xid := None\<rparr>)) (\<lambda>_.
     and_then (for_each (insert_child_row oo_pk oo_workflow_uuid t_operation_outputs t_operation_outputs_update)
       (ex_operation_outputs e)) (\<lambda>_.
     and_then (for_each (insert_child_row we_pk we_workflow_uuid t_workflow_events t_workflow_events_update)
       (ex_workflow_events e)) (\<lambda>_.
     and_then (for_each (insert_child_row eh_pk eh_workflow_uuid t_workflow_events_history t_workflow_events_history_update)
       (ex_workflow_events_history e)) (\<lambda>_.
     for_each (insert_child_row st_pk st_workflow_uuid t_streams t_streams_update) (ex_streams e)))))"

definition importWorkflow :: "ExportedWorkflow list \<Rightarrow> unit db_op" where
  "importWorkflow workflows = transaction (for_each import_one workflows)"

section \<open>What a copied prefix gives\<close>

lemma unique_key_append:
  "unique_key key (xs @ ys) \<longleftrightarrow> unique_key key xs \<and> unique_key key ys \<and> key ` set xs \<inter> key ` set ys = {}"
  by (auto simp: unique_key_def)

lemma unique_key_appendI:
  "unique_key key xs \<Longrightarrow> unique_key key ys \<Longrightarrow> (\<And>x y. x \<in> set xs \<Longrightarrow> y \<in> set ys \<Longrightarrow> key x \<noteq> key y) \<Longrightarrow>
    unique_key key (xs @ ys)"
  by (auto simp: unique_key_append)

locale forkable_table =
  fixes key :: "'r \<Rightarrow> string \<times> 's"
    and owner :: "'r \<Rightarrow> string"
    and step :: "'r \<Rightarrow> int"
    and rename :: "string \<Rightarrow> 'r \<Rightarrow> 'r"
  assumes key_owner: "fst (key r) = owner r"
    and key_rename: "key (rename f r) = (f, snd (key r))"
begin

lemma owner_rename [simp]: "owner (rename f r) = f"
  using key_owner key_rename by (metis fst_conv)

lemma copy_owner: "r \<in> set (copy_prefix owner step rename ms rows) \<Longrightarrow> owner r \<in> (fst \<circ> snd) ` set ms"
  by (force simp: copy_prefix_def)

lemma key_part_unique:
  assumes "unique_key key rows"
  shows "unique_key key (map (rename f) (filter (\<lambda>r. owner r = orig \<and> P r) rows))"
proof -
  have "inj_on (\<lambda>r. (f, snd (key r))) (set (filter (\<lambda>r. owner r = orig \<and> P r) rows))"
  proof (rule inj_onI)
    fix x y
    assume x: "x \<in> set (filter (\<lambda>r. owner r = orig \<and> P r) rows)"
      and y: "y \<in> set (filter (\<lambda>r. owner r = orig \<and> P r) rows)"
      and eq: "(f, snd (key x)) = (f, snd (key y))"
    have "key x = key y" using x y eq key_owner [of x] key_owner [of y] by (simp add: prod_eq_iff)
    then show "x = y" using unique_key_eq [OF assms] x y by auto
  qed
  moreover have "distinct (filter (\<lambda>r. owner r = orig \<and> P r) rows)"
    using assms by (simp add: unique_key_def distinct_map)
  ultimately show ?thesis by (simp add: unique_key_def key_rename distinct_map comp_def)
qed

lemma copy_unique:
  assumes "unique_key key rows" and "distinct (map (fst \<circ> snd) ms)" and "(fst \<circ> snd) ` set ms \<inter> owner ` set rows = {}"
  shows "unique_key key (rows @ copy_prefix owner step rename ms rows)"
proof -
  have "unique_key key (copy_prefix owner step rename ms rows)"
    using assms(2)
  proof (induction ms)
    case (Cons m ms)
    obtain orig fork start where m: "m = (orig, fork, start)" by (cases m)
    have "fst (key r) \<noteq> fork" if "r \<in> set (copy_prefix owner step rename ms rows)" for r
      using copy_owner [OF that] Cons.prems m key_owner by auto
    then have apart: "key ` set (map (rename fork) xs) \<inter> key ` set (copy_prefix owner step rename ms rows) = {}" for xs
      by (auto simp: key_rename) (metis fst_conv)
    have "copy_prefix owner step rename (m # ms) rows =
        map (rename fork) (filter (\<lambda>r. owner r = orig \<and> step r < start) rows) @ copy_prefix owner step rename ms rows"
      by (simp add: copy_prefix_def m)
    with Cons key_part_unique [OF assms(1)] apart show ?case by (simp only: unique_key_append) simp
  qed (simp add: copy_prefix_def)
  moreover have "key r \<noteq> key r'" if "r \<in> set rows" "r' \<in> set (copy_prefix owner step rename ms rows)" for r r'
    using copy_owner [OF that(2)] that(1) assms(3) key_owner by (metis disjoint_iff imageI)
  then have "key ` set rows \<inter> key ` set (copy_prefix owner step rename ms rows) = {}" by blast
  ultimately show ?thesis using assms(1) by (simp add: unique_key_append)
qed

lemma copy_lookup:
  assumes "fork \<notin> owner ` set rows"
  shows "find_row key (fork, s) (rows @ copy_prefix owner step rename [(orig, fork, start)] rows) =
    Option.bind (List.find (\<lambda>r. key r = (orig, s) \<and> step r < start) rows) (\<lambda>r. Some (rename fork r))"
proof -
  have "key r \<noteq> (fork, s)" if "r \<in> set rows" for r using assms that key_owner [of r] by auto
  then have "find_row key (fork, s) rows = None" by (rule find_row_NoneI)
  moreover have "find_row key (fork, s) (map (rename fork) (filter (\<lambda>r. owner r = orig \<and> step r < start) rs)) =
      Option.bind (List.find (\<lambda>r. key r = (orig, s) \<and> step r < start) rs) (\<lambda>r. Some (rename fork r))" for rs
    using key_owner by (induction rs) (auto simp: key_rename prod_eq_iff)
  ultimately show ?thesis by (simp add: find_row_append copy_prefix_def)
qed

lemma copied_rows:
  assumes "fork \<notin> owner ` set rows"
  shows "filter (\<lambda>r. owner r = fork) (rows @ copy_prefix owner step rename [(orig, fork, start)] rows) =
      map (rename fork) (filter (\<lambda>r. owner r = orig \<and> step r < start) rows)"
    and "filter (\<lambda>r. owner r \<noteq> fork) (rows @ copy_prefix owner step rename [(orig, fork, start)] rows) = rows"
proof -
  have old: "filter (\<lambda>r. owner r = fork) rows = []" "filter (\<lambda>r. owner r \<noteq> fork) rows = rows"
    using assms by (auto simp: filter_empty_conv filter_id_conv)
  have "filter (\<lambda>r. owner r = fork) (map (rename fork) rs) = map (rename fork) rs" "filter (\<lambda>r. owner r \<noteq> fork) (map (rename fork) rs) = []" for rs
    by (auto simp: filter_empty_conv filter_id_conv)
  then show "filter (\<lambda>r. owner r = fork) (rows @ copy_prefix owner step rename [(orig, fork, start)] rows) =
      map (rename fork) (filter (\<lambda>r. owner r = orig \<and> step r < start) rows)"
    and "filter (\<lambda>r. owner r \<noteq> fork) (rows @ copy_prefix owner step rename [(orig, fork, start)] rows) = rows"
    using old by (simp_all add: copy_prefix_def)
qed

lemma copy_lookup_other:
  assumes "fst k \<notin> (fst \<circ> snd) ` set ms"
  shows "find_row key k (rows @ copy_prefix owner step rename ms rows) = find_row key k rows"
proof -
  have "key r \<noteq> k" if "r \<in> set (copy_prefix owner step rename ms rows)" for r
    using assms copy_owner [OF that] key_owner [of r] by metis
  then have "find_row key k (copy_prefix owner step rename ms rows) = None" by (rule find_row_NoneI)
  then show ?thesis by (simp add: find_row_append split: option.splits)
qed

end

interpretation fork_operations: forkable_table oo_pk oo_workflow_uuid oo_function_id "rename_operation repl" for repl
  by unfold_locales (simp_all add: oo_pk_def rename_operation_def)

interpretation fork_streams: forkable_table st_pk st_workflow_uuid st_function_id rename_stream
  by unfold_locales (simp_all add: st_pk_def rename_stream_def)

interpretation fork_history: forkable_table eh_pk eh_workflow_uuid eh_function_id rename_history
  by unfold_locales (simp_all add: eh_pk_def rename_history_def)

section \<open>The latest events\<close>

lemma joined_history_mapping:
  "x \<in> set (joined_history ms hist) \<longleftrightarrow>
    (\<exists>start. (eh_workflow_uuid (snd x), fst x, start) \<in> set ms \<and> snd x \<in> set hist \<and> eh_function_id (snd x) < start)"
proof -
  have "x \<in> set (joined_history ms hist) \<longleftrightarrow> (\<exists>m\<in>set ms. fst (snd m) = fst x \<and> snd x \<in> set hist \<and>
      eh_workflow_uuid (snd x) = fst m \<and> eh_function_id (snd x) < snd (snd m))"
    by (cases x) (auto simp: joined_history_def case_prod_beta)
  then show ?thesis by (metis fst_conv prod.collapse snd_conv)
qed

lemma first_ranked_props:
  assumes "p \<in> history_partition ` set joined"
  shows "first_ranked joined p \<in> set joined" and "history_partition (first_ranked joined p) = p"
    and "\<And>x. x \<in> set joined \<Longrightarrow> history_partition x = p \<Longrightarrow>
      eh_function_id (snd x) \<le> eh_function_id (snd (first_ranked joined p))"
proof -
  let ?xs = "filter (\<lambda>x. history_partition x = p) joined"
  have "?xs \<noteq> []" using assms by (auto simp: filter_empty_conv)
  then obtain n rest where n: "sort_key (\<lambda>x. - eh_function_id (snd x)) ?xs = n # rest"
    by (metis list.exhaust set_empty set_sort)
  have "first_ranked joined p = n" by (simp add: first_ranked_def n)
  with sort_key_hd_least [OF n] show "first_ranked joined p \<in> set joined"
    and "history_partition (first_ranked joined p) = p"
    and "\<And>x. x \<in> set joined \<Longrightarrow> history_partition x = p \<Longrightarrow>
      eh_function_id (snd x) \<le> eh_function_id (snd (first_ranked joined p))" by auto
qed

lemma latest_events_owner:
  "e \<in> set (latest_events ms hist) \<Longrightarrow> we_workflow_uuid e \<in> (fst \<circ> snd) ` set ms"
proof -
  assume "e \<in> set (latest_events ms hist)"
  then have "e \<in> (\<lambda>p. let (fork_id, h) = first_ranked (joined_history ms hist) p in
      \<lparr>we_workflow_uuid = fork_id, we_key = eh_key h, we_value = eh_value h, we_serialization = eh_serialization h\<rparr>) `
      history_partition ` set (joined_history ms hist)"
    by (simp add: latest_events_def Let_def)
  then obtain p where p: "p \<in> history_partition ` set (joined_history ms hist)"
    and "e = (let (fork_id, h) = first_ranked (joined_history ms hist) p in
      \<lparr>we_workflow_uuid = fork_id, we_key = eh_key h, we_value = eh_value h, we_serialization = eh_serialization h\<rparr>)"
    by (rule imageE)
  then have e: "we_workflow_uuid e = fst (first_ranked (joined_history ms hist) p)" by (simp add: case_prod_beta)
  from first_ranked_props(1) [OF p] obtain orig start
    where "(orig, fst (first_ranked (joined_history ms hist) p), start) \<in> set ms"
    unfolding joined_history_mapping by blast
  with e show ?thesis by force
qed

lemma latest_events_unique:
  assumes "distinct (map (fst \<circ> snd) ms)"
  shows "unique_key we_pk (latest_events ms hist)"
proof -
  let ?j = "joined_history ms hist"
  let ?f = "\<lambda>p. let (fork_id, h) = first_ranked ?j p in
    \<lparr>we_workflow_uuid = fork_id, we_key = eh_key h, we_value = eh_value h, we_serialization = eh_serialization h\<rparr>"
  have one: "o1 = o2" if "(o1, f, s1) \<in> set ms" "(o2, f, s2) \<in> set ms" for o1 o2 f s1 s2
    using assms that by (metis (no_types, lifting) Pair_inject comp_apply distinct_map fst_conv inj_on_def snd_conv)
  have "inj_on (we_pk \<circ> ?f) (set (remdups (map history_partition ?j)))"
  proof (rule inj_onI)
    fix p q assume p: "p \<in> set (remdups (map history_partition ?j))" and q: "q \<in> set (remdups (map history_partition ?j))"
      and eq: "(we_pk \<circ> ?f) p = (we_pk \<circ> ?f) q"
    note P = first_ranked_props(1,2) [of p ?j] and Q = first_ranked_props(1,2) [of q ?j]
    have same: "fst (first_ranked ?j p) = fst (first_ranked ?j q)"
      "eh_key (snd (first_ranked ?j p)) = eh_key (snd (first_ranked ?j q))"
      using eq by (auto simp: we_pk_def split: prod.splits)
    have "eh_workflow_uuid (snd (first_ranked ?j p)) = eh_workflow_uuid (snd (first_ranked ?j q))"
      using P(1) Q(1) p q same(1) one joined_history_mapping by (metis (no_types, lifting) set_map set_remdups)
    with same P(2) Q(2) p q show "p = q" by (simp add: history_partition_def prod_eq_iff)
  qed
  then show ?thesis
    by (simp add: unique_key_def latest_events_def Let_def distinct_map)
qed

definition event_of :: "string \<times> workflow_events_history \<Rightarrow> workflow_events" where
  "event_of x = \<lparr>we_workflow_uuid = fst x, we_key = eh_key (snd x), we_value = eh_value (snd x),
     we_serialization = eh_serialization (snd x)\<rparr>"

lemma latest_events_mem:
  "e \<in> set (latest_events ms hist) \<longleftrightarrow>
    (\<exists>p\<in>history_partition ` set (joined_history ms hist). e = event_of (first_ranked (joined_history ms hist) p))"
proof -
  have "latest_events ms hist = map (\<lambda>p. event_of (first_ranked (joined_history ms hist) p))
      (remdups (map history_partition (joined_history ms hist)))"
    by (simp add: latest_events_def Let_def event_of_def case_prod_beta)
  then show ?thesis by (simp only: set_map set_remdups) blast
qed

section \<open>Forking keeps the constraints\<close>

lemma fork_row_frame [simp]:
  "ws_workflow_uuid (fork_row now opts ws f) = f" "ws_deduplication_id (fork_row now opts ws f) = None"
  by (simp_all add: fork_row_def)

lemma insert_forks_success:
  assumes "insert_forks now opts pairs db = (Inr (), db1)" and "fst ` set pairs \<subseteq> workflow_ids db"
  shows "\<exists>new. db1 = db\<lparr>t_workflow_status := t_workflow_status db @ new\<rparr> \<and> map ws_workflow_uuid new = map snd pairs \<and>
    (\<forall>r\<in>set new. ws_deduplication_id r = None) \<and> unique_key ws_workflow_uuid (t_workflow_status db @ new)"
proof -
  let ?mk = "\<lambda>(origID, forkID). map_option (\<lambda>ws. fork_row now opts ws forkID)
      (find_row ws_workflow_uuid origID (t_workflow_status db))"
  have "map ws_workflow_uuid (List.map_filter ?mk pairs) = map snd pairs"
    using assms(2) by (induction pairs) (auto simp: List.map_filter_simps workflow_ids_iff split: option.splits)
  moreover have "\<forall>r\<in>set (List.map_filter ?mk pairs). ws_deduplication_id r = None"
    by (auto simp: set_map_filter_iff)
  ultimately show ?thesis
    using assms(1) by (auto simp: insert_forks_def Let_def split: if_splits)
qed

lemma db_wf_insert_forks:
  assumes "db_wf db" and "\<forall>r\<in>set new. ws_deduplication_id r = None"
    and "unique_key ws_workflow_uuid (t_workflow_status db @ new)"
  shows "db_wf (db\<lparr>t_workflow_status := t_workflow_status db @ new\<rparr>)"
proof (rule db_wf_extend_status [OF assms(1,3)])
  have "dedup_unique new" using assms(2) by (induction new) (auto simp: dedup_conflict_def)
  with assms(1,2) show "dedup_unique (t_workflow_status db @ new)"
    by (auto simp: dedup_unique_append db_wf_def dedup_conflict_def)
qed (auto simp: workflow_ids_def)

lemma mark_forked_from_keeps: "db_wf db \<Longrightarrow> db_wf (mark_forked_from ids db)"
  unfolding mark_forked_from_def by (rule db_wf_update_status_frame) simp_all

lemma mark_forked_from_frame [simp]:
  "workflow_ids (mark_forked_from ids db) = workflow_ids db"
  "t_operation_outputs (mark_forked_from ids db) = t_operation_outputs db"
  "t_streams (mark_forked_from ids db) = t_streams db"
  "t_workflow_events (mark_forked_from ids db) = t_workflow_events db"
  "t_workflow_events_history (mark_forked_from ids db) = t_workflow_events_history db"
  by (simp_all add: mark_forked_from_def)

text \<open>The owners of the rows hanging off \<open>workflow_status\<close>.\<close>

definition child_owners :: "sysdb \<Rightarrow> string set" where
  "child_owners db = oo_workflow_uuid ` set (t_operation_outputs db) \<union> st_workflow_uuid ` set (t_streams db) \<union>
     eh_workflow_uuid ` set (t_workflow_events_history db) \<union> we_workflow_uuid ` set (t_workflow_events db)"

lemma child_owners_ids: "db_wf db \<Longrightarrow> child_owners db \<subseteq> workflow_ids db"
  using db_wf_refs [of db] by (auto simp: child_owners_def)

lemma child_owners_mark [simp]: "child_owners (mark_forked_from ids db) = child_owners db"
  by (simp add: child_owners_def)

lemma copy_tables_keeps:
  assumes "db_wf db" and "distinct (map (fst \<circ> snd) ms)" and "(fst \<circ> snd) ` set ms \<subseteq> workflow_ids db"
    and "(fst \<circ> snd) ` set ms \<inter> child_owners db = {}"
  shows "db_wf (copy_tables repl ms db)"
proof -
  note keys = db_wf_keys [OF assms(1)] and refs = db_wf_refs [OF assms(1)]
  have oo: "unique_key oo_pk (t_operation_outputs db @
      copy_prefix oo_workflow_uuid oo_function_id (rename_operation repl) ms (t_operation_outputs db))"
    using assms(2,4) by (intro fork_operations.copy_unique keys) (auto simp: child_owners_def)
  have st: "unique_key st_pk (t_streams db @ copy_prefix st_workflow_uuid st_function_id rename_stream ms (t_streams db))"
    using assms(2,4) by (intro fork_streams.copy_unique keys) (auto simp: child_owners_def)
  have eh: "unique_key eh_pk (t_workflow_events_history db @
      copy_prefix eh_workflow_uuid eh_function_id rename_history ms (t_workflow_events_history db))"
    using assms(2,4) by (intro fork_history.copy_unique keys) (auto simp: child_owners_def)
  have "we_pk x \<noteq> we_pk e"
    if "x \<in> set (t_workflow_events db)" "e \<in> set (latest_events ms (t_workflow_events_history db))" for e x
  proof -
    have "we_workflow_uuid x \<in> child_owners db" using that(1) by (simp add: child_owners_def)
    then have "we_workflow_uuid x = we_workflow_uuid e \<Longrightarrow> we_workflow_uuid e \<in> (fst \<circ> snd) ` set ms \<inter> child_owners db"
      using latest_events_owner [OF that(2)] by (simp only: Int_iff)
    then show ?thesis unfolding assms(4) by (auto simp: we_pk_def)
  qed
  then have we: "unique_key we_pk (t_workflow_events db @ latest_events ms (t_workflow_events_history db))"
    by (intro unique_key_appendI keys latest_events_unique [OF assms(2)])
  have sub: "oo_workflow_uuid ` set (copy_prefix oo_workflow_uuid oo_function_id (rename_operation repl) ms (t_operation_outputs db)) \<subseteq> workflow_ids db"
    "st_workflow_uuid ` set (copy_prefix st_workflow_uuid st_function_id rename_stream ms (t_streams db)) \<subseteq> workflow_ids db"
    "eh_workflow_uuid ` set (copy_prefix eh_workflow_uuid eh_function_id rename_history ms (t_workflow_events_history db)) \<subseteq> workflow_ids db"
    "we_workflow_uuid ` set (latest_events ms (t_workflow_events_history db)) \<subseteq> workflow_ids db"
    using assms(3) fork_operations.copy_owner fork_streams.copy_owner fork_history.copy_owner latest_events_owner
    by (meson image_subsetI subsetD)+
  show ?thesis
    unfolding copy_tables_def
    using assms(1) oo st eh we refs sub
    by (intro db_wf_replace) (simp_all add: image_Un)
qed

lemma bulkFork_success:
  assumes "bulkForkWorkflows now origs forks steps opts db = (Inr ids, db')" and "origs \<noteq> []" and "db_wf db"
  shows "\<exists>new db1. db1 = db\<lparr>t_workflow_status := t_workflow_status db @ new\<rparr> \<and> db_wf db1 \<and>
    map ws_workflow_uuid new = forks \<and> distinct forks \<and> set forks \<inter> workflow_ids db = {} \<and> ids = forks \<and>
    set origs \<subseteq> workflow_ids db \<and> length origs = length forks \<and> length origs = length steps \<and>
    insert_forks now opts (zip origs forks) db = (Inr (), db1) \<and>
    db' = copy_tables (fo_replacementChildren opts)
      (filter (\<lambda>(origID, forkID, startStep). startStep > 0) (zip origs (zip forks steps))) (mark_forked_from origs db1)"
proof -
  have len: "length origs = length forks" "length origs = length steps"
    using assms(1,2) by (auto simp: bulkForkWorkflows_def split: if_splits)
  then obtain db1 where miss: "missing_workflow origs db = None" and ids: "ids = forks"
    and ins: "insert_forks now opts (zip origs forks) db = (Inr (), db1)"
    and db': "db' = copy_tables (fo_replacementChildren opts)
      (filter (\<lambda>(origID, forkID, startStep). startStep > 0) (zip origs (zip forks steps))) (mark_forked_from origs db1)"
    using assms(1,2) by (auto simp: bulkForkWorkflows_def and_then_success split: option.splits)
  have sub: "set origs \<subseteq> workflow_ids db" using miss by (auto simp: missing_workflow_def find_None_iff)
  then have "fst ` set (zip origs forks) \<subseteq> workflow_ids db" by (auto dest: set_zip_leftD)
  from insert_forks_success [OF ins this] obtain new where new: "db1 = db\<lparr>t_workflow_status := t_workflow_status db @ new\<rparr>"
    "map ws_workflow_uuid new = forks" "\<forall>r\<in>set new. ws_deduplication_id r = None"
    "unique_key ws_workflow_uuid (t_workflow_status db @ new)"
    using len by auto
  then have "distinct forks" "set forks \<inter> workflow_ids db = {}"
    unfolding unique_key_append by (auto simp: unique_key_def workflow_ids_def simp flip: set_map)
  with new db_wf_insert_forks [OF assms(3) new(3,4)] len ids ins db' sub show ?thesis by blast
qed

lemma fork_mappings_forks:
  assumes "length origs = length forks" "length origs = length steps" "distinct forks"
  shows "distinct (map (fst \<circ> snd) (filter P (zip origs (zip forks steps))))"
    and "(fst \<circ> snd) ` set (filter P (zip origs (zip forks steps))) \<subseteq> set forks"
proof -
  have "map (fst \<circ> snd) (zip origs (zip forks steps)) = forks"
    using assms by (simp flip: map_map)
  then show "distinct (map (fst \<circ> snd) (filter P (zip origs (zip forks steps))))"
    using assms(3) by (metis distinct_map_filter)
  show "(fst \<circ> snd) ` set (filter P (zip origs (zip forks steps))) \<subseteq> set forks"
    using \<open>map (fst \<circ> snd) (zip origs (zip forks steps)) = forks\<close> by (metis filter_is_subset image_mono list.set_map)
qed

lemma bulkForkWorkflows_keeps [keep_rules]: "preserves db_wf (bulkForkWorkflows now origs forks steps opts)"
proof (rule preservesI)
  fix db assume wf: "db_wf db"
  obtain r db' where run: "bulkForkWorkflows now origs forks steps opts db = (r, db')" by fastforce
  show "db_wf (snd (bulkForkWorkflows now origs forks steps opts db))"
  proof (cases "\<exists>ids. r = Inr ids \<and> origs \<noteq> []")
    case True
    then obtain ids where "bulkForkWorkflows now origs forks steps opts db = (Inr ids, db')" "origs \<noteq> []" using run by blast
    from bulkFork_success [OF this wf] obtain new db1 where f: "db1 = db\<lparr>t_workflow_status := t_workflow_status db @ new\<rparr>"
      "db_wf db1" "map ws_workflow_uuid new = forks" "distinct forks" "set forks \<inter> workflow_ids db = {}"
      "length origs = length forks" "length origs = length steps"
      "db' = copy_tables (fo_replacementChildren opts)
        (filter (\<lambda>(origID, forkID, startStep). startStep > 0) (zip origs (zip forks steps))) (mark_forked_from origs db1)"
      by blast
    have "child_owners db1 = child_owners db" by (simp add: f(1) child_owners_def)
    moreover have "set forks \<subseteq> workflow_ids db1" using f(3) by (auto simp: f(1) workflow_ids_def)
    moreover define ms where "ms = filter (\<lambda>(origID, forkID, startStep). startStep > 0) (zip origs (zip forks steps))"
    have "distinct (map (fst \<circ> snd) ms)" "(fst \<circ> snd) ` set ms \<subseteq> set forks"
      using fork_mappings_forks [OF f(6,7,4)] unfolding ms_def by blast+
    moreover have "set forks \<inter> child_owners db = {}" using f(5) child_owners_ids [OF wf] by blast
    ultimately have "db_wf (copy_tables (fo_replacementChildren opts) ms (mark_forked_from origs db1))"
      by (intro copy_tables_keeps mark_forked_from_keeps f(2)) (simp_all, blast+)
    with run f(8) show ?thesis by (simp add: ms_def)
  next
    case False
    then have "db' = db" using run
      by (cases r) (auto simp: bulkForkWorkflows_def transaction_failure split: if_splits)
    with run wf show ?thesis by simp
  qed
qed

lemma forkWorkflow_keeps [keep_rules]: "preserves db_wf (forkWorkflow now u w s n opts)"
  unfolding forkWorkflow_def by (intro keep_rules)

lemma forkFromFailure_keeps [keep_rules]: "preserves db_wf (forkFromFailure now us ws mode opts)"
proof (rule preservesI)
  fix db assume wf: "db_wf db"
  have "db_wf (snd (bulkForkWorkflows now ws us steps opts db))" for steps
    using bulkForkWorkflows_keeps wf by (simp add: preserves_def)
  with wf show "db_wf (snd (forkFromFailure now us ws mode opts db))"
    by (auto simp: forkFromFailure_def split: option.splits)
qed

section \<open>Importing child rows\<close>

locale child_table =
  fixes key :: "'r \<Rightarrow> 'k"
    and owner :: "'r \<Rightarrow> string"
    and table :: "sysdb \<Rightarrow> 'r list"
    and upd :: "('r list \<Rightarrow> 'r list) \<Rightarrow> sysdb \<Rightarrow> sysdb"
  assumes table_upd: "table (upd f db) = f (table db)"
    and upd_upd: "upd f (upd g db) = upd (f \<circ> g) db"
    and upd_ids: "workflow_ids (upd f db) = workflow_ids db"
    and upd_wf: "db_wf db \<Longrightarrow> unique_key key (f (table db)) \<Longrightarrow> owner ` set (f (table db)) \<subseteq> workflow_ids db \<Longrightarrow>
      db_wf (upd f db)"
    and wf_table: "db_wf db \<Longrightarrow> unique_key key (table db) \<and> owner ` set (table db) \<subseteq> workflow_ids db"
    and upd_id: "upd (\<lambda>rows. rows) db = db"
begin

lemma insert_child_row_keeps: "preserves db_wf (insert_child_row key owner table upd r)"
proof (rule preservesI)
  fix db assume "db_wf db"
  with wf_table [OF this] show "db_wf (snd (insert_child_row key owner table upd r db))"
    by (simp add: insert_child_row_def upd_wf)
qed

lemma insert_all:
  "unique_key key rows \<Longrightarrow> key ` set rows \<inter> key ` set (table db) = {} \<Longrightarrow> owner ` set rows \<subseteq> workflow_ids db \<Longrightarrow>
    for_each (insert_child_row key owner table upd) rows db = (Inr (), upd (\<lambda>old. old @ rows) db)"
proof (induction rows arbitrary: db)
  case (Cons r rows)
  have "insert_child_row key owner table upd r db = (Inr (), upd (\<lambda>old. old @ [r]) db)"
    using Cons.prems by (simp add: insert_child_row_def)
  moreover have "for_each (insert_child_row key owner table upd) rows (upd (\<lambda>old. old @ [r]) db) =
      (Inr (), upd (\<lambda>old. old @ rows) (upd (\<lambda>old. old @ [r]) db))"
    using Cons.prems by (intro Cons.IH) (simp_all add: table_upd upd_ids unique_key_def)
  ultimately show ?case by (simp add: upd_upd comp_def)
qed (simp add: upd_id)

end

interpretation operations_child: child_table oo_pk oo_workflow_uuid t_operation_outputs t_operation_outputs_update
proof (unfold_locales, goal_cases)
  case (4 db f) then show ?case using db_wf_operation_outputs [of db "f (t_operation_outputs db)"] by (cases db) simp
qed (auto simp: db_wf_keys dest: db_wf_refs)

interpretation events_child: child_table we_pk we_workflow_uuid t_workflow_events t_workflow_events_update
proof (unfold_locales, goal_cases)
  case (4 db f) then show ?case using db_wf_workflow_events [of db "f (t_workflow_events db)"] by (cases db) simp
qed (auto simp: db_wf_keys dest: db_wf_refs)

interpretation history_child: child_table eh_pk eh_workflow_uuid t_workflow_events_history t_workflow_events_history_update
proof (unfold_locales, goal_cases)
  case (4 db f) then show ?case using db_wf_workflow_events_history [of db "f (t_workflow_events_history db)"] by (cases db) simp
qed (auto simp: db_wf_keys dest: db_wf_refs)

interpretation streams_child: child_table st_pk st_workflow_uuid t_streams t_streams_update
proof (unfold_locales, goal_cases)
  case (4 db f) then show ?case using db_wf_streams [of db "f (t_streams db)"] by (cases db) simp
qed (auto simp: db_wf_keys dest: db_wf_refs)

lemma insert_status_row_keeps [keep_rules]: "preserves db_wf (insert_status_row r)"
  by (rule preservesI) (auto simp: insert_status_row_def intro!: db_wf_insert_status)

lemmas child_keeps [keep_rules] =
  operations_child.insert_child_row_keeps events_child.insert_child_row_keeps
  history_child.insert_child_row_keeps streams_child.insert_child_row_keeps

lemma import_one_keeps [keep_rules]: "preserves db_wf (import_one e)"
  unfolding import_one_def by (intro keep_rules)

lemma importWorkflow_keeps [keep_rules]: "preserves db_wf (importWorkflow es)"
  unfolding importWorkflow_def by (intro keep_rules)

lemma exportWorkflow_keeps [keep_rules]: "preserves I (exportWorkflow w c)"
  by (rule preservesI) (simp add: exportWorkflow_def)

lemma unique_key_filter: "unique_key key rows \<Longrightarrow> unique_key key (filter P rows)"
  by (simp add: unique_key_def distinct_map_filter)

section \<open>Properties\<close>

lemma forkWorkflow_success:
  assumes "forkWorkflow now u w start new opts db = (Inr fork, db')" and "db_wf db"
  shows "\<exists>orig db1. fork = coalesce new u \<and> fork \<notin> workflow_ids db \<and>
    find_row ws_workflow_uuid w (t_workflow_status db) = Some orig \<and>
    db1 = db\<lparr>t_workflow_status := t_workflow_status db @ [fork_row now opts orig fork]\<rparr> \<and>
    db' = copy_tables (fo_replacementChildren opts) (if start > 0 then [(w, fork, start)] else []) (mark_forked_from [w] db1)"
proof -
  let ?f = "coalesce new u"
  have bulk: "bulkForkWorkflows now [w] [?f] [start] opts db = (Inr [fork], db')"
    and fork: "fork = ?f"
    using assms(1) by (auto simp: forkWorkflow_def and_then_success bulkForkWorkflows_def split: option.splits)
  have ne: "[w] \<noteq> []" by simp
  from bulkFork_success [OF bulk ne assms(2)] obtain db1 where
    f: "?f \<notin> workflow_ids db" "w \<in> workflow_ids db" "insert_forks now opts [(w, ?f)] db = (Inr (), db1)"
      "db' = copy_tables (fo_replacementChildren opts) (if start > 0 then [(w, ?f, start)] else []) (mark_forked_from [w] db1)"
    by auto
  then obtain orig where orig: "find_row ws_workflow_uuid w (t_workflow_status db) = Some orig"
    by (auto simp: workflow_ids_iff)
  with f(3) have "db1 = db\<lparr>t_workflow_status := t_workflow_status db @ [fork_row now opts orig ?f]\<rparr>"
    by (auto simp: insert_forks_def Let_def List.map_filter_simps split: if_splits)
  with f orig fork show ?thesis by blast
qed

lemma oo_pk_eq: "oo_pk r = (w, f) \<longleftrightarrow> oo_workflow_uuid r = w \<and> oo_function_id r = f"
  by (simp add: oo_pk_def)

text \<open>With a single mapping, the copied event of a key is the one of the last step before the start step.\<close>

lemma latest_events_lookup:
  assumes uniq: "unique_key eh_pk hist"
    and h: "h \<in> set hist" "eh_workflow_uuid h = w" "eh_function_id h < start"
    and max: "\<forall>h'\<in>set hist. eh_workflow_uuid h' = w \<and> eh_key h' = eh_key h \<and>
         eh_function_id h' < start \<longrightarrow> eh_function_id h' \<le> eh_function_id h"
  shows "find_row we_pk (fork, eh_key h) (latest_events [(w, fork, start)] hist) = Some (event_of (fork, h))"
proof -
  let ?ms = "[(w, fork, start)]"
  let ?j = "joined_history ?ms hist"
  define x where "x = first_ranked ?j (w, eh_key h)"
  have j: "y \<in> set ?j \<longleftrightarrow> fst y = fork \<and> snd y \<in> set hist \<and> eh_workflow_uuid (snd y) = w \<and> eh_function_id (snd y) < start" for y
    unfolding joined_history_mapping by auto
  have hj: "(fork, h) \<in> set ?j" using h by (simp add: j)
  have p: "(w, eh_key h) \<in> history_partition ` set ?j"
    by (rule image_eqI [OF _ hj]) (simp add: history_partition_def h(2))
  note R = first_ranked_props [OF p, folded x_def]
  have xh: "snd x \<in> set hist" "eh_workflow_uuid (snd x) = w" "eh_key (snd x) = eh_key h" "fst x = fork"
    "eh_function_id (snd x) < start"
    using R(1,2) by (auto simp: j history_partition_def)
  have "eh_function_id (snd x) = eh_function_id h"
    using max xh R(3) [OF hj] h(2) by (fastforce simp: history_partition_def intro: antisym)
  then have x: "x = (fork, h)"
    using unique_key_eq [OF uniq xh(1) h(1)] xh h(2) by (simp add: eh_pk_def prod_eq_iff)
  then have "event_of (fork, h) \<in> set (latest_events ?ms hist)"
    unfolding latest_events_mem using p x_def by (intro bexI [of _ "(w, eh_key h)"]) simp_all
  moreover have "we_pk (event_of (fork, h)) = (fork, eh_key h)" by (simp add: event_of_def we_pk_def)
  ultimately show ?thesis using find_row_unique [OF latest_events_unique, of ?ms "event_of (fork, h)"] by simp
qed

text \<open>The value an event had when the start step was reached: the last one set before it.\<close>

definition last_set_before :: "string \<Rightarrow> int \<Rightarrow> string \<Rightarrow> workflow_events_history list \<Rightarrow> workflow_events_history \<Rightarrow> bool" where
  "last_set_before w start k hist h \<longleftrightarrow> h \<in> set hist \<and> eh_workflow_uuid h = w \<and> eh_key h = k \<and> eh_function_id h < start \<and>
     (\<forall>h'\<in>set hist. eh_workflow_uuid h' = w \<and> eh_key h' = k \<and> eh_function_id h' < start \<longrightarrow> eh_function_id h' \<le> eh_function_id h)"

lemma latest_events_exact:
  assumes "unique_key eh_pk hist"
  shows "find_row we_pk (fork, k) (latest_events [(w, fork, start)] hist) = Some e \<longleftrightarrow>
    (\<exists>h. last_set_before w start k hist h \<and> e = event_of (fork, h))"
proof
  let ?j = "joined_history [(w, fork, start)] hist"
  assume "find_row we_pk (fork, k) (latest_events [(w, fork, start)] hist) = Some e"
  from find_row_SomeD [OF this] have "e \<in> set (latest_events [(w, fork, start)] hist)" and key: "we_pk e = (fork, k)" by auto
  then obtain q where q: "q \<in> history_partition ` set ?j" "e = event_of (first_ranked ?j q)" unfolding latest_events_mem by blast
  note R = first_ranked_props [OF q(1)]
  define x where "x = first_ranked ?j q"
  have x: "fst x = fork" "snd x \<in> set hist" "eh_workflow_uuid (snd x) = w" "eh_function_id (snd x) < start"
    using R(1) unfolding joined_history_mapping x_def by auto
  have k: "eh_key (snd x) = k" and q': "q = (w, k)" using key q(2) R(2) x(3) by (auto simp: event_of_def we_pk_def history_partition_def simp flip: x_def)
  have "eh_function_id h' \<le> eh_function_id (snd x)"
    if "h' \<in> set hist" "eh_workflow_uuid h' = w" "eh_key h' = k" "eh_function_id h' < start" for h'
  proof -
    have "(fork, h') \<in> set ?j" using that unfolding joined_history_mapping by auto
    from R(3) [OF this] show ?thesis using that q' by (simp add: history_partition_def x_def)
  qed
  with x k have "last_set_before w start k hist (snd x)" by (simp add: last_set_before_def)
  moreover have "e = event_of (fork, snd x)" using q(2) x(1) by (simp add: x_def [symmetric]) (metis prod.collapse)
  ultimately show "\<exists>h. last_set_before w start k hist h \<and> e = event_of (fork, h)" by blast
next
  assume "\<exists>h. last_set_before w start k hist h \<and> e = event_of (fork, h)"
  then show "find_row we_pk (fork, k) (latest_events [(w, fork, start)] hist) = Some e"
    using latest_events_lookup [OF assms] by (auto simp: last_set_before_def)
qed

text \<open>
  C15: A fork has exactly what the steps before its start step did. It is a new \<open>ENQUEUED\<close> row built from
  the original, which is marked as forked from; no other row of \<open>workflow_status\<close> changes. Its checkpoints
  are those of the original with a smaller step number (child workflows replaced as asked) and no
  others, so those steps replay and every later one runs again. Its stream entries and its history of
  events are those that the original wrote in the steps before, and no others. It has an event exactly
  if the original had set it before the start step, with the last value set there. Nothing that
  belongs to another workflow changes in these tables.
\<close>

theorem fork_copies_earlier_steps:
  assumes "forkWorkflow now u w start new opts db = (Inr fork, db')" and "db_wf db" and "0 < start"
  shows "db_wf db' \<and> fork \<notin> workflow_ids db \<and>
    (\<exists>orig. find_row ws_workflow_uuid w (t_workflow_status db) = Some orig \<and>
      t_workflow_status db' = map (\<lambda>r. if ws_workflow_uuid r = w then r\<lparr>ws_was_forked_from := True\<rparr> else r) (t_workflow_status db) @
        [fork_row now opts orig fork]) \<and>
    (\<forall>f. find_row oo_pk (fork, f) (t_operation_outputs db') =
      (if f < start then map_option (rename_operation (fo_replacementChildren opts) fork)
         (find_row oo_pk (w, f) (t_operation_outputs db)) else None)) \<and>
    filter (\<lambda>r. st_workflow_uuid r = fork) (t_streams db') =
      map (\<lambda>r. r\<lparr>st_workflow_uuid := fork\<rparr>) (filter (\<lambda>r. st_workflow_uuid r = w \<and> st_function_id r < start) (t_streams db)) \<and>
    filter (\<lambda>r. eh_workflow_uuid r = fork) (t_workflow_events_history db') =
      map (\<lambda>r. r\<lparr>eh_workflow_uuid := fork\<rparr>)
        (filter (\<lambda>r. eh_workflow_uuid r = w \<and> eh_function_id r < start) (t_workflow_events_history db)) \<and>
    (\<forall>k v. look_event fork k db' = Some v \<longleftrightarrow>
      (\<exists>h. last_set_before w start k (t_workflow_events_history db) h \<and> v = (eh_value h, eh_serialization h))) \<and>
    filter (\<lambda>r. oo_workflow_uuid r \<noteq> fork) (t_operation_outputs db') = t_operation_outputs db \<and>
    filter (\<lambda>r. st_workflow_uuid r \<noteq> fork) (t_streams db') = t_streams db \<and>
    filter (\<lambda>r. eh_workflow_uuid r \<noteq> fork) (t_workflow_events_history db') = t_workflow_events_history db \<and>
    filter (\<lambda>r. we_workflow_uuid r \<noteq> fork) (t_workflow_events db') = t_workflow_events db"
proof -
  obtain orig db1 where new: "fork \<notin> workflow_ids db" and orig: "find_row ws_workflow_uuid w (t_workflow_status db) = Some orig"
    and db1: "db1 = db\<lparr>t_workflow_status := t_workflow_status db @ [fork_row now opts orig fork]\<rparr>"
    and db': "db' = copy_tables (fo_replacementChildren opts) [(w, fork, start)] (mark_forked_from [w] db1)"
    using forkWorkflow_success [OF assms(1,2)] assms(3) by auto
  have "fork \<notin> child_owners db" using new child_owners_ids [OF assms(2)] by blast
  then have fresh: "fork \<notin> oo_workflow_uuid ` set (t_operation_outputs db)" "fork \<notin> st_workflow_uuid ` set (t_streams db)"
    "fork \<notin> eh_workflow_uuid ` set (t_workflow_events_history db)" "fork \<notin> we_workflow_uuid ` set (t_workflow_events db)"
    by (simp_all add: child_owners_def)
  have neq: "fork \<noteq> w" using new orig by (auto simp: workflow_ids_iff)
  note tables = db' db1 copy_tables_def
  have "db_wf db'" by (rule preservesD [OF forkWorkflow_keeps assms(2,1)])
  moreover have "t_workflow_status db' = map (\<lambda>r. if ws_workflow_uuid r = w then r\<lparr>ws_was_forked_from := True\<rparr> else r) (t_workflow_status db) @
        [fork_row now opts orig fork]"
    using neq by (simp add: tables mark_forked_from_def update_where_def)
  moreover have "find_row oo_pk (fork, f) (t_operation_outputs db') =
      (if f < start then map_option (rename_operation (fo_replacementChildren opts) fork)
         (find_row oo_pk (w, f) (t_operation_outputs db)) else None)" for f
  proof -
    have "List.find (\<lambda>r. oo_pk r = (w, f) \<and> oo_function_id r < start) rows =
        (if f < start then find_row oo_pk (w, f) rows else None)" for rows
      by (induction rows) (auto simp: oo_pk_eq)
    then show ?thesis
      using fork_operations.copy_lookup [OF fresh(1), of f "fo_replacementChildren opts" w start]
      by (cases "find_row oo_pk (w, f) (t_operation_outputs db)") (simp_all add: tables)
  qed
  moreover have "look_event fork k db' = Some v \<longleftrightarrow>
      (\<exists>h. last_set_before w start k (t_workflow_events_history db) h \<and> v = (eh_value h, eh_serialization h))" for k v
  proof -
    have "find_row we_pk (fork, k) (t_workflow_events db) = None" using fresh(4) by (intro find_row_NoneI) (auto simp: we_pk_def)
    then have "look_event fork k db' = map_option (\<lambda>e. (we_value e, we_serialization e))
        (find_row we_pk (fork, k) (latest_events [(w, fork, start)] (t_workflow_events_history db)))"
      by (simp add: look_event_def tables find_row_append)
    then show ?thesis by (auto simp: latest_events_exact [OF db_wf_keys(4) [OF assms(2)]] event_of_def)
  qed
  moreover have "filter (\<lambda>r. we_workflow_uuid r \<noteq> fork) (t_workflow_events db') = t_workflow_events db"
  proof -
    have "filter (\<lambda>r. we_workflow_uuid r \<noteq> fork) (latest_events [(w, fork, start)] (t_workflow_events_history db)) = []"
      by (auto simp: filter_empty_conv dest: latest_events_owner)
    moreover have "filter (\<lambda>r. we_workflow_uuid r \<noteq> fork) (t_workflow_events db) = t_workflow_events db"
      using fresh(4) by (auto simp: filter_id_conv)
    ultimately show ?thesis by (simp add: tables)
  qed
  moreover have "rename_stream f = (\<lambda>r. r\<lparr>st_workflow_uuid := f\<rparr>)" "rename_history f = (\<lambda>r. r\<lparr>eh_workflow_uuid := f\<rparr>)" for f
    by (simp_all add: fun_eq_iff rename_stream_def rename_history_def)
  moreover note fork_operations.copied_rows(2) [OF fresh(1), of "fo_replacementChildren opts" w start]
    fork_streams.copied_rows [OF fresh(2), of w start] fork_history.copied_rows [OF fresh(3), of w start]
  ultimately show ?thesis using new orig by (simp add: tables)
qed

definition plain_fork_options :: fork_options where
  "plain_fork_options = \<lparr>fo_applicationVersion = None, fo_timeoutMS = None, fo_queueName = None, fo_queuePartitionKey = None,
     fo_replacementChildren = []\<rparr>"

text \<open>A workflow with a step that set an event and wrote to a stream, and a later one that set the event again.\<close>

definition example_events :: sysdb where
  "example_events = example_db2\<lparr>
     t_workflow_events := [\<lparr>we_workflow_uuid = ''w'', we_key = ''k'', we_value = Some ''2'', we_serialization = None\<rparr>],
     t_workflow_events_history :=
       [\<lparr>eh_workflow_uuid = ''w'', eh_function_id = 0, eh_key = ''k'', eh_value = Some ''1'', eh_serialization = None\<rparr>,
        \<lparr>eh_workflow_uuid = ''w'', eh_function_id = 3, eh_key = ''k'', eh_value = Some ''2'', eh_serialization = None\<rparr>],
     t_streams := [\<lparr>st_workflow_uuid = ''w'', st_key = ''s'', st_value = ''x'', st_offset = 0, st_function_id = 0, st_serialization = None\<rparr>,
        \<lparr>st_workflow_uuid = ''w'', st_key = ''s'', st_value = ''y'', st_offset = 1, st_function_id = 3, st_serialization = None\<rparr>]\<rparr>"

lemma example_events_wf: "db_wf example_events"
  unfolding example_events_def
  by (intro db_wf_streams db_wf_workflow_events_history db_wf_workflow_events)
    (simp_all add: example_db2_def db_wf_operation_outputs unique_key_def workflow_ids_def eh_pk_def st_pk_def)

lemma example_events_simps:
  "t_workflow_status example_events = [example_row ''w'' PENDING]" "workflow_ids example_events = {''w''}"
  by (simp_all add: example_events_def example_db2_def workflow_ids_def)

theorem fork_copies_earlier_steps_witness:
  "let db' = snd (forkWorkflow 500 ''u'' ''w'' 2 (Some ''fork'') plain_fork_options example_events) in
   look_event ''fork'' ''k'' db' = Some (Some ''1'', None) \<and>
   map st_value (filter (\<lambda>r. st_workflow_uuid r = ''fork'') (t_streams db')) = [''x''] \<and>
   find_row oo_pk (''fork'', 0) (t_operation_outputs db') =
     Some (rename_operation [] ''fork'' (new_operation_row ''w'' 0 ''step0'' 100 110 (output_only (Some ''5''))))"
proof -
  let ?run = "forkWorkflow 500 ''u'' ''w'' 2 (Some ''fork'') plain_fork_options example_events"
  have run: "?run = (Inr ''fork'', snd ?run)"
    by (simp add: forkWorkflow_def bulkForkWorkflows_def missing_workflow_def insert_forks_def Let_def and_then_def
        transaction_def List.map_filter_simps unique_key_def example_events_simps)
  have "0 < (2 :: int)" by simp
  note all = fork_copies_earlier_steps [OF run example_events_wf this]
  have "look_event ''fork'' ''k'' (snd ?run) = Some (Some ''1'', None)"
  proof -
    have "last_set_before ''w'' 2 ''k'' (t_workflow_events_history example_events)
        \<lparr>eh_workflow_uuid = ''w'', eh_function_id = 0, eh_key = ''k'', eh_value = Some ''1'', eh_serialization = None\<rparr>"
      by (simp add: last_set_before_def example_events_def)
    moreover have "\<forall>k v. look_event ''fork'' k (snd ?run) = Some v \<longleftrightarrow>
        (\<exists>h. last_set_before ''w'' 2 k (t_workflow_events_history example_events) h \<and> v = (eh_value h, eh_serialization h))"
      using all by blast
    ultimately show ?thesis by force
  qed
  moreover have "map st_value (filter (\<lambda>r. st_workflow_uuid r = ''fork'') (t_streams (snd ?run))) = [''x'']"
    using all by (simp add: example_events_def)
  moreover have "find_row oo_pk (''fork'', 0) (t_operation_outputs (snd ?run)) =
     Some (rename_operation [] ''fork'' (new_operation_row ''w'' 0 ''step0'' 100 110 (output_only (Some ''5''))))"
    using all by (simp add: example_events_def plain_fork_options_def)
  ultimately show ?thesis by simp
qed

text \<open>
  C35: Forking one workflow twice in a single bulk call splits its events between the forks. An event that
  the original had set before both start steps is in the history of both forks afterwards, but exactly
  one of them has its value: the ranking of the history rows is per original workflow, not per fork.
\<close>

theorem bulk_fork_twice_splits_events:
  assumes "bulkForkWorkflows now [w, w] [f1, f2] [s1, s2] opts db = (Inr ids, db')" and "db_wf db" and "0 < s1" and "0 < s2"
    and "h \<in> set (t_workflow_events_history db)" and "eh_workflow_uuid h = w" and "eh_function_id h < s1" and "eh_function_id h < s2"
  shows "h\<lparr>eh_workflow_uuid := f1\<rparr> \<in> set (t_workflow_events_history db') \<and> h\<lparr>eh_workflow_uuid := f2\<rparr> \<in> set (t_workflow_events_history db') \<and>
    (look_event f1 (eh_key h) db' = None) \<noteq> (look_event f2 (eh_key h) db' = None)"
proof -
  have ne: "[w, w] \<noteq> []" by simp
  define ms where "ms = [(w, f1, s1), (w, f2, s2)]"
  from bulkFork_success [OF assms(1) ne assms(2)] obtain new db1 where
    f: "db1 = db\<lparr>t_workflow_status := t_workflow_status db @ new\<rparr>" "f1 \<noteq> f2" "{f1, f2} \<inter> workflow_ids db = {}"
      "db' = copy_tables (fo_replacementChildren opts) ms (mark_forked_from [w, w] db1)"
    using assms(3,4) by (auto simp: ms_def)
  let ?hist = "t_workflow_events_history db" and ?k = "eh_key h"
  let ?j = "joined_history ms ?hist"
  have "find_row we_pk (f, ?k) (t_workflow_events db) = None" if "f \<in> {f1, f2}" for f
    using f(3) that child_owners_ids [OF assms(2)] by (intro find_row_NoneI) (auto simp: we_pk_def child_owners_def)
  then have look: "look_event f ?k db' = map_option (\<lambda>e. (we_value e, we_serialization e)) (find_row we_pk (f, ?k) (latest_events ms ?hist))"
    if "f \<in> {f1, f2}" for f
    using that f(1,4) by (simp add: look_event_def copy_tables_def find_row_append)
  have "(f1, h) \<in> set ?j" using assms(5-7) unfolding joined_history_mapping ms_def by auto
  then have p: "(w, ?k) \<in> history_partition ` set ?j" using assms(6) by (force simp: history_partition_def)
  define x where "x = first_ranked ?j (w, ?k)"
  have x: "fst x \<in> {f1, f2}" "eh_key (snd x) = ?k"
    using first_ranked_props(1,2) [OF p] unfolding joined_history_mapping x_def by (auto simp: ms_def history_partition_def)
  have "event_of x \<in> set (latest_events ms ?hist)" using p x_def unfolding latest_events_mem by blast
  then have some: "find_row we_pk (fst x, ?k) (latest_events ms ?hist) \<noteq> None"
    using x(2) by (auto simp: find_row_None_iff event_of_def we_pk_def image_iff intro!: bexI)
  have only: "f = fst x" if found: "find_row we_pk (f, ?k) (latest_events ms ?hist) = Some e" for f e
  proof -
    from find_row_SomeD [OF found] have e: "e \<in> set (latest_events ms ?hist)" "we_pk e = (f, ?k)" by auto
    from e(1) obtain q where q: "q \<in> history_partition ` set ?j" "e = event_of (first_ranked ?j q)" unfolding latest_events_mem by blast
    note R = first_ranked_props(1,2) [OF q(1)]
    have "eh_workflow_uuid (snd (first_ranked ?j q)) = w" using R(1) unfolding joined_history_mapping by (auto simp: ms_def)
    with R(2) q(2) e(2) show ?thesis by (auto simp: event_of_def we_pk_def history_partition_def x_def)
  qed
  have "h\<lparr>eh_workflow_uuid := f\<rparr> \<in> set (t_workflow_events_history db')" if "f \<in> {f1, f2}" for f
    using that assms(5-8) f(1,4) by (auto simp: copy_tables_def copy_prefix_def ms_def rename_history_def)
  moreover have "(look_event f1 ?k db' = None) \<noteq> (look_event f2 ?k db' = None)"
    using look some only [of f1] only [of f2] x(1) f(2) by (cases "find_row we_pk (f1, ?k) (latest_events ms ?hist)";
      cases "find_row we_pk (f2, ?k) (latest_events ms ?hist)") auto
  ultimately show ?thesis by blast
qed

theorem bulk_fork_twice_splits_events_witness:
  "let db' = snd (bulkForkWorkflows 500 [''w'', ''w''] [''f1'', ''f2''] [1, 2] plain_fork_options example_events) in
   (look_event ''f1'' ''k'' db' = None) \<noteq> (look_event ''f2'' ''k'' db' = None)"
proof -
  let ?run = "bulkForkWorkflows 500 [''w'', ''w''] [''f1'', ''f2''] [1, 2] plain_fork_options example_events"
  have run: "?run = (Inr [''f1'', ''f2''], snd ?run)"
    by (simp add: bulkForkWorkflows_def missing_workflow_def insert_forks_def Let_def and_then_def
        transaction_def List.map_filter_simps unique_key_def example_events_simps)
  from bulk_fork_twice_splits_events [OF run example_events_wf, of "hd (t_workflow_events_history example_events)"]
  show ?thesis by (simp add: example_events_def Let_def)
qed

lemma export_one_rows:
  assumes "export_one w db = Some e" and "db_wf db"
  shows "ws_workflow_uuid (ex_workflow_status e) = w" and "ws_owner_xid (ex_workflow_status e) = None"
    and "unique_key oo_pk (ex_operation_outputs e)" and "unique_key we_pk (ex_workflow_events e)"
    and "unique_key eh_pk (ex_workflow_events_history e)" and "unique_key st_pk (ex_streams e)"
    and "oo_workflow_uuid ` set (ex_operation_outputs e) \<subseteq> {w}" and "we_workflow_uuid ` set (ex_workflow_events e) \<subseteq> {w}"
    and "eh_workflow_uuid ` set (ex_workflow_events_history e) \<subseteq> {w}" and "st_workflow_uuid ` set (ex_streams e) \<subseteq> {w}"
  using assms db_wf_keys [OF assms(2)]
  by (auto simp: export_one_def unique_key_filter dest: find_row_SomeD)

text \<open>What importing one exported workflow into a database that does not know its ID does.\<close>

lemma import_one_fresh:
  assumes "export_one w db = Some e" and "db_wf db" and "db_wf db0" and "w \<notin> workflow_ids db0"
    and "\<forall>r\<in>set (t_workflow_status db0). \<not> dedup_conflict (ex_workflow_status e) r"
  shows "import_one e db0 = (Inr (), db0\<lparr>t_workflow_status := t_workflow_status db0 @ [ex_workflow_status e],
    t_operation_outputs := t_operation_outputs db0 @ ex_operation_outputs e,
    t_workflow_events := t_workflow_events db0 @ ex_workflow_events e,
    t_workflow_events_history := t_workflow_events_history db0 @ ex_workflow_events_history e,
    t_streams := t_streams db0 @ ex_streams e\<rparr>)"
proof -
  note E = export_one_rows [OF assms(1,2)]
  have fresh: "w \<notin> child_owners db0" using child_owners_ids [OF assms(3)] assms(4) by blast
  have own: "(ex_workflow_status e)\<lparr>ws_owner_xid := None\<rparr> = ex_workflow_status e" using E(2) by simp
  let ?db1 = "db0\<lparr>t_workflow_status := t_workflow_status db0 @ [ex_workflow_status e]\<rparr>"
  have ids: "w \<in> workflow_ids ?db1" by (simp add: workflow_ids_def E(1))
  have status: "insert_status_row (ex_workflow_status e) db0 = (Inr (), ?db1)"
    using assms(4,5) E(1) by (simp add: insert_status_row_def)
  have oo: "oo_pk ` set (ex_operation_outputs e) \<inter> oo_pk ` set (t_operation_outputs db0) = {}"
    using E(7) fresh by (auto simp: child_owners_def oo_pk_def)
  have we: "we_pk ` set (ex_workflow_events e) \<inter> we_pk ` set (t_workflow_events db0) = {}"
    using E(8) fresh by (auto simp: child_owners_def we_pk_def)
  have eh: "eh_pk ` set (ex_workflow_events_history e) \<inter> eh_pk ` set (t_workflow_events_history db0) = {}"
    using E(9) fresh by (auto simp: child_owners_def eh_pk_def)
  have st: "st_pk ` set (ex_streams e) \<inter> st_pk ` set (t_streams db0) = {}"
    using E(10) fresh by (auto simp: child_owners_def st_pk_def)
  have sub: "S \<subseteq> {w} \<Longrightarrow> S \<subseteq> workflow_ids ?db1" for S using ids by blast
  show ?thesis
    unfolding import_one_def own
    using status E(3-6) oo we eh st sub [OF E(7)] sub [OF E(8)] sub [OF E(9)] sub [OF E(10)]
    by (simp add: and_then_def operations_child.insert_all events_child.insert_all history_child.insert_all
        streams_child.insert_all)
qed

text \<open>
  Export and import are inverse. A workflow exported from one database can be imported into any other
  well-formed database that does not know its ID and whose rows do not hold its deduplication key, and
  exporting it there gives the same export again (status, steps, events, event history and streams);
  the target stays well-formed and keeps all the rows it had.
\<close>

lemma export_import_roundtrip:
  assumes "exportWorkflow w False db = (Inr es, db)" and "db_wf db" and "db_wf db0" and "w \<notin> workflow_ids db0"
    and "\<forall>e\<in>set es. \<forall>r\<in>set (t_workflow_status db0). \<not> dedup_conflict (ex_workflow_status e) r"
  shows "\<exists>db1. importWorkflow es db0 = (Inr (), db1) \<and> db_wf db1 \<and> exportWorkflow w False db1 = (Inr es, db1) \<and>
    prefix (t_workflow_status db0) (t_workflow_status db1) \<and> t_notifications db1 = t_notifications db0"
proof -
  obtain e where e: "export_one w db = Some e" and es: "es = [e]"
    using assms(1) by (auto simp: exportWorkflow_def split: option.splits)
  note imp = import_one_fresh [OF e assms(2-4)] and E = export_one_rows [OF e assms(2)]
  define db1 where "db1 = snd (import_one e db0)"
  have db1: "import_one e db0 = (Inr (), db1)" "db1 = db0\<lparr>t_workflow_status := t_workflow_status db0 @ [ex_workflow_status e],
    t_operation_outputs := t_operation_outputs db0 @ ex_operation_outputs e,
    t_workflow_events := t_workflow_events db0 @ ex_workflow_events e,
    t_workflow_events_history := t_workflow_events_history db0 @ ex_workflow_events_history e,
    t_streams := t_streams db0 @ ex_streams e\<rparr>"
    using imp assms(5) es by (simp_all add: db1_def)
  have fresh: "w \<notin> child_owners db0" using child_owners_ids [OF assms(3)] assms(4) by blast
  have none: "filter (\<lambda>x. g x = w) rows = []" if "w \<notin> g ` set rows" for g :: "'r \<Rightarrow> string" and rows
    using that by (auto simp: filter_empty_conv)
  have all: "filter (\<lambda>x. g x = w) rows = rows" if "g ` set rows \<subseteq> {w}" for g :: "'r \<Rightarrow> string" and rows
    using that by (auto simp: filter_id_conv)
  have "export_one w db1 = Some e"
    using assms(4) fresh E
    by (simp add: export_one_def db1(2) find_row_append workflow_ids_iff none all child_owners_def)
  then have "exportWorkflow w False db1 = (Inr es, db1)" by (simp add: exportWorkflow_def es)
  moreover have "importWorkflow es db0 = (Inr (), db1)"
    using db1(1) by (simp add: importWorkflow_def es and_then_def)
  moreover have "db_wf db1" by (rule preservesD [OF import_one_keeps assms(3) db1(1)])
  ultimately show ?thesis using db1(2) by simp
qed

end
