(* ===== verification/SysDB_Queue.thy ===== *)
theory SysDB_Queue
  imports SysDB_Management
begin

text \<open>
  Queues: the persisted queue configuration (section "Queues" of \<open>src/system_database.ts\<close> and the class
  \<open>WorkflowQueue\<close> of \<open>src/wfqueue.ts\<close>) and the dequeue transaction
  \<open>findAndMarkStartableWorkflows\<close> with its flow control, application version and locking rules.

  Rate-limit periods and polling intervals are in milliseconds. \<open>Infinity\<close> is \<open>None\<close>. Rows locked by a
  concurrent dequeue are given by the predicate \<open>locked\<close>: \<open>SKIP LOCKED\<close> leaves them out, \<open>NOWAIT\<close>
  fails on them.
\<close>

section \<open>Queue records\<close>

record QueueRecord =
  qr_name :: string
  qr_concurrency :: "int option"
  qr_workerConcurrency :: "int option"
  qr_rateLimitMax :: "int option"
  qr_rateLimitPeriodMS :: "int option"
  qr_priorityEnabled :: bool
  qr_partitionQueue :: bool
  qr_pollingIntervalMS :: int

definition queueRecordFromRow :: "queues \<Rightarrow> QueueRecord" where
  "queueRecordFromRow row = \<lparr>qr_name = qu_name row, qr_concurrency = qu_concurrency row,
     qr_workerConcurrency = qu_worker_concurrency row, qr_rateLimitMax = qu_rate_limit_max row,
     qr_rateLimitPeriodMS = qu_rate_limit_period_ms row, qr_priorityEnabled = qu_priority_enabled row,
     qr_partitionQueue = qu_partition_queue row, qr_pollingIntervalMS = qu_polling_interval_ms row\<rparr>"

record QueueRecordUpdate =
  up_concurrency :: "int option option"
  up_workerConcurrency :: "int option option"
  up_rateLimitMax :: "int option option"
  up_rateLimitPeriodMS :: "int option option"
  up_priorityEnabled :: "bool option"
  up_partitionQueue :: "bool option"
  up_pollingIntervalMS :: "int option"

definition no_queue_update :: QueueRecordUpdate where
  "no_queue_update = \<lparr>up_concurrency = None, up_workerConcurrency = None, up_rateLimitMax = None,
     up_rateLimitPeriodMS = None, up_priorityEnabled = None, up_partitionQueue = None, up_pollingIntervalMS = None\<rparr>"

definition getQueue :: "string \<Rightarrow> sysdb \<Rightarrow> QueueRecord option" where
  "getQueue name db = map_option queueRecordFromRow (find_row qu_name name (t_queues db))"

definition listQueues :: "sysdb \<Rightarrow> QueueRecord list" where
  "listQueues db = map queueRecordFromRow (t_queues db)"

definition deleteQueue :: "string \<Rightarrow> unit db_op" where
  "deleteQueue name db = (Inr (), db\<lparr>t_queues := delete_where (\<lambda>q. qu_name q = name) (t_queues db)\<rparr>)"

definition apply_queue_update :: "int \<Rightarrow> QueueRecordUpdate \<Rightarrow> queues \<Rightarrow> queues" where
  "apply_queue_update now u q = q\<lparr>
     qu_concurrency := coalesce (up_concurrency u) (qu_concurrency q),
     qu_worker_concurrency := coalesce (up_workerConcurrency u) (qu_worker_concurrency q),
     qu_rate_limit_max := coalesce (up_rateLimitMax u) (qu_rate_limit_max q),
     qu_rate_limit_period_ms := coalesce (up_rateLimitPeriodMS u) (qu_rate_limit_period_ms q),
     qu_priority_enabled := coalesce (up_priorityEnabled u) (qu_priority_enabled q),
     qu_partition_queue := coalesce (up_partitionQueue u) (qu_partition_queue q),
     qu_polling_interval_ms := coalesce (up_pollingIntervalMS u) (qu_polling_interval_ms q),
     qu_updated_at := now\<rparr>"

definition updateQueue :: "int \<Rightarrow> string \<Rightarrow> QueueRecordUpdate \<Rightarrow> unit db_op" where
  "updateQueue now name changes db =
     (if changes = no_queue_update then (Inr (), db)
      else (Inr (), db\<lparr>t_queues := update_where (\<lambda>q. qu_name q = name) (apply_queue_update now changes) (t_queues db)\<rparr>))"

definition overwrite_queue :: "int \<Rightarrow> QueueRecord \<Rightarrow> queues \<Rightarrow> queues" where
  "overwrite_queue now record q = q\<lparr>
     qu_concurrency := qr_concurrency record, qu_worker_concurrency := qr_workerConcurrency record,
     qu_rate_limit_max := qr_rateLimitMax record, qu_rate_limit_period_ms := qr_rateLimitPeriodMS record,
     qu_priority_enabled := qr_priorityEnabled record, qu_partition_queue := qr_partitionQueue record,
     qu_polling_interval_ms := qr_pollingIntervalMS record, qu_updated_at := now\<rparr>"

definition new_queue_row :: "int \<Rightarrow> string \<Rightarrow> QueueRecord \<Rightarrow> queues" where
  "new_queue_row now queueID record = \<lparr>qu_queue_id = queueID, qu_name = qr_name record,
     qu_concurrency = qr_concurrency record, qu_worker_concurrency = qr_workerConcurrency record,
     qu_rate_limit_max = qr_rateLimitMax record, qu_rate_limit_period_ms = qr_rateLimitPeriodMS record,
     qu_priority_enabled = qr_priorityEnabled record, qu_partition_queue = qr_partitionQueue record,
     qu_polling_interval_ms = qr_pollingIntervalMS record, qu_created_at = now, qu_updated_at = now\<rparr>"

definition upsertQueue :: "int \<Rightarrow> string \<Rightarrow> QueueRecord \<Rightarrow> bool \<Rightarrow> bool db_op" where
  "upsertQueue now queueID record updateExisting db =
     (let existed = (qr_name record \<in> qu_name ` set (t_queues db)) in
      (Inr (\<not> existed),
       if \<not> existed then db\<lparr>t_queues := t_queues db @ [new_queue_row now queueID record]\<rparr>
       else if updateExisting
       then db\<lparr>t_queues := update_where (\<lambda>q. qu_name q = qr_name record) (overwrite_queue now record) (t_queues db)\<rparr>
       else db))"

section \<open>The queue object\<close>

record QueueRateLimit =
  rl_limitPerPeriod :: int
  rl_periodMS :: int

record QueueParameters =
  qp_workerConcurrency :: "int option"
  qp_concurrency :: "int option"
  qp_rateLimit :: "QueueRateLimit option"
  qp_priorityEnabled :: "bool option"
  qp_partitionQueue :: "bool option"
  qp_minPollingIntervalMs :: "int option"

record WorkflowQueue =
  wq_name :: string
  wq_concurrency :: "int option"
  wq_rateLimit :: "QueueRateLimit option"
  wq_workerConcurrency :: "int option"
  wq_priorityEnabled :: bool
  wq_partitionQueue :: bool
  wq_minPollingIntervalMs :: "int option"
  wq_databaseBacked :: bool
  wq_clientBound :: bool

text \<open>Both fields of a rate limit are present by construction, so that check of the source cannot fail here.\<close>

definition validateQueueParams :: "QueueParameters \<Rightarrow> dbos_error option" where
  "validateQueueParams params =
     (if (case (qp_workerConcurrency params, qp_concurrency params) of (Some w, Some c) \<Rightarrow> w > c | _ \<Rightarrow> False)
      then Some (PlainError ''concurrency must be greater than or equal to workerConcurrency'')
      else if (case qp_minPollingIntervalMs params of Some p \<Rightarrow> p \<le> 0 | None \<Rightarrow> False)
      then Some (PlainError ''minPollingIntervalMs must be positive'')
      else None)"

definition recordFromParams :: "string \<Rightarrow> QueueParameters \<Rightarrow> QueueRecord" where
  "recordFromParams name params = \<lparr>qr_name = name, qr_concurrency = qp_concurrency params,
     qr_workerConcurrency = qp_workerConcurrency params,
     qr_rateLimitMax = map_option rl_limitPerPeriod (qp_rateLimit params),
     qr_rateLimitPeriodMS = map_option rl_periodMS (qp_rateLimit params),
     qr_priorityEnabled = coalesce (qp_priorityEnabled params) False,
     qr_partitionQueue = coalesce (qp_partitionQueue params) False,
     qr_pollingIntervalMS = coalesce (qp_minPollingIntervalMs params) 1000\<rparr>"

definition record_rate_limit :: "QueueRecord \<Rightarrow> QueueRateLimit option" where
  "record_rate_limit record =
     (case (qr_rateLimitMax record, qr_rateLimitPeriodMS record) of
        (Some m, Some p) \<Rightarrow> Some \<lparr>rl_limitPerPeriod = m, rl_periodMS = p\<rparr> | _ \<Rightarrow> None)"

definition fromRecord :: "QueueRecord \<Rightarrow> bool \<Rightarrow> WorkflowQueue" where
  "fromRecord record clientBound = \<lparr>wq_name = qr_name record, wq_concurrency = qr_concurrency record,
     wq_rateLimit = record_rate_limit record, wq_workerConcurrency = qr_workerConcurrency record,
     wq_priorityEnabled = qr_priorityEnabled record, wq_partitionQueue = qr_partitionQueue record,
     wq_minPollingIntervalMs = Some (qr_pollingIntervalMS record), wq_databaseBacked = True,
     wq_clientBound = clientBound\<rparr>"

definition refreshFromDb :: "WorkflowQueue \<Rightarrow> WorkflowQueue db_op" where
  "refreshFromDb q db =
     (if \<not> wq_databaseBacked q then (Inr q, db)
      else case getQueue (wq_name q) db of
        None \<Rightarrow> (Inl (PlainError (''Queue '' @ [CHR 0x27] @ wq_name q @ [CHR 0x27] @ '' was not found in the database.'')), db)
      | Some r \<Rightarrow> (Inr (q\<lparr>wq_concurrency := qr_concurrency r, wq_workerConcurrency := qr_workerConcurrency r,
          wq_rateLimit := record_rate_limit r, wq_priorityEnabled := qr_priorityEnabled r,
          wq_partitionQueue := qr_partitionQueue r, wq_minPollingIntervalMs := Some (qr_pollingIntervalMS r)\<rparr>), db))"

definition requireDatabaseBacked :: "WorkflowQueue \<Rightarrow> unit db_op" where
  "requireDatabaseBacked q =
     (if wq_databaseBacked q then ret ()
      else throw (PlainError (''Cannot configure queue '' @ wq_name q @
        '': dynamic configuration is only supported for queues registered via DBOS.registerQueue.'')))"

definition setConcurrency :: "int \<Rightarrow> WorkflowQueue \<Rightarrow> int option \<Rightarrow> WorkflowQueue db_op" where
  "setConcurrency now q v =
     and_then (requireDatabaseBacked q) (\<lambda>_.
       if (case (v, wq_workerConcurrency q) of (Some c, Some w) \<Rightarrow> w > c | _ \<Rightarrow> False)
       then throw (PlainError ''workerConcurrency must be less than or equal to concurrency'')
       else and_then (updateQueue now (wq_name q) (no_queue_update\<lparr>up_concurrency := Some v\<rparr>))
         (\<lambda>_. ret (q\<lparr>wq_concurrency := v\<rparr>)))"

definition setWorkerConcurrency :: "int \<Rightarrow> WorkflowQueue \<Rightarrow> int option \<Rightarrow> WorkflowQueue db_op" where
  "setWorkerConcurrency now q v =
     and_then (requireDatabaseBacked q) (\<lambda>_.
       if (case (v, wq_concurrency q) of (Some w, Some c) \<Rightarrow> w > c | _ \<Rightarrow> False)
       then throw (PlainError ''workerConcurrency must be less than or equal to concurrency'')
       else and_then (updateQueue now (wq_name q) (no_queue_update\<lparr>up_workerConcurrency := Some v\<rparr>))
         (\<lambda>_. ret (q\<lparr>wq_workerConcurrency := v\<rparr>)))"

definition setRateLimit :: "int \<Rightarrow> WorkflowQueue \<Rightarrow> QueueRateLimit option \<Rightarrow> WorkflowQueue db_op" where
  "setRateLimit now q v =
     and_then (requireDatabaseBacked q) (\<lambda>_.
       and_then (updateQueue now (wq_name q) (no_queue_update\<lparr>up_rateLimitMax := Some (map_option rl_limitPerPeriod v),
           up_rateLimitPeriodMS := Some (map_option rl_periodMS v)\<rparr>))
         (\<lambda>_. ret (q\<lparr>wq_rateLimit := v\<rparr>)))"

definition setPriorityEnabled :: "int \<Rightarrow> WorkflowQueue \<Rightarrow> bool \<Rightarrow> WorkflowQueue db_op" where
  "setPriorityEnabled now q v =
     and_then (requireDatabaseBacked q) (\<lambda>_.
       and_then (updateQueue now (wq_name q) (no_queue_update\<lparr>up_priorityEnabled := Some v\<rparr>))
         (\<lambda>_. ret (q\<lparr>wq_priorityEnabled := v\<rparr>)))"

definition setPartitionQueue :: "int \<Rightarrow> WorkflowQueue \<Rightarrow> bool \<Rightarrow> WorkflowQueue db_op" where
  "setPartitionQueue now q v =
     and_then (requireDatabaseBacked q) (\<lambda>_.
       and_then (updateQueue now (wq_name q) (no_queue_update\<lparr>up_partitionQueue := Some v\<rparr>))
         (\<lambda>_. ret (q\<lparr>wq_partitionQueue := v\<rparr>)))"

definition setMinPollingIntervalMs :: "int \<Rightarrow> WorkflowQueue \<Rightarrow> int \<Rightarrow> WorkflowQueue db_op" where
  "setMinPollingIntervalMs now q v =
     and_then (requireDatabaseBacked q) (\<lambda>_.
       if v \<le> 0 then throw (PlainError ''minPollingIntervalMs must be positive'')
       else and_then (updateQueue now (wq_name q) (no_queue_update\<lparr>up_pollingIntervalMS := Some v\<rparr>))
         (\<lambda>_. ret (q\<lparr>wq_minPollingIntervalMs := Some v\<rparr>)))"

section \<open>Delayed workflows, deduplication, partitions\<close>

definition transitionDelayedWorkflows :: "int \<Rightarrow> unit db_op" where
  "transitionDelayedWorkflows now db =
     (Inr (), db\<lparr>t_workflow_status := update_where
        (\<lambda>r. ws_status r = DELAYED \<and> (case ws_delay_until_epoch_ms r of Some t \<Rightarrow> t \<le> now | None \<Rightarrow> False))
        (\<lambda>r. r\<lparr>ws_status := ENQUEUED, ws_updated_at := now,
           ws_deduplication_id := (if ws_is_debounced r then None else ws_deduplication_id r)\<rparr>)
        (t_workflow_status db)\<rparr>)"

definition getDeduplicatedWorkflow :: "string \<Rightarrow> string \<Rightarrow> sysdb \<Rightarrow> string option" where
  "getDeduplicatedWorkflow queueName deduplicationID db =
     map_option ws_workflow_uuid (List.find (\<lambda>r. ws_queue_name r = Some queueName \<and>
       ws_deduplication_id r = Some deduplicationID) (t_workflow_status db))"

definition getQueuePartitions :: "string \<Rightarrow> sysdb \<Rightarrow> string list" where
  "getQueuePartitions queueName db =
     remdups (List.map_filter ws_queue_partition_key
       (filter (\<lambda>r. ws_queue_name r = Some queueName \<and> ws_status r = ENQUEUED) (t_workflow_status db)))"

section \<open>Dequeuing\<close>

definition in_partition :: "string option \<Rightarrow> workflow_status \<Rightarrow> bool" where
  "in_partition queuePartitionKey r =
     (case queuePartitionKey of None \<Rightarrow> True | Some k \<Rightarrow> ws_queue_partition_key r = Some k)"

definition recently_started :: "string \<Rightarrow> string option \<Rightarrow> int \<Rightarrow> workflow_status \<Rightarrow> bool" where
  "recently_started queueName pkey since r =
     (ws_queue_name r = Some queueName \<and> ws_rate_limited r \<and> ws_status r \<noteq> ENQUEUED \<and> ws_status r \<noteq> DELAYED \<and>
      (case ws_started_at_epoch_ms r of Some t \<Rightarrow> t > since | None \<Rightarrow> False) \<and> in_partition pkey r)"

definition running_in_queue :: "string \<Rightarrow> string option \<Rightarrow> workflow_status \<Rightarrow> bool" where
  "running_in_queue queueName pkey r =
     (ws_queue_name r = Some queueName \<and> ws_status r = PENDING \<and> in_partition pkey r)"

definition max_tasks :: "WorkflowQueue \<Rightarrow> int \<Rightarrow> int \<Rightarrow> int option" where
  "max_tasks queue localRunning totalRunning =
     (let worker = map_option (\<lambda>w. max 0 (w - localRunning)) (wq_workerConcurrency queue) in
      case wq_concurrency queue of
        None \<Rightarrow> worker
      | Some c \<Rightarrow> (let available = max 0 (c - totalRunning) in
          Some (case worker of None \<Rightarrow> available | Some m \<Rightarrow> min m available)))"

text \<open>SQL leaves open which of equally recent versions comes first; the model takes the first row.\<close>

definition latest_version :: "sysdb \<Rightarrow> string option" where
  "latest_version db =
     (case sort_key (\<lambda>v. - av_version_timestamp v) (t_application_versions db) of
        [] \<Rightarrow> None | v # _ \<Rightarrow> Some (av_version_name v))"

definition version_matches :: "string \<Rightarrow> sysdb \<Rightarrow> workflow_status \<Rightarrow> bool" where
  "version_matches appVersion db r =
     (if latest_version db = None \<or> latest_version db = Some appVersion
      then ws_application_version r = Some appVersion \<or> ws_application_version r = None
      else ws_application_version r = Some appVersion)"

definition startable :: "WorkflowQueue \<Rightarrow> string \<Rightarrow> string option \<Rightarrow> sysdb \<Rightarrow> workflow_status list" where
  "startable queue appVersion pkey db =
     sort_key (\<lambda>r. (ws_priority r, ws_created_at r))
       (filter (\<lambda>r. ws_status r = ENQUEUED \<and> ws_queue_name r = Some (wq_name queue) \<and>
          version_matches appVersion db r \<and> in_partition pkey r) (t_workflow_status db))"

definition take_max :: "int option \<Rightarrow> 'a list \<Rightarrow> 'a list" where
  "take_max m xs = (case m of None \<Rightarrow> xs | Some n \<Rightarrow> take (nat n) xs)"

definition mark_started ::
  "int \<Rightarrow> int \<Rightarrow> string \<Rightarrow> string \<Rightarrow> bool \<Rightarrow> workflow_status \<Rightarrow> workflow_status" where
  "mark_started startTimeMs now executorID appVersion rateLimited r = r\<lparr>
     ws_status := PENDING, ws_executor_id := Some executorID, ws_application_version := Some appVersion,
     ws_started_at_epoch_ms := Some startTimeMs, ws_rate_limited := rateLimited,
     ws_workflow_deadline_epoch_ms := (case (ws_workflow_timeout_ms r, ws_workflow_deadline_epoch_ms r) of
         (Some t, None) \<Rightarrow> Some (now + t) | _ \<Rightarrow> ws_workflow_deadline_epoch_ms r)\<rparr>"

fun claim_loop ::
  "int option \<Rightarrow> int \<Rightarrow> (workflow_status \<Rightarrow> workflow_status) \<Rightarrow> string list \<Rightarrow> string list \<Rightarrow> workflow_status list \<Rightarrow>
   string list \<times> workflow_status list" where
  "claim_loop limit recent mark [] claimed rows = (claimed, rows)"
| "claim_loop limit recent mark (wfid # ids) claimed rows =
     (if (case limit of None \<Rightarrow> False | Some l \<Rightarrow> int (length claimed) + recent \<ge> l) then (claimed, rows)
      else (let matches = (\<lambda>r. ws_workflow_uuid r = wfid \<and> ws_status r = ENQUEUED) in
            claim_loop limit recent mark ids
              (if row_count matches rows > 0 then claimed @ [wfid] else claimed) (update_where matches mark rows)))"

definition findAndMarkStartableWorkflows ::
  "int \<Rightarrow> int \<Rightarrow> (workflow_status \<Rightarrow> bool) \<Rightarrow> WorkflowQueue \<Rightarrow> string \<Rightarrow> string \<Rightarrow> string option \<Rightarrow> string list db_op" where
  "findAndMarkStartableWorkflows startTimeMs now locked queue executorID appVersion queuePartitionKey db =
     (let rows = t_workflow_status db;
          limit = map_option rl_limitPerPeriod (wq_rateLimit queue);
          recent = (case wq_rateLimit queue of None \<Rightarrow> 0 | Some rl \<Rightarrow>
            int (row_count (recently_started (wq_name queue) queuePartitionKey (startTimeMs - rl_periodMS rl)) rows));
          localRunning = int (countRunningWorkflowsForQueue (wq_name queue) queuePartitionKey db);
          totalRunning = int (row_count (running_in_queue (wq_name queue) queuePartitionKey) rows);
          maxTasks = max_tasks queue localRunning totalRunning;
          candidates = startable queue appVersion queuePartitionKey db
      in if (case limit of None \<Rightarrow> False | Some l \<Rightarrow> recent \<ge> l) then (Inr [], db)
         else if (case maxTasks of None \<Rightarrow> False | Some m \<Rightarrow> m \<le> 0) then (Inr [], db)
         else if wq_concurrency queue \<noteq> None \<and> wq_concurrency queue \<noteq> Some 0 \<and> (\<exists>r\<in>set (take_max maxTasks candidates). locked r)
         then (Inl (PgError ''55P03''), db)
         else (let selected = take_max maxTasks (if wq_concurrency queue \<noteq> None \<and> wq_concurrency queue \<noteq> Some 0
                      then candidates else filter (\<lambda>r. \<not> locked r) candidates);
                   (claimed, rows') = claim_loop limit recent
                     (mark_started startTimeMs now executorID appVersion (wq_rateLimit queue \<noteq> None))
                     (map ws_workflow_uuid selected) [] rows
               in (Inr claimed, db\<lparr>t_workflow_status := rows'\<rparr>)))"

section \<open>Every operation keeps the constraints\<close>

lemma queue_row_names [simp]:
  "qu_name (apply_queue_update now u q) = qu_name q" "qu_name (overwrite_queue now r q) = qu_name q"
  "qu_name (new_queue_row now i r) = qr_name r"
  by (simp_all add: apply_queue_update_def overwrite_queue_def new_queue_row_def)

lemma queue_operations_keep [keep_rules]:
  "preserves db_wf (deleteQueue name)" "preserves db_wf (updateQueue now name u)" "preserves db_wf (upsertQueue now i r b)"
  by (auto simp: preserves_def deleteQueue_def updateQueue_def upsertQueue_def Let_def unique_key_delete_where
      unique_key_update_where intro!: db_wf_queues dest: db_wf_keys(9))

lemma requireDatabaseBacked_keeps [keep_rules]: "preserves I (requireDatabaseBacked q)"
  unfolding requireDatabaseBacked_def by (intro keep_rules)

lemma setConcurrency_keeps [keep_rules]: "preserves db_wf (setConcurrency now q c)"
  unfolding setConcurrency_def by (intro keep_rules)

lemma setWorkerConcurrency_keeps [keep_rules]: "preserves db_wf (setWorkerConcurrency now q c)"
  unfolding setWorkerConcurrency_def by (intro keep_rules)

lemma setRateLimit_keeps [keep_rules]: "preserves db_wf (setRateLimit now q l)"
  unfolding setRateLimit_def by (intro keep_rules)

lemma queue_flag_setters_keep [keep_rules]:
  "preserves db_wf (setPriorityEnabled now q b)" "preserves db_wf (setPartitionQueue now q b)"
  "preserves db_wf (setMinPollingIntervalMs now q v)"
  unfolding setPriorityEnabled_def setPartitionQueue_def setMinPollingIntervalMs_def by (intro keep_rules)+

lemma transitionDelayedWorkflows_keeps [keep_rules]: "preserves db_wf (transitionDelayedWorkflows now)"
  by (rule preservesI)
    (auto simp: transitionDelayedWorkflows_def intro!: db_wf_update_status_frame split: if_splits)

lemma mark_started_frame [simp]:
  "ws_workflow_uuid (mark_started s now e v l r) = ws_workflow_uuid r"
  "ws_status (mark_started s now e v l r) = PENDING"
  "ws_queue_name (mark_started s now e v l r) = ws_queue_name r"
  "ws_deduplication_id (mark_started s now e v l r) = ws_deduplication_id r"
  "ws_queue_partition_key (mark_started s now e v l r) = ws_queue_partition_key r"
  "ws_started_at_epoch_ms (mark_started s now e v l r) = Some s"
  "ws_rate_limited (mark_started s now e v l r) = l"
  by (simp_all add: mark_started_def)

lemma in_partition_mark [simp]: "in_partition p (mark_started s now e v l r) = in_partition p r"
  by (simp add: in_partition_def split: option.splits)

lemma claim_loop_keeps:
  "db_wf (db\<lparr>t_workflow_status := rows\<rparr>) \<Longrightarrow>
    db_wf (db\<lparr>t_workflow_status := snd (claim_loop limit recent (mark_started s now e v l) ids claimed rows)\<rparr>)"
proof (induction ids arbitrary: claimed rows)
  case (Cons wfid ids)
  let ?m = "\<lambda>r. ws_workflow_uuid r = wfid \<and> ws_status r = ENQUEUED"
  have "db_wf (db\<lparr>t_workflow_status := update_where ?m (mark_started s now e v l) rows\<rparr>)"
    using db_wf_update_status_frame [OF Cons.prems, of ?m "mark_started s now e v l"] by simp
  with Cons show ?case by (simp add: Let_def)
qed simp

lemma findAndMark_keeps [keep_rules]: "preserves db_wf (findAndMarkStartableWorkflows s now lk q e v p)"
proof (rule preservesI)
  fix db assume "db_wf db"
  then show "db_wf (snd (findAndMarkStartableWorkflows s now lk q e v p db))"
    using claim_loop_keeps [where db = db and rows = "t_workflow_status db"]
    by (auto simp: findAndMarkStartableWorkflows_def Let_def split: prod.splits) (metis snd_conv)+
qed

section \<open>What the claim loop does\<close>

definition claim_budget :: "int option \<Rightarrow> int \<Rightarrow> string list \<Rightarrow> nat \<Rightarrow> nat" where
  "claim_budget limit recent claimed n =
     (case limit of None \<Rightarrow> n | Some l \<Rightarrow> min n (nat (l - recent - int (length claimed))))"

lemma claim_loop_spec:
  assumes "distinct ids" and "unique_key ws_workflow_uuid rows"
    and "\<forall>i\<in>set ids. \<exists>r\<in>set rows. ws_workflow_uuid r = i \<and> ws_status r = ENQUEUED"
    and "\<And>r. ws_workflow_uuid (mark r) = ws_workflow_uuid r"
  shows "claim_loop limit recent mark ids claimed rows =
    (claimed @ take (claim_budget limit recent claimed (length ids)) ids,
     map (\<lambda>r. if ws_workflow_uuid r \<in> set (take (claim_budget limit recent claimed (length ids)) ids) then mark r else r) rows)"
  using assms
proof (induction ids arbitrary: claimed rows)
  case (Cons wfid ids)
  let ?m = "\<lambda>r. ws_workflow_uuid r = wfid \<and> ws_status r = ENQUEUED"
  show ?case
  proof (cases "case limit of None \<Rightarrow> False | Some l \<Rightarrow> int (length claimed) + recent \<ge> l")
    case True
    then have "claim_budget limit recent claimed (length (wfid # ids)) = 0"
      by (auto simp: claim_budget_def split: option.splits)
    with True show ?thesis by simp
  next
    case False
    obtain r0 where r0: "r0 \<in> set rows" "?m r0" using Cons.prems(3) by auto
    then have pos: "row_count ?m rows > 0" using row_count_0_iff [of ?m rows] by auto
    have upd: "update_where ?m mark rows = map (\<lambda>r. if ws_workflow_uuid r = wfid then mark r else r) rows"
      unfolding update_where_def using unique_key_eq [OF Cons.prems(2)] r0 by (intro map_cong) auto
    have k: "claim_budget limit recent claimed (length (wfid # ids)) =
        Suc (claim_budget limit recent (claimed @ [wfid]) (length ids))"
      using False by (auto simp: claim_budget_def split: option.splits)
    have "claim_loop limit recent mark ids (claimed @ [wfid]) (update_where ?m mark rows) =
      ((claimed @ [wfid]) @ take (claim_budget limit recent (claimed @ [wfid]) (length ids)) ids,
       map (\<lambda>r. if ws_workflow_uuid r \<in> set (take (claim_budget limit recent (claimed @ [wfid]) (length ids)) ids)
          then mark r else r) (update_where ?m mark rows))"
    proof (rule Cons.IH)
      show "unique_key ws_workflow_uuid (update_where ?m mark rows)"
        using Cons.prems(2,4) by (simp add: unique_key_update_where)
      show "\<forall>i\<in>set ids. \<exists>r\<in>set (update_where ?m mark rows). ws_workflow_uuid r = i \<and> ws_status r = ENQUEUED"
        unfolding upd using Cons.prems(1,3) by fastforce
    qed (use Cons.prems in auto)
    moreover have "claim_loop limit recent mark (wfid # ids) claimed rows =
        claim_loop limit recent mark ids (claimed @ [wfid]) (update_where ?m mark rows)"
      using False pos by (simp add: Let_def)
    moreover have "wfid \<notin> set (take n ids)" for n using Cons.prems(1) by (auto dest: in_set_takeD)
    ultimately show ?thesis
      unfolding k using Cons.prems(4) by (auto simp: upd)
  qed
qed (simp add: claim_budget_def split: option.splits)

definition enqueued_in :: "string \<Rightarrow> workflow_status list \<Rightarrow> bool" where
  "enqueued_in wfid rows \<longleftrightarrow> (\<exists>r\<in>set rows. ws_workflow_uuid r = wfid \<and> ws_status r = ENQUEUED)"

lemma enqueued_in_claim_one [simp]:
  "enqueued_in wfid (update_where (\<lambda>r. ws_workflow_uuid r = i \<and> ws_status r = ENQUEUED) (mark_started s now e v l) rows)
    \<longleftrightarrow> wfid \<noteq> i \<and> enqueued_in wfid rows"
  by (induction rows) (auto simp: enqueued_in_def)

lemma row_count_enqueued [simp]:
  "row_count (\<lambda>r. ws_workflow_uuid r = i \<and> ws_status r = ENQUEUED) rows > 0 \<longleftrightarrow> enqueued_in i rows"
  by (induction rows) (auto simp: enqueued_in_def)

text \<open>On any list of candidates, stale ones included, a claimed workflow was enqueued and is not any more.\<close>

lemma claim_loop_sound:
  "wfid \<in> set (fst (claim_loop limit recent (mark_started s now e v l) ids claimed rows)) \<Longrightarrow>
    wfid \<in> set claimed \<or> wfid \<in> set ids \<and> enqueued_in wfid rows"
proof (induction ids arbitrary: claimed rows)
  case (Cons i ids)
  let ?r = "update_where (\<lambda>r. ws_workflow_uuid r = i \<and> ws_status r = ENQUEUED) (mark_started s now e v l) rows"
  from Cons.prems Cons.IH [of "claimed @ [i]" ?r] Cons.IH [of claimed ?r]
  show ?case by (cases "enqueued_in i rows") (auto simp: Let_def split: if_splits)
qed simp

lemma claim_loop_enqueued_mono:
  "enqueued_in wfid (snd (claim_loop limit recent (mark_started s now e v l) ids claimed rows)) \<Longrightarrow> enqueued_in wfid rows"
proof (induction ids arbitrary: claimed rows)
  case (Cons i ids)
  let ?r = "update_where (\<lambda>r. ws_workflow_uuid r = i \<and> ws_status r = ENQUEUED) (mark_started s now e v l) rows"
  from Cons.prems Cons.IH [of "claimed @ [i]" ?r] Cons.IH [of claimed ?r]
  show ?case by (cases "enqueued_in i rows") (auto simp: Let_def split: if_splits)
qed simp

lemma claim_loop_dequeues:
  "wfid \<in> set (fst (claim_loop limit recent (mark_started s now e v l) ids claimed rows)) \<Longrightarrow> wfid \<notin> set claimed \<Longrightarrow>
    \<not> enqueued_in wfid (snd (claim_loop limit recent (mark_started s now e v l) ids claimed rows))"
proof (induction ids arbitrary: claimed rows)
  case (Cons i ids)
  let ?r = "update_where (\<lambda>r. ws_workflow_uuid r = i \<and> ws_status r = ENQUEUED) (mark_started s now e v l) rows"
  show ?case
  proof (cases "i = wfid")
    case True
    then have "\<not> enqueued_in wfid (snd (claim_loop limit recent (mark_started s now e v l) ids c ?r))" for c
      using claim_loop_enqueued_mono [of wfid limit recent s now e v l ids c ?r] by auto
    then show ?thesis using Cons.prems by (auto simp: Let_def split: if_splits)
  next
    case False
    with Cons show ?thesis by (auto simp: Let_def split: if_splits)
  qed
qed simp

lemma claim_loop_distinct:
  "distinct claimed \<Longrightarrow> (\<And>i. i \<in> set claimed \<Longrightarrow> \<not> enqueued_in i rows) \<Longrightarrow>
    distinct (fst (claim_loop limit recent (mark_started s now e v l) ids claimed rows))"
proof (induction ids arbitrary: claimed rows)
  case (Cons i ids)
  let ?r = "update_where (\<lambda>r. ws_workflow_uuid r = i \<and> ws_status r = ENQUEUED) (mark_started s now e v l) rows"
  have "enqueued_in i rows \<Longrightarrow> distinct (claimed @ [i])" using Cons.prems by auto
  with Cons.prems Cons.IH [of "claimed @ [i]" ?r] Cons.IH [of claimed ?r]
  show ?case by (cases "enqueued_in i rows") (auto simp: Let_def)
qed simp

lemma row_count_map_le:
  "row_count P (map (\<lambda>r. if Q r then f r else r) rows) \<le> row_count P rows + row_count Q rows"
  by (induction rows) auto

lemma row_count_keys_le:
  assumes "unique_key key rows"
  shows "row_count (\<lambda>r. key r \<in> set C) rows \<le> length C"
proof -
  let ?ks = "map key (filter (\<lambda>r. key r \<in> set C) rows)"
  have "distinct ?ks" using assms unfolding unique_key_def by (rule distinct_map_filter)
  then have "length ?ks = card (set ?ks)" by (simp only: distinct_card)
  also have "\<dots> \<le> card (set C)" by (rule card_mono) auto
  also have "\<dots> \<le> length C" by (rule card_length)
  finally show ?thesis by (simp add: row_count_def)
qed

lemma take_filter_prefix: "\<forall>x\<in>set (take n xs). P x \<Longrightarrow> m \<le> n \<Longrightarrow> take m xs = take m (filter P xs)"
proof (induction xs arbitrary: m n)
  case (Cons x xs)
  show ?case
  proof (cases m)
    case (Suc m')
    with Cons.prems obtain n' where n: "n = Suc n'" "m' \<le> n'" by (cases n) auto
    then have "take m' xs = take m' (filter P xs)" using Cons.prems(1) by (intro Cons.IH [of n' m']) auto
    with Suc n Cons.prems(1) show ?thesis by simp
  qed simp
qed simp

lemma startable_props:
  assumes "r \<in> set (startable q v p db)"
  shows "r \<in> set (t_workflow_status db)" "ws_status r = ENQUEUED" "ws_queue_name r = Some (wq_name q)" "in_partition p r"
  using assms by (simp_all add: startable_def)

lemma distinct_map_sort_key: "distinct (map f (sort_key k xs)) = distinct (map f xs)"
  by (simp add: distinct_map)

lemma startable_unique:
  "db_wf db \<Longrightarrow> distinct (map ws_workflow_uuid (startable q v p db))"
  using db_wf_status_key [of db] unfolding startable_def distinct_map_sort_key unique_key_def
  by (simp add: distinct_map_filter)

section \<open>What one dequeue does\<close>

text \<open>The two quotas of a dequeue: what the rate limit and what the concurrency limits leave (\<open>None\<close>: no limit).\<close>

definition rate_quota :: "int \<Rightarrow> WorkflowQueue \<Rightarrow> string option \<Rightarrow> sysdb \<Rightarrow> int option" where
  "rate_quota start q p db = map_option (\<lambda>rl. rl_limitPerPeriod rl -
     int (row_count (recently_started (wq_name q) p (start - rl_periodMS rl)) (t_workflow_status db))) (wq_rateLimit q)"

definition task_quota :: "WorkflowQueue \<Rightarrow> string option \<Rightarrow> sysdb \<Rightarrow> int option" where
  "task_quota q p db = max_tasks q (int (countRunningWorkflowsForQueue (wq_name q) p db))
     (int (row_count (running_in_queue (wq_name q) p) (t_workflow_status db)))"

definition dequeue_selection ::
  "int \<Rightarrow> (workflow_status \<Rightarrow> bool) \<Rightarrow> WorkflowQueue \<Rightarrow> string \<Rightarrow> string option \<Rightarrow> sysdb \<Rightarrow> string list" where
  "dequeue_selection start lk q v p db =
     map ws_workflow_uuid (take_max (rate_quota start q p db) (take_max (task_quota q p db)
       (filter (\<lambda>r. \<not> lk r) (startable q v p db))))"

definition mark_rows :: "(workflow_status \<Rightarrow> workflow_status) \<Rightarrow> string list \<Rightarrow> workflow_status list \<Rightarrow> workflow_status list" where
  "mark_rows f ids rows = map (\<lambda>r. if ws_workflow_uuid r \<in> set ids then f r else r) rows"

lemma mark_rows_Nil [simp]: "mark_rows f [] rows = rows"
  by (simp add: mark_rows_def)

lemma take_max_simps [simp]: "take_max None xs = xs" "take_max (Some n) xs = take (nat n) xs"
  by (simp_all add: take_max_def)

lemma set_take_max: "set (take_max m xs) \<subseteq> set xs"
  by (cases m) (auto dest: in_set_takeD)

lemma take_max_map: "take_max m (map f xs) = map f (take_max m xs)"
  by (cases m) (simp_all add: take_map)

lemma distinct_map_take_max: "distinct (map f xs) \<Longrightarrow> distinct (map f (take_max m xs))"
  by (cases m) (simp_all add: take_map [symmetric])

lemma take_max_filter_prefix: "\<forall>x\<in>set (take_max m xs). P x \<Longrightarrow> take_max m xs = take_max m (filter P xs)"
  by (cases m) (auto intro: take_filter_prefix [OF _ order_refl] simp: filter_id_conv)

lemma claim_loop_selected:
  assumes wfd: "db_wf db" and sub: "set sel \<subseteq> set (startable q v p db)" and d: "distinct (map ws_workflow_uuid sel)"
    and keep: "\<And>r. ws_workflow_uuid (mark r) = ws_workflow_uuid r"
  shows "claim_loop limit recent mark (map ws_workflow_uuid sel) [] (t_workflow_status db) =
    (map ws_workflow_uuid (take_max (map_option (\<lambda>l. l - recent) limit) sel),
     mark_rows mark (map ws_workflow_uuid (take_max (map_option (\<lambda>l. l - recent) limit) sel)) (t_workflow_status db))"
proof -
  have "\<forall>i\<in>set (map ws_workflow_uuid sel). \<exists>r\<in>set (t_workflow_status db). ws_workflow_uuid r = i \<and> ws_status r = ENQUEUED"
    using sub startable_props by fastforce
  note spec = claim_loop_spec [OF d db_wf_status_key [OF wfd] this keep, of limit recent "[]"]
  have "take (claim_budget limit recent [] (length (map ws_workflow_uuid sel))) (map ws_workflow_uuid sel) =
      map ws_workflow_uuid (take_max (map_option (\<lambda>l. l - recent) limit) sel)"
    by (cases limit) (simp_all add: claim_budget_def take_map min_def)
  then show ?thesis unfolding spec mark_rows_def by simp
qed

lemma findAndMark_result:
  assumes wfd: "db_wf db" and run: "findAndMarkStartableWorkflows start now lk q e v p db = (Inr ids, db')"
  shows "ids = dequeue_selection start lk q v p db"
    and "db' = db\<lparr>t_workflow_status :=
      mark_rows (mark_started start now e v (wq_rateLimit q \<noteq> None)) ids (t_workflow_status db)\<rparr>"
proof -
  let ?limit = "map_option rl_limitPerPeriod (wq_rateLimit q)"
  let ?recent = "case wq_rateLimit q of None \<Rightarrow> 0 | Some rl \<Rightarrow>
    int (row_count (recently_started (wq_name q) p (start - rl_periodMS rl)) (t_workflow_status db))"
  let ?mark = "mark_started start now e v (wq_rateLimit q \<noteq> None)"
  let ?strict = "wq_concurrency q \<noteq> None \<and> wq_concurrency q \<noteq> Some 0"
  let ?sel = "take_max (task_quota q p db) (filter (\<lambda>r. \<not> lk r) (startable q v p db))"
  have rate: "map_option (\<lambda>l. l - ?recent) ?limit = rate_quota start q p db"
    by (simp add: rate_quota_def option.map_comp comp_def split: option.splits)
  have "distinct (map ws_workflow_uuid ?sel)"
    by (intro distinct_map_take_max distinct_map_filter startable_unique wfd)
  moreover have "set ?sel \<subseteq> set (startable q v p db)" using set_take_max by fastforce
  ultimately have loop: "claim_loop ?limit ?recent ?mark (map ws_workflow_uuid ?sel) [] (t_workflow_status db) =
      (dequeue_selection start lk q v p db, mark_rows ?mark (dequeue_selection start lk q v p db) (t_workflow_status db))"
    using claim_loop_selected [OF wfd, where sel = ?sel and mark = ?mark and limit = ?limit and recent = ?recent, of q v p]
    unfolding rate dequeue_selection_def by simp
  have none: "dequeue_selection start lk q v p db = []"
    if "(case ?limit of None \<Rightarrow> False | Some l \<Rightarrow> ?recent \<ge> l) \<or> (case task_quota q p db of None \<Rightarrow> False | Some m \<Rightarrow> m \<le> 0)"
    using that by (auto simp: dequeue_selection_def rate_quota_def split: option.splits)
  have sel: "?sel = take_max (task_quota q p db) (if ?strict then startable q v p db else filter (\<lambda>r. \<not> lk r) (startable q v p db))"
    if "\<not> (wq_concurrency q \<noteq> None \<and> wq_concurrency q \<noteq> Some 0 \<and> (\<exists>r\<in>set (take_max (task_quota q p db) (startable q v p db)). lk r))"
  proof (cases ?strict)
    case True
    with that have "\<forall>r\<in>set (take_max (task_quota q p db) (startable q v p db)). \<not> lk r" by blast
    from take_max_filter_prefix [OF this] show ?thesis unfolding if_P [OF True] by (rule sym)
  qed (simp only: if_False)
  let ?A = "case ?limit of None \<Rightarrow> False | Some l \<Rightarrow> ?recent \<ge> l"
  let ?B = "case task_quota q p db of None \<Rightarrow> False | Some m \<Rightarrow> m \<le> 0"
  let ?C = "wq_concurrency q \<noteq> None \<and> wq_concurrency q \<noteq> Some 0 \<and> (\<exists>r\<in>set (take_max (task_quota q p db) (startable q v p db)). lk r)"
  note def = run [unfolded findAndMarkStartableWorkflows_def Let_def, folded task_quota_def]
  have early: "ids = [] \<and> db' = db" if "?A \<or> ?B"
  proof (cases ?A)
    case True
    from def [unfolded if_P [OF this]] show ?thesis by simp
  next
    case False
    with that have B: ?B by blast
    from def [unfolded if_not_P [OF False] if_P [OF B]] show ?thesis by simp
  qed
  have late: "ids = dequeue_selection start lk q v p db \<and>
      db' = db\<lparr>t_workflow_status := mark_rows ?mark (dequeue_selection start lk q v p db) (t_workflow_status db)\<rparr>"
    if "\<not> ?A" "\<not> ?B"
  proof -
    note run1 = def [unfolded if_not_P [OF that(1)] if_not_P [OF that(2)]]
    have C: "\<not> ?C"
    proof
      assume C: ?C
      from run1 [unfolded if_P [OF C]] show False by simp
    qed
    from run1 [unfolded if_not_P [OF C] sel [OF C, symmetric] loop] show ?thesis by auto
  qed
  show "ids = dequeue_selection start lk q v p db"
    "db' = db\<lparr>t_workflow_status := mark_rows ?mark ids (t_workflow_status db)\<rparr>"
    using none early late by (cases "?A \<or> ?B"; simp)+
qed

lemma set_mark_rows:
  "set (mark_rows f ids rows) = (\<lambda>r. if ws_workflow_uuid r \<in> set ids then f r else r) ` set rows"
  by (simp add: mark_rows_def)

lemma row_count_mark_rows:
  assumes "unique_key ws_workflow_uuid rows"
  shows "row_count P (mark_rows f ids rows) \<le> row_count P rows + length ids"
  using row_count_map_le [of P "\<lambda>r. ws_workflow_uuid r \<in> set ids" f rows] row_count_keys_le [OF assms, of ids]
  unfolding mark_rows_def by simp

lemma length_dequeue_selection:
  "rate_quota start q p db = Some n \<Longrightarrow> length (dequeue_selection start lk q v p db) \<le> nat n"
  "task_quota q p db = Some m \<Longrightarrow> length (dequeue_selection start lk q v p db) \<le> nat m"
  by (auto simp: dequeue_selection_def take_max_def split: option.splits)

lemma task_quota_bounds:
  assumes "wq_concurrency q = Some c"
  obtains m where "task_quota q p db = Some m"
    and "m \<le> max 0 (c - int (row_count (running_in_queue (wq_name q) p) (t_workflow_status db)))"
  using assms by (cases "wq_workerConcurrency q") (auto simp: task_quota_def max_tasks_def Let_def)

lemma task_quota_worker_bound:
  assumes "wq_workerConcurrency q = Some w"
  obtains m where "task_quota q p db = Some m" and "m \<le> max 0 (w - int (countRunningWorkflowsForQueue (wq_name q) p db))"
  using assms by (cases "wq_concurrency q") (auto simp: task_quota_def max_tasks_def Let_def)

text \<open>C7: one dequeue of \<open>findAndMarkStartableWorkflows\<close> claims exactly the first workflows, by priority and then
  creation time, of those that are enqueued on this queue and partition for a runnable application version and not
  locked by another worker: as many as the rate limit and the concurrency limits leave. It marks exactly those rows
  \<open>PENDING\<close> for this executor and changes nothing else.\<close>

theorem dequeue_claims_first_in_order:
  assumes "db_wf db" and "findAndMarkStartableWorkflows start now lk q e v p db = (Inr ids, db')"
  shows "ids = map ws_workflow_uuid (take_max (rate_quota start q p db) (take_max (task_quota q p db)
      (filter (\<lambda>r. \<not> lk r) (startable q v p db)))) \<and>
    db' = db\<lparr>t_workflow_status :=
      mark_rows (mark_started start now e v (wq_rateLimit q \<noteq> None)) ids (t_workflow_status db)\<rparr> \<and>
    sorted (map (\<lambda>r. (ws_priority r, ws_created_at r)) (startable q v p db)) \<and> distinct ids"
proof (intro conjI)
  show "ids = map ws_workflow_uuid (take_max (rate_quota start q p db) (take_max (task_quota q p db)
      (filter (\<lambda>r. \<not> lk r) (startable q v p db))))"
    using findAndMark_result(1) [OF assms] by (simp add: dequeue_selection_def)
  then show "distinct ids"
    using startable_unique [OF assms(1), of q v p] by (simp add: distinct_map_take_max distinct_map_filter)
qed (use findAndMark_result(2) [OF assms] in \<open>simp_all add: startable_def\<close>)

text \<open>C4: flow control holds after every dequeue. The workflows of the queue (or partition) that are running after a
  dequeue that claims something are at most \<open>concurrency\<close>; this worker claims at most what its \<open>workerConcurrency\<close>
  leaves; and the workflows started within the rate limit's period are at most \<open>limitPerPeriod\<close>.\<close>

theorem dequeue_respects_flow_control:
  assumes "db_wf db" and "findAndMarkStartableWorkflows start now lk q e v p db = (Inr ids, db')" and "ids \<noteq> []"
  shows "(\<forall>c. wq_concurrency q = Some c \<longrightarrow>
      int (row_count (running_in_queue (wq_name q) p) (t_workflow_status db')) \<le> c) \<and>
    (\<forall>w. wq_workerConcurrency q = Some w \<longrightarrow>
      int (countRunningWorkflowsForQueue (wq_name q) p db) + int (length ids) \<le> w) \<and>
    (\<forall>rl. wq_rateLimit q = Some rl \<longrightarrow>
      int (row_count (recently_started (wq_name q) p (start - rl_periodMS rl)) (t_workflow_status db')) \<le> rl_limitPerPeriod rl)"
proof (intro conjI allI impI)
  note res = findAndMark_result [OF assms(1,2)]
  have pos: "length ids > 0" using assms(3) by simp
  have grow: "row_count P (t_workflow_status db') \<le> row_count P (t_workflow_status db) + length ids" for P
    using row_count_mark_rows [OF db_wf_status_key [OF assms(1)]] by (simp add: res(2))
  fix c assume "wq_concurrency q = Some c"
  then obtain m where m: "task_quota q p db = Some m"
    and "m \<le> max 0 (c - int (row_count (running_in_queue (wq_name q) p) (t_workflow_status db)))"
    by (rule task_quota_bounds)
  then show "int (row_count (running_in_queue (wq_name q) p) (t_workflow_status db')) \<le> c"
    using length_dequeue_selection(2) [OF m, of start lk v] grow [of "running_in_queue (wq_name q) p"] pos
    unfolding res(1) by linarith
next
  note res = findAndMark_result [OF assms(1,2)]
  fix w assume "wq_workerConcurrency q = Some w"
  then obtain m where m: "task_quota q p db = Some m"
    and "m \<le> max 0 (w - int (countRunningWorkflowsForQueue (wq_name q) p db))"
    by (rule task_quota_worker_bound)
  then show "int (countRunningWorkflowsForQueue (wq_name q) p db) + int (length ids) \<le> w"
    using length_dequeue_selection(2) [OF m, of start lk v] assms(3) unfolding res(1) [symmetric] by (cases ids) auto
next
  note res = findAndMark_result [OF assms(1,2)]
  fix rl assume rl: "wq_rateLimit q = Some rl"
  let ?P = "recently_started (wq_name q) p (start - rl_periodMS rl)"
  have "length ids \<le> nat (rl_limitPerPeriod rl - int (row_count ?P (t_workflow_status db)))"
    using length_dequeue_selection(1) [of start q p db _ lk v] rl unfolding res(1) by (simp add: rate_quota_def)
  moreover have "row_count ?P (t_workflow_status db') \<le> row_count ?P (t_workflow_status db) + length ids"
    using row_count_mark_rows [OF db_wf_status_key [OF assms(1)]] by (simp add: res(2))
  ultimately show "int (row_count ?P (t_workflow_status db')) \<le> rl_limitPerPeriod rl"
    using assms(3) by (cases ids) auto
qed

definition example_queue :: WorkflowQueue where
  "example_queue = \<lparr>wq_name = ''q'', wq_concurrency = Some 2,
     wq_rateLimit = Some \<lparr>rl_limitPerPeriod = 5, rl_periodMS = 1000\<rparr>, wq_workerConcurrency = Some 1,
     wq_priorityEnabled = False, wq_partitionQueue = False, wq_minPollingIntervalMs = None, wq_databaseBacked = True,
     wq_clientBound = False\<rparr>"

definition example_waiting :: sysdb where
  "example_waiting = example_db [example_row ''a'' ENQUEUED, example_row ''b'' ENQUEUED, example_row ''c'' PENDING]"

lemma example_waiting_wf: "db_wf example_waiting"
  unfolding example_waiting_def by (rule db_wf_example) (simp_all add: unique_key_def dedup_unique_def dedup_conflict_def)

lemma example_dequeue:
  "fst (findAndMarkStartableWorkflows 5000 5001 (\<lambda>r. False) example_queue ''e'' ''v1'' None example_waiting) = Inr [''a'']"
  by (simp add: example_waiting_def example_queue_def example_defs findAndMarkStartableWorkflows_def Let_def
      startable_def max_tasks_def latest_version_def version_matches_def in_partition_def countRunningWorkflowsForQueue_def
      running_in_queue_def recently_started_def)

theorem dequeue_claims_first_in_order_witness:
  "\<exists>db'. findAndMarkStartableWorkflows 5000 5001 (\<lambda>r. False) example_queue ''e'' ''v1'' None example_waiting = (Inr [''a''], db') \<and>
    db' = example_waiting\<lparr>t_workflow_status :=
      mark_rows (mark_started 5000 5001 ''e'' ''v1'' True) [''a''] (t_workflow_status example_waiting)\<rparr>"
proof -
  obtain db' where run: "findAndMarkStartableWorkflows 5000 5001 (\<lambda>r. False) example_queue ''e'' ''v1'' None example_waiting
      = (Inr [''a''], db')"
    using example_dequeue by (metis prod.collapse)
  from dequeue_claims_first_in_order [OF example_waiting_wf run] run show ?thesis by (simp add: example_queue_def)
qed

theorem dequeue_respects_flow_control_witness:
  "int (row_count (running_in_queue ''q'' None) (t_workflow_status
     (snd (findAndMarkStartableWorkflows 5000 5001 (\<lambda>r. False) example_queue ''e'' ''v1'' None example_waiting)))) \<le> 2"
proof -
  obtain db' where run: "findAndMarkStartableWorkflows 5000 5001 (\<lambda>r. False) example_queue ''e'' ''v1'' None example_waiting
      = (Inr [''a''], db')"
    using example_dequeue by (metis prod.collapse)
  from dequeue_respects_flow_control [OF example_waiting_wf run] run show ?thesis by (simp add: example_queue_def)
qed

lemma dequeued_not_enqueued:
  assumes "db_wf db" and "findAndMarkStartableWorkflows start now lk q e v p db = (Inr ids, db')" and "i \<in> set ids"
  shows "\<not> enqueued_in i (t_workflow_status db')"
  using findAndMark_result(2) [OF assms(1,2)] assms(3) by (auto simp: enqueued_in_def set_mark_rows split: if_splits)

lemma dequeued_was_enqueued:
  assumes "db_wf db" and "findAndMarkStartableWorkflows start now lk q e v p db = (Inr ids, db')" and "i \<in> set ids"
  shows "enqueued_in i (t_workflow_status db)"
proof -
  obtain r where "ws_workflow_uuid r = i" "r \<in> set (startable q v p db)"
    using assms(3) unfolding findAndMark_result(1) [OF assms(1,2)] dequeue_selection_def
    by (auto dest!: subsetD [OF set_take_max])
  then show ?thesis using startable_props [of r q v p db] by (auto simp: enqueued_in_def)
qed

text \<open>C3: a workflow is dispatched at most once. Of two dequeues, by any workers with any limits and versions, the
  second claims nothing the first has claimed; this holds even for the update loop of a worker whose candidate list
  was selected before the first dequeue committed, because the update is guarded by the status.\<close>

theorem no_double_dispatch:
  assumes "db_wf db" and "findAndMarkStartableWorkflows start now lk q e v p db = (Inr ids, db1)"
  shows "(\<forall>start' now' lk' q' e' v' p' ids' db2.
      findAndMarkStartableWorkflows start' now' lk' q' e' v' p' db1 = (Inr ids', db2) \<longrightarrow> set ids \<inter> set ids' = {}) \<and>
    (\<forall>limit recent start' now' e' v' l' stale.
      set ids \<inter> set (fst (claim_loop limit recent (mark_started start' now' e' v' l') stale [] (t_workflow_status db1))) = {})"
proof (intro conjI allI impI)
  fix start' now' lk' q' e' v' p' ids' db2
  assume "findAndMarkStartableWorkflows start' now' lk' q' e' v' p' db1 = (Inr ids', db2)"
  moreover have "db_wf db1" using preservesD [OF findAndMark_keeps assms] .
  ultimately show "set ids \<inter> set ids' = {}"
    using dequeued_was_enqueued dequeued_not_enqueued [OF assms] by blast
next
  fix limit recent start' now' e' v' l' stale
  show "set ids \<inter> set (fst (claim_loop limit recent (mark_started start' now' e' v' l') stale [] (t_workflow_status db1))) = {}"
    using dequeued_not_enqueued [OF assms] by (auto dest: claim_loop_sound)
qed

theorem no_double_dispatch_witness:
  "\<exists>db1. findAndMarkStartableWorkflows 5000 5001 (\<lambda>r. False) example_queue ''e'' ''v1'' None example_waiting = (Inr [''a''], db1) \<and>
    ''a'' \<notin> set (fst (claim_loop None 0 (mark_started 5000 5001 ''f'' ''v1'' True) [''a'', ''b''] [] (t_workflow_status db1)))"
proof -
  obtain db1 where run: "findAndMarkStartableWorkflows 5000 5001 (\<lambda>r. False) example_queue ''e'' ''v1'' None example_waiting
      = (Inr [''a''], db1)"
    using example_dequeue by (metis prod.collapse)
  from no_double_dispatch [OF example_waiting_wf run] have
    "set [''a''] \<inter> set (fst (claim_loop None 0 (mark_started 5000 5001 ''f'' ''v1'' True) [''a'', ''b''] [] (t_workflow_status db1))) = {}"
    by blast
  with run show ?thesis by simp
qed

section \<open>Queue configuration\<close>

lemma queueRecord_new [simp]: "queueRecordFromRow (new_queue_row now i r) = r"
  by (simp add: queueRecordFromRow_def new_queue_row_def)

lemma queueRecord_overwrite: "qu_name q = qr_name r \<Longrightarrow> queueRecordFromRow (overwrite_queue now r q) = r"
  by (simp add: queueRecordFromRow_def overwrite_queue_def)

lemma getQueue_upsert:
  assumes "upsertQueue now i r True db = (Inr b, db')"
  shows "getQueue (qr_name r) db' = Some r" and "n \<noteq> qr_name r \<Longrightarrow> getQueue n db' = getQueue n db"
    and "b \<longleftrightarrow> getQueue (qr_name r) db = None"
proof -
  have "getQueue (qr_name r) db' = Some r \<and> (n \<noteq> qr_name r \<longrightarrow> getQueue n db' = getQueue n db) \<and>
    (b \<longleftrightarrow> getQueue (qr_name r) db = None)"
  proof (cases "find_row qu_name (qr_name r) (t_queues db)")
    case None
    moreover from this have "qr_name r \<notin> qu_name ` set (t_queues db)" by (simp only: find_row_None_iff not_False_eq_True)
    ultimately show ?thesis using assms
      by (auto simp: upsertQueue_def getQueue_def Let_def find_row_append split: option.splits)
  next
    case (Some q)
    then have q: "qu_name q = qr_name r" "qr_name r \<in> qu_name ` set (t_queues db)"
      using find_row_SomeD [OF Some] by force+
    show ?thesis using assms Some q
      by (simp add: upsertQueue_def getQueue_def Let_def find_row_update_where queueRecord_overwrite)
       (auto simp: find_row_update_where queueRecord_overwrite)
  qed
  then show "getQueue (qr_name r) db' = Some r" and "n \<noteq> qr_name r \<Longrightarrow> getQueue n db' = getQueue n db"
    and "b \<longleftrightarrow> getQueue (qr_name r) db = None" by auto
qed

definition updated_record :: "QueueRecordUpdate \<Rightarrow> QueueRecord \<Rightarrow> QueueRecord" where
  "updated_record u r = r\<lparr>
     qr_concurrency := coalesce (up_concurrency u) (qr_concurrency r),
     qr_workerConcurrency := coalesce (up_workerConcurrency u) (qr_workerConcurrency r),
     qr_rateLimitMax := coalesce (up_rateLimitMax u) (qr_rateLimitMax r),
     qr_rateLimitPeriodMS := coalesce (up_rateLimitPeriodMS u) (qr_rateLimitPeriodMS r),
     qr_priorityEnabled := coalesce (up_priorityEnabled u) (qr_priorityEnabled r),
     qr_partitionQueue := coalesce (up_partitionQueue u) (qr_partitionQueue r),
     qr_pollingIntervalMS := coalesce (up_pollingIntervalMS u) (qr_pollingIntervalMS r)\<rparr>"

lemma updated_record_none: "updated_record no_queue_update r = r"
  by (simp add: updated_record_def no_queue_update_def)

lemma queueRecord_apply_update: "queueRecordFromRow (apply_queue_update now u q) = updated_record u (queueRecordFromRow q)"
  by (simp add: queueRecordFromRow_def apply_queue_update_def updated_record_def)

lemma updateQueue_run:
  assumes "getQueue n db = Some r"
  obtains db' where "updateQueue now n u db = (Inr (), db')" and "getQueue n db' = Some (updated_record u r)"
proof (cases "u = no_queue_update")
  case True
  with assms that show ?thesis by (simp add: updateQueue_def updated_record_none)
next
  case False
  obtain q where q: "find_row qu_name n (t_queues db) = Some q" "r = queueRecordFromRow q"
    using assms by (auto simp: getQueue_def)
  have "qu_name q = n" using find_row_SomeD [OF q(1)] by blast
  with q have "getQueue n (db\<lparr>t_queues := update_where (\<lambda>q. qu_name q = n) (apply_queue_update now u) (t_queues db)\<rparr>) =
      Some (updated_record u r)"
    by (simp add: getQueue_def find_row_update_where queueRecord_apply_update)
  with False show ?thesis by (intro that) (auto simp only: updateQueue_def if_False)
qed

text \<open>Registering a queue and reading it back. After an upsert that may update, \<open>getQueue\<close> returns the stored
  record, the queue object built from it carries the registered limits and flags, with the documented defaults for
  the missing ones, all other queues read as before, and the call reports a new queue exactly if none existed.\<close>

lemma queue_register_roundtrip:
  assumes "upsertQueue now i (recordFromParams name params) True db = (Inr created, db')"
  shows "getQueue name db' = Some (recordFromParams name params) \<and>
    (\<forall>q. q = fromRecord (recordFromParams name params) b \<longrightarrow>
       wq_name q = name \<and> wq_concurrency q = qp_concurrency params \<and>
       wq_workerConcurrency q = qp_workerConcurrency params \<and> wq_rateLimit q = qp_rateLimit params \<and>
       wq_priorityEnabled q = coalesce (qp_priorityEnabled params) False \<and>
       wq_partitionQueue q = coalesce (qp_partitionQueue params) False \<and>
       wq_minPollingIntervalMs q = Some (coalesce (qp_minPollingIntervalMs params) 1000) \<and>
       refreshFromDb q db' = (Inr q, db')) \<and>
    (\<forall>n. n \<noteq> name \<longrightarrow> getQueue n db' = getQueue n db) \<and> (created \<longleftrightarrow> getQueue name db = None)"
proof -
  have name: "qr_name (recordFromParams name params) = name" by (simp add: recordFromParams_def)
  have rl: "record_rate_limit (recordFromParams name params) = qp_rateLimit params"
    by (cases "qp_rateLimit params") (simp_all add: record_rate_limit_def recordFromParams_def)
  show ?thesis
    using getQueue_upsert [OF assms] name rl
    by (simp add: fromRecord_def refreshFromDb_def) (simp add: recordFromParams_def)
qed

definition example_params :: QueueParameters where
  "example_params = \<lparr>qp_workerConcurrency = Some 1, qp_concurrency = Some 2, qp_rateLimit = None,
     qp_priorityEnabled = None, qp_partitionQueue = None, qp_minPollingIntervalMs = None\<rparr>"

text \<open>The in-memory queue object agrees with its row.\<close>

definition queue_in_sync :: "WorkflowQueue \<Rightarrow> sysdb \<Rightarrow> bool" where
  "queue_in_sync q db = (wq_databaseBacked q \<and> fst (refreshFromDb q db) = Inr q)"

lemma queue_in_sync_iff:
  "queue_in_sync q db \<longleftrightarrow> wq_databaseBacked q \<and> (\<exists>r. getQueue (wq_name q) db = Some r \<and>
     wq_concurrency q = qr_concurrency r \<and> wq_workerConcurrency q = qr_workerConcurrency r \<and>
     wq_rateLimit q = record_rate_limit r \<and> wq_priorityEnabled q = qr_priorityEnabled r \<and>
     wq_partitionQueue q = qr_partitionQueue r \<and> wq_minPollingIntervalMs q = Some (qr_pollingIntervalMS r))"
  by (cases q) (auto simp: queue_in_sync_def refreshFromDb_def split: option.splits)

lemma queue_update_in_sync:
  assumes "queue_in_sync q db"
    and "\<And>r. getQueue (wq_name q) db = Some r \<Longrightarrow> queue_in_sync q db \<Longrightarrow> wq_concurrency q' = qr_concurrency (updated_record u r) \<and>
       wq_workerConcurrency q' = qr_workerConcurrency (updated_record u r) \<and>
       wq_rateLimit q' = record_rate_limit (updated_record u r) \<and>
       wq_priorityEnabled q' = qr_priorityEnabled (updated_record u r) \<and>
       wq_partitionQueue q' = qr_partitionQueue (updated_record u r) \<and>
       wq_minPollingIntervalMs q' = Some (qr_pollingIntervalMS (updated_record u r))"
    and "wq_name q' = wq_name q" and "wq_databaseBacked q' = wq_databaseBacked q"
  shows "queue_in_sync q' (snd (updateQueue now (wq_name q) u db)) \<and> fst (updateQueue now (wq_name q) u db) = Inr ()"
proof -
  obtain r where r: "getQueue (wq_name q) db = Some r" using assms(1) by (auto simp: queue_in_sync_iff)
  obtain db' where "updateQueue now (wq_name q) u db = (Inr (), db')" "getQueue (wq_name q) db' = Some (updated_record u r)"
    using updateQueue_run [OF r] .
  with assms(1,3,4) assms(2) [OF r assms(1)] show ?thesis by (auto simp: queue_in_sync_iff)
qed

text \<open>The setters change the row first and the object after; each is a check and one update.\<close>

lemma setter_in_sync:
  assumes "queue_in_sync q db"
    and "\<And>r. getQueue (wq_name q) db = Some r \<Longrightarrow> queue_in_sync q db \<Longrightarrow> wq_concurrency q' = qr_concurrency (updated_record u r) \<and>
       wq_workerConcurrency q' = qr_workerConcurrency (updated_record u r) \<and>
       wq_rateLimit q' = record_rate_limit (updated_record u r) \<and>
       wq_priorityEnabled q' = qr_priorityEnabled (updated_record u r) \<and>
       wq_partitionQueue q' = qr_partitionQueue (updated_record u r) \<and>
       wq_minPollingIntervalMs q' = Some (qr_pollingIntervalMS (updated_record u r))"
    and "wq_name q' = wq_name q" and "wq_databaseBacked q' = wq_databaseBacked q"
    and "and_then (requireDatabaseBacked q) (\<lambda>_. if bad then throw e else
       and_then (updateQueue now (wq_name q) u) (\<lambda>_. ret q')) db = (res, db')"
  shows "case res of Inl _ \<Rightarrow> bad \<and> db' = db | Inr q2 \<Rightarrow> \<not> bad \<and> q2 = q' \<and> queue_in_sync q' db'"
proof -
  obtain db1 where run: "updateQueue now (wq_name q) u db = (Inr (), db1)" and "queue_in_sync q' db1"
    using queue_update_in_sync [OF assms(1-4), of now] by (metis prod.collapse)
  moreover have "wq_databaseBacked q" using assms(1) by (simp add: queue_in_sync_def)
  ultimately show ?thesis using assms(5) by (auto simp: requireDatabaseBacked_def split: if_splits)
qed

lemmas plain_setter_in_sync = setter_in_sync [where bad = False, unfolded if_False]

definition limits_consistent :: "WorkflowQueue \<Rightarrow> bool" where
  "limits_consistent q = ((case (wq_workerConcurrency q, wq_concurrency q) of (Some w, Some c) \<Rightarrow> w \<le> c | _ \<Rightarrow> True) \<and>
     (case wq_minPollingIntervalMs q of Some p \<Rightarrow> p > 0 | None \<Rightarrow> True))"

inductive queue_setter :: "WorkflowQueue \<Rightarrow> sysdb \<Rightarrow> dbos_error + WorkflowQueue \<Rightarrow> sysdb \<Rightarrow> bool" where
  concurrency: "setConcurrency now q c db = (res, db') \<Longrightarrow> queue_setter q db res db'"
| worker: "setWorkerConcurrency now q c db = (res, db') \<Longrightarrow> queue_setter q db res db'"
| rate: "setRateLimit now q l db = (res, db') \<Longrightarrow> queue_setter q db res db'"
| priority: "setPriorityEnabled now q b db = (res, db') \<Longrightarrow> queue_setter q db res db'"
| partitions: "setPartitionQueue now q b db = (res, db') \<Longrightarrow> queue_setter q db res db'"
| interval: "setMinPollingIntervalMs now q v db = (res, db') \<Longrightarrow> queue_setter q db res db'"

lemmas queue_setter_defs = queue_in_sync_iff updated_record_def no_queue_update_def record_rate_limit_def limits_consistent_def

text \<open>Reconfiguring a running queue is safe. Every setter of a database-backed queue object that agrees with its row
  either rejects the value and changes nothing, or leaves object and row in agreement; and it never makes
  \<open>workerConcurrency\<close> exceed \<open>concurrency\<close> nor the polling interval non-positive.\<close>

lemma queue_setters_keep_agreement:
  assumes "queue_setter q db res db'" and "queue_in_sync q db" and "limits_consistent q"
  shows "case res of Inl _ \<Rightarrow> db' = db | Inr q' \<Rightarrow> queue_in_sync q' db' \<and> limits_consistent q'"
  using assms(1)
proof cases
  case (concurrency now c)
  from setter_in_sync [OF assms(2) _ _ _ concurrency [unfolded setConcurrency_def]] assms(3)
  show ?thesis by (force simp: queue_setter_defs split: sum.splits option.splits)
next
  case (worker now c)
  from setter_in_sync [OF assms(2) _ _ _ worker [unfolded setWorkerConcurrency_def]] assms(3)
  show ?thesis by (force simp: queue_setter_defs split: sum.splits option.splits)
next
  case (rate now l)
  have "case res of Inl _ \<Rightarrow> False \<and> db' = db | Inr q2 \<Rightarrow> \<not> False \<and> q2 = q\<lparr>wq_rateLimit := l\<rparr> \<and> queue_in_sync (q\<lparr>wq_rateLimit := l\<rparr>) db'"
    by (rule plain_setter_in_sync [OF assms(2) _ _ _ rate [unfolded setRateLimit_def]]; cases l)
      (auto simp: queue_setter_defs)
  with assms(3) show ?thesis by (simp add: limits_consistent_def split: sum.splits option.splits)
next
  case (priority now b)
  from plain_setter_in_sync [OF assms(2) _ _ _ priority [unfolded setPriorityEnabled_def]] assms(3)
  show ?thesis by (force simp: queue_setter_defs split: sum.splits option.splits)
next
  case (partitions now b)
  from plain_setter_in_sync [OF assms(2) _ _ _ partitions [unfolded setPartitionQueue_def]] assms(3)
  show ?thesis by (force simp: queue_setter_defs split: sum.splits option.splits)
next
  case (interval now v)
  from setter_in_sync [OF assms(2) _ _ _ interval [unfolded setMinPollingIntervalMs_def]] assms(3)
  show ?thesis by (force simp: queue_setter_defs split: sum.splits option.splits)
qed

section \<open>Delayed workflows\<close>

text \<open>The delay sweep is exact. A workflow whose delay has run out becomes \<open>ENQUEUED\<close> (giving up the deduplication
  ID if it was debounced), every other row is untouched, and a second sweep at the same time finds nothing to do.\<close>

lemma delayed_transition_exact:
  assumes "find_row ws_workflow_uuid wfid (t_workflow_status db) = Some r"
  shows "find_row ws_workflow_uuid wfid (t_workflow_status (snd (transitionDelayedWorkflows now db))) = Some
      (if ws_status r = DELAYED \<and> (\<exists>t\<le>now. ws_delay_until_epoch_ms r = Some t)
       then r\<lparr>ws_status := ENQUEUED, ws_updated_at := now,
              ws_deduplication_id := (if ws_is_debounced r then None else ws_deduplication_id r)\<rparr> else r) \<and>
    transitionDelayedWorkflows now (snd (transitionDelayedWorkflows now db)) =
      (Inr (), snd (transitionDelayedWorkflows now db))"
proof (intro conjI)
  show "find_row ws_workflow_uuid wfid (t_workflow_status (snd (transitionDelayedWorkflows now db))) = Some
      (if ws_status r = DELAYED \<and> (\<exists>t\<le>now. ws_delay_until_epoch_ms r = Some t)
       then r\<lparr>ws_status := ENQUEUED, ws_updated_at := now,
              ws_deduplication_id := (if ws_is_debounced r then None else ws_deduplication_id r)\<rparr> else r)"
    using assms by (cases "ws_delay_until_epoch_ms r") (auto simp: transitionDelayedWorkflows_def find_row_update_where)
  have "update_where P f (update_where P f rows) = update_where P f rows" if "\<And>r. \<not> P (f r)" for P f and rows :: "workflow_status list"
    using that by (induction rows) auto
  then show "transitionDelayedWorkflows now (snd (transitionDelayedWorkflows now db)) =
      (Inr (), snd (transitionDelayedWorkflows now db))"
    by (simp add: transitionDelayedWorkflows_def)
qed

end
