(* ===== verification/SysDB_Query.thy ===== *)
theory SysDB_Query
  imports SysDB_Steps
begin

text \<open>
  Queries over workflow rows (\<open>listWorkflows\<close> and \<open>getWorkflowStatus\<close> of \<open>src/system_database.ts\<close>).

  The SQL text is rendered as the condition, order and slice it stands for. Dates in the input are given as the
  milliseconds they parse to. An empty list becomes \<open>IN ()\<close>, which PostgreSQL rejects as a syntax error. Rows created in
  the same millisecond come in table order, which SQL leaves open.
\<close>

section \<open>Conditions\<close>

text \<open>SQL \<open>LIKE\<close>: percent matches any text, underscore any character, backslash takes the next character literally.\<close>

fun sql_like :: "string \<Rightarrow> string \<Rightarrow> bool" where
  "sql_like [] cs = (cs = [])"
| "sql_like (p # ps) [] = (p = CHR ''%'' \<and> sql_like ps [])"
| "sql_like (p # ps) (c # cs) =
     (if p = CHR ''%'' then sql_like ps (c # cs) \<or> sql_like (p # ps) cs
      else if p = CHR ''_'' then sql_like ps cs
      else if p = backslash then (case ps of [] \<Rightarrow> False | q # qs \<Rightarrow> q = c \<and> sql_like qs cs)
      else p = c \<and> sql_like ps cs)"

text \<open>\<open>jsonb\<close> containment: every member, every element of the right side is contained in one of the left side.\<close>

fun jsonb_contains :: "json \<Rightarrow> json \<Rightarrow> bool" where
  "jsonb_contains (JObj ms) (JObj ns) =
     (\<forall>(k, v)\<in>set ns. \<exists>(k', v')\<in>set ms. k' = k \<and> jsonb_contains v' v)"
| "jsonb_contains (JArr vs) (JArr ws) = (\<forall>w\<in>set ws. \<exists>v\<in>set vs. jsonb_contains v w)"
| "jsonb_contains v w = (v = w)"

datatype string_filter = One string | Many "string list"

text \<open>\<open>addFilter\<close>: no value and the empty string filter nothing.\<close>

fun filter_values :: "string_filter option \<Rightarrow> string list option" where
  "filter_values None = None"
| "filter_values (Some (One s)) = (if s = [] then None else Some [s])"
| "filter_values (Some (Many vs)) = Some vs"

definition addFilter :: "('r \<Rightarrow> string option) \<Rightarrow> string_filter option \<Rightarrow> 'r \<Rightarrow> bool" where
  "addFilter column v r = (case filter_values v of None \<Rightarrow> True | Some vs \<Rightarrow> column r \<in> Some ` set vs)"

definition prefix_filter :: "('r \<Rightarrow> string) \<Rightarrow> string_filter option \<Rightarrow> 'r \<Rightarrow> bool" where
  "prefix_filter column v r = (case filter_values v of None \<Rightarrow> True | Some ps \<Rightarrow> \<exists>p\<in>set ps. sql_like (p @ ''%'') (column r))"

definition at_least :: "int option \<Rightarrow> int option \<Rightarrow> bool" where
  "at_least bound v = (case bound of None \<Rightarrow> True | Some b \<Rightarrow> (case v of None \<Rightarrow> False | Some t \<Rightarrow> b \<le> t))"

definition at_most :: "int option \<Rightarrow> int option \<Rightarrow> bool" where
  "at_most bound v = (case bound of None \<Rightarrow> True | Some b \<Rightarrow> (case v of None \<Rightarrow> False | Some t \<Rightarrow> t \<le> b))"

section \<open>Listing workflows\<close>

record GetWorkflowsInput =
  gi_workflowIDs :: "string list option"
  gi_workflowName :: "string_filter option"
  gi_status :: "string_filter option"
  gi_startTime :: "int option"
  gi_endTime :: "int option"
  gi_completedAfter :: "int option"
  gi_completedBefore :: "int option"
  gi_dequeuedAfter :: "int option"
  gi_dequeuedBefore :: "int option"
  gi_authenticatedUser :: "string_filter option"
  gi_applicationVersion :: "string_filter option"
  gi_executorId :: "string_filter option"
  gi_workflow_id_prefix :: "string_filter option"
  gi_queueName :: "string_filter option"
  gi_queuesOnly :: bool
  gi_forkedFrom :: "string_filter option"
  gi_wasForkedFrom :: "bool option"
  gi_parentWorkflowID :: "string_filter option"
  gi_hasParent :: "bool option"
  gi_attributes :: "(string \<times> json) list option"
  gi_scheduleName :: "string_filter option"
  gi_limit :: "int option"
  gi_offset :: "int option"
  gi_sortDesc :: bool
  gi_loadInput :: bool
  gi_loadOutput :: bool

definition all_workflows :: GetWorkflowsInput where
  "all_workflows = \<lparr>gi_workflowIDs = None, gi_workflowName = None, gi_status = None, gi_startTime = None, gi_endTime = None,
     gi_completedAfter = None, gi_completedBefore = None, gi_dequeuedAfter = None, gi_dequeuedBefore = None,
     gi_authenticatedUser = None, gi_applicationVersion = None, gi_executorId = None, gi_workflow_id_prefix = None,
     gi_queueName = None, gi_queuesOnly = False, gi_forkedFrom = None, gi_wasForkedFrom = None, gi_parentWorkflowID = None,
     gi_hasParent = None, gi_attributes = None, gi_scheduleName = None, gi_limit = None, gi_offset = None, gi_sortDesc = False,
     gi_loadInput = True, gi_loadOutput = True\<rparr>"

text \<open>Lists of the input that would become an empty \<open>IN ()\<close> or \<open>()\<close>.\<close>

definition has_empty_list :: "GetWorkflowsInput \<Rightarrow> bool" where
  "has_empty_list gi = (gi_workflowIDs gi = Some [] \<or>
     Some (Many []) \<in> {gi_workflowName gi, gi_status gi, gi_authenticatedUser gi, gi_applicationVersion gi, gi_executorId gi,
       gi_workflow_id_prefix gi, gi_queueName gi, gi_forkedFrom gi, gi_parentWorkflowID gi, gi_scheduleName gi})"

definition workflow_matches :: "GetWorkflowsInput \<Rightarrow> workflow_status \<Rightarrow> bool" where
  "workflow_matches gi r =
     ((gi_queuesOnly gi \<longrightarrow> ws_queue_name r \<noteq> None \<and> ws_status r \<in> {ENQUEUED, PENDING, DELAYED}) \<and>
      addFilter (Some \<circ> ws_name) (gi_workflowName gi) r \<and>
      addFilter ws_queue_name (gi_queueName gi) r \<and>
      addFilter ws_schedule_name (gi_scheduleName gi) r \<and>
      prefix_filter ws_workflow_uuid (gi_workflow_id_prefix gi) r \<and>
      (case gi_workflowIDs gi of None \<Rightarrow> True | Some ids \<Rightarrow> ws_workflow_uuid r \<in> set ids) \<and>
      addFilter ws_authenticated_user (gi_authenticatedUser gi) r \<and>
      addFilter ws_forked_from (gi_forkedFrom gi) r \<and>
      addFilter ws_parent_workflow_id (gi_parentWorkflowID gi) r \<and>
      (case gi_wasForkedFrom gi of None \<Rightarrow> True | Some b \<Rightarrow> ws_was_forked_from r = b) \<and>
      (case gi_hasParent gi of None \<Rightarrow> True | Some b \<Rightarrow> (ws_parent_workflow_id r \<noteq> None) = b) \<and>
      (case gi_attributes gi of
         Some (a # as) \<Rightarrow> (case ws_attributes r of None \<Rightarrow> False | Some j \<Rightarrow> jsonb_contains j (JObj (a # as)))
       | _ \<Rightarrow> True) \<and>
      at_least (gi_startTime gi) (Some (ws_created_at r)) \<and> at_most (gi_endTime gi) (Some (ws_created_at r)) \<and>
      at_least (gi_completedAfter gi) (ws_completed_at r) \<and> at_most (gi_completedBefore gi) (ws_completed_at r) \<and>
      at_least (gi_dequeuedAfter gi) (ws_started_at_epoch_ms r) \<and> at_most (gi_dequeuedBefore gi) (ws_started_at_epoch_ms r) \<and>
      addFilter (Some \<circ> status_string \<circ> ws_status) (gi_status gi) r \<and>
      addFilter ws_application_version (gi_applicationVersion gi) r \<and>
      addFilter ws_executor_id (gi_executorId gi) r)"

text \<open>Columns that are not selected are absent from the row.\<close>

definition select_columns :: "GetWorkflowsInput \<Rightarrow> workflow_status \<Rightarrow> workflow_status" where
  "select_columns gi r = r\<lparr>ws_inputs := if gi_loadInput gi then ws_inputs r else None,
     ws_request := if gi_loadInput gi then ws_request r else None,
     ws_output := if gi_loadOutput gi then ws_output r else None,
     ws_error := if gi_loadOutput gi then ws_error r else None,
     ws_serialization := if gi_loadInput gi \<or> gi_loadOutput gi then ws_serialization r else None\<rparr>"

text \<open>A \<open>LIMIT\<close> or \<open>OFFSET\<close> of 0 is left out.\<close>

definition slice_bound :: "int option \<Rightarrow> nat option" where
  "slice_bound v = (case v of None \<Rightarrow> None | Some n \<Rightarrow> if n = 0 then None else Some (nat n))"

text \<open>The order of workflows created in the same millisecond is left open by \<open>ORDER BY created_at\<close>; here it is the order of the table.\<close>

definition workflow_rows :: "GetWorkflowsInput \<Rightarrow> sysdb \<Rightarrow> workflow_status list" where
  "workflow_rows gi db =
     limit_offset (slice_bound (gi_limit gi)) (slice_bound (gi_offset gi))
       (sort_key (\<lambda>r. if gi_sortDesc gi then - ws_created_at r else ws_created_at r)
         (filter (workflow_matches gi) (t_workflow_status db)))"

definition listWorkflows :: "GetWorkflowsInput \<Rightarrow> WorkflowStatusInternal list db_op" where
  "listWorkflows gi db =
     (if has_empty_list gi then (Inl (PgError ''42601''), db)
      else if (case gi_limit gi of None \<Rightarrow> False | Some n \<Rightarrow> n < 0) then (Inl (PgError ''2201W''), db)
      else if (case gi_offset gi of None \<Rightarrow> False | Some n \<Rightarrow> n < 0) then (Inl (PgError ''2201X''), db)
      else case those (map (mapWorkflowStatus \<circ> select_columns gi) (workflow_rows gi db)) of
        None \<Rightarrow> (Inl (PlainError ''SyntaxError''), db)
      | Some sts \<Rightarrow> (Inr sts, db))"

section \<open>The status of one workflow\<close>

text \<open>The status as JSON text, the form in which a workflow's own \<open>getStatus\<close> is checkpointed: \<open>undefined\<close> is left out, \<open>null\<close> is kept.\<close>

definition opt_str :: "string option \<Rightarrow> json option" where "opt_str = map_option JStr"
definition opt_num :: "int option \<Rightarrow> json option" where "opt_num = map_option JNum"
definition opt_bool :: "bool option \<Rightarrow> json option" where "opt_bool = map_option JBool"

definition null_str :: "string option \<Rightarrow> json option" where
  "null_str s = Some (case s of None \<Rightarrow> JNull | Some t \<Rightarrow> JStr t)"

definition json_members :: "(string \<times> json option) list \<Rightarrow> (string \<times> json) list" where
  "json_members kvs = List.map_filter (\<lambda>(k, v). map_option (Pair k) v) kvs"

definition status_members :: "WorkflowStatusInternal \<Rightarrow> (string \<times> json option) list" where
  "status_members st =
    [(''workflowUUID'', Some (JStr (si_workflowUUID st))), (''status'', Some (JStr (status_string (si_status st)))),
     (''workflowName'', Some (JStr (si_workflowName st))), (''output'', null_str (si_output st)),
     (''error'', null_str (si_error st)), (''workflowClassName'', Some (JStr (si_workflowClassName st))),
     (''workflowConfigName'', Some (JStr (si_workflowConfigName st))), (''queueName'', opt_str (si_queueName st)),
     (''authenticatedUser'', null_str (si_authenticatedUser st)), (''assumedRole'', null_str (si_assumedRole st)),
     (''authenticatedRoles'', Some (si_authenticatedRoles st)), (''request'', Some (si_request st)),
     (''executorId'', null_str (si_executorId st)), (''createdAt'', Some (JNum (si_createdAt st))),
     (''updatedAt'', opt_num (si_updatedAt st)), (''applicationVersion'', null_str (si_applicationVersion st)),
     (''applicationID'', null_str (si_applicationID st)), (''recoveryAttempts'', opt_num (si_recoveryAttempts st)),
     (''input'', null_str (si_input st)), (''timeoutMS'', opt_num (si_timeoutMS st)),
     (''deadlineEpochMS'', opt_num (si_deadlineEpochMS st)), (''deduplicationID'', opt_str (si_deduplicationID st)),
     (''priority'', Some (JNum (si_priority st))), (''queuePartitionKey'', opt_str (si_queuePartitionKey st)),
     (''startedAtEpochMs'', opt_num (si_startedAtEpochMs st)), (''forkedFrom'', opt_str (si_forkedFrom st)),
     (''wasForkedFrom'', opt_bool (si_wasForkedFrom st)), (''parentWorkflowID'', opt_str (si_parentWorkflowID st)),
     (''serialization'', null_str (si_serialization st)), (''delayUntilEpochMS'', opt_num (si_delayUntilEpochMS st)),
     (''completedAt'', opt_num (si_completedAt st)), (''attributes'', si_attributes st),
     (''scheduleName'', opt_str (si_scheduleName st)),
     (''debounceDeadlineEpochMS'', opt_num (si_debounceDeadlineEpochMS st)), (''isDebounced'', opt_bool (si_isDebounced st))]"

definition status_json :: "WorkflowStatusInternal \<Rightarrow> json" where
  "status_json st = JObj (json_members (status_members st))"

fun str_of :: "json option \<Rightarrow> string option" where "str_of (Some (JStr s)) = Some s" | "str_of _ = None"
fun num_of :: "json option \<Rightarrow> int option" where "num_of (Some (JNum n)) = Some n" | "num_of _ = None"
fun bool_of :: "json option \<Rightarrow> bool option" where "bool_of (Some (JBool b)) = Some b" | "bool_of _ = None"

definition read_status :: "string \<Rightarrow> wf_status" where
  "read_status s = coalesce (List.find (\<lambda>st. status_string st = s)
     [PENDING, SUCCESS, ERROR, MAX_RECOVERY_ATTEMPTS_EXCEEDED, CANCELLED, ENQUEUED, DELAYED]) PENDING"

definition status_of_members :: "(string \<Rightarrow> json option) \<Rightarrow> WorkflowStatusInternal" where
  "status_of_members m =
     \<lparr>si_workflowUUID = coalesce (str_of (m ''workflowUUID'')) [], si_status = read_status (coalesce (str_of (m ''status'')) []),
      si_workflowName = coalesce (str_of (m ''workflowName'')) [],
      si_workflowClassName = coalesce (str_of (m ''workflowClassName'')) [],
      si_workflowConfigName = coalesce (str_of (m ''workflowConfigName'')) [], si_queueName = str_of (m ''queueName''),
      si_authenticatedUser = str_of (m ''authenticatedUser''), si_output = str_of (m ''output''), si_error = str_of (m ''error''),
      si_input = str_of (m ''input''), si_assumedRole = str_of (m ''assumedRole''),
      si_authenticatedRoles = coalesce (m ''authenticatedRoles'') JNull, si_request = coalesce (m ''request'') JNull,
      si_executorId = str_of (m ''executorId''), si_applicationVersion = str_of (m ''applicationVersion''),
      si_applicationID = str_of (m ''applicationID''), si_createdAt = coalesce (num_of (m ''createdAt'')) 0,
      si_updatedAt = num_of (m ''updatedAt''), si_recoveryAttempts = num_of (m ''recoveryAttempts''),
      si_timeoutMS = num_of (m ''timeoutMS''), si_deadlineEpochMS = num_of (m ''deadlineEpochMS''),
      si_deduplicationID = str_of (m ''deduplicationID''), si_priority = coalesce (num_of (m ''priority'')) 0,
      si_queuePartitionKey = str_of (m ''queuePartitionKey''), si_startedAtEpochMs = num_of (m ''startedAtEpochMs''),
      si_forkedFrom = str_of (m ''forkedFrom''), si_wasForkedFrom = bool_of (m ''wasForkedFrom''),
      si_parentWorkflowID = str_of (m ''parentWorkflowID''), si_serialization = str_of (m ''serialization''),
      si_delayUntilEpochMS = num_of (m ''delayUntilEpochMS''), si_completedAt = num_of (m ''completedAt''),
      si_attributes = m ''attributes'', si_scheduleName = str_of (m ''scheduleName''),
      si_debounceDeadlineEpochMS = num_of (m ''debounceDeadlineEpochMS''), si_isDebounced = bool_of (m ''isDebounced'')\<rparr>"

definition parseStatus :: "string option \<Rightarrow> dbos_error + WorkflowStatusInternal option" where
  "parseStatus text =
     (if \<not> truthy text then Inr None
      else case JSON_parse (coalesce text []) of
        Some (JObj ms) \<Rightarrow> Inr (Some (status_of_members (map_of ms)))
      | _ \<Rightarrow> Inl (PlainError ''SyntaxError''))"

definition funcGetStatus :: "string \<Rightarrow> string option db_op" where
  "funcGetStatus workflowID =
     and_then (listWorkflows (all_workflows\<lparr>gi_workflowIDs := Some [workflowID]\<rparr>)) (\<lambda>statuses.
       ret (map_option (JSON_stringify \<circ> status_json) (List.find (\<lambda>s. si_workflowUUID s = workflowID) statuses)))"

text \<open>Both the caller's ID and its function ID have to be truthy for the read to be a step: function ID 0 is not.\<close>

definition getWorkflowStatus ::
  "int \<Rightarrow> int \<Rightarrow> string \<Rightarrow> string option \<Rightarrow> int option \<Rightarrow> WorkflowStatusInternal option db_op" where
  "getWorkflowStatus startTime endTime workflowID callerID callerFN =
     and_then
       (case (callerID, callerFN) of
          (Some c, Some f) \<Rightarrow>
            if c \<noteq> [] \<and> f \<noteq> 0 then runAndRecordResult startTime endTime ''getStatus'' c f (funcGetStatus workflowID)
            else funcGetStatus workflowID
        | _ \<Rightarrow> funcGetStatus workflowID)
       (\<lambda>text. case parseStatus text of Inl e \<Rightarrow> throw e | Inr st \<Rightarrow> ret st)"

lemma read_status_string [simp]: "read_status (status_string st) = st"
  by (cases st) (simp_all add: read_status_def)

lemma json_members_lookup:
  "distinct (map fst kvs) \<Longrightarrow> map_of (json_members kvs) k = Option.bind (map_of kvs k) id"
proof (induction kvs)
  case (Cons kv kvs)
  have none: "map_of (json_members kvs) k = None" if "k \<notin> fst ` set kvs" for k
    using that by (induction kvs) (auto simp: json_members_def List.map_filter_simps split: option.splits)
  with Cons show ?case
    by (cases kv; cases "snd kv") (auto simp: json_members_def List.map_filter_simps dest!: map_of_SomeD)
qed (simp add: json_members_def List.map_filter_simps)

lemma opt_reads [simp]:
  "str_of (opt_str s) = s" "num_of (opt_num n) = n" "bool_of (opt_bool b) = b" "str_of (null_str s) = s"
     apply (cases s; simp add: opt_str_def)
    apply (cases n; simp add: opt_num_def)
   apply (cases b; simp add: opt_bool_def)
  apply (cases s; simp add: null_str_def)
  done

lemma status_members_distinct: "distinct (map fst (status_members st))"
  by (simp add: status_members_def)

lemma status_roundtrip: "status_of_members (map_of (json_members (status_members st))) = st"
  by (rule WorkflowStatusInternal.equality)
    (simp_all add: status_of_members_def json_members_lookup [OF status_members_distinct], simp_all add: status_members_def)

lemma parseStatus_stringify [simp]: "parseStatus (Some (JSON_stringify (status_json st))) = Inr (Some st)"
proof -
  have "truthy (Some (JSON_stringify (status_json st)))" using JSON_stringify_length [of "status_json st"] by (simp add: truthy_def)
  moreover have "JSON_parse (JSON_stringify (status_json st)) = Some (status_json st)" by simp
  ultimately show ?thesis unfolding parseStatus_def by (simp add: status_json_def status_roundtrip)
qed

lemma rows_with_id:
  assumes "unique_key ws_workflow_uuid rows"
  shows "filter (\<lambda>r. ws_workflow_uuid r = w) rows =
    (case find_row ws_workflow_uuid w rows of None \<Rightarrow> [] | Some r \<Rightarrow> [r])"
  using assms
proof (induction rows)
  case (Cons a rows)
  moreover have "find_row ws_workflow_uuid (ws_workflow_uuid a) rows = None"
    using Cons.prems by (auto simp: find_row_None_iff unique_key_def)
  ultimately show ?case by (auto simp: unique_key_def split: option.splits)
qed simp

lemma workflow_rows_id:
  assumes "db_wf db"
  shows "workflow_rows (all_workflows\<lparr>gi_workflowIDs := Some [w]\<rparr>) db =
    (case find_row ws_workflow_uuid w (t_workflow_status db) of None \<Rightarrow> [] | Some r \<Rightarrow> [r])"
proof -
  have "workflow_matches (all_workflows\<lparr>gi_workflowIDs := Some [w]\<rparr>) = (\<lambda>r. ws_workflow_uuid r = w)"
    by (auto simp: workflow_matches_def all_workflows_def addFilter_def prefix_filter_def at_least_def at_most_def)
  then show ?thesis
    using rows_with_id [of "t_workflow_status db" w] assms
    by (simp add: workflow_rows_def all_workflows_def limit_offset_def slice_bound_def split: option.splits)
qed

text \<open>Read outside a step, the status of a workflow is its row.\<close>

lemma getWorkflowStatus_row:
  assumes "db_wf db" and "find_row ws_workflow_uuid w (t_workflow_status db) = Some r" and "mapWorkflowStatus r = Some st"
  shows "getWorkflowStatus s e w None None db = (Inr (Some st), db)"
proof -
  have "select_columns (all_workflows\<lparr>gi_workflowIDs := Some [w]\<rparr>) r = r"
    by (simp add: select_columns_def all_workflows_def)
  moreover have "si_workflowUUID st = w"
    using assms(3) find_row_SomeD [OF assms(2)] by (auto simp: mapWorkflowStatus_def split: option.splits)
  ultimately have "funcGetStatus w db = (Inr (Some (JSON_stringify (status_json st))), db)"
    using assms workflow_rows_id [OF assms(1), of w]
    by (simp add: funcGetStatus_def listWorkflows_def has_empty_list_def and_then_def all_workflows_def del: JSON_stringify.simps)
  then show ?thesis by (simp add: getWorkflowStatus_def del: JSON_stringify.simps)
qed

lemma getWorkflowStatus_none:
  assumes "db_wf db" and "find_row ws_workflow_uuid w (t_workflow_status db) = None"
  shows "getWorkflowStatus s e w None None db = (Inr None, db)"
  using assms workflow_rows_id [OF assms(1), of w]
  by (simp add: getWorkflowStatus_def funcGetStatus_def listWorkflows_def has_empty_list_def and_then_def all_workflows_def
      parseStatus_def truthy_def)

lemma listWorkflows_keeps [keep_rules]: "preserves I (listWorkflows gi)"
  by (rule preservesI) (simp add: listWorkflows_def split: option.splits)

lemma funcGetStatus_keeps [keep_rules]: "preserves I (funcGetStatus w)"
  unfolding funcGetStatus_def by (intro keep_rules)

lemma getWorkflowStatus_keeps [keep_rules]: "preserves db_wf (getWorkflowStatus s e w c f)"
proof -
  have "preserves db_wf (case parseStatus t of Inl e \<Rightarrow> throw e | Inr st \<Rightarrow> ret st)" for t
    by (cases "parseStatus t") (auto intro: keep_rules)
  then show ?thesis unfolding getWorkflowStatus_def prod.case by (intro keep_rules)
qed

section \<open>Prefixes\<close>

definition plain_char :: "char \<Rightarrow> bool" where
  "plain_char c = (c \<noteq> CHR ''%'' \<and> c \<noteq> CHR ''_'' \<and> c \<noteq> backslash)"

lemma like_percent [simp]: "sql_like ''%'' cs"
  by (induction cs) simp_all

lemma like_plain_prefix: "list_all plain_char p \<Longrightarrow> sql_like (p @ ''%'') cs = Sublist.prefix p cs"
  by (induction p arbitrary: cs) (auto simp: plain_char_def split: list.splits; case_tac cs; auto)+

lemma pages_concat: "concat (map (\<lambda>i. take n (drop (i * n) xs)) [0..<k]) = take (k * n) xs"
proof (induction k)
  case (Suc k)
  have "take (Suc k * n) xs = take (k * n) xs @ take n (drop (k * n) xs)"
    using take_add [of "k * n" n xs] by (simp add: add.commute)
  with Suc show ?case by simp
qed simp

lemma workflow_rows_page:
  assumes "gi_limit gi = None" and "gi_offset gi = None" and "0 < n"
  shows "workflow_rows (gi\<lparr>gi_limit := Some (int n), gi_offset := Some (int m)\<rparr>) db = take n (drop m (workflow_rows gi db))"
proof -
  have "workflow_matches (gi\<lparr>gi_limit := l, gi_offset := off\<rparr>) = workflow_matches gi" for l off
    by (rule ext) (simp add: workflow_matches_def)
  with assms show ?thesis by (simp add: workflow_rows_def limit_offset_def slice_bound_def)
qed

text \<open>Listing workflows is exact and pages add up. The rows listed are exactly the rows that meet every condition of
  the input, each once, in the order of their creation time; reading the listing page by page, with any positive page size,
  yields the same rows in the same order. A prefix without the wildcards of \<open>LIKE\<close> selects exactly the IDs that begin
  with it. Empty lists in the input are rejected by the database.\<close>

lemma listing_exact_and_paged:
  assumes "gi_limit gi = None" and "gi_offset gi = None" and "0 < n"
  shows "mset (workflow_rows gi db) = filter_mset (workflow_matches gi) (mset (t_workflow_status db)) \<and>
    sorted (map (\<lambda>r. if gi_sortDesc gi then - ws_created_at r else ws_created_at r) (workflow_rows gi db)) \<and>
    (length (workflow_rows gi db) \<le> k * n \<longrightarrow>
      concat (map (\<lambda>i. workflow_rows (gi\<lparr>gi_limit := Some (int n), gi_offset := Some (int (i * n))\<rparr>) db) [0..<k]) = workflow_rows gi db) \<and>
    (\<forall>p. list_all plain_char p \<and> p \<noteq> [] \<longrightarrow>
      prefix_filter ws_workflow_uuid (Some (One p)) r = Sublist.prefix p (ws_workflow_uuid r)) \<and>
    (has_empty_list gi \<longrightarrow> listWorkflows gi db = (Inl (PgError ''42601''), db))"
proof (intro conjI allI impI)
  show "mset (workflow_rows gi db) = filter_mset (workflow_matches gi) (mset (t_workflow_status db))"
    using assms by (simp add: workflow_rows_def limit_offset_def slice_bound_def mset_filter)
  show "sorted (map (\<lambda>r. if gi_sortDesc gi then - ws_created_at r else ws_created_at r) (workflow_rows gi db))"
    using assms by (simp add: workflow_rows_def limit_offset_def slice_bound_def)
  assume "length (workflow_rows gi db) \<le> k * n"
  then show "concat (map (\<lambda>i. workflow_rows (gi\<lparr>gi_limit := Some (int n), gi_offset := Some (int (i * n))\<rparr>) db) [0..<k]) = workflow_rows gi db"
    unfolding workflow_rows_page [OF assms] pages_concat by simp
next
  fix p assume "list_all plain_char p \<and> p \<noteq> []"
  then show "prefix_filter ws_workflow_uuid (Some (One p)) r = Sublist.prefix p (ws_workflow_uuid r)"
    by (simp add: prefix_filter_def like_plain_prefix)
qed (simp add: listWorkflows_def)

text \<open>An underscore in a prefix is a wildcard.\<close>

lemma prefix_underscore_is_wildcard:
  "prefix_filter ws_workflow_uuid (Some (One ''job_1'')) (example_row ''jobX1-7'' PENDING)"
  by (simp add: prefix_filter_def backslash_def)

end
