(* ===== verification/SysDB_Schedule.thy ===== *)
theory SysDB_Schedule
  imports SysDB_Query
begin

text \<open>
  The tables of schedules and application versions (\<open>createSchedule\<close> to \<open>getLatestApplicationVersion\<close> of
  \<open>src/system_database.ts\<close>). Schedules have the unique keys \<open>schedule_id\<close> and \<open>schedule_name\<close>, versions \<open>version_id\<close> and
  \<open>version_name\<close>. An optional client is only the connection the statement runs on.
\<close>

section \<open>Schedules\<close>

record WorkflowScheduleInternal =
  sw_scheduleId :: string
  sw_scheduleName :: string
  sw_workflowName :: string
  sw_workflowClassName :: string
  sw_schedule :: string
  sw_status :: string
  sw_context :: string
  sw_lastFiredAt :: "string option"
  sw_automaticBackfill :: bool
  sw_cronTimezone :: "string option"
  sw_queueName :: "string option"

text \<open>Present keys are \<open>Some\<close>; a nullable column can be set to \<open>null\<close>.\<close>

record WorkflowScheduleUpdate =
  sx_schedule :: "string option"
  sx_context :: "string option"
  sx_automaticBackfill :: "bool option"
  sx_cronTimezone :: "string option option"
  sx_queueName :: "string option option"

record VersionInfo =
  vi_versionId :: string
  vi_versionName :: string
  vi_versionTimestamp :: int
  vi_createdAt :: int

definition schedule_row :: "WorkflowScheduleInternal \<Rightarrow> workflow_schedules" where
  "schedule_row s = \<lparr>sc_schedule_id = sw_scheduleId s, sc_schedule_name = sw_scheduleName s,
     sc_workflow_name = sw_workflowName s, sc_workflow_class_name = sw_workflowClassName s, sc_schedule = sw_schedule s,
     sc_status = sw_status s, sc_context = sw_context s, sc_last_fired_at = sw_lastFiredAt s,
     sc_automatic_backfill = sw_automaticBackfill s, sc_cron_timezone = sw_cronTimezone s, sc_queue_name = sw_queueName s\<rparr>"

definition schedule_of_row :: "workflow_schedules \<Rightarrow> WorkflowScheduleInternal" where
  "schedule_of_row r = \<lparr>sw_scheduleId = sc_schedule_id r, sw_scheduleName = sc_schedule_name r,
     sw_workflowName = sc_workflow_name r, sw_workflowClassName = sc_workflow_class_name r, sw_schedule = sc_schedule r,
     sw_status = sc_status r, sw_context = sc_context r, sw_lastFiredAt = sc_last_fired_at r,
     sw_automaticBackfill = sc_automatic_backfill r, sw_cronTimezone = sc_cron_timezone r, sw_queueName = sc_queue_name r\<rparr>"

definition schedule_taken :: "WorkflowScheduleInternal \<Rightarrow> sysdb \<Rightarrow> bool" where
  "schedule_taken s db = (sw_scheduleId s \<in> sc_schedule_id ` set (t_workflow_schedules db) \<or>
     sw_scheduleName s \<in> sc_schedule_name ` set (t_workflow_schedules db))"

definition createSchedule :: "WorkflowScheduleInternal \<Rightarrow> unit db_op" where
  "createSchedule s db =
     (if schedule_taken s db
      then (Inl (PlainError (''Schedule '' @ [CHR 0x27] @ sw_scheduleName s @ [CHR 0x27] @ '' already exists'')), db)
      else (Inr (), db\<lparr>t_workflow_schedules := t_workflow_schedules db @ [schedule_row s]\<rparr>))"

record schedule_filters =
  sf_status :: "string_filter option"
  sf_workflowName :: "string_filter option"
  sf_scheduleNamePrefix :: "string_filter option"

text \<open>Strings are ordered as the database's collation orders them; the model uses the order of the characters.\<close>

definition string_key :: "string \<Rightarrow> nat list" where
  "string_key s = map of_char s"

fun list_less_eq :: "nat list \<Rightarrow> nat list \<Rightarrow> bool" where
  "list_less_eq [] ys = True"
| "list_less_eq (x # xs) [] = False"
| "list_less_eq (x # xs) (y # ys) = (x < y \<or> x = y \<and> list_less_eq xs ys)"

fun insert_by_name :: "workflow_schedules \<Rightarrow> workflow_schedules list \<Rightarrow> workflow_schedules list" where
  "insert_by_name r [] = [r]"
| "insert_by_name r (q # qs) =
     (if list_less_eq (string_key (sc_schedule_name r)) (string_key (sc_schedule_name q)) then r # q # qs
      else q # insert_by_name r qs)"

definition order_by_name :: "workflow_schedules list \<Rightarrow> workflow_schedules list" where
  "order_by_name rows = foldr insert_by_name rows []"

definition schedule_matches :: "schedule_filters \<Rightarrow> workflow_schedules \<Rightarrow> bool" where
  "schedule_matches f r = (addFilter (Some \<circ> sc_status) (sf_status f) r \<and>
     addFilter (Some \<circ> sc_workflow_name) (sf_workflowName f) r \<and>
     prefix_filter sc_schedule_name (sf_scheduleNamePrefix f) r)"

definition listSchedules :: "schedule_filters \<Rightarrow> WorkflowScheduleInternal list db_op" where
  "listSchedules f db =
     (if Some (Many []) \<in> {sf_status f, sf_workflowName f, sf_scheduleNamePrefix f} then (Inl (PgError ''42601''), db)
      else (Inr (map schedule_of_row (order_by_name (filter (schedule_matches f) (t_workflow_schedules db)))), db))"

definition getSchedule :: "string \<Rightarrow> sysdb \<Rightarrow> WorkflowScheduleInternal option" where
  "getSchedule name db = map_option schedule_of_row (find_row sc_schedule_name name (t_workflow_schedules db))"

definition deleteSchedule :: "string \<Rightarrow> unit db_op" where
  "deleteSchedule name db =
     (Inr (), db\<lparr>t_workflow_schedules := delete_where (\<lambda>r. sc_schedule_name r = name) (t_workflow_schedules db)\<rparr>)"

definition setScheduleStatus :: "string \<Rightarrow> string \<Rightarrow> unit db_op" where
  "setScheduleStatus name status db = (Inr (), db\<lparr>t_workflow_schedules :=
     update_where (\<lambda>r. sc_schedule_name r = name) (\<lambda>r. r\<lparr>sc_status := status\<rparr>) (t_workflow_schedules db)\<rparr>)"

definition no_updates :: "WorkflowScheduleUpdate \<Rightarrow> bool" where
  "no_updates u = (sx_schedule u = None \<and> sx_context u = None \<and> sx_automaticBackfill u = None \<and> sx_cronTimezone u = None \<and>
     sx_queueName u = None)"

definition apply_schedule_update :: "WorkflowScheduleUpdate \<Rightarrow> workflow_schedules \<Rightarrow> workflow_schedules" where
  "apply_schedule_update u r = r\<lparr>sc_schedule := coalesce (sx_schedule u) (sc_schedule r),
     sc_context := coalesce (sx_context u) (sc_context r),
     sc_automatic_backfill := coalesce (sx_automaticBackfill u) (sc_automatic_backfill r),
     sc_cron_timezone := coalesce (sx_cronTimezone u) (sc_cron_timezone r),
     sc_queue_name := coalesce (sx_queueName u) (sc_queue_name r)\<rparr>"

definition schedule_not_found :: "string \<Rightarrow> dbos_error" where
  "schedule_not_found name = DBOSError (''Schedule '' @ [CHR 0x27] @ name @ [CHR 0x27] @ '' not found'')"

definition updateSchedule :: "string \<Rightarrow> WorkflowScheduleUpdate \<Rightarrow> unit db_op" where
  "updateSchedule name u db =
     (if name \<notin> sc_schedule_name ` set (t_workflow_schedules db) then (Inl (schedule_not_found name), db)
      else if no_updates u then (Inr (), db)
      else (Inr (), db\<lparr>t_workflow_schedules :=
        update_where (\<lambda>r. sc_schedule_name r = name) (apply_schedule_update u) (t_workflow_schedules db)\<rparr>))"

definition updateLastFiredAt :: "string \<Rightarrow> string \<Rightarrow> unit db_op" where
  "updateLastFiredAt name lastFiredAt db = (Inr (), db\<lparr>t_workflow_schedules :=
     update_where (\<lambda>r. sc_schedule_name r = name) (\<lambda>r. r\<lparr>sc_last_fired_at := Some lastFiredAt\<rparr>) (t_workflow_schedules db)\<rparr>)"

text \<open>The upsert keeps the ID and the runtime state of an existing schedule.\<close>

definition redefine_schedule :: "WorkflowScheduleInternal \<Rightarrow> workflow_schedules \<Rightarrow> workflow_schedules" where
  "redefine_schedule s r = r\<lparr>sc_workflow_name := sw_workflowName s, sc_workflow_class_name := sw_workflowClassName s,
     sc_schedule := sw_schedule s, sc_context := sw_context s, sc_automatic_backfill := sw_automaticBackfill s,
     sc_cron_timezone := sw_cronTimezone s, sc_queue_name := sw_queueName s\<rparr>"

definition apply_schedule :: "WorkflowScheduleInternal \<Rightarrow> unit db_op" where
  "apply_schedule s db =
     (if sw_scheduleName s \<in> sc_schedule_name ` set (t_workflow_schedules db)
      then (Inr (), db\<lparr>t_workflow_schedules := update_where (\<lambda>r. sc_schedule_name r = sw_scheduleName s) (redefine_schedule s)
             (t_workflow_schedules db)\<rparr>)
      else if sw_scheduleId s \<in> sc_schedule_id ` set (t_workflow_schedules db) then (Inl (PgError ''23505''), db)
      else (Inr (), db\<lparr>t_workflow_schedules := t_workflow_schedules db @ [schedule_row s]\<rparr>))"

definition applySchedules :: "WorkflowScheduleInternal list \<Rightarrow> unit db_op" where
  "applySchedules schedules = transaction (for_each apply_schedule schedules)"

section \<open>Application versions\<close>

definition createApplicationVersion :: "int \<Rightarrow> string \<Rightarrow> string \<Rightarrow> unit db_op" where
  "createApplicationVersion now versionId versionName db =
     (if versionName \<in> av_version_name ` set (t_application_versions db) then (Inr (), db)
      else if versionId \<in> av_version_id ` set (t_application_versions db) then (Inl (PgError ''23505''), db)
      else (Inr (), db\<lparr>t_application_versions := t_application_versions db @
        [\<lparr>av_version_id = versionId, av_version_name = versionName, av_version_timestamp = now, av_created_at = now\<rparr>]\<rparr>))"

definition updateApplicationVersionTimestamp :: "string \<Rightarrow> int \<Rightarrow> unit db_op" where
  "updateApplicationVersionTimestamp versionName newTimestamp db = (Inr (), db\<lparr>t_application_versions :=
     update_where (\<lambda>v. av_version_name v = versionName) (\<lambda>v. v\<lparr>av_version_timestamp := newTimestamp\<rparr>) (t_application_versions db)\<rparr>)"

definition version_of_row :: "application_versions \<Rightarrow> VersionInfo" where
  "version_of_row v = \<lparr>vi_versionId = av_version_id v, vi_versionName = av_version_name v,
     vi_versionTimestamp = av_version_timestamp v, vi_createdAt = av_created_at v\<rparr>"

definition listApplicationVersions :: "sysdb \<Rightarrow> VersionInfo list" where
  "listApplicationVersions db = map version_of_row (sort_key (\<lambda>v. - av_version_timestamp v) (t_application_versions db))"

definition getLatestApplicationVersion :: "VersionInfo db_op" where
  "getLatestApplicationVersion =
     and_then (gets listApplicationVersions) (\<lambda>vs. case vs of
         [] \<Rightarrow> throw (DBOSInitializationError ''No application versions found'')
       | v # _ \<Rightarrow> ret v)"

section \<open>The constraints are kept\<close>

lemma schedule_names [simp]:
  "sc_schedule_name (schedule_row s) = sw_scheduleName s" "sc_schedule_name (apply_schedule_update u r) = sc_schedule_name r"
  "sc_schedule_name (redefine_schedule s r) = sc_schedule_name r"
  by (simp_all add: schedule_row_def apply_schedule_update_def redefine_schedule_def)

lemma schedule_operations_keep [keep_rules]:
  "preserves db_wf (createSchedule s)" "preserves db_wf (deleteSchedule name)" "preserves db_wf (setScheduleStatus name status)"
  "preserves db_wf (updateSchedule name u)" "preserves db_wf (updateLastFiredAt name at)" "preserves db_wf (apply_schedule s)"
  by (auto simp: preserves_def createSchedule_def schedule_taken_def deleteSchedule_def setScheduleStatus_def updateSchedule_def
      updateLastFiredAt_def apply_schedule_def unique_key_delete_where unique_key_update_where
      intro!: db_wf_workflow_schedules dest: db_wf_keys(7))

lemma applySchedules_keeps [keep_rules]: "preserves db_wf (applySchedules ss)"
  unfolding applySchedules_def by (intro keep_rules)

lemma version_operations_keep [keep_rules]:
  "preserves db_wf (createApplicationVersion now i n)" "preserves db_wf (updateApplicationVersionTimestamp n t)"
  by (auto simp: preserves_def createApplicationVersion_def updateApplicationVersionTimestamp_def unique_key_update_where
      intro!: db_wf_application_versions dest: db_wf_keys(8))

lemma getLatestApplicationVersion_keeps [keep_rules]: "preserves I getLatestApplicationVersion"
  unfolding getLatestApplicationVersion_def by (intro keep_rules)

section \<open>Applying declared schedules\<close>

text \<open>The row of a schedule has the declared definition.\<close>

definition named :: "string \<Rightarrow> workflow_schedules list \<Rightarrow> workflow_schedules list" where
  "named n rows = filter (\<lambda>r. sc_schedule_name r = n) rows"

definition declared_as :: "WorkflowScheduleInternal \<Rightarrow> workflow_schedules list \<Rightarrow> bool" where
  "declared_as s rows = (named (sw_scheduleName s) rows \<noteq> [] \<and>
     (\<forall>r\<in>set (named (sw_scheduleName s) rows). redefine_schedule s r = r))"

lemma redefine_twice [simp]: "redefine_schedule s (redefine_schedule s r) = redefine_schedule s r"
  by (simp add: redefine_schedule_def)

lemma redefine_new [simp]: "redefine_schedule s (schedule_row s) = schedule_row s"
  by (simp add: redefine_schedule_def schedule_row_def)

lemma named_empty_iff: "named n rows = [] \<longleftrightarrow> n \<notin> sc_schedule_name ` set rows"
  by (auto simp: named_def filter_empty_conv)

lemma named_append: "named n (rows @ rows') = named n rows @ named n rows'"
  by (simp add: named_def)

lemma named_redefine:
  "named n (update_where (\<lambda>r. sc_schedule_name r = n') (redefine_schedule s) rows) =
    (if n = n' then map (redefine_schedule s) (named n rows) else named n rows)"
  by (induction rows) (auto simp: named_def)

lemma apply_schedule_named:
  assumes "apply_schedule s db = (Inr (), db')"
  shows "named n (t_workflow_schedules db') =
    (if n \<noteq> sw_scheduleName s then named n (t_workflow_schedules db)
     else if named n (t_workflow_schedules db) = [] then [schedule_row s]
     else map (redefine_schedule s) (named n (t_workflow_schedules db)))"
proof (cases "named (sw_scheduleName s) (t_workflow_schedules db) = []")
  case True
  with assms have "t_workflow_schedules db' = t_workflow_schedules db @ [schedule_row s]"
    by (auto simp: apply_schedule_def named_empty_iff split: if_splits)
  with True show ?thesis by (auto simp: named_append) (simp_all add: named_def)
next
  case False
  with assms have "t_workflow_schedules db' =
      update_where (\<lambda>r. sc_schedule_name r = sw_scheduleName s) (redefine_schedule s) (t_workflow_schedules db)"
    by (auto simp: apply_schedule_def named_empty_iff split: if_splits)
  with False show ?thesis by (simp add: named_redefine)
qed

lemma apply_schedule_declares: "apply_schedule s db = (Inr (), db') \<Longrightarrow> declared_as s (t_workflow_schedules db')"
  by (simp add: declared_as_def apply_schedule_named)

lemma apply_schedule_other:
  "apply_schedule s db = (Inr (), db') \<Longrightarrow> declared_as t (t_workflow_schedules db) \<Longrightarrow> sw_scheduleName s \<noteq> sw_scheduleName t \<Longrightarrow>
    declared_as t (t_workflow_schedules db')"
  by (simp add: declared_as_def apply_schedule_named)

lemma apply_schedule_declared:
  assumes "declared_as s (t_workflow_schedules db)"
  shows "apply_schedule s db = (Inr (), db)"
proof -
  have "update_where (\<lambda>r. sc_schedule_name r = sw_scheduleName s) (redefine_schedule s) (t_workflow_schedules db) =
      t_workflow_schedules db"
    using assms by (intro update_where_id) (auto simp: declared_as_def named_def)
  then show ?thesis using assms by (simp add: apply_schedule_def declared_as_def named_empty_iff)
qed

lemma for_each_other:
  "for_each apply_schedule ss db = (Inr (), db') \<Longrightarrow> declared_as t (t_workflow_schedules db) \<Longrightarrow>
    sw_scheduleName t \<notin> sw_scheduleName ` set ss \<Longrightarrow> declared_as t (t_workflow_schedules db')"
  by (induction ss arbitrary: db) (auto simp: and_then_success dest: apply_schedule_other)

lemma for_each_declares:
  "for_each apply_schedule ss db = (Inr (), db') \<Longrightarrow> distinct (map sw_scheduleName ss) \<Longrightarrow>
    \<forall>s\<in>set ss. declared_as s (t_workflow_schedules db')"
  by (induction ss arbitrary: db) (auto simp: and_then_success intro: for_each_other dest!: apply_schedule_declares)

lemma for_each_declared:
  "\<forall>s\<in>set ss. declared_as s (t_workflow_schedules db) \<Longrightarrow> for_each apply_schedule ss db = (Inr (), db)"
  by (induction ss) (simp_all add: apply_schedule_declared)

text \<open>The runtime state of a row: what a redefinition leaves alone.\<close>

definition runtime_state :: "workflow_schedules \<Rightarrow> string \<times> string \<times> string option" where
  "runtime_state r = (sc_schedule_id r, sc_status r, sc_last_fired_at r)"

lemma apply_schedule_runtime:
  "apply_schedule s db = (Inr (), db') \<Longrightarrow> find_row sc_schedule_name n (t_workflow_schedules db) = Some r \<Longrightarrow>
    \<exists>r'. find_row sc_schedule_name n (t_workflow_schedules db') = Some r' \<and> runtime_state r' = runtime_state r"
  by (auto simp: apply_schedule_def find_row_update_where find_row_append redefine_schedule_def runtime_state_def split: if_splits)

lemma for_each_runtime:
  assumes "for_each apply_schedule ss db = (Inr (), db')" and "find_row sc_schedule_name n (t_workflow_schedules db) = Some r"
  shows "\<exists>r'. find_row sc_schedule_name n (t_workflow_schedules db') = Some r' \<and> runtime_state r' = runtime_state r"
  using assms
proof (induction ss arbitrary: db r)
  case (Cons s ss)
  from Cons.prems(1) obtain db1 where "apply_schedule s db = (Inr (), db1)" and rest: "for_each apply_schedule ss db1 = (Inr (), db')"
    by (auto simp: and_then_success)
  from apply_schedule_runtime [OF this(1) Cons.prems(2)] Cons.IH [OF rest] show ?case by metis
qed auto

definition example_schedule :: "string \<Rightarrow> WorkflowScheduleInternal" where
  "example_schedule name = \<lparr>sw_scheduleId = ''id-'' @ name, sw_scheduleName = name, sw_workflowName = ''report'',
     sw_workflowClassName = ''Jobs'', sw_schedule = ''*/5 * * * *'', sw_status = ''ACTIVE'', sw_context = ''null'',
     sw_lastFiredAt = None, sw_automaticBackfill = False, sw_cronTimezone = None, sw_queueName = None\<rparr>"

text \<open>C33: declaring schedules is idempotent. After a set of schedules with distinct names has been applied, applying it
  again changes nothing at all, and neither application touches the ID, the status or the last firing time of a schedule
  that existed before. If one of them cannot be applied, none is.\<close>

theorem apply_schedules_idempotent:
  assumes "distinct (map sw_scheduleName ss)" and "applySchedules ss db = (res, db')"
  shows "(res = Inr () \<longrightarrow> applySchedules ss db' = (Inr (), db') \<and>
      (\<forall>n r. find_row sc_schedule_name n (t_workflow_schedules db) = Some r \<longrightarrow>
        (\<exists>r'. find_row sc_schedule_name n (t_workflow_schedules db') = Some r' \<and> runtime_state r' = runtime_state r))) \<and>
    (\<forall>e. res = Inl e \<longrightarrow> db' = db)"
proof (intro conjI impI allI)
  assume "res = Inr ()"
  with assms(2) have run: "for_each apply_schedule ss db = (Inr (), db')" by (simp add: applySchedules_def)
  from for_each_declared [OF for_each_declares [OF run assms(1)]] show "applySchedules ss db' = (Inr (), db')"
    by (simp add: applySchedules_def)
  show "\<exists>r'. find_row sc_schedule_name n (t_workflow_schedules db') = Some r' \<and> runtime_state r' = runtime_state r"
    if "find_row sc_schedule_name n (t_workflow_schedules db) = Some r" for n r
    using run that by (rule for_each_runtime)
next
  fix e assume "res = Inl e"
  with assms(2) show "db' = db" by (simp add: applySchedules_def transaction_failure)
qed

theorem apply_schedules_idempotent_witness:
  "\<exists>db'. applySchedules [example_schedule ''a'', example_schedule ''b''] (example_db []) = (Inr (), db') \<and>
     applySchedules [example_schedule ''a'', example_schedule ''b''] db' = (Inr (), db')"
proof -
  let ?ss = "[example_schedule ''a'', example_schedule ''b'']"
  have "distinct (map sw_scheduleName ?ss)" by (simp add: example_schedule_def)
  moreover obtain db' where "applySchedules ?ss (example_db []) = (Inr (), db')"
    by (simp add: applySchedules_def apply_schedule_def transaction_def and_then_def example_schedule_def schedule_row_def
        example_db_def empty_sysdb_def)
  ultimately show ?thesis using apply_schedules_idempotent by blast
qed

end
