(* ===== verification/SysDB_Lifecycle.thy ===== *)
theory SysDB_Lifecycle
  imports SysDB_Fork SysDB_Queue SysDB_Schedule
begin

text \<open>
  The life of one workflow, as an abstract machine on its status, and that every operation of the system database makes at
  most one move of it for every workflow. The status of a workflow is what the other components and the users see of its
  progress.

  Most operations do not move any workflow: they preserve \<open>quiet V\<close>, "the IDs, statuses and deduplication IDs of the rows are \<open>V\<close>", and the rules
  that compose invariants compose this. The operations that do are treated one by one: \<open>moves m\<close>.
\<close>

section \<open>The abstract machine\<close>

inductive lifecycle :: "wf_status option \<Rightarrow> wf_status option \<Rightarrow> bool" where
  admit: "lifecycle None (Some s)"
| release: "lifecycle (Some DELAYED) (Some ENQUEUED)"
| dispatch: "lifecycle (Some ENQUEUED) (Some PENDING)"
| finish: "s \<noteq> CANCELLED \<Longrightarrow> t = SUCCESS \<or> t = ERROR \<Longrightarrow> lifecycle (Some s) (Some t)"
| exhaust: "lifecycle (Some PENDING) (Some MAX_RECOVERY_ATTEMPTS_EXCEEDED)"
| cancel: "s \<noteq> SUCCESS \<Longrightarrow> s \<noteq> ERROR \<Longrightarrow> lifecycle (Some s) (Some CANCELLED)"
| requeue: "s \<noteq> SUCCESS \<Longrightarrow> s \<noteq> ERROR \<Longrightarrow> lifecycle (Some s) (Some ENQUEUED)"
| remove: "lifecycle (Some s) None"

code_pred lifecycle .

inductive_cases lifecycle_fromE: "lifecycle (Some s) t"

text \<open>A workflow that has ended with a result leaves that state only by being removed.\<close>

lemma ended_absorbing:
  assumes "lifecycle (Some s) t" and "s = SUCCESS \<or> s = ERROR"
  shows "t = Some SUCCESS \<or> t = Some ERROR \<or> t = None"
  using assms by (auto elim: lifecycle_fromE)

section \<open>Operations that move no workflow\<close>

definition status_view :: "workflow_status \<Rightarrow> string \<times> wf_status \<times> string option \<times> bool" where
  "status_view r = (ws_workflow_uuid r, ws_status r, ws_deduplication_id r, ws_is_debounced r)"

definition views :: "sysdb \<Rightarrow> (string \<times> wf_status \<times> string option \<times> bool) list" where
  "views db = map status_view (t_workflow_status db)"

definition quiet :: "(string \<times> wf_status \<times> string option \<times> bool) list \<Rightarrow> sysdb \<Rightarrow> bool" where
  "quiet V db = (views db = V)"

text \<open>What is seen of the rows determines the statuses.\<close>

lemma views_status:
  assumes "views db' = views db"
  shows "getWorkflowStatusValue w db' = getWorkflowStatusValue w db"
proof -
  have "map status_view rows' = map status_view rows \<Longrightarrow>
      map_option ws_status (find_row ws_workflow_uuid w rows') = map_option ws_status (find_row ws_workflow_uuid w rows)" for rows rows'
    by (induction rows' rows rule: list_induct2') (auto simp: status_view_def)
  from this [of "t_workflow_status db'" "t_workflow_status db"] assms show ?thesis unfolding getWorkflowStatusValue_def views_def by blast
qed

text \<open>An operation that leaves the status table alone.\<close>

lemma preserves_quiet_frame:
  assumes "\<And>db. t_workflow_status (snd (m db)) = t_workflow_status db"
  shows "preserves (quiet S) m"
  using assms by (simp add: preserves_def quiet_def views_def)

lemma view_update_same:
  assumes "\<And>r. P r \<Longrightarrow> status_view (f r) = status_view r"
  shows "map status_view (update_where P f rows) = map status_view rows"
  using assms by (simp add: update_where_def)

lemma quiet_update:
  assumes "\<And>r. P r \<Longrightarrow> status_view (f r) = status_view r"
  shows "quiet S (db\<lparr>t_workflow_status := update_where P f (t_workflow_status db)\<rparr>) = quiet S db"
  using assms by (simp add: quiet_def views_def view_update_same)

lemma quiet_memory [simp]:
  "quiet S (db\<lparr>m_runningWorkflowMap := a\<rparr>) = quiet S db" "quiet S (db\<lparr>m_pendingNotifications := c\<rparr>) = quiet S db"
  "quiet S (db\<lparr>t_operation_outputs := d\<rparr>) = quiet S db"
  by (simp_all add: quiet_def views_def)

lemma recordOperationResultInternal_quiet [keep_rules]:
  "preserves (quiet S) (recordOperationResultInternal w f n chk s e opts)"
  by (rule preservesI)
    (auto simp: recordOperationResultInternal_def claim_executor_def quiet_def views_def status_view_def Let_def view_update_same
      split: option.splits)

lemma recordOperationResult_quiet [keep_rules]: "preserves (quiet S) (recordOperationResult w f n chk s e opts)"
  unfolding recordOperationResult_def by (intro keep_rules)

lemma step_operations_quiet [keep_rules]:
  "preserves (quiet S) func \<Longrightarrow> preserves (quiet S) (runAndRecordResult s e n w f func)"
  "preserves (quiet S) func \<Longrightarrow> preserves (quiet S) (runTransactionalStep s e w f n func)"
  "preserves (quiet S) (durableSleep now w f d)"
  unfolding runAndRecordResult_def runTransactionalStep_def durableSleep_def Let_def by (intro keep_rules; assumption?)+

lemma checkPatch_quiet [keep_rules]: "preserves (quiet S) (checkPatch dn w f n dep)"
  by (rule preserves_quiet_frame) (auto simp: checkPatch_def Let_def split: option.splits)

lemma message_tables_quiet [keep_rules]:
  "preserves (quiet S) (insert_notification now d t m ser u)" "preserves (quiet S) (consume_oldest w t)"
  "preserves (quiet S) (upsert_event w k m ser)" "preserves (quiet S) (upsert_event_history w f k m ser)"
  "preserves (quiet S) (upsertEventDispatchState st)" "preserves (quiet S) (insert_stream w f k v ser)"
  "preserves (quiet S) (flushNotifications ok)" "preserves (quiet S) (modify (signalNotification c p))"
  by (rule preserves_quiet_frame,
      auto simp: insert_notification_def consume_oldest_def upsert_event_def upsert_event_history_def upsertEventDispatchState_def
        insert_stream_def flushNotifications_def signalNotification_def Let_def split: list.splits option.splits prod.splits)+

lemma message_operations_quiet [keep_rules]:
  "preserves (quiet S) (send s e u w f d m t ser ik)" "preserves (quiet S) (sendDirect now u d m t ser ik)"
  "preserves (quiet S) (recv_consume s e w f tp)" "preserves (quiet S) (setEvent s e w f ek em es)"
  "preserves (quiet S) (event_deadline now c tm)" "preserves (quiet S) (record_event_read s e c v)"
  "preserves (quiet S) (writeStreamFromStep w f sk sv ss)" "preserves (quiet S) (writeStreamFromWorkflow s e w f sk sv ss n)"
  "preserves (quiet S) (closeStream s e w f sk)"
  unfolding send_def sendDirect_def recv_consume_def setEvent_def event_deadline_def record_event_read_def writeStreamFromStep_def
    writeStreamFromWorkflow_def closeStream_def Let_def
  by (intro keep_rules)+

lemma queue_tables_quiet [keep_rules]:
  "preserves (quiet S) (deleteQueue name)" "preserves (quiet S) (updateQueue now name u)"
  "preserves (quiet S) (upsertQueue now i r b)"
  by (rule preserves_quiet_frame, simp add: deleteQueue_def updateQueue_def upsertQueue_def Let_def)+

lemma queue_setters_quiet [keep_rules]:
  "preserves (quiet S) (setConcurrency now q c)" "preserves (quiet S) (setWorkerConcurrency now q c)"
  "preserves (quiet S) (setRateLimit now q l)" "preserves (quiet S) (setPriorityEnabled now q b)"
  "preserves (quiet S) (setPartitionQueue now q b)" "preserves (quiet S) (setMinPollingIntervalMs now q v)"
  unfolding setConcurrency_def setWorkerConcurrency_def setRateLimit_def setPriorityEnabled_def setPartitionQueue_def
    setMinPollingIntervalMs_def by (intro keep_rules)+

lemma schedule_tables_quiet [keep_rules]:
  "preserves (quiet S) (createSchedule sc)" "preserves (quiet S) (deleteSchedule name)"
  "preserves (quiet S) (setScheduleStatus name status)" "preserves (quiet S) (updateSchedule name su)"
  "preserves (quiet S) (updateLastFiredAt name at)" "preserves (quiet S) (apply_schedule sc)"
  "preserves (quiet S) (createApplicationVersion now i n)" "preserves (quiet S) (updateApplicationVersionTimestamp n ts)"
  by (rule preserves_quiet_frame,
      simp add: createSchedule_def deleteSchedule_def setScheduleStatus_def updateSchedule_def updateLastFiredAt_def
        apply_schedule_def createApplicationVersion_def updateApplicationVersionTimestamp_def)+

lemma applySchedules_quiet [keep_rules]: "preserves (quiet S) (applySchedules ss)"
  unfolding applySchedules_def by (intro keep_rules)

lemma management_quiet [keep_rules]:
  "preserves (quiet S) (setWorkflowPriority now w p)" "preserves (quiet S) (setWorkflowDelay now w d)"
  by (auto simp: preserves_def setWorkflowPriority_def setWorkflowDelay_def quiet_update status_view_def)

lemma debounceDelayedWorkflow_quiet [keep_rules]: "preserves (quiet S) (debounceDelayedWorkflow now p (\<lambda>db. db))"
  by (auto simp: preserves_def debounceDelayedWorkflow_def Let_def quiet_update bounce_row_def status_view_def split: list.splits)

lemma child_rows_quiet [keep_rules]:
  "preserves (quiet S) (insert_child_row oo_pk oo_workflow_uuid t_operation_outputs t_operation_outputs_update a)"
  "preserves (quiet S) (insert_child_row we_pk we_workflow_uuid t_workflow_events t_workflow_events_update b)"
  "preserves (quiet S) (insert_child_row eh_pk eh_workflow_uuid t_workflow_events_history t_workflow_events_history_update c)"
  "preserves (quiet S) (insert_child_row st_pk st_workflow_uuid t_streams t_streams_update d)"
  by (rule preserves_quiet_frame, simp add: insert_child_row_def)+

section \<open>Operations that move workflows\<close>

definition moved :: "sysdb \<Rightarrow> sysdb \<Rightarrow> bool" where
  "moved db db' = (\<forall>w. lifecycle\<^sup>=\<^sup>= (getWorkflowStatusValue w db) (getWorkflowStatusValue w db'))"

definition moves :: "'a db_op \<Rightarrow> bool" where
  "moves m = (\<forall>db. db_wf db \<longrightarrow> moved db (snd (m db)))"

lemma moved_refl [simp]: "moved db db"
  by (simp add: moved_def)

lemma moved_quiet: "quiet (views db) db' \<Longrightarrow> moved db db'"
  using views_status [of db' db] by (simp add: moved_def quiet_def)

lemma moves_quiet:
  assumes "\<And>S. preserves (quiet S) m"
  shows "moves m"
  unfolding moves_def
proof (intro allI impI)
  fix db
  have "quiet (views db) (snd (m db))" using assms [of "views db"] by (simp add: preserves_def quiet_def)
  then show "moved db (snd (m db))" by (rule moved_quiet)
qed

lemma moved_update:
  assumes "\<And>r. P r \<Longrightarrow> ws_workflow_uuid (f r) = ws_workflow_uuid r"
    and "\<And>r. P r \<Longrightarrow> lifecycle\<^sup>=\<^sup>= (Some (ws_status r)) (Some (ws_status (f r)))"
  shows "moved db (db\<lparr>t_workflow_status := update_where P f (t_workflow_status db)\<rparr>)"
  unfolding moved_def
proof
  fix w show "lifecycle\<^sup>=\<^sup>= (getWorkflowStatusValue w db)
      (getWorkflowStatusValue w (db\<lparr>t_workflow_status := update_where P f (t_workflow_status db)\<rparr>))"
    using assms by (cases "find_row ws_workflow_uuid w (t_workflow_status db)")
      (auto simp: getWorkflowStatusValue_def find_row_update_where)
qed

lemma moved_append: "moved db (db\<lparr>t_workflow_status := t_workflow_status db @ new\<rparr>)"
  unfolding moved_def
proof
  fix w show "lifecycle\<^sup>=\<^sup>= (getWorkflowStatusValue w db) (getWorkflowStatusValue w (db\<lparr>t_workflow_status := t_workflow_status db @ new\<rparr>))"
    by (cases "find_row ws_workflow_uuid w (t_workflow_status db)"; cases "find_row ws_workflow_uuid w new")
      (auto simp: getWorkflowStatusValue_def find_row_append intro: lifecycle.admit)
qed

lemma moved_delete:
  assumes "db_wf db" and "t_workflow_status db' = delete_where P (t_workflow_status db)"
  shows "moved db db'"
  unfolding moved_def
proof
  fix w show "lifecycle\<^sup>=\<^sup>= (getWorkflowStatusValue w db) (getWorkflowStatusValue w db')"
    using assms by (cases "find_row ws_workflow_uuid w (t_workflow_status db)")
      (auto simp: getWorkflowStatusValue_def find_row_delete_where intro: lifecycle.remove)
qed

text \<open>Only the status table matters.\<close>

lemma moved_rows: "moved db (db\<lparr>t_workflow_status := rows\<rparr>) \<Longrightarrow> t_workflow_status db' = rows \<Longrightarrow> moved db db'"
  by (simp add: moved_def getWorkflowStatusValue_def)

lemma resumeWorkflows_moves: "moves (resumeWorkflows now ids q)"
  by (auto simp: moves_def resumeWorkflows_def intro!: moved_update intro: lifecycle.requeue)

lemma transitionDelayedWorkflows_moves: "moves (transitionDelayedWorkflows now)"
  by (auto simp: moves_def transitionDelayedWorkflows_def intro!: moved_update intro: lifecycle.release)

lemma reenqueueWorkflowsForRecovery_moves: "moves (reenqueueWorkflowsForRecovery now ex ver q)"
  by (auto simp: moves_def reenqueueWorkflowsForRecovery_def Let_def intro!: moved_update intro: lifecycle.requeue)

text \<open>The conditional status update moves along the machine where its condition allows the edge.\<close>

lemma updateWorkflowStatus_moved:
  assumes "\<And>r. status_where_matches wh r \<Longrightarrow> lifecycle\<^sup>=\<^sup>= (Some (ws_status r)) (Some st)"
  shows "moved db (snd (updateWorkflowStatus now w st u wh t db))"
proof -
  have "ws_workflow_uuid (apply_status_update now st u r) = ws_workflow_uuid r" "ws_status (apply_status_update now st u r) = st" for r
    by (simp_all add: apply_status_update_def)
  then have "moved db (db\<lparr>t_workflow_status := update_where (\<lambda>r. ws_workflow_uuid r = w \<and> status_where_matches wh r)
      (apply_status_update now st u) (t_workflow_status db)\<rparr>)"
    using assms by (intro moved_update) auto
  then show ?thesis by (simp add: updateWorkflowStatus_def Let_def)
qed

lemma on_conflict_keeps_status [simp]:
  "ws_workflow_uuid (on_conflict_status new inc r) = ws_workflow_uuid r" "ws_status (on_conflict_status new inc r) = ws_status r"
  by (simp_all add: on_conflict_status_def)

lemma insertWorkflowStatus_moved: "moved db (snd (insertWorkflowStatus now st xid inc db))"
  by (auto simp: insertWorkflowStatus_def Let_def intro!: moved_update moved_append split: option.splits)

text \<open>The upsert leaves the status of an existing workflow alone, so that the later transition to the dead letter
  state is the only move.\<close>

lemma insertWorkflowStatus_existing:
  assumes "insertWorkflowStatus now st xid inc db = (r, db1)" and "getWorkflowStatusValue w db = Some s"
  shows "getWorkflowStatusValue w db1 = Some s"
proof -
  obtain z where z: "find_row ws_workflow_uuid w (t_workflow_status db) = Some z" "ws_status z = s"
    using assms(2) by (auto simp: getWorkflowStatusValue_def)
  have "getWorkflowStatusValue w (snd (insertWorkflowStatus now st xid inc db)) = Some s"
    by (cases "find_row ws_workflow_uuid (si_workflowUUID st) (t_workflow_status db)")
      (simp_all add: insertWorkflowStatus_def Let_def getWorkflowStatusValue_def find_row_update_where find_row_append z)
  with assms(1) show ?thesis by simp
qed

lemma initWorkflowStatus_moves: "moves (initWorkflowStatus now st xid rec deq mx)"
  unfolding moves_def
proof (intro allI impI)
  fix db :: sysdb
  obtain r db1 where ins: "insertWorkflowStatus now st xid (rec \<or> deq) db = (r, db1)" by fastforce
  then have m1: "moved db db1" using insertWorkflowStatus_moved [of db now st xid "rec \<or> deq"] by simp
  have m2: "moved db (snd (updateWorkflowStatus now w MAX_RECOVERY_ATTEMPTS_EXCEEDED u
      \<lparr>wh_status = Some PENDING, wh_notStatus = None\<rparr> t db1))" (is "moved db ?db2") for w u t
    unfolding moved_def
  proof
    fix v
    have up: "lifecycle\<^sup>=\<^sup>= (getWorkflowStatusValue v db1) (getWorkflowStatusValue v ?db2)"
      using updateWorkflowStatus_moved [of "\<lparr>wh_status = Some PENDING, wh_notStatus = None\<rparr>" MAX_RECOVERY_ATTEMPTS_EXCEEDED db1 now w u t]
      by (auto simp: moved_def status_where_matches_def intro: lifecycle.exhaust)
    show "lifecycle\<^sup>=\<^sup>= (getWorkflowStatusValue v db) (getWorkflowStatusValue v ?db2)"
    proof (cases "getWorkflowStatusValue v db")
      case None
      then show ?thesis by (cases "getWorkflowStatusValue v ?db2") (auto intro: lifecycle.admit)
    next
      case (Some s)
      with up insertWorkflowStatus_existing [OF ins Some] show ?thesis by simp
    qed
  qed
  show "moved db (snd (initWorkflowStatus now st xid rec deq mx db))"
    using m1 m2 ins by (cases r) (auto simp: initWorkflowStatus_def Let_def)
qed

lemma recordWorkflowOutcome_moves:
  assumes "st = SUCCESS \<or> st = ERROR"
  shows "moves (recordWorkflowOutcome now w st out err)"
  unfolding moves_def
proof (intro allI impI)
  fix db :: sysdb
  have "moved db (snd (updateWorkflowStatus now w st u \<lparr>wh_status = None, wh_notStatus = Some CANCELLED\<rparr> t db))" for u t
    using assms by (intro updateWorkflowStatus_moved) (auto simp: status_where_matches_def intro: lifecycle.finish)
  then show "moved db (snd (recordWorkflowOutcome now w st out err db))"
    unfolding recordWorkflowOutcome_def and_then_def transaction_def
    by (auto split: prod.splits sum.splits) (metis snd_conv)+
qed

lemma enqueueWorkflows_moves: "moves (enqueueWorkflows now sts)"
  unfolding moves_def
proof (intro allI impI)
  fix db :: sysdb
  obtain cs cur where a: "assignBatchCreatedAt now sts db = (Inr cs, db\<lparr>m_batchCreatedAtCursors := cur\<rparr>)"
    using assignBatchCreatedAt_effect by blast
  obtain ids rows where i: "insert_skipping (zip sts cs) (t_workflow_status db) = (ids, rows)" by fastforce
  then obtain new where "rows = t_workflow_status db @ new" using insert_skipping_extends by blast
  then have "t_workflow_status (snd (enqueueWorkflows now sts db)) \<in> {t_workflow_status db, t_workflow_status db @ new}"
    using i a by (auto simp: enqueueWorkflows_def insert_chunks_eq split: option.splits)
  then show "moved db (snd (enqueueWorkflows now sts db))"
    using moved_append [of db new] by (auto intro: moved_rows simp: moved_def getWorkflowStatusValue_def)
qed

subsection \<open>Cancelling and claiming\<close>

text \<open>Cancelling, on the rows alone: every workflow keeps its status or becomes cancelled.\<close>

definition cancels :: "workflow_status list \<Rightarrow> workflow_status list \<Rightarrow> bool" where
  "cancels rows rows' = (\<forall>w s. map_option ws_status (find_row ws_workflow_uuid w rows) = s \<longrightarrow>
     map_option ws_status (find_row ws_workflow_uuid w rows') = s \<or>
     s \<noteq> Some SUCCESS \<and> s \<noteq> Some ERROR \<and> s \<noteq> None \<and>
       map_option ws_status (find_row ws_workflow_uuid w rows') = Some CANCELLED)"

lemma cancels_cancel_rows: "cancels rows (cancel_rows now ids rows)"
  unfolding cancels_def
proof (intro allI impI)
  fix w s assume s: "map_option ws_status (find_row ws_workflow_uuid w rows) = s"
  show "map_option ws_status (find_row ws_workflow_uuid w (cancel_rows now ids rows)) = s \<or>
     s \<noteq> Some SUCCESS \<and> s \<noteq> Some ERROR \<and> s \<noteq> None \<and>
       map_option ws_status (find_row ws_workflow_uuid w (cancel_rows now ids rows)) = Some CANCELLED"
    using s by (cases "find_row ws_workflow_uuid w rows") (auto simp: cancel_rows_def find_row_update_where)
qed

lemma cancels_trans: "cancels a b \<Longrightarrow> cancels b c \<Longrightarrow> cancels a c"
  unfolding cancels_def by metis

lemma cancels_cancel_cascade: "cancels rows (cancel_cascade now visited frontier rows)"
proof (induction now visited frontier rows rule: cancel_cascade.induct)
  case (1 now visited frontier rows)
  show ?case
  proof (cases "frontier = []")
    case False
    from cancels_trans [OF cancels_cancel_rows 1 [OF this refl refl]] False show ?thesis
      by (subst cancel_cascade.simps) (simp add: Let_def)
  qed (simp add: cancel_cascade.simps cancels_def)
qed

lemma cancels_moved: "cancels (t_workflow_status db) rows \<Longrightarrow> moved db (db\<lparr>t_workflow_status := rows\<rparr>)"
  unfolding moved_def
proof
  fix w assume c: "cancels (t_workflow_status db) rows"
  define a where "a = map_option ws_status (find_row ws_workflow_uuid w (t_workflow_status db))"
  define b where "b = map_option ws_status (find_row ws_workflow_uuid w rows)"
  have "b = a \<or> a \<noteq> Some SUCCESS \<and> a \<noteq> Some ERROR \<and> a \<noteq> None \<and> b = Some CANCELLED"
    using c unfolding cancels_def a_def b_def by blast
  then have "lifecycle\<^sup>=\<^sup>= a b" by (cases a) (auto intro: lifecycle.cancel)
  then show "lifecycle\<^sup>=\<^sup>= (getWorkflowStatusValue w db) (getWorkflowStatusValue w (db\<lparr>t_workflow_status := rows\<rparr>))"
    by (simp add: a_def b_def getWorkflowStatusValue_def)
qed

lemma cancelWorkflows_moves: "moves (cancelWorkflows now ids cc)"
  by (simp add: moves_def cancelWorkflows_def cancels_moved cancels_cancel_rows cancels_cancel_cascade)

text \<open>Claiming: every workflow keeps its status or goes from enqueued to pending.\<close>

definition claims :: "workflow_status list \<Rightarrow> workflow_status list \<Rightarrow> bool" where
  "claims rows rows' = (\<forall>w. map_option ws_status (find_row ws_workflow_uuid w rows') =
       map_option ws_status (find_row ws_workflow_uuid w rows) \<or>
     map_option ws_status (find_row ws_workflow_uuid w rows) = Some ENQUEUED \<and>
       map_option ws_status (find_row ws_workflow_uuid w rows') = Some PENDING)"

lemma claims_trans: "claims a b \<Longrightarrow> claims b c \<Longrightarrow> claims a c"
  unfolding claims_def by (metis option.inject wf_status.distinct)

lemma claims_mark:
  "claims rows (update_where (\<lambda>r. ws_workflow_uuid r = wfid \<and> ws_status r = ENQUEUED) (mark_started s now e v l) rows)"
  unfolding claims_def
proof
  fix w show "map_option ws_status (find_row ws_workflow_uuid w
      (update_where (\<lambda>r. ws_workflow_uuid r = wfid \<and> ws_status r = ENQUEUED) (mark_started s now e v l) rows)) =
        map_option ws_status (find_row ws_workflow_uuid w rows) \<or>
      map_option ws_status (find_row ws_workflow_uuid w rows) = Some ENQUEUED \<and>
        map_option ws_status (find_row ws_workflow_uuid w
          (update_where (\<lambda>r. ws_workflow_uuid r = wfid \<and> ws_status r = ENQUEUED) (mark_started s now e v l) rows)) = Some PENDING"
    by (cases "find_row ws_workflow_uuid w rows") (auto simp: find_row_update_where)
qed

lemma claims_claim_loop: "claims rows (snd (claim_loop limit recent (mark_started s now e v l) ids claimed rows))"
proof (induction ids arbitrary: claimed rows)
  case (Cons wfid ids)
  from claims_trans [OF claims_mark Cons.IH] show ?case by (simp add: Let_def) (simp add: claims_def)
qed (simp add: claims_def)

lemma claims_moved: "claims (t_workflow_status db) rows \<Longrightarrow> moved db (db\<lparr>t_workflow_status := rows\<rparr>)"
  unfolding moved_def
proof
  fix w assume c: "claims (t_workflow_status db) rows"
  define a where "a = map_option ws_status (find_row ws_workflow_uuid w (t_workflow_status db))"
  define b where "b = map_option ws_status (find_row ws_workflow_uuid w rows)"
  have "b = a \<or> a = Some ENQUEUED \<and> b = Some PENDING" using c unfolding claims_def a_def b_def by blast
  then have "lifecycle\<^sup>=\<^sup>= a b" by (auto intro: lifecycle.dispatch)
  then show "lifecycle\<^sup>=\<^sup>= (getWorkflowStatusValue w db) (getWorkflowStatusValue w (db\<lparr>t_workflow_status := rows\<rparr>))"
    by (simp add: a_def b_def getWorkflowStatusValue_def)
qed

lemma findAndMark_moves: "moves (findAndMarkStartableWorkflows s now lk q e v p)"
  unfolding moves_def
proof (intro allI impI)
  fix db :: sysdb
  have "moved db (db\<lparr>t_workflow_status := rows'\<rparr>)"
    if "claim_loop limit recent (mark_started s now e v l) ids [] (t_workflow_status db) = (c, rows')" for limit recent l ids c rows'
    using claims_claim_loop [of "t_workflow_status db" limit recent s now e v l ids "[]"] that by (simp add: claims_moved)
  then show "moved db (snd (findAndMarkStartableWorkflows s now lk q e v p db))"
    by (auto simp: findAndMarkStartableWorkflows_def Let_def split: prod.splits)
qed

subsection \<open>Removing and adding workflows\<close>

lemma delete_workflow_rows_moved: "db_wf db \<Longrightarrow> moved db (delete_workflow_rows P db)"
  by (rule moved_delete) (simp_all add: delete_workflow_rows_def Let_def)

lemma deleteWorkflows_moves: "moves (deleteWorkflows ids cc)"
proof -
  have "moved db (db'\<lparr>m_runningWorkflowMap := a\<rparr>) = moved db db'" for db db' :: sysdb and a
    by (simp add: moved_def getWorkflowStatusValue_def)
  then show ?thesis by (simp add: moves_def deleteWorkflows_def Let_def delete_workflow_rows_moved)
qed

lemma garbageCollect_moves: "moves (garbageCollect c n)"
  by (auto simp: moves_def garbageCollect_def delete_workflow_rows_moved split: option.splits)

text \<open>Forks and imports only add rows: the workflows there were keep their status.\<close>

definition extends :: "(string \<Rightarrow> wf_status option) \<Rightarrow> sysdb \<Rightarrow> bool" where
  "extends S db = (\<forall>w. S w = None \<or> getWorkflowStatusValue w db = S w)"

lemma extends_moved: "extends (\<lambda>w. getWorkflowStatusValue w db) db' \<Longrightarrow> moved db db'"
  unfolding moved_def extends_def
proof
  fix w assume "\<forall>w. getWorkflowStatusValue w db = None \<or> getWorkflowStatusValue w db' = getWorkflowStatusValue w db"
  then have "getWorkflowStatusValue w db = None \<or> getWorkflowStatusValue w db' = getWorkflowStatusValue w db" by blast
  then show "lifecycle\<^sup>=\<^sup>= (getWorkflowStatusValue w db) (getWorkflowStatusValue w db')"
    by (cases "getWorkflowStatusValue w db'") (auto intro: lifecycle.admit)
qed

lemma moves_extends:
  assumes "\<And>S. preserves (extends S) m"
  shows "moves m"
  unfolding moves_def
proof (intro allI impI)
  fix db :: sysdb
  have "extends (\<lambda>w. getWorkflowStatusValue w db) db" by (simp add: extends_def)
  with assms have "extends (\<lambda>w. getWorkflowStatusValue w db) (snd (m db))" unfolding preserves_def by blast
  then show "moved db (snd (m db))" by (rule extends_moved)
qed

lemma extends_quiet:
  assumes "\<And>T. preserves (quiet T) m"
  shows "preserves (extends S) m"
proof (rule preservesI)
  fix db assume e: "extends S db"
  have "views (snd (m db)) = views db" using assms [of "views db"] unfolding preserves_def quiet_def by blast
  from views_status [OF this] e show "extends S (snd (m db))" by (simp add: extends_def)
qed

lemma extends_append: "extends S db \<Longrightarrow> extends S (db\<lparr>t_workflow_status := t_workflow_status db @ new\<rparr>)"
  unfolding extends_def getWorkflowStatusValue_def
proof
  fix w assume "\<forall>w. S w = None \<or> map_option ws_status (find_row ws_workflow_uuid w (t_workflow_status db)) = S w"
  then have "S w = None \<or> map_option ws_status (find_row ws_workflow_uuid w (t_workflow_status db)) = S w" by blast
  then show "S w = None \<or> map_option ws_status (find_row ws_workflow_uuid w
      (t_workflow_status (db\<lparr>t_workflow_status := t_workflow_status db @ new\<rparr>))) = S w"
    by (cases "find_row ws_workflow_uuid w (t_workflow_status db)") (auto simp: find_row_append)
qed

lemma insert_forks_extends [keep_rules]: "preserves (extends S) (insert_forks now opts pairs)"
  by (rule preservesI) (simp add: insert_forks_def Let_def extends_append)

lemma fork_tables_extends [keep_rules]:
  "preserves (extends S) (modify (mark_forked_from ids))" "preserves (extends S) (modify (copy_tables ch ms))"
  by (rule extends_quiet, simp add: preserves_def mark_forked_from_def copy_tables_def quiet_def views_def status_view_def view_update_same)+

lemma bulkForkWorkflows_moves: "moves (bulkForkWorkflows now origs forks steps opts)"
  unfolding bulkForkWorkflows_def by (rule moves_extends) (intro keep_rules)

lemma forkFromFailure_moves: "moves (forkFromFailure now us ws mode opts)"
  using bulkForkWorkflows_moves unfolding moves_def forkFromFailure_def by (auto split: option.splits)

lemma insert_status_row_extends [keep_rules]: "preserves (extends S) (insert_status_row r)"
  by (rule preservesI) (simp add: insert_status_row_def extends_append)

lemma child_rows_extends [keep_rules]:
  "preserves (extends S) (insert_child_row oo_pk oo_workflow_uuid t_operation_outputs t_operation_outputs_update a)"
  "preserves (extends S) (insert_child_row we_pk we_workflow_uuid t_workflow_events t_workflow_events_update b)"
  "preserves (extends S) (insert_child_row eh_pk eh_workflow_uuid t_workflow_events_history t_workflow_events_history_update c)"
  "preserves (extends S) (insert_child_row st_pk st_workflow_uuid t_streams t_streams_update d)"
  by (rule extends_quiet, rule child_rows_quiet)+

lemma importWorkflow_moves: "moves (importWorkflow es)"
  unfolding importWorkflow_def import_one_def by (rule moves_extends) (intro keep_rules)

end
