(* ===== verification/Serialization.thy ===== *)
theory Serialization
  imports SysDB_Schema
begin

text \<open>
  Serialization of workflow inputs, outputs and errors (\<open>src/serialization.ts\<close>): the portable JSON format,
  the native format built on SuperJSON, and the dispatch on the stored format name.

  Values are the data part of JavaScript: primitives, arrays, objects, dates (as their ISO text), big integers,
  maps, sets and errors. Functions are not data; the stubs the source attaches for them are left out. Objects keep
  their members in insertion order. SuperJSON, the \<open>serialize-error\<close> package, the configured serializer and the parser
  for data of the old native format are parameters.
\<close>

section \<open>Values\<close>

datatype js_value =
    JsUndefined
  | JsNull
  | JsBool bool
  | JsNum int
  | JsStr string
  | JsArr "js_value list"
  | JsObj "(string \<times> js_value) list"
  | JsDate string
  | JsBigInt int
  | JsMap "(js_value \<times> js_value) list"
  | JsSet "js_value list"
  | JsError string string

fun is_JsStr :: "js_value \<Rightarrow> bool" where
  "is_JsStr (JsStr s) = True"
| "is_JsStr _ = False"

fun of_json :: "json \<Rightarrow> js_value" where
  "of_json JNull = JsNull"
| "of_json (JBool b) = JsBool b"
| "of_json (JNum n) = JsNum n"
| "of_json (JStr s) = JsStr s"
| "of_json (JArr js) = JsArr (map of_json js)"
| "of_json (JObj ms) = JsObj (map (\<lambda>(k, j). (k, of_json j)) ms)"

text \<open>\<open>JSON.stringify\<close> with the portable replacer: undefined members are dropped, undefined elements are null.\<close>

fun portableJsonReplacer :: "js_value \<Rightarrow> dbos_error + json"
  and portable_elements :: "js_value list \<Rightarrow> dbos_error + json list"
  and portable_members :: "(string \<times> js_value) list \<Rightarrow> dbos_error + (string \<times> json) list"
  and portable_entries :: "(js_value \<times> js_value) list \<Rightarrow> dbos_error + (string \<times> json) list" where
  "portableJsonReplacer JsUndefined = Inr JNull"
| "portableJsonReplacer JsNull = Inr JNull"
| "portableJsonReplacer (JsBool b) = Inr (JBool b)"
| "portableJsonReplacer (JsNum n) = Inr (JNum n)"
| "portableJsonReplacer (JsStr s) = Inr (JStr s)"
| "portableJsonReplacer (JsArr vs) = map_sum id JArr (portable_elements vs)"
| "portableJsonReplacer (JsObj ms) = map_sum id JObj (portable_members ms)"
| "portableJsonReplacer (JsDate text) = Inr (JStr text)"
| "portableJsonReplacer (JsBigInt n) = Inr (JStr (show_int n))"
| "portableJsonReplacer (JsMap es) =
     (if \<forall>(k, v)\<in>set es. is_JsStr k then map_sum id JObj (portable_entries es)
      else Inl (PlainError ''Attempt to do portable JSON serialization of a map with non-string keys''))"
| "portableJsonReplacer (JsSet vs) = map_sum id JArr (portable_elements vs)"
| "portableJsonReplacer (JsError name message) = Inr (JObj [(''name'', JStr name), (''message'', JStr message)])"
| "portable_elements [] = Inr []"
| "portable_elements (v # vs) =
     (case portableJsonReplacer v of Inl e \<Rightarrow> Inl e | Inr j \<Rightarrow> map_sum id (\<lambda>js. j # js) (portable_elements vs))"
| "portable_members [] = Inr []"
| "portable_members ((k, v) # ms) =
     (if v = JsUndefined then portable_members ms
      else case portableJsonReplacer v of Inl e \<Rightarrow> Inl e | Inr j \<Rightarrow> map_sum id (\<lambda>js. (k, j) # js) (portable_members ms))"
| "portable_entries [] = Inr []"
| "portable_entries ((k, v) # es) =
     (if v = JsUndefined then portable_entries es
      else case portableJsonReplacer v of Inl e \<Rightarrow> Inl e
        | Inr j \<Rightarrow> map_sum id (\<lambda>js. ((case k of JsStr s \<Rightarrow> s | _ \<Rightarrow> []), j) # js) (portable_entries es))"

section \<open>Serializers\<close>

record DBOSSerializer =
  sz_name :: string
  sz_stringify :: "js_value \<Rightarrow> dbos_error + string"
  sz_parse :: "string option \<Rightarrow> dbos_error + js_value"

definition parse_text :: "string \<Rightarrow> dbos_error + json" where
  "parse_text text = (case JSON_parse text of None \<Rightarrow> Inl (PlainError ''SyntaxError'') | Some j \<Rightarrow> Inr j)"

definition DBOSPortableJSON :: DBOSSerializer where
  "DBOSPortableJSON = \<lparr>sz_name = ''portable_json'',
     sz_stringify = (\<lambda>v. map_sum id JSON_stringify (portableJsonReplacer v)),
     sz_parse = (\<lambda>t. case t of None \<Rightarrow> Inr JsNull | Some s \<Rightarrow> map_sum id of_json (parse_text s))\<rparr>"

definition SERIALIZER_MARKER_KEY :: string where "SERIALIZER_MARKER_KEY = ''__dbos_serializer''"
definition SERIALIZER_MARKER_VALUE :: string where "SERIALIZER_MARKER_VALUE = ''superjson''"

definition SERIALIZER_MARKER_STRING :: string where
  "SERIALIZER_MARKER_STRING = quote_string SERIALIZER_MARKER_KEY @ '':'' @ quote_string SERIALIZER_MARKER_VALUE"

text \<open>SuperJSON turns a value into the members of a record (\<open>json\<close> and, where needed, \<open>meta\<close>) and back.\<close>

record superjson =
  sj_serialize :: "js_value \<Rightarrow> (string \<times> json) list"
  sj_deserialize :: "(string \<times> json) list \<Rightarrow> dbos_error + js_value"

definition isDBOSBrandedSuperjsonRecord :: "json \<Rightarrow> bool" where
  "isDBOSBrandedSuperjsonRecord obj = (case obj of
       JObj ms \<Rightarrow> map_of (rev ms) SERIALIZER_MARKER_KEY = Some (JStr SERIALIZER_MARKER_VALUE) \<and> ''json'' \<in> fst ` set ms
     | _ \<Rightarrow> False)"

definition sjstringify :: "superjson \<Rightarrow> js_value \<Rightarrow> string" where
  "sjstringify sj v = JSON_stringify (JObj (sj_serialize sj v @ [(SERIALIZER_MARKER_KEY, JStr SERIALIZER_MARKER_VALUE)]))"

definition native_parse :: "superjson \<Rightarrow> (string \<Rightarrow> dbos_error + js_value) \<Rightarrow> string option \<Rightarrow> dbos_error + js_value" where
  "native_parse sj legacy text = (case text of
       None \<Rightarrow> Inr JsNull
     | Some s \<Rightarrow>
         if js_includes SERIALIZER_MARKER_STRING s
         then (case parse_text s of
             Inl e \<Rightarrow> Inl e
           | Inr j \<Rightarrow> (case j of JObj ms \<Rightarrow> if isDBOSBrandedSuperjsonRecord j then sj_deserialize sj ms else legacy s
                         | _ \<Rightarrow> legacy s))
         else legacy s)"

definition DBOSJSON :: "superjson \<Rightarrow> (string \<Rightarrow> dbos_error + js_value) \<Rightarrow> DBOSSerializer" where
  "DBOSJSON sj legacy = \<lparr>sz_name = ''js_superjson'', sz_stringify = (\<lambda>v. Inr (sjstringify sj v)),
     sz_parse = native_parse sj legacy\<rparr>"

section \<open>Dispatch on the format name\<close>

datatype WorkflowSerializationFormat = Portable | Native

record JsonWorkflowErrorData =
  ed_name :: string
  ed_message :: string
  ed_code :: "json option"
  ed_data :: "json option"

text \<open>What the executor serializes with: the native format, the configured serializer, the error codec of
  \<open>serialize-error\<close>, and how name, message, code and data are read off a thrown object.\<close>

record serialization_env =
  se_native :: DBOSSerializer
  se_serializer :: DBOSSerializer
  se_serializeError :: "dbos_error \<Rightarrow> js_value"
  se_deserializeError :: "js_value \<Rightarrow> dbos_error"
  se_errorData :: "dbos_error \<Rightarrow> JsonWorkflowErrorData"

definition format_name :: "serialization_env \<Rightarrow> WorkflowSerializationFormat option \<Rightarrow> string" where
  "format_name env fmt = (case fmt of
       Some Portable \<Rightarrow> sz_name DBOSPortableJSON
     | Some Native \<Rightarrow> sz_name (se_native env)
     | None \<Rightarrow> sz_name (se_serializer env))"

record serialized_io =
  io_deserialized :: js_value
  io_stringified :: string
  io_sername :: string

definition through :: "DBOSSerializer \<Rightarrow> js_value \<Rightarrow> dbos_error + serialized_io" where
  "through ser v = (case sz_stringify ser v of
       Inl e \<Rightarrow> Inl e
     | Inr text \<Rightarrow> (case sz_parse ser (Some text) of
         Inl e \<Rightarrow> Inl e
       | Inr d \<Rightarrow> Inr \<lparr>io_deserialized = d, io_stringified = text, io_sername = sz_name ser\<rparr>))"

definition serializeFunctionInputOutputWithSerializer ::
  "serialization_env \<Rightarrow> js_value \<Rightarrow> string option \<Rightarrow> dbos_error + serialized_io" where
  "serializeFunctionInputOutputWithSerializer env v serialization =
     (if serialization = Some (sz_name DBOSPortableJSON) then through DBOSPortableJSON v
      else if serialization = Some (sz_name (se_native env)) then through (se_native env) v
      else if truthy serialization \<and> serialization \<noteq> Some (sz_name (se_serializer env))
      then Inl (PlainError (''Serializer provided ('' @ sz_name (se_serializer env) @
        '') is not compatible with the required serialization ('' @ coalesce serialization [] @ '')''))
      else through (se_serializer env) v)"

definition serializeFunctionInputOutput ::
  "serialization_env \<Rightarrow> js_value \<Rightarrow> WorkflowSerializationFormat option \<Rightarrow> dbos_error + serialized_io" where
  "serializeFunctionInputOutput env v fmt = serializeFunctionInputOutputWithSerializer env v (Some (format_name env fmt))"

text \<open>The serializer that reads a stored value: by name, the configured one for none.\<close>

definition reader_for :: "serialization_env \<Rightarrow> string option \<Rightarrow> DBOSSerializer option" where
  "reader_for env serialization =
     (if serialization = Some (sz_name DBOSPortableJSON) then Some DBOSPortableJSON
      else if serialization = Some (sz_name (se_native env)) then Some (se_native env)
      else if \<not> truthy serialization \<or> serialization = Some (sz_name (se_serializer env)) then Some (se_serializer env)
      else None)"

definition not_available :: "string option \<Rightarrow> dbos_error" where
  "not_available serialization = PlainError (''Value deserialization type '' @ coalesce serialization [] @ '' is not available'')"

definition deserializeValue :: "serialization_env \<Rightarrow> string option \<Rightarrow> string option \<Rightarrow> dbos_error + js_value" where
  "deserializeValue env text serialization = (case reader_for env serialization of
       Some ser \<Rightarrow> sz_parse ser text
     | None \<Rightarrow> Inl (not_available serialization))"

definition js_member :: "string \<Rightarrow> js_value \<Rightarrow> js_value" where
  "js_member k v = (case v of JsObj ms \<Rightarrow> coalesce (map_of (rev ms) k) JsUndefined | _ \<Rightarrow> JsUndefined)"

text \<open>\<open>x.positionalArgs ?? []\<close>; reading a property of \<open>null\<close> throws.\<close>

definition deserializePositionalArgs ::
  "serialization_env \<Rightarrow> string option \<Rightarrow> string option \<Rightarrow> dbos_error + js_value" where
  "deserializePositionalArgs env text serialization = (case reader_for env serialization of
       None \<Rightarrow> Inl (not_available serialization)
     | Some ser \<Rightarrow> (case sz_parse ser text of
         Inl e \<Rightarrow> Inl e
       | Inr v \<Rightarrow>
           if serialization = Some (sz_name DBOSPortableJSON)
           then (if v = JsNull then Inl (PlainError ''TypeError'') else (let args = js_member ''positionalArgs'' v in
                       Inr (if args = JsUndefined \<or> args = JsNull then JsArr [] else args)))
           else Inr v))"

definition js_text :: "js_value \<Rightarrow> string" where
  "js_text v = (case v of JsStr s \<Rightarrow> s | _ \<Rightarrow> [])"

fun json_of :: "js_value \<Rightarrow> json option" where
  "json_of JsNull = Some JNull"
| "json_of (JsBool b) = Some (JBool b)"
| "json_of (JsNum n) = Some (JNum n)"
| "json_of (JsStr s) = Some (JStr s)"
| "json_of (JsArr vs) = map_option JArr (those (map json_of vs))"
| "json_of (JsObj ms) = map_option JObj (those (map (\<lambda>(k, v). map_option (\<lambda>j. (k, j)) (json_of v)) ms))"
| "json_of _ = None"

text \<open>In the portable format the error is thrown instead of returned; the callers throw it in both cases.\<close>

definition deserializeResError :: "serialization_env \<Rightarrow> string option \<Rightarrow> string option \<Rightarrow> dbos_error" where
  "deserializeResError env text serialization = (case reader_for env serialization of
       None \<Rightarrow> not_available serialization
     | Some ser \<Rightarrow> (case sz_parse ser text of
         Inl e \<Rightarrow> e
       | Inr v \<Rightarrow>
           if serialization = Some (sz_name DBOSPortableJSON)
           then (if v = JsNull then PlainError ''TypeError''
                 else PortableWorkflowError (js_text (js_member ''message'' v)) (js_text (js_member ''name'' v))
                   (json_of (js_member ''code'' v)) (json_of (js_member ''data'' v)))
           else se_deserializeError env v))"

definition safeParse :: "serialization_env \<Rightarrow> string \<Rightarrow> string option \<Rightarrow> js_value" where
  "safeParse env val serialization = (case deserializeValue env (Some val) serialization of Inl _ \<Rightarrow> JsStr val | Inr v \<Rightarrow> v)"

record serialized_value =
  sv_serializedValue :: "string option"
  sv_serialization :: "string option"

definition written :: "DBOSSerializer \<Rightarrow> js_value \<Rightarrow> dbos_error + serialized_value" where
  "written ser v = map_sum id (\<lambda>t. \<lparr>sv_serializedValue = Some t, sv_serialization = Some (sz_name ser)\<rparr>) (sz_stringify ser v)"

definition serializeValue ::
  "serialization_env \<Rightarrow> js_value \<Rightarrow> WorkflowSerializationFormat option \<Rightarrow> dbos_error + serialized_value" where
  "serializeValue env v fmt = (case fmt of
       Some Portable \<Rightarrow> written DBOSPortableJSON v
     | Some Native \<Rightarrow> written (se_native env) v
     | None \<Rightarrow> written (se_serializer env) v)"

definition serializeArgs ::
  "serialization_env \<Rightarrow> js_value list \<Rightarrow> (string \<times> js_value) list option \<Rightarrow> WorkflowSerializationFormat option \<Rightarrow>
   dbos_error + serialized_value" where
  "serializeArgs env positionalArgs namedArgs fmt = (case fmt of
       Some Portable \<Rightarrow> written DBOSPortableJSON (JsObj [(''positionalArgs'', JsArr positionalArgs),
           (''namedArgs'', case namedArgs of None \<Rightarrow> JsUndefined | Some ms \<Rightarrow> JsObj ms)])
     | _ \<Rightarrow>
         if namedArgs \<noteq> None then Inl (PlainError (''Serialization format '' @ [CHR 0x27] @
           (if fmt = Some Native then ''native'' else ''undefined'') @ [CHR 0x27] @ '' does not currently support named args.''))
         else if fmt = Some Native then written (se_native env) (JsArr positionalArgs)
         else written (se_serializer env) (JsArr positionalArgs))"

definition optional_member :: "string \<Rightarrow> json option \<Rightarrow> (string \<times> js_value) list" where
  "optional_member k v = (case v of None \<Rightarrow> [] | Some j \<Rightarrow> [(k, of_json j)])"

definition error_record :: "JsonWorkflowErrorData \<Rightarrow> js_value" where
  "error_record d = JsObj ([(''name'', JsStr (ed_name d)), (''message'', JsStr (ed_message d))] @
     optional_member ''code'' (ed_code d) @ optional_member ''data'' (ed_data d))"

definition serializeResErrorWithSerializer ::
  "serialization_env \<Rightarrow> dbos_error \<Rightarrow> string option \<Rightarrow> dbos_error + serialized_value" where
  "serializeResErrorWithSerializer env err serialization =
     (if serialization = Some (sz_name DBOSPortableJSON) then written DBOSPortableJSON (error_record (se_errorData env err))
      else if serialization = Some (sz_name (se_native env)) then written (se_native env) (se_serializeError env err)
      else written (se_serializer env) (se_serializeError env err))"

definition serializeResError ::
  "serialization_env \<Rightarrow> dbos_error \<Rightarrow> WorkflowSerializationFormat option \<Rightarrow> dbos_error + serialized_value" where
  "serializeResError env err fmt = serializeResErrorWithSerializer env err (Some (format_name env fmt))"

section \<open>What is written is what is read\<close>

lemma those_map_Some: "(\<And>x. x \<in> set xs \<Longrightarrow> f x = Some (g x)) \<Longrightarrow> those (map f xs) = Some (map g xs)"
  by (induction xs) auto

lemma json_of_of_json [simp]: "json_of (of_json j) = Some j"
proof (induction j)
  case (JArr js)
  then show ?case using those_map_Some [of js "json_of \<circ> of_json" id] by (simp add: comp_def)
next
  case (JObj ms)
  then have "those (map (\<lambda>x. case (case x of (k, j) \<Rightarrow> (k, of_json j)) of (k, v) \<Rightarrow> map_option (\<lambda>j. (k, j)) (json_of v)) ms) =
      Some (map id ms)"
    by (intro those_map_Some) auto
  then show ?case by (simp add: comp_def)
qed simp_all

lemma of_json_not_undefined [simp]: "of_json j \<noteq> JsUndefined"
  by (cases j) simp_all

lemma portable_members_of_json:
  "\<forall>j\<in>snd ` set ms. portableJsonReplacer (of_json j) = Inr j \<Longrightarrow> portable_members (map (\<lambda>(k, j). (k, of_json j)) ms) = Inr ms"
  by (induction ms) auto

lemma portable_of_json [simp]: "portableJsonReplacer (of_json j) = Inr j"
proof (induction j)
  case (JArr js)
  then have "portable_elements (map of_json js) = Inr js" by (induction js) auto
  then show ?case by simp
next
  case (JObj ms)
  then have "portable_members (map (\<lambda>(k, j). (k, of_json j)) ms) = Inr ms" by (intro portable_members_of_json) auto
  then show ?case by simp
qed simp_all

text \<open>A serializer promises to read back what it wrote, for the values it supports.\<close>

locale lawful_serializer =
  fixes ser :: DBOSSerializer
    and supported :: "js_value \<Rightarrow> bool"
  assumes read_back: "supported v \<Longrightarrow> \<exists>t. sz_stringify ser v = Inr t \<and> sz_parse ser (Some t) = Inr v"
begin

lemma through_supported:
  "supported v \<Longrightarrow> \<exists>t. through ser v = Inr \<lparr>io_deserialized = v, io_stringified = t, io_sername = sz_name ser\<rparr> \<and>
     sz_parse ser (Some t) = Inr v"
  using read_back [of v] by (auto simp: through_def)

lemma written_supported:
  "supported v \<Longrightarrow> \<exists>t. written ser v = Inr \<lparr>sv_serializedValue = Some t, sv_serialization = Some (sz_name ser)\<rparr> \<and>
     sz_parse ser (Some t) = Inr v"
  using read_back [of v] by (auto simp: written_def)

end

definition is_json :: "js_value \<Rightarrow> bool" where
  "is_json v \<longleftrightarrow> (\<exists>j. v = of_json j)"

lemma is_jsonI [intro]: "is_json (of_json j)"
  by (auto simp: is_json_def)

interpretation portable: lawful_serializer DBOSPortableJSON is_json
  by unfold_locales (auto simp: DBOSPortableJSON_def is_json_def parse_text_def)

lemma js_includes_append: "js_includes sub (a @ sub @ b)"
  by (auto simp: js_includes_iff)

lemma js_join_snoc: "ms \<noteq> [] \<Longrightarrow> js_join sep (ms @ [m]) = js_join sep ms @ sep @ m"
  by (induction sep ms rule: js_join.induct) auto

lemma marker_in_text: "js_includes SERIALIZER_MARKER_STRING (sjstringify sj v)"
proof -
  have m: "show_member (SERIALIZER_MARKER_KEY, JStr SERIALIZER_MARKER_VALUE) = SERIALIZER_MARKER_STRING"
    by (simp add: show_member_def SERIALIZER_MARKER_STRING_def)
  have "\<exists>a b. sjstringify sj v = a @ SERIALIZER_MARKER_STRING @ b"
  proof (cases "sj_serialize sj v = []")
    case True
    then have "sjstringify sj v = ''{'' @ SERIALIZER_MARKER_STRING @ ''}''"
      unfolding sjstringify_def JSON_stringify_JObj by (simp add: m)
    then show ?thesis by blast
  next
    case False
    then have "js_join '','' (map show_member (sj_serialize sj v @ [(SERIALIZER_MARKER_KEY, JStr SERIALIZER_MARKER_VALUE)])) =
        js_join '','' (map show_member (sj_serialize sj v)) @ '','' @ SERIALIZER_MARKER_STRING"
      by (simp add: js_join_snoc m)
    then have "sjstringify sj v =
        (''{'' @ js_join '','' (map show_member (sj_serialize sj v)) @ '','') @ SERIALIZER_MARKER_STRING @ ''}''"
      unfolding sjstringify_def JSON_stringify_JObj by simp
    then show ?thesis by blast
  qed
  then show ?thesis by (auto simp: js_includes_iff)
qed

text \<open>What is documented of SuperJSON: the record has a \<open>json\<close> member and deserializing it, with the marker added,
  gives the value.\<close>

definition superjson_law :: "superjson \<Rightarrow> (js_value \<Rightarrow> bool) \<Rightarrow> bool" where
  "superjson_law sj supported \<longleftrightarrow> (\<forall>v. supported v \<longrightarrow> ''json'' \<in> fst ` set (sj_serialize sj v) \<and>
     sj_deserialize sj (sj_serialize sj v @ [(SERIALIZER_MARKER_KEY, JStr SERIALIZER_MARKER_VALUE)]) = Inr v)"

lemma DBOSJSON_lawful:
  assumes "superjson_law sj supported"
  shows "lawful_serializer (DBOSJSON sj legacy) supported"
proof
  fix v assume v: "supported v"
  let ?ms = "sj_serialize sj v @ [(SERIALIZER_MARKER_KEY, JStr SERIALIZER_MARKER_VALUE)]"
  have "isDBOSBrandedSuperjsonRecord (JObj ?ms)"
    using assms v by (auto simp: isDBOSBrandedSuperjsonRecord_def superjson_law_def)
  moreover have parsed: "JSON_parse (sjstringify sj v) = Some (JObj ?ms)"
    unfolding sjstringify_def by (rule JSON_parse_stringify)
  ultimately have "native_parse sj legacy (Some (sjstringify sj v)) = sj_deserialize sj ?ms"
    using marker_in_text [of sj v] parsed by (simp add: native_parse_def parse_text_def)
  with assms v show "\<exists>t. sz_stringify (DBOSJSON sj legacy) v = Inr t \<and> sz_parse (DBOSJSON sj legacy) (Some t) = Inr v"
    by (simp add: DBOSJSON_def superjson_law_def)
qed

definition env_lawful :: "serialization_env \<Rightarrow> (js_value \<Rightarrow> bool) \<Rightarrow> bool" where
  "env_lawful env supported \<longleftrightarrow> (\<exists>sj legacy. superjson_law sj supported \<and> se_native env = DBOSJSON sj legacy) \<and>
     (\<forall>v. supported v \<longrightarrow> (\<exists>t. sz_stringify (se_serializer env) v = Inr t \<and> sz_parse (se_serializer env) (Some t) = Inr v)) \<and>
     sz_name (se_serializer env) \<noteq> ''portable_json'' \<and>
     (sz_name (se_serializer env) = ''js_superjson'' \<longrightarrow> se_serializer env = se_native env)"

lemma builtin_names [simp]: "sz_name DBOSPortableJSON = ''portable_json''" "sz_name (DBOSJSON sj legacy) = ''js_superjson''"
  by (simp_all add: DBOSPortableJSON_def DBOSJSON_def)

definition writer_for :: "serialization_env \<Rightarrow> WorkflowSerializationFormat option \<Rightarrow> DBOSSerializer" where
  "writer_for env fmt = (case fmt of Some Portable \<Rightarrow> DBOSPortableJSON | Some Native \<Rightarrow> se_native env | None \<Rightarrow> se_serializer env)"

lemma env_names:
  assumes "env_lawful env ok"
  shows "sz_name (se_native env) = ''js_superjson''" "sz_name (se_serializer env) \<noteq> ''portable_json''"
    "sz_name (se_serializer env) = ''js_superjson'' \<Longrightarrow> se_serializer env = se_native env"
  using assms unfolding env_lawful_def by (metis builtin_names(2))+

lemma writer_lawful:
  assumes "env_lawful env ok"
  shows "lawful_serializer (writer_for env fmt) (\<lambda>v. if fmt = Some Portable then is_json v else ok v)"
proof (cases fmt)
  case None
  then show ?thesis using assms by unfold_locales (simp add: writer_for_def env_lawful_def)
next
  case (Some f)
  show ?thesis
  proof (cases f)
    case Portable
    with Some show ?thesis by (simp add: writer_for_def portable.lawful_serializer_axioms)
  next
    case Native
    obtain sj legacy where "superjson_law sj ok" "se_native env = DBOSJSON sj legacy"
      using assms by (auto simp: env_lawful_def)
    with Some Native show ?thesis using DBOSJSON_lawful [of sj ok legacy] by (simp add: writer_for_def)
  qed
qed

lemma reader_of_writer:
  assumes "env_lawful env ok"
  shows "reader_for env (Some (sz_name (writer_for env fmt))) = Some (writer_for env fmt)"
proof (cases fmt)
  case None
  then show ?thesis using env_names [OF assms]
    by (cases "sz_name (se_serializer env) = ''js_superjson''") (simp_all add: reader_for_def writer_for_def)
next
  case (Some f)
  then show ?thesis using env_names(1) [OF assms] by (cases f) (simp_all add: reader_for_def writer_for_def)
qed

lemma serializeValue_writer: "serializeValue env v fmt = written (writer_for env fmt) v"
  by (simp add: serializeValue_def writer_for_def split: option.splits WorkflowSerializationFormat.splits)

lemma serializeFunctionInputOutput_writer:
  assumes "env_lawful env ok"
  shows "serializeFunctionInputOutput env v fmt = through (writer_for env fmt) v"
proof -
  note defs = serializeFunctionInputOutput_def serializeFunctionInputOutputWithSerializer_def format_name_def writer_for_def
  show ?thesis
  proof (cases fmt)
    case None
    then show ?thesis using env_names [OF assms]
      by (cases "sz_name (se_serializer env) = ''js_superjson''") (simp_all add: defs)
  next
    case (Some f)
    then show ?thesis using env_names(1) [OF assms] by (cases f) (simp_all add: defs)
  qed
qed

lemma deserialize_through:
  assumes "through ser v = Inr io" and "reader_for env (Some (sz_name ser)) = Some ser"
  shows "deserializeValue env (Some (io_stringified io)) (Some (io_sername io)) = Inr (io_deserialized io)"
  using assms by (auto simp: through_def deserializeValue_def split: sum.splits)

lemma args_roundtrip:
  assumes "env_lawful env ok" and "if fmt = Some Portable then \<exists>js. args = map of_json js else ok (JsArr args)"
  shows "\<exists>w. serializeArgs env args None fmt = Inr w \<and>
    deserializePositionalArgs env (sv_serializedValue w) (sv_serialization w) = Inr (JsArr args)"
proof (cases "fmt = Some Portable")
  case True
  with assms(2) obtain js where js: "args = map of_json js" by auto
  let ?j = "JObj [(''positionalArgs'', JArr js)]"
  have "portableJsonReplacer (JsArr args) = Inr (JArr js)" using portable_of_json [of "JArr js"] js by simp
  then have "serializeArgs env args None fmt =
      Inr \<lparr>sv_serializedValue = Some (JSON_stringify ?j), sv_serialization = Some ''portable_json''\<rparr>"
    using True by (simp add: serializeArgs_def written_def DBOSPortableJSON_def)
  moreover have "sz_parse DBOSPortableJSON (Some (JSON_stringify ?j)) = Inr (of_json ?j)"
    by (simp add: DBOSPortableJSON_def parse_text_def del: JSON_stringify.simps)
  then have "deserializePositionalArgs env (Some (JSON_stringify ?j)) (Some ''portable_json'') = Inr (JsArr args)"
    using js by (simp add: deserializePositionalArgs_def reader_for_def js_member_def Let_def del: JSON_stringify.simps)
  ultimately show ?thesis by (simp del: JSON_stringify.simps)
next
  case False
  have w: "serializeArgs env args None fmt = written (writer_for env fmt) (JsArr args)"
    using False by (auto simp: serializeArgs_def writer_for_def split: option.splits WorkflowSerializationFormat.splits)
  have "sz_name (writer_for env fmt) \<noteq> ''portable_json''"
    using False env_names(1,2) [OF assms(1)] by (auto simp: writer_for_def split: option.splits WorkflowSerializationFormat.splits)
  with w lawful_serializer.written_supported [OF writer_lawful [OF assms(1)], of fmt "JsArr args"] assms(2) False
    reader_of_writer [OF assms(1), of fmt]
  show ?thesis by (auto simp: deserializePositionalArgs_def)
qed

text \<open>C39: what is stored is what comes back. In each of the three formats, and with any SuperJSON and configured
  serializer that read back what they write (and do not take the name of a built-in format), a supported value that is
  serialized as a value or a function result deserializes to itself under the stored format name; in
  particular the marker always identifies the native format. Arguments come back as the same argument list.\<close>

theorem serialization_roundtrip:
  assumes "env_lawful env ok" and "if fmt = Some Portable then is_json v else ok v"
  shows "(\<exists>w. serializeValue env v fmt = Inr w \<and>
      deserializeValue env (sv_serializedValue w) (sv_serialization w) = Inr v) \<and>
    (\<exists>io. serializeFunctionInputOutput env v fmt = Inr io \<and> io_deserialized io = v \<and>
      deserializeValue env (Some (io_stringified io)) (Some (io_sername io)) = Inr v) \<and>
    (\<forall>args. (if fmt = Some Portable then \<exists>js. args = map of_json js else ok (JsArr args)) \<longrightarrow>
      (\<exists>w. serializeArgs env args None fmt = Inr w \<and>
        deserializePositionalArgs env (sv_serializedValue w) (sv_serialization w) = Inr (JsArr args)))"
  using args_roundtrip [OF assms(1), of fmt] lawful_serializer.through_supported [OF writer_lawful [OF assms(1)] assms(2)]
    lawful_serializer.written_supported [OF writer_lawful [OF assms(1)] assms(2)] reader_of_writer [OF assms(1), of fmt]
  by (simp add: serializeValue_writer serializeFunctionInputOutput_writer [OF assms(1)] deserializeValue_def) fastforce

definition example_superjson :: superjson where
  "example_superjson = \<lparr>sj_serialize = (\<lambda>v. [(''json'', coalesce (json_of v) JNull)]),
     sj_deserialize = (\<lambda>ms. Inr (of_json (coalesce (map_of ms ''json'') JNull)))\<rparr>"

definition example_serialization :: serialization_env where
  "example_serialization = (let native = DBOSJSON example_superjson (\<lambda>_. Inl (PlainError ''legacy'')) in
     \<lparr>se_native = native, se_serializer = native, se_serializeError = (\<lambda>e. JsError ''Error'' ''failed''),
      se_deserializeError = (\<lambda>v. PlainError ''failed''),
      se_errorData = (\<lambda>e. \<lparr>ed_name = ''Error'', ed_message = ''failed'', ed_code = None, ed_data = None\<rparr>)\<rparr>)"

lemma example_serialization_lawful: "env_lawful example_serialization is_json"
proof -
  have law: "superjson_law example_superjson is_json"
    by (auto simp: superjson_law_def example_superjson_def is_json_def)
  from lawful_serializer.read_back [OF DBOSJSON_lawful [OF law]] law show ?thesis
    by (auto simp: env_lawful_def example_serialization_def Let_def)
qed

theorem serialization_roundtrip_witness:
  "\<exists>w. serializeValue example_serialization (JsArr [JsNum 3, JsStr ''a'']) None = Inr w \<and>
     deserializeValue example_serialization (sv_serializedValue w) (sv_serialization w) = Inr (JsArr [JsNum 3, JsStr ''a''])"
proof -
  have "is_json (JsArr [JsNum 3, JsStr ''a''])"
    unfolding is_json_def by (rule exI [of _ "JArr [JNum 3, JStr ''a'']"]) simp
  with serialization_roundtrip [OF example_serialization_lawful, of None] show ?thesis by simp
qed

end
