(* ===== verification/DBOS_Context.thy ===== *)
theory DBOS_Context
  imports Serialization
begin

text \<open>
  The execution context of \<open>src/context.ts\<close>: which workflow, step or transaction the code runs in, and the numbering of
  the calls of a workflow. The context store of the source is passed explicitly; an operation that changes it returns
  the new context. Fields that only telemetry or HTTP handling read are left out. A timeout may be unset, \<open>null\<close> (no timeout) or a number.
\<close>

section \<open>The context\<close>

record StepStatus =
  ss_stepID :: int
  ss_currentAttempt :: "int option"
  ss_maxAttempts :: "int option"
  ss_timeoutSignal :: bool

record DBOSLocalCtx =
  cx_workflowId :: "string option"
  cx_curWFFunctionId :: "int option"
  cx_curStepFunctionId :: "int option"
  cx_curTxFunctionId :: "int option"
  cx_stepStatus :: "StepStatus option"
  cx_presetID :: bool
  cx_deadlineEpochMS :: "int option"
  cx_workflowTimeoutMS :: "int option option"
  cx_idAssignedForNextWorkflow :: "string option"
  cx_queueAssignedForWorkflows :: "string option"
  cx_authenticatedUser :: "string option"
  cx_authenticatedRoles :: "string list option"
  cx_assumedRole :: "string option"
  cx_request :: "json option"
  cx_serializationType :: "WorkflowSerializationFormat option"

definition empty_ctx :: DBOSLocalCtx where
  "empty_ctx = \<lparr>cx_workflowId = None, cx_curWFFunctionId = None, cx_curStepFunctionId = None, cx_curTxFunctionId = None,
     cx_stepStatus = None, cx_presetID = False, cx_deadlineEpochMS = None, cx_workflowTimeoutMS = None,
     cx_idAssignedForNextWorkflow = None, cx_queueAssignedForWorkflows = None, cx_authenticatedUser = None, cx_authenticatedRoles = None, cx_assumedRole = None,
     cx_request = None, cx_serializationType = None\<rparr>"

text \<open>A number is truthy unless it is 0.\<close>

definition truthy_int :: "int option \<Rightarrow> bool" where
  "truthy_int v = (case v of None \<Rightarrow> False | Some n \<Rightarrow> n \<noteq> 0)"

definition isWithinWorkflowCtx :: "DBOSLocalCtx \<Rightarrow> bool" where
  "isWithinWorkflowCtx ctx = (cx_workflowId ctx \<noteq> None)"

definition isInStepCtx :: "DBOSLocalCtx \<Rightarrow> bool" where
  "isInStepCtx ctx = (cx_workflowId ctx \<noteq> None \<and> truthy_int (cx_curStepFunctionId ctx))"

definition isInTxnCtx :: "DBOSLocalCtx \<Rightarrow> bool" where
  "isInTxnCtx ctx = (cx_workflowId ctx \<noteq> None \<and> truthy_int (cx_curTxFunctionId ctx))"

definition isInWorkflowCtx :: "DBOSLocalCtx \<Rightarrow> bool" where
  "isInWorkflowCtx ctx = (isWithinWorkflowCtx ctx \<and> \<not> isInStepCtx ctx \<and> \<not> isInTxnCtx ctx)"

text \<open>The public predicates of \<open>DBOS\<close> in \<open>src/dbos.ts\<close>, which compare with \<open>undefined\<close>.\<close>

definition DBOS_isInStep :: "DBOSLocalCtx \<Rightarrow> bool" where
  "DBOS_isInStep ctx = (cx_curStepFunctionId ctx \<noteq> None)"

definition DBOS_isInTransaction :: "DBOSLocalCtx \<Rightarrow> bool" where
  "DBOS_isInTransaction ctx = (cx_curTxFunctionId ctx \<noteq> None)"

definition DBOS_isWithinWorkflow :: "DBOSLocalCtx \<Rightarrow> bool" where
  "DBOS_isWithinWorkflow ctx = (cx_workflowId ctx \<noteq> None)"

definition DBOS_isInWorkflow :: "DBOSLocalCtx \<Rightarrow> bool" where
  "DBOS_isInWorkflow ctx = (DBOS_isWithinWorkflow ctx \<and> \<not> DBOS_isInTransaction ctx \<and> \<not> DBOS_isInStep ctx)"

section \<open>Operations on the context\<close>

type_synonym 'a ctx_op = "(DBOSLocalCtx option, dbos_error, 'a) op"

definition call_id :: "(int \<Rightarrow> int) \<Rightarrow> int ctx_op" where
  "call_id advance c = (case c of
       None \<Rightarrow> (Inl (DBOSInvalidWorkflowTransitionError ''Attempt to get a call ID number outside of a workflow''), c)
     | Some pctx \<Rightarrow>
         if \<not> isInWorkflowCtx pctx
         then (Inl (DBOSInvalidWorkflowTransitionError
                 ''Attempt to get a call ID number in a workflow that is already in a call''), c)
         else (let cur = coalesce (cx_curWFFunctionId pctx) 0
               in (Inr cur, Some (pctx\<lparr>cx_curWFFunctionId := Some (advance cur)\<rparr>))))"

definition functionIDGetIncrement :: "int ctx_op" where
  "functionIDGetIncrement = call_id (\<lambda>n. n + 1)"

definition functionIDGet :: "int ctx_op" where
  "functionIDGet = call_id (\<lambda>n. n)"

definition getNextWFID :: "string option \<Rightarrow> string option ctx_op" where
  "getNextWFID assignedID c =
     (if truthy assignedID then (Inr assignedID, c)
      else case c of
        None \<Rightarrow> (Inr assignedID, c)
      | Some pctx \<Rightarrow>
          if truthy (cx_idAssignedForNextWorkflow pctx)
          then (Inr (cx_idAssignedForNextWorkflow pctx), Some (pctx\<lparr>cx_idAssignedForNextWorkflow := None\<rparr>))
          else (Inr assignedID, c))"

text \<open>The context a callback runs in.\<close>

definition runInStepContext ::
  "DBOSLocalCtx \<Rightarrow> int \<Rightarrow> int option \<Rightarrow> int option \<Rightarrow> bool \<Rightarrow> dbos_error + DBOSLocalCtx" where
  "runInStepContext pctx stepID maxAttempts currentAttempt timeoutSignal =
     (if \<not> isInWorkflowCtx pctx then Inl (DBOSInvalidWorkflowTransitionError ''Invalid workflow state'')
      else Inr (pctx\<lparr>cx_stepStatus := Some \<lparr>ss_stepID = stepID, ss_currentAttempt = currentAttempt,
               ss_maxAttempts = (if truthy_int currentAttempt then maxAttempts else None),
               ss_timeoutSignal = timeoutSignal\<rparr>,
             cx_curStepFunctionId := Some stepID\<rparr>))"

definition runWithDataSourceContext :: "int \<Rightarrow> DBOSLocalCtx option \<Rightarrow> DBOSLocalCtx" where
  "runWithDataSourceContext callnum c = (coalesce c empty_ctx)\<lparr>cx_curTxFunctionId := Some callnum\<rparr>"

text \<open>The context of a workflow's function: the caller's, with a fresh numbering.\<close>

definition workflow_ctx ::
  "DBOSLocalCtx option \<Rightarrow> string \<Rightarrow> bool \<Rightarrow> int option \<Rightarrow> WorkflowSerializationFormat option \<Rightarrow> DBOSLocalCtx" where
  "workflow_ctx pctx workflowID presetID deadlineEpochMS serializationType = (coalesce pctx empty_ctx)\<lparr>
     cx_presetID := presetID, cx_workflowTimeoutMS := None, cx_deadlineEpochMS := deadlineEpochMS,
     cx_workflowId := Some workflowID, cx_curWFFunctionId := None, cx_serializationType := serializationType\<rparr>"

section \<open>Numbering the calls of a workflow\<close>

fun call_ids :: "nat \<Rightarrow> int list ctx_op" where
  "call_ids 0 = ret []"
| "call_ids (Suc n) = and_then functionIDGetIncrement (\<lambda>i. and_then (call_ids n) (\<lambda>is. ret (i # is)))"

lemma call_id_in_workflow:
  "isInWorkflowCtx ctx \<Longrightarrow> functionIDGetIncrement (Some ctx) =
     (Inr (coalesce (cx_curWFFunctionId ctx) 0),
      Some (ctx\<lparr>cx_curWFFunctionId := Some (coalesce (cx_curWFFunctionId ctx) 0 + 1)\<rparr>))"
  by (simp add: functionIDGetIncrement_def call_id_def Let_def)

lemma isInWorkflowCtx_counter [simp]: "isInWorkflowCtx (ctx\<lparr>cx_curWFFunctionId := i\<rparr>) = isInWorkflowCtx ctx"
  by (simp add: isInWorkflowCtx_def isWithinWorkflowCtx_def isInStepCtx_def isInTxnCtx_def)

text \<open>Function IDs depend on nothing but the number of calls before: this is what makes replay find its checkpoints.\<close>

lemma call_ids_consecutive:
  assumes "isInWorkflowCtx ctx"
  shows "fst (call_ids n (Some ctx)) = Inr (map (\<lambda>k. coalesce (cx_curWFFunctionId ctx) 0 + int k) [0..<n])"
  using assms
proof (induction n arbitrary: ctx)
  case (Suc n)
  let ?i = "coalesce (cx_curWFFunctionId ctx) 0"
  let ?c = "ctx\<lparr>cx_curWFFunctionId := Some (?i + 1)\<rparr>"
  have "fst (call_ids n (Some ?c)) = Inr (map (\<lambda>k. ?i + 1 + int k) [0..<n])"
    using Suc.IH [of ?c] Suc.prems by simp
  moreover have "map (\<lambda>k. ?i + int k) [0..<Suc n] = ?i # map (\<lambda>k. ?i + 1 + int k) [0..<n]"
    by (simp add: upt_conv_Cons map_Suc_upt [symmetric] comp_def del: upt_Suc)
  ultimately show ?case
    using Suc.prems by (cases "call_ids n (Some ?c)") (auto simp: call_id_in_workflow)
qed simp

text \<open>the guard of \<open>functionIDGetIncrement\<close> refuses a call from within a step, except within the first one. In the
  context of step number 0 the guard's truthiness test takes the step for none, so a nested call gets an ID: the very
  ID the workflow's next call gets as well. Within every other step, and within every step by the public predicate
  \<open>DBOS.isInStep\<close>, the nested call is recognised.\<close>

lemma step_zero_escapes_call_guard:
  assumes "isInWorkflowCtx ctx" and "cx_curWFFunctionId ctx = Some (n + 1)"
    and "runInStepContext ctx n mx att sig = Inr stepCtx"
  shows "DBOS_isInStep stepCtx \<and> \<not> DBOS_isInWorkflow stepCtx \<and>
    (if n = 0 then fst (functionIDGetIncrement (Some stepCtx)) = Inr 1 \<and> fst (functionIDGetIncrement (Some ctx)) = Inr 1
     else \<exists>msg. fst (functionIDGetIncrement (Some stepCtx)) = Inl (DBOSInvalidWorkflowTransitionError msg))"
  using assms by (auto simp: runInStepContext_def DBOS_isInStep_def DBOS_isInWorkflow_def functionIDGetIncrement_def call_id_def
      isInWorkflowCtx_def isInStepCtx_def isInTxnCtx_def isWithinWorkflowCtx_def truthy_int_def Let_def split: if_splits)

end
