(* ===== verification/Executor_Steps.thy ===== *)
theory Executor_Steps
  imports SysDB_Await DBOS_Context Complex_Main
begin

text \<open>
  Running steps (\<open>callStepFunction\<close>, \<open>runInternalStep\<close> and \<open>reviveResultOrError\<close> of \<open>src/dbos-executor.ts\<close>,
  \<open>src/step.ts\<close>).

  A step's function is a parameter: given its context it takes some milliseconds, changes the database and ends with a
  value or an error. What other processes do to the database meanwhile is part of that change. Retry intervals are
  rational numbers of seconds. The retry loop also returns the attempts it made and the sleeps between them.
\<close>

section \<open>Configuration\<close>

record StepConfig =
  sg_retriesAllowed :: bool
  sg_intervalSeconds :: "rat option"
  sg_maxAttempts :: "int option"
  sg_backoffRate :: "rat option"
  sg_shouldRetry :: "(dbos_error \<Rightarrow> dbos_error + bool) option"
  sg_timeoutMS :: "int option"

definition validateStepConfig :: "StepConfig \<Rightarrow> string \<Rightarrow> dbos_error option" where
  "validateStepConfig config stepName = (case sg_timeoutMS config of
       None \<Rightarrow> None
     | Some t \<Rightarrow> if t \<le> 0 then Some (DBOSError (''Invalid timeoutMS ('' @ show_int t @ '') in configuration of step '' @
          stepName @ '': must be a positive number'')) else None)"

section \<open>Attempts and retries\<close>

type_synonym step_function = "DBOSLocalCtx \<Rightarrow> sysdb \<Rightarrow> (int \<times> (dbos_error + js_value)) \<times> sysdb"

text \<open>One attempt. An attempt that takes longer than the timeout is abandoned.\<close>

definition invokeStepAttempt ::
  "string \<Rightarrow> StepConfig \<Rightarrow> int \<Rightarrow> DBOSLocalCtx \<Rightarrow> int \<Rightarrow> step_function \<Rightarrow> int option \<Rightarrow> js_value db_op" where
  "invokeStepAttempt stepFnName config maxAttempts lctx funcID stepFn attemptNum db =
     (case runInStepContext lctx funcID (Some maxAttempts) attemptNum (sg_timeoutMS config \<noteq> None) of
        Inl e \<Rightarrow> (Inl e, db)
      | Inr sctx \<Rightarrow> (case stepFn sctx db of ((duration, outcome), db') \<Rightarrow>
          (case sg_timeoutMS config of
             None \<Rightarrow> (outcome, db')
           | Some t \<Rightarrow> if duration > t then (Inl (DBOSStepTimeoutError stepFnName t), db') else (outcome, db'))))"

datatype step_outcome = StepValue js_value | StepError dbos_error | StepExhausted "dbos_error list" | StepInterrupted dbos_error

record retry_trace =
  tr_attempts :: "int list"
  tr_sleeps :: "rat list"

definition maxRetryIntervalSec :: rat where
  "maxRetryIntervalSec = 3600"

definition next_interval :: "StepConfig \<Rightarrow> rat \<Rightarrow> rat" where
  "next_interval config intervalSeconds =
     (let i = intervalSeconds * coalesce (sg_backoffRate config) 2
      in if i < maxRetryIntervalSec then i else maxRetryIntervalSec)"

text \<open>The loop: \<open>n\<close> attempts are done, \<open>errors\<close> are theirs. Not retrying ends it with the error itself.\<close>

function retry_loop ::
  "string \<Rightarrow> StepConfig \<Rightarrow> int \<Rightarrow> string \<Rightarrow> (int \<Rightarrow> js_value db_op) \<Rightarrow> int \<Rightarrow> rat \<Rightarrow> dbos_error list \<Rightarrow> retry_trace \<Rightarrow> sysdb \<Rightarrow>
   (step_outcome \<times> retry_trace) \<times> sysdb" where
  "retry_loop stepFnName config maxAttempts wfid attempt n intervalSeconds errors tr db =
     (if n < maxAttempts then
        (case checkIfCanceled wfid db of
           (Inl e, db1) \<Rightarrow> ((StepInterrupted e, tr), db1)
         | (Inr _, db1) \<Rightarrow>
             (let tr' = tr\<lparr>tr_attempts := tr_attempts tr @ [n + 1]\<rparr> in
              case attempt (n + 1) db1 of
                (Inr v, db2) \<Rightarrow> ((StepValue v, tr'), db2)
              | (Inl e, db2) \<Rightarrow>
                  (case (case sg_shouldRetry config of None \<Rightarrow> Inr True | Some f \<Rightarrow> f e) of
                     Inl retryError \<Rightarrow> ((StepError retryError, tr'), db2)
                   | Inr False \<Rightarrow> ((StepError e, tr'), db2)
                   | Inr True \<Rightarrow>
                       if n + 1 < maxAttempts
                       then retry_loop stepFnName config maxAttempts wfid attempt (n + 1) (next_interval config intervalSeconds)
                              (errors @ [e]) (tr'\<lparr>tr_sleeps := tr_sleeps tr' @ [intervalSeconds]\<rparr>) db2
                       else retry_loop stepFnName config maxAttempts wfid attempt (n + 1) intervalSeconds (errors @ [e]) tr' db2)))
      else ((StepExhausted errors, tr), db))"
  by pat_completeness auto
termination
  by (relation "measure (\<lambda>(_, _, m, _, _, n, _, _, _, _). nat (m - n))") auto

declare retry_loop.simps [simp del]

definition run_attempts ::
  "string \<Rightarrow> StepConfig \<Rightarrow> int \<Rightarrow> DBOSLocalCtx \<Rightarrow> string \<Rightarrow> int \<Rightarrow> step_function \<Rightarrow> sysdb \<Rightarrow> (step_outcome \<times> retry_trace) \<times> sysdb" where
  "run_attempts stepFnName config maxAttempts lctx wfid funcID stepFn db =
     (if sg_retriesAllowed config
      then retry_loop stepFnName config maxAttempts wfid
             (\<lambda>k. invokeStepAttempt stepFnName config maxAttempts lctx funcID stepFn (Some k)) 0
             (coalesce (sg_intervalSeconds config) 1) [] \<lparr>tr_attempts = [], tr_sleeps = []\<rparr> db
      else (case invokeStepAttempt stepFnName config maxAttempts lctx funcID stepFn None db of
              (Inr v, db') \<Rightarrow> ((StepValue v, \<lparr>tr_attempts = [1], tr_sleeps = []\<rparr>), db')
            | (Inl e, db') \<Rightarrow> ((StepError e, \<lparr>tr_attempts = [1], tr_sleeps = []\<rparr>), db')))"

section \<open>Steps\<close>

definition reviveResultOrError :: "serialization_env \<Rightarrow> SystemDatabaseStoredResult \<Rightarrow> dbos_error + js_value" where
  "reviveResultOrError env r =
     (if truthy (sr_error r) then Inl (deserializeResError env (sr_error r) (sr_serialization r))
      else deserializeValue env (sr_output r) (sr_serialization r))"

definition lift_sum :: "'e + 'a \<Rightarrow> ('s, 'e, 'a) op" where
  "lift_sum r s = (r, s)"

definition record_step ::
  "serialization_env \<Rightarrow> string \<Rightarrow> int \<Rightarrow> string \<Rightarrow> int \<Rightarrow> int \<Rightarrow> step_outcome \<Rightarrow> int \<Rightarrow> js_value db_op" where
  "record_step env wfid funcID stepFnName startTime endTime outcome maxAttempts =
     (case outcome of
        StepInterrupted e \<Rightarrow> throw e
      | StepValue v \<Rightarrow>
          and_then (lift_sum (serializeFunctionInputOutput env v None)) (\<lambda>io.
            and_then (recordOperationResult wfid funcID stepFnName True startTime endTime
              \<lparr>po_childWorkflowID = None, po_output = Some (io_stringified io), po_error = None,
               po_serialization = Some (io_sername io)\<rparr>) (\<lambda>_. ret (io_deserialized io)))
      | _ \<Rightarrow>
          (let err = (case outcome of StepError e \<Rightarrow> e | StepExhausted es \<Rightarrow> DBOSMaxStepRetriesError stepFnName maxAttempts es
             | _ \<Rightarrow> PlainError []) in
           and_then (lift_sum (sz_stringify (se_serializer env) (se_serializeError env err))) (\<lambda>text.
             and_then (recordOperationResult wfid funcID stepFnName True startTime endTime
               \<lparr>po_childWorkflowID = None, po_output = None, po_error = Some text,
                po_serialization = Some (sz_name (se_serializer env))\<rparr>) (\<lambda>_. throw err))))"

text \<open>The body of \<open>callStepFunction\<close> once the function ID is taken.\<close>

definition call_step ::
  "serialization_env \<Rightarrow> int \<Rightarrow> int \<Rightarrow> string \<Rightarrow> StepConfig \<Rightarrow> step_function \<Rightarrow> DBOSLocalCtx \<Rightarrow> int \<Rightarrow> js_value db_op" where
  "call_step env startTime endTime stepFnName config stepFn lctx funcID =
     (let wfid = coalesce (cx_workflowId lctx) []; maxAttempts = coalesce (sg_maxAttempts config) 3 in
      and_then (checkIfCanceled wfid) (\<lambda>_.
        and_then (getOperationResultAndThrowIfCancelled wfid funcID) (\<lambda>checkr.
          case checkr of
            Some r \<Rightarrow>
              if sr_functionName r \<noteq> stepFnName
              then throw (DBOSUnexpectedStepError wfid funcID stepFnName (sr_functionName r))
              else lift_sum (reviveResultOrError env r)
          | None \<Rightarrow> (\<lambda>db. case run_attempts stepFnName config maxAttempts lctx wfid funcID stepFn db of
              ((outcome, _), db') \<Rightarrow> record_step env wfid funcID stepFnName startTime endTime outcome maxAttempts db'))))"

definition callStepFunction ::
  "serialization_env \<Rightarrow> int \<Rightarrow> int \<Rightarrow> string \<Rightarrow> StepConfig option \<Rightarrow> step_function \<Rightarrow> DBOSLocalCtx option \<Rightarrow> sysdb \<Rightarrow>
   (dbos_error + js_value) \<times> DBOSLocalCtx option \<times> sysdb" where
  "callStepFunction env startTime endTime stepFnName stepConfig stepFn c db =
     (case stepConfig of
        None \<Rightarrow> (Inl (DBOSNotRegisteredError stepFnName), c, db)
      | Some config \<Rightarrow>
          (case validateStepConfig config stepFnName of
             Some e \<Rightarrow> (Inl e, c, db)
           | None \<Rightarrow>
               (case functionIDGetIncrement c of
                  (Inl e, c') \<Rightarrow> (Inl e, c', db)
                | (Inr funcID, c') \<Rightarrow>
                    (case call_step env startTime endTime stepFnName config stepFn (coalesce c' empty_ctx) funcID db of
                       (res, db') \<Rightarrow> (res, c', db')))))"

definition runInternalStep ::
  "serialization_env \<Rightarrow> int \<Rightarrow> int \<Rightarrow> js_value db_op \<Rightarrow> string \<Rightarrow> string \<Rightarrow> int \<Rightarrow> string option \<Rightarrow> js_value db_op" where
  "runInternalStep env startTime endTime callback functionName workflowID functionID childWfId =
     and_then (getOperationResultAndThrowIfCancelled workflowID functionID) (\<lambda>result.
       case result of
         Some r \<Rightarrow>
           if sr_functionName r \<noteq> functionName
           then throw (DBOSUnexpectedStepError workflowID functionID functionName (sr_functionName r))
           else lift_sum (reviveResultOrError env r)
       | None \<Rightarrow> (\<lambda>db.
           case and_then callback (\<lambda>output. and_then (lift_sum (serializeFunctionInputOutput env output None)) (\<lambda>io.
               and_then (recordOperationResult workflowID functionID functionName True startTime endTime
                 \<lparr>po_childWorkflowID = childWfId, po_output = Some (io_stringified io), po_error = None,
                  po_serialization = None\<rparr>) (\<lambda>_. ret (io_deserialized io)))) db of
             (Inr v, db') \<Rightarrow> (Inr v, db')
           | (Inl e, db') \<Rightarrow>
               if e = DBOSWorkflowCancelledError workflowID then (Inl e, db')
               else and_then (lift_sum (sz_stringify (se_serializer env) (se_serializeError env e))) (\<lambda>text.
                 and_then (recordOperationResult workflowID functionID functionName False startTime endTime
                   \<lparr>po_childWorkflowID = childWfId, po_output = None, po_error = Some text, po_serialization = None\<rparr>)
                   (\<lambda>_. throw e)) db'))"

section \<open>Replay\<close>

text \<open>The step's function does not write the step's own checkpoint.\<close>

definition leaves_step :: "string \<Rightarrow> int \<Rightarrow> step_function \<Rightarrow> bool" where
  "leaves_step w f stepFn = (\<forall>c db. find_row oo_pk (w, f) (t_operation_outputs (snd (stepFn c db))) =
     find_row oo_pk (w, f) (t_operation_outputs db))"

lemma invoke_leaves:
  "leaves_step w f stepFn \<Longrightarrow>
    find_row oo_pk (w, f) (t_operation_outputs (snd (invokeStepAttempt n cfg m lctx i stepFn a db))) =
    find_row oo_pk (w, f) (t_operation_outputs db)"
  by (auto simp: invokeStepAttempt_def leaves_step_def split: sum.splits prod.splits option.splits if_splits) (metis snd_conv)+

lemma retry_loop_leaves:
  assumes "\<And>k db. find_row oo_pk key (t_operation_outputs (snd (attempt k db))) = find_row oo_pk key (t_operation_outputs db)"
  shows "find_row oo_pk key (t_operation_outputs (snd (retry_loop nm cfg m wfid attempt n i es tr db))) =
    find_row oo_pk key (t_operation_outputs db)"
proof (induction "nat (m - n)" arbitrary: n i es tr db rule: less_induct)
  case less
  have att: "find_row oo_pk key (t_operation_outputs db2) = find_row oo_pk key (t_operation_outputs db)"
    if "attempt (n + 1) db = (r, db2)" for r db2 using assms [of "n + 1" db] that by simp
  show ?case
    using less [of "n + 1"] att
    by (auto simp: retry_loop.simps [of nm cfg m wfid attempt n] op_simps Let_def split: sum.splits prod.splits bool.splits)
qed

lemma run_attempts_leaves:
  assumes "leaves_step w f stepFn" and "run_attempts n cfg m lctx wfid i stepFn db = (out, db')"
  shows "find_row oo_pk (w, f) (t_operation_outputs db') = find_row oo_pk (w, f) (t_operation_outputs db)"
proof -
  have "find_row oo_pk (w, f) (t_operation_outputs (snd (run_attempts n cfg m lctx wfid i stepFn db))) =
      find_row oo_pk (w, f) (t_operation_outputs db)"
    using invoke_leaves [OF assms(1), of n cfg m lctx i None db]
    by (auto simp: run_attempts_def intro!: retry_loop_leaves invoke_leaves [OF assms(1)] split: prod.splits sum.splits)
  with assms(2) show ?thesis by simp
qed

definition recorded_value :: "serialization_env \<Rightarrow> string \<Rightarrow> string \<Rightarrow> int \<Rightarrow> sysdb \<Rightarrow> js_value option" where
  "recorded_value env n w f db = (case find_row oo_pk (w, f) (t_operation_outputs db) of
       None \<Rightarrow> None
     | Some r \<Rightarrow> if oo_function_name r = n
         then (case reviveResultOrError env (stored_result r) of Inl _ \<Rightarrow> None | Inr v \<Rightarrow> Some v) else None)"

lemma lift_sum_apply [simp]: "lift_sum r s = (r, s)"
  by (simp add: lift_sum_def)

lemma call_step_eval:
  assumes "cx_workflowId lctx = Some w"
  shows "call_step env s e n cfg stepFn lctx f db =
    (if cancelled w db then (Inl (DBOSWorkflowCancelledError w), db)
     else case find_row oo_pk (w, f) (t_operation_outputs db) of
       Some r \<Rightarrow> (if oo_function_name r \<noteq> n then Inl (DBOSUnexpectedStepError w f n (oo_function_name r))
          else reviveResultOrError env (stored_result r), db)
     | None \<Rightarrow> (case run_attempts n cfg (coalesce (sg_maxAttempts cfg) 3) lctx w f stepFn db of
          ((outcome, _), db') \<Rightarrow> record_step env w f n s e outcome (coalesce (sg_maxAttempts cfg) 3) db'))"
  using assms by (simp add: call_step_def Let_def and_then_def op_simps stored_result_def split: option.splits)

lemma record_step_value:
  assumes "record_step env w f n s e out m db = (Inr v, db')"
    and "find_row oo_pk (w, f) (t_operation_outputs db) = None"
  shows "\<exists>x io. out = StepValue x \<and> serializeFunctionInputOutput env x None = Inr io \<and> io_deserialized io = v \<and>
    find_row oo_pk (w, f) (t_operation_outputs db') = Some (new_operation_row w f n s e
      \<lparr>po_childWorkflowID = None, po_output = Some (io_stringified io), po_error = None, po_serialization = Some (io_sername io)\<rparr>)"
proof (cases out)
  case (StepValue x)
  with assms show ?thesis
    by (auto simp: record_step_def and_then_success recordOperationResult_def recordOperationResultInternal_def
        find_row_append split: if_splits)
qed (use assms in \<open>auto simp: record_step_def and_then_success Let_def\<close>)

lemma call_step_records:
  assumes "env_lawful env ok" and "leaves_step w f stepFn" and "cx_workflowId lctx = Some w"
    and "call_step env s e n cfg stepFn lctx f db = (Inr v, db')"
  shows "recorded_value env n w f db' = Some v"
proof (cases "find_row oo_pk (w, f) (t_operation_outputs db)")
  case (Some r)
  then show ?thesis using assms(4)
    by (auto simp: call_step_eval [OF assms(3)] recorded_value_def split: if_splits)
next
  case None
  then obtain out tr db1 where run: "run_attempts n cfg (coalesce (sg_maxAttempts cfg) 3) lctx w f stepFn db = ((out, tr), db1)"
    and rec: "record_step env w f n s e out (coalesce (sg_maxAttempts cfg) 3) db1 = (Inr v, db')"
    using assms(4) by (auto simp: call_step_eval [OF assms(3)] split: if_splits prod.splits)
  have "find_row oo_pk (w, f) (t_operation_outputs db1) = None" using run_attempts_leaves [OF assms(2) run] None by simp
  from record_step_value [OF rec this] obtain x io where io: "serializeFunctionInputOutput env x None = Inr io" "io_deserialized io = v"
    and row: "find_row oo_pk (w, f) (t_operation_outputs db') = Some (new_operation_row w f n s e
      \<lparr>po_childWorkflowID = None, po_output = Some (io_stringified io), po_error = None, po_serialization = Some (io_sername io)\<rparr>)"
    by blast
  have "deserializeValue env (Some (io_stringified io)) (Some (io_sername io)) = Inr v"
    using io deserialize_through [of "writer_for env None" x io env] reader_of_writer [OF assms(1)]
    by (simp add: serializeFunctionInputOutput_writer [OF assms(1)])
  then show ?thesis
    by (simp add: recorded_value_def row reviveResultOrError_def stored_result_def new_operation_row_def truthy_def)
qed

lemma call_step_replays:
  assumes "recorded_value env n w f db = Some v" and "\<not> cancelled w db" and "cx_workflowId lctx = Some w"
  shows "call_step env s e n cfg stepFn lctx f db = (Inr v, db)"
  using assms by (auto simp: call_step_eval recorded_value_def split: option.splits if_splits sum.splits)

lemma recorded_value_stable:
  "keeps_checkpoints db db' \<Longrightarrow> recorded_value env n w f db = Some x \<Longrightarrow> recorded_value env n w f db' = Some x"
  by (auto simp: keeps_checkpoints_def recorded_value_def split: option.splits)

text \<open>Steps of the executor satisfy the same contract as the recorded operations of the system database.\<close>

interpretation executor_step: replayed_step
    "\<lambda>(s, e, cfg, stepFn, lctx). call_step env s e n cfg stepFn (lctx\<lparr>cx_workflowId := Some w\<rparr>) f"
    "\<lambda>(s, e, cfg, stepFn, lctx). env_lawful env (\<lambda>_. False) \<and> leaves_step w f stepFn"
    "recorded_value env n w f" "\<lambda>db. \<not> cancelled w db" keeps_checkpoints
    for env n w f
proof (unfold_locales, goal_cases)
  case (1 i db x db')
  obtain s e cfg stepFn lctx where i: "i = (s, e, cfg, stepFn, lctx)" by (metis prod_cases5)
  with 1 show ?case
    using call_step_records [of env "\<lambda>_. False" w f stepFn "lctx\<lparr>cx_workflowId := Some w\<rparr>" s e n cfg db x db'] by simp
qed (auto intro: call_step_replays recorded_value_stable)

lemma callStepFunction_eval:
  assumes "isInWorkflowCtx ctx" and "validateStepConfig cfg n = None"
  shows "callStepFunction env s e n (Some cfg) stepFn (Some ctx) db =
    (let f = coalesce (cx_curWFFunctionId ctx) 0; c' = ctx\<lparr>cx_curWFFunctionId := Some (f + 1)\<rparr> in
     (fst (call_step env s e n cfg stepFn c' f db), Some c', snd (call_step env s e n cfg stepFn c' f db)))"
  using assms by (simp add: callStepFunction_def call_id_in_workflow Let_def split: prod.splits)

text \<open>a step of a workflow happens once. When \<open>callStepFunction\<close> has returned a value, then after any activity that
  keeps checkpoints, every execution of the same call by a workflow that is not cancelled, whatever the step's function
  does by then and however it is configured, returns that value as it came back the first time, does not run the
  function and changes nothing.\<close>

lemma executor_step_once:
  assumes "env_lawful env ok" and "isInWorkflowCtx ctx" and "cx_workflowId ctx = Some w" and "validateStepConfig cfg n = None"
    and "leaves_step w (coalesce (cx_curWFFunctionId ctx) 0) stepFn"
    and "callStepFunction env s e n (Some cfg) stepFn (Some ctx) db = (Inr v, c', db1)"
    and "keeps_checkpoints\<^sup>*\<^sup>* db1 db2" and "\<not> cancelled w db2"
    and "isInWorkflowCtx ctx2" and "cx_workflowId ctx2 = Some w" and "cx_curWFFunctionId ctx2 = cx_curWFFunctionId ctx"
    and "validateStepConfig cfg2 n = None"
  shows "\<exists>c2. callStepFunction env s2 e2 n (Some cfg2) stepFn2 (Some ctx2) db2 = (Inr v, c2, db2)"
proof -
  let ?f = "coalesce (cx_curWFFunctionId ctx) 0"
  have env0: "env_lawful env (\<lambda>_. False)" using assms(1) by (auto simp: env_lawful_def superjson_law_def)
  have same: "(c\<lparr>cx_curWFFunctionId := i\<rparr>)\<lparr>cx_workflowId := Some w\<rparr> = c\<lparr>cx_curWFFunctionId := i\<rparr>"
    if "cx_workflowId c = Some w" for c :: DBOSLocalCtx and i using that by simp
  have first: "call_step env s e n cfg stepFn (ctx\<lparr>cx_curWFFunctionId := Some (?f + 1)\<rparr>) ?f db = (Inr v, db1)"
    using assms(6) by (simp add: callStepFunction_eval [OF assms(2,4)] Let_def prod_eq_iff)
  have "call_step env s2 e2 n cfg2 stepFn2 (ctx2\<lparr>cx_curWFFunctionId := Some (?f + 1)\<rparr>) ?f db2 = (Inr v, db2)"
    using executor_step.once_and_only_once [of env w ?f "(s, e, cfg, stepFn, ctx\<lparr>cx_curWFFunctionId := Some (?f + 1)\<rparr>)" n db v db1 db2
        "(s2, e2, cfg2, stepFn2, ctx2\<lparr>cx_curWFFunctionId := Some (?f + 1)\<rparr>)"] first assms(5,7,8) env0
    by (simp add: same [OF assms(3)] same [OF assms(10)])
  then show ?thesis by (simp add: callStepFunction_eval [OF assms(9,12)] assms(11) Let_def)
qed

section \<open>Retries\<close>

fun interval_seq :: "StepConfig \<Rightarrow> nat \<Rightarrow> rat" where
  "interval_seq cfg 0 = coalesce (sg_intervalSeconds cfg) 1"
| "interval_seq cfg (Suc k) = next_interval cfg (interval_seq cfg k)"

definition trace_upto :: "StepConfig \<Rightarrow> nat \<Rightarrow> nat \<Rightarrow> retry_trace" where
  "trace_upto cfg k j = \<lparr>tr_attempts = map int [1..<Suc k], tr_sleeps = map (interval_seq cfg) [0..<j]\<rparr>"

lemma trace_upto_attempt:
  "trace_upto cfg k j\<lparr>tr_attempts := tr_attempts (trace_upto cfg k j) @ [1 + int k]\<rparr> = trace_upto cfg (Suc k) j"
  "trace_upto cfg i j\<lparr>tr_sleeps := tr_sleeps (trace_upto cfg i j) @ [interval_seq cfg j]\<rparr> = trace_upto cfg i (Suc j)"
  by (simp_all add: trace_upto_def)

text \<open>Between two attempts there is one sleep; a workflow found cancelled has also slept after its last attempt.\<close>

fun sleeps_done :: "step_outcome \<Rightarrow> nat \<Rightarrow> nat" where
  "sleeps_done (StepInterrupted _) k = k"
| "sleeps_done _ k = k - 1"

definition trace_within :: "StepConfig \<Rightarrow> int \<Rightarrow> step_outcome \<times> retry_trace \<Rightarrow> bool" where
  "trace_within cfg m r \<longleftrightarrow> (\<exists>k. snd r = trace_upto cfg k (sleeps_done (fst r) k) \<and> int k \<le> m \<and> int (sleeps_done (fst r) k) < m \<and>
     (case fst r of StepExhausted es \<Rightarrow> int k = m \<and> length es = k | StepInterrupted _ \<Rightarrow> True | _ \<Rightarrow> 0 < k))"

lemma trace_withinI:
  "int k \<le> m \<Longrightarrow> j = sleeps_done out k \<Longrightarrow> int j < m \<Longrightarrow>
    (case out of StepExhausted es \<Rightarrow> int k = m \<and> length es = k | StepInterrupted _ \<Rightarrow> True | _ \<Rightarrow> 0 < k) \<Longrightarrow>
    trace_within cfg m (out, trace_upto cfg k j)"
  unfolding trace_within_def by auto

lemma retry_loop_trace:
  "int k < m \<Longrightarrow> length es = k \<Longrightarrow>
    trace_within cfg m (fst (retry_loop nm cfg m w att (int k) (interval_seq cfg k) es (trace_upto cfg k k) db))"
proof (induction "nat (m - int k)" arbitrary: k es db rule: less_induct)
  case less
  have stop: "trace_within cfg m (StepInterrupted e, trace_upto cfg k k)" "trace_within cfg m (StepValue v, trace_upto cfg (Suc k) k)"
      "trace_within cfg m (StepError e, trace_upto cfg (Suc k) k)" for e v
    using less.prems by (auto intro!: trace_withinI)
  have last: "trace_within cfg m (fst (retry_loop nm cfg m w att (1 + int k) i (es @ [e]) (trace_upto cfg (Suc k) k) db2))"
    if "\<not> 1 + int k < m" for i e db2
    using that less.prems by (auto simp: retry_loop.simps [of nm cfg m w att "1 + int k"] intro!: trace_withinI)
  have again: "trace_within cfg m (fst (retry_loop nm cfg m w att (1 + int k) (next_interval cfg (interval_seq cfg k)) (es @ [e])
      (trace_upto cfg (Suc k) (Suc k)) db2))" if "1 + int k < m" for e db2
    using less.hyps [of "Suc k" "es @ [e]" db2] that less.prems by simp
  show ?case
    using less.prems(1) stop last again
    by (simp add: retry_loop.simps [of nm cfg m w att "int k"] op_simps Let_def trace_upto_attempt
        add.commute split: prod.split sum.split bool.split)
qed

lemma next_interval_capped: "next_interval cfg i \<le> maxRetryIntervalSec"
  by (simp add: next_interval_def Let_def)

text \<open>C36: retries are bounded and backed off. A step that may be retried and has at least one attempt makes the attempts number 1 to
  \<open>k\<close>, at most \<open>maxAttempts\<close> of them. It sleeps exactly once between two attempts: \<open>k - 1\<close> times when it ends with a value, with an error that
  is not retried or with all attempts used, and \<open>k\<close> times when the workflow is found cancelled, because the check comes after the sleep. It gives up
  with the list of all errors only after exactly \<open>maxAttempts\<close> failures. The first sleep is the configured interval as it is, even where the log
  says that it is capped; each later one is the one before times the back-off rate, at most an hour.\<close>

theorem step_retries_bounded:
  assumes "sg_retriesAllowed cfg" and "0 < m" and "run_attempts nm cfg m lctx w f stepFn db = ((out, tr), db')"
  shows "\<exists>k. tr_attempts tr = map int [1..<Suc k] \<and> int k \<le> m \<and>
    (case out of
       StepInterrupted _ \<Rightarrow> int k < m \<and> tr_sleeps tr = map (interval_seq cfg) [0..<k]
     | StepExhausted es \<Rightarrow> int k = m \<and> length es = k \<and> tr_sleeps tr = map (interval_seq cfg) [0..<k - 1]
     | _ \<Rightarrow> 0 < k \<and> tr_sleeps tr = map (interval_seq cfg) [0..<k - 1]) \<and>
    interval_seq cfg 0 = coalesce (sg_intervalSeconds cfg) 1 \<and>
    (\<forall>i. interval_seq cfg (Suc i) = min (interval_seq cfg i * coalesce (sg_backoffRate cfg) 2) 3600)"
proof -
  have "\<lparr>tr_attempts = [], tr_sleeps = []\<rparr> = trace_upto cfg 0 0" by (simp add: trace_upto_def)
  then have "trace_within cfg m (out, tr)"
    using assms retry_loop_trace [of 0 m "[]" cfg nm w "\<lambda>k. invokeStepAttempt nm cfg m lctx f stepFn (Some k)" db]
    by (simp add: run_attempts_def)
  then obtain k where "tr = trace_upto cfg k (sleeps_done out k)" "int k \<le> m" "int (sleeps_done out k) < m"
      "case out of StepExhausted es \<Rightarrow> int k = m \<and> length es = k | StepInterrupted _ \<Rightarrow> True | _ \<Rightarrow> 0 < k"
    by (auto simp: trace_within_def)
  moreover have "interval_seq cfg (Suc i) = min (interval_seq cfg i * coalesce (sg_backoffRate cfg) 2) 3600" for i
    by (simp add: next_interval_def maxRetryIntervalSec_def Let_def min_def)
  ultimately show ?thesis by (intro exI [of _ k]) (cases out; simp add: trace_upto_def)
qed

section \<open>Examples\<close>

definition example_config :: StepConfig where
  "example_config = \<lparr>sg_retriesAllowed = True, sg_intervalSeconds = Some 7200, sg_maxAttempts = Some 2, sg_backoffRate = Some 2,
     sg_shouldRetry = None, sg_timeoutMS = Some 50\<rparr>"

definition example_ctx :: DBOSLocalCtx where
  "example_ctx = empty_ctx\<lparr>cx_workflowId := Some ''w''\<rparr>"

definition example_step :: step_function where
  "example_step c db = ((10, Inr (JsNum 7)), db)"

definition failing_step :: step_function where
  "failing_step c db = ((80, Inr (JsNum 7)), db)"

lemma example_ctx_in_workflow: "isInWorkflowCtx example_ctx"
  by (simp add: example_ctx_def empty_ctx_def isInWorkflowCtx_def isInStepCtx_def isInTxnCtx_def isWithinWorkflowCtx_def truthy_int_def)

lemmas example_ctx_simps = example_ctx_def empty_ctx_def

lemma example_run: "fst (run_attempts ''s'' example_config 2 (example_ctx\<lparr>cx_curWFFunctionId := Some 1\<rparr>) ''w'' 0 example_step
    (example_db [example_row ''w'' PENDING])) = (StepValue (JsNum 7), trace_upto example_config 1 0)"
  "snd (run_attempts ''s'' example_config 2 (example_ctx\<lparr>cx_curWFFunctionId := Some 1\<rparr>) ''w'' 0 example_step
    (example_db [example_row ''w'' PENDING])) = example_db [example_row ''w'' PENDING]"
  using example_ctx_in_workflow
  by (simp_all add: run_attempts_def example_config_def retry_loop.simps op_simps cancelled_def getWorkflowStatusValue_def
      invokeStepAttempt_def runInStepContext_def example_step_def trace_upto_def)

lemma example_first_call:
  "\<exists>c' db1. callStepFunction example_serialization 1 2 ''s'' (Some example_config) example_step (Some example_ctx)
     (example_db [example_row ''w'' PENDING]) = (Inr (JsNum 7), c', db1) \<and> \<not> cancelled ''w'' db1"
proof -
  let ?db = "example_db [example_row ''w'' PENDING]"
  have "is_json (JsNum 7)" using is_jsonI [of "JNum 7"] by simp
  then obtain t where t: "serializeFunctionInputOutput example_serialization (JsNum 7) None =
      Inr \<lparr>io_deserialized = JsNum 7, io_stringified = t, io_sername = sz_name (writer_for example_serialization None)\<rparr>"
    using lawful_serializer.through_supported [OF writer_lawful [OF example_serialization_lawful, of None], of "JsNum 7"]
    by (auto simp: serializeFunctionInputOutput_writer [OF example_serialization_lawful])
  have ids: "''w'' \<in> workflow_ids ?db" by (simp add: workflow_ids_def)
  have none: "find_row oo_pk (''w'', 0) (t_operation_outputs ?db) = None" by (simp add: example_db_def empty_sysdb_def)
  have live: "\<not> cancelled ''w'' ?db" by (simp add: cancelled_def getWorkflowStatusValue_def)
  have "call_step example_serialization 1 2 ''s'' example_config example_step (example_ctx\<lparr>cx_curWFFunctionId := Some 1\<rparr>) 0 ?db =
      record_step example_serialization ''w'' 0 ''s'' 1 2 (StepValue (JsNum 7)) 2 ?db"
    using example_run none live by (simp add: call_step_eval example_ctx_def example_config_def case_prod_beta)
  moreover have "\<exists>db1. record_step example_serialization ''w'' 0 ''s'' 1 2 (StepValue (JsNum 7)) 2 ?db = (Inr (JsNum 7), db1) \<and>
      \<not> cancelled ''w'' db1"
    using ids none by (simp add: record_step_def t recordOperationResult_def op_simps claim_executor_def cancelled_def getWorkflowStatusValue_def
        find_row_update_where)
  ultimately show ?thesis
    using example_ctx_in_workflow
    by (auto simp: callStepFunction_eval example_config_def validateStepConfig_def Let_def example_ctx_def empty_ctx_def)
qed

theorem step_retries_bounded_witness:
  "\<exists>tr db'. run_attempts ''s'' example_config 2 (example_ctx\<lparr>cx_curWFFunctionId := Some 1\<rparr>) ''w'' 0 failing_step
      (example_db [example_row ''w'' PENDING]) =
      ((StepExhausted [DBOSStepTimeoutError ''s'' 50, DBOSStepTimeoutError ''s'' 50], tr), db') \<and>
    tr_attempts tr = [1, 2] \<and> tr_sleeps tr = [7200]"
proof -
  let ?db = "example_db [example_row ''w'' PENDING]"
  have run: "run_attempts ''s'' example_config 2 (example_ctx\<lparr>cx_curWFFunctionId := Some 1\<rparr>) ''w'' 0 failing_step ?db =
      ((StepExhausted [DBOSStepTimeoutError ''s'' 50, DBOSStepTimeoutError ''s'' 50], \<lparr>tr_attempts = [1, 2], tr_sleeps = [7200]\<rparr>), ?db)"
    using example_ctx_in_workflow
    by (simp add: run_attempts_def example_config_def retry_loop.simps op_simps cancelled_def getWorkflowStatusValue_def
        invokeStepAttempt_def runInStepContext_def failing_step_def)
  from step_retries_bounded [OF _ _ run] run show ?thesis by (simp add: example_config_def)
qed

end
