(* ===== verification/Executor_Workflow.thy ===== *)
theory Executor_Workflow
  imports Executor_Steps SysDB_Management SysDB_Query
begin

text \<open>
  Starting, running and recovering workflows (\<open>internalWorkflow\<close>, \<open>executeWorkflowId\<close>, \<open>recoverPendingWorkflows\<close> and
  \<open>prepareEnqueuedWorkflow\<close> of \<open>src/dbos-executor.ts\<close>, \<open>getResultInternal\<close> of \<open>src/dbos.ts\<close>).

  What the workflow's own function does is its outcome, a value or an error. \<open>internalWorkflow\<close> is split where the
  source continues asynchronously: \<open>internalWorkflow\<close> starts a workflow and returns a handle, \<open>finishWorkflow\<close> is what
  \<open>runWorkflow\<close> does with the outcome. Delays are in milliseconds. Tracing is left out.
\<close>

section \<open>Parameters of a start\<close>

record EnqueueOptions =
  eo_deduplicationID :: "string option"
  eo_priority :: "int option"
  eo_queuePartitionKey :: "string option"
  eo_applicationVersion :: "string option"
  eo_delayMS :: "int option"
  eo_debounceDeadlineEpochMS :: "int option"
  eo_isDebounced :: "bool option"

definition no_enqueue_options :: EnqueueOptions where
  "no_enqueue_options = \<lparr>eo_deduplicationID = None, eo_priority = None, eo_queuePartitionKey = None, eo_applicationVersion = None,
     eo_delayMS = None, eo_debounceDeadlineEpochMS = None, eo_isDebounced = None\<rparr>"

record InternalWorkflowParams =
  wp_workflowUUID :: "string option"
  wp_configuredInstance :: "string option"
  wp_queueName :: "string option"
  wp_executeWorkflow :: bool
  wp_timeoutMS :: "int option"
  wp_deadlineEpochMS :: "int option"
  wp_enqueueOptions :: EnqueueOptions
  wp_returnExisting :: bool
  wp_workflowAttributes :: "json option"
  wp_tempWfType :: "string option"
  wp_tempWfName :: "string option"
  wp_tempWfClass :: "string option"
  wp_isRecoveryDispatch :: bool
  wp_isQueueDispatch :: bool

record WorkflowConfig =
  wc_maxRecoveryAttempts :: "int option"
  wc_serialization :: "WorkflowSerializationFormat option"

record registration =
  rg_name :: string
  rg_className :: string
  rg_isInstance :: bool
  rg_workflowConfig :: "WorkflowConfig option"
  rg_stepConfig :: "StepConfig option"

record global_params =
  gp_appVersion :: string
  gp_appID :: string

definition DEFAULT_MAX_RECOVERY_ATTEMPTS :: int where
  "DEFAULT_MAX_RECOVERY_ATTEMPTS = 100"

definition tempWorkflowName :: string where
  "tempWorkflowName = ''temp_workflow''"

text \<open>An explicit timeout wins over a propagated deadline; a queued workflow gets its deadline when it is dequeued.\<close>

definition start_deadline :: "int \<Rightarrow> InternalWorkflowParams \<Rightarrow> int option" where
  "start_deadline now params =
     (if truthy_int (wp_timeoutMS params)
      then (if truthy (wp_queueName params) then None else Some (now + coalesce (wp_timeoutMS params) 0))
      else wp_deadlineEpochMS params)"

definition start_delay :: "int \<Rightarrow> InternalWorkflowParams \<Rightarrow> int option" where
  "start_delay now params =
     (let opts = wp_enqueueOptions params in
      case (wp_queueName params, eo_delayMS opts) of
        (Some _, Some d) \<Rightarrow>
          if d > 0 then
            (case eo_debounceDeadlineEpochMS opts of
               Some deadline \<Rightarrow> Some (if deadline < now + d then deadline else now + d)
             | None \<Rightarrow> Some (now + d))
          else None
      | _ \<Rightarrow> None)"

definition isTempWorkflow :: "string \<Rightarrow> InternalWorkflowParams \<Rightarrow> bool" where
  "isTempWorkflow wfname params = (wfname = tempWorkflowName \<or> truthy (wp_tempWfType params))"

definition start_status ::
  "int \<Rightarrow> global_params \<Rightarrow> string \<Rightarrow> string \<Rightarrow> string \<Rightarrow> string \<Rightarrow> InternalWorkflowParams \<Rightarrow> DBOSLocalCtx option \<Rightarrow> string option \<Rightarrow>
   serialized_io \<Rightarrow> WorkflowStatusInternal" where
  "start_status now g executorID workflowID wfname wfclassname params pctx callerID funcArgs =
     (let opts = wp_enqueueOptions params; ctx = coalesce pctx empty_ctx; temp = isTempWorkflow wfname params;
          shown = (\<lambda>v. coalesce v ''undefined'') in
      \<lparr>si_workflowUUID = workflowID,
       si_status = (if wp_queueName params = None then PENDING else if start_delay now params = None then ENQUEUED else DELAYED),
       si_workflowName = (if temp then tempWorkflowName @ ''-'' @ shown (wp_tempWfType params) @ ''-'' @ shown (wp_tempWfName params)
          else wfname),
       si_workflowClassName = (if temp \<and> truthy (wp_tempWfName params) then coalesce (wp_tempWfClass params) [] else wfclassname),
       si_workflowConfigName = coalesce (wp_configuredInstance params) [],
       si_queueName = wp_queueName params,
       si_authenticatedUser = Some (coalesce (cx_authenticatedUser ctx) []),
       si_output = None, si_error = None, si_input = Some (io_stringified funcArgs),
       si_assumedRole = Some (coalesce (cx_assumedRole ctx) []),
       si_authenticatedRoles = JArr (map JStr (coalesce (cx_authenticatedRoles ctx) [])),
       si_request = coalesce (cx_request ctx) (JObj []),
       si_executorId = Some executorID,
       si_applicationVersion = Some (coalesce (eo_applicationVersion opts) (gp_appVersion g)),
       si_applicationID = Some (gp_appID g),
       si_createdAt = now, si_updatedAt = None, si_recoveryAttempts = None,
       si_timeoutMS = wp_timeoutMS params, si_deadlineEpochMS = start_deadline now params,
       si_deduplicationID = eo_deduplicationID opts, si_priority = coalesce (eo_priority opts) 0,
       si_queuePartitionKey = eo_queuePartitionKey opts, si_startedAtEpochMs = None, si_forkedFrom = None,
       si_wasForkedFrom = None, si_parentWorkflowID = callerID, si_serialization = Some (io_sername funcArgs),
       si_delayUntilEpochMS = start_delay now params, si_completedAt = None, si_attributes = wp_workflowAttributes params,
       si_scheduleName = None, si_debounceDeadlineEpochMS = eo_debounceDeadlineEpochMS opts,
       si_isDebounced = Some (coalesce (eo_isDebounced opts) False)\<rparr>)"

section \<open>Starting a workflow\<close>

datatype start_result = ExistingChild "string option" | Initialized init_result
datatype workflow_handle = RetrievedHandle string | InvokedHandle string

fun handle_id :: "workflow_handle \<Rightarrow> string" where
  "handle_id (RetrievedHandle w) = w"
| "handle_id (InvokedHandle w) = w"

fun is_queue_duplicated :: "dbos_error \<Rightarrow> bool" where
  "is_queue_duplicated (DBOSQueueDuplicatedError _ _ _) = True"
| "is_queue_duplicated _ = False"

definition record_child ::
  "int \<Rightarrow> string option \<Rightarrow> int option \<Rightarrow> string \<Rightarrow> string \<Rightarrow> unit db_op" where
  "record_child now callerID callerFunctionID name workflowID =
     (case (callerID, callerFunctionID) of
        (Some c, Some f) \<Rightarrow> recordOperationResult c f name True now now
          \<lparr>po_childWorkflowID = Some workflowID, po_output = None, po_error = None, po_serialization = None\<rparr>
      | _ \<Rightarrow> ret ())"

definition record_duplicate ::
  "serialization_env \<Rightarrow> int \<Rightarrow> string option \<Rightarrow> int option \<Rightarrow> string \<Rightarrow> bool \<Rightarrow> dbos_error \<Rightarrow> unit db_op" where
  "record_duplicate env now callerID callerFunctionID name returnExisting e =
     (if is_queue_duplicated e \<and> truthy callerID \<and> truthy_int callerFunctionID \<and> \<not> returnExisting
      then and_then (lift_sum (serializeResError env e None)) (\<lambda>s.
        recordOperationResult (coalesce callerID []) (coalesce callerFunctionID 0) name True now now
          \<lparr>po_childWorkflowID = None, po_output = None, po_error = sv_serializedValue s, po_serialization = sv_serialization s\<rparr>)
      else ret ())"

definition start_workflow ::
  "serialization_env \<Rightarrow> int \<Rightarrow> string \<Rightarrow> int \<Rightarrow> WorkflowStatusInternal \<Rightarrow> InternalWorkflowParams \<Rightarrow> string option \<Rightarrow> int option \<Rightarrow>
   start_result db_op" where
  "start_workflow env now xid maxRecoveryAttempts st params callerID callerFunctionID =
     and_then (case (callerID, callerFunctionID) of
         (Some c, Some f) \<Rightarrow> getOperationResultAndThrowIfCancelled c f
       | _ \<Rightarrow> ret None) (\<lambda>result.
       case result of
         Some r \<Rightarrow>
           if truthy (sr_error r) then throw (deserializeResError env (sr_error r) (sr_serialization r))
           else ret (ExistingChild (sr_childWorkflowID r))
       | None \<Rightarrow> (\<lambda>db.
           case initWorkflowStatus now st (Some xid) (wp_isRecoveryDispatch params) (wp_isQueueDispatch params)
               (Some maxRecoveryAttempts) db of
             (Inl e, db1) \<Rightarrow>
               and_then (record_duplicate env now callerID callerFunctionID (si_workflowName st) (wp_returnExisting params) e)
                 (\<lambda>_. throw e) db1
           | (Inr ires, db1) \<Rightarrow>
               and_then (record_child now callerID callerFunctionID (si_workflowName st) (si_workflowUUID st))
                 (\<lambda>_. ret (Initialized ires)) db1))"

definition handle_for :: "InternalWorkflowParams \<Rightarrow> string \<Rightarrow> init_result \<Rightarrow> workflow_handle db_op" where
  "handle_for params workflowID ires db =
     (if in_shouldExecuteOnThisExecutor ires \<and> (wp_queueName params = None \<or> wp_executeWorkflow params) \<and>
         \<not> checkForRunningWorkflow workflowID db
      then (Inr (InvokedHandle workflowID),
            registerRunningWorkflow workflowID (wp_queueName params) (eo_queuePartitionKey (wp_enqueueOptions params)) db)
      else (Inr (RetrievedHandle workflowID), db))"

definition wrapped_args :: "WorkflowSerializationFormat option \<Rightarrow> js_value list \<Rightarrow> js_value" where
  "wrapped_args fmt args = (if fmt = Some Portable then JsObj [(''positionalArgs'', JsArr args)] else JsArr args)"

text \<open>\<open>newUUID\<close> and \<open>xid\<close> are the random IDs the call draws, \<open>wfname\<close> and \<open>wfclassname\<close> the registered names.\<close>

definition internalWorkflow ::
  "serialization_env \<Rightarrow> int \<Rightarrow> global_params \<Rightarrow> string \<Rightarrow> string \<Rightarrow> string \<Rightarrow> string \<Rightarrow> registration option \<Rightarrow> InternalWorkflowParams \<Rightarrow>
   DBOSLocalCtx option \<Rightarrow> string option \<Rightarrow> int option \<Rightarrow> js_value list \<Rightarrow> workflow_handle db_op" where
  "internalWorkflow env now g newUUID xid wfname wfclassname wInfo params pctx callerID callerFunctionID args =
     (let workflowID = (if truthy (wp_workflowUUID params) then coalesce (wp_workflowUUID params) [] else newUUID);
          config = Option.bind wInfo rg_workflowConfig;
          maxAttempts = (if isTempWorkflow wfname params then None else Option.bind config wc_maxRecoveryAttempts);
          fmt = Option.bind config wc_serialization in
      if \<not> isTempWorkflow wfname params \<and> config = None then throw (DBOSNotRegisteredError wfname)
      else and_then (lift_sum (serializeFunctionInputOutput env (wrapped_args fmt args) fmt)) (\<lambda>funcArgs.
        and_then (gets m_executorID) (\<lambda>executorID.
          and_then (start_workflow env now xid
              (if truthy_int maxAttempts then coalesce maxAttempts 0 else DEFAULT_MAX_RECOVERY_ATTEMPTS)
              (start_status now g executorID workflowID wfname wfclassname params pctx callerID funcArgs)
              params callerID callerFunctionID) (\<lambda>res.
            case res of
              ExistingChild c \<Rightarrow> ret (RetrievedHandle (coalesce c []))
            | Initialized ires \<Rightarrow> handle_for params workflowID ires))))"

section \<open>Finishing a workflow\<close>

text \<open>The workflow's outcome against its deadline: past it the workflow is cancelled.\<close>

definition callPromiseWithTimeout ::
  "int \<Rightarrow> string \<Rightarrow> int option \<Rightarrow> int \<Rightarrow> dbos_error + js_value \<Rightarrow> js_value db_op" where
  "callPromiseWithTimeout now workflowID deadlineEpochMS finishedAt outcome =
     (case deadlineEpochMS of
        None \<Rightarrow> lift_sum outcome
      | Some d \<Rightarrow> if finishedAt \<le> d then lift_sum outcome
          else and_then (cancelWorkflows now [workflowID] False) (\<lambda>_. throw (DBOSWorkflowCancelledError workflowID)))"

text \<open>The running entry is released once, before the outcome is durable. Deserializing a portable error throws it.\<close>

definition releaseRunningWorkflow :: "bool \<Rightarrow> string \<Rightarrow> unit db_op" where
  "releaseRunningWorkflow released workflowID = (if released then ret () else modify (clearRunningWorkflow workflowID))"

definition handleWorkflowError ::
  "serialization_env \<Rightarrow> int \<Rightarrow> string \<Rightarrow> WorkflowStatusInternal \<Rightarrow> string option \<Rightarrow> bool \<Rightarrow> dbos_error \<Rightarrow> dbos_error db_op" where
  "handleWorkflowError env now workflowID st serialization released err =
     and_then (lift_sum (serializeResErrorWithSerializer env err serialization)) (\<lambda>s.
       and_then (releaseRunningWorkflow released workflowID) (\<lambda>_.
         and_then (recordWorkflowError now workflowID (st\<lparr>si_error := sv_serializedValue s, si_status := ERROR\<rparr>)) (\<lambda>_.
           let e' = deserializeResError env (sv_serializedValue s) (sv_serialization s) in
           if sv_serialization s = Some (sz_name DBOSPortableJSON) then throw e' else ret e')))"

definition workflow_catch ::
  "serialization_env \<Rightarrow> int \<Rightarrow> string \<Rightarrow> WorkflowStatusInternal \<Rightarrow> string option \<Rightarrow> js_value db_op \<Rightarrow> bool \<Rightarrow> dbos_error \<Rightarrow> js_value db_op" where
  "workflow_catch env now workflowID st serialization getResult released err =
     (case err of
        DBOSWorkflowConflictError _ \<Rightarrow> getResult
      | DBOSWorkflowCancelledError w \<Rightarrow>
          if w = workflowID then and_then (releaseRunningWorkflow released workflowID) (\<lambda>_. throw err)
          else and_then (handleWorkflowError env now workflowID st serialization released (DBOSAwaitedWorkflowCancelledError w))
            (\<lambda>_. throw (DBOSAwaitedWorkflowCancelledError w))
      | _ \<Rightarrow> and_then (handleWorkflowError env now workflowID st serialization released err) (\<lambda>_. throw err))"

definition finishWorkflow ::
  "serialization_env \<Rightarrow> int \<Rightarrow> string \<Rightarrow> WorkflowStatusInternal \<Rightarrow> string option \<Rightarrow> js_value db_op \<Rightarrow> dbos_error + js_value \<Rightarrow>
   js_value db_op" where
  "finishWorkflow env now workflowID st serialization getResult outcome db =
     (case (case outcome of Inl e \<Rightarrow> Inl e | Inr v \<Rightarrow> serializeFunctionInputOutputWithSerializer env v serialization) of
        Inl e \<Rightarrow> workflow_catch env now workflowID st serialization getResult False e db
      | Inr io \<Rightarrow>
          (case and_then (releaseRunningWorkflow False workflowID) (\<lambda>_. recordWorkflowOutput now workflowID
               (st\<lparr>si_output := Some (io_stringified io), si_status := SUCCESS\<rparr>)) db of
             (Inr _, db') \<Rightarrow> (Inr (io_deserialized io), db')
           | (Inl e, db') \<Rightarrow> workflow_catch env now workflowID st serialization getResult True e db'))"

text \<open>What a handle makes of the awaited status; \<open>null\<close> on a timeout.\<close>

definition awaited_value :: "serialization_env \<Rightarrow> string \<Rightarrow> awaited option \<Rightarrow> dbos_error + js_value" where
  "awaited_value env workflowID res = (case res of
       None \<Rightarrow> Inr JsNull
     | Some AwaitedCancelled \<Rightarrow> Inl (DBOSAwaitedWorkflowCancelledError workflowID)
     | Some AwaitedMaxRecoveryAttemptsExceeded \<Rightarrow> Inl (DBOSAwaitedWorkflowExceededMaxRecoveryAttempts workflowID)
     | Some (AwaitedOutput out ser) \<Rightarrow> deserializeValue env out ser
     | Some (AwaitedError err ser) \<Rightarrow>
         if truthy err then Inl (deserializeResError env err ser) else deserializeValue env None ser)"

section \<open>Recovery and dispatch\<close>

definition recovery_ctx :: "WorkflowStatusInternal \<Rightarrow> DBOSLocalCtx" where
  "recovery_ctx status = empty_ctx\<lparr>cx_request := Some (si_request status), cx_authenticatedUser := si_authenticatedUser status,
     cx_authenticatedRoles := (case si_authenticatedRoles status of
        JArr rs \<Rightarrow> Some (map (\<lambda>r. case r of JStr s \<Rightarrow> s | _ \<Rightarrow> []) rs) | _ \<Rightarrow> None),
     cx_assumedRole := si_assumedRole status,
     cx_serializationType := (if si_serialization status = Some (sz_name DBOSPortableJSON) then Some Portable else None)\<rparr>"

record execute_options =
  xo_startNewWorkflow :: bool
  xo_isRecoveryDispatch :: bool
  xo_isQueueDispatch :: bool

definition dispatch_params :: "string option \<Rightarrow> string option \<Rightarrow> WorkflowStatusInternal \<Rightarrow> execute_options \<Rightarrow> InternalWorkflowParams" where
  "dispatch_params startID configuredInst status opts =
     \<lparr>wp_workflowUUID = startID, wp_configuredInstance = configuredInst,
      wp_queueName = si_queueName status, wp_executeWorkflow = True, wp_timeoutMS = None, wp_deadlineEpochMS = None,
      wp_enqueueOptions = no_enqueue_options\<lparr>eo_queuePartitionKey := si_queuePartitionKey status\<rparr>, wp_returnExisting = False,
      wp_workflowAttributes = None, wp_tempWfType = None, wp_tempWfName = None, wp_tempWfClass = None,
      wp_isRecoveryDispatch = xo_isRecoveryDispatch opts, wp_isQueueDispatch = xo_isQueueDispatch opts\<rparr>"

text \<open>The registries are parameters: which functions the application has registered, and under which class and name
  it has configured instances; a name without an instance is dispatched without one.\<close>

definition executeWorkflowId ::
  "serialization_env \<Rightarrow> int \<Rightarrow> global_params \<Rightarrow> string \<Rightarrow> string \<Rightarrow> (string \<Rightarrow> string \<Rightarrow> registration option) \<Rightarrow>
   (string \<Rightarrow> string \<Rightarrow> bool) \<Rightarrow> string \<Rightarrow> execute_options \<Rightarrow> workflow_handle db_op" where
  "executeWorkflowId env now g newUUID xid registry instances workflowID opts =
     and_then (getWorkflowStatus now now workflowID None None) (\<lambda>found.
       case found of
         None \<Rightarrow> throw (DBOSError (''Failed to find workflow status for workflow UUID: '' @ workflowID))
       | Some status \<Rightarrow>
           if \<not> truthy (si_input status) then throw (DBOSError (''Failed to find inputs for workflow UUID: '' @ workflowID))
           else case deserializePositionalArgs env (si_input status) (si_serialization status) of
             Inl err \<Rightarrow>
               and_then (lift_sum (serializeResErrorWithSerializer env err (si_serialization status))) (\<lambda>s.
                 and_then (recordWorkflowError now workflowID (status\<lparr>si_error := sv_serializedValue s\<rparr>)) (\<lambda>_. throw err))
           | Inr (JsArr args) \<Rightarrow>
               (let startID = (if xo_startNewWorkflow opts then None else Some workflowID);
                    inst = (if instances (si_workflowClassName status) (si_workflowConfigName status)
                      then Some (si_workflowConfigName status) else None);
                    params = dispatch_params startID inst status opts;
                    ctx = Some (recovery_ctx status);
                    reg = registry (si_workflowClassName status) (si_workflowName status);
                    parts = js_split (CHR ''-'') (si_workflowName status) in
                if Option.bind reg rg_workflowConfig \<noteq> None
                then internalWorkflow env now g newUUID xid (si_workflowName status) (si_workflowClassName status) reg
                       (params\<lparr>wp_deadlineEpochMS := si_deadlineEpochMS status\<rparr>) ctx None None args
                else if \<not> starts_with tempWorkflowName (hd parts)
                then throw (DBOSError (''Cannot find workflow function for a non-temporary workflow, ID '' @ workflowID @ '', class '' @
                       [CHR 0x27] @ si_workflowClassName status @ [CHR 0x27] @ '', function '' @ [CHR 0x27] @
                       si_workflowName status @ [CHR 0x27] @ ''; did you change your code?''))
                else if 1 < length parts \<and> parts ! 1 = ''step''
                then (let name = (if 2 < length parts then parts ! 2 else ''undefined'') in
                      if Option.bind (registry (si_workflowClassName status) name) rg_stepConfig = None
                      then throw (DBOSNotRegisteredError name)
                      else internalWorkflow env now g newUUID xid tempWorkflowName [] None
                             (params\<lparr>wp_tempWfType := Some ''step'', wp_tempWfName := Some name,
                                wp_tempWfClass := Some (si_workflowClassName status)\<rparr>) ctx None None args)
                else if 1 < length parts \<and> parts ! 1 = ''send''
                then internalWorkflow env now g newUUID xid tempWorkflowName [] None
                       (params\<lparr>wp_configuredInstance := None, wp_tempWfType := Some ''send'',
                          wp_tempWfName := (if 2 < length parts then Some (parts ! 2) else None)\<rparr>) ctx None None args
                else throw (DBOSNotRegisteredError (si_workflowName status)))
           | Inr _ \<Rightarrow> throw (PlainError ''TypeError''))"

fun recoverPendingWorkflows :: "int \<Rightarrow> global_params \<Rightarrow> string list \<Rightarrow> workflow_handle list db_op" where
  "recoverPendingWorkflows now g [] = ret []"
| "recoverPendingWorkflows now g (execID # executorIDs) =
     and_then (reenqueueWorkflowsForRecovery now execID (gp_appVersion g) INTERNAL_QUEUE_NAME) (\<lambda>ids.
       and_then (recoverPendingWorkflows now g executorIDs) (\<lambda>handles. ret (map RetrievedHandle ids @ handles)))"

definition prepareEnqueuedWorkflow ::
  "serialization_env \<Rightarrow> int \<Rightarrow> global_params \<Rightarrow> string \<Rightarrow> string \<Rightarrow> registration option \<Rightarrow> js_value list \<Rightarrow> string \<Rightarrow> string \<Rightarrow> string option \<Rightarrow>
   dbos_error + WorkflowStatusInternal" where
  "prepareEnqueuedWorkflow env now g executorID fnName wInfo args queueName workflowID queuePartitionKey =
     (case wInfo of
        None \<Rightarrow> Inl (DBOSNotRegisteredError fnName)
      | Some info \<Rightarrow>
          (case rg_workflowConfig info of
             None \<Rightarrow> Inl (DBOSNotRegisteredError fnName)
           | Some config \<Rightarrow>
               if rg_isInstance info
               then Inl (DBOSError (''Cannot enqueue instance method '' @ [dquote] @ rg_name info @ [dquote] @
                      '' in a batch. Only static methods and free functions can be used.''))
               else (case serializeFunctionInputOutput env (wrapped_args (wc_serialization config) args) (wc_serialization config) of
                  Inl e \<Rightarrow> Inl (DBOSInvalidWorkflowInputError (rg_name info) (case e of PlainError m \<Rightarrow> m | _ \<Rightarrow> []))
                | Inr funcArgs \<Rightarrow> Inr ((start_status now g executorID workflowID (rg_name info) (rg_className info)
                    \<lparr>wp_workflowUUID = Some workflowID, wp_configuredInstance = None, wp_queueName = Some queueName,
                     wp_executeWorkflow = False, wp_timeoutMS = None, wp_deadlineEpochMS = None,
                     wp_enqueueOptions = no_enqueue_options\<lparr>eo_queuePartitionKey := queuePartitionKey\<rparr>, wp_returnExisting = False,
                     wp_workflowAttributes = None, wp_tempWfType = None, wp_tempWfName = None, wp_tempWfClass = None,
                     wp_isRecoveryDispatch = False, wp_isQueueDispatch = False\<rparr> None None funcArgs)
                    \<lparr>si_workflowName := rg_name info, si_workflowClassName := rg_className info, si_isDebounced := None\<rparr>))))"

section \<open>What a finished workflow leaves behind\<close>

lemma clear_not_running [simp]: "\<not> checkForRunningWorkflow w (clearRunningWorkflow w db)"
  by (auto simp: checkForRunningWorkflow_def clearRunningWorkflow_def)

lemma clear_tables [simp]:
  "t_workflow_status (clearRunningWorkflow w db) = t_workflow_status db"
  "db_wf (clearRunningWorkflow w db) = db_wf db"
  by (simp_all add: clearRunningWorkflow_def)

lemma serialize_with_reader:
  assumes "serializeFunctionInputOutputWithSerializer env v serialization = Inr io"
  obtains ser where "through ser v = Inr io" and "reader_for env serialization = Some ser"
  using assms by (auto simp: serializeFunctionInputOutputWithSerializer_def reader_for_def split: if_splits)

lemma through_parse: "through ser v = Inr io \<Longrightarrow> sz_parse ser (Some (io_stringified io)) = Inr (io_deserialized io)"
  by (auto simp: through_def split: sum.splits)

lemma recorded_error_reader:
  assumes "env_lawful env ok" and "serializeResErrorWithSerializer env err serialization = Inr s"
    and "reader_for env serialization \<noteq> None"
  shows "reader_for env (sv_serialization s) = reader_for env serialization"
    and "(sv_serialization s = Some (sz_name DBOSPortableJSON)) = (serialization = Some (sz_name DBOSPortableJSON))"
proof -
  have n: "sz_name (se_native env) = ''js_superjson''" "sz_name (se_serializer env) \<noteq> ''portable_json''"
    "sz_name (se_serializer env) = ''js_superjson'' \<Longrightarrow> se_serializer env = se_native env"
    using env_names [OF assms(1)] by blast+
  show "reader_for env (sv_serialization s) = reader_for env serialization"
    using assms(2,3) n by (cases "sz_name (se_serializer env) = ''js_superjson''")
      (auto simp: serializeResErrorWithSerializer_def written_def reader_for_def map_sum_def split: if_splits sum.splits)
  show "(sv_serialization s = Some (sz_name DBOSPortableJSON)) = (serialization = Some (sz_name DBOSPortableJSON))"
    using assms(2) n by (auto simp: serializeResErrorWithSerializer_def written_def map_sum_def split: if_splits sum.splits)
qed

lemma awaited_error_same:
  assumes "env_lawful env ok" and "serializeResErrorWithSerializer env err serialization = Inr s"
    and "reader_for env serialization \<noteq> None"
  shows "deserializeResError env (sv_serializedValue s) (sv_serialization s) = deserializeResError env (sv_serializedValue s) serialization"
  using recorded_error_reader [OF assms] assms(3) unfolding deserializeResError_def by (auto split: option.splits sum.splits)

lemma finish_success:
  assumes wfd: "db_wf db" and row: "find_row ws_workflow_uuid w (t_workflow_status db) = Some r" and nc: "ws_status r \<noteq> CANCELLED"
    and ser: "serializeFunctionInputOutputWithSerializer env v serialization = Inr io" and ne: "io_stringified io \<noteq> []"
  obtains db' where "finishWorkflow env now w st serialization getResult (Inr v) db = (Inr (io_deserialized io), db')"
    and "look_result w db' = Some (AwaitedOutput (Some (io_stringified io)) (ws_serialization r))"
    and "\<not> checkForRunningWorkflow w db'"
proof -
  let ?db = "clearRunningWorkflow w db"
  let ?st = "st\<lparr>si_output := Some (io_stringified io), si_status := SUCCESS\<rparr>"
  have row': "find_row ws_workflow_uuid w (t_workflow_status ?db) = Some r" and wfd': "db_wf ?db" using row wfd by simp_all
  from recordWorkflowOutcome_result [OF row' wfd', of SUCCESS now "Some (io_stringified io)" None] nc obtain db'
    where rec: "recordWorkflowOutcome now w SUCCESS (Some (io_stringified io)) None ?db = (Inr (), db')"
      and fr: "find_row ws_workflow_uuid w (t_workflow_status db') = Some (r\<lparr>ws_status := SUCCESS, ws_updated_at := now,
        ws_output := Some (io_stringified io), ws_deduplication_id := None, ws_completed_at := Some now\<rparr>)"
    using ne by (auto simp: truthy_def)
  have "finishWorkflow env now w st serialization getResult (Inr v) db = (Inr (io_deserialized io), db')"
    using rec by (simp add: finishWorkflow_def ser releaseRunningWorkflow_def recordWorkflowOutput_def)
  moreover have "look_result w db' = Some (AwaitedOutput (Some (io_stringified io)) (ws_serialization r))"
    using fr by (simp add: look_result_def)
  moreover have "\<not> checkForRunningWorkflow w db'"
    using recordWorkflowOutcome_memory [OF rec] clear_not_running [of w db] by (simp add: checkForRunningWorkflow_def)
  ultimately show ?thesis by (rule that)
qed

lemma finish_error:
  assumes wfd: "db_wf db" and row: "find_row ws_workflow_uuid w (t_workflow_status db) = Some r" and nc: "ws_status r \<noteq> CANCELLED"
    and s: "serializeResErrorWithSerializer env err serialization = Inr s" and ne: "truthy (sv_serializedValue s)"
  obtains db' where "handleWorkflowError env now w st serialization False err db =
      (if sv_serialization s = Some (sz_name DBOSPortableJSON)
       then Inl (deserializeResError env (sv_serializedValue s) (sv_serialization s))
       else Inr (deserializeResError env (sv_serializedValue s) (sv_serialization s)), db')"
    and "look_result w db' = Some (AwaitedError (sv_serializedValue s) (ws_serialization r))"
    and "\<not> checkForRunningWorkflow w db'"
proof -
  let ?db = "clearRunningWorkflow w db"
  have row': "find_row ws_workflow_uuid w (t_workflow_status ?db) = Some r" and wfd': "db_wf ?db" using row wfd by simp_all
  from recordWorkflowOutcome_result [OF row' wfd', of ERROR now None "sv_serializedValue s"] nc obtain db'
    where rec: "recordWorkflowOutcome now w ERROR None (sv_serializedValue s) ?db = (Inr (), db')"
      and fr: "find_row ws_workflow_uuid w (t_workflow_status db') = Some (r\<lparr>ws_status := ERROR, ws_updated_at := now,
        ws_error := sv_serializedValue s, ws_deduplication_id := None, ws_completed_at := Some now\<rparr>)"
    using ne by (auto simp: truthy_def)
  have "handleWorkflowError env now w st serialization False err db =
      (if sv_serialization s = Some (sz_name DBOSPortableJSON)
       then Inl (deserializeResError env (sv_serializedValue s) (sv_serialization s))
       else Inr (deserializeResError env (sv_serializedValue s) (sv_serialization s)), db')"
    using rec s by (simp add: handleWorkflowError_def releaseRunningWorkflow_def recordWorkflowError_def Let_def)
  moreover have "look_result w db' = Some (AwaitedError (sv_serializedValue s) (ws_serialization r))"
    using fr by (simp add: look_result_def)
  moreover have "\<not> checkForRunningWorkflow w db'"
    using recordWorkflowOutcome_memory [OF rec] clear_not_running [of w db] by (simp add: checkForRunningWorkflow_def)
  ultimately show ?thesis by (rule that)
qed

fun ordinary_error :: "dbos_error \<Rightarrow> bool" where
  "ordinary_error (DBOSWorkflowConflictError _) = False"
| "ordinary_error (DBOSWorkflowCancelledError _) = False"
| "ordinary_error _ = True"

lemma workflow_catch_ordinary:
  "ordinary_error err \<Longrightarrow> workflow_catch env now w st serialization getResult released err =
     and_then (handleWorkflowError env now w st serialization released err) (\<lambda>_. throw err)"
  by (cases err) (simp_all add: workflow_catch_def)

text \<open>C37: who sees what a workflow ends with. When the function of a workflow that is not cancelled returns a
  value, the caller gets the value as it was stored, every later \<open>getResult\<close> on any handle gets that same value, and the
  running entry is gone. When it throws an ordinary error, the row is \<open>ERROR\<close> and every later \<open>getResult\<close> throws the
  error as it was stored. The caller of the running function gets the stored error only in the portable format; in the others
  it gets the error object that was thrown, which the code keeps on purpose (its comment calls the alternative a breaking change).\<close>

theorem workflow_outcome_observed:
  assumes "env_lawful env ok" and "db_wf db" and "find_row ws_workflow_uuid w (t_workflow_status db) = Some r"
    and "ws_status r \<noteq> CANCELLED" and "finishWorkflow env now w st (ws_serialization r) getResult outcome db = (res, db')"
  shows "(\<forall>v io. outcome = Inr v \<and> serializeFunctionInputOutputWithSerializer env v (ws_serialization r) = Inr io \<and>
        io_stringified io \<noteq> [] \<longrightarrow>
      res = Inr (io_deserialized io) \<and> awaited_value env w (look_result w db') = Inr (io_deserialized io) \<and>
      \<not> checkForRunningWorkflow w db') \<and>
    (\<forall>err s. outcome = Inl err \<and> ordinary_error err \<and> serializeResErrorWithSerializer env err (ws_serialization r) = Inr s \<and>
        truthy (sv_serializedValue s) \<and> reader_for env (ws_serialization r) \<noteq> None \<longrightarrow>
      (let stored = deserializeResError env (sv_serializedValue s) (ws_serialization r) in
       res = Inl (if ws_serialization r = Some ''portable_json'' then stored else err) \<and>
       awaited_value env w (look_result w db') = Inl stored \<and> \<not> checkForRunningWorkflow w db'))"
proof (intro conjI allI impI)
  fix v io assume a: "outcome = Inr v \<and> serializeFunctionInputOutputWithSerializer env v (ws_serialization r) = Inr io \<and>
    io_stringified io \<noteq> []"
  then obtain ser where "through ser v = Inr io" "reader_for env (ws_serialization r) = Some ser"
    by (blast elim: serialize_with_reader)
  then have read: "deserializeValue env (Some (io_stringified io)) (ws_serialization r) = Inr (io_deserialized io)"
    by (simp add: deserializeValue_def through_parse)
  from a obtain db2 where "finishWorkflow env now w st (ws_serialization r) getResult (Inr v) db = (Inr (io_deserialized io), db2)"
    "look_result w db2 = Some (AwaitedOutput (Some (io_stringified io)) (ws_serialization r))" "\<not> checkForRunningWorkflow w db2"
    by (blast intro: finish_success [OF assms(2-4)])
  with a assms(5) read show "res = Inr (io_deserialized io)" "awaited_value env w (look_result w db') = Inr (io_deserialized io)"
    "\<not> checkForRunningWorkflow w db'" by (simp_all add: awaited_value_def)
next
  fix err s assume a: "outcome = Inl err \<and> ordinary_error err \<and> serializeResErrorWithSerializer env err (ws_serialization r) = Inr s \<and>
    truthy (sv_serializedValue s) \<and> reader_for env (ws_serialization r) \<noteq> None"
  then have s: "serializeResErrorWithSerializer env err (ws_serialization r) = Inr s"
    and rd: "reader_for env (ws_serialization r) \<noteq> None" and t: "truthy (sv_serializedValue s)" by blast+
  note same = awaited_error_same [OF assms(1) s rd] recorded_error_reader(2) [OF assms(1) s rd]
  have run: "and_then (handleWorkflowError env now w st (ws_serialization r) False err) (\<lambda>_. throw err) db = (res, db')"
    using a assms(5) by (simp add: finishWorkflow_def workflow_catch_ordinary)
  from finish_error [OF assms(2-4) s t, of now st] obtain db2 where
    "handleWorkflowError env now w st (ws_serialization r) False err db =
      (if sv_serialization s = Some (sz_name DBOSPortableJSON)
       then Inl (deserializeResError env (sv_serializedValue s) (sv_serialization s))
       else Inr (deserializeResError env (sv_serializedValue s) (sv_serialization s)), db2)"
    "look_result w db2 = Some (AwaitedError (sv_serializedValue s) (ws_serialization r))" "\<not> checkForRunningWorkflow w db2" .
  then show "let stored = deserializeResError env (sv_serializedValue s) (ws_serialization r) in
      res = Inl (if ws_serialization r = Some ''portable_json'' then stored else err) \<and>
      awaited_value env w (look_result w db') = Inl stored \<and> \<not> checkForRunningWorkflow w db'"
    using run t same unfolding Let_def by (auto simp: and_then_def awaited_value_def split: if_splits)
qed

section \<open>Child workflows\<close>

lemma insertWorkflowStatus_outputs:
  "t_operation_outputs (snd (insertWorkflowStatus now st xid inc db)) = t_operation_outputs db"
  by (auto simp: insertWorkflowStatus_def Let_def split: option.splits)

lemma updateWorkflowStatus_outputs:
  "t_operation_outputs (snd (updateWorkflowStatus now w st u wh t db)) = t_operation_outputs db"
  by (simp add: updateWorkflowStatus_def Let_def)

lemma initWorkflowStatus_outputs:
  "t_operation_outputs (snd (initWorkflowStatus now st xid rec deq mx db)) = t_operation_outputs db"
proof -
  have "t_operation_outputs db1 = t_operation_outputs db" if "insertWorkflowStatus now st xid (rec \<or> deq) db = (r, db1)" for r db1
    using insertWorkflowStatus_outputs [of now st xid "rec \<or> deq" db] that by simp
  then show ?thesis
    by (auto simp: initWorkflowStatus_def Let_def updateWorkflowStatus_outputs split: prod.splits sum.splits)
qed

lemma start_workflow_eval:
  "start_workflow env now xid mx st params (Some c) (Some f) db =
    (if cancelled c db then (Inl (DBOSWorkflowCancelledError c), db)
     else case find_row oo_pk (c, f) (t_operation_outputs db) of
       Some r \<Rightarrow> (if truthy (oo_error r) then Inl (deserializeResError env (oo_error r) (oo_serialization r))
                  else Inr (ExistingChild (oo_child_workflow_id r)), db)
     | None \<Rightarrow> (case initWorkflowStatus now st (Some xid) (wp_isRecoveryDispatch params) (wp_isQueueDispatch params) (Some mx) db of
           (Inl e, db1) \<Rightarrow> and_then (record_duplicate env now (Some c) (Some f) (si_workflowName st) (wp_returnExisting params) e) (\<lambda>_. throw e) db1
         | (Inr ires, db1) \<Rightarrow> and_then (record_child now (Some c) (Some f) (si_workflowName st) (si_workflowUUID st))
             (\<lambda>_. ret (Initialized ires)) db1))"
  by (simp add: start_workflow_def and_then_def op_simps stored_result_def split: option.splits)

lemma start_workflow_records:
  assumes "start_workflow env now xid mx st params (Some c) (Some f) db = (Inr (Initialized ires), db1)"
  shows "\<exists>r. find_row oo_pk (c, f) (t_operation_outputs db1) = Some r \<and> oo_error r = None \<and>
    oo_child_workflow_id r = Some (si_workflowUUID st)"
proof -
  have none: "find_row oo_pk (c, f) (t_operation_outputs db) = None"
    using assms by (auto simp: start_workflow_eval split: if_splits option.splits)
  then obtain db2 where init: "initWorkflowStatus now st (Some xid) (wp_isRecoveryDispatch params) (wp_isQueueDispatch params) (Some mx) db
      = (Inr ires, db2)"
    and rec: "record_child now (Some c) (Some f) (si_workflowName st) (si_workflowUUID st) db2 = (Inr (), db1)"
    using assms by (auto simp: start_workflow_eval and_then_success split: if_splits prod.splits sum.splits)
  have "find_row oo_pk (c, f) (t_operation_outputs db2) = None"
    using initWorkflowStatus_outputs [of now st "Some xid" "wp_isRecoveryDispatch params" "wp_isQueueDispatch params" "Some mx" db]
      init none by simp
  with rec show ?thesis
    by (auto simp: record_child_def recordOperationResult_def recordOperationResultInternal_def find_row_append
        new_operation_row_def oo_pk_def split: if_splits)
qed

text \<open>C38: a call starts its child workflow once. After a workflow's call has started a child, every replay of that call by
  the parent, whatever it asks for, finds the same child and changes nothing; no second child is created.\<close>

theorem child_started_once:
  assumes "start_workflow env now xid mx st params (Some c) (Some f) db = (Inr (Initialized ires), db1)"
    and "keeps_checkpoints\<^sup>*\<^sup>* db1 db2" and "\<not> cancelled c db2"
  shows "start_workflow env now2 xid2 mx2 st2 params2 (Some c) (Some f) db2 = (Inr (ExistingChild (Some (si_workflowUUID st))), db2)"
proof -
  obtain r where r: "find_row oo_pk (c, f) (t_operation_outputs db1) = Some r" "oo_error r = None"
      "oo_child_workflow_id r = Some (si_workflowUUID st)"
    using start_workflow_records [OF assms(1)] by blast
  have "find_row oo_pk (c, f) (t_operation_outputs db2) = Some r"
    using assms(2) r(1) by (induction rule: rtranclp_induct) (auto simp: keeps_checkpoints_def)
  with assms(3) r show ?thesis by (simp add: start_workflow_eval truthy_def)
qed

section \<open>Examples\<close>

lemma example_written:
  assumes "is_json v"
  obtains t where "serializeFunctionInputOutputWithSerializer example_serialization v None =
      Inr \<lparr>io_deserialized = v, io_stringified = t, io_sername = ''js_superjson''\<rparr>" and "t \<noteq> []"
proof -
  have w: "writer_for example_serialization None = DBOSJSON example_superjson (\<lambda>_. Inl (PlainError ''legacy''))"
    by (simp add: writer_for_def example_serialization_def Let_def)
  have eq: "serializeFunctionInputOutputWithSerializer example_serialization v None = through (writer_for example_serialization None) v"
    by (simp add: serializeFunctionInputOutputWithSerializer_def writer_for_def truthy_def)
  obtain t where t: "through (writer_for example_serialization None) v =
      Inr \<lparr>io_deserialized = v, io_stringified = t, io_sername = sz_name (writer_for example_serialization None)\<rparr>"
    using lawful_serializer.through_supported [OF writer_lawful [OF example_serialization_lawful, of None], of v] assms by auto
  moreover have "t = sjstringify example_superjson v"
    using t unfolding w by (auto simp: through_def DBOSJSON_def split: sum.splits)
  ultimately show thesis using that [of t] eq w JSON_stringify_length by (simp add: DBOSJSON_def sjstringify_def)
qed

theorem workflow_outcome_observed_witness:
  "\<exists>db'. finishWorkflow example_serialization 200 ''w'' (example_init ''w'' PENDING) None (throw (PlainError ''none'')) (Inr (JsNum 7))
      (example_db [example_row ''w'' PENDING]) = (Inr (JsNum 7), db') \<and>
    awaited_value example_serialization ''w'' (look_result ''w'' db') = Inr (JsNum 7) \<and> \<not> checkForRunningWorkflow ''w'' db'"
proof -
  let ?db = "example_db [example_row ''w'' PENDING]"
  obtain res db' where run: "finishWorkflow example_serialization 200 ''w'' (example_init ''w'' PENDING) None
      (throw (PlainError ''none'')) (Inr (JsNum 7)) ?db = (res, db')" by fastforce
  have "is_json (JsNum 7)" using is_jsonI [of "JNum 7"] by simp
  then obtain t where "serializeFunctionInputOutputWithSerializer example_serialization (JsNum 7) None =
      Inr \<lparr>io_deserialized = JsNum 7, io_stringified = t, io_sername = ''js_superjson''\<rparr>" "t \<noteq> []" by (rule example_written)
  moreover have "ws_serialization (example_row ''w'' PENDING) = None" by (simp add: example_defs)
  ultimately show ?thesis
    using workflow_outcome_observed [OF example_serialization_lawful, of ?db "''w''" "example_row ''w'' PENDING" 200
        "example_init ''w'' PENDING" "throw (PlainError ''none'')" "Inr (JsNum 7)" res db'] run
    by (simp add: unique_key_def)
qed

definition example_start :: InternalWorkflowParams where
  "example_start = \<lparr>wp_workflowUUID = None, wp_configuredInstance = None, wp_queueName = None, wp_executeWorkflow = False,
     wp_timeoutMS = None, wp_deadlineEpochMS = None, wp_enqueueOptions = no_enqueue_options, wp_returnExisting = False,
     wp_workflowAttributes = None, wp_tempWfType = None, wp_tempWfName = None, wp_tempWfClass = None,
     wp_isRecoveryDispatch = False, wp_isQueueDispatch = False\<rparr>"

theorem child_started_once_witness:
  "\<exists>db1. start_workflow example_serialization 300 ''xid3'' 5 (example_init ''c2'' PENDING) example_start (Some ''w'') (Some 1) db1 =
     (Inr (ExistingChild (Some ''c'')), db1)"
proof -
  let ?db = "example_db [example_row ''w'' PENDING]"
  obtain db0 ires where init: "initWorkflowStatus 200 (example_init ''c'' PENDING) (Some ''xid2'') False False (Some 5) ?db = (Inr ires, db0)"
    and rows: "t_workflow_status db0 = [example_row ''w'' PENDING, new_status_row 200 (example_init ''c'' PENDING) (Some ''xid2'')]"
    and none: "t_operation_outputs db0 = []"
    by (auto simp: initWorkflowStatus_def insertWorkflowStatus_def example_defs dedup_conflict_def insert_result_def max_retries_exceeded_def)
  have run: "\<exists>db1. start_workflow example_serialization 200 ''xid2'' 5 (example_init ''c'' PENDING) example_start (Some ''w'') (Some 1) ?db =
      (Inr (Initialized ires), db1) \<and> \<not> cancelled ''w'' db1"
    using init rows none
    by (simp add: start_workflow_eval example_start_def cancelled_def getWorkflowStatusValue_def record_child_def
        recordOperationResult_def recordOperationResultInternal_def op_simps workflow_ids_def claim_executor_def example_db_def empty_sysdb_def
        find_row_update_where)
  then obtain db1 where "start_workflow example_serialization 200 ''xid2'' 5 (example_init ''c'' PENDING) example_start (Some ''w'') (Some 1) ?db =
      (Inr (Initialized ires), db1)" "\<not> cancelled ''w'' db1" by blast
  from child_started_once [OF this(1) rtranclp.rtrancl_refl this(2)] show ?thesis unfolding example_inits by blast
qed

end
