(* ===== verification/DBOS_System.thy ===== *)
theory DBOS_System
  imports SysDB_Lifecycle Executor_Workflow
begin

text \<open>
  The system as a whole: everything that any process of an application, or a user of the management interface, does to
  the system database, in any order and interleaving. Each step is one complete operation of the system database. An
  operation of the executor is a sequence of such steps, between which other processes may take theirs.
\<close>

section \<open>The steps of the system\<close>

text \<open>\<open>setWorkflowStatus\<close>, which is there for tests, is not a step.\<close>

inductive sysdb_step :: "sysdb \<Rightarrow> sysdb \<Rightarrow> bool" where
  init_status: "sysdb_step db (snd (initWorkflowStatus now st xo rec deq mxo db))"
| enqueue_batch: "sysdb_step db (snd (enqueueWorkflows now sts db))"
| outcome_value: "sysdb_step db (snd (recordWorkflowOutput now w st db))"
| outcome_error: "sysdb_step db (snd (recordWorkflowError now w st db))"
| recover: "sysdb_step db (snd (reenqueueWorkflowsForRecovery now e v qi db))"
| checkpoint: "sysdb_step db (snd (recordOperationResult w f n chk s e opts db))"
| sleep: "sysdb_step db (snd (durableSleep now w f d db))"
| patch: "sysdb_step db (snd (checkPatch dn w f n dep db))"
| read_status: "sysdb_step db (snd (getWorkflowStatus s e w c cf db))"
| dequeue: "sysdb_step db (snd (findAndMarkStartableWorkflows s now lk q e v p db))"
| undelay: "sysdb_step db (snd (transitionDelayedWorkflows now db))"
| cancel: "sysdb_step db (snd (cancelWorkflows now ids cc db))"
| resume: "sysdb_step db (snd (resumeWorkflows now ids qn db))"
| prioritize: "sysdb_step db (snd (setWorkflowPriority now w pr db))"
| delay: "sysdb_step db (snd (setWorkflowDelay now w d db))"
| debounce: "sysdb_step db (snd (debounceDelayedWorkflow now dp (\<lambda>db. db) db))"
| delete: "sysdb_step db (snd (deleteWorkflows ids cc db))"
| collect: "sysdb_step db (snd (garbageCollect cutoff thr db))"
| fork: "sysdb_step db (snd (bulkForkWorkflows now origs forks steps fo db))"
| fork_failure: "sysdb_step db (snd (forkFromFailure now us ids mode fo db))"
| import_workflows: "sysdb_step db (snd (importWorkflow es db))"
| send_message: "sysdb_step db (snd (send s e u w f dest m t ser ik db))"
| send_direct: "sysdb_step db (snd (sendDirect now u dest m t ser ik db))"
| receive: "sysdb_step db (snd (recv_consume s e w f tp db))"
| set_event: "sysdb_step db (snd (setEvent s e w f ek em es db))"
| event_wait: "sysdb_step db (snd (event_deadline now ec tm db))"
| event_read: "sysdb_step db (snd (record_event_read s e ec ev db))"
| dispatch_state: "sysdb_step db (snd (upsertEventDispatchState ds db))"
| stream_step: "sysdb_step db (snd (writeStreamFromStep w f sk sv ss db))"
| stream_workflow: "sysdb_step db (snd (writeStreamFromWorkflow s e w f sk sv ss n db))"
| stream_close: "sysdb_step db (snd (closeStream s e w f sk db))"
| flush: "sysdb_step db (snd (flushNotifications ok db))"
| register: "sysdb_step db (registerRunningWorkflow w qo po db)"
| release: "sysdb_step db (clearRunningWorkflow w db)"
| queue_upsert: "sysdb_step db (snd (upsertQueue now i qr b db))"
| queue_update: "sysdb_step db (snd (updateQueue now n qu db))"
| queue_delete: "sysdb_step db (snd (deleteQueue n db))"
| schedule_create: "sysdb_step db (snd (createSchedule sc db))"
| schedule_update: "sysdb_step db (snd (updateSchedule n su db))"
| schedule_status: "sysdb_step db (snd (setScheduleStatus n n' db))"
| schedule_fired: "sysdb_step db (snd (updateLastFiredAt n n' db))"
| schedule_delete: "sysdb_step db (snd (deleteSchedule n db))"
| schedules_apply: "sysdb_step db (snd (applySchedules scs db))"
| version_create: "sysdb_step db (snd (createApplicationVersion now i n db))"
| version_update: "sysdb_step db (snd (updateApplicationVersionTimestamp n tm db))"

lemma preserves_snd: "preserves I m \<Longrightarrow> I s \<Longrightarrow> I (snd (m s))"
  by (simp add: preserves_def)

lemma sysdb_step_wf: "sysdb_step db db' \<Longrightarrow> db_wf db \<Longrightarrow> db_wf db'"
  by (induction rule: sysdb_step.induct)
    (simp_all add: clearRunningWorkflow_def registerRunningWorkflow_def Let_def preserves_snd keep_rules)

lemma movesD: "moves m \<Longrightarrow> db_wf db \<Longrightarrow> moved db (snd (m db))"
  by (simp add: moves_def)

lemma outcome_moves: "moves (recordWorkflowOutput now w st)" "moves (recordWorkflowError now w st)"
  by (simp_all add: recordWorkflowOutput_def recordWorkflowError_def recordWorkflowOutcome_moves)

lemma preserves_sum [keep_rules]:
  "(\<And>a. preserves I (k a)) \<Longrightarrow> (\<And>b. preserves I (l b)) \<Longrightarrow> preserves I (case v of Inl a \<Rightarrow> k a | Inr b \<Rightarrow> l b)"
  by (cases v) simp_all

lemma getWorkflowStatus_quiet [keep_rules]: "preserves (quiet S) (getWorkflowStatus s e w c f)"
  unfolding getWorkflowStatus_def prod.case by (intro keep_rules)

lemma sysdb_step_moved: "sysdb_step db db' \<Longrightarrow> db_wf db \<Longrightarrow> moved db db'"
proof (induction rule: sysdb_step.induct)
  case (register db w qo po)
  show ?case by (simp add: moved_def registerRunningWorkflow_def Let_def getWorkflowStatusValue_def)
next
  case (release db w)
  show ?case by (simp add: moved_def clearRunningWorkflow_def getWorkflowStatusValue_def)
qed ((rule movesD, (rule moves_quiet, intro keep_rules | rule initWorkflowStatus_moves enqueueWorkflows_moves outcome_moves
    reenqueueWorkflowsForRecovery_moves findAndMark_moves transitionDelayedWorkflows_moves cancelWorkflows_moves resumeWorkflows_moves
    deleteWorkflows_moves garbageCollect_moves bulkForkWorkflows_moves forkFromFailure_moves importWorkflow_moves), assumption)+)

definition initial :: "sysdb \<Rightarrow> bool" where
  "initial db = (\<exists>e u. db = empty_sysdb e u)"

interpretation dbos: simulation initial sysdb_step db_wf "\<lambda>db w. getWorkflowStatusValue w db" lifecycle
proof
  fix db db' :: sysdb
  show "initial db \<Longrightarrow> db_wf db" by (auto simp: initial_def db_wf_empty)
  show "sysdb_step db db' \<Longrightarrow> db_wf db \<Longrightarrow> db_wf db'" by (rule sysdb_step_wf)
  show "sysdb_step db db' \<Longrightarrow> db_wf db \<Longrightarrow> lifecycle\<^sup>=\<^sup>= (getWorkflowStatusValue w db) (getWorkflowStatusValue w db')" for w
    using sysdb_step_moved [of db db'] unfolding moved_def by blast
qed

section \<open>The operations of the executor\<close>

text \<open>Each of them is a sequence of steps: it stays within what \<open>db0\<close> reaches.\<close>

definition reaches :: "sysdb \<Rightarrow> sysdb \<Rightarrow> bool" where
  "reaches db0 db = sysdb_step\<^sup>*\<^sup>* db0 db"

lemma preserves_reachesI: "(\<And>db. sysdb_step db (snd (m db))) \<Longrightarrow> preserves (reaches db0) m"
  by (auto simp: preserves_def reaches_def intro: rtranclp.rtrancl_into_rtrancl)

lemma operations_reach [keep_rules]:
  "preserves (reaches db0) (initWorkflowStatus now st xo rec deq mxo)" "preserves (reaches db0) (recordWorkflowOutput now w st)"
  "preserves (reaches db0) (recordWorkflowError now w st)" "preserves (reaches db0) (reenqueueWorkflowsForRecovery now e v qi)"
  "preserves (reaches db0) (recordOperationResult w f n chk s e' opts)" "preserves (reaches db0) (cancelWorkflows now ids cc)"
  "preserves (reaches db0) (getWorkflowStatus s e' w c cf)"
  by (rule preserves_reachesI, rule sysdb_step.intros)+

lemma running_map_reaches [keep_rules]: "preserves (reaches db0) (modify (clearRunningWorkflow w))"
  using sysdb_step.release by (intro preserves_reachesI) simp

lemma lift_sum_keeps [keep_rules]: "preserves I (lift_sum v)"
  by (simp add: preserves_def lift_sum_def)

lemma record_child_reaches [keep_rules]: "preserves (reaches db0) (record_child now c f n w)"
  unfolding record_child_def prod.case by (intro keep_rules)

lemma record_duplicate_reaches [keep_rules]: "preserves (reaches db0) (record_duplicate env now c f n ex e)"
  unfolding record_duplicate_def by (intro keep_rules)

lemma start_workflow_reaches [keep_rules]: "preserves (reaches db0) (start_workflow env now xid mx st params c f)"
proof -
  have "preserves (reaches db0) (\<lambda>db. case initWorkflowStatus now st x rec deq mxa db of
      (Inl e, db1) \<Rightarrow> and_then (record_duplicate env now c f n ex e) (\<lambda>_. throw e) db1
    | (Inr ires, db1) \<Rightarrow> and_then (record_child now c f n w) (\<lambda>_. ret (Initialized ires)) db1)" for x rec deq mxa n ex w
  proof (rule preservesI)
    fix db assume al: "reaches db0 db"
    obtain r db1 where init: "initWorkflowStatus now st x rec deq mxa db = (r, db1)" by fastforce
    have al1: "reaches db0 db1" by (rule preservesD [OF operations_reach(1) al init])
    have "preserves (reaches db0) (and_then (record_duplicate env now c f n ex e) (\<lambda>_. throw e :: start_result db_op))" for e
      by (intro keep_rules)
    moreover have "preserves (reaches db0) (and_then (record_child now c f n w) (\<lambda>_. ret (Initialized ires)))" for ires
      by (intro keep_rules)
    ultimately show "reaches db0 (snd (case initWorkflowStatus now st x rec deq mxa db of
        (Inl e, db1) \<Rightarrow> and_then (record_duplicate env now c f n ex e) (\<lambda>_. throw e) db1
      | (Inr ires, db1) \<Rightarrow> and_then (record_child now c f n w) (\<lambda>_. ret (Initialized ires)) db1))"
      using al1 init unfolding preserves_def by (cases r) auto
  qed
  then show ?thesis unfolding start_workflow_def prod.case by (intro keep_rules)
qed

lemma handle_for_reaches [keep_rules]: "preserves (reaches db0) (handle_for params w ires)"
  by (rule preservesI) (auto simp: handle_for_def reaches_def intro: rtranclp.rtrancl_into_rtrancl sysdb_step.register)

lemma internalWorkflow_reaches [keep_rules]:
  "preserves (reaches db0) (internalWorkflow env now g u xid wn wc reg params pctx c f args)"
proof -
  have "preserves (reaches db0) (case res of ExistingChild ch \<Rightarrow> ret (RetrievedHandle (coalesce ch [])) | Initialized ires \<Rightarrow> handle_for params w ires)"
    for res w by (cases res) (auto intro: keep_rules)
  then show ?thesis unfolding internalWorkflow_def Let_def by (intro keep_rules)
qed

lemma handleWorkflowError_reaches [keep_rules]: "preserves (reaches db0) (handleWorkflowError env now w st ser rel e)"
  unfolding handleWorkflowError_def releaseRunningWorkflow_def Let_def by (intro keep_rules)

lemma workflow_catch_reaches:
  "preserves (reaches db0) getResult \<Longrightarrow> preserves (reaches db0) (workflow_catch env now w st ser getResult rel e)"
  unfolding workflow_catch_def releaseRunningWorkflow_def by (cases e; simp only: dbos_error.case; (intro keep_rules)?; assumption?)

lemma finishWorkflow_reaches [keep_rules]:
  assumes "preserves (reaches db0) getResult"
  shows "preserves (reaches db0) (finishWorkflow env now w st ser getResult outcome)"
proof (rule preservesI)
  fix db assume al: "reaches db0 db"
  have catch: "reaches db0 db1 \<Longrightarrow> reaches db0 (snd (workflow_catch env now w st ser getResult rel e db1))" for e rel db1
    using workflow_catch_reaches [OF assms] unfolding preserves_def by blast
  define save where "save t = and_then (releaseRunningWorkflow False w) (\<lambda>_. recordWorkflowOutput now w
      (st\<lparr>si_output := Some t, si_status := SUCCESS\<rparr>))" for t
  have "preserves (reaches db0) (save t)" for t
    unfolding save_def releaseRunningWorkflow_def by (intro keep_rules)
  then have saved: "reaches db0 (snd (save t db))" for t using al unfolding preserves_def by blast
  show "reaches db0 (snd (finishWorkflow env now w st ser getResult outcome db))"
  proof (cases "case outcome of Inl e \<Rightarrow> Inl e | Inr v \<Rightarrow> serializeFunctionInputOutputWithSerializer env v ser")
    case (Inr io)
    obtain r db1 where run: "save (io_stringified io) db = (r, db1)" by fastforce
    with saved [of "io_stringified io"] have "reaches db0 db1" by simp
    with run Inr catch show ?thesis
      by (cases r) (simp_all add: finishWorkflow_def save_def)
  qed (simp add: finishWorkflow_def catch al)
qed

lemma preserves_args [keep_rules]:
  "(\<And>args. preserves I (k args)) \<Longrightarrow> preserves I m \<Longrightarrow> preserves I (case v of JsArr args \<Rightarrow> k args | _ \<Rightarrow> m)"
  by (cases v) simp_all

lemma executeWorkflowId_reaches [keep_rules]:
  "preserves (reaches db0) (executeWorkflowId env now g u xid registry instances w opts)"
  unfolding executeWorkflowId_def Let_def by (intro keep_rules)

lemma recoverPendingWorkflows_reaches [keep_rules]: "preserves (reaches db0) (recoverPendingWorkflows now g ids)"
  by (induction ids; simp only: recoverPendingWorkflows.simps; intro keep_rules; assumption)

lemma record_step_reaches [keep_rules]: "preserves (reaches db0) (record_step env w f n s e out mx)"
  unfolding record_step_def Let_def by (cases out; simp only: step_outcome.case; intro keep_rules)

lemma callPromiseWithTimeout_reaches [keep_rules]: "preserves (reaches db0) (callPromiseWithTimeout now w d fin outcome)"
  unfolding callPromiseWithTimeout_def by (intro keep_rules)

end
