(* ===== verification/Queue_Runner.thy ===== *)
theory Queue_Runner
  imports Complex_Main DBOS_System
begin

text \<open>
  The dispatcher of queues (\<open>WFQueueRunner\<close> of \<open>src/wfqueue.ts\<close>): one loop that reconciles the queues of the database, moves
  delayed workflows and starts the polls that are due, at most a given number at a time, and the polls, which dequeue
  workflows and start them.

  Times are rationals, in milliseconds: polling intervals are scaled by 2 and 9/10 and jittered. A poll works on the runtime state
  of its queue as it was when the poll began; if the queue is dropped meanwhile, that state object is no longer the tracked one
  and the poll's end does not touch the tracked state. Each poll in flight therefore remembers whether its state is
  still attached.
\<close>

section \<open>State\<close>

record QueueRuntimeState =
  rs_queue :: WorkflowQueue
  rs_currentPollingMs :: rat
  rs_nextPollAt :: rat

record WFQueueRunner =
  qn_wfQueuesByName :: "WorkflowQueue list"
  qn_pollerQueueNames :: "string list"
  qn_listenQueueNames :: "string list option"
  qn_states :: "QueueRuntimeState list"
  qn_inFlight :: "(string \<times> bool) list"
  qn_lastReconcileAt :: int
  qn_lastTransitionAt :: int

definition defaultMinPollingIntervalMs :: int where "defaultMinPollingIntervalMs = 1000"
definition defaultMaxPollingIntervalMs :: rat where "defaultMaxPollingIntervalMs = 120000"
definition reconcileIntervalMs :: int where "reconcileIntervalMs = 1000"
definition transitionIntervalMs :: int where "transitionIntervalMs = 1000"

definition state_name :: "QueueRuntimeState \<Rightarrow> string" where
  "state_name s = wq_name (rs_queue s)"

definition min_interval :: "WorkflowQueue \<Rightarrow> rat" where
  "min_interval q = rat_of_int (coalesce (wq_minPollingIntervalMs q) defaultMinPollingIntervalMs)"

definition in_flight :: "WFQueueRunner \<Rightarrow> string \<Rightarrow> bool" where
  "in_flight r name = (name \<in> fst ` set (qn_inFlight r))"

section \<open>Tracking queues\<close>

definition ensureState :: "WorkflowQueue \<Rightarrow> int \<Rightarrow> QueueRuntimeState list \<Rightarrow> QueueRuntimeState list" where
  "ensureState q now states =
     (if find_row state_name (wq_name q) states \<noteq> None then states
      else states @ [\<lparr>rs_queue = q, rs_currentPollingMs = min_interval q, rs_nextPollAt = rat_of_int now + min_interval q\<rparr>])"

text \<open>An entry of the argument is a queue or the name of one.\<close>

definition resolve_entries :: "WorkflowQueue list \<Rightarrow> (WorkflowQueue + string) list \<Rightarrow> WorkflowQueue list" where
  "resolve_entries known entries = List.map_filter (\<lambda>e. case e of Inl q \<Rightarrow> Some q | Inr n \<Rightarrow> find_row wq_name n known) entries"

fun add_pollers :: "WorkflowQueue list \<Rightarrow> string list \<Rightarrow> WorkflowQueue list \<Rightarrow> WorkflowQueue list" where
  "add_pollers known [] result = result"
| "add_pollers known (n # ns) result =
     (case find_row wq_name n known of
        Some q \<Rightarrow> add_pollers known ns (if n \<in> wq_name ` set result then result else result @ [q])
      | None \<Rightarrow> add_pollers known ns result)"

definition resolveInMemoryQueues :: "WFQueueRunner \<Rightarrow> (WorkflowQueue + string) list option \<Rightarrow> WorkflowQueue list" where
  "resolveInMemoryQueues r listenQueues =
     (case listenQueues of
        None \<Rightarrow> filter (\<lambda>q. wq_name q \<noteq> INTERNAL_QUEUE_NAME) (qn_wfQueuesByName r)
      | Some entries \<Rightarrow> add_pollers (qn_wfQueuesByName r) (qn_pollerQueueNames r) (resolve_entries (qn_wfQueuesByName r) entries))"

text \<open>The records that this process dispatches: not the internal queue, not shadowed by a queue in memory, and listened to.\<close>

definition dispatched_record :: "WFQueueRunner \<Rightarrow> QueueRecord \<Rightarrow> bool" where
  "dispatched_record r rec = (qr_name rec \<noteq> INTERNAL_QUEUE_NAME \<and> qr_name rec \<notin> wq_name ` set (qn_wfQueuesByName r) \<and>
     (case qn_listenQueueNames r of None \<Rightarrow> True | Some ns \<Rightarrow> qr_name rec \<in> set ns \<or> qr_name rec \<in> set (qn_pollerQueueNames r)))"

definition track_record :: "int \<Rightarrow> QueueRecord \<Rightarrow> QueueRuntimeState list \<Rightarrow> QueueRuntimeState list" where
  "track_record now rec states =
     (if find_row state_name (qr_name rec) states \<noteq> None
      then update_where (\<lambda>s. state_name s = qr_name rec) (\<lambda>s. s\<lparr>rs_queue := fromRecord rec False\<rparr>) states
      else ensureState (fromRecord rec False) now states)"

text \<open>Listing the queues can fail, which is only logged (\<open>None\<close>).\<close>

definition refreshDbQueues :: "int \<Rightarrow> QueueRecord list option \<Rightarrow> WFQueueRunner \<Rightarrow> WFQueueRunner" where
  "refreshDbQueues now listed r =
     (case listed of
        None \<Rightarrow> r
      | Some records \<Rightarrow>
          (let present = filter (dispatched_record r) records;
               states = fold (track_record now) present (qn_states r);
               gone = (\<lambda>s. wq_databaseBacked (rs_queue s) \<and> state_name s \<notin> qr_name ` set present);
               dropped = state_name ` set (filter gone states)
           in r\<lparr>qn_states := filter (\<lambda>s. \<not> gone s) states,
                qn_inFlight := map (\<lambda>(n, attached). (n, attached \<and> n \<notin> dropped)) (qn_inFlight r)\<rparr>))"

text \<open>Setting up the loop, up to the first round.\<close>

definition dispatchLoop_setup ::
  "int \<Rightarrow> (WorkflowQueue + string) list option \<Rightarrow> QueueRecord list option \<Rightarrow> WFQueueRunner \<Rightarrow> WFQueueRunner" where
  "dispatchLoop_setup now listenQueues listed r =
     (let r0 = r\<lparr>qn_states := [], qn_inFlight := [], qn_lastReconcileAt := now, qn_lastTransitionAt := 0,
            qn_listenQueueNames := map_option (map (\<lambda>e. case e of Inl q \<Rightarrow> wq_name q | Inr n \<Rightarrow> n)) listenQueues\<rparr>;
          internal = (case find_row wq_name INTERNAL_QUEUE_NAME (qn_wfQueuesByName r0) of None \<Rightarrow> [] | Some q \<Rightarrow> [q]);
          states = fold (\<lambda>q. ensureState q now) (internal @ resolveInMemoryQueues r0 listenQueues) []
      in refreshDbQueues now listed (r0\<lparr>qn_states := states\<rparr>))"

section \<open>Polling\<close>

text \<open>A stable sort by \<open>nextPollAt\<close>; polls start in that order until the lanes are full.\<close>

definition due_states :: "int \<Rightarrow> WFQueueRunner \<Rightarrow> QueueRuntimeState list" where
  "due_states now r =
     sort_key rs_nextPollAt (filter (\<lambda>s. rs_nextPollAt s \<le> rat_of_int now \<and> \<not> in_flight r (state_name s)) (qn_states r))"

definition scheduleDueQueues :: "int \<Rightarrow> nat \<Rightarrow> WFQueueRunner \<Rightarrow> WFQueueRunner" where
  "scheduleDueQueues now lanes r =
     r\<lparr>qn_inFlight := qn_inFlight r @ map (\<lambda>s. (state_name s, True)) (take (lanes - length (qn_inFlight r)) (due_states now r))\<rparr>"

text \<open>\<open>rnd\<close> is \<open>Math.random()\<close>.\<close>

definition adjustInterval :: "int \<Rightarrow> rat \<Rightarrow> bool \<Rightarrow> QueueRuntimeState \<Rightarrow> QueueRuntimeState" where
  "adjustInterval now rnd contentionDetected s =
     (let minPollingMs = min_interval (rs_queue s); maxPollingMs = defaultMaxPollingIntervalMs;
          scaled = (if contentionDetected then min maxPollingMs (rs_currentPollingMs s * 2)
                    else max minPollingMs (rs_currentPollingMs s * (9/10)));
          current = max minPollingMs (min scaled maxPollingMs);
          jitter = 95/100 + rnd * (105/100 - 95/100)
      in s\<lparr>rs_currentPollingMs := current, rs_nextPollAt := rat_of_int now + current * jitter\<rparr>)"

text \<open>The end of \<open>runQueuePoll\<close>.\<close>

definition finish_poll :: "int \<Rightarrow> rat \<Rightarrow> bool \<Rightarrow> string \<Rightarrow> WFQueueRunner \<Rightarrow> WFQueueRunner" where
  "finish_poll now rnd contentionDetected name r =
     r\<lparr>qn_states := (if (name, True) \<in> set (qn_inFlight r)
         then update_where (\<lambda>s. state_name s = name) (adjustInterval now rnd contentionDetected) (qn_states r) else qn_states r),
       qn_inFlight := filter (\<lambda>(n, _). n \<noteq> name) (qn_inFlight r)\<rparr>"

text \<open>
  \<open>pollQueue\<close>: \<open>execute\<close> is \<open>exec.executeWorkflowId(wfid, { isQueueDispatch: true })\<close>; an error of it is only logged. An
  error of a dequeue ends the poll, as contention or not.
\<close>

fun dispatch :: "(string \<Rightarrow> workflow_handle db_op) \<Rightarrow> string list \<Rightarrow> sysdb \<Rightarrow> sysdb" where
  "dispatch execute [] db = db"
| "dispatch execute (w # ws) db = dispatch execute ws (snd (execute w db))"

definition is_contention :: "dbos_error \<Rightarrow> bool" where
  "is_contention e = (e = PgError ''40001'' \<or> e = PgError ''55P03'')"

fun poll_partitions ::
  "(string option \<Rightarrow> string list db_op) \<Rightarrow> (string \<Rightarrow> workflow_handle db_op) \<Rightarrow> string option list \<Rightarrow> sysdb \<Rightarrow> bool \<times> sysdb" where
  "poll_partitions dequeue execute [] db = (False, db)"
| "poll_partitions dequeue execute (k # ks) db =
     (case dequeue k db of
        (Inl e, db1) \<Rightarrow> (is_contention e, db1)
      | (Inr wfids, db1) \<Rightarrow> poll_partitions dequeue execute ks (dispatch execute wfids db1))"

definition pollQueue ::
  "(WorkflowQueue \<Rightarrow> string option \<Rightarrow> string list db_op) \<Rightarrow> (string \<Rightarrow> workflow_handle db_op) \<Rightarrow> WorkflowQueue \<Rightarrow> sysdb \<Rightarrow> bool \<times> sysdb" where
  "pollQueue dequeue execute q db =
     poll_partitions (dequeue q) execute (if wq_partitionQueue q then map Some (getQueuePartitions (wq_name q) db) else [None]) db"

section \<open>The loop\<close>

text \<open>One round of \<open>schedulerLoop\<close> up to its wait, and the time it waits for.\<close>

definition schedulerLoop_round :: "int \<Rightarrow> nat \<Rightarrow> QueueRecord list option \<Rightarrow> WFQueueRunner \<times> sysdb \<Rightarrow> WFQueueRunner \<times> sysdb" where
  "schedulerLoop_round now lanes listed = (\<lambda>(r, db).
     let r1 = (if now - qn_lastReconcileAt r \<ge> reconcileIntervalMs
               then (refreshDbQueues now listed r)\<lparr>qn_lastReconcileAt := now\<rparr> else r);
         due = (now - qn_lastTransitionAt r1 \<ge> transitionIntervalMs);
         db1 = (if due then snd (transitionDelayedWorkflows now db) else db);
         r2 = (if due then r1\<lparr>qn_lastTransitionAt := now\<rparr> else r1)
     in (scheduleDueQueues now lanes r2, db1))"

definition nextWakeAt :: "nat \<Rightarrow> WFQueueRunner \<Rightarrow> rat" where
  "nextWakeAt lanes r =
     (let base = rat_of_int (min (qn_lastReconcileAt r + reconcileIntervalMs) (qn_lastTransitionAt r + transitionIntervalMs)) in
      if length (qn_inFlight r) < lanes
      then fold min (map rs_nextPollAt (filter (\<lambda>s. \<not> in_flight r (state_name s)) (qn_states r))) base
      else base)"

section \<open>The runner as a step system\<close>

text \<open>The functions a poll calls: the dequeue of the system database and the executor's dispatch.\<close>

record poll_env =
  pe_serialization :: serialization_env
  pe_now :: int
  pe_locked :: "workflow_status \<Rightarrow> bool"
  pe_executorID :: string
  pe_globalParams :: global_params
  pe_newUUID :: "string \<Rightarrow> string"
  pe_xid :: "string \<Rightarrow> string"
  pe_registry :: "string \<Rightarrow> string \<Rightarrow> registration option"
  pe_instances :: "string \<Rightarrow> string \<Rightarrow> bool"

definition dispatch_options :: execute_options where
  "dispatch_options = \<lparr>xo_startNewWorkflow = False, xo_isRecoveryDispatch = False, xo_isQueueDispatch = True\<rparr>"

definition run_poll :: "poll_env \<Rightarrow> WorkflowQueue \<Rightarrow> sysdb \<Rightarrow> bool \<times> sysdb" where
  "run_poll pe = pollQueue
     (\<lambda>q k. findAndMarkStartableWorkflows (pe_now pe) (pe_now pe) (pe_locked pe) q (pe_executorID pe) (gp_appVersion (pe_globalParams pe)) k)
     (\<lambda>w. executeWorkflowId (pe_serialization pe) (pe_now pe) (pe_globalParams pe) (pe_newUUID pe w) (pe_xid pe w) (pe_registry pe)
       (pe_instances pe) w dispatch_options)"

text \<open>A round of the loop, the end of a poll, or anything that happens to the database meanwhile.\<close>

inductive runner_step :: "nat \<Rightarrow> WFQueueRunner \<times> sysdb \<Rightarrow> WFQueueRunner \<times> sysdb \<Rightarrow> bool" for lanes where
  round: "listed \<in> {None, Some (listQueues db)} \<Longrightarrow> runner_step lanes (r, db) (schedulerLoop_round now lanes listed (r, db))"
| poll: "in_flight r n \<Longrightarrow> run_poll pe q db = (contention, db') \<Longrightarrow> runner_step lanes (r, db) (finish_poll now rnd contention n r, db')"
| other: "sysdb_step db db' \<Longrightarrow> runner_step lanes (r, db) (r, db')"

inductive_cases runner_stepE: "runner_step lanes s s'"

text \<open>Every queue is tracked once, no two polls are of one queue, there are no more than the lanes, and a poll whose state is
  attached is of a tracked queue.\<close>

definition runner_ok :: "nat \<Rightarrow> WFQueueRunner \<Rightarrow> bool" where
  "runner_ok lanes r = (unique_key state_name (qn_states r) \<and> unique_key fst (qn_inFlight r) \<and> length (qn_inFlight r) \<le> lanes \<and>
     (\<forall>n. (n, True) \<in> set (qn_inFlight r) \<longrightarrow> n \<in> state_name ` set (qn_states r)))"

lemma fromRecord_name [simp]: "wq_name (fromRecord rec b) = qr_name rec"
  by (simp add: fromRecord_def)

lemma ensureState_names:
  "state_name ` set (ensureState q now states) = insert (wq_name q) (state_name ` set states)"
  by (auto simp: ensureState_def state_name_def find_row_None_iff)

lemma ensureState_unique: "unique_key state_name states \<Longrightarrow> unique_key state_name (ensureState q now states)"
  by (auto simp: ensureState_def find_row_None_iff) (simp add: state_name_def)

lemma track_record_names: "state_name ` set (track_record now rec states) = insert (qr_name rec) (state_name ` set states)"
proof (cases "find_row state_name (qr_name rec) states")
  case None
  then show ?thesis by (simp add: track_record_def ensureState_names)
next
  case (Some s)
  then have "qr_name rec \<in> state_name ` set states" using find_row_SomeD [OF Some] by (metis imageI)
  moreover have "state_name ` set (track_record now rec states) = state_name ` set states"
    unfolding track_record_def using Some by (simp add: image_update_where state_name_def)
  ultimately show ?thesis by auto
qed

lemma track_record_unique: "unique_key state_name states \<Longrightarrow> unique_key state_name (track_record now rec states)"
  by (simp add: track_record_def ensureState_unique unique_key_update_where state_name_def)

lemma fold_track:
  "state_name ` set (fold (track_record now) recs states) = state_name ` set states \<union> qr_name ` set recs"
  "unique_key state_name states \<Longrightarrow> unique_key state_name (fold (track_record now) recs states)"
  by (induction recs arbitrary: states) (auto simp: track_record_names track_record_unique)

lemma unique_key_filter_rows: "unique_key key rows \<Longrightarrow> unique_key key (filter P rows)"
  by (simp add: unique_key_def distinct_map_filter)

lemma refresh_ok: "runner_ok lanes r \<Longrightarrow> runner_ok lanes (refreshDbQueues now listed r)"
proof (cases listed)
  case (Some records)
  assume ok: "runner_ok lanes r"
  define present where "present = filter (dispatched_record r) records"
  define states where "states = fold (track_record now) present (qn_states r)"
  define gone where "gone s = (wq_databaseBacked (rs_queue s) \<and> state_name s \<notin> qr_name ` set present)" for s
  let ?kept = "filter (\<lambda>s. \<not> gone s) states"
  let ?flight = "map (\<lambda>(n, attached). (n, attached \<and> n \<notin> state_name ` set (filter gone states))) (qn_inFlight r)"
  have "map fst ?flight = map fst (qn_inFlight r)" by (auto simp: case_prod_beta)
  moreover have "unique_key state_name ?kept"
    using ok by (intro unique_key_filter_rows) (simp add: states_def fold_track(2) runner_ok_def)
  moreover have "n \<in> state_name ` set ?kept" if flight: "(n, True) \<in> set ?flight" for n
  proof -
    from flight have "(n, True) \<in> set (qn_inFlight r)" "n \<notin> state_name ` set (filter gone states)" by auto
    with ok have "n \<in> state_name ` set states" unfolding runner_ok_def states_def fold_track(1) by blast
    with \<open>n \<notin> state_name ` set (filter gone states)\<close> show ?thesis by auto
  qed
  ultimately show ?thesis
    using ok unfolding Some refreshDbQueues_def option.case Let_def runner_ok_def unique_key_def
    by (simp add: present_def [symmetric] states_def [symmetric] gone_def [symmetric] comp_def case_prod_beta
        del: set_map set_filter)
qed (simp add: refreshDbQueues_def)

lemma due_states_props:
  "s \<in> set (due_states now r) \<longleftrightarrow> s \<in> set (qn_states r) \<and> rs_nextPollAt s \<le> rat_of_int now \<and> \<not> in_flight r (state_name s)"
  "unique_key state_name (qn_states r) \<Longrightarrow> distinct (map state_name (due_states now r))"
  "sorted (map rs_nextPollAt (due_states now r))"
proof -
  show "s \<in> set (due_states now r) \<longleftrightarrow> s \<in> set (qn_states r) \<and> rs_nextPollAt s \<le> rat_of_int now \<and> \<not> in_flight r (state_name s)"
    by (auto simp: due_states_def)
  show "sorted (map rs_nextPollAt (due_states now r))" by (simp add: due_states_def)
  show "distinct (map state_name (due_states now r))" if "unique_key state_name (qn_states r)"
    using that unfolding due_states_def unique_key_def by (simp add: distinct_map_sort_key distinct_map_filter)
qed

lemma schedule_ok: "runner_ok lanes r \<Longrightarrow> runner_ok lanes (scheduleDueQueues now lanes r)"
proof -
  assume ok: "runner_ok lanes r"
  let ?new = "take (lanes - length (qn_inFlight r)) (due_states now r)"
  have "distinct (map state_name ?new)" using ok due_states_props(2) by (simp add: runner_ok_def take_map [symmetric])
  moreover have "set ?new \<subseteq> set (due_states now r)" by (rule set_take_subset)
  then have new: "state_name s \<in> state_name ` set (qn_states r) \<and> state_name s \<notin> fst ` set (qn_inFlight r)" if "s \<in> set ?new" for s
    using that due_states_props(1) [of s now r] by (auto simp: in_flight_def)
  moreover have "fst ` set (qn_inFlight r) \<inter> state_name ` set ?new = {}"
    by (rule equals0I) (metis IntE imageE new)
  ultimately have "unique_key fst (qn_inFlight r @ map (\<lambda>s. (state_name s, True)) ?new)"
    using ok by (simp add: runner_ok_def unique_key_def comp_def image_image)
  with new ok show ?thesis by (auto simp: runner_ok_def scheduleDueQueues_def)
qed

lemma finish_ok: "runner_ok lanes r \<Longrightarrow> runner_ok lanes (finish_poll now rnd c n r)"
proof -
  assume ok: "runner_ok lanes r"
  have name: "state_name (adjustInterval now rnd c s) = state_name s" for s by (simp add: adjustInterval_def state_name_def Let_def)
  have "length (filter (\<lambda>(m, _). m \<noteq> n) (qn_inFlight r)) \<le> length (qn_inFlight r)" by (rule length_filter_le)
  also have "\<dots> \<le> lanes" using ok by (simp add: runner_ok_def)
  finally have "length (filter (\<lambda>(m, _). m \<noteq> n) (qn_inFlight r)) \<le> lanes" .
  moreover have "unique_key fst (filter (\<lambda>(m, _). m \<noteq> n) (qn_inFlight r))"
    using ok by (simp add: runner_ok_def unique_key_filter_rows)
  ultimately show ?thesis
    using ok by (auto simp: runner_ok_def finish_poll_def name unique_key_update_where image_update_where)
qed

lemma round_ok: "runner_ok lanes r \<Longrightarrow> runner_ok lanes (fst (schedulerLoop_round now lanes listed (r, db)))"
proof -
  have frame: "runner_ok lanes (r\<lparr>qn_lastReconcileAt := t\<rparr>) = runner_ok lanes r" "runner_ok lanes (r\<lparr>qn_lastTransitionAt := t\<rparr>) = runner_ok lanes r"
    for r t by (simp_all add: runner_ok_def)
  show "runner_ok lanes r \<Longrightarrow> runner_ok lanes (fst (schedulerLoop_round now lanes listed (r, db)))"
    unfolding schedulerLoop_round_def Let_def prod.case fst_conv by (intro schedule_ok) (simp add: frame refresh_ok)
qed

lemma setup_ok: "runner_ok lanes (dispatchLoop_setup now lq listed r)"
proof -
  have "unique_key state_name states \<Longrightarrow> unique_key state_name (fold (\<lambda>q. ensureState q now) qs states)" for qs states
    by (induction qs arbitrary: states) (simp_all add: ensureState_unique)
  then show ?thesis unfolding dispatchLoop_setup_def Let_def by (intro refresh_ok) (simp add: runner_ok_def)
qed

interpretation runner: invariant_system
  "\<lambda>s. \<exists>now lq listed r db. s = (dispatchLoop_setup now lq listed r, db)" "runner_step lanes" "\<lambda>s. runner_ok lanes (fst s)" for lanes
proof
  show "runner_ok lanes (fst s)" if "\<exists>now lq listed r db. s = (dispatchLoop_setup now lq listed r, db)" for s
    using that by (auto simp: setup_ok)
  show "runner_ok lanes (fst s')" if "runner_step lanes s s'" "runner_ok lanes (fst s)" for s s'
    using that by (induction rule: runner_step.induct) (simp_all add: round_ok finish_ok)
qed

section \<open>Polls are runs of the system\<close>

lemma findAndMark_reaches [keep_rules]: "preserves (reaches db0) (findAndMarkStartableWorkflows st now lk q e v p)"
  by (rule preserves_reachesI, rule sysdb_step.intros)

lemma dispatch_reaches: "(\<And>w. preserves (reaches db0) (execute w)) \<Longrightarrow> reaches db0 db \<Longrightarrow> reaches db0 (dispatch execute ws db)"
  by (induction ws arbitrary: db) (simp_all add: preserves_snd)

lemma poll_partitions_reaches:
  assumes "\<And>k. preserves (reaches db0) (dequeue k)" and "\<And>w. preserves (reaches db0) (execute w)"
  shows "reaches db0 db \<Longrightarrow> reaches db0 (snd (poll_partitions dequeue execute ks db))"
proof (induction ks arbitrary: db)
  case (Cons k ks)
  obtain res db1 where d: "dequeue k db = (res, db1)" by fastforce
  with Cons.prems assms(1) have "reaches db0 db1" by (metis preservesD)
  with d Cons.IH dispatch_reaches [OF assms(2)] show ?case by (cases res) auto
qed simp

lemma run_poll_reaches: "reaches db0 db \<Longrightarrow> reaches db0 (snd (run_poll pe q db))"
  unfolding run_poll_def pollQueue_def by (rule poll_partitions_reaches) (intro keep_rules)+

section \<open>Intervals\<close>

text \<open>After a poll the interval is within the queue's minimum and the overall maximum (or the minimum, should that be larger), and
  the next poll is due within 5 percent of it.\<close>

lemma adjustInterval_bounds:
  assumes "0 \<le> rnd" and "rnd \<le> 1" and "0 \<le> min_interval (rs_queue s)"
    and s': "s' = adjustInterval now rnd c s"
  shows "min_interval (rs_queue s) \<le> rs_currentPollingMs s'"
    and "rs_currentPollingMs s' \<le> max (min_interval (rs_queue s)) defaultMaxPollingIntervalMs"
    and "rat_of_int now + rs_currentPollingMs s' * (95/100) \<le> rs_nextPollAt s'"
    and "rs_nextPollAt s' \<le> rat_of_int now + rs_currentPollingMs s' * (105/100)"
proof -
  show lo: "min_interval (rs_queue s) \<le> rs_currentPollingMs s'"
    and "rs_currentPollingMs s' \<le> max (min_interval (rs_queue s)) defaultMaxPollingIntervalMs"
    by (auto simp: s' adjustInterval_def Let_def)
  have nxt: "rs_nextPollAt s' = rat_of_int now + rs_currentPollingMs s' * (95/100 + rnd * (1/10))"
    by (simp add: s' adjustInterval_def Let_def)
  have "0 \<le> rs_currentPollingMs s'" using lo assms(3) by linarith
  then show "rat_of_int now + rs_currentPollingMs s' * (95/100) \<le> rs_nextPollAt s'"
    "rs_nextPollAt s' \<le> rat_of_int now + rs_currentPollingMs s' * (105/100)"
    using assms(1,2) mult_left_mono [of "95/100" "95/100 + rnd * (1/10)" "rs_currentPollingMs s'"]
      mult_left_mono [of "95/100 + rnd * (1/10)" "105/100" "rs_currentPollingMs s'"] unfolding nxt by simp_all
qed

lemma fold_min_le: "fold min xs (b :: rat) \<le> b \<and> (\<forall>x\<in>set xs. fold min xs b \<le> x)"
proof (induction xs arbitrary: b)
  case (Cons x xs)
  from Cons.IH [of "min x b"] show ?case by auto
qed simp

text \<open>The loop does not oversleep: with a lane free, it wakes by the time any idle queue is due.\<close>

lemma nextWakeAt_idle:
  "length (qn_inFlight r) < lanes \<Longrightarrow> s \<in> set (qn_states r) \<Longrightarrow> \<not> in_flight r (state_name s) \<Longrightarrow> nextWakeAt lanes r \<le> rs_nextPollAt s"
  using fold_min_le by (auto simp: nextWakeAt_def Let_def)

lemma sorted_take_drop_le:
  "sorted (map f xs) \<Longrightarrow> x \<in> set (take n xs) \<Longrightarrow> y \<in> set (drop n xs) \<Longrightarrow> f x \<le> (f y :: 'a :: linorder)"
proof -
  assume "sorted (map f xs)" and xy: "x \<in> set (take n xs)" "y \<in> set (drop n xs)"
  then have "sorted (map f (take n xs) @ map f (drop n xs))" by (simp flip: map_append)
  with xy show "f x \<le> f y" unfolding sorted_append by auto
qed

section \<open>Lanes and fairness\<close>

text \<open>C23: the dispatcher keeps within its lanes and starves no queue. In every state that the loop reaches after its setup,
  whatever polls and other processes do: at most \<open>lanes\<close> polls are in flight, no two of one queue, and each queue is
  tracked once. And after a round has started polls, a queue that is due and has none means that all lanes are taken, and every
  queue that got a lane in this round had been due for at least as long.\<close>

theorem queue_polls_bounded_and_fair:
  assumes "(runner_step lanes)\<^sup>*\<^sup>* (dispatchLoop_setup start lq listed r0, db0) (r, db)"
  shows "length (qn_inFlight r) \<le> lanes \<and> distinct (map fst (qn_inFlight r)) \<and> distinct (map state_name (qn_states r)) \<and>
    (\<forall>now s. let r' = scheduleDueQueues now lanes r in
      s \<in> set (qn_states r) \<and> rs_nextPollAt s \<le> rat_of_int now \<and> \<not> in_flight r' (state_name s) \<longrightarrow>
        length (qn_inFlight r') = lanes \<and>
        (\<forall>t\<in>set (qn_states r). in_flight r' (state_name t) \<and> \<not> in_flight r (state_name t) \<longrightarrow> rs_nextPollAt t \<le> rs_nextPollAt s))"
proof -
  have ok: "runner_ok lanes r" using runner.reachable_inv [OF _ assms] by auto
  have fair: "length (qn_inFlight r') = lanes \<and>
      (\<forall>t\<in>set (qn_states r). in_flight r' (state_name t) \<and> \<not> in_flight r (state_name t) \<longrightarrow> rs_nextPollAt t \<le> rs_nextPollAt s)"
    if s: "s \<in> set (qn_states r)" "rs_nextPollAt s \<le> rat_of_int now" "\<not> in_flight r' (state_name s)"
      and r': "r' = scheduleDueQueues now lanes r" for now s r'
  proof -
    let ?k = "lanes - length (qn_inFlight r)" and ?due = "due_states now r"
    have flight: "in_flight r' n \<longleftrightarrow> in_flight r n \<or> n \<in> state_name ` set (take ?k ?due)" for n
      by (simp add: in_flight_def r' scheduleDueQueues_def image_image image_Un)
    have "s \<in> set ?due" "s \<notin> set (take ?k ?due)" using s flight by (auto simp: due_states_props(1))
    then have drop: "s \<in> set (drop ?k ?due)" by (metis UnE append_take_drop_id set_append)
    then have "?k < length ?due" by (metis drop_all empty_iff empty_set not_less)
    then have "length (qn_inFlight r') = lanes" using ok by (simp add: r' scheduleDueQueues_def runner_ok_def)
    moreover have "rs_nextPollAt t \<le> rs_nextPollAt s"
      if t: "t \<in> set (qn_states r)" "in_flight r' (state_name t)" "\<not> in_flight r (state_name t)" for t
    proof -
      obtain u where u: "u \<in> set (take ?k ?due)" "state_name u = state_name t" using t flight by auto
      then have "u \<in> set (qn_states r)" using due_states_props(1) set_take_subset by fast
      then have "u = t" using ok u(2) t(1) by (intro unique_key_eq [of state_name "qn_states r"]) (auto simp: runner_ok_def)
      with u(1) drop show ?thesis using sorted_take_drop_le [OF due_states_props(3)] by blast
    qed
    ultimately show ?thesis by blast
  qed
  with ok show ?thesis unfolding Let_def by (auto simp: runner_ok_def unique_key_def)
qed

definition example_queue :: "string \<Rightarrow> WorkflowQueue" where
  "example_queue n = \<lparr>wq_name = n, wq_concurrency = None, wq_rateLimit = None, wq_workerConcurrency = None,
     wq_priorityEnabled = False, wq_partitionQueue = False, wq_minPollingIntervalMs = None, wq_databaseBacked = False, wq_clientBound = False\<rparr>"

definition example_runner :: WFQueueRunner where
  "example_runner = \<lparr>qn_wfQueuesByName = [example_queue ''a'', example_queue ''b''], qn_pollerQueueNames = [],
     qn_listenQueueNames = None, qn_states = [], qn_inFlight = [], qn_lastReconcileAt = 0, qn_lastTransitionAt = 0\<rparr>"

theorem queue_polls_bounded_and_fair_witness:
  "let r = fst (schedulerLoop_round 1500 1 (Some []) (dispatchLoop_setup 100 None (Some []) example_runner, example_db []))
   in qn_inFlight r = [(''a'', True)] \<and> length (qn_inFlight r) \<le> 1 \<and> distinct (map state_name (qn_states r))"
proof -
  let ?s = "(dispatchLoop_setup 100 None (Some []) example_runner, example_db [])"
  have "listQueues (example_db []) = []" by (simp add: listQueues_def example_db_def empty_sysdb_def)
  then have "runner_step 1 ?s (schedulerLoop_round 1500 1 (Some []) ?s)" by (intro runner_step.round) simp
  then have "(runner_step 1)\<^sup>*\<^sup>* ?s (fst (schedulerLoop_round 1500 1 (Some []) ?s), snd (schedulerLoop_round 1500 1 (Some []) ?s))"
    by simp
  moreover have "qn_inFlight (fst (schedulerLoop_round 1500 1 (Some []) ?s)) = [(''a'', True)]" by code_simp
  ultimately show ?thesis using queue_polls_bounded_and_fair unfolding Let_def by blast
qed

end
