(* ===== verification/SysDB_Retry.thy ===== *)
theory SysDB_Retry
  imports Complex_Main JS_Text
begin

text \<open>
  Which errors of the database driver are worth a retry, and the loop that retries (\<open>unwrapErrors\<close>,
  \<open>retriablePostgresException\<close> and the decorator \<open>dbRetry\<close> of \<open>src/system_database.ts\<close>).

  What is caught is any JavaScript value. Objects live in a heap and refer to one another, possibly in cycles: an error has a
  cause, an aggregate error has a list of errors, some libraries wrap an error. The search visits every object once.
\<close>

section \<open>Thrown values\<close>

text \<open>A value is \<open>null\<close> or \<open>undefined\<close>, another primitive (with its text), or an object.\<close>

datatype thrown = Nullish | Prim string | Obj nat

record error_object =
  eo_isError :: bool
  eo_code :: "string option"
  eo_message :: "string option"
  eo_stack :: "string option"
  eo_text :: string
  eo_errors :: "thrown list"
  eo_cause :: thrown
  eo_error :: thrown

type_synonym heap = "error_object list"

text \<open>References point into the heap.\<close>

fun valid_ref :: "heap \<Rightarrow> thrown \<Rightarrow> bool" where
  "valid_ref h (Obj i) = (i < length h)"
| "valid_ref h _ = True"

text \<open>A truthy value: an empty string is not (a zero is left out: no error has such a cause).\<close>

fun truthy_value :: "thrown \<Rightarrow> bool" where
  "truthy_value Nullish = False"
| "truthy_value (Prim s) = (s \<noteq> [])"
| "truthy_value (Obj i) = True"

definition links :: "error_object \<Rightarrow> thrown list" where
  "links ob = eo_errors ob @ (if truthy_value (eo_cause ob) then [eo_cause ob] else []) @
     (if truthy_value (eo_error ob) then [eo_error ob] else [])"

definition heap_ok :: "heap \<Rightarrow> bool" where
  "heap_ok h = list_all (\<lambda>ob. list_all (valid_ref h) (links ob)) h"

section \<open>What is retried\<close>

definition RETRY_SQLSTATE_PREFIXES :: "string list" where
  "RETRY_SQLSTATE_PREFIXES = [''08'', ''53'', ''57'']"

definition RETRY_SQLSTATE_CODES :: "string list" where
  "RETRY_SQLSTATE_CODES = [''40003'']"

definition RETRY_NODE_ERRNOS :: "string list" where
  "RETRY_NODE_ERRNOS = [''ECONNRESET'', ''ECONNREFUSED'', ''EHOSTUNREACH'', ''ENETUNREACH'', ''ETIMEDOUT'', ''ECONNABORTED'']"

definition sqlStateLooksRetryable :: "string \<Rightarrow> bool" where
  "sqlStateLooksRetryable sqlstate =
     (sqlstate \<noteq> [] \<and> (List.member RETRY_SQLSTATE_CODES sqlstate \<or> List.member RETRY_SQLSTATE_PREFIXES (take 2 sqlstate)))"

definition isPgDatabaseError :: "error_object \<Rightarrow> bool" where
  "isPgDatabaseError e = (case eo_code e of None \<Rightarrow> False | Some c \<Rightarrow> length c = 5)"

definition nodeErrnoLooksRetryable :: "error_object \<Rightarrow> bool" where
  "nodeErrnoLooksRetryable e = (case eo_code e of None \<Rightarrow> False | Some c \<Rightarrow> c \<noteq> [] \<and> List.member RETRY_NODE_ERRNOS c)"

definition messageLooksRetryable :: "string \<Rightarrow> bool" where
  "messageLooksRetryable msg =
     (let m = to_lower msg in
      js_includes ''ECONNREFUSED'' msg \<or> js_includes ''ECONNRESET'' msg \<or> js_includes ''connection timeout'' m \<or>
      js_includes ''server closed the connection'' m \<or> js_includes ''connection terminated unexpectedly'' m \<or>
      js_includes ''client has encountered a connection error'' m \<or>
      js_includes ''timeout exceeded when trying to connect'' m \<or> js_includes ''could not connect to server'' m)"

definition text_retryable :: "string option \<Rightarrow> bool" where
  "text_retryable t = (case t of None \<Rightarrow> False | Some s \<Rightarrow> s \<noteq> [] \<and> messageLooksRetryable s)"

definition object_retryable :: "error_object \<Rightarrow> bool" where
  "object_retryable e =
     ((isPgDatabaseError e \<and> sqlStateLooksRetryable (case eo_code e of None \<Rightarrow> [] | Some c \<Rightarrow> c)) \<or> nodeErrnoLooksRetryable e \<or>
      (if eo_isError e then text_retryable (eo_stack e) \<or> text_retryable (eo_message e) else messageLooksRetryable (eo_text e)))"

text \<open>\<open>null.code\<close> throws a \<open>TypeError\<close>; a primitive has no code.\<close>

fun value_retryable :: "heap \<Rightarrow> thrown \<Rightarrow> unit + bool" where
  "value_retryable h Nullish = Inl ()"
| "value_retryable h (Prim s) = Inr (messageLooksRetryable s)"
| "value_retryable h (Obj i) = Inr (i < length h \<and> object_retryable (h ! i))"

section \<open>The search\<close>

text \<open>
  The generator and the loop that consumes it, as one function: \<open>queue\<close> and \<open>seen\<close> are the generator's variables. It ends on
  every heap, cycles included: a round either visits an object for the first time or shortens the queue.
\<close>

function unwrap_search :: "heap \<Rightarrow> nat list \<Rightarrow> thrown list \<Rightarrow> unit + bool" where
  "unwrap_search h seen [] = Inr False"
| "unwrap_search h seen (Obj i # queue) =
     (if i \<in> set seen \<or> length h \<le> i then unwrap_search h seen queue
      else if object_retryable (h ! i) then Inr True
      else unwrap_search h (i # seen) (queue @ links (h ! i)))"
| "unwrap_search h seen (Prim s # queue) =
     (if messageLooksRetryable s then Inr True else unwrap_search h seen queue)"
| "unwrap_search h seen (Nullish # queue) = Inl ()"
  by pat_completeness auto
termination
proof (relation "measures [\<lambda>(h, seen, queue). card ({..<length h} - set seen), \<lambda>(h, seen, queue). length queue]", goal_cases)
  case (3 h seen i queue)
  then have "i \<in> {..<length h} - set seen" by (simp add: not_le)
  then have "{..<length h} - insert i (set seen) \<subset> {..<length h} - set seen" by blast
  then have "card ({..<length h} - insert i (set seen)) < card ({..<length h} - set seen)" by (intro psubset_card_mono) auto
  then show ?case by simp
qed auto

definition retriablePostgresException :: "heap \<Rightarrow> thrown \<Rightarrow> unit + bool" where
  "retriablePostgresException h err = unwrap_search h [] [err]"

section \<open>The retry loop\<close>

text \<open>
  The method may do anything at each call: \<open>attempts n\<close> is what call \<open>n\<close> throws or returns, \<open>rnds n\<close> the random number that jitters
  the wait after it. The loop has no bound; \<open>fuel\<close> bounds the rounds that are looked at, \<open>None\<close> is still running. The result
  has the waits in milliseconds.
\<close>

datatype 'a retried = Returned 'a | Rethrown thrown | TypeErrorThrown

fun dbRetry ::
  "nat \<Rightarrow> (nat \<Rightarrow> thrown + 'a) \<Rightarrow> (nat \<Rightarrow> heap) \<Rightarrow> (nat \<Rightarrow> rat) \<Rightarrow> rat \<Rightarrow> nat \<Rightarrow> rat \<Rightarrow> ('a retried \<times> rat list) option" where
  "dbRetry 0 attempts heaps rnds maxBackoff n backoff = None"
| "dbRetry (Suc fuel) attempts heaps rnds maxBackoff n backoff =
     (case attempts n of
        Inr v \<Rightarrow> Some (Returned v, [])
      | Inl e \<Rightarrow>
          (case retriablePostgresException (heaps n) e of
             Inl _ \<Rightarrow> Some (TypeErrorThrown, [])
           | Inr False \<Rightarrow> Some (Rethrown e, [])
           | Inr True \<Rightarrow>
               map_option (\<lambda>(r, waits). (r, backoff * (1/2 + rnds n) * 1000 # waits))
                 (dbRetry fuel attempts heaps rnds maxBackoff (Suc n) (min (backoff * 2) maxBackoff))))"

section \<open>The search finds every retryable error\<close>

definition leads_to :: "heap \<Rightarrow> thrown \<Rightarrow> thrown \<Rightarrow> bool" where
  "leads_to h v w = (case v of Obj i \<Rightarrow> i < length h \<and> w \<in> set (links (h ! i)) | _ \<Rightarrow> False)"

abbreviation reaches_value :: "heap \<Rightarrow> thrown \<Rightarrow> thrown \<Rightarrow> bool" where
  "reaches_value h \<equiv> (leads_to h)\<^sup>*\<^sup>*"

lemma link_reaches: "w \<in> set (links (h ! i)) \<Longrightarrow> i < length h \<Longrightarrow> reaches_value h w u \<Longrightarrow> reaches_value h (Obj i) u"
  by (rule converse_rtranclp_into_rtranclp) (simp_all add: leads_to_def)

lemma search_finds:
  "unwrap_search h seen queue = r \<Longrightarrow> r \<noteq> Inr False \<Longrightarrow> \<exists>q\<in>set queue. \<exists>w. reaches_value h q w \<and> value_retryable h w = r"
proof (induction h seen queue rule: unwrap_search.induct)
  case (2 h seen i queue)
  consider (old) "i \<in> set seen \<or> length h \<le> i" | (hit) "i \<notin> set seen" "i < length h" "object_retryable (h ! i)"
    | (new) "i \<notin> set seen" "i < length h" "\<not> object_retryable (h ! i)" by force
  then show ?case
  proof cases
    case old
    then show ?thesis using "2.IH"(1) "2.prems" by auto
  next
    case hit
    with "2.prems" have "value_retryable h (Obj i) = r" by auto
    then show ?thesis by auto
  next
    case new
    with "2.prems" "2.IH"(2) obtain q w where "q \<in> set queue \<or> q \<in> set (links (h ! i))" "reaches_value h q w" "value_retryable h w = r"
      by auto
    then show ?thesis using link_reaches [OF _ new(2)] by auto
  qed
next
  case (3 h seen s queue)
  then show ?case by (cases "messageLooksRetryable s") auto
qed auto

lemma search_complete:
  "unwrap_search h seen queue = Inr False \<Longrightarrow> \<forall>i\<in>set seen. \<not> object_retryable (h ! i) \<Longrightarrow>
    \<exists>S. set queue \<subseteq> S \<and> (\<forall>w\<in>S. value_retryable h w = Inr False) \<and>
      (\<forall>i. Obj i \<in> S \<and> i < length h \<and> i \<notin> set seen \<longrightarrow> set (links (h ! i)) \<subseteq> S)"
proof (induction h seen queue rule: unwrap_search.induct)
  case (1 h seen)
  show ?case by (rule exI [of _ "{}"]) simp
next
  case (2 h seen i queue)
  consider (old) "i \<in> set seen \<or> length h \<le> i" | (new) "i \<notin> set seen" "i < length h" "\<not> object_retryable (h ! i)"
    using "2.prems"(1) by (force split: if_splits)
  then show ?case
  proof cases
    case old
    with 2 obtain S where "set queue \<subseteq> S" "\<forall>w\<in>S. value_retryable h w = Inr False"
      "\<forall>i. Obj i \<in> S \<and> i < length h \<and> i \<notin> set seen \<longrightarrow> set (links (h ! i)) \<subseteq> S" by auto
    with old "2.prems"(2) show ?thesis by (intro exI [of _ "insert (Obj i) S"]) auto
  next
    case new
    with 2 obtain S where "set queue \<union> set (links (h ! i)) \<subseteq> S" "\<forall>w\<in>S. value_retryable h w = Inr False"
      "\<forall>j. Obj j \<in> S \<and> j < length h \<and> j \<notin> insert i (set seen) \<longrightarrow> set (links (h ! j)) \<subseteq> S" by auto
    with new show ?thesis by (intro exI [of _ "insert (Obj i) S"]) auto
  qed
next
  case (3 h seen s queue)
  then have s: "\<not> messageLooksRetryable s" by (auto split: if_splits)
  with 3 obtain S where "set queue \<subseteq> S" "\<forall>w\<in>S. value_retryable h w = Inr False"
    "\<forall>i. Obj i \<in> S \<and> i < length h \<and> i \<notin> set seen \<longrightarrow> set (links (h ! i)) \<subseteq> S" by auto
  with s show ?case by (intro exI [of _ "insert (Prim s) S"]) auto
qed simp

lemma reaches_in_closed:
  "reaches_value h v w \<Longrightarrow> v \<in> S \<Longrightarrow> \<forall>i. Obj i \<in> S \<and> i < length h \<longrightarrow> set (links (h ! i)) \<subseteq> S \<Longrightarrow> w \<in> S"
  by (induction rule: rtranclp_induct) (auto simp: leads_to_def split: thrown.splits)

text \<open>The decision is right: an error is retried if and only if a retryable one is reachable from it, unless a
  \<open>null\<close> is reached, on which the search itself may throw.\<close>

lemma retriable_iff:
  assumes "\<And>w. reaches_value h e w \<Longrightarrow> w \<noteq> Nullish"
  shows "retriablePostgresException h e = Inr (\<exists>w. reaches_value h e w \<and> value_retryable h w = Inr True)"
proof (cases "unwrap_search h [] [e] = Inr False")
  case True
  from search_complete [OF this] obtain S where "e \<in> S" "\<forall>w\<in>S. value_retryable h w = Inr False"
    "\<forall>i. Obj i \<in> S \<and> i < length h \<longrightarrow> set (links (h ! i)) \<subseteq> S" by auto
  with reaches_in_closed [of h e _ S] True show ?thesis by (fastforce simp: retriablePostgresException_def)
next
  case False
  from search_finds [OF refl False] obtain w where w: "reaches_value h e w" "value_retryable h w = unwrap_search h [] [e]" by auto
  with assms have "unwrap_search h [] [e] = Inr True" using False by (cases w; cases "unwrap_search h [] [e]") auto
  with w show ?thesis by (auto simp: retriablePostgresException_def)
qed

section \<open>The loop outlasts a disconnection\<close>

definition retries_at :: "(nat \<Rightarrow> thrown + 'a) \<Rightarrow> (nat \<Rightarrow> heap) \<Rightarrow> nat \<Rightarrow> bool" where
  "retries_at attempts heaps n = (case attempts n of Inr _ \<Rightarrow> False | Inl e \<Rightarrow> retriablePostgresException (heaps n) e = Inr True)"

definition settled :: "(nat \<Rightarrow> thrown + 'a) \<Rightarrow> (nat \<Rightarrow> heap) \<Rightarrow> nat \<Rightarrow> 'a retried" where
  "settled attempts heaps n = (case attempts n of
       Inr v \<Rightarrow> Returned v
     | Inl e \<Rightarrow> if retriablePostgresException (heaps n) e = Inr False then Rethrown e else TypeErrorThrown)"

definition backoff_at :: "rat \<Rightarrow> rat \<Rightarrow> nat \<Rightarrow> rat" where
  "backoff_at initial maxBackoff n = min (initial * 2 ^ n) maxBackoff"

lemma dbRetry_settles:
  assumes "\<not> retries_at attempts heaps n"
  shows "dbRetry (Suc fuel) attempts heaps rnds mx n b = Some (settled attempts heaps n, [])"
  using assms by (auto simp: retries_at_def settled_def split: sum.splits bool.splits)

lemma dbRetry_again:
  assumes "retries_at attempts heaps n"
  shows "dbRetry (Suc fuel) attempts heaps rnds mx n b = map_option (\<lambda>(r, waits). (r, b * (1/2 + rnds n) * 1000 # waits))
    (dbRetry fuel attempts heaps rnds mx (Suc n) (min (b * 2) mx))"
  using assms by (auto simp: retries_at_def split: sum.splits)

lemma backoff_doubles: "0 \<le> mx \<Longrightarrow> min (backoff_at b mx n * 2) mx = backoff_at b mx (Suc n)"
  by (auto simp: backoff_at_def min_def)

lemma dbRetry_run:
  "0 \<le> mx \<Longrightarrow> (\<And>i. n \<le> i \<Longrightarrow> i < n + k \<Longrightarrow> retries_at attempts heaps i) \<Longrightarrow> \<not> retries_at attempts heaps (n + k) \<Longrightarrow> k < fuel \<Longrightarrow>
    dbRetry fuel attempts heaps rnds mx n (backoff_at b mx n) =
      Some (settled attempts heaps (n + k), map (\<lambda>i. backoff_at b mx i * (1/2 + rnds i) * 1000) [n ..< n + k])"
proof (induction k arbitrary: n fuel)
  case 0
  then obtain f where "fuel = Suc f" by (cases fuel) auto
  with 0 show ?case by (simp add: dbRetry_settles del: dbRetry.simps)
next
  case (Suc k)
  then obtain f where f: "fuel = Suc f" "k < f" by (cases fuel) auto
  have "retries_at attempts heaps n" using Suc.prems(2) [of n] by simp
  moreover have "dbRetry f attempts heaps rnds mx (Suc n) (backoff_at b mx (Suc n)) =
      Some (settled attempts heaps (Suc n + k), map (\<lambda>i. backoff_at b mx i * (1/2 + rnds i) * 1000) [Suc n ..< Suc n + k])"
    using Suc.prems f by (intro Suc.IH) auto
  moreover have "[n ..< n + Suc k] = n # [Suc n ..< Suc n + k]" by (simp add: upt_conv_Cons del: upt_Suc)
  ultimately show ?case
    using Suc.prems(1) by (simp add: f dbRetry_again backoff_doubles del: dbRetry.simps upt_Suc)
qed

lemma dbRetry_blocks: "(\<And>i. n \<le> i \<Longrightarrow> retries_at attempts heaps i) \<Longrightarrow> dbRetry fuel attempts heaps rnds mx n b = None"
proof (induction fuel arbitrary: n b)
  case (Suc fuel)
  then show ?case by (simp add: dbRetry_again del: dbRetry.simps(2))
qed simp

text \<open>C22: a lost connection never surfaces in a workflow. As long as calls fail with errors from which a retryable error is
  reachable (through causes, aggregates and wrappers, cycles included), the loop goes on; the first call that returns, or
  fails otherwise, decides: its value is returned, its error is rethrown as it is. Between call \<open>i\<close> and the next it waits from half
  to one and a half times the backoff, which doubles from its initial value up to its maximum. If the connection never
  comes back the loop never ends, whatever the number of rounds.\<close>

theorem db_retry_outlasts_disconnection:
  assumes "0 \<le> initial" and "initial \<le> mx" and "\<And>n e w. attempts n = Inl e \<Longrightarrow> reaches_value (heaps n) e w \<Longrightarrow> w \<noteq> Nullish"
    and "\<And>n. 0 \<le> rnds n \<and> rnds n < 1"
  defines "disconnected \<equiv> \<lambda>n. \<exists>e w. attempts n = Inl e \<and> reaches_value (heaps n) e w \<and> value_retryable (heaps n) w = Inr True"
  shows "((\<forall>i<k. disconnected i) \<and> \<not> disconnected k \<longrightarrow>
      (\<exists>waits. (\<forall>fuel>k. dbRetry fuel attempts heaps rnds mx 0 initial =
          Some (case attempts k of Inr v \<Rightarrow> Returned v | Inl e \<Rightarrow> Rethrown e, waits)) \<and> length waits = k \<and>
        (\<forall>i<k. backoff_at initial mx i * 500 \<le> waits ! i \<and> waits ! i \<le> backoff_at initial mx i * 1500))) \<and>
    ((\<forall>i. disconnected i) \<longrightarrow> (\<forall>fuel. dbRetry fuel attempts heaps rnds mx 0 initial = None))"
proof -
  have ret: "attempts n = Inl e \<Longrightarrow> retriablePostgresException (heaps n) e =
      Inr (\<exists>w. reaches_value (heaps n) e w \<and> value_retryable (heaps n) w = Inr True)" for n e
    using assms(3) by (rule retriable_iff)
  have dis: "disconnected n = retries_at attempts heaps n" for n
    by (auto simp: disconnected_def retries_at_def ret split: sum.splits)
  have set: "settled attempts heaps n = (case attempts n of Inr v \<Rightarrow> Returned v | Inl e \<Rightarrow> Rethrown e)" if "\<not> disconnected n" for n
    using that by (auto simp: disconnected_def settled_def ret split: sum.splits)
  have b0: "backoff_at initial mx 0 = initial" and mx: "0 \<le> mx" using assms(1,2) by (simp_all add: backoff_at_def)
  let ?waits = "map (\<lambda>i. backoff_at initial mx i * (1/2 + rnds i) * 1000) [0 ..< k]"
  have wait: "backoff_at initial mx i * 500 \<le> backoff_at initial mx i * (1/2 + rnds i) * 1000 \<and>
      backoff_at initial mx i * (1/2 + rnds i) * 1000 \<le> backoff_at initial mx i * 1500" for i
  proof -
    have "0 \<le> backoff_at initial mx i" using assms(1,2) by (simp add: backoff_at_def)
    moreover from this have "rnds i * backoff_at initial mx i \<le> 1 * backoff_at initial mx i"
      using assms(4) [of i] by (intro mult_right_mono) auto
    ultimately show ?thesis using assms(4) [of i] by (auto simp: algebra_simps)
  qed
  show ?thesis
  proof (intro conjI impI allI)
    assume run: "(\<forall>i<k. disconnected i) \<and> \<not> disconnected k"
    have "dbRetry fuel attempts heaps rnds mx 0 initial =
        Some (case attempts k of Inr v \<Rightarrow> Returned v | Inl e \<Rightarrow> Rethrown e, ?waits)" if "k < fuel" for fuel
      using dbRetry_run [OF mx, of 0 k attempts heaps fuel rnds initial] run set [of k] that by (simp add: dis b0)
    with wait show "\<exists>waits. (\<forall>fuel>k. dbRetry fuel attempts heaps rnds mx 0 initial =
          Some (case attempts k of Inr v \<Rightarrow> Returned v | Inl e \<Rightarrow> Rethrown e, waits)) \<and> length waits = k \<and>
        (\<forall>i<k. backoff_at initial mx i * 500 \<le> waits ! i \<and> waits ! i \<le> backoff_at initial mx i * 1500)"
      by (intro exI [of _ ?waits]) simp
  next
    fix fuel assume "\<forall>i. disconnected i"
    then show "dbRetry fuel attempts heaps rnds mx 0 initial = None" by (intro dbRetry_blocks) (simp add: dis)
  qed
qed

text \<open>The connection is refused twice (the second time as the cause of another error), then the call returns.\<close>

definition refused_heap :: heap where
  "refused_heap =
     [\<lparr>eo_isError = True, eo_code = Some ''ECONNREFUSED'', eo_message = Some ''connect'', eo_stack = None, eo_text = [], eo_errors = [],
       eo_cause = Nullish, eo_error = Nullish\<rparr>,
      \<lparr>eo_isError = True, eo_code = None, eo_message = Some ''query failed'', eo_stack = None, eo_text = [], eo_errors = [],
       eo_cause = Obj 0, eo_error = Obj 1\<rparr>]"

definition flaky :: "nat \<Rightarrow> thrown + nat" where
  "flaky n = (if n = 0 then Inl (Obj 0) else if n = 1 then Inl (Obj 1) else Inr 7)"

theorem db_retry_outlasts_disconnection_witness:
  "\<exists>waits. dbRetry 3 flaky (\<lambda>_. refused_heap) (\<lambda>_. 1/4) 60 0 1 = Some (Returned 7, waits) \<and> length waits = 2"
proof -
  have links: "links (refused_heap ! 0) = []" "links (refused_heap ! 1) = [Obj 0, Obj 1]" "length refused_heap = 2"
    by (simp_all add: refused_heap_def links_def)
  then have step: "leads_to refused_heap (Obj i) w \<Longrightarrow> i < 2 \<Longrightarrow> w \<in> {Obj 0, Obj 1}" for i w
    by (cases "i = 0") (auto simp: leads_to_def less_2_cases_iff)
  have "w \<in> {Obj 0, Obj 1}" if "reaches_value refused_heap (Obj i) w" "i < 2" for i w
    using that(1) by (induction rule: rtranclp_induct) (use that(2) step in \<open>auto simp: less_2_cases_iff\<close>)
  then have obj: "w \<noteq> Nullish" if "flaky n = Inl e" "reaches_value refused_heap e w" for n e w
    using that by (fastforce simp: flaky_def split: if_splits)
  have hit: "value_retryable refused_heap (Obj 0) = Inr True" by code_simp
  have "reaches_value refused_heap (Obj 1) (Obj 0)" using links by (intro r_into_rtranclp) (simp add: leads_to_def)
  then have dis: "\<exists>e w. flaky i = Inl e \<and> reaches_value refused_heap e w \<and> value_retryable refused_heap w = Inr True" if "i < 2" for i
    using that hit by (cases "i = 0") (auto simp: flaky_def simp del: value_retryable.simps)
  have "\<not> (\<exists>e w. flaky 2 = Inl e \<and> reaches_value refused_heap e w \<and> value_retryable refused_heap w = Inr True)" by (simp add: flaky_def)
  with dis db_retry_outlasts_disconnection [of 1 60 flaky "\<lambda>_. refused_heap" "\<lambda>_. 1/4" 2] obj
  show ?thesis by (auto simp: flaky_def)
qed

end
