(* ===== verification/Crontab.thy ===== *)
theory Crontab
  imports SysDB_Schema
begin

text \<open>
  Cron expressions (\<open>src/scheduler/crontab.ts\<close>): how an expression is rewritten into lists of numbers, validated and
  matched against a time, and the search for the next time that matches.

  Strings are rewritten as the source rewrites them, with regular expressions as functions on characters. A time is in
  milliseconds; its seconds, minutes and so on in the local or the given time zone are a parameter (the \<open>Date\<close> getters and
  \<open>Intl.DateTimeFormat\<close>).
\<close>

section \<open>Strings\<close>

definition is_js_space :: "char \<Rightarrow> bool" where
  "is_js_space c = (let n = (of_char c :: nat) in n = 32 \<or> (9 \<le> n \<and> n \<le> 13) \<or> n = 160)"

definition is_word_char :: "char \<Rightarrow> bool" where
  "is_word_char c = (is_digit c \<or> c = CHR ''_'' \<or> (let n = (of_char (lower_char c) :: nat) in 97 \<le> n \<and> n \<le> 122))"

text \<open>\<open>str.replace(/\s{2,}/g, ' ')\<close>\<close>

function collapse_spaces :: "string \<Rightarrow> string" where
  "collapse_spaces [] = []"
| "collapse_spaces (c # cs) =
     (if is_js_space c \<and> takeWhile is_js_space cs \<noteq> [] then CHR '' '' # collapse_spaces (dropWhile is_js_space cs)
      else c # collapse_spaces cs)"
  by pat_completeness auto
termination by (relation "measure length") (auto simp: le_imp_less_Suc length_dropWhile_le)

definition js_trim :: "string \<Rightarrow> string" where
  "js_trim s = rev (dropWhile is_js_space (rev (dropWhile is_js_space s)))"

definition removeExtraSpaces :: "string \<Rightarrow> string" where
  "removeExtraSpaces str = js_trim (collapse_spaces str)"

text \<open>\<open>expression.replace(new RegExp(word, 'gi'), text)\<close>, for a word of letters.\<close>

function replace_word :: "string \<Rightarrow> string \<Rightarrow> string \<Rightarrow> string" where
  "replace_word w r [] = []"
| "replace_word w r (c # cs) =
     (if w \<noteq> [] \<and> to_lower (take (length w) (c # cs)) = w then r @ replace_word w r (drop (length w) (c # cs))
      else c # replace_word w r cs)"
  by pat_completeness auto
termination by (relation "measure (\<lambda>(w, r, s). length s)") auto

text \<open>\<open>parseInt\<close>, with radix 10 and without a radix; \<open>None\<close> is \<open>NaN\<close>.\<close>

definition read_signed :: "(string \<Rightarrow> nat option) \<Rightarrow> string \<Rightarrow> int option" where
  "read_signed rd s = (case dropWhile is_js_space s of
       [] \<Rightarrow> None
     | c # cs \<Rightarrow> if c = CHR ''-'' then map_option (\<lambda>n. - int n) (rd cs)
         else if c = CHR ''+'' then map_option int (rd cs) else map_option int (rd (c # cs)))"

definition read_decimal :: "string \<Rightarrow> nat option" where
  "read_decimal s = (let ds = takeWhile is_digit s in if ds = [] then None else Some (read_digits ds))"

fun read_hex :: "nat \<Rightarrow> string \<Rightarrow> nat" where
  "read_hex n [] = n"
| "read_hex n (c # cs) = (case hex_value c of None \<Rightarrow> n | Some d \<Rightarrow> read_hex (16 * n + d) cs)"

definition read_auto :: "string \<Rightarrow> nat option" where
  "read_auto s = (case s of
       z # x # h # cs \<Rightarrow> if z = CHR ''0'' \<and> lower_char x = CHR ''x''
         then (if hex_value h = None then None else Some (read_hex 0 (h # cs))) else read_decimal s
     | [z, x] \<Rightarrow> if z = CHR ''0'' \<and> lower_char x = CHR ''x'' then None else read_decimal s
     | _ \<Rightarrow> read_decimal s)"

definition parseInt10 :: "string \<Rightarrow> int option" where
  "parseInt10 = read_signed read_decimal"

definition parseInt :: "string \<Rightarrow> int option" where
  "parseInt = read_signed read_auto"

definition show_number :: "int option \<Rightarrow> string" where
  "show_number v = (case v of None \<Rightarrow> ''NaN'' | Some i \<Rightarrow> show_int i)"

section \<open>Rewriting an expression\<close>

definition prependSecondExpression :: "string list \<Rightarrow> string list" where
  "prependSecondExpression es = (if length es = 5 then ''0'' # es else es)"

definition months :: "string list" where
  "months = [''january'', ''february'', ''march'', ''april'', ''may'', ''june'', ''july'', ''august'', ''september'', ''october'',
     ''november'', ''december'']"

definition shortMonths :: "string list" where
  "shortMonths = [''jan'', ''feb'', ''mar'', ''apr'', ''may'', ''jun'', ''jul'', ''aug'', ''sep'', ''oct'', ''nov'', ''dec'']"

definition weekDays :: "string list" where
  "weekDays = [''sunday'', ''monday'', ''tuesday'', ''wednesday'', ''thursday'', ''friday'', ''saturday'']"

definition shortWeekDays :: "string list" where
  "shortWeekDays = [''sun'', ''mon'', ''tue'', ''wed'', ''thu'', ''fri'', ''sat'']"

fun replace_names :: "nat \<Rightarrow> string list \<Rightarrow> string \<Rightarrow> string" where
  "replace_names i [] s = s"
| "replace_names i (w # ws) s = replace_names (Suc i) ws (replace_word w (show_nat i) s)"

definition convertMonthNameI :: "string \<Rightarrow> string list \<Rightarrow> string" where
  "convertMonthNameI expression items = replace_names 1 items expression"

definition monthNamesConversion :: "string \<Rightarrow> string" where
  "monthNamesConversion e = convertMonthNameI (convertMonthNameI e months) shortMonths"

definition convertWeekDayName :: "string \<Rightarrow> string list \<Rightarrow> string" where
  "convertWeekDayName expression items = replace_names 0 items expression"

definition weekDayNamesConversion :: "string \<Rightarrow> string" where
  "weekDayNamesConversion e = convertWeekDayName (convertWeekDayName e weekDays) shortWeekDays"

text \<open>\<open>String.replace\<close> with a string replaces the first occurrence.\<close>

fun convertAsterisk :: "string \<Rightarrow> string \<Rightarrow> string" where
  "convertAsterisk [] replacement = []"
| "convertAsterisk (c # cs) replacement =
     (if c = CHR ''*'' then replacement @ cs else c # convertAsterisk cs replacement)"

definition asterisk_ranges :: "string list" where
  "asterisk_ranges = [''0-59'', ''0-59'', ''0-23'', ''1-31'', ''1-12'', ''0-6'']"

definition convertAsterisksToRanges :: "string list \<Rightarrow> string list" where
  "convertAsterisksToRanges es = map2 convertAsterisk (take 6 es) asterisk_ranges @ drop 6 es"

text \<open>The leftmost match of \<open>/(\d+)-(\d+)/\<close>: what is before it, the two numbers, what is after it.\<close>

fun find_range :: "string \<Rightarrow> (string \<times> string \<times> string \<times> string) option" where
  "find_range [] = None"
| "find_range (c # cs) =
     (let first = takeWhile is_digit (c # cs) in
      case dropWhile is_digit (c # cs) of
        d # r \<Rightarrow>
          if first \<noteq> [] \<and> d = CHR ''-'' \<and> takeWhile is_digit r \<noteq> []
          then Some ([], first, takeWhile is_digit r, dropWhile is_digit r)
          else map_option (\<lambda>(b, m). (c # b, m)) (find_range cs)
      | [] \<Rightarrow> map_option (\<lambda>(b, m). (c # b, m)) (find_range cs))"

text \<open>The text of the leftmost match is replaced where it was found: an earlier occurrence would be an earlier match.\<close>

definition range_numbers :: "nat \<Rightarrow> nat \<Rightarrow> nat list" where
  "range_numbers init end' = [min init end' ..< Suc (max init end')]"

lemma find_range_text:
  "find_range s = Some (b, i, e, a) \<Longrightarrow> s = b @ i @ CHR ''-'' # e @ a"
  by (induction s arbitrary: b) (auto simp: Let_def split: list.splits if_splits, metis takeWhile_dropWhile_id)

lemma show_nat_no_char: "\<not> is_digit c \<Longrightarrow> c \<notin> set (show_nat n)"
  using show_nat_digits by blast

lemma count_join_show: "count_list (js_join '','' (map show_nat ns)) (CHR ''-'') = 0"
proof -
  have "CHR ''-'' \<notin> set (js_join '','' (map show_nat ns))"
    by (induction ns rule: induct_list012) (auto simp: show_nat_no_char)
  then show ?thesis by simp
qed

function convertRange :: "string \<Rightarrow> string" where
  "convertRange expression = (case find_range expression of
       None \<Rightarrow> expression
     | Some (before, i, e, after) \<Rightarrow>
         convertRange (before @ js_join '','' (map show_nat (range_numbers (read_digits i) (read_digits e))) @ after))"
  by pat_completeness auto
termination
proof (relation "measure (\<lambda>s. count_list s (CHR ''-''))", goal_cases)
  case (2 expression x2 before y i z e after)
  then have "expression = before @ i @ CHR ''-'' # e @ after" by (simp add: find_range_text)
  then show ?case by (simp add: count_join_show)
qed simp

declare convertRange.simps [simp del]

text \<open>\<open>/^(.+)\/(\w+)$/\<close>: the text up to the last slash, and a word after it.\<close>

definition split_step :: "string \<Rightarrow> (string \<times> string) option" where
  "split_step s =
     (let w = rev (takeWhile (\<lambda>c. c \<noteq> CHR ''/'') (rev s)); pre = rev (drop 1 (dropWhile (\<lambda>c. c \<noteq> CHR ''/'') (rev s))) in
      if CHR ''/'' \<in> set s \<and> w \<noteq> [] \<and> list_all is_word_char w \<and> pre \<noteq> [] \<and> CHR 0x0A \<notin> set pre \<and> CHR 0x0D \<notin> set pre
      then Some (pre, w) else None)"

text \<open>\<open>x % 0\<close> is \<open>NaN\<close>, which no remainder equals.\<close>

definition step_values :: "int \<Rightarrow> string list \<Rightarrow> string list" where
  "step_values divider values = map show_int (filter (\<lambda>v. divider \<noteq> 0 \<and> v mod divider = 0) (List.map_filter parseInt10 values))"

definition convertStep :: "string \<Rightarrow> dbos_error + string" where
  "convertStep e = (case split_step e of
       None \<Rightarrow> Inr e
     | Some (pre, w) \<Rightarrow>
         if parseInt w = None then Inl (PlainError (w @ '' is not a valid step value''))
         else Inr (js_join '','' (step_values (coalesce (parseInt10 w) 0) (js_split (CHR '','') pre))))"

fun convertSteps :: "string list \<Rightarrow> dbos_error + string list" where
  "convertSteps [] = Inr []"
| "convertSteps (e # es) = (case convertStep e of Inl err \<Rightarrow> Inl err | Inr e' \<Rightarrow> map_sum id (Cons e') (convertSteps es))"

definition normalizeInteger :: "string \<Rightarrow> string" where
  "normalizeInteger e = js_join '','' (map (\<lambda>n. show_number (parseInt n)) (js_split (CHR '','') e))"

fun keep_first :: "string set \<Rightarrow> string list \<Rightarrow> string list" where
  "keep_first seen [] = []"
| "keep_first seen (v # vs) =
     (let day = (if v = ''7'' then ''0'' else v) in
      if day \<in> seen then keep_first seen vs else day # keep_first (insert day seen) vs)"

definition convertSundaySeven :: "string list \<Rightarrow> string list" where
  "convertSundaySeven es = es[5 := js_join '','' (keep_first {} (js_split (CHR '','') (es ! 5)))]"

text \<open>With fewer than five fields \<open>expressions[4]\<close> is \<open>undefined\<close>, and calling a method of it throws.\<close>

definition convert_fields :: "string \<Rightarrow> dbos_error + string list" where
  "convert_fields crontab =
     (let es = prependSecondExpression (js_split (CHR '' '') (removeExtraSpaces crontab)) in
      if length es < 6 then Inl (PlainError ''TypeError'')
      else (let es1 = es[4 := monthNamesConversion (es ! 4), 5 := weekDayNamesConversion (es ! 5)] in
            case convertSteps (map convertRange (convertAsterisksToRanges es1)) of
              Inl e \<Rightarrow> Inl e
            | Inr es2 \<Rightarrow> Inr (convertSundaySeven (map normalizeInteger es2))))"

definition convertExpression :: "string \<Rightarrow> dbos_error + string" where
  "convertExpression crontab = map_sum id (js_join '' '') (convert_fields crontab)"

section \<open>Validation\<close>

text \<open>\<open>/^(?:\d+|\*|\*\/\d+)$/\<close>\<close>

definition validationRegex :: "string \<Rightarrow> bool" where
  "validationRegex s = ((s \<noteq> [] \<and> list_all is_digit s) \<or> s = ''*'' \<or>
     (starts_with ''*/'' s \<and> drop 2 s \<noteq> [] \<and> list_all is_digit (drop 2 s)))"

definition isValidExpression :: "string \<Rightarrow> int \<Rightarrow> int \<Rightarrow> bool" where
  "isValidExpression expression lo hi = list_all (\<lambda>opt.
     \<not> ((case parseInt10 opt of None \<Rightarrow> False | Some v \<Rightarrow> v < lo \<or> hi < v) \<or> \<not> validationRegex opt))
     (js_split (CHR '','') expression)"

definition field_bounds :: "(int \<times> int \<times> string) list" where
  "field_bounds = [(0, 59, ''second''), (0, 59, ''minute''), (0, 23, ''hour''), (1, 31, ''day of month''), (1, 12, ''month''),
     (0, 7, ''week day'')]"

fun validateFields :: "(int \<times> int \<times> string) list \<Rightarrow> string list \<Rightarrow> string list \<Rightarrow> dbos_error + unit" where
  "validateFields ((lo, hi, name) # bs) patterns (e # es) =
     (if isValidExpression e lo hi then validateFields bs (tl patterns) es
      else Inl (PlainError ((case patterns of [] \<Rightarrow> ''undefined'' | p # _ \<Rightarrow> p) @ '' is a invalid expression for '' @ name)))"
| "validateFields _ _ _ = Inr ()"

definition validateCrontab :: "string \<Rightarrow> dbos_error + string" where
  "validateCrontab pattern =
     (case convertExpression pattern of
        Inl e \<Rightarrow> Inl e
      | Inr converted \<Rightarrow>
          (let patterns = js_split (CHR '' '') pattern; executablePatterns = js_split (CHR '' '') converted in
           map_sum id (\<lambda>_. js_join '' '' executablePatterns)
             (validateFields field_bounds (if length patterns = 5 then ''0'' # patterns else patterns) executablePatterns)))"

section \<open>Matching a time\<close>

record civil_time =
  ct_second :: nat
  ct_minute :: nat
  ct_hour :: nat
  ct_day :: nat
  ct_month :: nat
  ct_weekday :: nat

definition matchPattern :: "string \<Rightarrow> nat \<Rightarrow> bool" where
  "matchPattern pattern nvalue =
     (if CHR '','' \<in> set pattern then show_nat nvalue \<in> set (js_split (CHR '','') pattern) else pattern = show_nat nvalue)"

record TimeMatcher =
  tm_expressions :: "string list"
  tm_civil :: "int \<Rightarrow> civil_time"

definition new_TimeMatcher :: "(int \<Rightarrow> civil_time) \<Rightarrow> string \<Rightarrow> dbos_error + TimeMatcher" where
  "new_TimeMatcher civil pattern =
     (case validateCrontab pattern of
        Inl e \<Rightarrow> Inl e
      | Inr _ \<Rightarrow> map_sum id (\<lambda>c. \<lparr>tm_expressions = js_split (CHR '' '') c, tm_civil = civil\<rparr>) (convertExpression pattern))"

definition runsThisDay :: "TimeMatcher \<Rightarrow> civil_time \<Rightarrow> bool" where
  "runsThisDay m t = (matchPattern (tm_expressions m ! 3) (ct_day t) \<and> matchPattern (tm_expressions m ! 4) (ct_month t) \<and>
     matchPattern (tm_expressions m ! 5) (ct_weekday t))"

definition tm_match :: "TimeMatcher \<Rightarrow> int \<Rightarrow> bool" where
  "tm_match m date = (let t = tm_civil m date in
     matchPattern (tm_expressions m ! 0) (ct_second t) \<and> matchPattern (tm_expressions m ! 1) (ct_minute t) \<and>
     matchPattern (tm_expressions m ! 2) (ct_hour t) \<and> runsThisDay m t)"

text \<open>\<open>for (let maxIters = 3600; --maxIters; ...)\<close>: 3599 rounds.\<close>

fun wakeup_loop :: "nat \<Rightarrow> TimeMatcher \<Rightarrow> int \<Rightarrow> int" where
  "wakeup_loop 0 m msec = msec"
| "wakeup_loop (Suc n) m msec = (if tm_match m (msec + 1000) then msec + 1000 else wakeup_loop n m (msec + 1000))"

definition nextWakeupTime :: "TimeMatcher \<Rightarrow> int \<Rightarrow> int" where
  "nextWakeupTime m time = wakeup_loop 3599 m time"

section \<open>The next time that matches\<close>

lemma wakeup_loop_spec:
  "0 < n \<Longrightarrow> \<exists>k. 1 \<le> k \<and> k \<le> n \<and> wakeup_loop n m t = t + 1000 * int k \<and>
    (\<forall>j. 1 \<le> j \<and> j < k \<longrightarrow> \<not> tm_match m (t + 1000 * int j)) \<and> (tm_match m (t + 1000 * int k) \<or> k = n)"
proof (induction n arbitrary: t)
  case (Suc n)
  show ?case
  proof (cases "tm_match m (t + 1000) \<or> n = 0")
    case True
    then show ?thesis by (intro exI [of _ 1]) auto
  next
    case False
    then obtain k where k: "1 \<le> k" "k \<le> n" "wakeup_loop n m (t + 1000) = t + 1000 + 1000 * int k"
      "\<forall>j. 1 \<le> j \<and> j < k \<longrightarrow> \<not> tm_match m (t + 1000 + 1000 * int j)" "tm_match m (t + 1000 + 1000 * int k) \<or> k = n"
      using Suc.IH [of "t + 1000"] by auto
    have "\<not> tm_match m (t + 1000 * int j)" if "1 \<le> j" "j < Suc k" for j
    proof (cases "j = 1")
      case True
      then show ?thesis using False by simp
    next
      case j: False
      with that have "1 \<le> j - 1" "j - 1 < k" by auto
      moreover have "t + 1000 + 1000 * int (j - 1) = t + 1000 * int j" using that(1) by (simp add: of_nat_diff algebra_simps)
      ultimately show ?thesis using k(4) by metis
    qed
    moreover have "t + 1000 + 1000 * int k = t + 1000 * int (Suc k)" by simp
    ultimately show ?thesis using False k by (intro exI [of _ "Suc k"]) (auto simp: algebra_simps)
  qed
qed simp

lemma nextWakeupTime_spec:
  obtains k where "1 \<le> k" "k \<le> 3599" "nextWakeupTime m t = t + 1000 * int k"
    "\<And>j. 1 \<le> j \<Longrightarrow> j < k \<Longrightarrow> \<not> tm_match m (t + 1000 * int j)" "tm_match m (nextWakeupTime m t) \<or> k = 3599"
  using wakeup_loop_spec [of 3599 m t] that unfolding nextWakeupTime_def by auto

section \<open>A reference semantics of cron expressions\<close>

text \<open>A field is a list of items, with an optional step that applies to all of them.\<close>

datatype cron_item = Star | Num nat | Range nat nat
type_synonym cron_field = "cron_item list \<times> nat option"

fun show_item :: "cron_item \<Rightarrow> string" where
  "show_item Star = ''*''"
| "show_item (Num n) = show_nat n"
| "show_item (Range a b) = show_nat a @ CHR ''-'' # show_nat b"

definition show_step :: "nat option \<Rightarrow> string" where
  "show_step step = (case step of None \<Rightarrow> [] | Some d \<Rightarrow> CHR ''/'' # show_nat d)"

definition show_field :: "cron_field \<Rightarrow> string" where
  "show_field f = js_join '','' (map show_item (fst f)) @ show_step (snd f)"

text \<open>What an item, a field and the field at a position of an expression allow; a week day 7 stands for 0.\<close>

fun item_allows :: "nat \<Rightarrow> nat \<Rightarrow> cron_item \<Rightarrow> nat \<Rightarrow> bool" where
  "item_allows lo hi Star v = (lo \<le> v \<and> v \<le> hi)"
| "item_allows lo hi (Num n) v = (v = n)"
| "item_allows lo hi (Range a b) v = (min a b \<le> v \<and> v \<le> max a b)"

definition field_allows :: "nat \<Rightarrow> nat \<Rightarrow> cron_field \<Rightarrow> nat \<Rightarrow> bool" where
  "field_allows lo hi f v = ((\<exists>i\<in>set (fst f). item_allows lo hi i v) \<and> (case snd f of None \<Rightarrow> True | Some d \<Rightarrow> v mod d = 0))"

fun item_values :: "nat \<Rightarrow> nat \<Rightarrow> cron_item \<Rightarrow> nat list" where
  "item_values lo hi Star = [lo ..< Suc hi]"
| "item_values lo hi (Num n) = [n]"
| "item_values lo hi (Range a b) = range_numbers a b"

definition field_values :: "nat \<Rightarrow> nat \<Rightarrow> cron_field \<Rightarrow> nat list" where
  "field_values lo hi f = filter (\<lambda>v. case snd f of None \<Rightarrow> True | Some d \<Rightarrow> v mod d = 0) (concat (map (item_values lo hi) (fst f)))"

text \<open>One asterisk at most: only the first one is expanded.\<close>

definition field_ok :: "cron_field \<Rightarrow> bool" where
  "field_ok f = (fst f \<noteq> [] \<and> length (filter (\<lambda>i. i = Star) (fst f)) \<le> 1 \<and> snd f \<noteq> Some 0)"

subsection \<open>Characters of a field\<close>

definition cron_char :: "char \<Rightarrow> bool" where
  "cron_char c = (is_digit c \<or> c = CHR ''*'' \<or> c = CHR ''-'' \<or> c = CHR '','' \<or> c = CHR ''/'')"

lemma show_nat_cron: "c \<in> set (show_nat n) \<Longrightarrow> cron_char c"
  by (simp add: cron_char_def show_nat_digits)

lemma set_join: "c \<in> set (js_join sep ws) \<Longrightarrow> c \<in> set sep \<or> (\<exists>w\<in>set ws. c \<in> set w)"
  by (induction sep ws rule: js_join.induct) auto

lemma show_field_cron: "c \<in> set (show_field f) \<Longrightarrow> cron_char c"
proof -
  have item: "c \<in> set (show_item i) \<Longrightarrow> cron_char c" for i
    by (cases i) (auto simp: show_nat_cron cron_char_def [of "CHR ''*''"] cron_char_def [of "CHR ''-''"])
  show "c \<in> set (show_field f) \<Longrightarrow> cron_char c"
    by (auto simp: show_field_def show_step_def show_nat_cron cron_char_def [of "CHR ''/''"] cron_char_def [of "CHR '',''"] item
        dest!: set_join split: option.splits)
qed

lemma show_field_not_Nil: "field_ok f \<Longrightarrow> show_field f \<noteq> []"
proof -
  have item: "show_item i \<noteq> []" for i by (cases i) simp_all
  show "field_ok f \<Longrightarrow> show_field f \<noteq> []"
    by (cases "fst f"; cases "tl (fst f)") (auto simp: show_field_def field_ok_def item)
qed

lemma digit_code: "is_digit c \<Longrightarrow> c = digit_char (digit_value c) \<and> digit_value c < 10"
  by (auto simp: is_digit_def digit_char_def digit_value_def)

lemma cron_char_lower: "cron_char c \<Longrightarrow> lower_char c = c"
  by (auto simp: cron_char_def lower_char_def is_digit_def)

lemma cron_char_not_space: "cron_char c \<Longrightarrow> \<not> is_js_space c"
  by (auto simp: cron_char_def is_js_space_def is_digit_def Let_def)

lemma cron_char_not_letter: "cron_char c \<Longrightarrow> (of_char c :: nat) < 97"
  by (auto simp: cron_char_def is_digit_def)

subsection \<open>Names are left alone\<close>

lemma replace_word_none:
  assumes "\<forall>c\<in>set s. lower_char c \<noteq> hd w"
  shows "replace_word w r s = s"
  using assms
proof (induction w r s rule: replace_word.induct)
  case (2 w r c cs)
  have "\<not> (w \<noteq> [] \<and> to_lower (take (length w) (c # cs)) = w)"
    using "2.prems" by (cases w) (auto simp: to_lower_def)
  moreover from this have "replace_word w r (c # cs) = c # replace_word w r cs"
    by (subst replace_word.simps) (rule if_not_P)
  ultimately show ?case using 2 by simp
qed simp

lemma replace_names_none:
  "\<forall>c\<in>set s. cron_char c \<Longrightarrow> \<forall>w\<in>set ws. 97 \<le> (of_char (hd w) :: nat) \<Longrightarrow> replace_names i ws s = s"
proof (induction ws arbitrary: i)
  case (Cons w ws)
  have "\<forall>c\<in>set s. lower_char c \<noteq> hd w"
    using Cons.prems cron_char_lower cron_char_not_letter by (metis leD list.set_intros(1))
  then show ?case using Cons by (simp add: replace_word_none)
qed simp

lemma names_none:
  assumes "\<forall>c\<in>set s. cron_char c"
  shows "monthNamesConversion s = s" and "weekDayNamesConversion s = s"
proof -
  have "\<forall>w\<in>set ws. 97 \<le> (of_char (hd w) :: nat)" if "ws \<in> {months, shortMonths, weekDays, shortWeekDays}" for ws
    using that by (auto simp: months_def shortMonths_def weekDays_def shortWeekDays_def)
  note none = replace_names_none [OF assms this]
  show "monthNamesConversion s = s" by (simp add: monthNamesConversion_def convertMonthNameI_def none)
  show "weekDayNamesConversion s = s" by (simp add: weekDayNamesConversion_def convertWeekDayName_def none)
qed

subsection \<open>Asterisks\<close>

lemma js_join_middle:
  "js_join sep (xs @ y # ys) = concat (map (\<lambda>w. w @ sep) xs) @ y @ concat (map (\<lambda>w. sep @ w) ys)"
proof -
  have right: "js_join sep (y # ys) = y @ concat (map (\<lambda>w. sep @ w) ys)" for y
    by (induction ys arbitrary: y) auto
  show ?thesis
  proof (induction xs)
    case (Cons x xs)
    then show ?case by (cases xs) (simp_all add: right)
  qed (simp add: right)
qed

definition fill :: "nat \<Rightarrow> nat \<Rightarrow> cron_item \<Rightarrow> cron_item" where
  "fill lo hi i = (if i = Star then Range lo hi else i)"

lemma no_star_id: "CHR ''*'' \<notin> set s \<Longrightarrow> convertAsterisk s r = s"
  by (induction s) auto

lemma first_star: "CHR ''*'' \<notin> set a \<Longrightarrow> convertAsterisk (a @ CHR ''*'' # b) r = a @ r @ b"
  by (induction a) auto

lemma show_item_no_star: "i \<noteq> Star \<Longrightarrow> CHR ''*'' \<notin> set (show_item i)"
  by (cases i) (auto simp: show_nat_no_char is_digit_def)

lemma show_step_chars: "c \<in> set (show_step step) \<Longrightarrow> is_digit c \<or> c = CHR ''/''"
  by (auto simp: show_step_def show_nat_digits split: option.splits)

lemma fill_none: "\<forall>i\<in>set is. i \<noteq> Star \<Longrightarrow> map (fill lo hi) is = is"
  by (simp add: fill_def map_idI)

lemma asterisk_field:
  assumes "field_ok f"
  shows "convertAsterisk (show_field f) (show_item (Range lo hi)) = show_field (map (fill lo hi) (fst f), snd f)"
proof -
  have suf: "CHR ''*'' \<notin> set (show_step (snd f))" using show_step_chars by (force simp: is_digit_def)
  have clean: "CHR ''*'' \<notin> set (concat (map (\<lambda>w. w @ '','') (map show_item xs)))" "CHR ''*'' \<notin> set (js_join '','' (map show_item xs))"
    if "\<forall>i\<in>set xs. i \<noteq> Star" for xs
    using that show_item_no_star by (auto dest!: set_join)
  show ?thesis
  proof (cases "Star \<in> set (fst f)")
    case False
    then have "\<forall>i\<in>set (fst f). i \<noteq> Star" by blast
    with clean suf show ?thesis by (simp add: show_field_def no_star_id fill_none)
  next
    case True
    then obtain xs ys where f: "fst f = xs @ Star # ys" "Star \<notin> set xs" by (metis split_list_first)
    then have "length (filter (\<lambda>i. i = Star) ys) = 0" using assms by (simp add: field_ok_def)
    then have no: "\<forall>i\<in>set xs. i \<noteq> Star" "\<forall>i\<in>set ys. i \<noteq> Star" using f(2) by (auto simp: filter_empty_conv)
    have "convertAsterisk (show_field f) (show_item (Range lo hi)) =
        concat (map (\<lambda>w. w @ '','') (map show_item xs)) @ show_item (Range lo hi) @
        concat (map (\<lambda>w. '','' @ w) (map show_item ys)) @ show_step (snd f)"
      using first_star [OF clean(1) [OF no(1)]] by (simp add: show_field_def f(1) js_join_middle)
    also have "\<dots> = show_field (map (fill lo hi) (fst f), snd f)"
      using no by (simp add: show_field_def f(1) js_join_middle fill_none) (simp add: fill_def)
    finally show ?thesis .
  qed
qed

subsection \<open>Ranges\<close>

definition no_range_start :: "string \<Rightarrow> bool" where
  "no_range_start r = (case r of [] \<Rightarrow> True | c # _ \<Rightarrow> \<not> is_digit c \<and> c \<noteq> CHR ''-'')"

lemma takeWhile_digits: "list_all is_digit ds \<Longrightarrow> takeWhile is_digit (ds @ r) = ds @ takeWhile is_digit r"
  and dropWhile_digits: "list_all is_digit ds \<Longrightarrow> dropWhile is_digit (ds @ r) = dropWhile is_digit r"
  by (induction ds) auto

lemma stops: "no_range_start r \<Longrightarrow> takeWhile is_digit r = [] \<and> dropWhile is_digit r = r"
  by (cases r) (auto simp: no_range_start_def)

lemma find_range_digits:
  "list_all is_digit ds \<Longrightarrow> no_range_start r \<Longrightarrow> find_range (ds @ r) = map_option (\<lambda>(b, m). (ds @ b, m)) (find_range r)"
proof (induction ds)
  case (Cons d ds)
  then have "takeWhile is_digit ((d # ds) @ r) = d # ds" "dropWhile is_digit ((d # ds) @ r) = r"
    using takeWhile_digits [of "d # ds" r] dropWhile_digits [of "d # ds" r] stops [of r] by auto
  moreover have "find_range (ds @ r) = map_option (\<lambda>(b, m). (ds @ b, m)) (find_range r)" using Cons by simp
  ultimately show ?case
    using Cons.prems(2) by (auto simp: no_range_start_def option.map_comp comp_def case_prod_unfold split: list.splits)
qed (simp add: option.map_ident case_prod_unfold)

lemma find_range_other: "\<not> is_digit c \<Longrightarrow> find_range (c # r) = map_option (\<lambda>(b, m). (c # b, m)) (find_range r)"
  by simp

lemma digits_show_nat [simp]: "list_all is_digit (show_nat n)"
  by (auto simp: list_all_iff show_nat_digits)

lemma find_range_here:
  assumes "takeWhile is_digit r = []"
  shows "find_range (show_nat a @ CHR ''-'' # show_nat b @ r) = Some ([], show_nat a, show_nat b, r)"
proof -
  obtain c cs where a: "show_nat a = c # cs" by (cases "show_nat a") auto
  have "dropWhile is_digit r = r" using assms by (cases r) (auto split: if_splits)
  then have "takeWhile is_digit (show_nat b @ r) = show_nat b" "dropWhile is_digit (show_nat b @ r) = r"
    "takeWhile is_digit (show_nat a @ CHR ''-'' # show_nat b @ r) = show_nat a"
    "dropWhile is_digit (show_nat a @ CHR ''-'' # show_nat b @ r) = CHR ''-'' # show_nat b @ r"
    using takeWhile_digits [OF digits_show_nat [of b], of r] dropWhile_digits [OF digits_show_nat [of b], of r] assms
      takeWhile_digits [OF digits_show_nat [of a]] dropWhile_digits [OF digits_show_nat [of a]] by simp_all
  then show ?thesis unfolding a append_Cons by (subst find_range.simps) (simp add: a)
qed

lemma find_range_nums:
  "find_range (concat (map (\<lambda>w. w @ '','') (map show_nat ns)) @ r) =
    map_option (\<lambda>(b, m). (concat (map (\<lambda>w. w @ '','') (map show_nat ns)) @ b, m)) (find_range r)"
proof (induction ns)
  case (Cons n ns)
  let ?rest = "concat (map (\<lambda>w. w @ '','') (map show_nat ns)) @ r"
  have comma: "\<not> is_digit (CHR '','')" by (simp add: is_digit_def)
  then have "no_range_start (CHR '','' # ?rest)" by (simp add: no_range_start_def)
  from find_range_digits [OF digits_show_nat this] find_range_other [OF comma] Cons.IH show ?case
    by (simp add: option.map_comp comp_def case_prod_unfold)
qed (simp add: option.map_ident case_prod_unfold)

lemma find_range_none: "CHR ''-'' \<notin> set s \<Longrightarrow> find_range s = None"
  using find_range_text by (cases "find_range s") fastforce+

lemma convertRange_none: "CHR ''-'' \<notin> set s \<Longrightarrow> convertRange s = s"
  by (subst convertRange.simps) (simp add: find_range_none)

definition is_range :: "cron_item \<Rightarrow> bool" where
  "is_range i = (case i of Range a b \<Rightarrow> True | _ \<Rightarrow> False)"

lemma range_numbers_not_Nil [simp]: "range_numbers a b \<noteq> []"
  by (simp add: range_numbers_def)

lemma concat_values_Num [simp]:
  "concat (map (item_values lo hi) (map Num ns)) = ns" "concat (map (item_values lo hi \<circ> Num) ns) = ns"
  by (induction ns) auto

lemma all_nums: "\<forall>i\<in>set is. i \<noteq> Star \<and> \<not> is_range i \<Longrightarrow> is = map Num (concat (map (item_values lo hi) is))"
proof (induction "is")
  case (Cons i "is")
  then show ?case by (cases i) (auto simp: is_range_def)
qed simp

lemma show_Nums: "map show_item (map Num ns) = map show_nat ns"
  by simp

lemma step_start: "takeWhile is_digit (concat (map (\<lambda>w. '','' @ w) ws) @ show_step step) = []"
  by (cases ws) (auto simp: show_step_def is_digit_def split: option.splits)

lemma range_items:
  "\<forall>i\<in>set is. i \<noteq> Star \<Longrightarrow> is \<noteq> [] \<Longrightarrow>
    convertRange (js_join '','' (map show_item is) @ show_step step) =
      js_join '','' (map show_nat (concat (map (item_values lo hi) is))) @ show_step step"
proof (induction "length (filter is_range is)" arbitrary: "is" rule: less_induct)
  case less
  have nodash: "CHR ''-'' \<notin> set (show_step step)" using show_step_chars by (force simp: is_digit_def)
  show ?case
  proof (cases "\<exists>i\<in>set is. is_range i")
    case False
    then obtain ns where ns: "is = map Num ns" using all_nums [of "is" lo hi] less.prems(1) by blast
    have "CHR ''-'' \<notin> set (js_join '','' (map show_nat ns))" by (auto dest!: set_join simp: show_nat_no_char)
    with nodash have "convertRange (js_join '','' (map show_nat ns) @ show_step step) = js_join '','' (map show_nat ns) @ show_step step"
      by (intro convertRange_none) simp
    then show ?thesis by (simp add: ns comp_def)
  next
    case True
    then obtain xs i ys where split: "is = xs @ i # ys" "is_range i" "\<forall>x\<in>set xs. \<not> is_range x"
      using split_list_first_prop [of "is" is_range] by blast
    then obtain a b where i: "i = Range a b" by (auto simp: is_range_def split: cron_item.splits)
    obtain ns where xs: "xs = map Num ns" using all_nums [of xs lo hi] less.prems(1) split by auto
    let ?pre = "concat (map (\<lambda>w. w @ '','') (map show_nat ns))"
    let ?post = "concat (map (\<lambda>w. '','' @ w) (map show_item ys)) @ show_step step"
    let ?items = "xs @ map Num (range_numbers a b) @ ys"
    have shown: "js_join '','' (map show_item is) @ show_step step = ?pre @ show_nat a @ CHR ''-'' # show_nat b @ ?post"
      by (simp add: split(1) i js_join_middle xs comp_def)
    have "find_range (js_join '','' (map show_item is) @ show_step step) = Some (?pre, show_nat a, show_nat b, ?post)"
      unfolding shown find_range_nums find_range_here [OF step_start] by (simp add: comp_def)
    then have "convertRange (js_join '','' (map show_item is) @ show_step step) =
        convertRange (?pre @ js_join '','' (map show_nat (range_numbers a b)) @ ?post)"
      by (subst convertRange.simps) (simp add: comp_def)
    also have "?pre @ js_join '','' (map show_nat (range_numbers a b)) @ ?post = js_join '','' (map show_item ?items) @ show_step step"
    proof -
      obtain z zs where z: "range_numbers a b = z # zs" by (cases "range_numbers a b") auto
      have "js_join '','' (map show_item ?items) = ?pre @ show_nat z @ concat (map (\<lambda>w. '','' @ w) (map show_nat zs @ map show_item ys))"
        using js_join_middle [of "'',''" "map show_nat ns" "show_nat z" "map show_nat zs @ map show_item ys"]
        by (simp add: xs z comp_def)
      moreover have "js_join '','' (map show_nat (range_numbers a b)) = show_nat z @ concat (map (\<lambda>w. '','' @ w) (map show_nat zs))"
        using js_join_middle [of "'',''" "[]" "show_nat z" "map show_nat zs"] by (simp add: z)
      ultimately show ?thesis by simp
    qed
    also have "convertRange (js_join '','' (map show_item ?items) @ show_step step) =
        js_join '','' (map show_nat (concat (map (item_values lo hi) ?items))) @ show_step step"
    proof (rule less.hyps)
      have "filter is_range (map Num ms) = []" for ms by (induction ms) (auto simp: is_range_def)
      then show "length (filter is_range ?items) < length (filter is_range is)" using split by simp
    qed (use less.prems split in auto)
    also have "concat (map (item_values lo hi) ?items) = concat (map (item_values lo hi) is)"
      by (simp add: split(1) i)
    finally show ?thesis .
  qed
qed

subsection \<open>Steps and numbers\<close>

lemma digit_not_sign: "is_digit c \<Longrightarrow> c \<noteq> CHR ''-'' \<and> c \<noteq> CHR ''+''"
  by (auto simp: is_digit_def)

lemma read_signed_show:
  assumes "rd (show_nat n) = Some n"
  shows "read_signed rd (show_nat n) = Some (int n)"
proof -
  obtain c cs where c: "show_nat n = c # cs" by (cases "show_nat n") auto
  then have d: "is_digit c" using show_nat_digits [of c n] by simp
  then have "\<not> is_js_space c" using cron_char_not_space by (simp add: cron_char_def)
  then show ?thesis using assms digit_not_sign [OF d] by (simp add: read_signed_def c)
qed

lemma read_decimal_show: "read_decimal (show_nat n) = Some n"
proof -
  have "takeWhile is_digit (show_nat n) = show_nat n" by (simp add: takeWhile_eq_all_conv show_nat_digits)
  then show ?thesis unfolding read_decimal_def Let_def by (simp only: show_nat_not_Nil if_False read_show_nat)
qed

lemma read_auto_show: "read_auto (show_nat n) = Some n"
proof -
  have "lower_char x \<noteq> CHR ''x''" if "is_digit x" for x
    using that cron_char_lower [of x] by (auto simp: cron_char_def is_digit_def)
  then have "\<forall>x\<in>set (show_nat n). lower_char x \<noteq> CHR ''x''" using show_nat_digits by blast
  then have "read_auto (show_nat n) = read_decimal (show_nat n)"
    by (auto simp: read_auto_def split: list.splits)
  then show ?thesis by (simp add: read_decimal_show)
qed

lemma parseInt_show [simp]: "parseInt (show_nat n) = Some (int n)" "parseInt10 (show_nat n) = Some (int n)"
  by (simp_all add: parseInt_def parseInt10_def read_signed_show read_auto_show read_decimal_show)

lemma split_join_show [simp]: "ns \<noteq> [] \<Longrightarrow> js_split (CHR '','') (js_join '','' (map show_nat ns)) = map show_nat ns"
  by (rule js_split_join) (auto simp: show_nat_no_char is_digit_def)

lemma join_show_chars: "c \<in> set (js_join '','' (map show_nat ns)) \<Longrightarrow> is_digit c \<or> c = CHR '',''"
  by (auto dest!: set_join simp: show_nat_digits)

lemma split_step_show:
  assumes "ns \<noteq> []"
  shows "split_step (js_join '','' (map show_nat ns) @ show_step step) =
    map_option (\<lambda>d. (js_join '','' (map show_nat ns), show_nat d)) step"
proof (cases step)
  case None
  have "CHR ''/'' \<notin> set (js_join '','' (map show_nat ns))" using join_show_chars by (force simp: is_digit_def)
  with None show ?thesis by (simp add: split_step_def show_step_def)
next
  case (Some d)
  let ?j = "js_join '','' (map show_nat ns)"
  have slash: "CHR ''/'' \<notin> set (show_nat d)" by (simp add: show_nat_no_char is_digit_def)
  then have tw: "takeWhile (\<lambda>c. c \<noteq> CHR ''/'') (rev (show_nat d) @ CHR ''/'' # rev ?j) = rev (show_nat d)"
    and dw: "dropWhile (\<lambda>c. c \<noteq> CHR ''/'') (rev (show_nat d) @ CHR ''/'' # rev ?j) = CHR ''/'' # rev ?j"
    by (subst takeWhile_append2 dropWhile_append2; force)+
  have "?j \<noteq> []" using assms by (cases ns; cases "tl ns") auto
  moreover have "list_all is_word_char (show_nat d)" using show_nat_digits by (auto simp: list_all_iff is_word_char_def)
  moreover have "CHR 0x0A \<notin> set ?j" "CHR 0x0D \<notin> set ?j" using join_show_chars by (force simp: is_digit_def)+
  ultimately show ?thesis using tw dw Some by (simp add: split_step_def show_step_def Let_def)
qed

lemma fill_values: "lo \<le> hi \<Longrightarrow> concat (map (item_values lo hi) (map (fill lo hi) is)) = concat (map (item_values lo hi) is)"
  by (induction "is") (auto simp: fill_def range_numbers_def)

lemma concat_values_not_Nil:
  assumes "lo \<le> hi" and "is \<noteq> []"
  shows "concat (map (item_values lo hi) is) \<noteq> []"
proof -
  have "item_values lo hi i \<noteq> []" for i using assms(1) by (cases i) auto
  with assms(2) show ?thesis by (cases "is") auto
qed

lemma convert_field:
  assumes "field_ok f" and "lo \<le> hi"
  shows "convertStep (convertRange (convertAsterisk (show_field f) (show_item (Range lo hi)))) =
    Inr (js_join '','' (map show_nat (field_values lo hi f)))"
proof -
  let ?vs = "concat (map (item_values lo hi) (fst f))"
  have ne: "?vs \<noteq> []" using assms by (intro concat_values_not_Nil) (auto simp: field_ok_def)
  have "\<forall>i\<in>set (map (fill lo hi) (fst f)). i \<noteq> Star" by (auto simp: fill_def)
  then have "convertRange (convertAsterisk (show_field f) (show_item (Range lo hi))) = js_join '','' (map show_nat ?vs) @ show_step (snd f)"
    using range_items [of "map (fill lo hi) (fst f)" "snd f" lo hi] assms
    unfolding asterisk_field [OF assms(1)] fill_values [OF assms(2)] by (simp add: show_field_def field_ok_def)
  moreover have "convertStep (js_join '','' (map show_nat ?vs) @ show_step (snd f)) = Inr (js_join '','' (map show_nat (field_values lo hi f)))"
  proof (cases "snd f")
    case None
    then show ?thesis using split_step_show [OF ne, of None] by (simp add: convertStep_def show_step_def field_values_def)
  next
    case (Some d)
    have d: "d \<noteq> 0" using assms(1) Some by (auto simp: field_ok_def)
    have "List.map_filter parseInt10 (map show_nat ?vs) = map int ?vs"
      unfolding List.map_filter_def by (induction ?vs) simp_all
    then have "step_values (int d) (map show_nat ?vs) = map show_int (filter (\<lambda>v. v mod int d = 0) (map int ?vs))"
      using d by (simp add: step_values_def)
    also have "\<dots> = map show_nat (filter (\<lambda>v. v mod d = 0) ?vs)"
      using d by (simp add: filter_map comp_def show_int_def flip: zmod_int)
    finally show ?thesis
      using split_step_show [OF ne, of "Some d"] ne Some by (simp add: convertStep_def field_values_def)
  qed
  ultimately show ?thesis by simp
qed

subsection \<open>Matching and validation\<close>

definition number_list :: "nat list \<Rightarrow> string" where
  "number_list vs = (if vs = [] then ''NaN'' else js_join '','' (map show_nat vs))"

lemma parseInt_empty [simp]: "parseInt [] = None"
  by (simp add: parseInt_def read_signed_def)

lemma normalize_numbers: "normalizeInteger (js_join '','' (map show_nat vs)) = number_list vs"
  by (cases "vs = []") (simp_all add: normalizeInteger_def number_list_def comp_def show_number_def show_int_def)

lemma matchPattern_split: "matchPattern p v = (show_nat v \<in> set (js_split (CHR '','') p))"
  by (auto simp: matchPattern_def js_split_word)

lemma N_not_digit: "''NaN'' \<noteq> show_nat v"
proof
  assume "''NaN'' = show_nat v"
  then have "CHR ''N'' \<in> set (show_nat v)" by (metis list.set_intros(1))
  then show False using show_nat_digits [of "CHR ''N''" v] by (simp add: is_digit_def)
qed

lemma split_number_list: "js_split (CHR '','') (number_list vs) = (if vs = [] then [''NaN''] else map show_nat vs)"
  by (simp add: number_list_def)

lemma match_numbers: "matchPattern (number_list vs) v = (v \<in> set vs)"
  using N_not_digit [of v] by (auto simp: matchPattern_split split_number_list)

lemma valid_numbers: "isValidExpression (number_list vs) lo hi = (vs \<noteq> [] \<and> (\<forall>v\<in>set vs. lo \<le> int v \<and> int v \<le> hi))"
proof -
  have "\<not> validationRegex ''NaN''" by (simp add: validationRegex_def is_digit_def)
  moreover have "validationRegex (show_nat v)" for v by (simp add: validationRegex_def)
  ultimately show ?thesis by (auto simp: isValidExpression_def split_number_list list_all_iff)
qed

text \<open>Sunday is 0 and 7.\<close>

definition fold_sunday :: "nat \<Rightarrow> nat" where
  "fold_sunday v = (if v = 7 then 0 else v)"

lemma show_7: "(show_nat v = ''7'') = (v = 7)" "show_nat 0 = ''0''" "show_nat 7 = ''7''"
proof -
  show "show_nat 0 = ''0''" "show_nat 7 = ''7''" by code_simp+
  then show "(show_nat v = ''7'') = (v = 7)" by (metis show_nat_inj)
qed

fun keep_first_numbers :: "nat set \<Rightarrow> nat list \<Rightarrow> nat list" where
  "keep_first_numbers seen [] = []"
| "keep_first_numbers seen (v # vs) =
     (if fold_sunday v \<in> seen then keep_first_numbers seen vs
      else fold_sunday v # keep_first_numbers (insert (fold_sunday v) seen) vs)"

lemma keep_first_show: "keep_first (show_nat ` seen) (map show_nat vs) = map show_nat (keep_first_numbers seen vs)"
proof (induction vs arbitrary: seen)
  case (Cons v vs)
  have "(if show_nat v = ''7'' then ''0'' else show_nat v) = show_nat (fold_sunday v)" by (simp add: fold_sunday_def show_7)
  moreover have "(show_nat (fold_sunday v) \<in> show_nat ` seen) = (fold_sunday v \<in> seen)" by auto
  moreover have "insert (show_nat (fold_sunday v)) (show_nat ` seen) = show_nat ` insert (fold_sunday v) seen" by simp
  ultimately show ?case using Cons.IH by (simp add: Let_def del: image_insert)
qed simp

lemma set_keep_first: "set (keep_first_numbers seen vs) = fold_sunday ` set vs - seen"
  by (induction vs arbitrary: seen) auto

lemma sunday_numbers:
  "js_join '','' (keep_first {} (js_split (CHR '','') (number_list vs))) = number_list (keep_first_numbers {} vs)"
proof (cases "vs = []")
  case False
  then have "keep_first_numbers {} vs \<noteq> []" by (cases vs) auto
  with False show ?thesis using keep_first_show [of "{}" vs] by (simp add: split_number_list) (simp add: number_list_def)
qed (simp add: number_list_def)

section \<open>A whole expression\<close>

definition star_bounds :: "(nat \<times> nat) list" where
  "star_bounds = [(0, 59), (0, 59), (0, 23), (1, 31), (1, 12), (0, 6)]"

definition cron_pattern :: "cron_field list \<Rightarrow> string" where
  "cron_pattern fs = js_join '' '' (map show_field fs)"

text \<open>Five fields have the seconds 0; in the week day field 7 is 0.\<close>

definition full_fields :: "cron_field list \<Rightarrow> cron_field list" where
  "full_fields fs = (if length fs = 5 then ([Num 0], None) # fs else fs)"

definition cron_allows :: "cron_field list \<Rightarrow> nat \<Rightarrow> nat \<Rightarrow> bool" where
  "cron_allows fs i v = (let allows = field_allows (fst (star_bounds ! i)) (snd (star_bounds ! i)) (full_fields fs ! i) in
     if i = 5 then (v \<noteq> 7 \<and> allows v) \<or> (v = 0 \<and> allows 7) else allows v)"

definition civil_values :: "civil_time \<Rightarrow> nat list" where
  "civil_values t = [ct_second t, ct_minute t, ct_hour t, ct_day t, ct_month t, ct_weekday t]"

definition cron_values :: "cron_field list \<Rightarrow> nat \<Rightarrow> nat list" where
  "cron_values fs i = (let vs = field_values (fst (star_bounds ! i)) (snd (star_bounds ! i)) (full_fields fs ! i) in
     if i = 5 then keep_first_numbers {} vs else vs)"

definition fields_in_bounds :: "cron_field list \<Rightarrow> bool" where
  "fields_in_bounds fs = (\<forall>i<6. cron_values fs i \<noteq> [] \<and>
     (\<forall>v\<in>set (cron_values fs i). fst (field_bounds ! i) \<le> int v \<and> int v \<le> fst (snd (field_bounds ! i))))"

lemma asterisk_ranges_show: "asterisk_ranges = map (\<lambda>(lo, hi). show_item (Range lo hi)) star_bounds"
  by code_simp

lemma collapse_word: "\<forall>c\<in>set w. \<not> is_js_space c \<Longrightarrow> collapse_spaces (w @ r) = w @ collapse_spaces r"
  by (induction w) auto

lemma collapse_join:
  "\<forall>w\<in>set ws. w \<noteq> [] \<and> (\<forall>c\<in>set w. \<not> is_js_space c) \<Longrightarrow> collapse_spaces (js_join '' '' ws) = js_join '' '' ws"
proof (induction ws rule: induct_list012)
  case (2 w)
  then show ?case using collapse_word [of w "[]"] by simp
next
  case (3 w v ws)
  obtain c cs where v: "v = c # cs" "\<not> is_js_space c" using "3.prems" by (cases v) auto
  have "\<exists>r. js_join '' '' (v # ws) = c # r" by (cases ws) (auto simp: v)
  then have "takeWhile is_js_space (js_join '' '' (v # ws)) = []" using v(2) by auto
  moreover have "collapse_spaces (js_join '' '' (v # ws)) = js_join '' '' (v # ws)" using 3 by simp
  ultimately show ?case using "3.prems" by (simp add: collapse_word)
qed simp

lemma trim_id: "s = [] \<or> \<not> is_js_space (hd s) \<and> \<not> is_js_space (last s) \<Longrightarrow> js_trim s = s"
proof -
  have drop: "dropWhile P r = r" if "r = [] \<or> \<not> P (hd r)" for P and r :: string using that by (cases r) auto
  assume "s = [] \<or> \<not> is_js_space (hd s) \<and> \<not> is_js_space (last s)"
  then have "dropWhile is_js_space s = s" "dropWhile is_js_space (rev s) = rev s" by (auto intro!: drop simp: hd_rev)
  then show ?thesis by (simp add: js_trim_def)
qed

lemma join_ends:
  "ws \<noteq> [] \<Longrightarrow> \<forall>w\<in>set ws. w \<noteq> [] \<and> (\<forall>c\<in>set w. \<not> is_js_space c) \<Longrightarrow>
    js_join '' '' ws \<noteq> [] \<and> \<not> is_js_space (hd (js_join '' '' ws)) \<and> \<not> is_js_space (last (js_join '' '' ws))"
  by (induction ws rule: induct_list012) auto

lemma split_pattern:
  assumes "fs \<noteq> []" and "\<forall>f\<in>set fs. field_ok f"
  shows "js_split (CHR '' '') (removeExtraSpaces (cron_pattern fs)) = map show_field fs"
proof -
  have ws: "\<forall>w\<in>set (map show_field fs). w \<noteq> [] \<and> (\<forall>c\<in>set w. \<not> is_js_space c)"
    using assms(2) show_field_not_Nil show_field_cron cron_char_not_space by fastforce
  then have "removeExtraSpaces (cron_pattern fs) = cron_pattern fs"
    using join_ends [of "map show_field fs"] assms(1)
    by (simp add: removeExtraSpaces_def cron_pattern_def collapse_join trim_id)
  moreover have "CHR '' '' \<notin> set (show_field f)" for f
    using show_field_cron [of "CHR '' ''" f] by (auto simp: cron_char_def is_digit_def)
  ultimately show ?thesis using assms(1) by (simp add: cron_pattern_def js_split_join)
qed

lemma convert_pattern:
  assumes "length fs = 5 \<or> length fs = 6" and "\<forall>f\<in>set fs. field_ok f"
  shows "convert_fields (cron_pattern fs) = Inr (map (\<lambda>i. number_list (cron_values fs i)) [0..<6])"
proof -
  have "length (full_fields fs) = 6" using assms(1) by (auto simp: full_fields_def)
  then obtain f0 f1 f2 f3 f4 f5 where F: "full_fields fs = [f0, f1, f2, f3, f4, f5]"
    by (auto simp: length_Suc_conv numeral_eq_Suc)
  have "\<forall>f\<in>set (full_fields fs). field_ok f" using assms(2) by (simp add: full_fields_def) (simp add: field_ok_def)
  then have ok: "field_ok f0" "field_ok f1" "field_ok f2" "field_ok f3" "field_ok f4" "field_ok f5" by (simp_all add: F)
  have "show_field ([Num 0], None) = ''0''" by (simp add: show_field_def show_step_def show_7)
  then have pre: "prependSecondExpression (map show_field fs) = map show_field (full_fields fs)"
    by (simp add: prependSecondExpression_def full_fields_def)
  have names: "monthNamesConversion (show_field f) = show_field f" "weekDayNamesConversion (show_field f) = show_field f" for f
    using names_none show_field_cron by blast+
  have "fs \<noteq> []" using assms(1) by auto
  then have split: "prependSecondExpression (js_split (CHR '' '') (removeExtraSpaces (cron_pattern fs))) =
      map show_field [f0, f1, f2, f3, f4, f5]"
    using split_pattern [OF _ assms(2)] pre F by simp
  have ranges: "convertAsterisksToRanges (map show_field [f0, f1, f2, f3, f4, f5]) =
      [convertAsterisk (show_field f0) (show_item (Range 0 59)), convertAsterisk (show_field f1) (show_item (Range 0 59)),
       convertAsterisk (show_field f2) (show_item (Range 0 23)), convertAsterisk (show_field f3) (show_item (Range 1 31)),
       convertAsterisk (show_field f4) (show_item (Range 1 12)), convertAsterisk (show_field f5) (show_item (Range 0 6))]"
    by (simp add: convertAsterisksToRanges_def asterisk_ranges_show star_bounds_def)
  have steps: "convertSteps (map convertRange (convertAsterisksToRanges (map show_field [f0, f1, f2, f3, f4, f5]))) =
      Inr (map (\<lambda>i. js_join '','' (map show_nat (field_values (fst (star_bounds ! i)) (snd (star_bounds ! i)) (full_fields fs ! i)))) [0..<6])"
    unfolding ranges using ok by (simp add: convert_field upt_rec numeral_eq_Suc star_bounds_def F del: show_item.simps)
  show ?thesis
    unfolding convert_fields_def split Let_def
    using steps
    by (simp add: names convertSundaySeven_def normalize_numbers sunday_numbers cron_values_def upt_rec numeral_eq_Suc Let_def)
qed

lemma set_item_values: "v \<in> set (item_values lo hi i) = item_allows lo hi i v"
  by (cases i) (auto simp: range_numbers_def)

lemma set_field_values: "v \<in> set (field_values lo hi f) = field_allows lo hi f v"
  by (auto simp: field_values_def field_allows_def set_item_values)

lemma set_cron_values: "v \<in> set (cron_values fs i) = cron_allows fs i v"
  by (auto simp: cron_values_def cron_allows_def Let_def set_keep_first set_field_values fold_sunday_def)

lemma convertExpression_pattern:
  assumes "length fs = 5 \<or> length fs = 6" and "\<forall>f\<in>set fs. field_ok f"
  obtains c where "convertExpression (cron_pattern fs) = Inr c"
    "js_split (CHR '' '') c = map (\<lambda>i. number_list (cron_values fs i)) [0..<6]"
proof -
  have "CHR '' '' \<notin> set (number_list vs)" for vs
    using set_join [of "CHR '' ''" "'',''" "map show_nat vs"] show_nat_no_char [of "CHR '' ''"]
    by (auto simp: number_list_def is_digit_def)
  then show ?thesis
    using that convert_pattern [OF assms] by (simp add: convertExpression_def js_split_join)
qed

lemma validate_numbers:
  "isl (validateFields bs ps (map number_list vss)) =
    (\<exists>(vs, lo, hi, n)\<in>set (zip vss bs). vs = [] \<or> (\<exists>v\<in>set vs. int v < lo \<or> hi < int v))"
proof (induction bs arbitrary: ps vss)
  case (Cons b bs)
  obtain lo hi n where b: "b = (lo, hi, n)" by (cases b)
  show ?case
  proof (cases vss)
    case v: (Cons vs vss')
    show ?thesis
    proof (cases "isValidExpression (number_list vs) lo hi")
      case True
      then have "\<not> (vs = [] \<or> (\<exists>v\<in>set vs. int v < lo \<or> hi < int v))" by (auto simp: valid_numbers)
      with True show ?thesis by (simp add: v b Cons.IH)
    next
      case False
      then have "vs = [] \<or> (\<exists>v\<in>set vs. int v < lo \<or> hi < int v)" unfolding valid_numbers not_le [symmetric] by blast
      with False show ?thesis by (simp add: v b)
    qed
  qed simp
qed simp

lemma new_TimeMatcher_pattern:
  assumes "length fs = 5 \<or> length fs = 6" and "\<forall>f\<in>set fs. field_ok f"
  shows "new_TimeMatcher civil (cron_pattern fs) =
    (case validateFields field_bounds (let ps = js_split (CHR '' '') (cron_pattern fs) in if length ps = 5 then ''0'' # ps else ps)
        (map number_list (map (cron_values fs) [0..<6])) of
       Inl e \<Rightarrow> Inl e
     | Inr _ \<Rightarrow> Inr \<lparr>tm_expressions = map (\<lambda>i. number_list (cron_values fs i)) [0..<6], tm_civil = civil\<rparr>)"
proof -
  obtain c where c: "convertExpression (cron_pattern fs) = Inr c"
    "js_split (CHR '' '') c = map (\<lambda>i. number_list (cron_values fs i)) [0..<6]"
    using convertExpression_pattern [OF assms] .
  show ?thesis
    unfolding new_TimeMatcher_def validateCrontab_def c(1)
    by (simp add: c(2) Let_def comp_def split: sum.splits)
qed

lemma tm_match_values:
  "tm_match \<lparr>tm_expressions = map (\<lambda>i. number_list (cron_values fs i)) [0..<6], tm_civil = civil\<rparr> t =
    (\<forall>i<6. cron_allows fs i (civil_values (civil t) ! i))"
  by (simp add: tm_match_def runsThisDay_def Let_def match_numbers set_cron_values civil_values_def All_less_Suc numeral_eq_Suc upt_rec)
    blast

lemma validate_in_bounds:
  "isl (validateFields field_bounds ps (map number_list (map (cron_values fs) [0..<6]))) = (\<not> fields_in_bounds fs)"
  unfolding validate_numbers
  by (simp add: field_bounds_def fields_in_bounds_def All_less_Suc numeral_eq_Suc upt_rec not_le) blast

section \<open>Properties\<close>

text \<open>C28: an expression of five or six fields of numbers, ranges, an asterisk and a step is accepted exactly when every field
  allows some value and only values within its bounds; an accepted expression matches a time exactly when each component of
  the time is allowed by the field at its position (five fields meaning second 0, and week day 7 meaning Sunday).\<close>

theorem cron_matches_reference:
  assumes "length fs = 5 \<or> length fs = 6" and "\<forall>f\<in>set fs. field_ok f"
  shows "case new_TimeMatcher civil (cron_pattern fs) of
      Inl _ \<Rightarrow> \<not> fields_in_bounds fs
    | Inr m \<Rightarrow> fields_in_bounds fs \<and> (\<forall>t. tm_match m t = (\<forall>i<6. cron_allows fs i (civil_values (civil t) ! i)))"
proof -
  let ?r = "validateFields field_bounds (let ps = js_split (CHR '' '') (cron_pattern fs) in if length ps = 5 then ''0'' # ps else ps)
    (map number_list (map (cron_values fs) [0..<6]))"
  show ?thesis
    unfolding new_TimeMatcher_pattern [OF assms]
    using validate_in_bounds [of "let ps = js_split (CHR '' '') (cron_pattern fs) in if length ps = 5 then ''0'' # ps else ps" fs]
    by (cases ?r) (simp_all del: map_map add: tm_match_values)
qed

text \<open>Every 15 minutes from 9 to 17 on week days: at Friday, 13:45:00, and not at 13:45:01.\<close>

definition office_hours :: "cron_field list" where
  "office_hours = [([Star], Some 15), ([Range 9 17], None), ([Star], None), ([Star], None), ([Range 1 5], None)]"

definition friday :: "int \<Rightarrow> civil_time" where
  "friday t = \<lparr>ct_second = nat (t div 1000 mod 60), ct_minute = nat (t div 60000 mod 60), ct_hour = 13, ct_day = 6, ct_month = 3,
     ct_weekday = 5\<rparr>"

lemma office_hours_ok:
  "length office_hours = 5 \<or> length office_hours = 6" "\<forall>f\<in>set office_hours. field_ok f" "fields_in_bounds office_hours"
  by (simp add: office_hours_def, simp add: office_hours_def field_ok_def, code_simp)

theorem cron_matches_reference_witness:
  "cron_pattern office_hours = ''*/15 9-17 * * 1-5'' \<and>
   (\<exists>m. new_TimeMatcher friday (cron_pattern office_hours) = Inr m \<and> tm_match m 2700000 \<and> \<not> tm_match m 2701000)"
proof -
  have "\<forall>i<6. cron_allows office_hours i (civil_values (friday 2700000) ! i)" by code_simp
  moreover have "\<not> (\<forall>i<6. cron_allows office_hours i (civil_values (friday 2701000) ! i))" by code_simp
  moreover have "cron_pattern office_hours = ''*/15 9-17 * * 1-5''" by code_simp
  ultimately show ?thesis
    using cron_matches_reference [OF office_hours_ok(1,2), of friday] office_hours_ok(3) by (auto split: sum.splits)
qed

text \<open>the next wakeup time is later than the given time by a whole number of seconds from 1 to 3599; no second in between
  matches; and when some second of that span matches, so does the wakeup time.\<close>

lemma next_wakeup_first_match:
  "t + 1000 \<le> nextWakeupTime m t \<and> nextWakeupTime m t \<le> t + 3599000 \<and> (nextWakeupTime m t - t) mod 1000 = 0 \<and>
   (\<forall>j\<ge>1. t + 1000 * int j < nextWakeupTime m t \<longrightarrow> \<not> tm_match m (t + 1000 * int j)) \<and>
   ((\<exists>j\<in>{1..3599}. tm_match m (t + 1000 * int j)) \<longrightarrow> tm_match m (nextWakeupTime m t))"
proof -
  obtain k where k: "1 \<le> k" "k \<le> 3599" "nextWakeupTime m t = t + 1000 * int k"
    "\<And>j. 1 \<le> j \<Longrightarrow> j < k \<Longrightarrow> \<not> tm_match m (t + 1000 * int j)" "tm_match m (nextWakeupTime m t) \<or> k = 3599"
    using nextWakeupTime_spec [of m t] by metis
  have "tm_match m (nextWakeupTime m t)" if "1 \<le> j" "j \<le> 3599" "tm_match m (t + 1000 * int j)" for j
    using k that by (cases "j < k") (auto simp: not_less)
  with k(1-4) show ?thesis by auto
qed

definition quarter_hours :: TimeMatcher where
  "quarter_hours = \<lparr>tm_expressions = [''0'', ''0,15,30,45'', ''13'', ''6'', ''3'', ''5''], tm_civil = friday\<rparr>"

end
