(* ===== verification/Scheduler.thy ===== *)
theory Scheduler
  imports DBOS_System Crontab
begin

text \<open>
  The dynamic scheduler (\<open>src/scheduler/scheduler.ts\<close>): the loops that run for the active schedules of the database, the
  firing of one of them, and triggering and backfilling a schedule. A schedule fires by enqueueing a workflow whose ID is
  made of the schedule's name and the scheduled time.

  \<open>civil\<close> is the time zone data (\<open>Intl.DateTimeFormat\<close> for a named zone, \<open>None\<close> for a name it does not know). A
  loop sleeps between its rounds; a round is one function of the time and the database.
\<close>

section \<open>Dates as text\<close>

text \<open>Days since 1970-01-01 to a year, a month and a day of the proleptic Gregorian calendar (years start in March inside).\<close>

definition civil_date :: "int \<Rightarrow> int \<times> int \<times> int" where
  "civil_date days =
     (let z = days + 719468; era = z div 146097; doe = z mod 146097;
          yoe = (doe - doe div 1460 + doe div 36524 - doe div 146096) div 365;
          doy = doe - (365 * yoe + yoe div 4 - yoe div 100);
          mp = (5 * doy + 2) div 153;
          d = doy - (153 * mp + 2) div 5 + 1;
          mo = (if mp < 10 then mp + 3 else mp - 9)
      in (yoe + era * 400 + (if mo \<le> 2 then 1 else 0), mo, d))"

definition days_from_civil :: "int \<Rightarrow> int \<Rightarrow> int \<Rightarrow> int" where
  "days_from_civil year mo d =
     (let y = (if mo \<le> 2 then year - 1 else year); era = y div 400; yoe = y mod 400;
          doy = (153 * (if mo > 2 then mo - 3 else mo + 9) + 2) div 5 + d - 1
      in era * 146097 + (yoe * 365 + yoe div 4 - yoe div 100 + doy) - 719468)"

definition pad :: "nat \<Rightarrow> int \<Rightarrow> string" where
  "pad w n = replicate (w - length (show_nat (nat n))) (CHR ''0'') @ show_nat (nat n)"

definition show_year :: "int \<Rightarrow> string" where
  "show_year y = (if 0 \<le> y \<and> y \<le> 9999 then pad 4 y else if y < 0 then ''-'' @ pad 6 (- y) else ''+'' @ pad 6 y)"

definition toISOString :: "int \<Rightarrow> string" where
  "toISOString t =
     (let (y, mo, d) = civil_date (t div 86400000); ms = t mod 86400000 in
      show_year y @ ''-'' @ pad 2 mo @ ''-'' @ pad 2 d @ ''T'' @ pad 2 (ms div 3600000) @ '':'' @ pad 2 (ms div 60000 mod 60) @
      '':'' @ pad 2 (ms div 1000 mod 60) @ ''.'' @ pad 3 (ms mod 1000) @ ''Z'')"

text \<open>
  \<open>new Date(text)\<close> for the text that \<open>toISOString\<close> writes with a year of four digits; \<open>last_fired_at\<close> is only ever
  written by \<open>updateLastFiredAt\<close> with such a text. Any other text is taken as an invalid date (\<open>None\<close>).
\<close>

definition iso_shape :: "string \<Rightarrow> bool" where
  "iso_shape s = (length s = 24 \<and> list_all (\<lambda>i. is_digit (s ! i)) [0, 1, 2, 3, 5, 6, 8, 9, 11, 12, 14, 15, 17, 18, 20, 21, 22] \<and>
     s ! 4 = CHR ''-'' \<and> s ! 7 = CHR ''-'' \<and> s ! 10 = CHR ''T'' \<and> s ! 13 = CHR '':'' \<and> s ! 16 = CHR '':'' \<and>
     s ! 19 = CHR ''.'' \<and> s ! 23 = CHR ''Z'')"

definition Date_parse :: "string \<Rightarrow> int option" where
  "Date_parse s =
     (let part = (\<lambda>i n. int (read_digits (take n (drop i s)))) in
      if iso_shape s \<and> 1 \<le> part 5 2 \<and> part 5 2 \<le> 12 \<and> 1 \<le> part 8 2 \<and> part 8 2 \<le> 31 \<and> part 11 2 \<le> 23 \<and> part 14 2 \<le> 59 \<and> part 17 2 \<le> 59
      then Some (days_from_civil (part 0 4) (part 5 2) (part 8 2) * 86400000 + part 11 2 * 3600000 + part 14 2 * 60000 +
        part 17 2 * 1000 + part 20 3)
      else None)"

section \<open>Enqueueing a scheduled workflow\<close>

type_synonym zones = "string option \<Rightarrow> (int \<Rightarrow> civil_time) option"

definition validateTimezone :: "zones \<Rightarrow> string \<Rightarrow> dbos_error + unit" where
  "validateTimezone civil timezone =
     (if civil (Some timezone) = None then Inl (PlainError (''Invalid timezone: '' @ [CHR 0x27] @ timezone @ [CHR 0x27])) else Inr ())"

text \<open>The constructor of \<open>TimeMatcher\<close> validates the expression before the formatter rejects an unknown zone; an empty
  zone is no zone.\<close>

definition make_matcher :: "zones \<Rightarrow> string \<Rightarrow> string option \<Rightarrow> dbos_error + TimeMatcher" where
  "make_matcher civil pattern timezone =
     (case civil (or_null timezone) of
        None \<Rightarrow> (case validateCrontab pattern of Inl e \<Rightarrow> Inl e | Inr _ \<Rightarrow> Inl (PlainError ''RangeError''))
      | Some c \<Rightarrow> new_TimeMatcher c pattern)"

definition scheduled_status ::
  "int \<Rightarrow> WorkflowScheduleInternal \<Rightarrow> string \<Rightarrow> serialized_value \<Rightarrow> string \<Rightarrow> WorkflowStatusInternal" where
  "scheduled_status now sched workflowID serparam versionName = \<lparr>
     si_workflowUUID = workflowID, si_status = ENQUEUED, si_workflowName = sw_workflowName sched,
     si_workflowClassName = sw_workflowClassName sched, si_workflowConfigName = [],
     si_queueName = Some (coalesce (or_null (sw_queueName sched)) INTERNAL_QUEUE_NAME),
     si_authenticatedUser = Some [], si_output = None, si_error = None, si_input = sv_serializedValue serparam,
     si_assumedRole = Some [], si_authenticatedRoles = JArr [], si_request = JObj [], si_executorId = Some [],
     si_applicationVersion = Some versionName, si_applicationID = Some [], si_createdAt = now, si_updatedAt = None,
     si_recoveryAttempts = None, si_timeoutMS = None, si_deadlineEpochMS = None, si_deduplicationID = None, si_priority = 0,
     si_queuePartitionKey = None, si_startedAtEpochMs = None, si_forkedFrom = None, si_wasForkedFrom = None,
     si_parentWorkflowID = None, si_serialization = sv_serialization serparam, si_delayUntilEpochMS = None,
     si_completedAt = None, si_attributes = None, si_scheduleName = Some (sw_scheduleName sched),
     si_debounceDeadlineEpochMS = None, si_isDebounced = None\<rparr>"

definition enqueueScheduledWorkflow ::
  "serialization_env \<Rightarrow> int \<Rightarrow> WorkflowScheduleInternal \<Rightarrow> string \<Rightarrow> int \<Rightarrow> js_value \<Rightarrow> unit db_op" where
  "enqueueScheduledWorkflow env now sched workflowID scheduledDate context =
     and_then (lift_sum (serializeArgs env [JsDate (toISOString scheduledDate), context] None None)) (\<lambda>serparam.
     and_then getLatestApplicationVersion (\<lambda>latestVersion.
     and_then (initWorkflowStatus now (scheduled_status now sched workflowID serparam (vi_versionName latestVersion)) None False False None)
       (\<lambda>_. ret ())))"

definition schedule_missing :: "string \<Rightarrow> dbos_error" where
  "schedule_missing name = DBOSError (''Schedule '' @ [CHR 0x22] @ name @ [CHR 0x22] @ '' not found'')"

definition scheduled_id :: "string \<Rightarrow> int \<Rightarrow> string" where
  "scheduled_id name t = ''sched-'' @ name @ ''-'' @ toISOString t"

definition triggerSchedule :: "serialization_env \<Rightarrow> int \<Rightarrow> string \<Rightarrow> string db_op" where
  "triggerSchedule env now name =
     and_then (gets (getSchedule name)) (\<lambda>found. case found of
         None \<Rightarrow> throw (schedule_missing name)
       | Some sched \<Rightarrow>
           and_then (lift_sum (sz_parse (se_serializer env) (Some (sw_context sched)))) (\<lambda>context.
           let workflowID = ''sched-'' @ name @ ''-trigger-'' @ toISOString now in
           and_then (enqueueScheduledWorkflow env now sched workflowID now context) (\<lambda>_. ret workflowID)))"

section \<open>Backfilling\<close>

lemma nextWakeupTime_later: "t < nextWakeupTime m t"
  using nextWakeupTime_spec [of m t] by (metis add_less_cancel_left add_0_right mult_pos_pos of_nat_0_less_iff zero_less_numeral
      less_le_trans zero_less_one)

text \<open>The loop of \<open>backfillSchedule\<close>; it ends because every round moves \<open>current\<close> forward.\<close>

function backfill_loop :: "TimeMatcher \<Rightarrow> (int \<Rightarrow> string db_op) \<Rightarrow> int \<Rightarrow> int \<Rightarrow> string list db_op" where
  "backfill_loop m fire end' current =
     (if current < end' then
        (let nxt = nextWakeupTime m current in
         if \<not> tm_match m nxt then backfill_loop m fire end' nxt
         else if nxt \<ge> end' then ret []
         else and_then (fire nxt) (\<lambda>workflowID. and_then (backfill_loop m fire end' nxt) (\<lambda>ids. ret (workflowID # ids))))
      else ret [])"
  by pat_completeness auto
termination
  by (relation "measure (\<lambda>(m, fire, end', current). nat (end' - current))") (auto simp: nextWakeupTime_later)

declare backfill_loop.simps [simp del]

definition fire_at :: "serialization_env \<Rightarrow> int \<Rightarrow> WorkflowScheduleInternal \<Rightarrow> string \<Rightarrow> js_value \<Rightarrow> int \<Rightarrow> string db_op" where
  "fire_at env now sched name context nxt =
     and_then (enqueueScheduledWorkflow env now sched (scheduled_id name nxt) nxt context) (\<lambda>_. ret (scheduled_id name nxt))"

definition backfillSchedule :: "serialization_env \<Rightarrow> zones \<Rightarrow> int \<Rightarrow> string \<Rightarrow> int \<Rightarrow> int \<Rightarrow> string list db_op" where
  "backfillSchedule env civil now name start end' =
     and_then (gets (getSchedule name)) (\<lambda>found. case found of
         None \<Rightarrow> throw (schedule_missing name)
       | Some sched \<Rightarrow>
           and_then (lift_sum (sz_parse (se_serializer env) (Some (sw_context sched)))) (\<lambda>context.
           and_then (lift_sum (make_matcher civil (sw_schedule sched) (sw_cronTimezone sched))) (\<lambda>timeMatcher.
             backfill_loop timeMatcher (fire_at env now sched name context) end' start)))"

section \<open>The loops of the scheduler\<close>

definition scheduleSignature :: "WorkflowScheduleInternal \<Rightarrow> string" where
  "scheduleSignature sched = JSON_stringify (JArr
     [JStr (sw_workflowName sched), JStr (sw_workflowClassName sched), JStr (sw_schedule sched), JStr (sw_context sched),
      (case sw_cronTimezone sched of None \<Rightarrow> JNull | Some z \<Rightarrow> JStr z), (case sw_queueName sched of None \<Rightarrow> JNull | Some q \<Rightarrow> JStr q)])"

text \<open>A running loop: what it captured, and its variable \<open>lastExec\<close>. A loop whose expression does not compile has ended.\<close>

record ScheduleLoopEntry =
  sl_signature :: string
  sl_sched :: WorkflowScheduleInternal
  sl_matcher :: "dbos_error + TimeMatcher"
  sl_lastExec :: int

type_synonym schedule_loops = "(string \<times> ScheduleLoopEntry) list"

definition start_loop :: "zones \<Rightarrow> int \<Rightarrow> WorkflowScheduleInternal \<Rightarrow> ScheduleLoopEntry" where
  "start_loop civil now sched = \<lparr>
     sl_signature = scheduleSignature sched,
     sl_sched = sched\<lparr>sw_scheduleId := [], sw_status := ''ACTIVE'', sw_lastFiredAt := None, sw_automaticBackfill := False\<rparr>,
     sl_matcher = make_matcher civil (sw_schedule sched) (sw_cronTimezone sched),
     sl_lastExec = now - now mod 1000\<rparr>"

definition drop_loop :: "string \<Rightarrow> schedule_loops \<Rightarrow> schedule_loops" where
  "drop_loop name loops = filter (\<lambda>(n, _). n \<noteq> name) loops"

text \<open>Missed times are made up before the loop starts; an error of it is only logged.\<close>

definition automatic_backfill :: "serialization_env \<Rightarrow> zones \<Rightarrow> int \<Rightarrow> WorkflowScheduleInternal \<Rightarrow> sysdb \<Rightarrow> sysdb" where
  "automatic_backfill env civil now sched db =
     (if sw_automaticBackfill sched \<and> truthy (sw_lastFiredAt sched)
      then (case Date_parse (coalesce (sw_lastFiredAt sched) []) of
              Some lastFired \<Rightarrow>
                if lastFired < now then snd (backfillSchedule env civil now (sw_scheduleName sched) lastFired now db) else db
            | None \<Rightarrow> db)
      else db)"

definition process_schedule ::
  "serialization_env \<Rightarrow> zones \<Rightarrow> int \<Rightarrow> WorkflowScheduleInternal \<Rightarrow> schedule_loops \<times> sysdb \<Rightarrow> schedule_loops \<times> sysdb" where
  "process_schedule env civil now sched = (\<lambda>(loops, db).
     let name = sw_scheduleName sched; existing = map_of loops name in
     if sw_status sched = ''PAUSED'' \<and> existing \<noteq> None then (drop_loop name loops, db)
     else if sw_status sched = ''ACTIVE'' then
       (let loops1 = (case existing of
              Some entry \<Rightarrow> if sl_signature entry \<noteq> scheduleSignature sched then drop_loop name loops else loops
            | None \<Rightarrow> loops) in
        if map_of loops1 name = None
        then (loops1 @ [(name, start_loop civil now sched)], automatic_backfill env civil now sched db)
        else (loops1, db))
     else (loops, db))"

definition no_schedule_filters :: schedule_filters where
  "no_schedule_filters = \<lparr>sf_status = None, sf_workflowName = None, sf_scheduleNamePrefix = None\<rparr>"

text \<open>One round of the polling loop.\<close>

definition poll_schedules :: "serialization_env \<Rightarrow> zones \<Rightarrow> int \<Rightarrow> schedule_loops \<times> sysdb \<Rightarrow> schedule_loops \<times> sysdb" where
  "poll_schedules env civil now = (\<lambda>(loops, db).
     case listSchedules no_schedule_filters db of
       (Inl _, _) \<Rightarrow> (loops, db)
     | (Inr schedules, _) \<Rightarrow>
         fold (process_schedule env civil now) schedules
           (filter (\<lambda>(n, _). n \<in> sw_scheduleName ` set schedules) loops, db))"

definition pollTimeout :: "int \<Rightarrow> int \<Rightarrow> int \<Rightarrow> int" where
  "pollTimeout now startupDeadline pollingIntervalMs = (if now < startupDeadline then min 1000 pollingIntervalMs else pollingIntervalMs)"

text \<open>How long a loop sleeps before its next time; \<open>rnd\<close> is \<open>Math.random()\<close>.\<close>

definition loop_sleep :: "rat \<Rightarrow> int \<Rightarrow> int \<Rightarrow> rat" where
  "loop_sleep rnd now nextExec =
     (let sleepTime = rat_of_int (nextExec - now) in
      if sleepTime > 0 then sleepTime + rnd * min (sleepTime / 10) 10000 else sleepTime)"

text \<open>One round of a schedule's loop, after its sleep.\<close>

definition fire_scheduled :: "serialization_env \<Rightarrow> int \<Rightarrow> WorkflowScheduleInternal \<Rightarrow> int \<Rightarrow> unit db_op" where
  "fire_scheduled env now sched nextExec =
     (let name = sw_scheduleName sched; workflowID = scheduled_id name nextExec in
      and_then (getWorkflowStatus now now workflowID None None) (\<lambda>existing.
        if existing \<noteq> None then ret ()
        else
          and_then (lift_sum (sz_parse (se_serializer env) (Some (sw_context sched)))) (\<lambda>context.
          and_then (enqueueScheduledWorkflow env now sched workflowID nextExec context) (\<lambda>_.
            updateLastFiredAt name (toISOString nextExec)))))"

definition scheduleLoop_round :: "serialization_env \<Rightarrow> int \<Rightarrow> ScheduleLoopEntry \<Rightarrow> sysdb \<Rightarrow> ScheduleLoopEntry \<times> sysdb" where
  "scheduleLoop_round env now entry db =
     (case sl_matcher entry of
        Inl _ \<Rightarrow> (entry, db)
      | Inr m \<Rightarrow>
          (let nextExec = nextWakeupTime m (sl_lastExec entry) in
           (entry\<lparr>sl_lastExec := nextExec\<rparr>,
            if tm_match m nextExec then snd (fire_scheduled env now (sl_sched entry) nextExec db) else db)))"

section \<open>Decorated workflows\<close>

text \<open>
  \<open>ScheduledReceiver\<close> of \<open>src/scheduler/scheduler_decorator.ts\<close>: the loop of a decorated workflow has the same rounds, and keeps the
  last time it fired in the event dispatch table. The mode decides where a loop starts; \<open>parseFloat\<close> reads back the whole
  numbers that are written.
\<close>

datatype SchedulerMode = ExactlyOncePerInterval | ExactlyOncePerIntervalWhenActive

definition SCHEDULER_EVENT_SERVICE_NAME :: string where
  "SCHEDULER_EVENT_SERVICE_NAME = ''dbos.scheduler''"

definition receiver_lastExec :: "SchedulerMode \<Rightarrow> int \<Rightarrow> string \<Rightarrow> sysdb \<Rightarrow> int option" where
  "receiver_lastExec mode now name db =
     (let recent = now - now mod 1000 in
      if mode = ExactlyOncePerInterval
      then (case getEventDispatchState SCHEDULER_EVENT_SERVICE_NAME name ''lastState'' db of
              Some st \<Rightarrow> if truthy (ed_value st) then parseInt10 (coalesce (ed_value st) []) else Some recent
            | None \<Rightarrow> Some recent)
      else Some recent)"

definition last_state :: "string \<Rightarrow> int \<Rightarrow> event_dispatch_kv" where
  "last_state name time = \<lparr>ed_service_name = SCHEDULER_EVENT_SERVICE_NAME, ed_workflow_fn_name = name, ed_key = ''lastState'',
     ed_value = Some (show_int time), ed_update_time = Some time, ed_update_seq = None\<rparr>"

definition setLastExecTime :: "string \<Rightarrow> int \<Rightarrow> sysdb \<Rightarrow> int \<times> sysdb" where
  "setLastExecTime name time db =
     (case upsertEventDispatchState (last_state name time) db of
        (Inr newState, db') \<Rightarrow>
          ((case parseInt10 (coalesce (ed_value newState) []) of
              Some dbTime \<Rightarrow> if dbTime \<noteq> 0 \<and> dbTime > time then dbTime else time
            | None \<Rightarrow> time), db')
      | (Inl _, db') \<Rightarrow> (time, db'))"

section \<open>What firing does to the database\<close>

text \<open>There is a workflow for each of the IDs, no other is new, and one that existed is as it was but for its update time.\<close>

definition touched :: "workflow_status \<Rightarrow> workflow_status \<Rightarrow> bool" where
  "touched r r' = (r\<lparr>ws_updated_at := 0\<rparr> = r'\<lparr>ws_updated_at := 0\<rparr>)"

definition fired :: "string set \<Rightarrow> sysdb \<Rightarrow> sysdb \<Rightarrow> bool" where
  "fired ids db db' = (workflow_ids db' = ids \<union> workflow_ids db \<and>
     (\<forall>r\<in>set (t_workflow_status db). \<exists>r'\<in>set (t_workflow_status db'). touched r r'))"

lemma touched_refl [simp]: "touched r r"
  by (simp add: touched_def)

lemma touched_trans: "touched r r' \<Longrightarrow> touched r' r'' \<Longrightarrow> touched r r''"
  by (simp add: touched_def)

lemma touched_self: "r \<in> A \<Longrightarrow> \<exists>r'\<in>A. touched r r'"
  using touched_refl by blast

lemma fired_none: "fired {} db db"
  by (simp add: fired_def touched_self)

lemma fired_trans: "fired A db db1 \<Longrightarrow> fired B db1 db2 \<Longrightarrow> fired (A \<union> B) db db2"
  unfolding fired_def by (auto, meson touched_trans)

lemma on_conflict_enqueued:
  "ws_status new = ENQUEUED \<Longrightarrow> on_conflict_status new False old = old\<lparr>ws_updated_at := ws_updated_at new\<rparr>"
  by (simp add: on_conflict_status_def)

lemma insert_scheduled:
  assumes "insertWorkflowStatus now st None False db = (Inr res, db')" and "si_status st = ENQUEUED"
  shows "fired {si_workflowUUID st} db db'"
proof (cases "find_row ws_workflow_uuid (si_workflowUUID st) (t_workflow_status db)")
  case None
  with assms(1) have "t_workflow_status db' = t_workflow_status db @ [new_status_row now st None]"
    by (auto simp: insertWorkflowStatus_def Let_def split: if_splits)
  then show ?thesis by (auto simp: fired_def workflow_ids_def simp del: bex_simps intro: touched_self)
next
  case (Some old)
  let ?new = "new_status_row now st None"
  have st: "ws_status ?new = ENQUEUED" using assms(2) by (simp add: new_status_row_def)
  from Some assms(1) have rows: "t_workflow_status db' =
      update_where (\<lambda>r. ws_workflow_uuid r = si_workflowUUID st) (on_conflict_status ?new False) (t_workflow_status db)"
    by (auto simp: insertWorkflowStatus_def Let_def)
  have "\<exists>r'\<in>set (t_workflow_status db'). touched r r'" if "r \<in> set (t_workflow_status db)" for r
  proof -
    have "touched r (on_conflict_status ?new False r)" by (simp add: touched_def on_conflict_enqueued [OF st])
    with that show ?thesis unfolding rows set_update_where by (cases "ws_workflow_uuid r = si_workflowUUID st") auto
  qed
  moreover have "workflow_ids db' = workflow_ids db"
    unfolding workflow_ids_def rows by (rule image_update_where) (simp add: on_conflict_status_def)
  moreover have "si_workflowUUID st \<in> workflow_ids db"
    using find_row_SomeD [OF Some] unfolding workflow_ids_def by (metis imageI)
  ultimately show ?thesis by (auto simp: fired_def)
qed

lemma init_scheduled:
  assumes "initWorkflowStatus now st None False False None db = (Inr res, db')" and "si_status st = ENQUEUED"
  shows "fired {si_workflowUUID st} db db'"
proof -
  obtain r db1 where ins: "insertWorkflowStatus now st None False db = (r, db1)" by fastforce
  with assms(1) obtain x where x: "r = Inr x" by (cases r) (simp_all add: initWorkflowStatus_def)
  note f = insert_scheduled [OF ins [unfolded x] assms(2)]
  show ?thesis
  proof (cases "None = ir_owner_xid x")
    case True
    with assms(1) ins x have "db' = db1"
      by (auto simp: initWorkflowStatus_def Let_def max_retries_exceeded_def split: if_splits)
    with f show ?thesis by simp
  next
    case False
    with assms(1) ins x have "db' = db" by (auto simp: initWorkflowStatus_def Let_def split: if_splits)
    moreover have "si_workflowUUID st \<in> workflow_ids db"
    proof (rule ccontr)
      assume "si_workflowUUID st \<notin> workflow_ids db"
      then have "find_row ws_workflow_uuid (si_workflowUUID st) (t_workflow_status db) = None"
        by (simp add: workflow_ids_def find_row_None_iff)
      with ins x False show False
        by (auto simp: insertWorkflowStatus_def Let_def insert_result_def new_status_row_def split: if_splits)
    qed
    ultimately show ?thesis by (simp add: fired_def insert_absorb touched_self)
  qed
qed

lemma getLatest_unchanged: "getLatestApplicationVersion db = (r, db') \<Longrightarrow> db' = db"
  by (auto simp: getLatestApplicationVersion_def split: list.splits)

lemma enqueue_scheduled_fires:
  assumes "enqueueScheduledWorkflow env now sched w d c db = (Inr (), db')"
  shows "fired {w} db db'"
proof -
  from assms obtain sp v db1 res where "getLatestApplicationVersion db = (Inr v, db1)"
    and i: "initWorkflowStatus now (scheduled_status now sched w sp (vi_versionName v)) None False False None db1 = (Inr res, db')"
    by (auto simp: enqueueScheduledWorkflow_def and_then_success lift_sum_def)
  then have "db1 = db" using getLatest_unchanged by blast
  with init_scheduled [OF i] show ?thesis by (simp add: scheduled_status_def)
qed

lemma fire_at_fires:
  "fire_at env now sched name c t db = (Inr w, db') \<Longrightarrow> w = scheduled_id name t \<and> fired {w} db db'"
  by (auto simp: fire_at_def and_then_success dest: enqueue_scheduled_fires)

section \<open>The scheduler's operations are runs of the system\<close>

lemma updateLastFiredAt_reaches [keep_rules]: "preserves (reaches db0) (updateLastFiredAt n t)"
  by (rule preserves_reachesI, rule sysdb_step.intros)

lemma enqueueScheduledWorkflow_reaches [keep_rules]: "preserves (reaches db0) (enqueueScheduledWorkflow env now sched w d c)"
  unfolding enqueueScheduledWorkflow_def by (intro keep_rules)

lemma triggerSchedule_reaches [keep_rules]: "preserves (reaches db0) (triggerSchedule env now name)"
  unfolding triggerSchedule_def Let_def by (intro keep_rules)

lemma fire_at_reaches [keep_rules]: "preserves (reaches db0) (fire_at env now sched name c t)"
  unfolding fire_at_def by (intro keep_rules)

lemma backfill_loop_reaches [keep_rules]:
  "(\<And>t. preserves (reaches db0) (fire t)) \<Longrightarrow> preserves (reaches db0) (backfill_loop m fire end' t)"
proof (induction m fire end' t rule: backfill_loop.induct)
  case (1 m fire end' t)
  let ?n = "nextWakeupTime m t"
  show ?case
  proof (cases "t < end' \<and> (tm_match m ?n \<longrightarrow> ?n < end')")
    case True
    then have "preserves (reaches db0) (backfill_loop m fire end' ?n)"
      using "1.IH"(1) [OF _ refl _ "1.prems"] "1.IH"(2) [OF _ refl _ _ "1.prems"] by (cases "tm_match m ?n") auto
    then show ?thesis using "1.prems" by (subst backfill_loop.simps) (simp only: Let_def, intro keep_rules)
  next
    case False
    then show ?thesis by (subst backfill_loop.simps) (auto simp: Let_def intro: keep_rules)
  qed
qed

lemma backfillSchedule_reaches [keep_rules]: "preserves (reaches db0) (backfillSchedule env civil now name start end')"
  unfolding backfillSchedule_def by (intro keep_rules)

lemma fire_scheduled_reaches [keep_rules]: "preserves (reaches db0) (fire_scheduled env now sched t)"
  unfolding fire_scheduled_def Let_def by (intro keep_rules)

lemma automatic_backfill_reaches: "reaches db0 db \<Longrightarrow> reaches db0 (automatic_backfill env civil now sched db)"
  using preserves_snd [OF backfillSchedule_reaches] by (auto simp: automatic_backfill_def split: option.splits)

lemma process_schedule_reaches: "reaches db0 (snd s) \<Longrightarrow> reaches db0 (snd (process_schedule env civil now sched s))"
  by (auto simp: process_schedule_def Let_def automatic_backfill_reaches split: prod.splits option.splits)

lemma poll_schedules_reaches: "reaches db0 (snd s) \<Longrightarrow> reaches db0 (snd (poll_schedules env civil now s))"
proof -
  have "reaches db0 (snd s) \<Longrightarrow> reaches db0 (snd (fold (process_schedule env civil now) scheds s))" for scheds s
    by (induction scheds arbitrary: s) (simp_all add: process_schedule_reaches)
  then show "reaches db0 (snd s) \<Longrightarrow> reaches db0 (snd (poll_schedules env civil now s))"
    by (auto simp: poll_schedules_def split: prod.splits sum.splits)
qed

lemma scheduleLoop_round_reaches: "reaches db0 db \<Longrightarrow> reaches db0 (snd (scheduleLoop_round env now entry db))"
  using preserves_snd [OF fire_scheduled_reaches] by (auto simp: scheduleLoop_round_def Let_def split: sum.splits)

section \<open>The times of a backfill\<close>

definition schedule_times :: "TimeMatcher \<Rightarrow> int \<Rightarrow> int \<Rightarrow> int set" where
  "schedule_times m start end' = {t. start < t \<and> t < end' \<and> (t - start) mod 1000 = 0 \<and> tm_match m t}"

lemma schedule_times_next:
  "schedule_times m t end' =
    (if tm_match m (nextWakeupTime m t) \<and> nextWakeupTime m t < end' then insert (nextWakeupTime m t) else id)
      (schedule_times m (nextWakeupTime m t) end')"
proof -
  obtain k where k: "1 \<le> k" "nextWakeupTime m t = t + 1000 * int k" "\<And>j. 1 \<le> j \<Longrightarrow> j < k \<Longrightarrow> \<not> tm_match m (t + 1000 * int j)"
    using nextWakeupTime_spec [of m t] by metis
  have first: "nextWakeupTime m t \<le> u" if "u \<in> schedule_times m t end'" for u
  proof (rule ccontr)
    assume "\<not> nextWakeupTime m t \<le> u"
    with that k(2) have u: "t < u" "u < t + 1000 * int k" "(u - t) mod 1000 = 0" "tm_match m u" by (auto simp: schedule_times_def)
    define j where "j = nat ((u - t) div 1000)"
    have "u = t + 1000 * int j" "1 \<le> j" "j < k" using u(1-3) unfolding j_def by (auto elim!: dvdE simp: mod_eq_0_iff_dvd)
    with k(3) u(4) show False by blast
  qed
  have step: "(u - t) mod 1000 = 0 \<longleftrightarrow> (u - nextWakeupTime m t) mod 1000 = 0" for u
  proof -
    have "u - t = (u - (t + 1000 * int k)) + 1000 * int k" by simp
    then show ?thesis unfolding k(2) by (metis mod_mult_self2)
  qed
  have nxt: "t < nextWakeupTime m t" "(nextWakeupTime m t - t) mod 1000 = 0" using k(1,2) by simp_all
  have "u \<in> schedule_times m t end' \<longleftrightarrow> u \<in> schedule_times m (nextWakeupTime m t) end' \<or>
      u = nextWakeupTime m t \<and> tm_match m u \<and> u < end'" for u
  proof (cases "nextWakeupTime m t < u")
    case True
    with nxt(1) show ?thesis unfolding schedule_times_def mem_Collect_eq step [of u] by auto
  next
    case False
    then have "u = nextWakeupTime m t" if "u \<in> schedule_times m t end'" using first [OF that] by simp
    with False nxt show ?thesis by (auto simp: schedule_times_def)
  qed
  then show ?thesis by (auto simp: id_def)
qed

lemma backfill_loop_spec:
  assumes "backfill_loop m (fire_at env now sched name c) end' t db = (Inr ids, db')"
  shows "\<exists>ts. sorted_wrt (<) ts \<and> set ts = schedule_times m t end' \<and> ids = map (scheduled_id name) ts \<and> fired (set ids) db db'"
  using assms
proof (induction m "fire_at env now sched name c" end' t arbitrary: ids db rule: backfill_loop.induct)
  case (1 m end' t)
  let ?n = "nextWakeupTime m t"
  have past: "schedule_times m u end' = {}" if "end' \<le> u" for u using that by (auto simp: schedule_times_def)
  consider (over) "end' \<le> t" | (skip) "t < end'" "\<not> tm_match m ?n" | (last) "t < end'" "tm_match m ?n" "end' \<le> ?n"
    | (fire) "t < end'" "tm_match m ?n" "?n < end'" by linarith
  then show ?case
  proof cases
    case over
    with "1.prems" past show ?thesis by (subst (asm) backfill_loop.simps) (simp add: fired_none)
  next
    case skip
    with "1.prems" have "backfill_loop m (fire_at env now sched name c) end' ?n db = (Inr ids, db')"
      by (subst (asm) backfill_loop.simps) (simp add: Let_def)
    from "1.hyps"(1) [OF skip(1) refl skip(2) this] skip(2) show ?thesis by (simp add: schedule_times_next [of m t])
  next
    case last
    with "1.prems" past [of ?n] show ?thesis
      by (subst (asm) backfill_loop.simps) (simp add: Let_def fired_none schedule_times_next [of m t])
  next
    case fire
    with "1.prems" obtain w db1 ids' where f: "fire_at env now sched name c ?n db = (Inr w, db1)" and ids: "ids = w # ids'"
      and rest: "backfill_loop m (fire_at env now sched name c) end' ?n db1 = (Inr ids', db')"
      by (subst (asm) backfill_loop.simps) (auto simp: Let_def and_then_success)
    from "1.hyps"(2) [OF fire(1) refl _ _ rest] fire obtain ts where ts: "sorted_wrt (<) ts" "set ts = schedule_times m ?n end'"
      "ids' = map (scheduled_id name) ts" "fired (set ids') db1 db'" by auto
    have "sorted_wrt (<) (?n # ts)" using ts(1,2) by (auto simp: schedule_times_def)
    moreover have "set (?n # ts) = schedule_times m t end'" using ts(2) fire by (simp add: schedule_times_next [of m t])
    moreover have "ids = map (scheduled_id name) (?n # ts)" using ids ts(3) fire_at_fires [OF f] by simp
    moreover have "fired (set ids) db db'" using fired_trans [OF conjunct2 [OF fire_at_fires [OF f]] ts(4)] ids by simp
    ultimately show ?thesis by blast
  qed
qed

text \<open>
  The receivers of several processes share the stored time. It never goes back, and a receiver that is behind continues from
  it: after a first time was stored, whatever time is set next, the result and the stored time are the later of the two.
\<close>

lemma parseInt10_show: "0 \<le> t \<Longrightarrow> parseInt10 (show_int t) = Some t"
  by (simp add: show_int_def)

lemma setLastExecTime_monotone:
  assumes "getEventDispatchState SCHEDULER_EVENT_SERVICE_NAME name ''lastState'' db = Some (last_state name t0)"
    and "0 \<le> t0" and "0 \<le> t"
  shows "fst (setLastExecTime name t db) = max t0 t" and
    "getEventDispatchState SCHEDULER_EVENT_SERVICE_NAME name ''lastState'' (snd (setLastExecTime name t db)) =
      Some (last_state name (max t0 t))"
proof -
  have pk: "ed_pk (last_state name u) = (SCHEDULER_EVENT_SERVICE_NAME, name, ''lastState'')" for u
    by (simp add: ed_pk_def last_state_def)
  have pk_merge: "ed_pk (merge_dispatch u r) = ed_pk r" for u r by (simp add: ed_pk_def merge_dispatch_def)
  have merge: "merge_dispatch (last_state name t) (last_state name t0) = last_state name (max t0 t)"
    by (auto simp: merge_dispatch_def last_state_def sql_greater_def sql_greatest_def max_def)
  have row: "find_row ed_pk (SCHEDULER_EVENT_SERVICE_NAME, name, ''lastState'') (t_event_dispatch_kv db) = Some (last_state name t0)"
    using assms(1) by (simp add: getEventDispatchState_def)
  have up: "upsertEventDispatchState (last_state name t) db = (Inr (last_state name (max t0 t)),
      db\<lparr>t_event_dispatch_kv := update_where (\<lambda>r. ed_pk r = (SCHEDULER_EVENT_SERVICE_NAME, name, ''lastState''))
        (merge_dispatch (last_state name t)) (t_event_dispatch_kv db)\<rparr>)"
    by (simp add: upsertEventDispatchState_def pk row merge)
  have "parseInt10 (show_int (max t0 t)) = Some (max t0 t)" using assms(2) by (intro parseInt10_show) simp
  then show "fst (setLastExecTime name t db) = max t0 t"
    using assms(2,3) unfolding setLastExecTime_def up by (simp add: last_state_def max_def)
  show "getEventDispatchState SCHEDULER_EVENT_SERVICE_NAME name ''lastState'' (snd (setLastExecTime name t db)) =
      Some (last_state name (max t0 t))"
    unfolding setLastExecTime_def up getEventDispatchState_def
    by (simp add: find_row_update_where pk row merge pk_merge)
qed

text \<open>A loop does not fire before its time, and at most 10 seconds late on account of the jitter.\<close>

lemma loop_sleep_bounds:
  assumes "0 \<le> rnd" and "rnd < 1" and "now < nextExec"
  shows "rat_of_int (nextExec - now) \<le> loop_sleep rnd now nextExec" and "loop_sleep rnd now nextExec \<le> rat_of_int (nextExec - now) + 10000"
proof -
  let ?j = "min (rat_of_int (nextExec - now) / 10) 10000"
  have "0 < rat_of_int (nextExec - now)" using assms(3) by simp
  then have j: "0 \<le> ?j" "?j \<le> 10000" and sleep: "loop_sleep rnd now nextExec = rat_of_int (nextExec - now) + rnd * ?j"
    by (simp_all add: loop_sleep_def Let_def)
  have "0 \<le> rnd * ?j" using assms(1) j(1) by (rule mult_nonneg_nonneg)
  moreover have "rnd * ?j \<le> 1 * 10000" using assms j by (intro mult_mono) auto
  ultimately show "rat_of_int (nextExec - now) \<le> loop_sleep rnd now nextExec"
    "loop_sleep rnd now nextExec \<le> rat_of_int (nextExec - now) + 10000" unfolding sleep by linarith+
qed

text \<open>C27: backfilling a schedule ends, and when it succeeds it has enqueued exactly the times of the schedule: the IDs it
  returns are those of the times strictly between start and end, a whole number of seconds after the start, that match
  the expression, in ascending order and each once. Each of them has a workflow afterwards, no other workflow is new, and a workflow
  that existed before (a loop had fired it, or an earlier backfill) keeps everything but its update time: in particular its status.\<close>

theorem backfill_fires_exactly:
  assumes "backfillSchedule env civil now name start end' db = (Inr ids, db')"
  shows "\<exists>sched m ts. getSchedule name db = Some sched \<and> make_matcher civil (sw_schedule sched) (sw_cronTimezone sched) = Inr m \<and>
    sorted_wrt (<) ts \<and> set ts = schedule_times m start end' \<and> ids = map (scheduled_id name) ts \<and> fired (set ids) db db'"
proof -
  from assms obtain sched where g: "getSchedule name db = Some sched" by (cases "getSchedule name db") (auto simp: backfillSchedule_def)
  with assms obtain m c where "make_matcher civil (sw_schedule sched) (sw_cronTimezone sched) = Inr m"
    and "backfill_loop m (fire_at env now sched name c) end' start db = (Inr ids, db')"
    by (auto simp: backfillSchedule_def and_then_success lift_sum_def)
  with g backfill_loop_spec show ?thesis by metis
qed

definition example_scheduler_db :: sysdb where
  "example_scheduler_db = (example_db [])\<lparr>
     t_workflow_schedules := [schedule_row ((example_schedule ''s'')\<lparr>sw_schedule := ''2,3 45 13 6 3 5''\<rparr>)],
     t_application_versions := [\<lparr>av_version_id = ''i'', av_version_name = ''v1'', av_version_timestamp = 1, av_created_at = 1\<rparr>]\<rparr>"

theorem backfill_fires_exactly_witness:
  "\<exists>db'. backfillSchedule (example_serialization\<lparr>se_serializer := DBOSPortableJSON\<rparr>) (\<lambda>_. Some friday) 5 ''s'' 2700000 2703000 example_scheduler_db =
      (Inr [''sched-s-1970-01-01T00:45:02.000Z''], db') \<and> ''sched-s-1970-01-01T00:45:02.000Z'' \<in> workflow_ids db'"
proof -
  let ?run = "backfillSchedule (example_serialization\<lparr>se_serializer := DBOSPortableJSON\<rparr>) (\<lambda>_. Some friday) 5 ''s'' 2700000 2703000 example_scheduler_db"
  have "fst ?run = Inr [''sched-s-1970-01-01T00:45:02.000Z'']" by code_simp
  then obtain db' where run: "?run = (Inr [''sched-s-1970-01-01T00:45:02.000Z''], db')" by (metis prod.collapse)
  then show ?thesis using backfill_fires_exactly [OF run] by (auto simp: fired_def)
qed

end
