(* ===== verification/Datasource.thy ===== *)
theory Datasource
  imports Executor_Steps
begin

text \<open>
  Transactional steps on an application database (\<open>src/datasource.ts\<close> and the handler of \<open>packages/nodepg-datasource\<close>). The
  application database holds the user's own data and a table of completed transactions, so that the effect of a transaction and
  the record that it has run commit together.

  The user's data and the transaction function are parameters, and so is SuperJSON. The handler's loop is a sequence of steps, each of
  which is one statement or one transaction on the application database; between any two of them other connections, among them other
  executors that run the same step, do what they like: \<open>others n\<close> is what they do before step \<open>n\<close> of the handler. A process that crashes makes
  no further steps. \<open>reports n\<close> says how the commit of step \<open>n\<close> ends, where an error does not tell whether the database committed. The user's
  function runs on the data of one moment, as under an isolation level that excludes interference within a transaction.
\<close>

section \<open>The application database\<close>

record completion =
  tc_workflow_id :: string
  tc_function_num :: int
  tc_output :: "string option"
  tc_error :: "string option"

record 'u appdb =
  ad_user :: 'u
  ad_completions :: "completion list"

definition tc_pk :: "completion \<Rightarrow> string \<times> int" where
  "tc_pk c = (tc_workflow_id c, tc_function_num c)"

record ds_json =
  dj_stringify :: "js_value \<Rightarrow> string"
  dj_parse :: "string \<Rightarrow> js_value"
  dj_stringifyError :: "dbos_error \<Rightarrow> string"
  dj_parseError :: "string \<Rightarrow> dbos_error"

type_synonym 'u tx_function = "'u \<Rightarrow> (dbos_error + js_value) \<times> 'u"

fun getPGErrorCode :: "dbos_error \<Rightarrow> string option" where
  "getPGErrorCode (PgError c) = Some c"
| "getPGErrorCode _ = None"

definition isPGRetriableTransactionError :: "dbos_error \<Rightarrow> bool" where
  "isPGRetriableTransactionError e = (getPGErrorCode e = Some ''40001'')"

definition isPGKeyConflictError :: "dbos_error \<Rightarrow> bool" where
  "isPGKeyConflictError e = (getPGErrorCode e = Some ''23505'')"

section \<open>The handler\<close>

text \<open>\<open>Inl\<close> is a recorded error, \<open>Inr\<close> a recorded output.\<close>

definition checkExecution :: "string \<Rightarrow> int \<Rightarrow> 'u appdb \<Rightarrow> (string + string option) option" where
  "checkExecution workflowID stepID db =
     map_option (\<lambda>c. case tc_error c of Some e \<Rightarrow> Inl e | None \<Rightarrow> Inr (tc_output c))
       (find_row tc_pk (workflowID, stepID) (ad_completions db))"

definition insert_completion :: "completion \<Rightarrow> 'u appdb \<Rightarrow> (dbos_error + unit) \<times> 'u appdb" where
  "insert_completion c db =
     (if find_row tc_pk (tc_pk c) (ad_completions db) \<noteq> None then (Inl (PgError ''23505''), db)
      else (Inr (), db\<lparr>ad_completions := ad_completions db @ [c]\<rparr>))"

definition conflict_error :: "string \<Rightarrow> dbos_error \<Rightarrow> dbos_error" where
  "conflict_error workflowID e = (if isPGKeyConflictError e then DBOSWorkflowConflictError workflowID else e)"

definition recordOutput :: "string \<Rightarrow> int \<Rightarrow> string option \<Rightarrow> 'u appdb \<Rightarrow> (dbos_error + unit) \<times> 'u appdb" where
  "recordOutput workflowID stepID output =
     map_error (conflict_error workflowID)
       (insert_completion \<lparr>tc_workflow_id = workflowID, tc_function_num = stepID, tc_output = output, tc_error = None\<rparr>)"

definition recordError :: "string \<Rightarrow> int \<Rightarrow> string \<Rightarrow> 'u appdb \<Rightarrow> (dbos_error + unit) \<times> 'u appdb" where
  "recordError workflowID stepID error =
     map_error (conflict_error workflowID)
       (insert_completion \<lparr>tc_workflow_id = workflowID, tc_function_num = stepID, tc_output = None, tc_error = Some error\<rparr>)"

text \<open>The user's function on the transaction's client.\<close>

definition call_user :: "'u tx_function \<Rightarrow> ('u appdb, dbos_error, js_value) op" where
  "call_user func db = (case func (ad_user db) of (r, u) \<Rightarrow> (r, db\<lparr>ad_user := u\<rparr>))"

text \<open>
  \<open>#transaction\<close>: the body, then the commit; any error rolls back. A commit is reported as done, it is rejected, or the connection is lost
  with the commit done, in which case the rollback comes too late.
\<close>

datatype commit_report = CommitDone | CommitRejected dbos_error | CommitLost dbos_error

definition ds_transaction :: "commit_report \<Rightarrow> ('u appdb, dbos_error, 'a) op \<Rightarrow> ('u appdb, dbos_error, 'a) op" where
  "ds_transaction report body db =
     (case body db of
        (Inl e, _) \<Rightarrow> (Inl e, db)
      | (Inr result, db') \<Rightarrow>
          (case report of
             CommitDone \<Rightarrow> (Inr result, db')
           | CommitRejected e \<Rightarrow> (Inl e, db)
           | CommitLost e \<Rightarrow> (Inl e, db')))"

definition transaction_body :: "ds_json \<Rightarrow> (string \<times> int) option \<Rightarrow> 'u tx_function \<Rightarrow> ('u appdb, dbos_error, js_value) op" where
  "transaction_body dj save func =
     and_then (call_user func) (\<lambda>result. case save of
         Some (workflowID, stepID) \<Rightarrow>
           and_then (recordOutput workflowID stepID (Some (dj_stringify dj result))) (\<lambda>_. ret result)
       | None \<Rightarrow> ret result)"

definition cached_result :: "ds_json \<Rightarrow> string + string option \<Rightarrow> dbos_error + js_value" where
  "cached_result dj previous = (case previous of
       Inl e \<Rightarrow> Inl (dj_parseError dj e)
     | Inr output \<Rightarrow> Inr (if truthy output then dj_parse dj (coalesce output []) else JsNull))"

text \<open>
  Where the handler is in its loop; \<open>save\<close> is the workflow and step ID when results are saved. Each step reads or commits once.
\<close>

datatype tx_pc = Checking | Transacting | RecordingError dbos_error | Returned "dbos_error + js_value"

fun invoke_step ::
  "ds_json \<Rightarrow> (string \<times> int) option \<Rightarrow> 'u tx_function \<Rightarrow> commit_report \<Rightarrow> tx_pc \<Rightarrow> 'u appdb \<Rightarrow> tx_pc \<times> 'u appdb" where
  "invoke_step dj save func report Checking db =
     (case (case save of Some (w, f) \<Rightarrow> checkExecution w f db | None \<Rightarrow> None) of
        Some previous \<Rightarrow> (Returned (cached_result dj previous), db)
      | None \<Rightarrow> (Transacting, db))"
| "invoke_step dj save func report Transacting db =
     (case ds_transaction report (transaction_body dj save func) db of
        (Inr v, db') \<Rightarrow> (Returned (Inr v), db')
      | (Inl e, db') \<Rightarrow>
          if isPGRetriableTransactionError e then (Checking, db')
          else (case save of Some _ \<Rightarrow> (RecordingError e, db') | None \<Rightarrow> (Returned (Inl e), db')))"
| "invoke_step dj save func report (RecordingError e) db =
     (case save of
        Some (w, f) \<Rightarrow> apfst Returned (and_then (recordError w f (dj_stringifyError dj e)) (\<lambda>_. throw e) db)
      | None \<Rightarrow> (Returned (Inl e), db))"
| "invoke_step dj save func report (Returned r) db = (Returned r, db)"

fun invoke_loop ::
  "nat \<Rightarrow> ds_json \<Rightarrow> (string \<times> int) option \<Rightarrow> 'u tx_function \<Rightarrow> (nat \<Rightarrow> 'u appdb \<Rightarrow> 'u appdb) \<Rightarrow> (nat \<Rightarrow> commit_report) \<Rightarrow> nat \<Rightarrow>
   tx_pc \<Rightarrow> 'u appdb \<Rightarrow> ((dbos_error + js_value) \<times> 'u appdb) option" where
  "invoke_loop fuel dj save func others reports n (Returned r) db = Some (r, db)"
| "invoke_loop 0 dj save func others reports n pc db = None"
| "invoke_loop (Suc fuel) dj save func others reports n pc db =
     (case invoke_step dj save func (reports n) pc (others n db) of
        (pc', db') \<Rightarrow> invoke_loop fuel dj save func others reports (Suc n) pc' db')"

definition DBOS_stepID :: "DBOSLocalCtx \<Rightarrow> int option" where
  "DBOS_stepID ctx = (if DBOS_isInStep ctx then cx_curStepFunctionId ctx
     else if DBOS_isInTransaction ctx then cx_curTxFunctionId ctx else None)"

definition invokeTransactionFunction ::
  "nat \<Rightarrow> ds_json \<Rightarrow> bool option \<Rightarrow> DBOSLocalCtx \<Rightarrow> 'u tx_function \<Rightarrow> (nat \<Rightarrow> 'u appdb \<Rightarrow> 'u appdb) \<Rightarrow> (nat \<Rightarrow> commit_report) \<Rightarrow>
   'u appdb \<Rightarrow> ((dbos_error + js_value) \<times> 'u appdb) option" where
  "invokeTransactionFunction fuel dj readOnly ctx func others reports db =
     (case (cx_workflowId ctx, DBOS_stepID ctx) of
        (Some _, None) \<Rightarrow> Some (Inl (PlainError ''DBOS.stepID is undefined inside a workflow.''), db)
      | (Some w, Some f) \<Rightarrow>
          invoke_loop fuel dj (if coalesce readOnly False then None else Some (w, f)) func others reports 0 Checking db
      | (None, _) \<Rightarrow> invoke_loop fuel dj None func others reports 0 Checking db)"

section \<open>Calling a transaction\<close>

text \<open>
  \<open>runTransaction\<close>: the data source's transaction as an internal step of the system database. A recorded step is not
  run again, so that the application database is then left alone. The function ID is taken from the context.
\<close>

record 'u tx_call =
  tl_json :: ds_json
  tl_readOnly :: "bool option"
  tl_func :: "'u tx_function"
  tl_others :: "nat \<Rightarrow> 'u appdb \<Rightarrow> 'u appdb"
  tl_reports :: "nat \<Rightarrow> commit_report"

definition invoke_call :: "nat \<Rightarrow> 'u tx_call \<Rightarrow> DBOSLocalCtx \<Rightarrow> 'u appdb \<Rightarrow> ((dbos_error + js_value) \<times> 'u appdb) option" where
  "invoke_call fuel call ctx = invokeTransactionFunction fuel (tl_json call) (tl_readOnly call) ctx (tl_func call) (tl_others call) (tl_reports call)"

definition transaction_step ::
  "nat \<Rightarrow> serialization_env \<Rightarrow> int \<Rightarrow> int \<Rightarrow> 'u tx_call \<Rightarrow> string \<Rightarrow> DBOSLocalCtx \<Rightarrow> string \<Rightarrow> int \<Rightarrow> sysdb \<times> 'u appdb \<Rightarrow>
   ((dbos_error + js_value) \<times> sysdb \<times> 'u appdb) option" where
  "transaction_step fuel env s e call funcName ctx w f = (\<lambda>(db, adb).
     case getOperationResultAndThrowIfCancelled w f db of
       (Inr None, _) \<Rightarrow>
         map_option (\<lambda>(r, adb'). case runInternalStep env s e (lift_sum r) funcName w f None db of (res, db') \<Rightarrow> (res, db', adb'))
           (invoke_call fuel call (runWithDataSourceContext f (Some ctx)) adb)
     | _ \<Rightarrow> (case runInternalStep env s e (throw (PlainError [])) funcName w f None db of (res, db') \<Rightarrow> Some (res, db', adb)))"

text \<open>What \<open>runTransaction\<close> and the wrapper of \<open>registerTransaction\<close> have in common; they differ in their guard and messages.\<close>

definition call_transaction ::
  "nat \<Rightarrow> serialization_env \<Rightarrow> int \<Rightarrow> int \<Rightarrow> 'u tx_call \<Rightarrow> string \<Rightarrow> string \<Rightarrow> (DBOSLocalCtx \<Rightarrow> bool) \<Rightarrow> string \<Rightarrow> DBOSLocalCtx option \<Rightarrow>
   sysdb \<times> 'u appdb \<Rightarrow> ((dbos_error + js_value) \<times> DBOSLocalCtx option \<times> sysdb \<times> 'u appdb) option" where
  "call_transaction fuel env s e call funcName outsideMessage nested nestedMessage c = (\<lambda>(db, adb).
     if \<not> (case c of None \<Rightarrow> False | Some ctx \<Rightarrow> DBOS_isWithinWorkflow ctx) then
       (case getNextWFID None c of
          (Inr assigned, c') \<Rightarrow>
            if truthy assigned then Some (Inl (DBOSInvalidWorkflowTransitionError outsideMessage), c', db, adb)
            else map_option (\<lambda>(r, adb'). (r, c', db, adb')) (invoke_call fuel call (runWithDataSourceContext 0 c') adb)
        | (Inl err, c') \<Rightarrow> Some (Inl err, c', db, adb))
     else if nested (coalesce c empty_ctx) then Some (Inl (DBOSInvalidWorkflowTransitionError nestedMessage), c, db, adb)
     else
       (case functionIDGetIncrement c of
          (Inl err, c') \<Rightarrow> Some (Inl err, c', db, adb)
        | (Inr callnum, c') \<Rightarrow>
            (let ctx = coalesce c' empty_ctx in
             map_option (\<lambda>(r, db', adb'). (r, c', db', adb'))
               (transaction_step fuel env s e call funcName ctx (coalesce (cx_workflowId ctx) []) callnum (db, adb)))))"

definition runTransaction ::
  "nat \<Rightarrow> serialization_env \<Rightarrow> int \<Rightarrow> int \<Rightarrow> 'u tx_call \<Rightarrow> string \<Rightarrow> DBOSLocalCtx option \<Rightarrow> sysdb \<times> 'u appdb \<Rightarrow>
   ((dbos_error + js_value) \<times> DBOSLocalCtx option \<times> sysdb \<times> 'u appdb) option" where
  "runTransaction fuel env s e call funcName = call_transaction fuel env s e call funcName
     (''Invalid call to transaction '' @ [CHR 0x27] @ funcName @ [CHR 0x27] @ '' outside of a workflow; with directive to start a workflow.'')
     (\<lambda>ctx. \<not> DBOS_isInWorkflow ctx)
     (''Invalid call to `'' @ funcName @ ''` inside a `step` or `transaction`'')"

definition registerTransaction_wrapper ::
  "nat \<Rightarrow> serialization_env \<Rightarrow> int \<Rightarrow> int \<Rightarrow> 'u tx_call \<Rightarrow> string \<Rightarrow> DBOSLocalCtx option \<Rightarrow> sysdb \<times> 'u appdb \<Rightarrow>
   ((dbos_error + js_value) \<times> DBOSLocalCtx option \<times> sysdb \<times> 'u appdb) option" where
  "registerTransaction_wrapper fuel env s e call funcName = call_transaction fuel env s e call funcName
     (''Call to transaction '' @ [CHR 0x27] @ funcName @ [CHR 0x27] @ '' made without starting workflow'')
     (\<lambda>ctx. DBOS_isInTransaction ctx \<or> DBOS_isInStep ctx)
     ''Invalid call to a `transaction` function from within a `step` or `transaction`''"

section \<open>One transaction, one effect\<close>

text \<open>
  Everything that can happen around one step of a workflow: any number of processes handle it, one after the other or at the same time, each
  at its own place in the loop and each possibly never to go on; in between, the data changes in any way that does not touch the
  record of the step. \<open>sy_commits\<close> are the databases before and after the steps of the handlers.
\<close>

record 'u tx_system =
  sy_handlers :: "tx_pc list"
  sy_db :: "'u appdb"
  sy_commits :: "('u appdb \<times> 'u appdb) list"

abbreviation completed :: "string \<Rightarrow> int \<Rightarrow> 'u appdb \<Rightarrow> completion option" where
  "completed w f db \<equiv> find_row tc_pk (w, f) (ad_completions db)"

inductive tx_step :: "ds_json \<Rightarrow> string \<Rightarrow> int \<Rightarrow> 'u tx_function \<Rightarrow> 'u tx_system \<Rightarrow> 'u tx_system \<Rightarrow> bool"
  for dj w f func where
  start: "tx_step dj w f func s (s\<lparr>sy_handlers := sy_handlers s @ [Checking]\<rparr>)"
| handle: "i < length (sy_handlers s) \<Longrightarrow> invoke_step dj (Some (w, f)) func report (sy_handlers s ! i) (sy_db s) = (pc, db) \<Longrightarrow>
    tx_step dj w f func s (s\<lparr>sy_handlers := (sy_handlers s)[i := pc], sy_db := db, sy_commits := sy_commits s @ [(sy_db s, db)]\<rparr>)"
| other: "completed w f db = completed w f (sy_db s) \<Longrightarrow> tx_step dj w f func s (s\<lparr>sy_db := db\<rparr>)"

definition tx_initial :: "'u appdb \<Rightarrow> 'u tx_system" where
  "tx_initial db = \<lparr>sy_handlers = [], sy_db = db, sy_commits = []\<rparr>"

definition changes :: "'u tx_system \<Rightarrow> ('u appdb \<times> 'u appdb) list" where
  "changes s = filter (\<lambda>(a, b). a \<noteq> b) (sy_commits s)"

abbreviation value_record :: "ds_json \<Rightarrow> string \<Rightarrow> int \<Rightarrow> js_value \<Rightarrow> completion" where
  "value_record dj w f v \<equiv> \<lparr>tc_workflow_id = w, tc_function_num = f, tc_output = Some (dj_stringify dj v), tc_error = None\<rparr>"

abbreviation failure_record :: "ds_json \<Rightarrow> string \<Rightarrow> int \<Rightarrow> dbos_error \<Rightarrow> completion" where
  "failure_record dj w f e \<equiv> \<lparr>tc_workflow_id = w, tc_function_num = f, tc_output = None, tc_error = Some (dj_stringifyError dj e)\<rparr>"

text \<open>A change by which the step is completed: the effect of the function with the record of its value, or the record of an error.\<close>

definition completes :: "ds_json \<Rightarrow> string \<Rightarrow> int \<Rightarrow> 'u tx_function \<Rightarrow> 'u appdb \<Rightarrow> 'u appdb \<Rightarrow> completion \<Rightarrow> bool" where
  "completes dj w f func a b c \<longleftrightarrow>
     (\<exists>v u. func (ad_user a) = (Inr v, u) \<and> c = value_record dj w f v \<and> b = a\<lparr>ad_user := u, ad_completions := ad_completions a @ [c]\<rparr>) \<or>
     (\<exists>e. c = failure_record dj w f e \<and> b = a\<lparr>ad_completions := ad_completions a @ [c]\<rparr>)"

lemma record_completes [simp]:
  "tc_pk (value_record dj w f v) = (w, f)" "tc_pk (failure_record dj w f e) = (w, f)"
  by (simp_all add: tc_pk_def)

lemma completes_changes:
  assumes "completes dj w f func a b c"
  shows "a \<noteq> b"
proof -
  have "ad_completions b = ad_completions a @ [c]" using assms by (auto simp: completes_def)
  then show ?thesis by auto
qed

lemma completes_record: "completes dj w f func a b c \<Longrightarrow> completed w f a = None \<Longrightarrow> completed w f b = Some c"
  by (auto simp: completes_def find_row_append)

lemma transaction_body_saved:
  "transaction_body dj (Some (w, f)) func db =
    (case func (ad_user db) of
       (Inl e, u) \<Rightarrow> (Inl e, db\<lparr>ad_user := u\<rparr>)
     | (Inr v, u) \<Rightarrow>
         (case completed w f db of
            None \<Rightarrow> (Inr v, db\<lparr>ad_user := u, ad_completions := ad_completions db @ [value_record dj w f v]\<rparr>)
          | Some _ \<Rightarrow> (Inl (DBOSWorkflowConflictError w), db\<lparr>ad_user := u\<rparr>)))"
  by (auto simp: transaction_body_def and_then_def call_user_def recordOutput_def map_error_def insert_completion_def conflict_error_def
      isPGKeyConflictError_def split: prod.splits sum.splits option.splits)

text \<open>What one step of a handler does to the database and what it lets the handler return.\<close>

definition answers :: "ds_json \<Rightarrow> string \<Rightarrow> 'u tx_function \<Rightarrow> completion \<Rightarrow> dbos_error + js_value \<Rightarrow> bool" where
  "answers dj w func c r = (case r of
       Inr v \<Rightarrow> tc_error c = None \<and>
         (tc_output c = Some (dj_stringify dj v) \<and> (\<exists>u u'. func u = (Inr v, u')) \<or> cached_result dj (Inr (tc_output c)) = Inr v)
     | Inl e \<Rightarrow> e = DBOSWorkflowConflictError w \<or> tc_error c = Some (dj_stringifyError dj e) \<or> (\<exists>m. tc_error c = Some m \<and> e = dj_parseError dj m))"

lemma invoke_step_recorded:
  assumes "invoke_step dj (Some (w, f)) func report pc db = (pc', db')" and "completed w f db = Some c"
    and "\<And>r. pc = Returned r \<Longrightarrow> answers dj w func c r"
  shows "db' = db \<and> (\<forall>r. pc' = Returned r \<longrightarrow> answers dj w func c r)"
proof (cases pc)
  case Checking
  with assms show ?thesis by (auto simp: checkExecution_def cached_result_def answers_def split: option.splits)
next
  case Transacting
  obtain r u where "func (ad_user db) = (r, u)" by fastforce
  with Transacting assms show ?thesis
    by (cases r) (auto simp: ds_transaction_def transaction_body_saved split: if_splits)
next
  case (RecordingError e)
  with assms show ?thesis
    by (auto simp: recordError_def map_error_def insert_completion_def and_then_def conflict_error_def isPGKeyConflictError_def answers_def tc_pk_def)
qed (use assms in auto)

lemma invoke_step_unrecorded:
  assumes "invoke_step dj (Some (w, f)) func report pc db = (pc', db')" and "completed w f db = None" and "\<And>r. pc \<noteq> Returned r"
  shows "db' = db \<and> (\<forall>r. pc' \<noteq> Returned r) \<or> (\<exists>c. completes dj w f func db db' c \<and> (\<forall>r. pc' = Returned r \<longrightarrow> answers dj w func c r))"
proof (cases pc)
  case Checking
  with assms show ?thesis by (auto simp: checkExecution_def)
next
  case Transacting
  obtain r u where "func (ad_user db) = (r, u)" by fastforce
  show ?thesis
  proof (cases r)
    case (Inr v)
    let ?c = "value_record dj w f v"
    let ?db = "db\<lparr>ad_user := u, ad_completions := ad_completions db @ [?c]\<rparr>"
    have "completes dj w f func db ?db ?c" "answers dj w func ?c (Inr v)"
      using Inr \<open>func (ad_user db) = (r, u)\<close> by (auto simp: completes_def answers_def)
    moreover have "db' = db \<and> (\<forall>r. pc' \<noteq> Returned r) \<or> db' = ?db \<and> (\<forall>r. pc' = Returned r \<longrightarrow> r = Inr v)"
      using Transacting assms(1,2) Inr \<open>func (ad_user db) = (r, u)\<close>
      by (cases report) (auto simp: ds_transaction_def transaction_body_saved split: if_splits)
    ultimately show ?thesis by blast
  qed (use Transacting assms(1) \<open>func (ad_user db) = (r, u)\<close> in \<open>auto simp: ds_transaction_def transaction_body_saved split: if_splits\<close>)
next
  case (RecordingError e)
  with assms show ?thesis
    by (auto simp: recordError_def map_error_def insert_completion_def and_then_def completes_def answers_def tc_pk_def)
qed (use assms in auto)

text \<open>The invariant: without a record nothing has been changed and nobody has an answer; with one, exactly one change has made it.\<close>

definition tx_ok :: "ds_json \<Rightarrow> string \<Rightarrow> int \<Rightarrow> 'u tx_function \<Rightarrow> 'u tx_system \<Rightarrow> bool" where
  "tx_ok dj w f func s = (case completed w f (sy_db s) of
       None \<Rightarrow> changes s = [] \<and> (\<forall>r. Returned r \<notin> set (sy_handlers s))
     | Some c \<Rightarrow> (\<exists>a b. changes s = [(a, b)] \<and> completes dj w f func a b c) \<and> (\<forall>r. Returned r \<in> set (sy_handlers s) \<longrightarrow> answers dj w func c r))"

lemma tx_ok_handle:
  assumes "tx_ok dj w f func s" and "i < length (sy_handlers s)"
    and "invoke_step dj (Some (w, f)) func report (sy_handlers s ! i) (sy_db s) = (pc, db)"
  shows "tx_ok dj w f func (s\<lparr>sy_handlers := (sy_handlers s)[i := pc], sy_db := db, sy_commits := sy_commits s @ [(sy_db s, db)]\<rparr>)"
proof -
  have mem: "sy_handlers s ! i \<in> set (sy_handlers s)" using assms(2) by simp
  have returned: "r' \<in> set (sy_handlers s) \<or> r' = pc" if "r' \<in> set ((sy_handlers s)[i := pc])" for r'
    using that set_update_subset_insert by fastforce
  show ?thesis
  proof (cases "completed w f (sy_db s)")
    case (Some c)
    with assms(1) have ok: "\<exists>a b. changes s = [(a, b)] \<and> completes dj w f func a b c" "\<And>r. Returned r \<in> set (sy_handlers s) \<Longrightarrow> answers dj w func c r"
      by (auto simp: tx_ok_def)
    from invoke_step_recorded [OF assms(3) Some] ok(2) mem have "db = sy_db s" "\<forall>r. pc = Returned r \<longrightarrow> answers dj w func c r" by metis+
    with Some ok returned show ?thesis by (fastforce simp: tx_ok_def changes_def)
  next
    case None
    with assms(1) have ok: "changes s = []" "\<And>r. Returned r \<notin> set (sy_handlers s)" by (auto simp: tx_ok_def)
    from invoke_step_unrecorded [OF assms(3) None] ok(2) mem
    consider "db = sy_db s" "\<forall>r. pc \<noteq> Returned r" | c where "completes dj w f func (sy_db s) db c" "\<forall>r. pc = Returned r \<longrightarrow> answers dj w func c r"
      by metis
    then show ?thesis
    proof cases
      case 1
      with None ok returned show ?thesis by (fastforce simp: tx_ok_def changes_def)
    next
      case (2 c)
      from completes_record [OF 2(1) None] completes_changes [OF 2(1)] 2 ok returned show ?thesis
        by (fastforce simp: tx_ok_def changes_def)
    qed
  qed
qed

interpretation tx: invariant_system "\<lambda>s. \<exists>db. s = tx_initial db \<and> completed w f db = None" "tx_step dj w f func" "tx_ok dj w f func" for dj w f func
proof
  show "\<exists>db. s = tx_initial db \<and> completed w f db = None \<Longrightarrow> tx_ok dj w f func s" for s
    by (auto simp: tx_ok_def tx_initial_def changes_def)
  show "tx_step dj w f func s s' \<Longrightarrow> tx_ok dj w f func s \<Longrightarrow> tx_ok dj w f func s'" for s s'
  proof (induction rule: tx_step.induct)
    case (handle i s report pc db)
    then show ?case by (simp add: tx_ok_handle)
  qed (auto simp: tx_ok_def changes_def split: option.splits)
qed

text \<open>What the loop does is a run of the system, of one handler and the others.\<close>

lemma invoke_loop_runs:
  assumes "\<And>n d. completed w f (others n d) = completed w f d"
  shows "invoke_loop fuel dj (Some (w, f)) func others reports n pc db = Some (r, db') \<Longrightarrow> i < length (sy_handlers s) \<Longrightarrow>
    sy_handlers s ! i = pc \<Longrightarrow> sy_db s = db \<Longrightarrow>
    \<exists>s'. (tx_step dj w f func)\<^sup>*\<^sup>* s s' \<and> sy_db s' = db' \<and> i < length (sy_handlers s') \<and> sy_handlers s' ! i = Returned r"
proof (induction fuel arbitrary: n pc db s)
  case 0
  then show ?case by (cases pc) auto
next
  case (Suc fuel)
  show ?case
  proof (cases "\<exists>r'. pc = Returned r'")
    case True
    with Suc.prems show ?thesis by auto
  next
    case False
    obtain pc1 db1 where st: "invoke_step dj (Some (w, f)) func (reports n) pc (others n db) = (pc1, db1)" by fastforce
    with Suc.prems(1) False have loop: "invoke_loop fuel dj (Some (w, f)) func others reports (Suc n) pc1 db1 = Some (r, db')"
      by (cases pc) auto
    let ?s1 = "s\<lparr>sy_db := others n db\<rparr>"
    let ?s2 = "?s1\<lparr>sy_handlers := (sy_handlers ?s1)[i := pc1], sy_db := db1, sy_commits := sy_commits ?s1 @ [(sy_db ?s1, db1)]\<rparr>"
    have "tx_step dj w f func s ?s1" using assms Suc.prems(4) by (intro tx_step.other) simp
    moreover have "tx_step dj w f func ?s1 ?s2" using st Suc.prems(2,3) by (intro tx_step.handle) simp_all
    moreover obtain s' where "(tx_step dj w f func)\<^sup>*\<^sup>* ?s2 s'" "sy_db s' = db'" "i < length (sy_handlers s')" "sy_handlers s' ! i = Returned r"
      using Suc.IH [OF loop, of ?s2] Suc.prems(2) by auto
    ultimately have "(tx_step dj w f func)\<^sup>*\<^sup>* s s' \<and> sy_db s' = db' \<and> i < length (sy_handlers s') \<and> sy_handlers s' ! i = Returned r"
      by (blast intro: converse_rtranclp_into_rtranclp)
    then show ?thesis by blast
  qed
qed

text \<open>
  A step whose transaction was recorded, but whose process crashed before the checkpoint was written to the system database, makes its
  checkpoint from the record and leaves the application database as it is.
\<close>

lemma transaction_step_replays:
  assumes "getOperationResultAndThrowIfCancelled w f db = (Inr None, db)" and "cx_workflowId ctx = Some w" and "DBOS_isInWorkflow ctx"
    and "tl_readOnly call \<noteq> Some True" and "tl_others call = (\<lambda>_ d. d)" and "checkExecution w f adb = Some p"
  shows "transaction_step (Suc fuel) env s e call n ctx w f (db, adb) =
    (case runInternalStep env s e (lift_sum (cached_result (tl_json call) p)) n w f None db of (res, db') \<Rightarrow> Some (res, db', adb))"
proof -
  let ?tx = "runWithDataSourceContext f (Some ctx)"
  have "cx_workflowId ?tx = Some w" "DBOS_stepID ?tx = Some f"
    using assms(2,3) by (simp_all add: runWithDataSourceContext_def DBOS_stepID_def DBOS_isInWorkflow_def DBOS_isInStep_def
        DBOS_isInTransaction_def)
  then have "invoke_call (Suc fuel) call ?tx adb = Some (cached_result (tl_json call) p, adb)"
    using assms(4-6) by (cases "tl_readOnly call") (auto simp: invoke_call_def invokeTransactionFunction_def)
  then show ?thesis using assms(1) by (simp add: transaction_step_def split: prod.splits)
qed

text \<open>C19: a transaction on an application database takes effect once, and never without its record. Let any number of processes handle the
  same step of a workflow, one after another crashes or at the same time, with other activity between their statements that leaves the
  step's record alone, and with commits that are rejected or whose outcome is not reported. Then the steps of all of them together
  change the database at most once: by the effect of the user's function together with the record of its value, or by the
  record of an error without any effect. A handler has an answer only after that change; a value that it returns is the one that the
  function computed in it. The handler's loop is such a run, and once there is a record it returns the recorded
  answer without a change.\<close>

theorem transaction_effect_once:
  fixes db0 :: "'u appdb"
  assumes "(tx_step dj w f func)\<^sup>*\<^sup>* (tx_initial db0) s" and "completed w f db0 = None"
    and "\<forall>u v u'. func u = (Inr v, u') \<longrightarrow> dj_parse dj (dj_stringify dj v) = v \<and> dj_stringify dj v \<noteq> []"
  shows "length (changes s) \<le> 1 \<and>
    (\<forall>a b. (a, b) \<in> set (changes s) \<longrightarrow>
      (\<exists>v u. func (ad_user a) = (Inr v, u) \<and> b = a\<lparr>ad_user := u, ad_completions := ad_completions a @ [value_record dj w f v]\<rparr>) \<or>
      (\<exists>e. b = a\<lparr>ad_completions := ad_completions a @ [failure_record dj w f e]\<rparr>)) \<and>
    (\<forall>r. Returned r \<in> set (sy_handlers s) \<longrightarrow> changes s \<noteq> []) \<and>
    (\<forall>v. Returned (Inr v) \<in> set (sy_handlers s) \<longrightarrow> (\<exists>a b u. changes s = [(a, b)] \<and> func (ad_user a) = (Inr v, u) \<and> ad_user b = u)) \<and>
    (\<forall>fuel others reports r db'. (\<forall>n d. completed w f (others n d) = completed w f d) \<and>
       invoke_loop fuel dj (Some (w, f)) func others reports 0 Checking (sy_db s) = Some (r, db') \<longrightarrow>
       (\<exists>s'. (tx_step dj w f func)\<^sup>*\<^sup>* s s' \<and> sy_db s' = db' \<and> Returned r \<in> set (sy_handlers s'))) \<and>
    (changes s \<noteq> [] \<longrightarrow> (\<exists>r. \<forall>reports. invoke_loop 1 dj (Some (w, f)) func (\<lambda>_ d. d) reports 0 Checking (sy_db s) = Some (r, sy_db s)))"
proof -
  have ok: "tx_ok dj w f func s" using tx.reachable_inv [of "tx_initial db0" w f dj func s] assms(1,2) by blast
  have parse: "dj_parse dj (dj_stringify dj v) = v" "dj_stringify dj v \<noteq> []" if "func u = (Inr v, u')" for u v u'
    using assms(3) that by blast+
  have loop: "\<exists>s'. (tx_step dj w f func)\<^sup>*\<^sup>* s s' \<and> sy_db s' = db' \<and> Returned r \<in> set (sy_handlers s')"
    if keep: "\<forall>n d. completed w f (others n d) = completed w f d"
      and run: "invoke_loop fuel dj (Some (w, f)) func others reports 0 Checking (sy_db s) = Some (r, db')" for fuel others reports r db'
  proof -
    let ?s = "s\<lparr>sy_handlers := sy_handlers s @ [Checking]\<rparr>"
    obtain s' where "(tx_step dj w f func)\<^sup>*\<^sup>* ?s s'" "sy_db s' = db'" "length (sy_handlers s) < length (sy_handlers s')"
        "sy_handlers s' ! length (sy_handlers s) = Returned r"
      using invoke_loop_runs [of w f others fuel dj func reports 0 Checking "sy_db s" r db' "length (sy_handlers s)" ?s] keep run by auto
    moreover from this(3,4) have "Returned r \<in> set (sy_handlers s')" by (metis nth_mem)
    moreover have "tx_step dj w f func s ?s" by (rule tx_step.start)
    ultimately show ?thesis by (blast intro: converse_rtranclp_into_rtranclp)
  qed
  have loops: "\<forall>fuel others reports r db'. (\<forall>n d. completed w f (others n d) = completed w f d) \<and>
       invoke_loop fuel dj (Some (w, f)) func others reports 0 Checking (sy_db s) = Some (r, db') \<longrightarrow>
       (\<exists>s'. (tx_step dj w f func)\<^sup>*\<^sup>* s s' \<and> sy_db s' = db' \<and> Returned r \<in> set (sy_handlers s'))" by (blast intro: loop)
  show ?thesis
  proof (cases "completed w f (sy_db s)")
    case None
    with ok have "changes s = []" "\<And>r. Returned r \<notin> set (sy_handlers s)" by (auto simp: tx_ok_def)
    with loops show ?thesis by (auto simp del: invoke_loop.simps)
  next
    case (Some c)
    with ok obtain a b where ch: "changes s = [(a, b)]" and c: "completes dj w f func a b c"
      and ans: "\<And>r. Returned r \<in> set (sy_handlers s) \<Longrightarrow> answers dj w func c r" by (auto simp: tx_ok_def)
    have val: "\<exists>u. func (ad_user a) = (Inr v, u) \<and> ad_user b = u" if "Returned (Inr v) \<in> set (sy_handlers s)" for v
    proof -
      from ans [OF that] have none: "tc_error c = None"
        and out: "tc_output c = Some (dj_stringify dj v) \<and> (\<exists>u u'. func u = (Inr v, u')) \<or> cached_result dj (Inr (tc_output c)) = Inr v"
        by (auto simp: answers_def)
      from c none obtain v' u where v': "func (ad_user a) = (Inr v', u)" "c = value_record dj w f v'" "ad_user b = u" by (auto simp: completes_def)
      have "cached_result dj (Inr (tc_output c)) = Inr v'" using parse [OF v'(1)] v'(2) by (simp add: cached_result_def truthy_def)
      moreover have "v = v'" if "dj_stringify dj v = dj_stringify dj v'" "func u1 = (Inr v, u2)" for u1 u2
        using arg_cong [OF that(1), of "dj_parse dj"] unfolding parse(1) [OF that(2)] parse(1) [OF v'(1)] .
      ultimately show ?thesis using v' out by auto
    qed
    have again: "\<exists>r. \<forall>reports. invoke_loop 1 dj (Some (w, f)) func (\<lambda>_ d. d) reports 0 Checking (sy_db s) = Some (r, sy_db s)"
      using Some by (auto simp: checkExecution_def numeral_eq_Suc)
    have one: "\<forall>a b. (a, b) \<in> set (changes s) \<longrightarrow>
        (\<exists>v u. func (ad_user a) = (Inr v, u) \<and> b = a\<lparr>ad_user := u, ad_completions := ad_completions a @ [value_record dj w f v]\<rparr>) \<or>
        (\<exists>e. b = a\<lparr>ad_completions := ad_completions a @ [failure_record dj w f e]\<rparr>)" using c unfolding completes_def ch by simp blast
    have some: "length (changes s) \<le> 1" "changes s \<noteq> []" by (simp_all add: ch)
    have vals: "\<forall>v. Returned (Inr v) \<in> set (sy_handlers s) \<longrightarrow> (\<exists>a b u. changes s = [(a, b)] \<and> func (ad_user a) = (Inr v, u) \<and> ad_user b = u)"
      by (intro allI impI, drule val, simp only: ch, blast)
    show ?thesis by (intro conjI some(1) one vals loops impI allI some(2) again)
  qed
qed

text \<open>A counter that is incremented; the reply to the first commit is lost, and the process crashes.\<close>

definition increment :: "int tx_function" where
  "increment u = (Inr (JsNum u), u + 1)"

definition example_ds_json :: ds_json where
  "example_ds_json = \<lparr>dj_stringify = (\<lambda>v. case v of JsNum n \<Rightarrow> show_int n | _ \<Rightarrow> ''null''),
     dj_parse = (\<lambda>t. case JSON_parse t of Some (JNum n) \<Rightarrow> JsNum n | _ \<Rightarrow> JsNull), dj_stringifyError = (\<lambda>e. ''error''),
     dj_parseError = (\<lambda>t. PlainError t)\<rparr>"

lemma show_int_not_empty: "show_int u \<noteq> []"
proof
  assume "show_int u = []"
  with JSON_parse_show_int [of u] have "JSON_parse [] = Some (JNum u)" by simp
  moreover have "JSON_parse [] = None" by code_simp
  ultimately show False by simp
qed

theorem transaction_effect_once_witness:
  "let db0 = \<lparr>ad_user = (5::int), ad_completions = []\<rparr>;
       db1 = \<lparr>ad_user = 6, ad_completions = [value_record example_ds_json ''w'' 0 (JsNum 5)]\<rparr>;
       s = \<lparr>sy_handlers = [RecordingError (PgError ''08006'')], sy_db = db1, sy_commits = [(db0, db0), (db0, db1)]\<rparr>
   in (tx_step example_ds_json ''w'' 0 increment)\<^sup>*\<^sup>* (tx_initial db0) s \<and>
      (\<exists>s'. (tx_step example_ds_json ''w'' 0 increment)\<^sup>*\<^sup>* s s' \<and> sy_db s' = db1 \<and> Returned (Inr (JsNum 5)) \<in> set (sy_handlers s'))"
proof -
  let ?db0 = "\<lparr>ad_user = (5::int), ad_completions = []\<rparr>"
  let ?db1 = "\<lparr>ad_user = (6::int), ad_completions = [value_record example_ds_json ''w'' 0 (JsNum 5)]\<rparr>"
  let ?e = "PgError ''08006''"
  let ?init = "tx_initial ?db0" and ?s1 = "\<lparr>sy_handlers = [Checking], sy_db = ?db0, sy_commits = []\<rparr>"
  let ?s2 = "\<lparr>sy_handlers = [Transacting], sy_db = ?db0, sy_commits = [(?db0, ?db0)]\<rparr>"
  let ?s = "\<lparr>sy_handlers = [RecordingError ?e], sy_db = ?db1, sy_commits = [(?db0, ?db0), (?db0, ?db1)]\<rparr>"
  let ?step = "tx_step example_ds_json ''w'' 0 increment"
  have first: "?step ?init ?s1" using tx_step.start [of example_ds_json "''w''" 0 increment ?init] unfolding tx_initial_def by simp
  have second: "?step ?s1 ?s2"
    using tx_step.handle [of 0 ?s1 example_ds_json "''w''" 0 increment CommitDone Transacting ?db0] by (simp add: checkExecution_def)
  have third: "?step ?s2 ?s"
    using tx_step.handle [of 0 ?s2 example_ds_json "''w''" 0 increment "CommitLost ?e" "RecordingError ?e" ?db1]
    by (simp add: ds_transaction_def transaction_body_saved increment_def isPGRetriableTransactionError_def)
  have run: "?step\<^sup>*\<^sup>* ?init ?s"
    by (rule converse_rtranclp_into_rtranclp [OF first converse_rtranclp_into_rtranclp [OF second r_into_rtranclp [of ?step, OF third]]])
  have law: "\<forall>u v u'. increment u = (Inr v, u') \<longrightarrow>
      dj_parse example_ds_json (dj_stringify example_ds_json v) = v \<and> dj_stringify example_ds_json v \<noteq> []"
    using show_int_not_empty by (auto simp: increment_def example_ds_json_def)
  have "invoke_loop 1 example_ds_json (Some (''w'', 0)) increment (\<lambda>_ d. d) (\<lambda>_. CommitDone) 0 Checking (sy_db ?s) = Some (Inr (JsNum 5), ?db1)"
    by code_simp
  note loop = this
  have "completed ''w'' 0 ?db0 = None" by simp
  note once = transaction_effect_once [OF run this law, THEN conjunct2, THEN conjunct2, THEN conjunct2, THEN conjunct2, THEN conjunct1]
  have "\<exists>s'. ?step\<^sup>*\<^sup>* ?s s' \<and> sy_db s' = ?db1 \<and> Returned (Inr (JsNum 5)) \<in> set (sy_handlers s')"
    by (rule once [THEN spec [where x = 1], THEN spec [where x = "\<lambda>_ d. d"], THEN spec [where x = "\<lambda>_. CommitDone"],
          THEN spec [where x = "Inr (JsNum 5)"], THEN spec [where x = ?db1], THEN mp]) (intro conjI loop allI refl)
  with run show ?thesis unfolding Let_def by blast
qed

end
