(* ===== verification/DBOS_API.thy ===== *)
theory DBOS_API
  imports Scheduler Datasource
begin

text \<open>
  The calls a program makes (\<open>src/dbos.ts\<close>). A call runs in the context of the caller and on the system database, so its state is
  the pair of both; \<open>api_env\<close> is what a call reads of the process and of the world: whether \<open>DBOS.launch\<close> has run, the serializers, the clock
  when it starts and when it ends, the random IDs it draws, the queues declared in the program. \<open>void\<close> results are \<open>JsUndefined\<close>. Times are in milliseconds.
\<close>

section \<open>Calls\<close>

record api_env =
  ae_launched :: bool
  ae_ser :: serialization_env
  ae_now :: int
  ae_end :: int
  ae_uuid :: string
  ae_xid :: string
  ae_globals :: global_params
  ae_queues :: "string \<Rightarrow> WorkflowQueue option"
  ae_enablePatching :: bool
  ae_zones :: zones

type_synonym api_state = "DBOSLocalCtx option \<times> sysdb"
type_synonym 'a api_op = "(api_state, dbos_error, 'a) op"

definition in_db :: "'a db_op \<Rightarrow> 'a api_op" where
  "in_db m = (\<lambda>(c, db). case m db of (r, db') \<Rightarrow> (r, (c, db')))"

definition in_ctx :: "'a ctx_op \<Rightarrow> 'a api_op" where
  "in_ctx m = (\<lambda>(c, db). case m c of (r, c') \<Rightarrow> (r, (c', db)))"

definition ctx_holds :: "(DBOSLocalCtx \<Rightarrow> bool) \<Rightarrow> DBOSLocalCtx option \<Rightarrow> bool" where
  "ctx_holds P c = (case c of None \<Rightarrow> False | Some ctx \<Rightarrow> P ctx)"

abbreviation within_workflow :: "DBOSLocalCtx option \<Rightarrow> bool" where
  "within_workflow \<equiv> ctx_holds DBOS_isWithinWorkflow"

abbreviation in_workflow :: "DBOSLocalCtx option \<Rightarrow> bool" where
  "in_workflow \<equiv> ctx_holds DBOS_isInWorkflow"

abbreviation in_step :: "DBOSLocalCtx option \<Rightarrow> bool" where
  "in_step \<equiv> ctx_holds DBOS_isInStep"

abbreviation in_txn :: "DBOSLocalCtx option \<Rightarrow> bool" where
  "in_txn \<equiv> ctx_holds DBOS_isInTransaction"

definition workflowID_of :: "DBOSLocalCtx option \<Rightarrow> string" where
  "workflowID_of c = coalesce (Option.bind c cx_workflowId) []"

definition invalid_transition :: "string \<Rightarrow> 'a api_op" where
  "invalid_transition msg = throw (DBOSInvalidWorkflowTransitionError msg)"

definition not_launched :: "string \<Rightarrow> dbos_error" where
  "not_launched reason = PlainError (''`DBOS.launch()` must be called before running '' @ reason @ ''.'')"

definition ensureDBOSIsLaunched :: "api_env \<Rightarrow> string \<Rightarrow> unit api_op" where
  "ensureDBOSIsLaunched a reason = (if ae_launched a then ret () else throw (not_launched reason))"

section \<open>Options\<close>

datatype timeout_options = NoTimeout | TimeoutMS int | DeadlineEpochMS int

definition resolveTimeout :: "int \<Rightarrow> timeout_options \<Rightarrow> int option" where
  "resolveTimeout now opts = (case opts of NoTimeout \<Rightarrow> None | TimeoutMS t \<Rightarrow> Some t | DeadlineEpochMS d \<Rightarrow> Some (max 0 (d - now)))"

text \<open>A polling interval that is not a finite number is \<open>Some None\<close>.\<close>

definition resolvePollingIntervalMs :: "int option option \<Rightarrow> dbos_error + int option" where
  "resolvePollingIntervalMs interval = (case interval of
       None \<Rightarrow> Inr None
     | Some (Some i) \<Rightarrow> if i \<le> 0 then Inl (DBOSError ''pollingIntervalMs must be a positive finite number'') else Inr (Some i)
     | Some None \<Rightarrow> Inl (DBOSError ''pollingIntervalMs must be a positive finite number''))"

record SetWorkflowDelayOptions =
  do_delayMS :: "int option"
  do_delayUntilEpochMS :: "int option"

definition resolveDelayEpochMS :: "int \<Rightarrow> int + SetWorkflowDelayOptions \<Rightarrow> dbos_error + int" where
  "resolveDelayEpochMS now opts = (case opts of
       Inl d \<Rightarrow> if d \<le> 0 then Inl (DBOSError ''delaySeconds must be greater than 0'') else Inr (now + d)
     | Inr o' \<Rightarrow>
         (case do_delayUntilEpochMS o' of
            Some t \<Rightarrow> if t \<le> 0 then Inl (DBOSError ''delayUntilEpochMS must be greater than 0'') else Inr t
          | None \<Rightarrow>
              (case do_delayMS o' of
                 Some d \<Rightarrow> if d \<le> 0 then Inl (DBOSError ''delaySeconds must be greater than 0'') else Inr (now + d)
               | None \<Rightarrow> Inl (DBOSError ''SetWorkflowDelayOptions must specify either delaySeconds or delayUntilEpochMS''))))"

definition DBOS_QUEUE_MIN_PRIORITY :: int where
  "DBOS_QUEUE_MIN_PRIORITY = 1"

definition DBOS_QUEUE_MAX_PRIORITY :: int where
  "DBOS_QUEUE_MAX_PRIORITY = 2 ^ 31 - 1"

definition check_priority :: "int \<Rightarrow> unit api_op" where
  "check_priority p = (if p < DBOS_QUEUE_MIN_PRIORITY \<or> p > DBOS_QUEUE_MAX_PRIORITY
     then throw (DBOSInvalidQueuePriorityError p DBOS_QUEUE_MIN_PRIORITY DBOS_QUEUE_MAX_PRIORITY) else ret ())"

section \<open>Internal steps\<close>

definition inside_transaction :: "string \<Rightarrow> string" where
  "inside_transaction funcName = ''Invalid call to `'' @ funcName @ ''` inside a `transaction`''"

definition runInternalStep_call :: "api_env \<Rightarrow> js_value db_op \<Rightarrow> string \<Rightarrow> string option \<Rightarrow> int option \<Rightarrow> js_value api_op" where
  "runInternalStep_call a callback funcName childWFID assignedFuncID = (\<lambda>(c, db).
     if within_workflow c then
       if in_step c then in_db callback (c, db)
       else if in_workflow c then
         and_then (case assignedFuncID of Some f \<Rightarrow> ret f | None \<Rightarrow> in_ctx functionIDGetIncrement) (\<lambda>f.
           in_db (runInternalStep (ae_ser a) (ae_now a) (ae_end a) callback funcName (workflowID_of c) f childWFID)) (c, db)
       else invalid_transition (inside_transaction funcName) (c, db)
     else in_db callback (c, db))"

text \<open>The callback and the record of its result in one transaction; the value returned is the callback's own.\<close>

definition transactional_step :: "api_env \<Rightarrow> js_value db_op \<Rightarrow> string \<Rightarrow> string \<Rightarrow> int \<Rightarrow> js_value db_op" where
  "transactional_step a callback funcName w f db =
     (case runTransactionalStep (ae_now a) (ae_end a) w f funcName (and_then callback (\<lambda>v.
          and_then (lift_sum (sz_stringify (se_serializer (ae_ser a)) (if v = JsUndefined then JsNull else v))) (\<lambda>t. ret (Some t)))) db of
        (Inl e, db') \<Rightarrow> (Inl e, db')
      | (Inr (Some stored), db') \<Rightarrow>
          (if sr_functionName stored \<noteq> funcName then Inl (DBOSUnexpectedStepError w f funcName (sr_functionName stored))
           else reviveResultOrError (ae_ser a) stored, db')
      | (Inr None, db') \<Rightarrow> (fst (callback db), db'))"

definition runTransactionalInternalStep :: "api_env \<Rightarrow> js_value db_op \<Rightarrow> string \<Rightarrow> js_value api_op" where
  "runTransactionalInternalStep a callback funcName = (\<lambda>(c, db).
     if within_workflow c then
       if in_step c then in_db callback (c, db)
       else if in_workflow c then
         and_then (in_ctx functionIDGetIncrement) (\<lambda>f. in_db (transactional_step a callback funcName (workflowID_of c) f)) (c, db)
       else invalid_transition (inside_transaction funcName) (c, db)
     else in_db callback (c, db))"

definition void :: "unit db_op \<Rightarrow> js_value db_op" where
  "void m = and_then m (\<lambda>_. ret JsUndefined)"

section \<open>Managing workflows\<close>

definition DBOS_cancelWorkflows :: "api_env \<Rightarrow> string list \<Rightarrow> bool \<Rightarrow> js_value api_op" where
  "DBOS_cancelWorkflows a workflowIDs cancelChildren = and_then (ensureDBOSIsLaunched a ''cancelWorkflows'') (\<lambda>_.
     runInternalStep_call a (void (cancelWorkflows (ae_now a) workflowIDs cancelChildren)) ''DBOS.cancelWorkflow'' None None)"

definition DBOS_retrieveWorkflow :: "api_env \<Rightarrow> string \<Rightarrow> workflow_handle api_op" where
  "DBOS_retrieveWorkflow a workflowID = and_then (ensureDBOSIsLaunched a ''retrieveWorkflow'') (\<lambda>_ (c, db).
     if within_workflow c \<and> \<not> in_workflow c
     then invalid_transition ''Invalid call to `retrieveWorkflow` inside a `transaction` or `step`'' (c, db)
     else ret (RetrievedHandle workflowID) (c, db))"

fun retrieve_all :: "api_env \<Rightarrow> string list \<Rightarrow> workflow_handle list api_op" where
  "retrieve_all a [] = ret []"
| "retrieve_all a (w # ws) = and_then (DBOS_retrieveWorkflow a w) (\<lambda>h. and_then (retrieve_all a ws) (\<lambda>hs. ret (h # hs)))"

definition DBOS_resumeWorkflows :: "api_env \<Rightarrow> string list \<Rightarrow> string option \<Rightarrow> workflow_handle list api_op" where
  "DBOS_resumeWorkflows a workflowIDs queueName = and_then (ensureDBOSIsLaunched a ''resumeWorkflows'') (\<lambda>_.
     and_then (runInternalStep_call a (void (resumeWorkflows (ae_now a) workflowIDs queueName)) ''DBOS.resumeWorkflow'' None None) (\<lambda>_.
       retrieve_all a workflowIDs))"

definition DBOS_deleteWorkflows :: "api_env \<Rightarrow> string list \<Rightarrow> bool \<Rightarrow> js_value api_op" where
  "DBOS_deleteWorkflows a workflowIDs deleteChildren = and_then (ensureDBOSIsLaunched a ''deleteWorkflows'') (\<lambda>_.
     runInternalStep_call a (void (deleteWorkflows workflowIDs deleteChildren)) ''DBOS.deleteWorkflow'' None None)"

definition DBOS_setWorkflowPriority :: "api_env \<Rightarrow> string \<Rightarrow> int \<Rightarrow> js_value api_op" where
  "DBOS_setWorkflowPriority a workflowID priority = and_then (ensureDBOSIsLaunched a ''setWorkflowPriority'') (\<lambda>_.
     and_then (check_priority priority) (\<lambda>_.
       runInternalStep_call a (void (setWorkflowPriority (ae_now a) workflowID priority)) ''DBOS.setWorkflowPriority'' None None))"

definition DBOS_setWorkflowDelay :: "api_env \<Rightarrow> string \<Rightarrow> int + SetWorkflowDelayOptions \<Rightarrow> js_value api_op" where
  "DBOS_setWorkflowDelay a workflowID opts = and_then (ensureDBOSIsLaunched a ''setWorkflowDelay'') (\<lambda>_.
     and_then (lift_sum (resolveDelayEpochMS (ae_now a) opts)) (\<lambda>t.
       runInternalStep_call a (void (setWorkflowDelay (ae_now a) workflowID t)) ''DBOS.setWorkflowDelay'' None None))"

text \<open>
  A fork without an ID takes the one assigned for the next workflow, within the step: a recorded step does not run, so that it
  leaves the assigned ID in the context.
\<close>

definition fork_callback :: "api_env \<Rightarrow> string \<Rightarrow> int \<Rightarrow> string option \<Rightarrow> fork_options \<Rightarrow> DBOSLocalCtx option \<Rightarrow> js_value db_op" where
  "fork_callback a workflowID startStep newWorkflowID opts c =
     (let newID = (case newWorkflowID of Some i \<Rightarrow> Some i | None \<Rightarrow> (case fst (getNextWFID None c) of Inr i \<Rightarrow> i | Inl _ \<Rightarrow> None)) in
      and_then (forkWorkflow (ae_now a) (ae_uuid a) workflowID startStep newID opts) (\<lambda>i. ret (JsStr i)))"

definition fork_runs :: "DBOSLocalCtx option \<Rightarrow> sysdb \<Rightarrow> bool" where
  "fork_runs c db =
     (if in_workflow c
      then (case functionIDGetIncrement c of
              (Inr f, _) \<Rightarrow> fst (getOperationResultAndThrowIfCancelled (workflowID_of c) f db) = Inr None
            | _ \<Rightarrow> False)
      else within_workflow c \<longrightarrow> in_step c)"

definition DBOS_forkWorkflow :: "api_env \<Rightarrow> string \<Rightarrow> int \<Rightarrow> string option \<Rightarrow> fork_options \<Rightarrow> workflow_handle api_op" where
  "DBOS_forkWorkflow a workflowID startStep newWorkflowID opts = and_then (ensureDBOSIsLaunched a ''forkWorkflow'') (\<lambda>_ (c, db).
     case runInternalStep_call a (fork_callback a workflowID startStep newWorkflowID opts c) ''DBOS.forkWorkflow'' None None (c, db) of
       (r, (c1, db1)) \<Rightarrow>
         (let c2 = (if newWorkflowID = None \<and> fork_runs c db
                    then snd (getNextWFID None c1) else c1) in
          and_then (lift_sum r) (\<lambda>v. DBOS_retrieveWorkflow a (case v of JsStr i \<Rightarrow> i | _ \<Rightarrow> [])) (c2, db1)))"

section \<open>Time and randomness\<close>

definition DBOS_sleepms :: "api_env \<Rightarrow> int \<Rightarrow> js_value api_op" where
  "DBOS_sleepms a durationMS = (\<lambda>(c, db).
     if within_workflow c \<and> \<not> in_step c then
       if in_txn c then invalid_transition ''Invalid call to `DBOS.sleep` inside a `transaction`'' (c, db)
       else and_then (in_ctx functionIDGetIncrement) (\<lambda>f.
         if durationMS \<le> 0 then ret JsUndefined
         else and_then (in_db (durableSleep (ae_now a) (workflowID_of c) f durationMS)) (\<lambda>_. ret JsUndefined)) (c, db)
     else ret JsUndefined (c, db))"

definition DBOS_now :: "api_env \<Rightarrow> js_value api_op" where
  "DBOS_now a = (\<lambda>(c, db). if in_workflow c
     then runInternalStep_call a (ret (JsNum (ae_now a))) ''DBOS.now'' None None (c, db) else ret (JsNum (ae_now a)) (c, db))"

definition DBOS_randomUUID :: "api_env \<Rightarrow> js_value api_op" where
  "DBOS_randomUUID a = (\<lambda>(c, db). if in_workflow c
     then runInternalStep_call a (ret (JsStr (ae_uuid a))) ''DBOS.randomUUID'' None None (c, db) else ret (JsStr (ae_uuid a)) (c, db))"

section \<open>Messages, events and streams\<close>

definition default_type :: "WorkflowSerializationFormat option \<Rightarrow> DBOSLocalCtx option \<Rightarrow> WorkflowSerializationFormat option" where
  "default_type fmt c = coalesce_opt fmt (Option.bind c cx_serializationType)"

definition DBOS_send ::
  "api_env \<Rightarrow> string \<Rightarrow> js_value \<Rightarrow> string option \<Rightarrow> string option \<Rightarrow> WorkflowSerializationFormat option \<Rightarrow> js_value api_op" where
  "DBOS_send a destinationID message topic idempotencyKey fmt = and_then (ensureDBOSIsLaunched a ''send'') (\<lambda>_ (c, db).
     let sermsg = lift_sum (serializeValue (ae_ser a) message (default_type fmt c)) in
     if in_workflow c then
       and_then (in_ctx functionIDGetIncrement) (\<lambda>f. and_then sermsg (\<lambda>m.
         in_db (void (send (ae_now a) (ae_end a) (ae_uuid a) (workflowID_of c) f destinationID (sv_serializedValue m) topic
           (sv_serialization m) idempotencyKey)))) (c, db)
     else
       and_then sermsg (\<lambda>m.
         in_db (void (sendDirect (ae_now a) (ae_uuid a) destinationID (sv_serializedValue m) topic (sv_serialization m) idempotencyKey))) (c, db))"

definition DBOS_setEvent :: "api_env \<Rightarrow> string \<Rightarrow> js_value \<Rightarrow> WorkflowSerializationFormat option \<Rightarrow> js_value api_op" where
  "DBOS_setEvent a key value fmt = and_then (ensureDBOSIsLaunched a ''setEvent'') (\<lambda>_ (c, db).
     if within_workflow c then
       if \<not> in_workflow c then invalid_transition ''Invalid call to `DBOS.setEvent` inside a `step` or `transaction`'' (c, db)
       else and_then (in_ctx functionIDGetIncrement) (\<lambda>f.
         and_then (lift_sum (serializeValue (ae_ser a) value (default_type fmt c))) (\<lambda>v.
           in_db (void (setEvent (ae_now a) (ae_end a) (workflowID_of c) f key (sv_serializedValue v) (sv_serialization v))))) (c, db)
     else invalid_transition ''Attempt to call `DBOS.setEvent` outside of a workflow'' (c, db))"

definition DBOS_writeStream :: "api_env \<Rightarrow> string \<Rightarrow> js_value \<Rightarrow> WorkflowSerializationFormat option \<Rightarrow> js_value api_op" where
  "DBOS_writeStream a key value fmt = and_then (ensureDBOSIsLaunched a ''writeStream'') (\<lambda>_ (c, db).
     let serval = lift_sum (serializeValue (ae_ser a) value (default_type fmt c)) in
     if in_workflow c then
       and_then (in_ctx functionIDGetIncrement) (\<lambda>f. and_then serval (\<lambda>v.
         in_db (void (writeStreamFromWorkflow (ae_now a) (ae_end a) (workflowID_of c) f key (coalesce (sv_serializedValue v) [])
           (sv_serialization v) ''DBOS.writeStream'')))) (c, db)
     else if in_step c then
       and_then serval (\<lambda>v. in_db (void (writeStreamFromStep (workflowID_of c) (coalesce (Option.bind c DBOS_stepID) 0) key
         (coalesce (sv_serializedValue v) []) (sv_serialization v)))) (c, db)
     else invalid_transition ''Invalid call to `DBOS.writeStream` outside of a workflow or step'' (c, db))"

definition DBOS_closeStream :: "api_env \<Rightarrow> string \<Rightarrow> js_value api_op" where
  "DBOS_closeStream a key = and_then (ensureDBOSIsLaunched a ''closeStream'') (\<lambda>_ (c, db).
     if within_workflow c then
       if in_workflow c then
         and_then (in_ctx functionIDGetIncrement) (\<lambda>f. in_db (void (closeStream (ae_now a) (ae_end a) (workflowID_of c) f key))) (c, db)
       else invalid_transition ''Invalid call to `DBOS.closeStream` outside of a workflow or step'' (c, db)
     else invalid_transition ''Invalid call to `DBOS.closeStream` outside of a workflow'' (c, db))"

text \<open>Calls that wait take the world and the fuel of the polling loop; \<open>None\<close> means that the loop is still waiting.\<close>

type_synonym api_wait = "DBOSLocalCtx option \<times> world \<Rightarrow> ((dbos_error + js_value) \<times> DBOSLocalCtx option \<times> world) option"

definition defaultNotificationTimeoutMS :: int where
  "defaultNotificationTimeoutMS = 60000"

definition dbPollingIntervalEventMs :: int where
  "dbPollingIntervalEventMs = 10000"

definition waited ::
  "serialization_env \<Rightarrow> DBOSLocalCtx option \<Rightarrow> ((dbos_error + string option \<times> string option) \<times> world) option \<Rightarrow>
   ((dbos_error + js_value) \<times> DBOSLocalCtx option \<times> world) option" where
  "waited env c r = map_option (\<lambda>(res, w). (case res of Inl e \<Rightarrow> Inl e | Inr (v, ser) \<Rightarrow> deserializeValue env v ser, c, w)) r"

definition two_ids :: "(int \<times> int) ctx_op" where
  "two_ids = and_then functionIDGetIncrement (\<lambda>f. and_then functionIDGetIncrement (\<lambda>g. ret (f, g)))"

definition DBOS_recv :: "nat \<Rightarrow> (int \<Rightarrow> world \<Rightarrow> world) \<Rightarrow> api_env \<Rightarrow> string option \<Rightarrow> timeout_options \<Rightarrow> int option option \<Rightarrow> api_wait" where
  "DBOS_recv fuel env a topic opts interval = (\<lambda>(c, w).
     if \<not> ae_launched a then Some (Inl (not_launched ''recv''), c, w)
     else if within_workflow c then
       if \<not> in_workflow c
       then Some (Inl (DBOSInvalidWorkflowTransitionError ''Invalid call to `DBOS.recv` inside a `step` or `transaction`''), c, w)
       else (case two_ids c of
           (Inl e, c') \<Rightarrow> Some (Inl e, c', w)
         | (Inr (f, g), c') \<Rightarrow>
             (case resolvePollingIntervalMs interval of
                Inl e \<Rightarrow> Some (Inl e, c', w)
              | Inr poll \<Rightarrow> waited (ae_ser a) c' (recv fuel env (workflowID_of c) f g topic
                  (coalesce (resolveTimeout (snd w) opts) defaultNotificationTimeoutMS) (coalesce poll dbPollingIntervalEventMs) w)))
     else Some (Inl (DBOSInvalidWorkflowTransitionError ''Attempt to call `DBOS.recv` outside of a workflow''), c, w))"

definition DBOS_getEvent ::
  "nat \<Rightarrow> (int \<Rightarrow> world \<Rightarrow> world) \<Rightarrow> api_env \<Rightarrow> string \<Rightarrow> string \<Rightarrow> timeout_options \<Rightarrow> int option option \<Rightarrow> api_wait" where
  "DBOS_getEvent fuel env a workflowID key opts interval = (\<lambda>(c, w).
     if \<not> ae_launched a then Some (Inl (not_launched ''getEvent''), c, w)
     else case resolvePollingIntervalMs interval of
       Inl e \<Rightarrow> Some (Inl e, c, w)
     | Inr poll \<Rightarrow>
         (let timeoutms = coalesce (resolveTimeout (snd w) opts) defaultNotificationTimeoutMS;
              pollms = coalesce poll dbPollingIntervalEventMs in
          if within_workflow c then
            if \<not> in_workflow c
            then Some (Inl (DBOSInvalidWorkflowTransitionError ''Invalid call to `DBOS.getEvent` inside a `step` or `transaction`''), c, w)
            else (case two_ids c of
                (Inl e, c') \<Rightarrow> Some (Inl e, c', w)
              | (Inr (f, g), c') \<Rightarrow> waited (ae_ser a) c' (getEvent fuel env workflowID key timeoutms
                  (Some \<lparr>cw_workflowID = workflowID_of c, cw_functionID = f, cw_timeoutFunctionID = g\<rparr>) pollms w))
          else waited (ae_ser a) c (getEvent fuel env workflowID key timeoutms None pollms w)))"

section \<open>Steps and patches\<close>

text \<open>Within a step, and outside of workflows, the function is called as it is.\<close>

definition call_directly :: "step_function \<Rightarrow> js_value api_op" where
  "call_directly func = (\<lambda>(c, db). case func (coalesce c empty_ctx) db of ((_, r), db') \<Rightarrow> (r, (c, db')))"

definition outside_workflow :: "string \<Rightarrow> js_value api_op \<Rightarrow> js_value api_op" where
  "outside_workflow name m = and_then (in_ctx (getNextWFID None)) (\<lambda>assigned.
     if truthy assigned
     then invalid_transition (''Invalid call to step '' @ [CHR 0x27] @ name @ [CHR 0x27] @ '' outside of a workflow; with directive to start a workflow.'')
     else m)"

definition step_call :: "api_env \<Rightarrow> string \<Rightarrow> string \<Rightarrow> StepConfig \<Rightarrow> step_function \<Rightarrow> js_value api_op" where
  "step_call a inTransaction name config func = and_then (ensureDBOSIsLaunched a ''steps'') (\<lambda>_ (c, db).
     if within_workflow c then
       if in_txn c then invalid_transition inTransaction (c, db)
       else if in_step c then call_directly func (c, db)
       else (case callStepFunction (ae_ser a) (ae_now a) (ae_end a) name (Some config) func c db of (r, c', db') \<Rightarrow> (r, (c', db')))
     else outside_workflow name (call_directly func) (c, db))"

definition DBOS_runStep :: "api_env \<Rightarrow> string \<Rightarrow> StepConfig \<Rightarrow> step_function \<Rightarrow> js_value api_op" where
  "DBOS_runStep a = step_call a ''Invalid call to a runStep from within a `transaction`''"

definition registerStep_wrapper :: "api_env \<Rightarrow> string \<Rightarrow> StepConfig \<Rightarrow> step_function \<Rightarrow> js_value api_op" where
  "registerStep_wrapper a = step_call a ''Invalid call to a `step` function from within a `transaction`''"

definition check_patch :: "api_env \<Rightarrow> string \<Rightarrow> bool \<Rightarrow> string \<Rightarrow> js_value api_op" where
  "check_patch a funcName deprecated patchName = (\<lambda>(c, db).
     if \<not> in_workflow c
     then invalid_transition (''`'' @ funcName @ ''` must be called from a workflow, and not within a step'') (c, db)
     else if \<not> ae_enablePatching a
     then invalid_transition ''Patching is not enabled.  See `enablePatching` in `DBOSConfig`'' (c, db)
     else and_then (in_ctx functionIDGet) (\<lambda>f.
       and_then (in_db (checkPatch (ae_now a) (workflowID_of c) f patchName deprecated)) (\<lambda>patched.
         and_then (if pr_hasEntry patched then in_ctx functionIDGetIncrement else ret 0) (\<lambda>_. ret (JsBool (pr_isPatched patched))))) (c, db))"

definition DBOS_patch :: "api_env \<Rightarrow> string \<Rightarrow> js_value api_op" where
  "DBOS_patch a = check_patch a ''DBOS.patch'' False"

definition DBOS_deprecatePatch :: "api_env \<Rightarrow> string \<Rightarrow> js_value api_op" where
  "DBOS_deprecatePatch a = check_patch a ''DBOS.deprecatePatch'' True"

section \<open>Starting workflows\<close>

record StartWorkflowParams =
  sp_workflowID :: "string option"
  sp_queueName :: "string option"
  sp_timeoutMS :: "int option option"
  sp_enqueueOptions :: EnqueueOptions
  sp_returnExisting :: bool
  sp_workflowAttributes :: "json option"

text \<open>Attributes are JSON values here, which are always serializable.\<close>

definition validateWorkflowAttributes :: "json option \<Rightarrow> dbos_error option" where
  "validateWorkflowAttributes attributes =
     (let invalid = (\<lambda>t. Some (DBOSError (''Invalid workflow attributes: must be a key-value object, got '' @ t @ ''.''))) in
      case attributes of
        None \<Rightarrow> None
      | Some JNull \<Rightarrow> None
      | Some (JObj _) \<Rightarrow> None
      | Some (JArr _) \<Rightarrow> invalid ''array''
      | Some (JStr _) \<Rightarrow> invalid ''string''
      | Some (JNum _) \<Rightarrow> invalid ''number''
      | Some (JBool _) \<Rightarrow> invalid ''boolean'')"

text \<open>What a workflow is called on: nothing or a class, a configured instance by its name, or another object.\<close>

datatype call_target = StaticTarget | InstanceTarget string | OtherObject

definition plain_error :: "bool \<Rightarrow> dbos_error \<Rightarrow> unit api_op" where
  "plain_error bad e = (if bad then throw e else ret ())"

definition validate_queued :: "string \<Rightarrow> EnqueueOptions \<Rightarrow> WorkflowQueue option \<Rightarrow> unit api_op" where
  "validate_queued queueName opts inMem =
     (let key = eo_queuePartitionKey opts; priority = eo_priority opts in
      and_then (case priority of Some p \<Rightarrow> check_priority p | None \<Rightarrow> ret ()) (\<lambda>_.
      and_then (plain_error (truthy key \<and> truthy (eo_deduplicationID opts))
          (PlainError ''Deduplication is not supported for partitioned queues'')) (\<lambda>_.
      case inMem of
        None \<Rightarrow> ret ()
      | Some q \<Rightarrow>
          and_then (plain_error (wq_partitionQueue q \<and> \<not> truthy key)
              (PlainError (''A workflow cannot be enqueued on partitioned queue '' @ queueName @ '' without a partition key''))) (\<lambda>_.
          and_then (plain_error (truthy key \<and> \<not> wq_partitionQueue q)
              (PlainError (''You can only use a partition key on a partition-enabled queue. Key '' @ coalesce key [] @
                '' was used with non-partitioned queue '' @ queueName))) (\<lambda>_.
          plain_error (priority \<noteq> None \<and> \<not> wq_priorityEnabled q)
              (PlainError (''Priority is not enabled for queue '' @ queueName @ ''. Setting priority will not have any effect.'')))))))"

definition enqueue_only :: "EnqueueOptions \<Rightarrow> string list" where
  "enqueue_only opts = (if eo_deduplicationID opts \<noteq> None then [''deduplicationID''] else []) @
     (if eo_priority opts \<noteq> None then [''priority''] else []) @
     (if eo_queuePartitionKey opts \<noteq> None then [''queuePartitionKey''] else []) @
     (if eo_delayMS opts \<noteq> None then [''delaySeconds''] else [])"

definition validate_enqueue :: "api_env \<Rightarrow> string option \<Rightarrow> EnqueueOptions \<Rightarrow> unit api_op" where
  "validate_enqueue a queueName opts =
     (if truthy queueName then validate_queued (coalesce queueName []) opts (ae_queues a (coalesce queueName []))
      else plain_error (enqueue_only opts \<noteq> [])
        (DBOSError (''Enqueue option(s) '' @ js_join '', '' (enqueue_only opts) @ '' set on a workflow that is not being enqueued. '' @
          ''These options are only supported when enqueueing a workflow onto a queue.'')))"

definition invokeRegOp :: "api_env \<Rightarrow> registration \<Rightarrow> InternalWorkflowParams \<Rightarrow> DBOSLocalCtx option \<Rightarrow> string option \<Rightarrow> int option \<Rightarrow> js_value list \<Rightarrow>
  workflow_handle db_op" where
  "invokeRegOp a reg params ctx callerID callerFunctionID args =
     (if rg_workflowConfig reg \<noteq> None
      then internalWorkflow (ae_ser a) (ae_now a) (ae_globals a) (ae_uuid a) (ae_xid a) (rg_name reg) (rg_className reg) (Some reg)
             params ctx callerID callerFunctionID args
      else if rg_stepConfig reg \<noteq> None
      then internalWorkflow (ae_ser a) (ae_now a) (ae_globals a) (ae_uuid a) (ae_xid a) tempWorkflowName [] None
             (params\<lparr>wp_tempWfType := Some ''step'', wp_tempWfName := Some (rg_name reg), wp_tempWfClass := Some (rg_className reg)\<rparr>)
             ctx callerID callerFunctionID args
      else throw (DBOSNotRegisteredError (rg_name reg)))"

definition start_params :: "call_target \<Rightarrow> StartWorkflowParams \<Rightarrow> DBOSLocalCtx option \<Rightarrow> string option \<Rightarrow> int option \<Rightarrow> InternalWorkflowParams" where
  "start_params target params ctx workflowUUID deadline =
     \<lparr>wp_workflowUUID = workflowUUID,
      wp_configuredInstance = (case target of InstanceTarget i \<Rightarrow> Some i | _ \<Rightarrow> None),
      wp_queueName = coalesce_opt (sp_queueName params) (Option.bind ctx cx_queueAssignedForWorkflows),
      wp_executeWorkflow = False,
      wp_timeoutMS = coalesce_opt (coalesce (sp_timeoutMS params) None) (coalesce (Option.bind ctx cx_workflowTimeoutMS) None),
      wp_deadlineEpochMS = deadline,
      wp_enqueueOptions = sp_enqueueOptions params,
      wp_returnExisting = sp_returnExisting params,
      wp_workflowAttributes = sp_workflowAttributes params,
      wp_tempWfType = None, wp_tempWfName = None, wp_tempWfClass = None,
      wp_isRecoveryDispatch = False, wp_isQueueDispatch = False\<rparr>"

definition child_deadline :: "StartWorkflowParams \<Rightarrow> DBOSLocalCtx option \<Rightarrow> int option" where
  "child_deadline params ctx =
     (if sp_timeoutMS params = Some None \<or> Option.bind ctx cx_workflowTimeoutMS = Some None then None
      else Option.bind ctx cx_deadlineEpochMS)"

definition invokeWorkflow ::
  "api_env \<Rightarrow> call_target \<Rightarrow> registration \<Rightarrow> js_value list \<Rightarrow> StartWorkflowParams \<Rightarrow> int option \<Rightarrow> workflow_handle api_op" where
  "invokeWorkflow a target reg args params startWfFuncId =
     and_then (ensureDBOSIsLaunched a ''workflows'') (\<lambda>_.
     and_then (case validateWorkflowAttributes (sp_workflowAttributes params) of Some e \<Rightarrow> throw e | None \<Rightarrow> ret ()) (\<lambda>_.
     and_then (in_ctx (getNextWFID (sp_workflowID params))) (\<lambda>wfId.
     and_then (gets fst) (\<lambda>ctx.
     if target = OtherObject
     then invalid_transition ''Attempt to call a `workflow` function on an object that is not a `ConfiguredInstance`''
     else if within_workflow ctx \<and> \<not> in_workflow ctx
     then invalid_transition ''Invalid call to a `workflow` function from within a `step` or `transaction`''
     else
       and_then (if within_workflow ctx then (case startWfFuncId of Some f \<Rightarrow> ret (Some f)
           | None \<Rightarrow> and_then (in_ctx functionIDGetIncrement) (\<lambda>f. ret (Some f))) else ret None) (\<lambda>funcId.
       and_then (validate_enqueue a (coalesce_opt (sp_queueName params) (Option.bind ctx cx_queueAssignedForWorkflows)) (sp_enqueueOptions params)) (\<lambda>_.
       and_then (gets fst) (\<lambda>ctx'.
       in_db (case funcId of
           Some f \<Rightarrow>
             (let pwfid = workflowID_of ctx;
                  uuid = (if truthy wfId then coalesce wfId [] else pwfid @ ''-'' @ show_int f) in
              invokeRegOp a reg (start_params target params ctx (Some uuid) (child_deadline params ctx)) ctx' (Some pwfid) (Some f) args)
         | None \<Rightarrow> invokeRegOp a reg (start_params target params ctx wfId None) ctx' None None args))))))))"

text \<open>
  \<open>return-existing\<close>: on a duplicate the workflow that holds the deduplication ID is looked up, and when it is gone by then the start
  is tried again. \<open>envs n\<close> is the environment of round \<open>n\<close>, \<open>others n\<close> what other processes do between the two statements of that round.
\<close>

fun singleton_loop ::
  "nat \<Rightarrow> (nat \<Rightarrow> api_env) \<Rightarrow> (nat \<Rightarrow> sysdb \<Rightarrow> sysdb) \<Rightarrow> nat \<Rightarrow> call_target \<Rightarrow> registration \<Rightarrow> js_value list \<Rightarrow> StartWorkflowParams \<Rightarrow> int option \<Rightarrow>
   string \<Rightarrow> string \<Rightarrow> api_state \<Rightarrow> ((dbos_error + workflow_handle) \<times> api_state) option" where
  "singleton_loop 0 envs others n target reg args params childFuncId queueName dedupID s = None"
| "singleton_loop (Suc fuel) envs others n target reg args params childFuncId queueName dedupID s =
     (case invokeWorkflow (envs n) target reg args params childFuncId s of
        (Inr h, s1) \<Rightarrow> Some (Inr h, s1)
      | (Inl e, (c1, db1)) \<Rightarrow>
          if \<not> is_queue_duplicated e then Some (Inl e, (c1, db1))
          else (let db2 = others n db1; existingID = getDeduplicatedWorkflow queueName dedupID db2 in
            if truthy existingID then
              Some (and_then (case childFuncId of
                  Some f \<Rightarrow> in_db (recordOperationResult (workflowID_of c1) f (rg_name reg) True (ae_now (envs n)) (ae_now (envs n))
                    \<lparr>po_childWorkflowID = existingID, po_output = None, po_error = None, po_serialization = None\<rparr>)
                | None \<Rightarrow> ret ()) (\<lambda>_. ret (RetrievedHandle (coalesce existingID []))) (c1, db2))
            else singleton_loop fuel envs others (Suc n) target reg args params childFuncId queueName dedupID (c1, db2)))"

definition invokeSingletonWorkflow ::
  "nat \<Rightarrow> (nat \<Rightarrow> api_env) \<Rightarrow> (nat \<Rightarrow> sysdb \<Rightarrow> sysdb) \<Rightarrow> call_target \<Rightarrow> registration \<Rightarrow> js_value list \<Rightarrow> StartWorkflowParams \<Rightarrow> api_state \<Rightarrow>
   ((dbos_error + workflow_handle) \<times> api_state) option" where
  "invokeSingletonWorkflow fuel envs others target reg args params s =
     (if \<not> truthy (sp_queueName params)
      then Some (invalid_transition ''`duplicationPolicy: 'return-existing'` requires a `queueName`'' s)
      else if \<not> truthy (eo_deduplicationID (sp_enqueueOptions params))
      then Some (invalid_transition ''`duplicationPolicy: 'return-existing'` requires `enqueueOptions.deduplicationID`'' s)
      else
        (case and_then (if in_workflow (fst s) then and_then (in_ctx functionIDGetIncrement) (\<lambda>f. ret (Some f)) else ret None) (\<lambda>childFuncId.
            and_then (in_ctx (getNextWFID (sp_workflowID params))) (\<lambda>resolved. ret (childFuncId, resolved))) s of
           (Inl e, s1) \<Rightarrow> Some (Inl e, s1)
         | (Inr (childFuncId, resolved), s1) \<Rightarrow>
             singleton_loop fuel envs others 0 target reg args (if resolved = None then params else params\<lparr>sp_workflowID := resolved\<rparr>)
               childFuncId (coalesce (sp_queueName params) []) (coalesce (eo_deduplicationID (sp_enqueueOptions params)) []) s1))"

definition DBOS_startWorkflow ::
  "nat \<Rightarrow> (nat \<Rightarrow> api_env) \<Rightarrow> (nat \<Rightarrow> sysdb \<Rightarrow> sysdb) \<Rightarrow> call_target \<Rightarrow> string \<Rightarrow> registration option \<Rightarrow> js_value list \<Rightarrow> StartWorkflowParams \<Rightarrow> api_state \<Rightarrow>
   ((dbos_error + workflow_handle) \<times> api_state) option" where
  "DBOS_startWorkflow fuel envs others target name regOp args params s =
     (if \<not> ae_launched (envs 0) then Some (throw (not_launched ''workflows'') s)
      else if target = OtherObject
      then Some (invalid_transition ''Attempt to call `startWorkflow` on an object that is not a `ConfiguredInstance`'' s)
      else case regOp of
        None \<Rightarrow> Some (throw (DBOSNotRegisteredError name) s)
      | Some reg \<Rightarrow>
          if sp_returnExisting params then invokeSingletonWorkflow fuel envs others target reg args params s
          else Some (invokeWorkflow (envs 0) target reg args params None s))"

section \<open>Contexts\<close>

text \<open>The options that are given (\<open>Some\<close>), each with a value that may be undefined.\<close>

record DBOSContextOptions =
  co_idAssignedForNextWorkflow :: "string option option"
  co_queueAssignedForWorkflows :: "string option option"
  co_authenticatedUser :: "string option option"
  co_authenticatedRoles :: "string list option option"
  co_assumedRole :: "string option option"
  co_request :: "json option option"
  co_workflowTimeoutMS :: "int option option option"
  co_serializationType :: "WorkflowSerializationFormat option option"

definition overwrite :: "DBOSContextOptions \<Rightarrow> DBOSLocalCtx \<Rightarrow> DBOSLocalCtx" where
  "overwrite opts ctx = ctx\<lparr>
     cx_idAssignedForNextWorkflow := coalesce (co_idAssignedForNextWorkflow opts) (cx_idAssignedForNextWorkflow ctx),
     cx_queueAssignedForWorkflows := coalesce (co_queueAssignedForWorkflows opts) (cx_queueAssignedForWorkflows ctx),
     cx_authenticatedUser := coalesce (co_authenticatedUser opts) (cx_authenticatedUser ctx),
     cx_authenticatedRoles := coalesce (co_authenticatedRoles opts) (cx_authenticatedRoles ctx),
     cx_assumedRole := coalesce (co_assumedRole opts) (cx_assumedRole ctx),
     cx_request := coalesce (co_request opts) (cx_request ctx),
     cx_workflowTimeoutMS := coalesce (co_workflowTimeoutMS opts) (cx_workflowTimeoutMS ctx),
     cx_serializationType := coalesce (co_serializationType opts) (cx_serializationType ctx)\<rparr>"

definition existing_values :: "DBOSContextOptions \<Rightarrow> DBOSLocalCtx \<Rightarrow> DBOSContextOptions" where
  "existing_values opts pctx = \<lparr>
     co_idAssignedForNextWorkflow = map_option (\<lambda>_. cx_idAssignedForNextWorkflow pctx) (co_idAssignedForNextWorkflow opts),
     co_queueAssignedForWorkflows = map_option (\<lambda>_. cx_queueAssignedForWorkflows pctx) (co_queueAssignedForWorkflows opts),
     co_authenticatedUser = map_option (\<lambda>_. cx_authenticatedUser pctx) (co_authenticatedUser opts),
     co_authenticatedRoles = map_option (\<lambda>_. cx_authenticatedRoles pctx) (co_authenticatedRoles opts),
     co_assumedRole = map_option (\<lambda>_. cx_assumedRole pctx) (co_assumedRole opts),
     co_request = map_option (\<lambda>_. cx_request pctx) (co_request opts),
     co_workflowTimeoutMS = map_option (\<lambda>_. cx_workflowTimeoutMS pctx) (co_workflowTimeoutMS opts),
     co_serializationType = map_option (\<lambda>_. cx_serializationType pctx) (co_serializationType opts)\<rparr>"

definition withTopContext :: "DBOSContextOptions \<Rightarrow> 'a api_op \<Rightarrow> 'a api_op" where
  "withTopContext opts callback = (\<lambda>(c, db).
     case c of
       Some pctx \<Rightarrow>
         (case callback (Some (overwrite opts pctx), db) of
            (r, (c', db')) \<Rightarrow> (r, (map_option (overwrite (existing_values opts pctx)) c', db')))
     | None \<Rightarrow> (case callback (Some (overwrite opts empty_ctx), db) of (r, (_, db')) \<Rightarrow> (r, (None, db'))))"

section \<open>Schedules, versions and queues\<close>

record schedule_spec =
  sl_scheduleName :: string
  sl_isInstance :: bool
  sl_funcName :: string
  sl_className :: string
  sl_schedule :: string
  sl_context :: js_value
  sl_automaticBackfill :: "bool option"
  sl_cronTimezone :: "string option"
  sl_queueName :: "string option"

definition validate_zone :: "api_env \<Rightarrow> string option \<Rightarrow> dbos_error + unit" where
  "validate_zone a tz = (if truthy tz then validateTimezone (ae_zones a) (coalesce tz []) else Inr ())"

text \<open>A schedule's record; \<open>scheduleId\<close> is a fresh ID.\<close>

definition internal_schedule :: "api_env \<Rightarrow> string \<Rightarrow> schedule_spec \<Rightarrow> dbos_error + WorkflowScheduleInternal" where
  "internal_schedule a scheduleId sched =
     (if sl_isInstance sched then Inl (DBOSError (''Cannot schedule instance method \"'' @ sl_funcName sched @
        ''\". Only static methods and free functions can be used in schedules.''))
      else case validateCrontab (sl_schedule sched) of
        Inl e \<Rightarrow> Inl e
      | Inr _ \<Rightarrow>
          (case validate_zone a (sl_cronTimezone sched) of
             Inl e \<Rightarrow> Inl e
           | Inr _ \<Rightarrow>
               map_sum id (\<lambda>ctx. \<lparr>sw_scheduleId = scheduleId, sw_scheduleName = sl_scheduleName sched, sw_workflowName = sl_funcName sched,
                   sw_workflowClassName = sl_className sched, sw_schedule = sl_schedule sched, sw_status = ''ACTIVE'', sw_context = ctx,
                   sw_lastFiredAt = None, sw_automaticBackfill = coalesce (sl_automaticBackfill sched) False,
                   sw_cronTimezone = sl_cronTimezone sched, sw_queueName = sl_queueName sched\<rparr>)
                 (sz_stringify (se_serializer (ae_ser a)) (sl_context sched))))"

definition DBOS_createSchedule :: "api_env \<Rightarrow> schedule_spec \<Rightarrow> js_value api_op" where
  "DBOS_createSchedule a sched = and_then (ensureDBOSIsLaunched a ''createSchedule'') (\<lambda>_.
     and_then (lift_sum (internal_schedule a (ae_uuid a) sched)) (\<lambda>s.
       and_then (runTransactionalInternalStep a (void (createSchedule s)) ''DBOS.createSchedule'') (\<lambda>_. ret JsUndefined)))"

definition DBOS_deleteSchedule :: "api_env \<Rightarrow> string \<Rightarrow> js_value api_op" where
  "DBOS_deleteSchedule a name = and_then (ensureDBOSIsLaunched a ''deleteSchedule'') (\<lambda>_.
     and_then (runTransactionalInternalStep a (void (deleteSchedule name)) ''DBOS.deleteSchedule'') (\<lambda>_. ret JsUndefined))"

definition DBOS_pauseSchedule :: "api_env \<Rightarrow> string \<Rightarrow> js_value api_op" where
  "DBOS_pauseSchedule a name = and_then (ensureDBOSIsLaunched a ''pauseSchedule'') (\<lambda>_.
     and_then (runTransactionalInternalStep a (void (setScheduleStatus name ''PAUSED'')) ''DBOS.pauseSchedule'') (\<lambda>_. ret JsUndefined))"

definition DBOS_resumeSchedule :: "api_env \<Rightarrow> string \<Rightarrow> js_value api_op" where
  "DBOS_resumeSchedule a name = and_then (ensureDBOSIsLaunched a ''resumeSchedule'') (\<lambda>_.
     and_then (runTransactionalInternalStep a (void (setScheduleStatus name ''ACTIVE'')) ''DBOS.resumeSchedule'') (\<lambda>_. ret JsUndefined))"

record schedule_updates =
  up_schedule :: "string option"
  up_context :: "js_value option"
  up_automaticBackfill :: "bool option"
  up_cronTimezone :: "string option option"
  up_queueName :: "string option option"

definition internal_updates :: "api_env \<Rightarrow> schedule_updates \<Rightarrow> dbos_error + WorkflowScheduleUpdate" where
  "internal_updates a u =
     (case (case up_schedule u of None \<Rightarrow> Inr [] | Some p \<Rightarrow> validateCrontab p) of
        Inl e \<Rightarrow> Inl e
      | Inr _ \<Rightarrow>
          (case validate_zone a (coalesce (up_cronTimezone u) None) of
             Inl e \<Rightarrow> Inl e
           | Inr _ \<Rightarrow>
               map_sum id (\<lambda>ctx. \<lparr>sx_schedule = up_schedule u, sx_context = ctx, sx_automaticBackfill = up_automaticBackfill u,
                   sx_cronTimezone = up_cronTimezone u, sx_queueName = up_queueName u\<rparr>)
                 (case up_context u of None \<Rightarrow> Inr None | Some v \<Rightarrow> map_sum id Some (sz_stringify (se_serializer (ae_ser a)) v))))"

definition DBOS_updateSchedule :: "api_env \<Rightarrow> string \<Rightarrow> schedule_updates \<Rightarrow> js_value api_op" where
  "DBOS_updateSchedule a name u = and_then (ensureDBOSIsLaunched a ''updateSchedule'') (\<lambda>_.
     and_then (lift_sum (internal_updates a u)) (\<lambda>iu.
       and_then (runTransactionalInternalStep a (void (updateSchedule name iu)) ''DBOS.updateSchedule'') (\<lambda>_. ret JsUndefined)))"

fun internal_schedules :: "api_env \<Rightarrow> (string \<times> schedule_spec) list \<Rightarrow> dbos_error + WorkflowScheduleInternal list" where
  "internal_schedules a [] = Inr []"
| "internal_schedules a ((i, sched) # rest) = (case internal_schedule a i sched of
       Inl e \<Rightarrow> Inl e
     | Inr s \<Rightarrow> map_sum id (\<lambda>ss. s # ss) (internal_schedules a rest))"

definition outside_only :: "string \<Rightarrow> 'a api_op \<Rightarrow> 'a api_op" where
  "outside_only name m = (\<lambda>(c, db). if within_workflow c
     then throw (DBOSError (name @ '' cannot be called from within a workflow'')) (c, db) else m (c, db))"

definition DBOS_applySchedules :: "api_env \<Rightarrow> (string \<times> schedule_spec) list \<Rightarrow> unit api_op" where
  "DBOS_applySchedules a schedules = and_then (ensureDBOSIsLaunched a ''applySchedules'') (\<lambda>_.
     outside_only ''applySchedules'' (and_then (lift_sum (internal_schedules a schedules)) (\<lambda>ss. in_db (applySchedules ss))))"

definition DBOS_triggerSchedule :: "api_env \<Rightarrow> string \<Rightarrow> workflow_handle api_op" where
  "DBOS_triggerSchedule a name = and_then (ensureDBOSIsLaunched a ''triggerSchedule'') (\<lambda>_.
     outside_only ''triggerSchedule'' (and_then (in_db (triggerSchedule (ae_ser a) (ae_now a) name)) (\<lambda>w. ret (RetrievedHandle w))))"

definition DBOS_backfillSchedule :: "api_env \<Rightarrow> string \<Rightarrow> int \<Rightarrow> int \<Rightarrow> workflow_handle list api_op" where
  "DBOS_backfillSchedule a name start end' = and_then (ensureDBOSIsLaunched a ''backfillSchedule'') (\<lambda>_.
     outside_only ''backfillSchedule''
       (and_then (in_db (backfillSchedule (ae_ser a) (ae_zones a) (ae_now a) name start end')) (\<lambda>ids. ret (map RetrievedHandle ids))))"

definition DBOS_setLatestApplicationVersion :: "api_env \<Rightarrow> string \<Rightarrow> unit api_op" where
  "DBOS_setLatestApplicationVersion a versionName = and_then (ensureDBOSIsLaunched a ''setLatestApplicationVersion'') (\<lambda>_.
     in_db (updateApplicationVersionTimestamp versionName (ae_now a)))"

datatype QueueConflictResolution = update_if_latest_version | always_update | never_update

definition update_existing :: "api_env \<Rightarrow> QueueConflictResolution \<Rightarrow> bool db_op" where
  "update_existing a onConflict = (case onConflict of
       always_update \<Rightarrow> ret True
     | never_update \<Rightarrow> ret False
     | update_if_latest_version \<Rightarrow> and_then getLatestApplicationVersion (\<lambda>latest. ret (vi_versionName latest = gp_appVersion (ae_globals a))))"

definition DBOS_registerQueue :: "api_env \<Rightarrow> string \<Rightarrow> QueueConflictResolution \<Rightarrow> QueueParameters \<Rightarrow> WorkflowQueue api_op" where
  "DBOS_registerQueue a name onConflict params = and_then (ensureDBOSIsLaunched a ''registerQueue'') (\<lambda>_.
     and_then (case validateQueueParams params of Some e \<Rightarrow> throw e | None \<Rightarrow> ret ()) (\<lambda>_.
     in_db (and_then (update_existing a onConflict) (\<lambda>updateExisting.
       and_then (upsertQueue (ae_now a) (ae_uuid a) (recordFromParams name params) updateExisting) (\<lambda>_.
       and_then (gets (getQueue name)) (\<lambda>persisted.
       case persisted of
         None \<Rightarrow> throw (PlainError (''Queue '' @ [CHR 0x27] @ name @ [CHR 0x27] @ '' missing from database after upsert''))
       | Some r \<Rightarrow> ret (fromRecord r False)))))))"

definition DBOS_retrieveQueue :: "api_env \<Rightarrow> string \<Rightarrow> WorkflowQueue option api_op" where
  "DBOS_retrieveQueue a name = and_then (ensureDBOSIsLaunched a ''retrieveQueue'') (\<lambda>_.
     in_db (gets (\<lambda>db. map_option (\<lambda>r. fromRecord r False) (getQueue name db))))"

definition DBOS_deleteQueue :: "api_env \<Rightarrow> string \<Rightarrow> unit api_op" where
  "DBOS_deleteQueue a name = and_then (ensureDBOSIsLaunched a ''deleteQueue'') (\<lambda>_. in_db (deleteQueue name))"

section \<open>Evaluation\<close>

lemma in_db_apply [simp]: "in_db m (c, db) = (fst (m db), (c, snd (m db)))"
  by (simp add: in_db_def split: prod.splits)

lemma in_ctx_apply: "in_ctx m (c, db) = (fst (m c), (snd (m c), db))"
  by (simp add: in_ctx_def split: prod.splits)

lemma launched_eval [simp]: "ae_launched a \<Longrightarrow> and_then (ensureDBOSIsLaunched a reason) k s = k () s"
  by (simp add: ensureDBOSIsLaunched_def)

section \<open>Effects before errors\<close>

text \<open>C40: resuming or forking a workflow from within a step takes effect and then fails. \<open>runInternalStep\<close> lets a step call through to the
  database, but the handles that these calls return are made by \<open>retrieveWorkflow\<close>, which refuses to be called in a step: the
  workflows have been resumed, or the fork has been made, when the step gets the error. A step that is retried forks again.\<close>

theorem handles_in_step_throw_after_effect:
  assumes "ae_launched a" and "DBOS_isWithinWorkflow ctx" and "DBOS_isInStep ctx"
  shows "(\<forall>workflowID startStep newID opts forked db1. forkWorkflow (ae_now a) (ae_uuid a) workflowID startStep (Some newID) opts db = (Inr forked, db1) \<longrightarrow>
      DBOS_forkWorkflow a workflowID startStep (Some newID) opts (Some ctx, db) =
        (Inl (DBOSInvalidWorkflowTransitionError ''Invalid call to `retrieveWorkflow` inside a `transaction` or `step`''), (Some ctx, db1))) \<and>
    (\<forall>ids queue. ids \<noteq> [] \<longrightarrow> DBOS_resumeWorkflows a ids queue (Some ctx, db) =
        (Inl (DBOSInvalidWorkflowTransitionError ''Invalid call to `retrieveWorkflow` inside a `transaction` or `step`''),
         (Some ctx, snd (resumeWorkflows (ae_now a) ids queue db))))"
proof -
  have ctx: "within_workflow (Some ctx)" "in_step (Some ctx)" "\<not> in_workflow (Some ctx)"
    using assms(2,3) by (simp_all add: ctx_holds_def DBOS_isInWorkflow_def)
  have "DBOS_forkWorkflow a w start (Some newID) opts (Some ctx, db) =
      (Inl (DBOSInvalidWorkflowTransitionError ''Invalid call to `retrieveWorkflow` inside a `transaction` or `step`''), (Some ctx, db1))"
    if "forkWorkflow (ae_now a) (ae_uuid a) w start (Some newID) opts db = (Inr forked, db1)" for w start newID opts forked db1
    using that assms(1) ctx
    by (simp add: DBOS_forkWorkflow_def runInternalStep_call_def fork_callback_def DBOS_retrieveWorkflow_def invalid_transition_def Let_def)
  moreover have "DBOS_resumeWorkflows a ids queue (Some ctx, db) =
      (Inl (DBOSInvalidWorkflowTransitionError ''Invalid call to `retrieveWorkflow` inside a `transaction` or `step`''),
       (Some ctx, snd (resumeWorkflows (ae_now a) ids queue db)))" if "ids \<noteq> []" for ids queue
    using that assms(1) ctx
    by (cases ids) (simp_all add: DBOS_resumeWorkflows_def runInternalStep_call_def void_def resumeWorkflows_def DBOS_retrieveWorkflow_def invalid_transition_def)
  ultimately show ?thesis by blast
qed

text \<open>A recorded fork leaves an ID that \<open>DBOS.withNextWorkflowID\<close> has assigned in the context, where the first execution had taken it.\<close>

lemma recorded_fork_keeps_assigned_id:
  assumes "ae_launched a" and "DBOS_isInWorkflow ctx" and "cx_workflowId ctx = Some w" and "\<not> cancelled w db"
    and "find_row oo_pk (w, coalesce (cx_curWFFunctionId ctx) 0) (t_operation_outputs db) = Some r"
    and "DBOS_forkWorkflow a workflowID startStep None opts (Some ctx, db) = (res, (c', db'))"
  shows "map_option cx_idAssignedForNextWorkflow c' = Some (cx_idAssignedForNextWorkflow ctx)"
proof -
  let ?ctx1 = "ctx\<lparr>cx_curWFFunctionId := Some (coalesce (cx_curWFFunctionId ctx) 0 + 1)\<rparr>"
  have ctx: "isInWorkflowCtx ctx" "in_workflow (Some ctx)" "within_workflow (Some ctx)" "\<not> in_step (Some ctx)" "workflowID_of (Some ctx) = w"
    using assms(2,3) by (auto simp: isInWorkflowCtx_def isWithinWorkflowCtx_def isInStepCtx_def isInTxnCtx_def truthy_int_def DBOS_isInWorkflow_def
        DBOS_isWithinWorkflow_def DBOS_isInStep_def DBOS_isInTransaction_def ctx_holds_def workflowID_of_def)
  have "\<not> fork_runs (Some ctx) db" using assms(4,5) ctx by (simp add: fork_runs_def call_id_in_workflow op_simps)
  moreover obtain x db1 where "runInternalStep_call a (fork_callback a workflowID startStep None opts (Some ctx)) ''DBOS.forkWorkflow'' None None (Some ctx, db) =
      (x, (Some ?ctx1, db1))"
    using ctx by (simp add: runInternalStep_call_def in_ctx_apply call_id_in_workflow)
  ultimately show ?thesis
    using assms(1,6) by (cases x) (auto simp: DBOS_forkWorkflow_def DBOS_retrieveWorkflow_def invalid_transition_def Let_def split: if_splits)
qed

definition example_api :: "int \<Rightarrow> api_env" where
  "example_api now = \<lparr>ae_launched = True, ae_ser = example_serialization, ae_now = now, ae_end = now + 1, ae_uuid = ''u'', ae_xid = ''x'',
     ae_globals = \<lparr>gp_appVersion = ''v1'', gp_appID = ''app''\<rparr>, ae_queues = (\<lambda>_. None), ae_enablePatching = True, ae_zones = (\<lambda>_. None)\<rparr>"

theorem handles_in_step_throw_after_effect_witness:
  "\<exists>e db1. DBOS_resumeWorkflows (example_api 200) [''v''] None (Some (example_ctx\<lparr>cx_curStepFunctionId := Some 3\<rparr>), example_db [example_row ''v'' CANCELLED]) = (Inl e, db1) \<and>
     getWorkflowStatusValue ''v'' (snd db1) = Some ENQUEUED"
proof -
  let ?ctx = "example_ctx\<lparr>cx_curStepFunctionId := Some 3\<rparr>" and ?db = "example_db [example_row ''v'' CANCELLED]"
  have "DBOS_isWithinWorkflow ?ctx" "DBOS_isInStep ?ctx" "ae_launched (example_api 200)"
    by (simp_all add: example_ctx_def empty_ctx_def DBOS_isWithinWorkflow_def DBOS_isInStep_def example_api_def)
  from handles_in_step_throw_after_effect [OF this(3,1,2), of ?db, THEN conjunct2, rule_format, of "[''v'']" None]
  show ?thesis by (simp add: resumeWorkflows_def getWorkflowStatusValue_def)
qed

end
