(* ===== verification/Workflow_Replay.thy ===== *)
theory Workflow_Replay
  imports DBOS_API
begin

text \<open>
  The replay of a whole workflow. A workflow's function is a tree of calls: after each call it goes on as a function of what the
  call returned, which is what determinism of workflow code means. The calls are those of \<open>DBOS_API\<close> that a workflow makes; a call
  that waits is left out. Every one of them takes its function IDs from the context alone and finds its checkpoint when it is made again.
\<close>

section \<open>Workflow code\<close>

datatype api_call =
    RunStep string StepConfig step_function
  | StartChild call_target registration "js_value list" StartWorkflowParams
  | CancelWorkflows "string list" bool
  | ResumeWorkflows "string list" "string option"
  | DeleteWorkflows "string list" bool
  | SetWorkflowPriority string int
  | SetWorkflowDelay string "int + SetWorkflowDelayOptions"
  | ForkWorkflow string int "string option" fork_options
  | Sleep int
  | Now
  | RandomUUID
  | Send string js_value "string option" "string option" "WorkflowSerializationFormat option"
  | SetEvent string js_value "WorkflowSerializationFormat option"
  | WriteStream string js_value "WorkflowSerializationFormat option"
  | CloseStream string
  | Patch string
  | CreateSchedule schedule_spec
  | DeleteSchedule string
  | PauseSchedule string
  | ResumeSchedule string
  | UpdateSchedule string schedule_updates

text \<open>The code sees the workflow ID of a handle.\<close>

fun perform :: "api_env \<Rightarrow> api_call \<Rightarrow> js_value api_op" where
  "perform a (RunStep name config func) = DBOS_runStep a name config func"
| "perform a (StartChild target reg args params) = and_then (invokeWorkflow a target reg args params None) (\<lambda>h. ret (JsStr (handle_id h)))"
| "perform a (CancelWorkflows ids children) = DBOS_cancelWorkflows a ids children"
| "perform a (ResumeWorkflows ids queue) =
     and_then (DBOS_resumeWorkflows a ids queue) (\<lambda>hs. ret (JsArr (map (\<lambda>h. JsStr (handle_id h)) hs)))"
| "perform a (DeleteWorkflows ids children) = DBOS_deleteWorkflows a ids children"
| "perform a (SetWorkflowPriority w p) = DBOS_setWorkflowPriority a w p"
| "perform a (SetWorkflowDelay w d) = DBOS_setWorkflowDelay a w d"
| "perform a (ForkWorkflow w start newID opts) = and_then (DBOS_forkWorkflow a w start newID opts) (\<lambda>h. ret (JsStr (handle_id h)))"
| "perform a (Sleep d) = DBOS_sleepms a d"
| "perform a Now = DBOS_now a"
| "perform a RandomUUID = DBOS_randomUUID a"
| "perform a (Send dest m topic key fmt) = DBOS_send a dest m topic key fmt"
| "perform a (SetEvent key v fmt) = DBOS_setEvent a key v fmt"
| "perform a (WriteStream key v fmt) = DBOS_writeStream a key v fmt"
| "perform a (CloseStream key) = DBOS_closeStream a key"
| "perform a (Patch name) = DBOS_patch a name"
| "perform a (CreateSchedule sched) = DBOS_createSchedule a sched"
| "perform a (DeleteSchedule name) = DBOS_deleteSchedule a name"
| "perform a (PauseSchedule name) = DBOS_pauseSchedule a name"
| "perform a (ResumeSchedule name) = DBOS_resumeSchedule a name"
| "perform a (UpdateSchedule name u) = DBOS_updateSchedule a name u"

datatype workflow_code = Finish "dbos_error + js_value" | Call api_call "dbos_error + js_value \<Rightarrow> workflow_code"

text \<open>The first \<open>n\<close> calls. Before call \<open>i\<close> other processes do \<open>others i\<close>; a process that dies leaves the rest of the code undone.\<close>

fun run_calls ::
  "nat \<Rightarrow> nat \<Rightarrow> (nat \<Rightarrow> api_env) \<Rightarrow> (nat \<Rightarrow> sysdb \<Rightarrow> sysdb) \<Rightarrow> workflow_code \<Rightarrow> api_state \<Rightarrow>
   (dbos_error + js_value) list \<times> workflow_code \<times> api_state" where
  "run_calls 0 i envs others p s = ([], p, s)"
| "run_calls (Suc n) i envs others (Finish r) s = ([], Finish r, s)"
| "run_calls (Suc n) i envs others (Call k cont) (c, db) =
     (case perform (envs i) k (c, others i db) of
        (r, s1) \<Rightarrow> (case run_calls n (Suc i) envs others (cont r) s1 of (rs, p, s2) \<Rightarrow> (r # rs, p, s2)))"

section \<open>Checkpoints of one workflow\<close>

definition has_rows :: "string \<Rightarrow> sysdb \<Rightarrow> sysdb \<Rightarrow> bool" where
  "has_rows w db db' = (\<forall>f r. find_row oo_pk (w, f) (t_operation_outputs db) = Some r \<longrightarrow>
     find_row oo_pk (w, f) (t_operation_outputs db') = Some r)"

lemma has_rows_refl [simp]: "has_rows w db db"
  by (simp add: has_rows_def)

lemma has_rows_trans: "has_rows w a b \<Longrightarrow> has_rows w b c \<Longrightarrow> has_rows w a c"
  by (simp add: has_rows_def)

text \<open>Operations that keep the recorded checkpoints of a workflow.\<close>

abbreviation row_is :: "string \<Rightarrow> int \<Rightarrow> operation_outputs \<Rightarrow> sysdb \<Rightarrow> bool" where
  "row_is w f r db \<equiv> find_row oo_pk (w, f) (t_operation_outputs db) = Some r"

definition keeps_rows :: "string \<Rightarrow> 'a db_op \<Rightarrow> bool" where
  "keeps_rows w m = (\<forall>f r. preserves (row_is w f r) m)"

lemma keeps_rowsD: "keeps_rows w m \<Longrightarrow> m db = (x, db') \<Longrightarrow> has_rows w db db'"
  by (auto simp: keeps_rows_def has_rows_def dest: preservesD)

lemma keeps_rowsI: "(\<And>f r. preserves (row_is w f r) m) \<Longrightarrow> keeps_rows w m"
  by (simp add: keeps_rows_def)

lemma leaves_keeps [keep_rules]: "leaves_checkpoints m \<Longrightarrow> preserves (row_is w f r) m"
  by (simp add: preserves_def leaves_checkpoints_def)

lemma leaves_none: "leaves_checkpoints m \<Longrightarrow> m db = (x, db') \<Longrightarrow> t_operation_outputs db' = t_operation_outputs db"
  unfolding leaves_checkpoints_def by (metis snd_conv)

lemma record_keeps [keep_rules]: "preserves (row_is w f r) (recordOperationResultInternal w' f' n chk s e opts)"
  by (auto simp: preserves_def recordOperationResultInternal_def claim_executor_def Let_def find_row_append split: option.splits)

lemma record_keeps' [keep_rules]: "preserves (row_is w f r) (recordOperationResult w' f' n chk s e opts)"
  unfolding recordOperationResult_def by (rule record_keeps)

lemma getOperationResult_keeps' [keep_rules]: "preserves I (getOperationResultAndThrowIfCancelled w f)"
  by (simp add: preserves_def op_simps)

lemma recorded_found:
  assumes "recordOperationResult w f n chk s e opts db = (Inr (), db')" and "find_row oo_pk (w, f) (t_operation_outputs db) = None"
  shows "find_row oo_pk (w, f) (t_operation_outputs db') = Some (new_operation_row w f n s e opts)"
  using assms by (auto simp: recordOperationResult_def recordOperationResultInternal_def claim_executor_def find_row_append split: if_splits)

section \<open>Operations that find their checkpoint\<close>

text \<open>When the first has returned a value, the second returns it again and changes nothing.\<close>

definition durable :: "string \<Rightarrow> 'a db_op \<Rightarrow> 'a db_op \<Rightarrow> bool" where
  "durable w m m' = (\<forall>db x db1 db2. m db = (Inr x, db1) \<and> has_rows w db1 db2 \<and> \<not> cancelled w db2 \<longrightarrow> m' db2 = (Inr x, db2))"

lemma durableI:
  "(\<And>db x db1 db2. m db = (Inr x, db1) \<Longrightarrow> has_rows w db1 db2 \<Longrightarrow> \<not> cancelled w db2 \<Longrightarrow> m' db2 = (Inr x, db2)) \<Longrightarrow> durable w m m'"
  unfolding durable_def by blast

lemma durableD: "durable w m m' \<Longrightarrow> m db = (Inr x, db1) \<Longrightarrow> has_rows w db1 db2 \<Longrightarrow> \<not> cancelled w db2 \<Longrightarrow> m' db2 = (Inr x, db2)"
  unfolding durable_def by blast

lemma durable_map:
  assumes "durable w m m'"
  shows "durable w (and_then m (\<lambda>x. ret (g x))) (and_then m' (\<lambda>x. ret (g x)))"
  using assms by (intro durableI) (auto simp: and_then_success dest: durableD)

lemma durable_void: "durable w m m' \<Longrightarrow> durable w (void m) (void m')"
  unfolding void_def by (rule durable_map)

lemma durable_ret: "durable w (ret x) (ret x)"
  by (simp add: durable_def)

lemma durable_throw: "durable w (and_then (throw e) k) m"
  by (simp add: durable_def)

lemma recorded_output_rows: "has_rows w db db' \<Longrightarrow> recorded_output n w f db = Some x \<Longrightarrow> recorded_output n w f db' = Some x"
  by (auto simp: recorded_output_def has_rows_def split: option.splits)

lemma durable_recorded:
  "leaves_checkpoints func \<Longrightarrow> durable w (runAndRecordResult s e n w f func) (runAndRecordResult s' e' n w f func')"
  by (intro durableI) (blast intro: runAndRecordResult_replays recorded_output_rows runAndRecordResult_records)

lemma recorded_sleep_rows: "has_rows w db db' \<Longrightarrow> recorded_sleep w f db = Some x \<Longrightarrow> recorded_sleep w f db' = Some x"
  by (auto simp: recorded_sleep_def split: option.splits dest: recorded_output_rows)

lemma durable_sleep: "durable w (durableSleep now w f d) (durableSleep now' w f d')"
  by (intro durableI) (blast intro: durableSleep_replays durableSleep_records recorded_sleep_rows)

lemma recorded_value_rows: "has_rows w db db' \<Longrightarrow> recorded_value env n w f db = Some x \<Longrightarrow> recorded_value env n w f db' = Some x"
  by (auto simp: recorded_value_def has_rows_def split: option.splits)

lemma durable_step:
  assumes "env_lawful env ok" and "leaves_step w f fn" and "cx_workflowId lctx = Some w" and "cx_workflowId lctx' = Some w"
  shows "durable w (call_step env s e n cfg fn lctx f) (call_step env s' e' n cfg' fn' lctx' f)"
  using assms by (intro durableI) (blast intro: call_step_replays call_step_records recorded_value_rows)

lemma signal_outputs [simp]: "t_operation_outputs (signalNotification ch p db) = t_operation_outputs db"
  by (simp add: signalNotification_def)

text \<open>Setting an event and writing to a stream: a recorded operation that signals when it has written.\<close>

lemma durable_signalled:
  assumes "leaves_checkpoints func" and g: "\<And>db. t_operation_outputs (g db) = t_operation_outputs db"
  shows "durable w
    (and_then (gets (unrecorded w f)) (\<lambda>did. and_then (transaction (runAndRecordResult s e n w f func)) (\<lambda>_. if did then modify g else ret ())))
    (and_then (gets (unrecorded w f)) (\<lambda>did. and_then (transaction (runAndRecordResult s' e' n w f func')) (\<lambda>_. if did then modify g' else ret ())))"
proof (intro durableI)
  fix db x db1 db2
  assume run: "and_then (gets (unrecorded w f)) (\<lambda>did. and_then (transaction (runAndRecordResult s e n w f func))
      (\<lambda>_. if did then modify g else ret ())) db = (Inr x, db1)" and rows: "has_rows w db1 db2" and live: "\<not> cancelled w db2"
  obtain y dbm where y: "runAndRecordResult s e n w f func db = (Inr y, dbm)" "t_operation_outputs db1 = t_operation_outputs dbm"
    using run g by (auto simp: and_then_success split: if_splits)
  have "recorded_output n w f db1 = Some y"
    using runAndRecordResult_records [OF assms(1) y(1)] y(2) by (simp add: recorded_output_def)
  then have rec: "recorded_output n w f db2 = Some y" by (rule recorded_output_rows [OF rows])
  then have "\<not> unrecorded w f db2" by (auto simp: recorded_output_def unrecorded_def split: option.splits)
  with runAndRecordResult_replays [OF rec live, of s' e' func']
  show "and_then (gets (unrecorded w f)) (\<lambda>did. and_then (transaction (runAndRecordResult s' e' n w f func'))
      (\<lambda>_. if did then modify g' else ret ())) db2 = (Inr x, db2)"
    by (simp add: transaction_Inr)
qed

lemma durable_setEvent: "durable w (setEvent s e w f key m ser) (setEvent s' e' w f key' m' ser')"
  unfolding setEvent_def
  by (intro durable_signalled leaves_checkpoints_and_then) simp_all

lemma durable_writeStream: "durable w (writeStreamFromWorkflow s e w f key v ser n) (writeStreamFromWorkflow s' e' w f key' v' ser' n)"
  unfolding writeStreamFromWorkflow_def
  by (intro durable_signalled leaves_checkpoints_and_then) simp_all

lemma durable_send: "durable w (send s e u w f d m t ser k) (send s' e' u' w f d' m' t' ser' k')"
proof (intro durableI)
  fix db x db1 db2
  assume "send s e u w f d m t ser k db = (Inr x, db1)" and rows: "has_rows w db1 db2" and live: "\<not> cancelled w db2"
  then obtain y where "runAndRecordResult s e ''DBOS.send'' w f
      (and_then (insert_notification s d (coalesce t nullTopic) m ser (message_uuid k d u)) (\<lambda>_. ret None)) db = (Inr y, db1)"
    by (auto simp: send_success)
  moreover have "durable w (runAndRecordResult s e ''DBOS.send'' w f
      (and_then (insert_notification s d (coalesce t nullTopic) m ser (message_uuid k d u)) (\<lambda>_. ret None)))
      (runAndRecordResult s' e' ''DBOS.send'' w f
      (and_then (insert_notification s' d' (coalesce t' nullTopic) m' ser' (message_uuid k' d' u')) (\<lambda>_. ret None)))"
    by (intro durable_recorded leaves_checkpoints_and_then) auto
  ultimately show "send s' e' u' w f d' m' t' ser' k' db2 = (Inr x, db2)"
    using rows live by (auto simp: send_success dest: durableD)
qed

section \<open>Internal steps\<close>

definition keeps_unrecorded :: "string \<Rightarrow> int \<Rightarrow> 'a db_op \<Rightarrow> bool" where
  "keeps_unrecorded w f m = preserves (unrecorded w f) m"

lemma leaves_unrecorded: "leaves_checkpoints m \<Longrightarrow> keeps_unrecorded w f m"
  by (simp add: keeps_unrecorded_def preserves_def leaves_checkpoints_def unrecorded_def)

lemma runInternalStep_eval:
  "runInternalStep env s e cb n w f ch db =
    (if cancelled w db then (Inl (DBOSWorkflowCancelledError w), db)
     else case find_row oo_pk (w, f) (t_operation_outputs db) of
       Some r \<Rightarrow> (if oo_function_name r \<noteq> n then Inl (DBOSUnexpectedStepError w f n (oo_function_name r))
          else reviveResultOrError env (stored_result r), db)
     | None \<Rightarrow> runInternalStep env s e cb n w f ch db)"
  by (simp add: runInternalStep_def and_then_def op_simps stored_result_def split: option.splits)

lemma runInternalStep_new:
  assumes "runInternalStep env s e cb n w f ch db = (Inr v, db')" and "unrecorded w f db"
  shows "\<exists>out db1 io. cb db = (Inr out, db1) \<and> serializeFunctionInputOutput env out None = Inr io \<and> v = io_deserialized io \<and>
    recordOperationResult w f n True s e \<lparr>po_childWorkflowID = ch, po_output = Some (io_stringified io), po_error = None,
      po_serialization = None\<rparr> db1 = (Inr (), db')"
  using assms by (auto simp: runInternalStep_def and_then_success op_simps unrecorded_def split: if_splits prod.splits sum.splits)

lemma default_reader: "reader_for env None = Some (se_serializer env)"
  by (simp add: reader_for_def truthy_def)

lemma runInternalStep_records:
  assumes "env_lawful env ok" and "keeps_unrecorded w f cb" and "runInternalStep env s e cb n w f ch db = (Inr v, db')"
  shows "recorded_value env n w f db' = Some v"
proof (cases "find_row oo_pk (w, f) (t_operation_outputs db)")
  case (Some r)
  then show ?thesis using assms(3)
    by (subst (asm) runInternalStep_eval) (auto simp: recorded_value_def split: if_splits)
next
  case None
  then obtain out db1 io where io: "cb db = (Inr out, db1)" "serializeFunctionInputOutput env out None = Inr io" "v = io_deserialized io"
    and rec: "recordOperationResult w f n True s e \<lparr>po_childWorkflowID = ch, po_output = Some (io_stringified io), po_error = None,
      po_serialization = None\<rparr> db1 = (Inr (), db')"
    using runInternalStep_new [OF assms(3)] by (auto simp: unrecorded_def)
  have "unrecorded w f db1" using assms(2) io(1) None by (auto simp: keeps_unrecorded_def unrecorded_def dest: preservesD)
  then have "find_row oo_pk (w, f) (t_operation_outputs db') = Some (new_operation_row w f n s e
      \<lparr>po_childWorkflowID = ch, po_output = Some (io_stringified io), po_error = None, po_serialization = None\<rparr>)"
    using recorded_found [OF rec] by (simp add: unrecorded_def)
  moreover have "sz_parse (se_serializer env) (Some (io_stringified io)) = Inr v"
    using io by (auto simp: serializeFunctionInputOutput_writer [OF assms(1)] writer_for_def through_def split: sum.splits)
  ultimately show ?thesis
    by (simp add: recorded_value_def reviveResultOrError_def stored_result_def new_operation_row_def truthy_def deserializeValue_def default_reader)
qed

lemma durable_internal:
  assumes "env_lawful env ok" and "keeps_unrecorded w f cb"
  shows "durable w (runInternalStep env s e cb n w f ch) (runInternalStep env s' e' cb' n w f ch')"
proof (intro durableI)
  fix db x db1 db2
  assume "runInternalStep env s e cb n w f ch db = (Inr x, db1)" and rows: "has_rows w db1 db2" and live: "\<not> cancelled w db2"
  then have "recorded_value env n w f db2 = Some x" using runInternalStep_records [OF assms] recorded_value_rows by blast
  with live show "runInternalStep env s' e' cb' n w f ch' db2 = (Inr x, db2)"
    by (subst runInternalStep_eval) (auto simp: recorded_value_def split: option.splits if_splits sum.splits)
qed

lemma transactional_step_eval:
  "transactional_step a cb n w f db =
    (if cancelled w db then (Inl (DBOSWorkflowCancelledError w), db)
     else case find_row oo_pk (w, f) (t_operation_outputs db) of
       Some r \<Rightarrow> (if oo_function_name r \<noteq> n then Inl (DBOSUnexpectedStepError w f n (oo_function_name r))
          else reviveResultOrError (ae_ser a) (stored_result r), db)
     | None \<Rightarrow> transactional_step a cb n w f db)"
  by (simp add: transactional_step_def runTransactionalStep_def transaction_def and_then_def op_simps stored_result_def split: option.splits)

lemma transactional_step_new:
  assumes "transactional_step a cb n w f db = (Inr v, db')" and "unrecorded w f db" and "leaves_checkpoints cb"
  shows "\<exists>t. sz_stringify (se_serializer (ae_ser a)) (if v = JsUndefined then JsNull else v) = Inr t \<and>
    find_row oo_pk (w, f) (t_operation_outputs db') = Some (new_operation_row w f n (ae_now a) (ae_end a) (output_only (Some t)))"
proof -
  from assms(1,2) obtain t db1 where t: "cb db = (Inr v, db1)" "sz_stringify (se_serializer (ae_ser a)) (if v = JsUndefined then JsNull else v) = Inr t"
    and rec: "recordOperationResultInternal w f n True (ae_now a) (ae_end a) (output_only (Some t)) db1 = (Inr (), db')"
    by (auto simp: transactional_step_def runTransactionalStep_def and_then_success op_simps unrecorded_def
        split: if_splits prod.splits sum.splits option.splits)
  have "find_row oo_pk (w, f) (t_operation_outputs db1) = None"
    using leaves_none [OF assms(3) t(1)] assms(2) by (simp add: unrecorded_def)
  then show ?thesis using recorded_found [of w f n True] rec t(2) by (simp add: recordOperationResult_def)
qed

text \<open>The value is dropped by every caller: it is \<open>undefined\<close> the first time and \<open>null\<close> when it is read back.\<close>

lemma durable_transactional:
  assumes "env_lawful (ae_ser a) ok" and "ok JsNull" and "leaves_checkpoints m" and "ae_ser a' = ae_ser a"
  shows "durable w (and_then (transactional_step a (void m) n w f) (\<lambda>_. ret JsUndefined))
    (and_then (transactional_step a' m' n w f) (\<lambda>_. ret JsUndefined))"
proof (intro durableI)
  fix db x db1 db2
  assume "and_then (transactional_step a (void m) n w f) (\<lambda>_. ret JsUndefined) db = (Inr x, db1)"
    and rows: "has_rows w db1 db2" and live: "\<not> cancelled w db2"
  then obtain v where v: "transactional_step a (void m) n w f db = (Inr v, db1)" and x: "x = JsUndefined"
    by (auto simp: and_then_success)
  have leaves: "leaves_checkpoints (void m)" unfolding void_def by (intro leaves_checkpoints_and_then assms(3)) simp
  have "\<exists>r v'. find_row oo_pk (w, f) (t_operation_outputs db1) = Some r \<and> oo_function_name r = n \<and>
      reviveResultOrError (ae_ser a) (stored_result r) = Inr v'"
  proof (cases "find_row oo_pk (w, f) (t_operation_outputs db)")
    case (Some r)
    with v show ?thesis by (subst (asm) transactional_step_eval) (auto split: if_splits)
  next
    case None
    with transactional_step_new [OF v _ leaves] obtain t where t: "sz_stringify (se_serializer (ae_ser a)) (if v = JsUndefined then JsNull else v) = Inr t"
      "find_row oo_pk (w, f) (t_operation_outputs db1) = Some (new_operation_row w f n (ae_now a) (ae_end a) (output_only (Some t)))"
      by (auto simp: unrecorded_def)
    have "v = JsUndefined" using v None
      by (auto simp: transactional_step_def void_def and_then_success runTransactionalStep_def op_simps split: if_splits prod.splits sum.splits option.splits)
    with t(1) assms(1,2) have "sz_parse (se_serializer (ae_ser a)) (Some t) = Inr JsNull"
      unfolding env_lawful_def by (metis sum.sel(2))
    with t(2) show ?thesis
      by (simp add: reviveResultOrError_def stored_result_def new_operation_row_def output_only_def truthy_def deserializeValue_def default_reader)
  qed
  then have "\<exists>v'. transactional_step a' m' n w f db2 = (Inr v', db2)"
    using rows live by (subst transactional_step_eval) (auto simp: has_rows_def assms(4))
  with x show "and_then (transactional_step a' m' n w f) (\<lambda>_. ret JsUndefined) db2 = (Inr x, db2)" by auto
qed

section \<open>Children\<close>

lemma start_workflow_records_rows:
  assumes "start_workflow env now xid mx st params (Some w) (Some f) db = (Inr res, db1)" and "has_rows w db1 db2" and "\<not> cancelled w db2"
  shows "start_workflow env now' xid' mx' st' params' (Some w) (Some f) db2 =
    (Inr (ExistingChild (case res of ExistingChild c \<Rightarrow> c | Initialized _ \<Rightarrow> Some (si_workflowUUID st))), db2)"
proof (cases res)
  case (ExistingChild c)
  with assms obtain r where "find_row oo_pk (w, f) (t_operation_outputs db) = Some r" "\<not> truthy (oo_error r)" "oo_child_workflow_id r = c" "db1 = db"
    by (auto simp: start_workflow_eval and_then_success split: if_splits option.splits prod.splits sum.splits)
  with assms(2,3) ExistingChild show ?thesis by (simp add: start_workflow_eval has_rows_def)
next
  case (Initialized ires)
  with start_workflow_records assms(1) obtain r where "find_row oo_pk (w, f) (t_operation_outputs db1) = Some r" "oo_error r = None"
    "oo_child_workflow_id r = Some (si_workflowUUID st)" by blast
  with assms(2,3) Initialized show ?thesis by (simp add: start_workflow_eval has_rows_def truthy_def)
qed

lemma handle_for_id: "handle_for params w ires db = (r, db') \<Longrightarrow> \<exists>h. r = Inr h \<and> handle_id h = w \<and> t_operation_outputs db' = t_operation_outputs db"
  by (auto simp: handle_for_def registerRunningWorkflow_def Let_def split: if_splits)

lemma durable_internalWorkflow:
  "durable w (and_then (internalWorkflow env now g u xid n cn wi params c (Some w) (Some f) args) (\<lambda>h. ret (JsStr (handle_id h))))
    (and_then (internalWorkflow env now' g' u' xid' n cn wi params c' (Some w) (Some f) args) (\<lambda>h. ret (JsStr (handle_id h))))"
proof (intro durableI)
  fix db x db1 db2
  assume run: "and_then (internalWorkflow env now g u xid n cn wi params c (Some w) (Some f) args) (\<lambda>h. ret (JsStr (handle_id h))) db = (Inr x, db1)"
    and rows: "has_rows w db1 db2" and live: "\<not> cancelled w db2"
  then obtain h where h: "internalWorkflow env now g u xid n cn wi params c (Some w) (Some f) args db = (Inr h, db1)" "x = JsStr (handle_id h)"
    by (auto simp: and_then_success)
  let ?config = "Option.bind wi rg_workflowConfig"
  let ?fmt = "Option.bind ?config wc_serialization"
  let ?wid = "if truthy (wp_workflowUUID params) then coalesce (wp_workflowUUID params) [] else u"
  let ?mx = "if isTempWorkflow n params then None else Option.bind ?config wc_maxRecoveryAttempts"
  have reg: "\<not> (\<not> isTempWorkflow n params \<and> ?config = None)"
  proof
    assume unregistered: "\<not> isTempWorkflow n params \<and> ?config = None"
    from h(1) show False by (simp only: internalWorkflow_def Let_def if_P [OF unregistered]) simp
  qed
  note body = h(1) [unfolded internalWorkflow_def Let_def if_not_P [OF reg]]
  then obtain io res dbm where io: "serializeFunctionInputOutput env (wrapped_args ?fmt args) ?fmt = Inr io"
    and start': "start_workflow env now xid (if truthy_int ?mx then coalesce ?mx 0 else DEFAULT_MAX_RECOVERY_ATTEMPTS)
      (start_status now g (m_executorID db) ?wid n cn params c (Some w) io) params (Some w) (Some f) db = (Inr res, dbm)"
    and fin': "(case res of ExistingChild c \<Rightarrow> ret (RetrievedHandle (coalesce c [])) | Initialized ires \<Rightarrow> handle_for params ?wid ires) dbm = (Inr h, db1)"
    by (auto simp only: and_then_success lift_sum_apply gets_apply prod.inject sum.inject)
  define st where "st = start_status now g (m_executorID db) ?wid n cn params c (Some w) io"
  have uuid: "si_workflowUUID st = ?wid" by (simp add: st_def start_status_def Let_def)
  note start = start' [folded st_def] and fin = fin' [folded uuid]
  have id: "handle_id h = coalesce (case res of ExistingChild c \<Rightarrow> c | Initialized _ \<Rightarrow> Some (si_workflowUUID st)) []"
    and "t_operation_outputs db1 = t_operation_outputs dbm"
    using fin handle_for_id by (cases res; fastforce)+
  then have "has_rows w dbm db2" using rows by (simp add: has_rows_def)
  note again = start_workflow_records_rows [OF start this live]
  show "and_then (internalWorkflow env now' g' u' xid' n cn wi params c' (Some w) (Some f) args) (\<lambda>h. ret (JsStr (handle_id h))) db2 = (Inr x, db2)"
    using io again h(2) id by (simp only: internalWorkflow_def Let_def if_not_P [OF reg]) (simp add: and_then_success)
qed

lemma durable_child:
  assumes "ae_ser a' = ae_ser a"
  shows "durable w (and_then (invokeRegOp a reg params c (Some w) (Some f) args) (\<lambda>h. ret (JsStr (handle_id h))))
    (and_then (invokeRegOp a' reg params c' (Some w) (Some f) args) (\<lambda>h. ret (JsStr (handle_id h))))"
  unfolding invokeRegOp_def assms by (simp add: durable_internalWorkflow durable_throw)

section \<open>Calls from workflow code\<close>

text \<open>Within workflow code every call but a patch check takes one function ID and performs one operation on the database with it.\<close>

definition code_of :: "string \<Rightarrow> DBOSLocalCtx \<Rightarrow> bool" where
  "code_of w ctx = (DBOS_isInWorkflow ctx \<and> cx_workflowId ctx = Some w)"

definition next_id :: "DBOSLocalCtx \<Rightarrow> int" where
  "next_id ctx = coalesce (cx_curWFFunctionId ctx) 0"

definition advance :: "DBOSLocalCtx \<Rightarrow> DBOSLocalCtx" where
  "advance ctx = ctx\<lparr>cx_curWFFunctionId := Some (next_id ctx + 1)\<rparr>"

lemma code_ofD:
  assumes "code_of w ctx"
  shows "in_workflow (Some ctx)" "within_workflow (Some ctx)" "\<not> in_step (Some ctx)" "\<not> in_txn (Some ctx)"
    "workflowID_of (Some ctx) = w" "isInWorkflowCtx ctx" "cx_workflowId ctx = Some w"
  using assms by (auto simp: code_of_def ctx_holds_def DBOS_isInWorkflow_def DBOS_isWithinWorkflow_def DBOS_isInStep_def DBOS_isInTransaction_def
      workflowID_of_def isInWorkflowCtx_def isWithinWorkflowCtx_def isInStepCtx_def isInTxnCtx_def truthy_int_def)

lemma code_of_advance [simp]: "code_of w (advance ctx) = code_of w ctx"
  by (simp add: code_of_def advance_def DBOS_isInWorkflow_def DBOS_isWithinWorkflow_def DBOS_isInStep_def DBOS_isInTransaction_def)

lemma numbered_eval: "code_of w ctx \<Longrightarrow> and_then (in_ctx functionIDGetIncrement) k (Some ctx, db) = k (next_id ctx) (Some (advance ctx), db)"
  using code_ofD(6) [of w ctx] by (simp add: in_ctx_apply call_id_in_workflow advance_def next_id_def)

lemma numbered_some:
  "code_of w ctx \<Longrightarrow> and_then (and_then (in_ctx functionIDGetIncrement) (\<lambda>f. ret (Some f))) k (Some ctx, db) =
    k (Some (next_id ctx)) (Some (advance ctx), db)"
  using code_ofD(6) [of w ctx] by (simp add: and_then_def [of "and_then _ _"] numbered_eval)

definition check_call :: "api_env \<Rightarrow> api_call \<Rightarrow> dbos_error option" where
  "check_call a k = (case k of
       RunStep n cfg fn \<Rightarrow> validateStepConfig cfg n
     | SetWorkflowPriority w p \<Rightarrow> if p < DBOS_QUEUE_MIN_PRIORITY \<or> p > DBOS_QUEUE_MAX_PRIORITY
         then Some (DBOSInvalidQueuePriorityError p DBOS_QUEUE_MIN_PRIORITY DBOS_QUEUE_MAX_PRIORITY) else None
     | SetWorkflowDelay w d \<Rightarrow> (case resolveDelayEpochMS (ae_now a) d of Inl e \<Rightarrow> Some e | Inr _ \<Rightarrow> None)
     | CreateSchedule sched \<Rightarrow> (case internal_schedule a (ae_uuid a) sched of Inl e \<Rightarrow> Some e | Inr _ \<Rightarrow> None)
     | UpdateSchedule n u \<Rightarrow> (case internal_updates a u of Inl e \<Rightarrow> Some e | Inr _ \<Rightarrow> None)
     | _ \<Rightarrow> None)"

definition internal :: "api_env \<Rightarrow> string \<Rightarrow> string \<Rightarrow> int \<Rightarrow> js_value db_op \<Rightarrow> js_value db_op" where
  "internal a n w f cb = runInternalStep (ae_ser a) (ae_now a) (ae_end a) cb n w f None"

definition transactional :: "api_env \<Rightarrow> string \<Rightarrow> string \<Rightarrow> int \<Rightarrow> unit db_op \<Rightarrow> js_value db_op" where
  "transactional a n w f m = and_then (transactional_step a (void m) n w f) (\<lambda>_. ret JsUndefined)"

definition core_call :: "api_env \<Rightarrow> api_call \<Rightarrow> DBOSLocalCtx \<Rightarrow> string \<Rightarrow> int \<Rightarrow> js_value db_op" where
  "core_call a k ctx w f = (case k of
       RunStep n cfg fn \<Rightarrow> call_step (ae_ser a) (ae_now a) (ae_end a) n cfg fn (advance ctx) f
     | CancelWorkflows ids ch \<Rightarrow> internal a ''DBOS.cancelWorkflow'' w f (void (cancelWorkflows (ae_now a) ids ch))
     | ResumeWorkflows ids q \<Rightarrow> and_then (internal a ''DBOS.resumeWorkflow'' w f (void (resumeWorkflows (ae_now a) ids q)))
         (\<lambda>_. ret (JsArr (map JsStr ids)))
     | DeleteWorkflows ids ch \<Rightarrow> internal a ''DBOS.deleteWorkflow'' w f (void (deleteWorkflows ids ch))
     | SetWorkflowPriority w' p \<Rightarrow> internal a ''DBOS.setWorkflowPriority'' w f (void (setWorkflowPriority (ae_now a) w' p))
     | SetWorkflowDelay w' d \<Rightarrow> internal a ''DBOS.setWorkflowDelay'' w f (void (setWorkflowDelay (ae_now a) w'
         (case resolveDelayEpochMS (ae_now a) d of Inr t \<Rightarrow> t | Inl _ \<Rightarrow> 0)))
     | ForkWorkflow w' start newID opts \<Rightarrow> and_then (internal a ''DBOS.forkWorkflow'' w f (fork_callback a w' start newID opts (Some ctx)))
         (\<lambda>v. ret (JsStr (case v of JsStr i \<Rightarrow> i | _ \<Rightarrow> [])))
     | Sleep d \<Rightarrow> if d \<le> 0 then ret JsUndefined else and_then (durableSleep (ae_now a) w f d) (\<lambda>_. ret JsUndefined)
     | Now \<Rightarrow> internal a ''DBOS.now'' w f (ret (JsNum (ae_now a)))
     | RandomUUID \<Rightarrow> internal a ''DBOS.randomUUID'' w f (ret (JsStr (ae_uuid a)))
     | Send dest m topic key fmt \<Rightarrow> and_then (lift_sum (serializeValue (ae_ser a) m (default_type fmt (Some ctx)))) (\<lambda>v.
         void (send (ae_now a) (ae_end a) (ae_uuid a) w f dest (sv_serializedValue v) topic (sv_serialization v) key))
     | SetEvent key m fmt \<Rightarrow> and_then (lift_sum (serializeValue (ae_ser a) m (default_type fmt (Some ctx)))) (\<lambda>v.
         void (setEvent (ae_now a) (ae_end a) w f key (sv_serializedValue v) (sv_serialization v)))
     | WriteStream key m fmt \<Rightarrow> and_then (lift_sum (serializeValue (ae_ser a) m (default_type fmt (Some ctx)))) (\<lambda>v.
         void (writeStreamFromWorkflow (ae_now a) (ae_end a) w f key (coalesce (sv_serializedValue v) []) (sv_serialization v) ''DBOS.writeStream''))
     | CloseStream key \<Rightarrow> void (closeStream (ae_now a) (ae_end a) w f key)
     | CreateSchedule sched \<Rightarrow> transactional a ''DBOS.createSchedule'' w f
         (case internal_schedule a (ae_uuid a) sched of Inr i \<Rightarrow> createSchedule i | Inl e \<Rightarrow> ret ())
     | DeleteSchedule n \<Rightarrow> transactional a ''DBOS.deleteSchedule'' w f (deleteSchedule n)
     | PauseSchedule n \<Rightarrow> transactional a ''DBOS.pauseSchedule'' w f (setScheduleStatus n ''PAUSED'')
     | ResumeSchedule n \<Rightarrow> transactional a ''DBOS.resumeSchedule'' w f (setScheduleStatus n ''ACTIVE'')
     | UpdateSchedule n u \<Rightarrow> transactional a ''DBOS.updateSchedule'' w f (case internal_updates a u of Inr i \<Rightarrow> updateSchedule n i | Inl e \<Rightarrow> ret ())
     | _ \<Rightarrow> ret JsUndefined)"

fun one_id :: "DBOSLocalCtx \<Rightarrow> api_call \<Rightarrow> bool" where
  "one_id ctx (Patch n) = False"
| "one_id ctx (StartChild t r args ps) = False"
| "one_id ctx (ForkWorkflow w start newID opts) = (newID \<noteq> None \<or> \<not> truthy (cx_idAssignedForNextWorkflow ctx))"
| "one_id ctx k = True"

lemma map_result:
  assumes "m (c, db) = (fst (m' db'), (c', snd (m' db')))"
  shows "and_then m (\<lambda>x. ret (g x)) (c, db) =
    (fst (and_then m' (\<lambda>x. ret (g x)) db'), (c', snd (and_then m' (\<lambda>x. ret (g x)) db')))"
proof (cases "fst (m' db')")
  case (Inl e)
  with assms have "m (c, db) = (Inl e, (c', snd (m' db')))" "m' db' = (Inl e, snd (m' db'))" by (simp_all add: prod_eq_iff)
  then show ?thesis by simp
next
  case (Inr x)
  with assms have "m (c, db) = (Inr x, (c', snd (m' db')))" "m' db' = (Inr x, snd (m' db'))" by (simp_all add: prod_eq_iff)
  then show ?thesis by simp
qed

lemma retrieve_all_eval: "ae_launched a \<Longrightarrow> code_of w ctx \<Longrightarrow> retrieve_all a ids (Some ctx, db) = (Inr (map RetrievedHandle ids), (Some ctx, db))"
  by (induction ids) (simp_all add: DBOS_retrieveWorkflow_def code_ofD)

lemma internal_call_eval:
  "code_of w ctx \<Longrightarrow> runInternalStep_call a cb n None None (Some ctx, db) =
    (fst (internal a n w (next_id ctx) cb db), (Some (advance ctx), snd (internal a n w (next_id ctx) cb db)))"
  by (simp add: runInternalStep_call_def code_ofD numbered_eval internal_def)

lemma transactional_call_eval:
  "code_of w ctx \<Longrightarrow> and_then (runTransactionalInternalStep a (void m) n) (\<lambda>_. ret JsUndefined) (Some ctx, db) =
    (fst (transactional a n w (next_id ctx) m db), (Some (advance ctx), snd (transactional a n w (next_id ctx) m db)))"
proof -
  assume "code_of w ctx"
  then have "runTransactionalInternalStep a (void m) n (Some ctx, db) =
      (fst (transactional_step a (void m) n w (next_id ctx) db), (Some (advance ctx), snd (transactional_step a (void m) n w (next_id ctx) db)))"
    by (simp add: runTransactionalInternalStep_def code_ofD numbered_eval)
  then show ?thesis by (simp add: transactional_def map_result)
qed

lemma perform_eval:
  assumes "ae_launched a" and "code_of w ctx" and "one_id ctx k"
  shows "perform a k (Some ctx, db) = (case check_call a k of
      Some e \<Rightarrow> (Inl e, (Some ctx, db))
    | None \<Rightarrow> (fst (core_call a k ctx w (next_id ctx) db), (Some (advance ctx), snd (core_call a k ctx w (next_id ctx) db))))"
proof (cases k)
  case (RunStep n cfg fn)
  then show ?thesis using assms code_ofD [OF assms(2)]
    by (cases "validateStepConfig cfg n", simp add: DBOS_runStep_def step_call_def check_call_def core_call_def callStepFunction_eval
        Let_def advance_def next_id_def)
      (simp add: DBOS_runStep_def step_call_def check_call_def callStepFunction_def)
next
  case (ResumeWorkflows ids q)
  obtain r db' where i: "internal a ''DBOS.resumeWorkflow'' w (next_id ctx) (void (resumeWorkflows (ae_now a) ids q)) db = (r, db')" by fastforce
  then have "runInternalStep_call a (void (resumeWorkflows (ae_now a) ids q)) ''DBOS.resumeWorkflow'' None None (Some ctx, db) = (r, (Some (advance ctx), db'))"
    by (simp add: internal_call_eval [OF assms(2)])
  with i show ?thesis using assms(1,2) ResumeWorkflows
    by (cases r) (simp_all add: DBOS_resumeWorkflows_def check_call_def core_call_def retrieve_all_eval comp_def)
next
  case (SetWorkflowDelay w' d)
  with assms show ?thesis
    by (cases "resolveDelayEpochMS (ae_now a) d") (simp_all add: DBOS_setWorkflowDelay_def check_call_def core_call_def internal_call_eval)
next
  case (ForkWorkflow w' start newID opts)
  let ?cb = "fork_callback a w' start newID opts (Some ctx)"
  obtain r db' where i: "internal a ''DBOS.forkWorkflow'' w (next_id ctx) ?cb db = (r, db')" by fastforce
  then have run: "runInternalStep_call a ?cb ''DBOS.forkWorkflow'' None None (Some ctx, db) = (r, (Some (advance ctx), db'))"
    by (simp add: internal_call_eval [OF assms(2)])
  have "(if newID = None \<and> fork_runs (Some ctx) db then snd (getNextWFID None (Some (advance ctx))) else Some (advance ctx)) = Some (advance ctx)"
    using assms(3) ForkWorkflow by (auto simp: getNextWFID_def truthy_def advance_def split: option.splits)
  with i run show ?thesis using assms(1,2) ForkWorkflow
    by (cases r) (simp_all add: DBOS_forkWorkflow_def check_call_def core_call_def DBOS_retrieveWorkflow_def code_ofD Let_def)
next
  case (Sleep d)
  with assms show ?thesis using code_ofD [OF assms(2)]
    by (cases "durableSleep (ae_now a) w (next_id ctx) d db"; cases "fst (durableSleep (ae_now a) w (next_id ctx) d db)")
      (simp_all add: DBOS_sleepms_def check_call_def core_call_def numbered_eval)
next
  case (Send dest m topic key fmt)
  with assms show ?thesis using code_ofD [OF assms(2)]
    by (cases "serializeValue (ae_ser a) m (default_type fmt (Some ctx))")
      (simp_all add: DBOS_send_def check_call_def core_call_def numbered_eval Let_def)
next
  case (SetEvent key m fmt)
  with assms show ?thesis using code_ofD [OF assms(2)]
    by (cases "serializeValue (ae_ser a) m (default_type fmt (Some ctx))")
      (simp_all add: DBOS_setEvent_def check_call_def core_call_def numbered_eval Let_def)
next
  case (WriteStream key m fmt)
  with assms show ?thesis using code_ofD [OF assms(2)]
    by (cases "serializeValue (ae_ser a) m (default_type fmt (Some ctx))")
      (simp_all add: DBOS_writeStream_def check_call_def core_call_def numbered_eval Let_def)
next
  case (CreateSchedule sched)
  with assms show ?thesis
    by (cases "internal_schedule a (ae_uuid a) sched") (simp_all add: DBOS_createSchedule_def check_call_def core_call_def transactional_call_eval)
next
  case (UpdateSchedule n u)
  with assms show ?thesis
    by (cases "internal_updates a u") (simp_all add: DBOS_updateSchedule_def check_call_def core_call_def transactional_call_eval)
qed (use assms in \<open>simp_all add: check_call_def core_call_def internal_call_eval transactional_call_eval numbered_eval code_ofD
  DBOS_cancelWorkflows_def DBOS_deleteWorkflows_def DBOS_now_def DBOS_randomUUID_def DBOS_deleteSchedule_def DBOS_pauseSchedule_def
  DBOS_resumeSchedule_def DBOS_closeStream_def DBOS_setWorkflowPriority_def check_priority_def\<close>)

section \<open>Calls keep the checkpoints of their workflow\<close>

definition grows :: "string \<Rightarrow> 'a db_op \<Rightarrow> bool" where
  "grows w m = (\<forall>db x db1. m db = (Inr x, db1) \<longrightarrow> has_rows w db db1)"

lemma growsD: "grows w m \<Longrightarrow> m db = (Inr x, db1) \<Longrightarrow> has_rows w db db1"
  unfolding grows_def by blast

lemma preserves_grows: "(\<And>f r. preserves (row_is w f r) m) \<Longrightarrow> grows w m"
proof -
  assume "\<And>f r. preserves (row_is w f r) m"
  then have "keeps_rows w m" by (rule keeps_rowsI)
  then show ?thesis unfolding grows_def by (blast intro: keeps_rowsD)
qed

lemma grows_and_then: "grows w m \<Longrightarrow> (\<And>x. grows w (k x)) \<Longrightarrow> grows w (and_then m k)"
  unfolding grows_def by (auto simp: and_then_success) (meson has_rows_trans)

lemma grows_simple [simp]: "grows w (ret x)" "grows w (throw e)" "grows w (lift_sum y)"
  by (auto simp: grows_def)

lemma grows_leaves: "leaves_checkpoints m \<Longrightarrow> grows w m"
  by (auto simp: grows_def has_rows_def dest: leaves_none)

lemma grows_record: "grows w (recordOperationResult w' f n chk s e opts)"
  by (rule preserves_grows) (rule keep_rules)

lemma grows_recorded: "leaves_checkpoints m \<Longrightarrow> grows w (runAndRecordResult s e n w' f m)"
  unfolding runAndRecordResult_def by (intro preserves_grows keep_rules) (auto intro!: keep_rules simp: leaves_keeps)

lemma grows_internal:
  assumes "grows w cb"
  shows "grows w (internal a n w f cb)"
  unfolding grows_def
proof (intro allI impI)
  fix db x db1 assume run: "internal a n w f cb db = (Inr x, db1)"
  show "has_rows w db db1"
  proof (cases "find_row oo_pk (w, f) (t_operation_outputs db)")
    case (Some r)
    with run show ?thesis unfolding internal_def by (subst (asm) runInternalStep_eval) (auto split: if_splits)
  next
    case None
    with runInternalStep_new [OF run [unfolded internal_def]] show ?thesis
      using assms growsD [OF grows_record, of w f n True "ae_now a" "ae_end a"] by (auto simp: unrecorded_def dest!: growsD intro: has_rows_trans)
  qed
qed

lemma transactional_step_snd:
  "snd (transactional_step a cb n w f db) = snd (runTransactionalStep (ae_now a) (ae_end a) w f n (and_then cb (\<lambda>v.
    and_then (lift_sum (sz_stringify (se_serializer (ae_ser a)) (if v = JsUndefined then JsNull else v))) (\<lambda>t. ret (Some t)))) db)"
  by (simp add: transactional_step_def split: prod.splits sum.splits option.splits)

lemma grows_transactional:
  assumes "leaves_checkpoints m"
  shows "grows w (transactional a n w f m)"
proof -
  have "preserves (row_is w g r) (runTransactionalStep s e w f n (and_then (void m) (\<lambda>v. and_then (lift_sum (y v)) (\<lambda>t. ret (Some t)))))" for g r s e y
    unfolding runTransactionalStep_def void_def by (intro keep_rules leaves_keeps assms)
  then have "preserves (row_is w g r) (transactional_step a (void m) n w f)" for g r
    by (simp add: preserves_def transactional_step_snd)
  then show ?thesis unfolding transactional_def by (intro grows_and_then preserves_grows) (simp_all add: preserves_ret)
qed

lemma grows_step:
  assumes "\<And>f. leaves_step w f fn" and "cx_workflowId lctx = Some w"
  shows "grows w (call_step env s e n cfg fn lctx f)"
  unfolding grows_def
proof (intro allI impI)
  fix db x db1 assume run: "call_step env s e n cfg fn lctx f db = (Inr x, db1)"
  show "has_rows w db db1"
  proof (cases "find_row oo_pk (w, f) (t_operation_outputs db)")
    case (Some r)
    with run show ?thesis by (auto simp: call_step_eval [OF assms(2)] split: if_splits)
  next
    case None
    with run obtain out tr dbm where att: "run_attempts n cfg (coalesce (sg_maxAttempts cfg) 3) lctx w f fn db = ((out, tr), dbm)"
      and rec: "record_step env w f n s e out (coalesce (sg_maxAttempts cfg) 3) dbm = (Inr x, db1)"
      by (auto simp: call_step_eval [OF assms(2)] split: if_splits prod.splits)
    have "has_rows w db dbm" using run_attempts_leaves [OF assms(1) att] by (simp add: has_rows_def)
    moreover have "has_rows w dbm db1" using rec
      by (cases out) (auto simp: record_step_def and_then_success Let_def dest: growsD [OF grows_record])
    ultimately show ?thesis by (rule has_rows_trans)
  qed
qed

lemma find_row_delete_other:
  "(\<And>r. r \<in> set rows \<Longrightarrow> key r = k \<Longrightarrow> \<not> P r) \<Longrightarrow> find_row key k (delete_where P rows) = find_row key k rows"
  by (induction rows) auto

lemma delete_checkpoints:
  assumes "w \<notin> set ids"
  shows "find_row oo_pk (w, f) (t_operation_outputs (snd (deleteWorkflows ids False db))) = find_row oo_pk (w, f) (t_operation_outputs db)"
  using assms by (auto simp: deleteWorkflows_def delete_workflow_rows_def Let_def oo_pk_def intro!: find_row_delete_other)

lemma fork_checkpoints:
  assumes "coalesce newID u \<noteq> w"
  shows "find_row oo_pk (w, f) (t_operation_outputs (snd (forkWorkflow now u w' start newID opts db))) =
    find_row oo_pk (w, f) (t_operation_outputs db)"
proof -
  have copied: "find_row oo_pk (w, f) (copy_prefix oo_workflow_uuid oo_function_id (rename_operation repl) [(w', coalesce newID u, start)] rows) = None" for repl rows
    using assms by (auto intro!: find_row_NoneI simp: copy_prefix_def rename_operation_def oo_pk_def)
  show ?thesis
    using copied
    by (auto simp: forkWorkflow_def bulkForkWorkflows_def and_then_def transaction_def insert_forks_def Let_def mark_forked_from_def copy_tables_def
        find_row_append copy_prefix_def split: prod.splits sum.splits option.splits if_splits)
qed

lemma same_checkpoints:
  assumes "\<And>f db. find_row oo_pk (w, f) (t_operation_outputs (snd (m db))) = find_row oo_pk (w, f) (t_operation_outputs db)"
  shows "grows w (and_then m (\<lambda>x. ret (g x)))" "keeps_unrecorded w f (and_then m (\<lambda>x. ret (g x)))"
proof -
  have m: "preserves (row_is w f r) m" "preserves (unrecorded w f) m" for f r using assms by (simp_all add: preserves_def unrecorded_def)
  show "grows w (and_then m (\<lambda>x. ret (g x)))" by (intro preserves_grows keep_rules m)
  show "keeps_unrecorded w f (and_then m (\<lambda>x. ret (g x)))" unfolding keeps_unrecorded_def by (intro keep_rules m)
qed

lemma management_leaves [simp]:
  "leaves_checkpoints (cancelWorkflows now ids ch)" "leaves_checkpoints (resumeWorkflows now ids q)"
  "leaves_checkpoints (setWorkflowPriority now w p)" "leaves_checkpoints (setWorkflowDelay now w d)"
  "leaves_checkpoints (createSchedule i)" "leaves_checkpoints (deleteSchedule n)" "leaves_checkpoints (setScheduleStatus n st)"
  "leaves_checkpoints (updateSchedule n iu)"
  by (simp_all add: leaves_checkpoints_def cancelWorkflows_def resumeWorkflows_def setWorkflowPriority_def setWorkflowDelay_def
      createSchedule_def deleteSchedule_def setScheduleStatus_def updateSchedule_def)

section \<open>Replay of one call\<close>

text \<open>What is asked of a call: a step's function does not touch the checkpoints of its own workflow, and the workflow does not delete
  itself or fork to its own ID.\<close>

fun harmless :: "string \<Rightarrow> api_call \<Rightarrow> bool" where
  "harmless w (RunStep n cfg fn) = (\<forall>f. leaves_step w f fn)"
| "harmless w (DeleteWorkflows ids ch) = (\<not> ch \<and> w \<notin> set ids)"
| "harmless w (ForkWorkflow w' start newID opts) = (newID \<noteq> Some w \<and> newID \<noteq> None)"
| "harmless w k = True"

text \<open>Two runs of the same program: the clocks, random IDs and executors differ.\<close>

definition same_program :: "api_env \<Rightarrow> api_env \<Rightarrow> bool" where
  "same_program a a' = (ae_launched a \<and> ae_launched a' \<and> ae_ser a' = ae_ser a \<and> ae_queues a' = ae_queues a \<and>
     ae_enablePatching a' = ae_enablePatching a \<and> ae_zones a' = ae_zones a)"

lemma fork_callback_same:
  assumes "newID \<noteq> Some w" and "newID \<noteq> None"
  shows "grows w (fork_callback a w' start newID opts c)" "keeps_unrecorded w f (fork_callback a w' start newID opts c)"
proof -
  obtain i where i: "newID = Some i" "i \<noteq> w" using assms by auto
  have same: "find_row oo_pk (w, f) (t_operation_outputs (snd (forkWorkflow (ae_now a) (ae_uuid a) w' start (Some i) opts db))) =
      find_row oo_pk (w, f) (t_operation_outputs db)" for f db
    by (rule fork_checkpoints) (simp add: i)
  show "grows w (fork_callback a w' start newID opts c)" "keeps_unrecorded w f (fork_callback a w' start newID opts c)"
    unfolding fork_callback_def i Let_def option.case by (rule same_checkpoints [OF same])+
qed

lemma void_unrecorded: "leaves_checkpoints m \<Longrightarrow> keeps_unrecorded w f (void m)"
  unfolding void_def by (intro leaves_unrecorded leaves_checkpoints_and_then) simp_all

lemma delete_same:
  assumes "w \<notin> set ids"
  shows "grows w (void (deleteWorkflows ids False))" "keeps_unrecorded w f (void (deleteWorkflows ids False))"
  unfolding void_def by (rule same_checkpoints [OF delete_checkpoints [OF assms]])+

lemma durable_after:
  assumes "y = Inr v" and "y' = Inr v" and "durable w (k v) (k' v)"
  shows "durable w (and_then (lift_sum y) k) (and_then (lift_sum y') k')"
  using assms by (auto simp: durable_def)

lemma durable_lift: "(\<And>v. durable w (k v) (k' v)) \<Longrightarrow> durable w (and_then (lift_sum y) k) (and_then (lift_sum y) k')"
  by (cases y) (auto simp: durable_def)

lemma durable_core:
  assumes env: "env_lawful (ae_ser a) ok" "ok JsNull" and same: "same_program a a'" and "harmless w k" and "cx_workflowId ctx = Some w"
  shows "durable w (core_call a k ctx w f) (core_call a' k ctx w f)"
proof -
  have ser: "ae_ser a' = ae_ser a" using same by (simp add: same_program_def)
  have int: "durable w (internal a n w f cb) (internal a' n w f cb')" if "keeps_unrecorded w f cb" for n cb cb'
    unfolding internal_def ser by (rule durable_internal [OF env(1) that])
  have tra: "durable w (transactional a n w f m) (transactional a' n w f m')" if "leaves_checkpoints m" for n m m'
    unfolding transactional_def by (rule durable_transactional [OF env that ser])
  have adv: "cx_workflowId (advance ctx) = Some w" using assms(5) by (simp add: advance_def)
  show ?thesis
  proof (cases k)
    case (RunStep n cfg fn)
    with assms show ?thesis unfolding core_call_def ser by (simp add: durable_step [OF env(1) _ adv adv])
  next
    case (ForkWorkflow w' start newID opts)
    with assms(4) show ?thesis unfolding core_call_def by (auto intro!: durable_map int fork_callback_same)
  next
    case (DeleteWorkflows ids ch)
    with assms(4) show ?thesis unfolding core_call_def by (auto intro!: int delete_same)
  next
    case (Sleep d)
    then show ?thesis by (simp add: core_call_def durable_ret durable_map durable_sleep)
  qed (simp_all add: core_call_def ser closeStream_def int tra durable_map durable_lift durable_void durable_send durable_setEvent
      durable_writeStream void_unrecorded leaves_unrecorded durable_ret split: sum.split)
qed

lemma grows_void: "grows w m \<Longrightarrow> grows w (void m)"
  unfolding void_def by (rule grows_and_then) simp_all

lemma grows_messages [simp]:
  "grows w (send s e u w f d m t ser key)" "grows w (setEvent s e w f k m ser)" "grows w (writeStreamFromWorkflow s e w f k v ser n)"
  "grows w (durableSleep now w f ms)"
proof -
  have rec: "preserves (row_is w g r) (runAndRecordResult s e n w f m)" if "leaves_checkpoints m" for g r m n
    unfolding runAndRecordResult_def by (intro keep_rules leaves_keeps that) (auto intro!: keep_rules)
  have sig: "preserves (row_is w g r) (modify (signalNotification ch p))" for g r ch p by (simp add: preserves_def)
  show "grows w (send s e u w f d m t ser key)" unfolding send_def
    by (intro preserves_grows keep_rules rec leaves_checkpoints_and_then) simp_all
  show "grows w (setEvent s e w f k m ser)" unfolding setEvent_def
    by (intro preserves_grows keep_rules rec sig leaves_checkpoints_and_then) simp_all
  show "grows w (writeStreamFromWorkflow s e w f k v ser n)" unfolding writeStreamFromWorkflow_def
    by (intro preserves_grows keep_rules rec sig leaves_checkpoints_and_then) simp_all
  show "grows w (durableSleep now w f ms)" unfolding durableSleep_def Let_def by (intro preserves_grows keep_rules)
qed

lemma grows_core:
  assumes "harmless w k" and "cx_workflowId ctx = Some w"
  shows "grows w (core_call a k ctx w f)"
proof (cases k)
  case (RunStep n cfg fn)
  with assms show ?thesis by (simp add: core_call_def grows_step advance_def)
next
  case (ForkWorkflow w' start newID opts)
  with assms(1) show ?thesis by (auto simp: core_call_def intro!: grows_and_then grows_internal fork_callback_same)
next
  case (DeleteWorkflows ids ch)
  with assms(1) show ?thesis by (auto simp: core_call_def intro!: grows_internal delete_same)
qed (simp_all add: core_call_def closeStream_def grows_and_then grows_internal grows_transactional grows_void grows_leaves split: sum.split)

lemma internal_updates_same: "same_program a a' \<Longrightarrow> internal_updates a' u = internal_updates a u"
proof -
  assume "same_program a a'"
  then have eqs: "ae_ser a' = ae_ser a" "ae_zones a' = ae_zones a" by (simp_all add: same_program_def)
  show ?thesis unfolding internal_updates_def validate_zone_def eqs ..
qed

lemma check_call_same: "same_program a a' \<Longrightarrow> check_call a k = None \<Longrightarrow> check_call a' k = None"
proof (cases k)
  case (SetWorkflowDelay w d)
  then show "check_call a k = None \<Longrightarrow> check_call a' k = None"
    by (auto simp: check_call_def resolveDelayEpochMS_def split: sum.splits option.splits if_splits)
next
  case (CreateSchedule sched)
  then show "same_program a a' \<Longrightarrow> check_call a k = None \<Longrightarrow> check_call a' k = None"
    by (cases "sz_stringify (se_serializer (ae_ser a)) (sl_context sched)")
      (auto simp: check_call_def internal_schedule_def validate_zone_def same_program_def split: sum.splits if_splits)
next
  case (UpdateSchedule n u)
  then show "same_program a a' \<Longrightarrow> check_call a k = None \<Longrightarrow> check_call a' k = None"
    using internal_updates_same [of a a'] by (simp add: check_call_def)
qed (auto simp: check_call_def)

text \<open>Starting a child: the checks depend on the program only.\<close>

lemma validate_enqueue_pure: "validate_enqueue a q opts s = (Inr u, s1) \<Longrightarrow> s1 = s \<and> validate_enqueue a q opts s' = (Inr u, s')"
  by (cases s; cases s')
    (auto simp: validate_enqueue_def validate_queued_def plain_error_def check_priority_def and_then_success Let_def split: if_splits option.splits)

lemma validate_enqueue_same: "same_program a a' \<Longrightarrow> validate_enqueue a' q opts = validate_enqueue a q opts"
  by (simp add: validate_enqueue_def same_program_def)

lemma getNextWFID_code:
  assumes "code_of w ctx"
  obtains wfId ctx1 where "getNextWFID i (Some ctx) = (Inr wfId, Some ctx1)" "code_of w ctx1"
proof (cases "truthy i \<or> \<not> truthy (cx_idAssignedForNextWorkflow ctx)")
  case True
  then have "getNextWFID i (Some ctx) = (Inr i, Some ctx)" by (auto simp: getNextWFID_def)
  with assms show thesis by (intro that)
next
  case False
  then have "getNextWFID i (Some ctx) = (Inr (cx_idAssignedForNextWorkflow ctx), Some (ctx\<lparr>cx_idAssignedForNextWorkflow := None\<rparr>))"
    by (simp add: getNextWFID_def)
  moreover have "code_of w (ctx\<lparr>cx_idAssignedForNextWorkflow := None\<rparr>)"
    using assms by (simp add: code_of_def DBOS_isInWorkflow_def DBOS_isWithinWorkflow_def DBOS_isInStep_def DBOS_isInTransaction_def)
  ultimately show thesis by (rule that)
qed

definition child_params :: "call_target \<Rightarrow> StartWorkflowParams \<Rightarrow> DBOSLocalCtx \<Rightarrow> string \<Rightarrow> string option \<Rightarrow> InternalWorkflowParams" where
  "child_params target ps ctx1 w wfId = start_params target ps (Some ctx1)
     (Some (if truthy wfId then coalesce wfId [] else w @ ''-'' @ show_int (next_id ctx1))) (child_deadline ps (Some ctx1))"

lemma start_child_success:
  assumes "ae_launched a" and "code_of w ctx" and "getNextWFID (sp_workflowID ps) (Some ctx) = (Inr wfId, Some ctx1)" and "code_of w ctx1"
  shows "perform a (StartChild target reg args ps) (Some ctx, db) = (Inr v, (c1, db1)) \<longleftrightarrow>
    validateWorkflowAttributes (sp_workflowAttributes ps) = None \<and> target \<noteq> OtherObject \<and>
    (\<exists>u. validate_enqueue a (coalesce_opt (sp_queueName ps) (cx_queueAssignedForWorkflows ctx1)) (sp_enqueueOptions ps) (Some (advance ctx1), db)
      = (Inr u, (Some (advance ctx1), db))) \<and>
    c1 = Some (advance ctx1) \<and>
    and_then (invokeRegOp a reg (child_params target ps ctx1 w wfId) (Some (advance ctx1)) (Some w) (Some (next_id ctx1)) args)
      (\<lambda>h. ret (JsStr (handle_id h))) db = (Inr v, db1)"
proof (cases "validateWorkflowAttributes (sp_workflowAttributes ps) = None \<and> target \<noteq> OtherObject")
  case True
  let ?v = "validate_enqueue a (coalesce_opt (sp_queueName ps) (cx_queueAssignedForWorkflows ctx1)) (sp_enqueueOptions ps)"
  let ?m = "invokeRegOp a reg (child_params target ps ctx1 w wfId) (Some (advance ctx1)) (Some w) (Some (next_id ctx1)) args"
  have eval: "invokeWorkflow a target reg args ps None (Some ctx, db) = and_then ?v (\<lambda>_. and_then (gets fst) (\<lambda>ctx'.
      in_db (invokeRegOp a reg (child_params target ps ctx1 w wfId) ctx' (Some w) (Some (next_id ctx1)) args))) (Some (advance ctx1), db)"
    using True assms(1,3) code_ofD [OF assms(4)]
    by (simp add: numbered_some [OF assms(4)] invokeWorkflow_def in_ctx_apply child_params_def Let_def)
  show ?thesis
  proof (cases "fst (?v (Some (advance ctx1), db))")
    case (Inl e)
    then obtain s1 where "?v (Some (advance ctx1), db) = (Inl e, s1)" by (metis prod.collapse)
    with eval show ?thesis by simp
  next
    case (Inr u)
    then have v: "?v (Some (advance ctx1), db) = (Inr u, (Some (advance ctx1), db))" using validate_enqueue_pure by (metis prod.collapse)
    with eval have "invokeWorkflow a target reg args ps None (Some ctx, db) = (fst (?m db), (Some (advance ctx1), snd (?m db)))" by simp
    then have "perform a (StartChild target reg args ps) (Some ctx, db) =
        (fst (and_then ?m (\<lambda>h. ret (JsStr (handle_id h))) db), (Some (advance ctx1), snd (and_then ?m (\<lambda>h. ret (JsStr (handle_id h))) db)))"
      by (simp add: map_result)
    with True v show ?thesis by (auto simp: prod_eq_iff)
  qed
next
  case False
  then have "\<exists>e s1. invokeWorkflow a target reg args ps None (Some ctx, db) = (Inl e, s1)"
    using assms(1,3) by (cases "validateWorkflowAttributes (sp_workflowAttributes ps)") (simp_all add: invokeWorkflow_def in_ctx_apply invalid_transition_def)
  with False show ?thesis by auto
qed

lemma grows_start: "grows w (start_workflow env now xid mx st params (Some w) (Some f))"
  unfolding grows_def
proof (intro allI impI)
  fix db res db1 assume run: "start_workflow env now xid mx st params (Some w) (Some f) db = (Inr res, db1)"
  show "has_rows w db db1"
  proof (cases "find_row oo_pk (w, f) (t_operation_outputs db)")
    case None
    with run obtain ires dbm where init: "initWorkflowStatus now st (Some xid) (wp_isRecoveryDispatch params) (wp_isQueueDispatch params) (Some mx) db = (Inr ires, dbm)"
      and rec: "record_child now (Some w) (Some f) (si_workflowName st) (si_workflowUUID st) dbm = (Inr (), db1)"
      by (auto simp: start_workflow_eval and_then_success split: if_splits prod.splits sum.splits)
    have "t_operation_outputs dbm = t_operation_outputs db"
      using initWorkflowStatus_outputs [of now st "Some xid" "wp_isRecoveryDispatch params" "wp_isQueueDispatch params" "Some mx" db] init by simp
    then have "has_rows w db dbm" by (simp add: has_rows_def)
    moreover have "has_rows w dbm db1" using rec by (auto simp: record_child_def dest: growsD [OF grows_record])
    ultimately show ?thesis by (rule has_rows_trans)
  qed (use run in \<open>auto simp: start_workflow_eval split: if_splits\<close>)
qed

lemma grows_internalWorkflow: "grows w (internalWorkflow env now g u xid n cn wi params c (Some w) (Some f) args)"
proof -
  have handle: "grows w (handle_for params i ires)" for i ires
    by (auto simp: grows_def has_rows_def dest: handle_for_id)
  then have "grows w (case res of ExistingChild c \<Rightarrow> ret (RetrievedHandle (coalesce c [])) | Initialized ires \<Rightarrow> handle_for params i ires)" for res i
    by (cases res) simp_all
  moreover have "grows w (gets m_executorID)" by (simp add: grows_def)
  ultimately show ?thesis unfolding internalWorkflow_def Let_def by (simp add: grows_and_then grows_start)
qed

lemma grows_child: "grows w (and_then (invokeRegOp a reg params c (Some w) (Some f) args) (\<lambda>h. ret (JsStr (handle_id h))))"
  unfolding invokeRegOp_def by (intro grows_and_then) (simp_all add: grows_internalWorkflow)

text \<open>A patch check that has decided finds its marker, or the other step at its place, again.\<close>

definition stay :: "DBOSLocalCtx \<Rightarrow> DBOSLocalCtx" where
  "stay ctx = ctx\<lparr>cx_curWFFunctionId := Some (next_id ctx)\<rparr>"

lemma code_of_stay [simp]: "code_of w (stay ctx) = code_of w ctx"
  by (simp add: code_of_def stay_def DBOS_isInWorkflow_def DBOS_isWithinWorkflow_def DBOS_isInStep_def DBOS_isInTransaction_def)

lemma patch_eval:
  assumes "ae_enablePatching a" and "code_of w ctx" and "checkPatch (ae_now a) w (next_id ctx) n False db = (r, db')"
  shows "perform a (Patch n) (Some ctx, db) = (case r of
      Inl e \<Rightarrow> (Inl e, (Some (stay ctx), db'))
    | Inr p \<Rightarrow> (Inr (JsBool (pr_isPatched p)), (Some (if pr_hasEntry p then advance ctx else stay ctx), db')))"
proof -
  have get: "and_then (in_ctx functionIDGet) k (Some ctx, db) = k (next_id ctx) (Some (stay ctx), db)" for k :: "int \<Rightarrow> js_value api_op"
    using code_ofD(6) [OF assms(2)] by (simp add: in_ctx_apply functionIDGet_def call_id_def Let_def next_id_def stay_def)
  have "advance (stay ctx) = advance ctx" by (simp add: advance_def stay_def next_id_def)
  then show ?thesis
    using assms code_ofD [OF assms(2)] numbered_eval [of w "stay ctx" "\<lambda>_. ret (JsBool p)" db' for p]
    by (cases r) (simp_all add: DBOS_patch_def check_patch_def get)
qed

lemma patch_replays:
  assumes "checkPatch t w f n False db = (Inr p, db1)" and "has_rows w db1 db2"
  shows "checkPatch t' w f n False db2 = (Inr p, db2)" "has_rows w db db1"
proof -
  show "checkPatch t' w f n False db2 = (Inr p, db2)"
  proof (cases "find_row oo_pk (w, f) (t_operation_outputs db)")
    case None
    with assms(1) have "find_row oo_pk (w, f) (t_operation_outputs db1) = Some (new_operation_row w f (''DBOS.patch-'' @ n) t t (output_only None))"
      by (auto simp: checkPatch_def Let_def find_row_append split: if_splits)
    with None assms show ?thesis by (auto simp: checkPatch_def Let_def has_rows_def split: if_splits)
  next
    case (Some r)
    with assms show ?thesis by (auto simp: checkPatch_def Let_def has_rows_def split: if_splits)
  qed
  show "has_rows w db db1" using assms(1) by (auto simp: checkPatch_def Let_def has_rows_def find_row_append split: option.splits if_splits)
qed

lemma perform_replays:
  assumes "env_lawful (ae_ser a) ok" "ok JsNull" and "same_program a a'" and "code_of w ctx" and "harmless w k"
    and "perform a k (Some ctx, db) = (Inr v, (c1, db1))"
  shows "has_rows w db db1 \<and> (\<exists>ctx1. c1 = Some ctx1 \<and> code_of w ctx1) \<and>
    (\<forall>db2. has_rows w db1 db2 \<and> \<not> cancelled w db2 \<longrightarrow> perform a' k (Some ctx, db2) = (Inr v, (c1, db2)))"
proof -
  have launched: "ae_launched a" "ae_launched a'" and ser: "ae_ser a' = ae_ser a" and patching: "ae_enablePatching a' = ae_enablePatching a"
    using assms(3) by (auto simp: same_program_def)
  note w = code_ofD(7) [OF assms(4)]
  show ?thesis
  proof (cases "\<exists>n. k = Patch n")
    case True
    then obtain n where k: "k = Patch n" by blast
    obtain r db' where r: "checkPatch (ae_now a) w (next_id ctx) n False db = (r, db')" by fastforce
    have en: "ae_enablePatching a" using assms(6) k code_ofD [OF assms(4)]
      by (cases "ae_enablePatching a") (auto simp: DBOS_patch_def check_patch_def invalid_transition_def)
    from assms(6) patch_eval [OF en assms(4) r] k obtain p where p: "r = Inr p" "v = JsBool (pr_isPatched p)" "db' = db1"
      "c1 = Some (if pr_hasEntry p then advance ctx else stay ctx)" by (auto split: sum.splits)
    note rep = patch_replays [OF r [unfolded p]]
    show ?thesis
      using rep(1) rep(2) [OF has_rows_refl] patch_eval [OF en [folded patching] assms(4)] p(2,4) k assms(4) by (auto split: if_splits)
  next
    case noPatch: False
    show ?thesis
    proof (cases "\<exists>t r args ps. k = StartChild t r args ps")
      case True
      then obtain t r args ps where k: "k = StartChild t r args ps" by blast
      obtain wfId ctx1 where n: "getNextWFID (sp_workflowID ps) (Some ctx) = (Inr wfId, Some ctx1)" "code_of w ctx1"
        using getNextWFID_code [OF assms(4)] by blast
      note first = assms(6) [unfolded k start_child_success [OF launched(1) assms(4) n]]
      have "\<exists>u. validate_enqueue a' q opts s = (Inr u, s)" if "validate_enqueue a q opts s' = (Inr u', s')" for q opts s s' u'
        using validate_enqueue_pure [OF that] validate_enqueue_same [OF assms(3)] by auto
      then show ?thesis
        using first n(2) growsD [OF grows_child] durableD [OF durable_child [OF ser]]
        unfolding k start_child_success [OF launched(2) assms(4) n] by (metis code_of_advance)
    next
      case False
      then have one: "one_id ctx k" using noPatch assms(5) by (cases k) auto
      from assms(6) have ok: "check_call a k = None" and c1: "c1 = Some (advance ctx)"
        and core: "core_call a k ctx w (next_id ctx) db = (Inr v, db1)"
        unfolding perform_eval [OF launched(1) assms(4) one] by (auto simp: prod_eq_iff split: option.splits)
      have "perform a' k (Some ctx, db2) = (Inr v, (c1, db2))" if "has_rows w db1 db2" "\<not> cancelled w db2" for db2
        using durableD [OF durable_core [OF assms(1,2,3,5) w] core that] check_call_same [OF assms(3) ok] c1
        unfolding perform_eval [OF launched(2) assms(4) one] by simp
      with growsD [OF grows_core [OF assms(5) w] core] c1 assms(4) show ?thesis by simp
    qed
  qed
qed

section \<open>Replay of a workflow\<close>

primrec harmless_code :: "string \<Rightarrow> workflow_code \<Rightarrow> bool" where
  "harmless_code w (Finish r) = True"
| "harmless_code w (Call k cont) = (harmless w k \<and> (\<forall>r. harmless_code w (cont r)))"

text \<open>What others have done by the end of \<open>n\<close> calls, the first of them call number \<open>i\<close>.\<close>

fun meanwhile :: "(nat \<Rightarrow> sysdb \<Rightarrow> sysdb) \<Rightarrow> nat \<Rightarrow> nat \<Rightarrow> sysdb \<Rightarrow> sysdb" where
  "meanwhile others i 0 db = db"
| "meanwhile others i (Suc n) db = meanwhile others (Suc i) n (others i db)"

lemma run_calls_replays:
  assumes "env_lawful env ok" "ok JsNull" and "\<And>i j. same_program (envs i) (envs' j) \<and> ae_ser (envs i) = env"
    and "\<And>i d. has_rows w d (others i d)"
  shows "code_of w ctx \<Longrightarrow> harmless_code w p \<Longrightarrow> run_calls n i envs others p (Some ctx, db) = (map Inr vs, p', (c', db1)) \<Longrightarrow>
    has_rows w db db1 \<and>
    (\<forall>i' db2 others'. has_rows w db1 db2 \<and> \<not> cancelled w db2 \<and>
        (\<forall>j d. has_rows w db1 d \<and> \<not> cancelled w d \<longrightarrow> has_rows w db1 (others' j d) \<and> \<not> cancelled w (others' j d)) \<longrightarrow>
      run_calls n i' envs' others' p (Some ctx, db2) = (map Inr vs, p', (c', meanwhile others' i' (length vs) db2)))"
proof (induction n arbitrary: i ctx p db vs)
  case (Suc n)
  show ?case
  proof (cases p)
    case (Finish r)
    with Suc.prems(3) show ?thesis by auto
  next
    case (Call k cont)
    obtain r c1 dbm where call: "perform (envs i) k (Some ctx, others i db) = (r, (c1, dbm))" by (metis prod_cases3)
    obtain rs q s2 where rest: "run_calls n (Suc i) envs others (cont r) (c1, dbm) = (rs, q, s2)" by (metis prod_cases3)
    from Suc.prems(3) call rest Call have eqs: "map Inr vs = r # rs" "q = p'" "s2 = (c', db1)" by auto
    then obtain v vs' where vs: "vs = v # vs'" "r = Inr v" "rs = map Inr vs'" by (cases vs) auto
    have law: "env_lawful (ae_ser (envs i)) ok" "same_program (envs i) (envs' j)" for j using assms(1,3) by auto
    have k: "harmless w k" and cont: "harmless_code w (cont r)" using Suc.prems(2) Call by auto
    note one = perform_replays [OF law(1) assms(2) law(2) Suc.prems(1) k call [unfolded vs]]
    then obtain ctx1 where c1: "c1 = Some ctx1" "code_of w ctx1" by blast
    note IH = Suc.IH [OF c1(2) cont rest [unfolded eqs vs(3) c1(1)]]
    have grow: "has_rows w dbm db1" using IH by blast
    have "has_rows w db db1" by (rule has_rows_trans [OF assms(4) has_rows_trans [OF _ grow]]) (use one in blast)
    moreover have "run_calls (Suc n) i' envs' others' p (Some ctx, db2) = (map Inr vs, p', (c', meanwhile others' i' (length vs) db2))"
      if db2: "has_rows w db1 db2" "\<not> cancelled w db2"
        and others': "\<forall>j d. has_rows w db1 d \<and> \<not> cancelled w d \<longrightarrow> has_rows w db1 (others' j d) \<and> \<not> cancelled w (others' j d)" for i' db2 others'
    proof -
      have next_db: "has_rows w db1 (others' i' db2)" "\<not> cancelled w (others' i' db2)" using db2 others' by auto
      then have "perform (envs' i') k (Some ctx, others' i' db2) = (Inr v, (c1, others' i' db2))"
        using one [of i'] has_rows_trans [OF grow] by blast
      moreover have "run_calls n (Suc i') envs' others' (cont r) (Some ctx1, others' i' db2) =
          (map Inr vs', p', (c', meanwhile others' (Suc i') (length vs') (others' i' db2)))"
        using IH next_db others' by blast
      ultimately show ?thesis by (simp add: Call vs c1(1))
    qed
    ultimately show ?thesis by blast
  qed
qed simp

text \<open>C1: a workflow that is recovered takes up its work where it was interrupted. Let the code of a workflow have made its first \<open>n\<close> calls,
  each of which returned a value, whatever other processes did in between as long as they kept the workflow's checkpoints, and let the process die.
  Then the code that is run again from its start, by any process and at any later time, on any database that still has these checkpoints and where the workflow
  is not cancelled, gets the same value from each of the \<open>n\<close> calls, reaches the same point of the code with the same numbering of calls, and has changed nothing:
  no step, message, event, child workflow or schedule is made twice.\<close>

theorem workflow_replay_resumes:
  assumes "env_lawful env ok" and "ok JsNull" and "\<And>i j. same_program (envs i) (envs' j) \<and> ae_ser (envs i) = env"
    and "code_of w ctx" and "harmless_code w p" and "\<And>i d. has_rows w d (others i d)"
    and "run_calls n 0 envs others p (Some ctx, db) = (map Inr vs, p', (c', db1))"
    and "has_rows w db1 db2" and "\<not> cancelled w db2"
    and "\<And>j d. has_rows w db1 d \<Longrightarrow> \<not> cancelled w d \<Longrightarrow> has_rows w db1 (others' j d) \<and> \<not> cancelled w (others' j d)"
  shows "run_calls n 0 envs' others' p (Some ctx, db2) = (map Inr vs, p', (c', meanwhile others' 0 (length vs) db2))"
proof -
  note replay = run_calls_replays [OF assms(1-3,6) assms(4,5,7), THEN conjunct2]
  show ?thesis by (rule replay [rule_format]) (use assms(8-10) in auto)
qed

definition example_code :: workflow_code where
  "example_code = Call (RunStep ''s'' example_config example_step) (\<lambda>r. Call (Patch ''p'') (\<lambda>_. Call (Sleep 5000) (\<lambda>_. Finish r)))"

definition example_run :: "(dbos_error + js_value) list \<times> workflow_code \<times> api_state" where
  "example_run = run_calls 2 0 (\<lambda>i. example_api (100 + int i)) (\<lambda>_ d. d) example_code (Some example_ctx, example_db [example_row ''w'' PENDING])"

lemma example_run_value:
  "case example_run of (rs, p', c', db1) \<Rightarrow> rs = [Inr (JsNum 7), Inr (JsBool True)] \<and> \<not> cancelled ''w'' db1"
  by code_simp

theorem workflow_replay_resumes_witness:
  "run_calls 2 0 (\<lambda>i. example_api (900 + int i)) (\<lambda>_ d. d) example_code (Some example_ctx, snd (snd (snd example_run))) = example_run"
proof -
  obtain p' c' db1 where run: "example_run = (map Inr [JsNum 7, JsBool True], p', (c', db1))" and live: "\<not> cancelled ''w'' db1"
    using example_run_value by (cases example_run) auto
  have null: "is_json JsNull" using is_jsonI [of JNull] by simp
  have same: "same_program (example_api a) (example_api b) \<and> ae_ser (example_api a) = example_serialization" for a b
    by (simp add: same_program_def example_api_def)
  have code: "harmless_code ''w'' example_code" by (simp add: example_code_def leaves_step_def example_step_def)
  have ctx: "code_of ''w'' example_ctx"
    by (simp add: code_of_def example_ctx_def empty_ctx_def DBOS_isInWorkflow_def DBOS_isWithinWorkflow_def DBOS_isInStep_def DBOS_isInTransaction_def)
  have idle: "meanwhile (\<lambda>_ d. d) i n db = db" for i n db by (induction n arbitrary: i) simp_all
  show ?thesis
    using workflow_replay_resumes [OF example_serialization_lawful null, where envs = "\<lambda>i. example_api (100 + int i)"
        and envs' = "\<lambda>i. example_api (900 + int i)" and others = "\<lambda>_ d. d" and others' = "\<lambda>_ d. d",
        OF same ctx code has_rows_refl run [unfolded example_run_def] has_rows_refl live]
    by (simp add: run idle)
qed

end
