(* ===== verification/Introspection.thy ===== *)
theory Introspection
  imports DBOS_API
begin

text \<open>
  What users see of workflows and steps (\<open>src/workflow_management.ts\<close>): the records of the system database with their inputs,
  outputs and errors deserialized as far as possible, and the global timeout.
\<close>

section \<open>Best-effort deserialization\<close>

definition safeParsePositionalArgs :: "serialization_env \<Rightarrow> string \<Rightarrow> string option \<Rightarrow> js_value" where
  "safeParsePositionalArgs env val serialization =
     (case deserializePositionalArgs env (Some val) serialization of Inl _ \<Rightarrow> JsStr val | Inr v \<Rightarrow> v)"

text \<open>\<open>deserializeResError\<close> returns the error in the native formats and throws it in the portable one; the handler here catches both.\<close>

definition safeParseError :: "serialization_env \<Rightarrow> string \<Rightarrow> string option \<Rightarrow> dbos_error" where
  "safeParseError env val serialization =
     (case reader_for env serialization of
        None \<Rightarrow> PlainError val
      | Some ser \<Rightarrow>
          if serialization = Some (sz_name DBOSPortableJSON) then PlainError val
          else (case sz_parse ser (Some val) of Inl _ \<Rightarrow> PlainError val | Inr v \<Rightarrow> se_deserializeError env v))"

section \<open>Workflows\<close>

record WorkflowStatus =
  wv_workflowID :: string
  wv_status :: wf_status
  wv_workflowName :: string
  wv_workflowClassName :: string
  wv_workflowConfigName :: string
  wv_queueName :: "string option"
  wv_authenticatedUser :: "string option"
  wv_assumedRole :: "string option"
  wv_authenticatedRoles :: json
  wv_input :: "js_value option"
  wv_output :: "js_value option"
  wv_error :: "dbos_error option"
  wv_request :: json
  wv_executorId :: "string option"
  wv_applicationVersion :: "string option"
  wv_applicationID :: "string option"
  wv_recoveryAttempts :: "int option"
  wv_createdAt :: int
  wv_updatedAt :: "int option"
  wv_timeoutMS :: "int option"
  wv_deadlineEpochMS :: "int option"
  wv_deduplicationID :: "string option"
  wv_priority :: int
  wv_queuePartitionKey :: "string option"
  wv_dequeuedAt :: "int option"
  wv_forkedFrom :: "string option"
  wv_wasForkedFrom :: bool
  wv_parentWorkflowID :: "string option"
  wv_delayUntilEpochMS :: "int option"
  wv_completedAt :: "int option"
  wv_attributes :: "json option"
  wv_scheduleName :: "string option"

text \<open>An empty text is falsy and is not parsed.\<close>

definition parsed :: "(string \<Rightarrow> string option \<Rightarrow> 'v) \<Rightarrow> string option \<Rightarrow> string option \<Rightarrow> 'v option" where
  "parsed parse val serialization = map_option (\<lambda>t. parse t serialization) (or_null val)"

definition toWorkflowStatus :: "serialization_env \<Rightarrow> WorkflowStatusInternal \<Rightarrow> WorkflowStatus" where
  "toWorkflowStatus env internal = \<lparr>
     wv_workflowID = si_workflowUUID internal, wv_status = si_status internal, wv_workflowName = si_workflowName internal,
     wv_workflowClassName = si_workflowClassName internal, wv_workflowConfigName = si_workflowConfigName internal,
     wv_queueName = si_queueName internal, wv_authenticatedUser = si_authenticatedUser internal, wv_assumedRole = si_assumedRole internal,
     wv_authenticatedRoles = si_authenticatedRoles internal,
     wv_input = parsed (safeParsePositionalArgs env) (si_input internal) (si_serialization internal),
     wv_output = parsed (safeParse env) (si_output internal) (si_serialization internal),
     wv_error = parsed (safeParseError env) (si_error internal) (si_serialization internal),
     wv_request = si_request internal, wv_executorId = si_executorId internal, wv_applicationVersion = si_applicationVersion internal,
     wv_applicationID = si_applicationID internal, wv_recoveryAttempts = si_recoveryAttempts internal, wv_createdAt = si_createdAt internal,
     wv_updatedAt = si_updatedAt internal, wv_timeoutMS = si_timeoutMS internal, wv_deadlineEpochMS = si_deadlineEpochMS internal,
     wv_deduplicationID = si_deduplicationID internal, wv_priority = si_priority internal, wv_queuePartitionKey = si_queuePartitionKey internal,
     wv_dequeuedAt = si_startedAtEpochMs internal, wv_forkedFrom = si_forkedFrom internal,
     wv_wasForkedFrom = coalesce (si_wasForkedFrom internal) False, wv_parentWorkflowID = si_parentWorkflowID internal,
     wv_delayUntilEpochMS = si_delayUntilEpochMS internal, wv_completedAt = si_completedAt internal, wv_attributes = si_attributes internal,
     wv_scheduleName = si_scheduleName internal\<rparr>"

definition list_workflows :: "serialization_env \<Rightarrow> GetWorkflowsInput \<Rightarrow> WorkflowStatus list db_op" where
  "list_workflows env gi = and_then (listWorkflows gi) (\<lambda>wfs. ret (map (toWorkflowStatus env) wfs))"

definition listQueuedWorkflows :: "serialization_env \<Rightarrow> GetWorkflowsInput \<Rightarrow> WorkflowStatus list db_op" where
  "listQueuedWorkflows env gi = list_workflows env (gi\<lparr>gi_queuesOnly := True, gi_loadOutput := False\<rparr>)"

definition getWorkflow :: "serialization_env \<Rightarrow> int \<Rightarrow> string \<Rightarrow> WorkflowStatus option db_op" where
  "getWorkflow env now workflowID = and_then (getWorkflowStatus now now workflowID None None) (\<lambda>st. ret (map_option (toWorkflowStatus env) st))"

section \<open>Steps\<close>

record StepInfo =
  sn_functionID :: int
  sn_name :: string
  sn_output :: js_value
  sn_error :: "dbos_error option"
  sn_childWorkflowID :: "string option"
  sn_startedAtEpochMs :: "int option"
  sn_completedAtEpochMs :: "int option"

definition nonzero :: "int option \<Rightarrow> int option" where
  "nonzero v = (if truthy_int v then v else None)"

definition step_info :: "serialization_env \<Rightarrow> bool \<Rightarrow> operation_outputs \<Rightarrow> StepInfo" where
  "step_info env loadOutput step = \<lparr>
     sn_functionID = oo_function_id step, sn_name = oo_function_name step,
     sn_output = (if loadOutput then coalesce (parsed (safeParse env) (oo_output step) (oo_serialization step)) JsNull else JsNull),
     sn_error = (if loadOutput then parsed (safeParseError env) (oo_error step) (oo_serialization step) else None),
     sn_childWorkflowID = oo_child_workflow_id step,
     sn_startedAtEpochMs = nonzero (oo_started_at_epoch_ms step), sn_completedAtEpochMs = nonzero (oo_completed_at_epoch_ms step)\<rparr>"

definition listWorkflowSteps :: "serialization_env \<Rightarrow> int \<Rightarrow> string \<Rightarrow> bool \<Rightarrow> nat option \<Rightarrow> nat option \<Rightarrow> StepInfo list option db_op" where
  "listWorkflowSteps env now workflowID loadOutput limit offset =
     and_then (getWorkflowStatus now now workflowID None None) (\<lambda>status.
       case status of
         None \<Rightarrow> ret None
       | Some _ \<Rightarrow> gets (\<lambda>db. Some (sort_key sn_functionID (map (step_info env loadOutput) (getAllOperationResults workflowID limit offset db)))))"

section \<open>The global timeout\<close>

fun cancel_each :: "int \<Rightarrow> string list \<Rightarrow> unit db_op" where
  "cancel_each now [] = ret ()"
| "cancel_each now (w # ws) = and_then (cancelWorkflows now [w] False) (\<lambda>_. cancel_each now ws)"

definition timeout_status :: "serialization_env \<Rightarrow> int \<Rightarrow> int \<Rightarrow> wf_status \<Rightarrow> unit db_op" where
  "timeout_status env now cutoff st =
     and_then (list_workflows env (all_workflows\<lparr>gi_status := Some (One (status_string st)), gi_endTime := Some cutoff\<rparr>)) (\<lambda>wfs.
       cancel_each now (map wv_workflowID wfs))"

text \<open>\<open>others n\<close> is what other processes do before the listing \<open>n\<close>.\<close>

definition globalTimeout :: "serialization_env \<Rightarrow> (nat \<Rightarrow> sysdb \<Rightarrow> sysdb) \<Rightarrow> int \<Rightarrow> int \<Rightarrow> unit db_op" where
  "globalTimeout env others now cutoff =
     and_then (timeout_status env now cutoff PENDING) (\<lambda>_.
     and_then (modify (others 1)) (\<lambda>_.
     and_then (timeout_status env now cutoff ENQUEUED) (\<lambda>_.
     and_then (modify (others 2)) (\<lambda>_.
     timeout_status env now cutoff DELAYED))))"

section \<open>What the global timeout does\<close>

lemma cancel_rows_Cons: "cancel_rows now ws (cancel_rows now [w] rows) = cancel_rows now (w # ws) rows"
  by (auto simp: cancel_rows_def update_where_def)

lemma cancel_each_eq: "cancel_each now ids = cancelWorkflows now ids False"
proof
  fix db show "cancel_each now ids db = cancelWorkflows now ids False db" by (induction ids arbitrary: db)
    (simp_all add: cancelWorkflows_def cancel_rows_Cons, simp add: cancel_rows_def update_where_no_match)
qed

definition timed_out :: "int \<Rightarrow> wf_status set \<Rightarrow> workflow_status \<Rightarrow> bool" where
  "timed_out cutoff S r = (ws_status r \<in> S \<and> ws_created_at r \<le> cutoff)"

lemma status_string_inject [simp]: "status_string s = status_string t \<longleftrightarrow> s = t"
  by (metis read_status_string)

lemma timeout_matches:
  "workflow_matches (all_workflows\<lparr>gi_status := Some (One (status_string st)), gi_endTime := Some cutoff\<rparr>) r = timed_out cutoff {st} r"
proof -
  have "status_string st \<noteq> []" by (cases st) simp_all
  then show ?thesis by (auto simp: workflow_matches_def all_workflows_def addFilter_def prefix_filter_def at_least_def at_most_def timed_out_def)
qed

lemma mapWorkflowStatus_id: "mapWorkflowStatus (select_columns gi r) = Some st \<Longrightarrow> si_workflowUUID st = ws_workflow_uuid r"
  by (auto simp: mapWorkflowStatus_def select_columns_def split: option.splits if_splits)

lemma those_map_ids:
  "those (map (mapWorkflowStatus \<circ> select_columns gi) rows) = Some sts \<Longrightarrow> map si_workflowUUID sts = map ws_workflow_uuid rows"
  by (induction rows arbitrary: sts) (auto simp: mapWorkflowStatus_id split: option.splits)

lemma listed_ids:
  assumes "list_workflows env gi db = (Inr wfs, db1)"
  shows "db1 = db" and "map wv_workflowID wfs = map ws_workflow_uuid (workflow_rows gi db)"
proof -
  obtain sts where l: "listWorkflows gi db = (Inr sts, db)" "wfs = map (toWorkflowStatus env) sts" "db1 = db"
  proof (cases "listWorkflows gi db")
    case (Pair r db2)
    moreover have "db2 = db" using Pair by (auto simp: listWorkflows_def split: if_splits option.splits)
    ultimately show thesis using that assms by (cases r) (auto simp: list_workflows_def)
  qed
  then have "those (map (mapWorkflowStatus \<circ> select_columns gi) (workflow_rows gi db)) = Some sts"
    by (auto simp: listWorkflows_def split: if_splits option.splits)
  from those_map_ids [OF this] l show "map wv_workflowID wfs = map ws_workflow_uuid (workflow_rows gi db)"
    by (simp add: toWorkflowStatus_def comp_def)
  show "db1 = db" by (fact l)
qed

lemma timeout_rows:
  "set (workflow_rows (all_workflows\<lparr>gi_status := Some (One (status_string st)), gi_endTime := Some cutoff\<rparr>) db) =
     {r \<in> set (t_workflow_status db). timed_out cutoff {st} r}"
  unfolding workflow_rows_def timeout_matches by (simp add: limit_offset_def slice_bound_def all_workflows_def)

lemma timeout_status_eq:
  assumes "db_wf db" and "st \<noteq> SUCCESS" and "st \<noteq> ERROR" and "timeout_status env now cutoff st db = (Inr u, db')"
  shows "db' = db\<lparr>t_workflow_status := update_where (timed_out cutoff {st}) (cancelled_row now) (t_workflow_status db)\<rparr>"
proof -
  let ?gi = "all_workflows\<lparr>gi_status := Some (One (status_string st)), gi_endTime := Some cutoff\<rparr>"
  let ?rows = "t_workflow_status db"
  obtain r db1 where run: "list_workflows env ?gi db = (r, db1)" by fastforce
  with assms(4) obtain wfs where r: "r = Inr wfs" by (cases r) (auto simp: timeout_status_def)
  note listed = listed_ids [OF run [unfolded r]]
  then have ids: "set (map wv_workflowID wfs) = ws_workflow_uuid ` {r \<in> set ?rows. timed_out cutoff {st} r}"
    by (metis list.set_map timeout_rows)
  have "unique_key ws_workflow_uuid ?rows" using assms(1) by simp
  from unique_key_eq [OF this] have "x \<in> set ?rows \<Longrightarrow> (ws_workflow_uuid x \<in> set (map wv_workflowID wfs)) = timed_out cutoff {st} x" for x
    unfolding ids by auto
  then have "cancel_rows now (map wv_workflowID wfs) ?rows = update_where (timed_out cutoff {st}) (cancelled_row now) ?rows"
    using assms(2,3) unfolding cancel_rows_def update_where_def by (auto simp: timed_out_def)
  with assms(4) run r listed(1) show ?thesis by (simp add: timeout_status_def cancel_each_eq cancelWorkflows_def)
qed

lemma timed_out_update:
  "update_where (timed_out cutoff T) (cancelled_row now) (update_where (timed_out cutoff S) (cancelled_row now) rows) =
     update_where (timed_out cutoff (S \<union> T)) (cancelled_row now) rows" if "CANCELLED \<notin> T"
  using that by (auto simp: update_where_def timed_out_def)

lemma timeout_status_wf: "db_wf db \<Longrightarrow> timeout_status env now cutoff st db = (r, db') \<Longrightarrow> db_wf db'"
proof -
  have "preserves db_wf (cancel_each now ids)" for ids unfolding cancel_each_eq by (intro keep_rules)
  then have "preserves db_wf (timeout_status env now cutoff st)"
    unfolding timeout_status_def list_workflows_def by (intro keep_rules)
  then show "db_wf db \<Longrightarrow> timeout_status env now cutoff st db = (r, db') \<Longrightarrow> db_wf db'" by (rule preservesD)
qed

lemma global_timeout_exact:
  assumes "db_wf db" and "globalTimeout env (\<lambda>_ db. db) now cutoff db = (Inr u, db')"
  shows "db' = db\<lparr>t_workflow_status := update_where (timed_out cutoff {PENDING, ENQUEUED, DELAYED}) (cancelled_row now) (t_workflow_status db)\<rparr>"
proof -
  obtain r1 db1 where one: "timeout_status env now cutoff PENDING db = (r1, db1)" by fastforce
  obtain r2 db2 where two: "timeout_status env now cutoff ENQUEUED db1 = (r2, db2)" by fastforce
  have three: "timeout_status env now cutoff DELAYED db2 = (Inr u, db')" and r: "r1 = Inr ()" "r2 = Inr ()"
    using assms(2) one two by (cases r1; cases r2; simp add: globalTimeout_def)+
  note wf = assms(1) timeout_status_wf [OF assms(1) one]
  note wf = this timeout_status_wf [OF this(2) two]
  have "db1 = db\<lparr>t_workflow_status := update_where (timed_out cutoff {PENDING}) (cancelled_row now) (t_workflow_status db)\<rparr>"
    by (rule timeout_status_eq [OF wf(1) _ _ one [unfolded r]]) simp_all
  moreover have "db2 = db1\<lparr>t_workflow_status := update_where (timed_out cutoff {ENQUEUED}) (cancelled_row now) (t_workflow_status db1)\<rparr>"
    by (rule timeout_status_eq [OF wf(2) _ _ two [unfolded r]]) simp_all
  moreover have "db' = db2\<lparr>t_workflow_status := update_where (timed_out cutoff {DELAYED}) (cancelled_row now) (t_workflow_status db2)\<rparr>"
    by (rule timeout_status_eq [OF wf(3) _ _ three]) simp_all
  ultimately show ?thesis by (simp add: timed_out_update insert_commute)
qed

text \<open>Another process dequeues between the first and the second listing.\<close>

definition dequeue_between :: "nat \<Rightarrow> sysdb \<Rightarrow> sysdb" where
  "dequeue_between n db = (if n = 1 then snd (findAndMarkStartableWorkflows 250 250 (\<lambda>r. False)
     (example_queue\<lparr>wq_partitionQueue := True\<rparr>) ''e'' ''v1'' (Some ''k'') db) else db)"

definition escaped :: "string \<Rightarrow> bool" where
  "escaped w = (case globalTimeout example_serialization dequeue_between 300 200 (example_db [example_row w ENQUEUED]) of
     (Inr _, db1) \<Rightarrow> getWorkflowStatusValue w db1 = Some PENDING | _ \<Rightarrow> False)"

lemma escaped_w: "escaped ''w''"
  by code_simp

text \<open>C14: the global timeout cancels exactly the pending, enqueued and delayed workflows created up to the cutoff, and changes nothing else, if
  no other process interferes. It lists and cancels the pending ones first, however, and the enqueued ones after: a workflow that is dequeued
  between the two listings is in neither of them, and goes on running.\<close>

theorem global_timeout_exact_but_for_races:
  "(\<forall>env now cutoff db db'. db_wf db \<and> globalTimeout env (\<lambda>_ db. db) now cutoff db = (Inr (), db') \<longrightarrow>
     db' = db\<lparr>t_workflow_status := update_where (timed_out cutoff {PENDING, ENQUEUED, DELAYED}) (cancelled_row now) (t_workflow_status db)\<rparr>) \<and>
   (\<exists>others w db1. (\<forall>n db. sysdb_step\<^sup>=\<^sup>= db (others n db)) \<and>
     globalTimeout example_serialization others 300 200 (example_db [example_row w ENQUEUED]) = (Inr (), db1) \<and>
     getWorkflowStatusValue w db1 = Some PENDING)"
proof (intro conjI allI impI)
  fix env now cutoff db db' assume "db_wf db \<and> globalTimeout env (\<lambda>_ db. db) now cutoff db = (Inr (), db')"
  then show "db' = db\<lparr>t_workflow_status := update_where (timed_out cutoff {PENDING, ENQUEUED, DELAYED}) (cancelled_row now) (t_workflow_status db)\<rparr>"
    using global_timeout_exact by blast
next
  have "sysdb_step\<^sup>=\<^sup>= db (dequeue_between n db)" for n db by (auto simp: dequeue_between_def intro: sysdb_step.dequeue)
  moreover obtain db1 where "globalTimeout example_serialization dequeue_between 300 200 (example_db [example_row ''w'' ENQUEUED]) = (Inr (), db1)"
    "getWorkflowStatusValue ''w'' db1 = Some PENDING"
    using escaped_w by (auto simp: escaped_def split: prod.splits sum.splits)
  ultimately show "\<exists>others w db1. (\<forall>n db. sysdb_step\<^sup>=\<^sup>= db (others n db)) \<and>
     globalTimeout example_serialization others 300 200 (example_db [example_row w ENQUEUED]) = (Inr (), db1) \<and>
     getWorkflowStatusValue w db1 = Some PENDING" by blast
qed

definition timed_out_example :: "dbos_error + (wf_status option \<times> wf_status option)" where
  "timed_out_example = (case globalTimeout example_serialization (\<lambda>_ db. db) 300 200 (example_db [example_row ''a'' PENDING, example_row ''b'' SUCCESS]) of
     (Inl e, _) \<Rightarrow> Inl e | (Inr _, db1) \<Rightarrow> Inr (getWorkflowStatusValue ''a'' db1, getWorkflowStatusValue ''b'' db1))"

theorem global_timeout_exact_but_for_races_witness:
  "\<exists>db'. globalTimeout example_serialization (\<lambda>_ db. db) 300 200 (example_db [example_row ''a'' PENDING, example_row ''b'' SUCCESS]) = (Inr (), db') \<and>
     t_workflow_status db' = [cancelled_row 300 (example_row ''a'' PENDING), example_row ''b'' SUCCESS]"
proof -
  let ?db = "example_db [example_row ''a'' PENDING, example_row ''b'' SUCCESS]"
  have "isl timed_out_example = False" by code_simp
  then obtain db' where run: "globalTimeout example_serialization (\<lambda>_ db. db) 300 200 ?db = (Inr (), db')"
    by (auto simp: timed_out_example_def split: prod.splits sum.splits)
  have "db_wf ?db" by (rule db_wf_example) (simp_all add: unique_key_def dedup_unique_def dedup_conflict_def)
  with run global_timeout_exact_but_for_races [THEN conjunct1, rule_format, of ?db example_serialization 300 200 db']
  show ?thesis by (simp add: timed_out_def)
qed

text \<open>
  Errors of portable workflows are always listed as the raw text: \<open>deserializeResError\<close> throws them, and \<open>safeParseError\<close> takes what is thrown
  for a failure to parse.
\<close>

lemma portable_error_listed_raw: "safeParseError env val (Some (sz_name DBOSPortableJSON)) = PlainError val"
  by (simp add: safeParseError_def split: option.splits)

end
