(* ===== verification/Client.thy ===== *)
theory Client
  imports Introspection
begin

text \<open>
  The client (\<open>src/client.ts\<close>): what a program that is not a DBOS application does through a connection of its own to the system
  database. A client keeps no state; its methods are operations on the system database. Of the environment it reads the serializer, the
  clock, a random ID and the time zones. Its IDs are handles: \<open>ClientHandle\<close> has a workflow ID and nothing else.
\<close>

section \<open>Handles\<close>

definition dbPollingIntervalResultMs :: int where
  "dbPollingIntervalResultMs = 1000"

definition ClientHandle_getStatus :: "api_env \<Rightarrow> string \<Rightarrow> WorkflowStatus option db_op" where
  "ClientHandle_getStatus a workflowUUID = getWorkflow (ae_ser a) (ae_now a) workflowUUID"

definition ClientHandle_getResult ::
  "nat \<Rightarrow> (int \<Rightarrow> world \<Rightarrow> world) \<Rightarrow> api_env \<Rightarrow> string \<Rightarrow> int option option \<Rightarrow> world \<Rightarrow> ((dbos_error + js_value) \<times> world) option" where
  "ClientHandle_getResult fuel env a workflowID interval w =
     (case resolvePollingIntervalMs interval of
        Inl e \<Rightarrow> Some (Inl e, w)
      | Inr poll \<Rightarrow>
          map_option (\<lambda>(r, w'). (case r of Inl e \<Rightarrow> Inl e | Inr res \<Rightarrow> awaited_value (ae_ser a) workflowID res, w'))
            (awaitWorkflowResult fuel env workflowID None None None (coalesce poll dbPollingIntervalResultMs) w))"

text \<open>\<open>status.input\<close> of a workflow that does not exist is a property of \<open>null\<close>.\<close>

definition ClientHandle_getWorkflowInputs :: "api_env \<Rightarrow> string \<Rightarrow> js_value db_op" where
  "ClientHandle_getWorkflowInputs a workflowUUID = and_then (getWorkflowStatus (ae_now a) (ae_now a) workflowUUID None None) (\<lambda>st.
     case st of
       None \<Rightarrow> throw (PlainError ''TypeError'')
     | Some status \<Rightarrow> lift_sum (deserializePositionalArgs (ae_ser a) (si_input status) (si_serialization status)))"

section \<open>Enqueueing\<close>

record ClientEnqueueOptions =
  ce_queueName :: string
  ce_workflowName :: string
  ce_workflowClassName :: "string option"
  ce_workflowConfigName :: "string option"
  ce_workflowID :: "string option"
  ce_appVersion :: "string option"
  ce_workflowTimeoutMS :: "int option"
  ce_deduplicationID :: "string option"
  ce_serializationType :: "WorkflowSerializationFormat option"
  ce_priority :: "int option"
  ce_queuePartitionKey :: "string option"
  ce_delayMS :: "int option"
  ce_returnExisting :: bool
  ce_attributes :: "json option"

definition client_delay :: "int \<Rightarrow> ClientEnqueueOptions \<Rightarrow> int option" where
  "client_delay now options = (case ce_delayMS options of Some d \<Rightarrow> if d > 0 then Some (now + d) else None | None \<Rightarrow> None)"

definition enqueue_status :: "api_env \<Rightarrow> ClientEnqueueOptions \<Rightarrow> serialized_value \<Rightarrow> WorkflowStatusInternal" where
  "enqueue_status a options serparam = \<lparr>
     si_workflowUUID = coalesce (ce_workflowID options) (ae_uuid a),
     si_status = (if client_delay (ae_now a) options \<noteq> None then DELAYED else ENQUEUED),
     si_workflowName = ce_workflowName options, si_workflowClassName = coalesce (ce_workflowClassName options) [],
     si_workflowConfigName = coalesce (ce_workflowConfigName options) [], si_queueName = Some (ce_queueName options),
     si_authenticatedUser = Some [], si_output = None, si_error = None, si_input = sv_serializedValue serparam, si_assumedRole = Some [],
     si_authenticatedRoles = JArr [], si_request = JObj [], si_executorId = Some [], si_applicationVersion = ce_appVersion options,
     si_applicationID = Some [], si_createdAt = ae_now a, si_updatedAt = None, si_recoveryAttempts = None,
     si_timeoutMS = ce_workflowTimeoutMS options, si_deadlineEpochMS = None, si_deduplicationID = ce_deduplicationID options,
     si_priority = coalesce (ce_priority options) 0, si_queuePartitionKey = ce_queuePartitionKey options, si_startedAtEpochMs = None,
     si_forkedFrom = None, si_wasForkedFrom = None, si_parentWorkflowID = None, si_serialization = sv_serialization serparam,
     si_delayUntilEpochMS = client_delay (ae_now a) options, si_completedAt = None, si_attributes = ce_attributes options,
     si_scheduleName = None, si_debounceDeadlineEpochMS = None, si_isDebounced = None\<rparr>"

definition build_status ::
  "api_env \<Rightarrow> ClientEnqueueOptions \<Rightarrow> js_value list \<Rightarrow> (string \<times> js_value) list option \<Rightarrow> WorkflowSerializationFormat option \<Rightarrow>
   dbos_error + WorkflowStatusInternal" where
  "build_status a options args namedArgs fmt = (case validateWorkflowAttributes (ce_attributes options) of
       Some e \<Rightarrow> Inl e
     | None \<Rightarrow> map_sum id (enqueue_status a options) (serializeArgs (ae_ser a) args namedArgs fmt))"

definition buildEnqueueStatus :: "api_env \<Rightarrow> ClientEnqueueOptions \<Rightarrow> js_value list \<Rightarrow> dbos_error + WorkflowStatusInternal" where
  "buildEnqueueStatus a options args = build_status a options args None (ce_serializationType options)"

definition client_init :: "int \<Rightarrow> WorkflowStatusInternal \<Rightarrow> init_result db_op" where
  "client_init now internalStatus = initWorkflowStatus now internalStatus None False False None"

text \<open>
  \<open>return-existing\<close>: \<open>others n\<close> is what other processes do between the insert and the lookup of round \<open>n\<close>; \<open>None\<close> means that the
  given number of rounds was not enough.
\<close>

fun initSingleton_loop ::
  "nat \<Rightarrow> (nat \<Rightarrow> sysdb \<Rightarrow> sysdb) \<Rightarrow> nat \<Rightarrow> int \<Rightarrow> WorkflowStatusInternal \<Rightarrow> string \<Rightarrow> string \<Rightarrow> sysdb \<Rightarrow> ((dbos_error + string) \<times> sysdb) option" where
  "initSingleton_loop 0 others n now internalStatus queueName dedupID db = None"
| "initSingleton_loop (Suc fuel) others n now internalStatus queueName dedupID db =
     (case client_init now internalStatus db of
        (Inr _, db1) \<Rightarrow> Some (Inr (si_workflowUUID internalStatus), db1)
      | (Inl e, db1) \<Rightarrow>
          if \<not> is_queue_duplicated e then Some (Inl e, db1)
          else (let db2 = others n db1; existingID = getDeduplicatedWorkflow queueName dedupID db2 in
            if truthy existingID then Some (Inr (coalesce existingID []), db2)
            else initSingleton_loop fuel others (Suc n) now internalStatus queueName dedupID db2))"

definition initSingletonWorkflow ::
  "nat \<Rightarrow> (nat \<Rightarrow> sysdb \<Rightarrow> sysdb) \<Rightarrow> int \<Rightarrow> WorkflowStatusInternal \<Rightarrow> ClientEnqueueOptions \<Rightarrow> sysdb \<Rightarrow> ((dbos_error + string) \<times> sysdb) option" where
  "initSingletonWorkflow fuel others now internalStatus options db =
     (if \<not> truthy (ce_deduplicationID options)
      then Some (Inl (DBOSInvalidWorkflowTransitionError ''`duplicationPolicy: 'return-existing'` requires `deduplicationID`''), db)
      else initSingleton_loop fuel others 0 now internalStatus (ce_queueName options) (coalesce (ce_deduplicationID options) []) db)"

text \<open>The tail that \<open>enqueue\<close> and \<open>enqueuePortable\<close> share.\<close>

definition enqueue_built ::
  "nat \<Rightarrow> (nat \<Rightarrow> sysdb \<Rightarrow> sysdb) \<Rightarrow> api_env \<Rightarrow> ClientEnqueueOptions \<Rightarrow> dbos_error + WorkflowStatusInternal \<Rightarrow> sysdb \<Rightarrow>
   ((dbos_error + string) \<times> sysdb) option" where
  "enqueue_built fuel others a options built db =
     (case built of
        Inl e \<Rightarrow> Some (Inl e, db)
      | Inr internalStatus \<Rightarrow>
          if ce_returnExisting options then initSingletonWorkflow fuel others (ae_now a) internalStatus options db
          else Some (and_then (client_init (ae_now a) internalStatus) (\<lambda>_. ret (si_workflowUUID internalStatus)) db))"

definition client_enqueue ::
  "nat \<Rightarrow> (nat \<Rightarrow> sysdb \<Rightarrow> sysdb) \<Rightarrow> api_env \<Rightarrow> ClientEnqueueOptions \<Rightarrow> js_value list \<Rightarrow> sysdb \<Rightarrow> ((dbos_error + string) \<times> sysdb) option" where
  "client_enqueue fuel others a options args db = enqueue_built fuel others a options (buildEnqueueStatus a options args) db"

definition enqueuePortable ::
  "nat \<Rightarrow> (nat \<Rightarrow> sysdb \<Rightarrow> sysdb) \<Rightarrow> api_env \<Rightarrow> ClientEnqueueOptions \<Rightarrow> js_value list \<Rightarrow> (string \<times> js_value) list option \<Rightarrow> sysdb \<Rightarrow>
   ((dbos_error + string) \<times> sysdb) option" where
  "enqueuePortable fuel others a options positionalArgs namedArgs db =
     enqueue_built fuel others a options (build_status a options positionalArgs namedArgs (coalesce_opt (ce_serializationType options) (Some Portable))) db"

definition enqueueDebounced :: "api_env \<Rightarrow> ClientEnqueueOptions \<Rightarrow> int option \<Rightarrow> js_value list \<Rightarrow> string db_op" where
  "enqueueDebounced a options debounceDeadlineEpochMS args =
     and_then (lift_sum (buildEnqueueStatus a options args)) (\<lambda>internalStatus.
       let st = internalStatus\<lparr>si_debounceDeadlineEpochMS := debounceDeadlineEpochMS, si_isDebounced := Some True,
             si_delayUntilEpochMS := (case (si_delayUntilEpochMS internalStatus, debounceDeadlineEpochMS) of
                 (Some t, Some deadline) \<Rightarrow> Some (if deadline < t then deadline else t)
               | (t, _) \<Rightarrow> t)\<rparr> in
       and_then (client_init (ae_now a) st) (\<lambda>_. ret (si_workflowUUID st)))"

section \<open>Queues, messages and management\<close>

definition client_registerQueue :: "api_env \<Rightarrow> string \<Rightarrow> QueueConflictResolution option \<Rightarrow> QueueParameters \<Rightarrow> WorkflowQueue db_op" where
  "client_registerQueue a name onConflict params =
     (let conflict = coalesce onConflict always_update in
      if conflict = update_if_latest_version
      then throw (PlainError (''DBOSClient.registerQueue does not support onConflict='' @ [CHR 0x27] @ ''update_if_latest_version'' @ [CHR 0x27] @
        '' because clients are not associated with an application version. Use '' @ [CHR 0x27] @ ''always_update'' @ [CHR 0x27] @ '' or '' @
        [CHR 0x27] @ ''never_update'' @ [CHR 0x27] @ ''.''))
      else
        and_then (case validateQueueParams params of Some e \<Rightarrow> throw e | None \<Rightarrow> ret ()) (\<lambda>_.
        and_then (upsertQueue (ae_now a) (ae_uuid a) (recordFromParams name params) (conflict = always_update)) (\<lambda>_.
        and_then (gets (getQueue name)) (\<lambda>persisted.
        case persisted of
          None \<Rightarrow> throw (PlainError (''Queue '' @ [CHR 0x27] @ name @ [CHR 0x27] @ '' missing from database after upsert''))
        | Some r \<Rightarrow> ret (fromRecord r True)))))"

definition client_retrieveQueue :: "string \<Rightarrow> WorkflowQueue option db_op" where
  "client_retrieveQueue name = gets (\<lambda>db. map_option (\<lambda>r. fromRecord r True) (getQueue name db))"

definition client_send ::
  "api_env \<Rightarrow> string \<Rightarrow> js_value \<Rightarrow> string option \<Rightarrow> string option \<Rightarrow> WorkflowSerializationFormat option \<Rightarrow> unit db_op" where
  "client_send a destinationID message topic idempotencyKey fmt =
     and_then (lift_sum (serializeValue (ae_ser a) message fmt)) (\<lambda>m.
       sendDirect (ae_now a) (ae_uuid a) destinationID (sv_serializedValue m) topic (sv_serialization m) idempotencyKey)"

definition client_getEvent ::
  "nat \<Rightarrow> (int \<Rightarrow> world \<Rightarrow> world) \<Rightarrow> api_env \<Rightarrow> string \<Rightarrow> string \<Rightarrow> timeout_options \<Rightarrow> int option option \<Rightarrow> world \<Rightarrow>
   ((dbos_error + js_value) \<times> world) option" where
  "client_getEvent fuel env a workflowID key opts interval w =
     (case resolvePollingIntervalMs interval of
        Inl e \<Rightarrow> Some (Inl e, w)
      | Inr poll \<Rightarrow> map_option (\<lambda>(r, _, w'). (r, w')) (waited (ae_ser a) None
          (getEvent fuel env workflowID key (coalesce (resolveTimeout (snd w) opts) defaultNotificationTimeoutMS) None
            (coalesce poll dbPollingIntervalEventMs) w)))"

definition client_setWorkflowDelay :: "api_env \<Rightarrow> string \<Rightarrow> int + SetWorkflowDelayOptions \<Rightarrow> unit db_op" where
  "client_setWorkflowDelay a workflowID opts = and_then (lift_sum (resolveDelayEpochMS (ae_now a) opts)) (\<lambda>t. setWorkflowDelay (ae_now a) workflowID t)"

definition client_cancelWorkflow :: "api_env \<Rightarrow> string \<Rightarrow> bool \<Rightarrow> unit db_op" where
  "client_cancelWorkflow a workflowID cancelChildren = cancelWorkflows (ae_now a) [workflowID] cancelChildren"

definition client_resumeWorkflow :: "api_env \<Rightarrow> string \<Rightarrow> string option \<Rightarrow> unit db_op" where
  "client_resumeWorkflow a workflowID queueName = resumeWorkflows (ae_now a) [workflowID] queueName"

definition client_deleteWorkflow :: "string \<Rightarrow> bool \<Rightarrow> unit db_op" where
  "client_deleteWorkflow workflowID deleteChildren = deleteWorkflows [workflowID] deleteChildren"

definition client_listWorkflowSteps :: "api_env \<Rightarrow> string \<Rightarrow> nat option \<Rightarrow> nat option \<Rightarrow> StepInfo list option db_op" where
  "client_listWorkflowSteps a workflowID limit offset = listWorkflowSteps (ae_ser a) (ae_now a) workflowID True limit offset"

fun first_repeated :: "string list \<Rightarrow> string list \<Rightarrow> string option" where
  "first_repeated seen [] = None"
| "first_repeated seen (h # hs) = (if h \<in> set seen then Some h else first_repeated (h # seen) hs)"

definition client_waitFirst ::
  "nat \<Rightarrow> (int \<Rightarrow> world \<Rightarrow> world) \<Rightarrow> string list \<Rightarrow> int option option \<Rightarrow> world \<Rightarrow> ((dbos_error + string option) \<times> world) option" where
  "client_waitFirst fuel env handles interval w =
     (case resolvePollingIntervalMs interval of
        Inl e \<Rightarrow> Some (Inl e, w)
      | Inr poll \<Rightarrow>
          if handles = [] then Some (Inl (PlainError ''handles must not be empty''), w)
          else (case first_repeated [] handles of
              Some h \<Rightarrow> Some (Inl (PlainError (''Duplicate workflow ID in waitFirst: '' @ h)), w)
            | None \<Rightarrow> awaitFirstWorkflowId fuel env handles None (coalesce poll dbPollingIntervalResultMs) w))"

definition client_waitAll ::
  "nat \<Rightarrow> (int \<Rightarrow> world \<Rightarrow> world) \<Rightarrow> string list \<Rightarrow> int option option \<Rightarrow> world \<Rightarrow> ((dbos_error + string list) \<times> world) option" where
  "client_waitAll fuel env handles interval w =
     (if handles = [] then Some (Inr [], w)
      else case resolvePollingIntervalMs interval of
        Inl e \<Rightarrow> Some (Inl e, w)
      | Inr poll \<Rightarrow>
          map_option (\<lambda>(r, w'). (map_sum id (\<lambda>_. handles) r, w'))
            (awaitWorkflowIds fuel env (remdups handles) None (coalesce poll dbPollingIntervalResultMs) w))"

text \<open>The values that the generator yields, and the error that ends it if there is one. A workflow that does not exist ends it quietly.\<close>

fun client_readStream ::
  "nat \<Rightarrow> serialization_env \<Rightarrow> (int \<Rightarrow> sysdb \<Rightarrow> sysdb) \<Rightarrow> string \<Rightarrow> string \<Rightarrow> int \<Rightarrow> bool \<Rightarrow> sysdb \<Rightarrow> (js_value list \<times> dbos_error option) option" where
  "client_readStream 0 ser env workflowID key offset finalRead db = None"
| "client_readStream (Suc fuel) ser env workflowID key offset finalRead db =
     (case readStreamValue workflowID key offset db of
        (None, _) \<Rightarrow> Some ([], None)
      | (Some status, Some (value, serialization)) \<Rightarrow>
          if value = DBOS_STREAM_CLOSED_SENTINEL then Some ([], None)
          else (case deserializeValue ser (Some value) serialization of
              Inl e \<Rightarrow> Some ([], Some e)
            | Inr v \<Rightarrow> map_option (\<lambda>(vs, e). (v # vs, e)) (client_readStream fuel ser env workflowID key (offset + 1) finalRead db))
      | (Some status, None) \<Rightarrow>
          if finalRead then Some ([], None)
          else if \<not> isWorkflowActive status then client_readStream fuel ser env workflowID key offset True db
          else client_readStream fuel ser env workflowID key offset finalRead (env 1000 db))"

section \<open>Schedules and versions\<close>

text \<open>A client names the workflow of a schedule instead of passing the function, so that no instance method is in question.\<close>

definition client_spec :: "schedule_spec \<Rightarrow> schedule_spec" where
  "client_spec sched = sched\<lparr>sl_isInstance := False\<rparr>"

definition client_createSchedule :: "api_env \<Rightarrow> schedule_spec \<Rightarrow> unit db_op" where
  "client_createSchedule a sched = and_then (lift_sum (internal_schedule a (ae_uuid a) (client_spec sched))) createSchedule"

text \<open>The internal record together with its context as a value.\<close>

record WorkflowSchedule =
  wl_internal :: WorkflowScheduleInternal
  wl_context :: js_value

definition toWorkflowSchedule :: "serialization_env \<Rightarrow> WorkflowScheduleInternal \<Rightarrow> dbos_error + WorkflowSchedule" where
  "toWorkflowSchedule env internal =
     map_sum id (\<lambda>v. \<lparr>wl_internal = internal, wl_context = v\<rparr>) (sz_parse (se_serializer env) (Some (sw_context internal)))"

fun all_schedules :: "serialization_env \<Rightarrow> WorkflowScheduleInternal list \<Rightarrow> dbos_error + WorkflowSchedule list" where
  "all_schedules env [] = Inr []"
| "all_schedules env (s # ss) = (case toWorkflowSchedule env s of
       Inl e \<Rightarrow> Inl e
     | Inr w \<Rightarrow> map_sum id (\<lambda>ws. w # ws) (all_schedules env ss))"

definition client_listSchedules :: "api_env \<Rightarrow> schedule_filters \<Rightarrow> WorkflowSchedule list db_op" where
  "client_listSchedules a filters = and_then (listSchedules filters) (\<lambda>rs. lift_sum (all_schedules (ae_ser a) rs))"

definition client_getSchedule :: "api_env \<Rightarrow> string \<Rightarrow> WorkflowSchedule option db_op" where
  "client_getSchedule a name = and_then (gets (getSchedule name)) (\<lambda>r. case r of
       None \<Rightarrow> ret None
     | Some s \<Rightarrow> lift_sum (map_sum id Some (toWorkflowSchedule (ae_ser a) s)))"

definition client_pauseSchedule :: "string \<Rightarrow> unit db_op" where
  "client_pauseSchedule name = setScheduleStatus name ''PAUSED''"

definition client_resumeSchedule :: "string \<Rightarrow> unit db_op" where
  "client_resumeSchedule name = setScheduleStatus name ''ACTIVE''"

definition client_updateSchedule :: "api_env \<Rightarrow> string \<Rightarrow> schedule_updates \<Rightarrow> unit db_op" where
  "client_updateSchedule a name u = and_then (lift_sum (internal_updates a u)) (updateSchedule name)"

definition client_applySchedules :: "api_env \<Rightarrow> (string \<times> schedule_spec) list \<Rightarrow> unit db_op" where
  "client_applySchedules a schedules =
     and_then (lift_sum (internal_schedules a (map (map_prod id client_spec) schedules))) applySchedules"

definition client_triggerSchedule :: "api_env \<Rightarrow> string \<Rightarrow> string db_op" where
  "client_triggerSchedule a name = triggerSchedule (ae_ser a) (ae_now a) name"

definition client_backfillSchedule :: "api_env \<Rightarrow> string \<Rightarrow> int \<Rightarrow> int \<Rightarrow> string list db_op" where
  "client_backfillSchedule a name start end' = backfillSchedule (ae_ser a) (ae_zones a) (ae_now a) name start end'"

definition client_setLatestApplicationVersion :: "api_env \<Rightarrow> string \<Rightarrow> unit db_op" where
  "client_setLatestApplicationVersion a versionName = updateApplicationVersionTimestamp versionName (ae_now a)"

section \<open>Enqueueing with a deduplication ID\<close>

lemma built_status:
  assumes "build_status a options args kwargs fmt = Inr st"
  obtains v where "st = enqueue_status a options v"
  using assms by (cases "serializeArgs (ae_ser a) args kwargs fmt") (auto simp: build_status_def split: option.splits)

lemma client_init_duplicated:
  assumes "client_init now st db = (Inl e, db1)" and "is_queue_duplicated e" and "si_queueName st = Some q" and "si_deduplicationID st = Some d"
  shows "db1 = db" and "\<exists>r\<in>set (t_workflow_status db). ws_queue_name r = Some q \<and> ws_deduplication_id r = Some d"
    and "si_workflowUUID st \<notin> workflow_ids db"
proof -
  have "find_row ws_workflow_uuid (si_workflowUUID st) (t_workflow_status db) = None \<and> db1 = db \<and>
      (\<exists>r\<in>set (t_workflow_status db). dedup_conflict (new_status_row now st None) r)"
    using assms(1,2) by (auto simp: client_init_def initWorkflowStatus_def insertWorkflowStatus_def Let_def split: option.splits if_splits)
  then show "db1 = db" "\<exists>r\<in>set (t_workflow_status db). ws_queue_name r = Some q \<and> ws_deduplication_id r = Some d"
    "si_workflowUUID st \<notin> workflow_ids db"
    using assms(3,4) by (auto simp: dedup_conflict_def new_status_row_def find_row_None_iff workflow_ids_def)
qed

lemma client_init_new:
  assumes "si_workflowUUID st \<notin> workflow_ids db" and "si_queueName st = Some q" and "si_deduplicationID st = Some d"
  shows "client_init now st db =
     (if \<exists>r\<in>set (t_workflow_status db). ws_queue_name r = Some q \<and> ws_deduplication_id r = Some d
      then (Inl (DBOSQueueDuplicatedError (si_workflowUUID st) q d), db)
      else (Inr \<lparr>in_status = si_status st, in_shouldExecuteOnThisExecutor = True, in_deadlineEpochMS = si_deadlineEpochMS st,
              in_serialization = si_serialization st\<rparr>, db\<lparr>t_workflow_status := t_workflow_status db @ [new_status_row now st None]\<rparr>))"
proof -
  have "find_row ws_workflow_uuid (si_workflowUUID st) (t_workflow_status db) = None"
    using assms(1) by (simp add: find_row_None_iff workflow_ids_def)
  moreover have "dedup_conflict (new_status_row now st None) r = (ws_queue_name r = Some q \<and> ws_deduplication_id r = Some d)" for r
    using assms(2,3) by (auto simp: dedup_conflict_def new_status_row_def)
  ultimately show ?thesis using assms(2,3)
    by (simp add: client_init_def initWorkflowStatus_def insertWorkflowStatus_def Let_def insert_result_def new_status_row_def max_retries_exceeded_def)
qed

lemma holder_found:
  assumes "r \<in> set (t_workflow_status db)" and "ws_queue_name r = Some q" and "ws_deduplication_id r = Some d"
  obtains w where "getDeduplicatedWorkflow q d db = Some w" and "w \<in> workflow_ids db"
proof -
  from assms have "List.find (\<lambda>r. ws_queue_name r = Some q \<and> ws_deduplication_id r = Some d) (t_workflow_status db) \<noteq> None"
    by (auto simp: find_None_iff)
  then obtain h where "List.find (\<lambda>r. ws_queue_name r = Some q \<and> ws_deduplication_id r = Some d) (t_workflow_status db) = Some h" by blast
  moreover from this have "h \<in> set (t_workflow_status db)" by (auto simp: find_Some_iff)
  ultimately show thesis by (intro that) (auto simp: getDeduplicatedWorkflow_def workflow_ids_def)
qed

lemma holder_row:
  assumes "getDeduplicatedWorkflow q d db = Some h"
  shows "\<exists>r\<in>set (t_workflow_status db). ws_queue_name r = Some q \<and> ws_deduplication_id r = Some d \<and> ws_workflow_uuid r = h"
  using assms by (auto simp: getDeduplicatedWorkflow_def find_Some_iff intro!: bexI [OF _ nth_mem])

lemma singleton_round:
  assumes "si_queueName st = Some q" and "si_deduplicationID st = Some d" and "[] \<notin> workflow_ids db"
    and "client_init now st db = (Inl e, db1)" and "is_queue_duplicated e"
  shows "truthy (getDeduplicatedWorkflow q d db1)" and "db1 = db"
proof -
  note dup = client_init_duplicated [OF assms(4,5,1,2)]
  from dup(2) obtain w where "getDeduplicatedWorkflow q d db = Some w" "w \<in> workflow_ids db" by (metis holder_found)
  with assms(3) dup(1) show "truthy (getDeduplicatedWorkflow q d db1)" "db1 = db" by (auto simp: truthy_def)
qed

lemma singleton_loop_ends:
  assumes "si_queueName st = Some q" and "si_deduplicationID st = Some d"
    and "\<And>n db. [] \<notin> workflow_ids db \<Longrightarrow> [] \<notin> workflow_ids (others n db)" and "[] \<notin> workflow_ids db"
    and "n \<le> k" and "k < n + fuel" and "others k = (\<lambda>db. db)"
  shows "\<exists>r db'. initSingleton_loop fuel others n now st q d db = Some (r, db') \<and>
    (\<forall>w. r = Inr w \<longrightarrow> w = si_workflowUUID st \<or> getDeduplicatedWorkflow q d db' = Some w)"
  using assms(4-6)
proof (induction fuel arbitrary: n db)
  case (Suc fuel)
  obtain r1 db1 where init: "client_init now st db = (r1, db1)" by fastforce
  show ?case
  proof (cases "\<exists>e. r1 = Inl e \<and> is_queue_duplicated e")
    case True
    then obtain e where e: "r1 = Inl e" "is_queue_duplicated e" by blast
    note round = singleton_round [OF assms(1,2) Suc.prems(1) init [unfolded e(1)] e(2)]
    show ?thesis
    proof (cases "truthy (getDeduplicatedWorkflow q d (others n db1))")
      case False
      then have "n \<noteq> k" using round assms(7) by auto
      then show ?thesis using Suc.IH [of "others n db1" "Suc n"] Suc.prems assms(3) [of db1 n] round init e False by (simp add: Let_def)
    qed (use init e in \<open>auto simp: Let_def truthy_def split: option.splits\<close>)
  qed (use init in \<open>cases r1; auto\<close>)
qed simp

text \<open>enqueueing under the policy \<open>return-existing\<close> comes to an end: one round in which no other process interferes between the insert and the
  lookup is enough, whatever happened in the rounds before (workflow IDs are not empty). The ID it returns is the caller's own or that of the
  workflow that holds the deduplication ID. When another workflow holds it, nothing is inserted and the holder is returned.\<close>

lemma singleton_enqueue_returns_holder:
  assumes "ce_returnExisting options" and "ce_deduplicationID options = Some d" and "d \<noteq> []"
    and "\<forall>n db. [] \<notin> workflow_ids db \<longrightarrow> [] \<notin> workflow_ids (others n db)" and "[] \<notin> workflow_ids db"
    and "k < fuel" and "others k = (\<lambda>db. db)"
  shows "(\<exists>r db'. client_enqueue fuel others a options args db = Some (r, db') \<and>
      (\<forall>w. r = Inr w \<longrightarrow> w = coalesce (ce_workflowID options) (ae_uuid a) \<or> getDeduplicatedWorkflow (ce_queueName options) d db' = Some w)) \<and>
    (\<forall>st h. buildEnqueueStatus a options args = Inr st \<and> k = 0 \<and> getDeduplicatedWorkflow (ce_queueName options) d db = Some h \<and>
      si_workflowUUID st \<notin> workflow_ids db \<longrightarrow> client_enqueue fuel others a options args db = Some (Inr h, db))"
proof (cases "buildEnqueueStatus a options args")
  case (Inl e)
  then show ?thesis by (simp add: client_enqueue_def enqueue_built_def)
next
  case (Inr st)
  then obtain v where v: "st = enqueue_status a options v" by (auto simp: buildEnqueueStatus_def elim: built_status)
  then have st: "si_queueName st = Some (ce_queueName options)" "si_deduplicationID st = Some d"
      "si_workflowUUID st = coalesce (ce_workflowID options) (ae_uuid a)"
    using assms(2) by (simp_all add: enqueue_status_def)
  have loop: "client_enqueue fuel others a options args db = initSingleton_loop fuel others 0 (ae_now a) st (ce_queueName options) d db"
    using assms(1-3) Inr by (simp add: client_enqueue_def enqueue_built_def initSingletonWorkflow_def truthy_def)
  have "client_enqueue fuel others a options args db = Some (Inr h, db)"
    if h: "getDeduplicatedWorkflow (ce_queueName options) d db = Some h" "k = 0" "si_workflowUUID st \<notin> workflow_ids db" for h
  proof -
    obtain r where r: "r \<in> set (t_workflow_status db)" "ws_queue_name r = Some (ce_queueName options)" "ws_deduplication_id r = Some d" "ws_workflow_uuid r = h"
      using holder_row [OF h(1)] by blast
    then have "h \<noteq> []" using assms(5) unfolding workflow_ids_def by (metis image_eqI)
    moreover have "client_init (ae_now a) st db = (Inl (DBOSQueueDuplicatedError (si_workflowUUID st) (ce_queueName options) d), db)"
      using client_init_new [OF h(3) st(1,2)] r by auto
    ultimately show ?thesis using h(1,2) assms(6,7) unfolding loop by (cases fuel) (simp_all add: truthy_def)
  qed
  moreover have "\<exists>r db'. client_enqueue fuel others a options args db = Some (r, db') \<and>
      (\<forall>w. r = Inr w \<longrightarrow> w = si_workflowUUID st \<or> getDeduplicatedWorkflow (ce_queueName options) d db' = Some w)"
    unfolding loop using assms(4-7) by (intro singleton_loop_ends [OF st(1,2)]) auto
  ultimately show ?thesis using Inr st(3) by auto
qed

definition example_enqueue :: ClientEnqueueOptions where
  "example_enqueue = \<lparr>ce_queueName = ''q'', ce_workflowName = ''checkout'', ce_workflowClassName = Some ''Shop'', ce_workflowConfigName = None,
     ce_workflowID = None, ce_appVersion = None, ce_workflowTimeoutMS = None, ce_deduplicationID = Some ''key'', ce_serializationType = None,
     ce_priority = None, ce_queuePartitionKey = None, ce_delayMS = Some 500, ce_returnExisting = True, ce_attributes = None\<rparr>"

definition example_holder :: sysdb where
  "example_holder = example_db [(example_row ''w'' ENQUEUED)\<lparr>ws_deduplication_id := Some ''key''\<rparr>]"

end
