(* ===== verification/Debouncer.thy ===== *)
theory Debouncer
  imports Client
begin

text \<open>
  Debouncing (\<open>src/debouncer.ts\<close>): calls with the same key within a period become one workflow, delayed again by every call and run with the
  arguments of the last one. The key is the deduplication ID of a delayed workflow. A call first tries to extend that workflow, enqueues
  one when the key is free, and starts over when another call was faster. \<open>Debouncer\<close> is for applications, \<open>DebouncerClient\<close> for clients.

  Then the invariant that the loop relies on, and what a call does.
\<close>

section \<open>Options and outcomes of an attempt\<close>

record DebouncerParams =
  bp_workflowName :: string
  bp_workflowClassName :: string
  bp_startWorkflowParams :: StartWorkflowParams
  bp_debounceTimeoutMs :: "int option"

definition QueueDedupIDDuplicated :: nat where
  "QueueDedupIDDuplicated = 28"

definition isQueueDeduplicatedError :: "dbos_error \<Rightarrow> bool" where
  "isQueueDeduplicatedError e = (dbosErrorCode e = Some QueueDedupIDDuplicated \<or>
     (case e of PortableWorkflowError _ name _ _ \<Rightarrow> name = ''DBOSQueueDuplicatedError'' | _ \<Rightarrow> False))"

definition rejectConflictingOptions :: "StartWorkflowParams \<Rightarrow> dbos_error option" where
  "rejectConflictingOptions params =
     (let enqueueOptions = sp_enqueueOptions params in
      if eo_deduplicationID enqueueOptions \<noteq> None then Some (DBOSError
        ''Cannot debounce a workflow with a deduplicationID set: the debounce key is used as the workflow deduplication ID.'')
      else if eo_delayMS enqueueOptions \<noteq> None then Some (DBOSError
        ''Cannot debounce a workflow with a delay set: the debounce period controls the delay.'')
      else if eo_priority enqueueOptions \<noteq> None then Some (DBOSError
        ''Cannot debounce a workflow with a priority set: priority is not supported for debounced workflows.'')
      else if eo_queuePartitionKey enqueueOptions \<noteq> None then Some (DBOSError
        ''Cannot debounce a workflow with a queue partition key set: partitioned queues do not support deduplication, which debouncing requires.'')
      else if sp_returnExisting params then Some (DBOSError (''Cannot debounce a workflow with duplicationPolicy '' @ [CHR 0x27] @
        ''return-existing'' @ [CHR 0x27] @ '': a debounce owns the deduplication behavior.''))
      else None)"

datatype BounceAction = BounceReturn | BounceEnqueue | BounceRaise | BounceRetry

definition classifyBounce :: "DebounceResult \<Rightarrow> string \<Rightarrow> string \<Rightarrow> BounceAction" where
  "classifyBounce result workflowName workflowClassName =
     (if dr_bouncedWorkflowID result \<noteq> None then BounceReturn
      else if dr_holderWorkflowID result = None then BounceEnqueue
      else if \<not> dr_holderIsDebounced result then BounceRaise
      else if dr_holderWorkflowName result \<noteq> Some workflowName \<or> coalesce (dr_holderWorkflowClassName result) [] \<noteq> workflowClassName then BounceRaise
      else BounceRetry)"

definition debounce_queue :: "DebouncerParams \<Rightarrow> string" where
  "debounce_queue cfg = coalesce (sp_queueName (bp_startWorkflowParams cfg)) INTERNAL_QUEUE_NAME"

definition debounce_id :: "DebouncerParams \<Rightarrow> string \<Rightarrow> string" where
  "debounce_id cfg debounceKey = bp_workflowClassName cfg @ ''.'' @ bp_workflowName cfg @ ''-'' @ debounceKey"

definition bounce_params :: "DebouncerParams \<Rightarrow> string \<Rightarrow> int \<Rightarrow> string option \<Rightarrow> string option \<Rightarrow> DebounceParams" where
  "bounce_params cfg debounceKey delayUntil serialized serialization = \<lparr>
     dp_workflowName = bp_workflowName cfg, dp_workflowClassName = bp_workflowClassName cfg, dp_queueName = debounce_queue cfg,
     dp_deduplicationID = debounce_id cfg debounceKey, dp_delayUntilEpochMS = delayUntil, dp_input = serialized, dp_serialization = serialization\<rparr>"

definition debounce_deadline :: "DebouncerParams \<Rightarrow> int \<Rightarrow> int option" where
  "debounce_deadline cfg now = (if truthy_int (bp_debounceTimeoutMs cfg) then Some (now + coalesce (bp_debounceTimeoutMs cfg) 0) else None)"

definition not_positive :: "int \<Rightarrow> dbos_error" where
  "not_positive debouncePeriodMs = PlainError (''debouncePeriodMs must be positive, not '' @ show_int debouncePeriodMs)"

section \<open>The client\<close>

definition debounced_options :: "DebouncerParams \<Rightarrow> string \<Rightarrow> int \<Rightarrow> WorkflowSerializationFormat option \<Rightarrow> ClientEnqueueOptions" where
  "debounced_options cfg debounceKey debouncePeriodMs fmt = (let params = bp_startWorkflowParams cfg in \<lparr>
     ce_queueName = debounce_queue cfg, ce_workflowName = bp_workflowName cfg, ce_workflowClassName = or_null (Some (bp_workflowClassName cfg)),
     ce_workflowConfigName = None, ce_workflowID = sp_workflowID params, ce_appVersion = eo_applicationVersion (sp_enqueueOptions params),
     ce_workflowTimeoutMS = coalesce (sp_timeoutMS params) None, ce_deduplicationID = Some (debounce_id cfg debounceKey),
     ce_serializationType = fmt, ce_priority = None, ce_queuePartitionKey = None, ce_delayMS = Some debouncePeriodMs,
     ce_returnExisting = False, ce_attributes = sp_workflowAttributes params\<rparr>)"

text \<open>
  \<open>envs n\<close> is the environment of round \<open>n\<close>. Other processes act at two points of a round: \<open>others (2 * n)\<close> is what they do between the update and the
  query of the bounce, \<open>others (2 * n + 1)\<close> what they do after the bounce, before the enqueue or the next round.
\<close>

fun client_debounce_loop ::
  "nat \<Rightarrow> (nat \<Rightarrow> api_env) \<Rightarrow> (nat \<Rightarrow> sysdb \<Rightarrow> sysdb) \<Rightarrow> nat \<Rightarrow> DebouncerParams \<Rightarrow> WorkflowSerializationFormat option \<Rightarrow> string \<Rightarrow> int \<Rightarrow>
   js_value list \<Rightarrow> sysdb \<Rightarrow> ((dbos_error + string) \<times> sysdb) option" where
  "client_debounce_loop 0 envs others n cfg fmt debounceKey debouncePeriodMs args db = None"
| "client_debounce_loop (Suc fuel) envs others n cfg fmt debounceKey debouncePeriodMs args db =
     (case serializeArgs (ae_ser (envs n)) args None fmt of
        Inl e \<Rightarrow> Some (Inl e, db)
      | Inr serparam \<Rightarrow>
          (case debounceDelayedWorkflow (ae_now (envs n)) (bounce_params cfg debounceKey (ae_now (envs n) + debouncePeriodMs)
              (sv_serializedValue serparam) (sv_serialization serparam)) (others (2 * n)) db of
             (Inl e, db1) \<Rightarrow> Some (Inl e, db1)
           | (Inr result, db1) \<Rightarrow>
               (case classifyBounce result (bp_workflowName cfg) (bp_workflowClassName cfg) of
                  BounceReturn \<Rightarrow> Some (Inr (coalesce (dr_bouncedWorkflowID result) []), db1)
                | BounceRaise \<Rightarrow> Some (Inl (DBOSQueueDuplicatedError (coalesce (sp_workflowID (bp_startWorkflowParams cfg)) [])
                    (debounce_queue cfg) (debounce_id cfg debounceKey)), db1)
                | BounceRetry \<Rightarrow> client_debounce_loop fuel envs others (Suc n) cfg fmt debounceKey debouncePeriodMs args (others (2 * n + 1) db1)
                | BounceEnqueue \<Rightarrow>
                    (case enqueueDebounced (envs n) (debounced_options cfg debounceKey debouncePeriodMs fmt)
                        (debounce_deadline cfg (ae_now (envs n))) args (others (2 * n + 1) db1) of
                       (Inr w, db2) \<Rightarrow> Some (Inr w, db2)
                     | (Inl e, db2) \<Rightarrow>
                         if \<not> isQueueDeduplicatedError e then Some (Inl e, db2)
                         else client_debounce_loop fuel envs others (Suc n) cfg fmt debounceKey debouncePeriodMs args db2))))"

definition DebouncerClient_debounce ::
  "nat \<Rightarrow> (nat \<Rightarrow> api_env) \<Rightarrow> (nat \<Rightarrow> sysdb \<Rightarrow> sysdb) \<Rightarrow> DebouncerParams \<Rightarrow> WorkflowSerializationFormat option \<Rightarrow> string \<Rightarrow> int \<Rightarrow> js_value list \<Rightarrow>
   sysdb \<Rightarrow> ((dbos_error + string) \<times> sysdb) option" where
  "DebouncerClient_debounce fuel envs others cfg fmt debounceKey debouncePeriodMs args db =
     (if debouncePeriodMs \<le> 0 then Some (Inl (not_positive debouncePeriodMs), db)
      else case rejectConflictingOptions (bp_startWorkflowParams cfg) of
        Some e \<Rightarrow> Some (Inl e, db)
      | None \<Rightarrow> client_debounce_loop fuel envs others 0 cfg fmt debounceKey debouncePeriodMs args db)"

section \<open>The application\<close>

text \<open>The result of a bounce as a value, the form in which the step of a workflow records it.\<close>

definition null_or :: "string option \<Rightarrow> js_value" where
  "null_or v = (case v of None \<Rightarrow> JsNull | Some s \<Rightarrow> JsStr s)"

definition str_or_null :: "js_value \<Rightarrow> string option" where
  "str_or_null v = (case v of JsStr s \<Rightarrow> Some s | _ \<Rightarrow> None)"

definition result_value :: "DebounceResult \<Rightarrow> js_value" where
  "result_value result = JsObj [(''bouncedWorkflowID'', null_or (dr_bouncedWorkflowID result)), (''holderWorkflowID'', null_or (dr_holderWorkflowID result)),
     (''holderIsDebounced'', JsBool (dr_holderIsDebounced result)), (''holderWorkflowName'', null_or (dr_holderWorkflowName result)),
     (''holderWorkflowClassName'', null_or (dr_holderWorkflowClassName result))]"

definition read_result :: "js_value \<Rightarrow> DebounceResult" where
  "read_result v = \<lparr>dr_bouncedWorkflowID = str_or_null (js_member ''bouncedWorkflowID'' v), dr_holderWorkflowID = str_or_null (js_member ''holderWorkflowID'' v),
     dr_holderIsDebounced = (js_member ''holderIsDebounced'' v = JsBool True), dr_holderWorkflowName = str_or_null (js_member ''holderWorkflowName'' v),
     dr_holderWorkflowClassName = str_or_null (js_member ''holderWorkflowClassName'' v)\<rparr>"

text \<open>When the step fails and is rolled back, what the others have done in the meantime stays.\<close>

definition bounce_step :: "api_env \<Rightarrow> DebounceParams \<Rightarrow> (sysdb \<Rightarrow> sysdb) \<Rightarrow> DebounceResult api_op" where
  "bounce_step a params between s =
     (case runTransactionalInternalStep a (and_then (debounceDelayedWorkflow (ae_now a) params between) (\<lambda>r. ret (result_value r)))
         ''DBOS.debounceDelayedWorkflow'' s of
        (Inl e, s1) \<Rightarrow> (Inl e, apsnd between s1)
      | (Inr v, s1) \<Rightarrow> (Inr (read_result v), s1))"

definition debounced_start :: "DebouncerParams \<Rightarrow> string \<Rightarrow> int \<Rightarrow> int \<Rightarrow> string option \<Rightarrow> StartWorkflowParams" where
  "debounced_start cfg debounceKey debouncePeriodMs now pinnedWorkflowID = (let params = bp_startWorkflowParams cfg in \<lparr>
     sp_workflowID = pinnedWorkflowID, sp_queueName = Some (debounce_queue cfg), sp_timeoutMS = Some (coalesce (sp_timeoutMS params) None),
     sp_enqueueOptions = no_enqueue_options\<lparr>eo_applicationVersion := eo_applicationVersion (sp_enqueueOptions params),
       eo_deduplicationID := Some (debounce_id cfg debounceKey), eo_delayMS := Some debouncePeriodMs,
       eo_debounceDeadlineEpochMS := debounce_deadline cfg now, eo_isDebounced := Some True\<rparr>,
     sp_returnExisting = False, sp_workflowAttributes = sp_workflowAttributes params\<rparr>)"

fun debounce_loop ::
  "nat \<Rightarrow> (nat \<Rightarrow> api_env) \<Rightarrow> (nat \<Rightarrow> sysdb \<Rightarrow> sysdb) \<Rightarrow> nat \<Rightarrow> DebouncerParams \<Rightarrow> registration \<Rightarrow> string \<Rightarrow> int \<Rightarrow> string option \<Rightarrow>
   js_value list \<Rightarrow> api_state \<Rightarrow> ((dbos_error + workflow_handle) \<times> api_state) option" where
  "debounce_loop 0 envs others n cfg reg debounceKey debouncePeriodMs pinned args s = None"
| "debounce_loop (Suc fuel) envs others n cfg reg debounceKey debouncePeriodMs pinned args s =
     (let a = envs n; fmt = Option.bind (rg_workflowConfig reg) wc_serialization in
      case serializeFunctionInputOutput (ae_ser a) (if fmt = Some Portable then JsObj [(''positionalArgs'', JsArr args)] else JsArr args) fmt of
        Inl e \<Rightarrow> Some (Inl e, s)
      | Inr funcArgs \<Rightarrow>
          (case bounce_step a (bounce_params cfg debounceKey (ae_now a + debouncePeriodMs) (Some (io_stringified funcArgs)) (Some (io_sername funcArgs)))
              (others (2 * n)) s of
             (Inl e, s1) \<Rightarrow> Some (Inl e, s1)
           | (Inr result, s1) \<Rightarrow>
               (case classifyBounce result (bp_workflowName cfg) (bp_workflowClassName cfg) of
                  BounceReturn \<Rightarrow> Some (DBOS_retrieveWorkflow a (coalesce (dr_bouncedWorkflowID result) []) s1)
                | BounceRaise \<Rightarrow> Some (Inl (DBOSQueueDuplicatedError (coalesce pinned []) (debounce_queue cfg) (debounce_id cfg debounceKey)), s1)
                | BounceRetry \<Rightarrow> debounce_loop fuel envs others (Suc n) cfg reg debounceKey debouncePeriodMs pinned args (apsnd (others (2 * n + 1)) s1)
                | BounceEnqueue \<Rightarrow>
                    (case DBOS_startWorkflow 1 (\<lambda>_. a) (\<lambda>_ db. db) StaticTarget (rg_name reg) (Some reg) args
                        (debounced_start cfg debounceKey debouncePeriodMs (ae_now a) pinned) (apsnd (others (2 * n + 1)) s1) of
                       None \<Rightarrow> None
                     | Some (Inr h, s2) \<Rightarrow> Some (Inr h, s2)
                     | Some (Inl e, s2) \<Rightarrow>
                         if \<not> isQueueDeduplicatedError e then Some (Inl e, s2)
                         else debounce_loop fuel envs others (Suc n) cfg reg debounceKey debouncePeriodMs pinned args s2))))"

definition Debouncer_debounce ::
  "nat \<Rightarrow> (nat \<Rightarrow> api_env) \<Rightarrow> (nat \<Rightarrow> sysdb \<Rightarrow> sysdb) \<Rightarrow> DebouncerParams \<Rightarrow> registration option \<Rightarrow> string \<Rightarrow> int \<Rightarrow> js_value list \<Rightarrow>
   api_state \<Rightarrow> ((dbos_error + workflow_handle) \<times> api_state) option" where
  "Debouncer_debounce fuel envs others cfg methReg debounceKey debouncePeriodMs args s =
     (if debouncePeriodMs \<le> 0 then Some (Inl (not_positive debouncePeriodMs), s)
      else if \<not> ae_launched (envs 0) then Some (throw (not_launched ''debounce'') s)
      else case rejectConflictingOptions (bp_startWorkflowParams cfg) of
        Some e \<Rightarrow> Some (Inl e, s)
      | None \<Rightarrow>
          (case in_ctx (getNextWFID (sp_workflowID (bp_startWorkflowParams cfg))) s of
             (Inl e, s1) \<Rightarrow> Some (Inl e, s1)
           | (Inr pinned, s1) \<Rightarrow>
               (case methReg of
                  None \<Rightarrow> Some (Inl (DBOSError (''Invalid workflow name provided to debouncer: '' @ bp_workflowName cfg)), s1)
                | Some reg \<Rightarrow> debounce_loop fuel envs others 0 cfg reg debounceKey debouncePeriodMs pinned args s1)))"

section \<open>Debounced workflows that hold a key are delayed\<close>

text \<open>A debounced workflow gives up its deduplication ID when it leaves the delayed state.\<close>

definition key_ok :: "workflow_status \<Rightarrow> bool" where
  "key_ok r = (ws_is_debounced r \<and> ws_deduplication_id r \<noteq> None \<longrightarrow> ws_status r = DELAYED)"

definition debounced_keys_delayed :: "sysdb \<Rightarrow> bool" where
  "debounced_keys_delayed db = list_all key_ok (t_workflow_status db)"

lemma key_ok_view: "key_ok r = (case status_view r of (_, s, d, b) \<Rightarrow> b \<and> d \<noteq> None \<longrightarrow> s = DELAYED)"
  by (simp add: key_ok_def status_view_def)

text \<open>\<open>carries db0 db\<close>: no workflow of \<open>db0\<close> is gone, and those that were there are as they should be.\<close>

definition carries :: "sysdb \<Rightarrow> sysdb \<Rightarrow> bool" where
  "carries db0 db = (workflow_ids db0 \<subseteq> workflow_ids db \<and> (\<forall>r\<in>set (t_workflow_status db). ws_workflow_uuid r \<in> workflow_ids db0 \<longrightarrow> key_ok r))"

lemma carries_rows: "carries db0 db \<Longrightarrow> t_workflow_status db' = t_workflow_status db \<Longrightarrow> carries db0 db'"
  by (simp add: carries_def workflow_ids_def)

lemma carries_refl: "debounced_keys_delayed db \<Longrightarrow> carries db db"
  by (simp add: carries_def debounced_keys_delayed_def list_all_iff)

lemma carries_update:
  assumes "carries db0 db" and "\<And>r. P r \<Longrightarrow> ws_workflow_uuid (f r) = ws_workflow_uuid r" and "\<And>r. P r \<Longrightarrow> key_ok r \<Longrightarrow> key_ok (f r)"
  shows "carries db0 (db\<lparr>t_workflow_status := update_where P f (t_workflow_status db)\<rparr>)"
proof -
  have "ws_workflow_uuid ` set (update_where P f (t_workflow_status db)) = ws_workflow_uuid ` set (t_workflow_status db)"
    using assms(2) by (auto simp: set_update_where image_iff) metis+
  then show ?thesis using assms by (auto simp: carries_def workflow_ids_def set_update_where split: if_splits)
qed

lemma carries_append:
  assumes "carries db0 db" and "\<And>r. r \<in> set new \<Longrightarrow> ws_workflow_uuid r \<notin> workflow_ids db \<or> key_ok r"
  shows "carries db0 (db\<lparr>t_workflow_status := t_workflow_status db @ new\<rparr>)"
  using assms by (auto simp: carries_def workflow_ids_def)

lemma carries_quiet:
  assumes "\<And>V. preserves (quiet V) m"
  shows "preserves (carries db0) m"
proof (rule preservesI)
  fix db assume c: "carries db0 db"
  have "views (snd (m db)) = views db" using assms [of "views db"] unfolding preserves_def quiet_def by blast
  then have v: "map status_view (t_workflow_status (snd (m db))) = map status_view (t_workflow_status db)" by (simp add: views_def)
  have "map ws_workflow_uuid rows = map fst (map status_view rows)" for rows by (simp add: status_view_def)
  with v have "map ws_workflow_uuid (t_workflow_status (snd (m db))) = map ws_workflow_uuid (t_workflow_status db)" by metis
  then have ids: "workflow_ids (snd (m db)) = workflow_ids db" unfolding workflow_ids_def by (metis list.set_map)
  have "\<exists>x\<in>set (t_workflow_status db). status_view x = status_view r" if "r \<in> set (t_workflow_status (snd (m db)))" for r
    using that v by (metis image_iff list.set_map)
  with c ids show "carries db0 (snd (m db))" unfolding carries_def key_ok_view by (metis (no_types, lifting) fst_conv status_view_def)
qed

lemma insertWorkflowStatus_carries [keep_rules]: "preserves (carries db0) (insertWorkflowStatus now st xid inc)"
proof (rule preservesI)
  fix db assume c: "carries db0 db"
  show "carries db0 (snd (insertWorkflowStatus now st xid inc db))"
    by (auto simp: insertWorkflowStatus_def Let_def find_row_None_iff workflow_ids_def new_status_row_def on_conflict_status_def key_ok_def
        intro!: carries_update [OF c] carries_append [OF c] c split: option.splits)
qed

lemma updateWorkflowStatus_carries [keep_rules]:
  assumes "su_resetDeduplicationID u"
  shows "preserves (carries db0) (updateWorkflowStatus now w st u wh t)"
  using assms by (auto simp: preserves_def updateWorkflowStatus_def Let_def apply_status_update_def key_ok_def intro!: carries_update)

lemma initWorkflowStatus_carries [keep_rules]: "preserves (carries db0) (initWorkflowStatus now st xid rec deq mx)"
proof (rule preservesI)
  fix db assume c: "carries db0 db"
  obtain r db1 where ins: "insertWorkflowStatus now st xid (rec \<or> deq) db = (r, db1)" by fastforce
  have c1: "carries db0 db1" by (rule preservesD [OF insertWorkflowStatus_carries c ins])
  have "carries db0 (snd (updateWorkflowStatus now w s (no_update\<lparr>su_resetDeduplicationID := True\<rparr>) wh t db1))" for w s wh t
    using preserves_snd [OF updateWorkflowStatus_carries c1] by simp
  with c c1 ins show "carries db0 (snd (initWorkflowStatus now st xid rec deq mx db))"
    by (cases r) (auto simp: initWorkflowStatus_def Let_def)
qed

lemma outcome_carries [keep_rules]:
  "preserves (carries db0) (recordWorkflowOutput now w st)" "preserves (carries db0) (recordWorkflowError now w st)"
  unfolding recordWorkflowOutput_def recordWorkflowError_def recordWorkflowOutcome_def by (intro keep_rules; simp)+

lemma status_updates_carry [keep_rules]:
  "preserves (carries db0) (resumeWorkflows now ids q)" "preserves (carries db0) (transitionDelayedWorkflows now)"
  "preserves (carries db0) (reenqueueWorkflowsForRecovery now ex ver qr)"
  by (auto simp: preserves_def resumeWorkflows_def transitionDelayedWorkflows_def reenqueueWorkflowsForRecovery_def Let_def key_ok_def
      intro!: carries_update)

lemma cancel_rows_carry: "carries db0 db \<Longrightarrow> carries db0 (db\<lparr>t_workflow_status := cancel_rows now ids (t_workflow_status db)\<rparr>)"
  unfolding cancel_rows_def by (rule carries_update) (auto simp: key_ok_def)

lemma cancel_cascade_carry:
  "carries db0 (db\<lparr>t_workflow_status := rows\<rparr>) \<Longrightarrow> carries db0 (db\<lparr>t_workflow_status := cancel_cascade now visited frontier rows\<rparr>)"
proof (induction now visited frontier rows rule: cancel_cascade.induct)
  case (1 now visited frontier rows)
  show ?case
  proof (cases "frontier = []")
    case False
    have "carries db0 (db\<lparr>t_workflow_status := cancel_rows now frontier rows\<rparr>)" using cancel_rows_carry [OF "1.prems"] by simp
    from "1.IH" [OF False refl refl this] False show ?thesis by (subst cancel_cascade.simps) (simp add: Let_def)
  qed (use "1.prems" in \<open>simp add: cancel_cascade.simps\<close>)
qed

lemma cancelWorkflows_carries [keep_rules]: "preserves (carries db0) (cancelWorkflows now ids cc)"
  by (rule preservesI) (simp add: cancelWorkflows_def cancel_rows_carry cancel_cascade_carry)

lemma claim_loop_carry:
  "carries db0 (db\<lparr>t_workflow_status := rows\<rparr>) \<Longrightarrow>
     carries db0 (db\<lparr>t_workflow_status := snd (claim_loop limit recent (mark_started s now e v l) ids claimed rows)\<rparr>)"
proof (induction ids arbitrary: claimed rows)
  case (Cons wfid ids)
  have "carries db0 (db\<lparr>t_workflow_status := update_where (\<lambda>r. ws_workflow_uuid r = wfid \<and> ws_status r = ENQUEUED) (mark_started s now e v l) rows\<rparr>)"
    using carries_update [OF Cons.prems, of "\<lambda>r. ws_workflow_uuid r = wfid \<and> ws_status r = ENQUEUED" "mark_started s now e v l"]
    by (simp add: mark_started_def key_ok_def)
  from Cons.IH [OF this] Cons.prems show ?case by (simp add: Let_def)
qed simp

lemma findAndMark_carries [keep_rules]: "preserves (carries db0) (findAndMarkStartableWorkflows s now lk q e v p)"
proof (rule preservesI)
  fix db assume c: "carries db0 db"
  have "carries db0 (db\<lparr>t_workflow_status := rows'\<rparr>)"
    if "claim_loop limit recent (mark_started s now e v l) ids [] (t_workflow_status db) = (cl, rows')" for limit recent l ids cl rows'
    using claim_loop_carry [of db0 "t_workflow_status db" db limit recent s now e v l ids "[]"] c that by simp
  then show "carries db0 (snd (findAndMarkStartableWorkflows s now lk q e v p db))"
    using c by (auto simp: findAndMarkStartableWorkflows_def Let_def split: prod.splits)
qed

lemma insert_rows_carry [keep_rules]:
  "preserves (carries db0) (insert_forks now opts pairs)" "preserves (carries db0) (insert_status_row r)"
proof -
  show "preserves (carries db0) (insert_forks now opts pairs)"
    by (rule preservesI) (auto simp: insert_forks_def Let_def map_filter_def key_ok_def fork_row_def intro!: carries_append)
  show "preserves (carries db0) (insert_status_row r)"
    by (rule preservesI) (auto simp: insert_status_row_def workflow_ids_def intro!: carries_append)
qed

lemma fork_tables_carry [keep_rules]:
  "preserves (carries db0) (modify (mark_forked_from ids))" "preserves (carries db0) (modify (copy_tables ch ms))"
  by (rule carries_quiet, simp add: preserves_def mark_forked_from_def copy_tables_def quiet_def views_def status_view_def view_update_same)+

lemma child_rows_carry [keep_rules]:
  "preserves (carries db0) (insert_child_row oo_pk oo_workflow_uuid t_operation_outputs t_operation_outputs_update a)"
  "preserves (carries db0) (insert_child_row we_pk we_workflow_uuid t_workflow_events t_workflow_events_update b)"
  "preserves (carries db0) (insert_child_row eh_pk eh_workflow_uuid t_workflow_events_history t_workflow_events_history_update c)"
  "preserves (carries db0) (insert_child_row st_pk st_workflow_uuid t_streams t_streams_update d)"
  by (rule carries_quiet, rule child_rows_quiet)+

lemma adding_operations_carry [keep_rules]:
  "preserves (carries db0) (bulkForkWorkflows now origs forks steps opts)" "preserves (carries db0) (importWorkflow es)"
  unfolding bulkForkWorkflows_def importWorkflow_def import_one_def by (intro keep_rules)+

lemma forkFromFailure_carries [keep_rules]: "preserves (carries db0) (forkFromFailure now us ws mode opts)"
  using adding_operations_carry(1) unfolding preserves_def forkFromFailure_def by (auto split: option.splits)

lemma insert_skipping_carry:
  "carries db0 (db\<lparr>t_workflow_status := rows\<rparr>) \<Longrightarrow> carries db0 (db\<lparr>t_workflow_status := snd (insert_skipping es rows)\<rparr>)"
proof (induction es rows rule: insert_skipping.induct)
  case (2 status createdAt chunk rows)
  show ?case
  proof (cases "si_workflowUUID status \<in> ws_workflow_uuid ` set rows")
    case False
    have "carries db0 (db\<lparr>t_workflow_status := rows @ [batch_row status createdAt]\<rparr>)"
      using carries_append [OF "2.prems", of "[batch_row status createdAt]"] False by (simp add: workflow_ids_def batch_row_def new_status_row_def)
    with 2 False show ?thesis by (auto simp: Let_def split: prod.splits)
  qed (use 2 in simp)
qed simp

lemma enqueueWorkflows_carries [keep_rules]: "preserves (carries db0) (enqueueWorkflows now sts)"
proof (rule preservesI)
  fix db assume c: "carries db0 db"
  obtain cs cur where a: "assignBatchCreatedAt now sts db = (Inr cs, db\<lparr>m_batchCreatedAtCursors := cur\<rparr>)"
    using assignBatchCreatedAt_effect by blast
  have "carries db0 (db\<lparr>t_workflow_status := snd (insert_skipping (zip sts cs) (t_workflow_status db))\<rparr>)"
    using c by (intro insert_skipping_carry) (simp add: carries_rows)
  moreover have "t_workflow_status (snd (enqueueWorkflows now sts db)) \<in>
      {t_workflow_status db, snd (insert_skipping (zip sts cs) (t_workflow_status db))}"
    using a by (auto simp: enqueueWorkflows_def insert_chunks_eq split: option.splits prod.splits)
  ultimately show "carries db0 (snd (enqueueWorkflows now sts db))" using c by (auto intro: carries_rows)
qed

lemma deletion_keeps_keys: "debounced_keys_delayed db \<Longrightarrow> debounced_keys_delayed (delete_workflow_rows P db)"
  by (simp add: debounced_keys_delayed_def delete_workflow_rows_def Let_def list_all_iff delete_where_def)

text \<open>Every step keeps the workflows there were as they should be.\<close>

lemma sysdb_step_keys:
  assumes "sysdb_step db db'" and "debounced_keys_delayed db"
  shows "\<forall>r\<in>set (t_workflow_status db'). ws_workflow_uuid r \<in> workflow_ids db \<longrightarrow> key_ok r"
proof -
  have carried: "preserves (carries db) m \<Longrightarrow> carries db (snd (m db)) \<or> debounced_keys_delayed (snd (m db))" for m :: "'a db_op"
    using carries_refl [OF assms(2)] by (auto simp: preserves_def)
  have "carries db db' \<or> debounced_keys_delayed db'"
    using assms
  proof (induction rule: sysdb_step.induct)
    case (delete db ids cc)
    have "debounced_keys_delayed (db'\<lparr>m_runningWorkflowMap := rw\<rparr>) = debounced_keys_delayed db'" for db' rw by (simp add: debounced_keys_delayed_def)
    with delete show ?case by (auto simp: deleteWorkflows_def Let_def deletion_keeps_keys)
  next
    case (collect db cutoff thr)
    then show ?case by (auto simp: garbageCollect_def deletion_keeps_keys split: option.splits)
  next
    case (register db w qo po)
    then show ?case by (simp add: debounced_keys_delayed_def registerRunningWorkflow_def Let_def)
  next
    case (release db w)
    then show ?case by (simp add: debounced_keys_delayed_def clearRunningWorkflow_def)
  qed ((rule disjI1, rule preserves_snd, (rule carries_quiet, intro keep_rules | intro keep_rules), erule carries_refl)+)
  then show ?thesis by (auto simp: carries_def debounced_keys_delayed_def list_all_iff)
qed

section \<open>What a debounce does\<close>

text \<open>Class names are stored as \<open>NULL\<close> when they are empty.\<close>

definition debounce_ready :: "sysdb \<Rightarrow> bool" where
  "debounce_ready db = (debounced_keys_delayed db \<and> list_all (\<lambda>r. ws_class_name r \<noteq> Some []) (t_workflow_status db))"

lemma key_holders:
  assumes "dedup_unique rows"
  shows "filter (holds_key p) rows = [] \<or> (\<exists>h. filter (holds_key p) rows = [h])"
  using assms
proof (induction rows)
  case (Cons r rows)
  have "holds_key p r \<Longrightarrow> \<forall>r'\<in>set rows. \<not> holds_key p r'" using Cons.prems by (auto simp: holds_key_def dedup_conflict_def)
  then show ?case using Cons by (auto simp: filter_empty_conv)
qed simp

lemma bounceable_holders: "filter (bounceable p) rows = filter (bounceable p) (filter (holds_key p) rows)"
proof -
  have "bounceable p r \<longleftrightarrow> holds_key p r \<and> bounceable p r" for r by (auto simp: bounceable_def)
  then show ?thesis by (auto intro: filter_cong)
qed

lemma bounceable_holder:
  assumes "debounce_ready db" and "h \<in> set (t_workflow_status db)" and "holds_key (bounce_params cfg key t v ser) h"
    and "ws_is_debounced h" and "ws_name h = bp_workflowName cfg" and "coalesce (ws_class_name h) [] = bp_workflowClassName cfg"
  shows "bounceable (bounce_params cfg key t v ser) h"
proof -
  have "ws_status h = DELAYED" "ws_class_name h \<noteq> Some []"
    using assms(1-4) by (auto simp: debounce_ready_def debounced_keys_delayed_def list_all_iff key_ok_def holds_key_def)
  with assms(3-6) show ?thesis
    by (auto simp: bounceable_def bounce_params_def empty_to_null_def coalesce_def split: option.splits)
qed

text \<open>A holder of the key that is the workflow of this debouncer, in whatever state.\<close>

definition own_holder :: "DebouncerParams \<Rightarrow> workflow_status \<Rightarrow> bool" where
  "own_holder cfg h = (ws_is_debounced h \<and> ws_name h = bp_workflowName cfg \<and> coalesce (ws_class_name h) [] = bp_workflowClassName cfg)"

lemma bounceable_own:
  assumes "debounce_ready db" and "h \<in> set (t_workflow_status db)" and "holds_key (bounce_params cfg key t v ser) h"
  shows "bounceable (bounce_params cfg key t v ser) h \<longleftrightarrow> own_holder cfg h"
proof
  assume "bounceable (bounce_params cfg key t v ser) h"
  then show "own_holder cfg h"
    by (auto simp: own_holder_def bounceable_def bounce_params_def empty_to_null_def coalesce_def split: if_splits)
qed (use bounceable_holder [OF assms] in \<open>simp add: own_holder_def\<close>)

text \<open>What a bounce that finds no workflow to extend reports, by what holds the key at the query.\<close>

lemma bounce_misses:
  assumes "filter (bounceable p) (t_workflow_status db) = []" and "p = bounce_params cfg key t v ser"
  shows "\<exists>res. debounceDelayedWorkflow now p between db = (Inr res, between db) \<and>
    classifyBounce res (bp_workflowName cfg) (bp_workflowClassName cfg) =
      (case filter (holds_key p) (t_workflow_status (between db)) of [] \<Rightarrow> BounceEnqueue | h # _ \<Rightarrow> if own_holder cfg h then BounceRetry else BounceRaise)"
proof (cases "filter (holds_key p) (t_workflow_status (between db))")
  case Nil
  with assms show ?thesis by (simp add: debounceDelayedWorkflow_def classifyBounce_def Let_def)
next
  case (Cons h rest)
  with assms show ?thesis by (auto simp: debounceDelayedWorkflow_def classifyBounce_def own_holder_def Let_def)
qed

lemma bounce_hits:
  assumes "dedup_unique (t_workflow_status db)" and "filter (bounceable p) (t_workflow_status db) = h # rest"
  shows "h \<in> set (t_workflow_status db)" and "bounceable p h" and "filter (holds_key p) (t_workflow_status db) = [h]"
    and "\<exists>res. debounceDelayedWorkflow now p between db =
        (Inr res, db\<lparr>t_workflow_status := update_where (\<lambda>r. r = h) (bounce_row now p) (t_workflow_status db)\<rparr>) \<and>
      classifyBounce res n c = BounceReturn \<and> dr_bouncedWorkflowID res = Some (ws_workflow_uuid h)"
proof -
  show h: "h \<in> set (t_workflow_status db)" "bounceable p h" using filter_eq_ConsD [OF assms(2)] by auto
  then have holds: "h \<in> set (filter (holds_key p) (t_workflow_status db))" by (simp add: bounceable_def)
  with key_holders [OF assms(1), of p] show one: "filter (holds_key p) (t_workflow_status db) = [h]" by (elim disjE exE) (simp_all del: set_filter)
  have "bounceable p r \<longleftrightarrow> r = h" if "r \<in> set (t_workflow_status db)" for r
  proof
    assume "bounceable p r"
    then have "r \<in> set (filter (holds_key p) (t_workflow_status db))" using that by (simp add: bounceable_def)
    then show "r = h" by (simp add: one)
  qed (simp add: h)
  then have "update_where (bounceable p) f (t_workflow_status db) = update_where (\<lambda>r. r = h) f (t_workflow_status db)" for f
    by (auto simp: update_where_def)
  with assms(2) show "\<exists>res. debounceDelayedWorkflow now p between db =
        (Inr res, db\<lparr>t_workflow_status := update_where (\<lambda>r. r = h) (bounce_row now p) (t_workflow_status db)\<rparr>) \<and>
      classifyBounce res n c = BounceReturn \<and> dr_bouncedWorkflowID res = Some (ws_workflow_uuid h)"
    by (simp add: debounceDelayedWorkflow_def classifyBounce_def)
qed

text \<open>An undisturbed bounce, by what holds the key.\<close>

lemma undisturbed_hit:
  assumes "dedup_unique (t_workflow_status db)" and "debounce_ready db" and "p = bounce_params cfg key t v ser"
  shows "case filter (holds_key p) (t_workflow_status db) of
      [] \<Rightarrow> filter (bounceable p) (t_workflow_status db) = []
    | h # _ \<Rightarrow> if own_holder cfg h then filter (bounceable p) (t_workflow_status db) = [h] else filter (bounceable p) (t_workflow_status db) = []"
proof (cases "filter (holds_key p) (t_workflow_status db)")
  case Nil
  then show ?thesis by (subst bounceable_holders) simp
next
  case (Cons h rest)
  with key_holders [OF assms(1), of p] have one: "filter (holds_key p) (t_workflow_status db) = [h]" by auto
  then have "h \<in> set (t_workflow_status db)" "holds_key p h" by (auto dest!: filter_eq_ConsD)
  with bounceable_own [OF assms(2)] have "bounceable p h \<longleftrightarrow> own_holder cfg h" by (simp add: assms(3))
  then have "filter (bounceable p) (t_workflow_status db) = (if own_holder cfg h then [h] else [])"
    by (subst bounceable_holders) (simp add: one)
  with one show ?thesis by simp
qed

text \<open>The status that \<open>enqueueDebounced\<close> inserts.\<close>

definition debounced_status :: "api_env \<Rightarrow> ClientEnqueueOptions \<Rightarrow> int option \<Rightarrow> serialized_value \<Rightarrow> WorkflowStatusInternal" where
  "debounced_status a options deadline v = (enqueue_status a options v)\<lparr>si_debounceDeadlineEpochMS := deadline, si_isDebounced := Some True,
     si_delayUntilEpochMS := (case (client_delay (ae_now a) options, deadline) of
         (Some t, Some d) \<Rightarrow> Some (if d < t then d else t) | (t, _) \<Rightarrow> t)\<rparr>"

lemma enqueueDebounced_built:
  assumes "validateWorkflowAttributes (ce_attributes options) = None" and "serializeArgs (ae_ser a) args None (ce_serializationType options) = Inr v"
  shows "enqueueDebounced a options deadline args db =
    and_then (client_init (ae_now a) (debounced_status a options deadline v)) (\<lambda>_. ret (si_workflowUUID (debounced_status a options deadline v))) db"
proof -
  have "(enqueue_status a options v)\<lparr>si_debounceDeadlineEpochMS := deadline, si_isDebounced := Some True,
      si_delayUntilEpochMS := (case (si_delayUntilEpochMS (enqueue_status a options v), deadline) of
          (Some t, Some d) \<Rightarrow> Some (if d < t then d else t) | (t, _) \<Rightarrow> t)\<rparr> = debounced_status a options deadline v"
    "si_workflowUUID (debounced_status a options deadline v) = si_workflowUUID (enqueue_status a options v)"
    by (simp_all add: debounced_status_def enqueue_status_def)
  with assms show ?thesis by (simp add: enqueueDebounced_def buildEnqueueStatus_def build_status_def Let_def)
qed

lemma debounced_status_key:
  "si_queueName (debounced_status a (debounced_options cfg key period fmt) dl v) = Some (debounce_queue cfg)"
  "si_deduplicationID (debounced_status a (debounced_options cfg key period fmt) dl v) = Some (debounce_id cfg key)"
  "si_workflowUUID (debounced_status a (debounced_options cfg key period fmt) dl v) = coalesce (sp_workflowID (bp_startWorkflowParams cfg)) (ae_uuid a)"
  by (simp_all add: debounced_status_def enqueue_status_def debounced_options_def Let_def)

lemma client_init_codes:
  assumes "client_init now st db = (Inl e, db1)" and "isQueueDeduplicatedError e"
  shows "is_queue_duplicated e"
  using assms by (auto simp: client_init_def initWorkflowStatus_def insertWorkflowStatus_def Let_def isQueueDeduplicatedError_def QueueDedupIDDuplicated_def
      max_retries_exceeded_def split: option.splits if_splits)

text \<open>Enqueueing fails for being too late only when the key is held, and then changes nothing.\<close>

lemma enqueue_late:
  assumes "serializeArgs (ae_ser a) args None fmt = Inr v" and "isQueueDeduplicatedError e"
    and "enqueueDebounced a (debounced_options cfg key period fmt) dl args db = (Inl e, db1)"
  shows "db1 = db" and "filter (holds_key (bounce_params cfg key t x ser)) (t_workflow_status db) \<noteq> []"
proof -
  have none: "validateWorkflowAttributes (ce_attributes (debounced_options cfg key period fmt)) = None"
  proof (cases "validateWorkflowAttributes (ce_attributes (debounced_options cfg key period fmt))")
    case (Some e')
    then have "e = e'" "dbosErrorCode e' = Some 1"
      using assms(3) by (auto simp: enqueueDebounced_def buildEnqueueStatus_def build_status_def validateWorkflowAttributes_def Let_def
          split: option.splits json.splits)
    with assms(2) show ?thesis by (cases e') (auto simp: isQueueDeduplicatedError_def QueueDedupIDDuplicated_def)
  qed
  let ?st = "debounced_status a (debounced_options cfg key period fmt) dl v"
  have "ce_serializationType (debounced_options cfg key period fmt) = fmt" by (simp add: debounced_options_def Let_def)
  with assms(1,3) none have init: "client_init (ae_now a) ?st db = (Inl e, db1)"
    by (cases "client_init (ae_now a) ?st db"; cases "fst (client_init (ae_now a) ?st db)") (auto simp: enqueueDebounced_built)
  note dup = client_init_duplicated [OF init client_init_codes [OF init assms(2)] debounced_status_key(1,2)]
  from dup(1,2) show "db1 = db" "filter (holds_key (bounce_params cfg key t x ser)) (t_workflow_status db) \<noteq> []"
    by (auto simp: filter_empty_conv holds_key_def bounce_params_def)
qed

lemma client_init_adds:
  assumes "client_init now st db = (Inr res, db1)"
  shows "si_workflowUUID st \<in> workflow_ids db1"
proof (cases "find_row ws_workflow_uuid (si_workflowUUID st) (t_workflow_status db)")
  case None
  with assms show ?thesis
    by (auto simp: client_init_def initWorkflowStatus_def insertWorkflowStatus_def Let_def workflow_ids_def new_status_row_def insert_result_def
        max_retries_exceeded_def split: if_splits)
next
  case (Some r)
  from Some have "si_workflowUUID st \<in> workflow_ids db" by (simp add: workflow_ids_iff)
  with Some assms show ?thesis
    by (auto simp: client_init_def initWorkflowStatus_def insertWorkflowStatus_def updateWorkflowStatus_def Let_def on_conflict_status_def
        insert_result_def max_retries_exceeded_def split: if_splits)
qed

lemma enqueue_adds:
  assumes "enqueueDebounced a options deadline args db = (Inr w, db1)"
  shows "w \<in> workflow_ids db1"
  using assms client_init_adds
  by (fastforce simp: enqueueDebounced_def buildEnqueueStatus_def build_status_def Let_def and_then_success split: sum.splits prod.splits option.splits)

text \<open>One round, by what the update and the query find.\<close>

lemma client_debounce_round:
  assumes "dedup_unique (t_workflow_status db)" and "serializeArgs (ae_ser (envs n)) args None fmt = Inr v"
    and "p = bounce_params cfg key (ae_now (envs n) + period) (sv_serializedValue v) (sv_serialization v)" and "db1 = others (2 * n) db"
  shows "client_debounce_loop (Suc fuel) envs others n cfg fmt key period args db =
    (case filter (bounceable p) (t_workflow_status db) of
       h # _ \<Rightarrow> Some (Inr (ws_workflow_uuid h), db\<lparr>t_workflow_status := update_where (\<lambda>r. r = h) (bounce_row (ae_now (envs n)) p) (t_workflow_status db)\<rparr>)
     | [] \<Rightarrow> (case filter (holds_key p) (t_workflow_status db1) of
         [] \<Rightarrow> (case enqueueDebounced (envs n) (debounced_options cfg key period fmt) (debounce_deadline cfg (ae_now (envs n))) args (others (2 * n + 1) db1) of
                 (Inr w, db2) \<Rightarrow> Some (Inr w, db2)
               | (Inl e, db2) \<Rightarrow> if \<not> isQueueDeduplicatedError e then Some (Inl e, db2)
                   else client_debounce_loop fuel envs others (Suc n) cfg fmt key period args db2)
       | h # _ \<Rightarrow> if own_holder cfg h then client_debounce_loop fuel envs others (Suc n) cfg fmt key period args (others (2 * n + 1) db1)
           else Some (Inl (DBOSQueueDuplicatedError (coalesce (sp_workflowID (bp_startWorkflowParams cfg)) []) (debounce_queue cfg) (debounce_id cfg key)), db1)))"
proof (cases "filter (bounceable p) (t_workflow_status db)")
  case Nil
  from bounce_misses [OF Nil assms(3), of "ae_now (envs n)" "others (2 * n)"] obtain res where
    "debounceDelayedWorkflow (ae_now (envs n)) p (others (2 * n)) db = (Inr res, db1)"
    "classifyBounce res (bp_workflowName cfg) (bp_workflowClassName cfg) =
      (case filter (holds_key p) (t_workflow_status db1) of [] \<Rightarrow> BounceEnqueue | h # _ \<Rightarrow> if own_holder cfg h then BounceRetry else BounceRaise)"
    by (auto simp: assms(4))
  with Nil assms(2,3) show ?thesis by (auto split: list.splits)
next
  case (Cons h rest)
  from bounce_hits(4) [OF assms(1) Cons, of "ae_now (envs n)" "others (2 * n)" "bp_workflowName cfg" "bp_workflowClassName cfg"] Cons assms(2,3)
  show ?thesis by auto
qed

text \<open>How a call may end: with a workflow of the database, with an error of the serializer or of the enqueue, or with a conflict.\<close>

definition debounce_answer ::
  "(nat \<Rightarrow> api_env) \<Rightarrow> DebouncerParams \<Rightarrow> WorkflowSerializationFormat option \<Rightarrow> string \<Rightarrow> int \<Rightarrow> js_value list \<Rightarrow> dbos_error + string \<Rightarrow> sysdb \<Rightarrow> bool" where
  "debounce_answer envs cfg fmt key period args r db = (case r of
       Inr w \<Rightarrow> w \<in> workflow_ids db
     | Inl e \<Rightarrow> (\<exists>n. serializeArgs (ae_ser (envs n)) args None fmt = Inl e) \<or>
         (\<exists>n d. fst (enqueueDebounced (envs n) (debounced_options cfg key period fmt) (debounce_deadline cfg (ae_now (envs n))) args d) = Inl e \<and>
            \<not> isQueueDeduplicatedError e) \<or>
         e = DBOSQueueDuplicatedError (coalesce (sp_workflowID (bp_startWorkflowParams cfg)) []) (debounce_queue cfg) (debounce_id cfg key) \<and>
         (\<exists>h\<in>set (t_workflow_status db). ws_queue_name h = Some (debounce_queue cfg) \<and> ws_deduplication_id h = Some (debounce_id cfg key) \<and>
            \<not> own_holder cfg h))"

lemma client_debounce_settles:
  assumes "\<And>n db. db_wf db \<Longrightarrow> debounce_ready db \<Longrightarrow> db_wf (others n db) \<and> debounce_ready (others n db)"
    and "db_wf db" and "debounce_ready db" and "n \<le> k" and "k < n + fuel" and "others (2 * k) = (\<lambda>db. db)" and "others (2 * k + 1) = (\<lambda>db. db)"
  shows "\<exists>r db'. client_debounce_loop fuel envs others n cfg fmt key period args db = Some (r, db') \<and> debounce_answer envs cfg fmt key period args r db'"
  using assms(2-5)
proof (induction fuel arbitrary: n db)
  case (Suc fuel)
  show ?case
  proof (cases "serializeArgs (ae_ser (envs n)) args None fmt")
    case (Inl e)
    then show ?thesis by (auto simp: debounce_answer_def)
  next
    case (Inr v)
    define p where "p = bounce_params cfg key (ae_now (envs n) + period) (sv_serializedValue v) (sv_serialization v)"
    define db1 where "db1 = others (2 * n) db"
    have uniq: "dedup_unique (t_workflow_status db)" using Suc.prems(1) by (simp add: db_wf_def)
    note round = client_debounce_round [where others = others and fuel = fuel and envs = envs and n = n, OF uniq Inr p_def db1_def]
    have ok1: "db_wf db1" "debounce_ready db1" using assms(1) Suc.prems(1,2) by (auto simp: db1_def)
    have again: ?thesis if "client_debounce_loop (Suc fuel) envs others n cfg fmt key period args db =
        client_debounce_loop fuel envs others (Suc n) cfg fmt key period args db2" "db2 = others (2 * n + 1) db1" "n \<noteq> k" for db2
      using Suc.IH [of db2 "Suc n"] that Suc.prems(3,4) assms(1) [OF ok1] by (simp del: client_debounce_loop.simps)
    show ?thesis
    proof (cases "filter (bounceable p) (t_workflow_status db)")
      case (Cons h rest)
      from bounce_hits(1) [OF uniq Cons] have "ws_workflow_uuid h \<in> workflow_ids (db\<lparr>t_workflow_status :=
          update_where (\<lambda>r. r = h) (bounce_row (ae_now (envs n)) p) (t_workflow_status db)\<rparr>)"
        by (auto simp: workflow_ids_def set_update_where image_iff intro!: bexI [of _ h])
      then show ?thesis unfolding round using Cons by (simp add: debounce_answer_def del: client_debounce_loop.simps)
    next
      case Nil
      show ?thesis
      proof (cases "filter (holds_key p) (t_workflow_status db1)")
        case (Cons h rest)
        then have h: "h \<in> set (t_workflow_status db1)" "holds_key p h" by (auto dest!: filter_eq_ConsD)
        show ?thesis
        proof (cases "own_holder cfg h")
          case True
          have "n \<noteq> k"
          proof
            assume "n = k"
            then have "db1 = db" by (simp add: db1_def assms(6))
            with undisturbed_hit [OF uniq Suc.prems(2) p_def] Cons True Nil show False by simp
          qed
          with again [OF _ refl] Nil Cons True show ?thesis unfolding round by (simp del: client_debounce_loop.simps)
        next
          case False
          then have "debounce_answer envs cfg fmt key period args
              (Inl (DBOSQueueDuplicatedError (coalesce (sp_workflowID (bp_startWorkflowParams cfg)) []) (debounce_queue cfg) (debounce_id cfg key))) db1"
            using h by (auto simp: debounce_answer_def holds_key_def p_def bounce_params_def)
          with Nil Cons False show ?thesis unfolding round by (simp del: client_debounce_loop.simps)
        qed
      next
        case none: Nil
        obtain r db2 where enq: "enqueueDebounced (envs n) (debounced_options cfg key period fmt) (debounce_deadline cfg (ae_now (envs n))) args
            (others (2 * n + 1) db1) = (r, db2)" by fastforce
        show ?thesis
        proof (cases "\<exists>e. r = Inl e \<and> isQueueDeduplicatedError e")
          case True
          then obtain e where e: "r = Inl e" "isQueueDeduplicatedError e" by blast
          note late = enqueue_late [OF Inr e(2) enq [unfolded e(1)]]
          have "n \<noteq> k" using late(2) none [unfolded p_def] assms(7) by auto
          with again [OF _ late(1)] Nil none enq e show ?thesis unfolding round by (simp del: client_debounce_loop.simps)
        next
          case False
          have "debounce_answer envs cfg fmt key period args r db2"
          proof (cases r)
            case (Inl e)
            with False enq have "fst (enqueueDebounced (envs n) (debounced_options cfg key period fmt) (debounce_deadline cfg (ae_now (envs n))) args
                (others (2 * n + 1) db1)) = Inl e \<and> \<not> isQueueDeduplicatedError e" by simp
            with Inl show ?thesis unfolding debounce_answer_def by auto
          next
            case (Inr w)
            with enqueue_adds enq show ?thesis by (simp add: debounce_answer_def)
          qed
          with Nil none enq False show ?thesis unfolding round by (cases r) (simp_all del: client_debounce_loop.simps)
        qed
      qed
    qed
  qed
qed simp

text \<open>C21: a debounce by a client comes to an end, with an answer. Whatever other processes do in the rounds before, as long as they keep the tables well-formed and
  keep debounced workflows that hold a key delayed, the loop ends in a round in which nobody interferes, if not before. With acceptable options it then
  returns the ID of a workflow of the database, or it throws: the error of the serializer, an error of the enqueue other than that the key is taken, or the
  conflict, and the conflict only if the key is held by a workflow that is not this debouncer's. A lost race for the key, in the enqueue or between the
  update and the query of the bounce, is thus never reported to the caller.\<close>

theorem debounce_settles:
  assumes "\<forall>n db. db_wf db \<and> debounce_ready db \<longrightarrow> db_wf (others n db) \<and> debounce_ready (others n db)"
    and "db_wf db" and "debounce_ready db" and "k < fuel" and "others (2 * k) = (\<lambda>db. db)" and "others (2 * k + 1) = (\<lambda>db. db)"
    and "0 < period" and "rejectConflictingOptions (bp_startWorkflowParams cfg) = None"
  shows "\<exists>r db'. DebouncerClient_debounce fuel envs others cfg fmt debounceKey period args db = Some (r, db') \<and>
    (case r of
       Inr w \<Rightarrow> w \<in> workflow_ids db'
     | Inl e \<Rightarrow> (\<exists>n. serializeArgs (ae_ser (envs n)) args None fmt = Inl e) \<or>
         (\<exists>n d. fst (enqueueDebounced (envs n) (debounced_options cfg debounceKey period fmt) (debounce_deadline cfg (ae_now (envs n))) args d) = Inl e \<and>
            \<not> isQueueDeduplicatedError e) \<or>
         e = DBOSQueueDuplicatedError (coalesce (sp_workflowID (bp_startWorkflowParams cfg)) []) (debounce_queue cfg) (debounce_id cfg debounceKey) \<and>
         (\<exists>h\<in>set (t_workflow_status db'). ws_queue_name h = Some (debounce_queue cfg) \<and> ws_deduplication_id h = Some (debounce_id cfg debounceKey) \<and>
            \<not> (ws_is_debounced h \<and> ws_name h = bp_workflowName cfg \<and> coalesce (ws_class_name h) [] = bp_workflowClassName cfg)))"
proof -
  have "\<exists>r db'. client_debounce_loop fuel envs others 0 cfg fmt debounceKey period args db = Some (r, db') \<and>
      debounce_answer envs cfg fmt debounceKey period args r db'"
    using assms by (intro client_debounce_settles [where k = k]) auto
  then have "\<exists>r db'. DebouncerClient_debounce fuel envs others cfg fmt debounceKey period args db = Some (r, db') \<and>
      debounce_answer envs cfg fmt debounceKey period args r db'"
    using assms(7,8) by (simp add: DebouncerClient_debounce_def)
  then show ?thesis unfolding debounce_answer_def own_holder_def .
qed

text \<open>C20: what one undisturbed call of a client does. If a delayed debounced workflow of the same name holds the key, it alone changes: it gets the arguments of
  this call and its start moves to the end of the period that begins now, but not past its debounce deadline, and the call returns its ID. If the key is
  free, one delayed workflow that holds it is added, with the arguments of this call, to start at the end of the period or at the debounce
  deadline, whichever is first; its deadline is the timeout of the debouncer from now. If another workflow holds the key, the call fails
  and nothing changes.\<close>

theorem debounce_coalesces:
  assumes "db_wf db" and "debounce_ready db" and "0 < period" and "rejectConflictingOptions (bp_startWorkflowParams cfg) = None"
    and "validateWorkflowAttributes (sp_workflowAttributes (bp_startWorkflowParams cfg)) = None"
    and "serializeArgs (ae_ser (envs 0)) args None fmt = Inr v" and "others 0 = (\<lambda>db. db)" and "others 1 = (\<lambda>db. db)"
    and "coalesce (sp_workflowID (bp_startWorkflowParams cfg)) (ae_uuid (envs 0)) \<notin> workflow_ids db"
    and "dl = (case bp_debounceTimeoutMs cfg of None \<Rightarrow> None | Some t \<Rightarrow> if t = 0 then None else Some (ae_now (envs 0) + t))"
    and "p = bounce_params cfg debounceKey (ae_now (envs 0) + period) (sv_serializedValue v) (sv_serialization v)"
  shows "\<exists>r db'. DebouncerClient_debounce (Suc fuel) envs others cfg fmt debounceKey period args db = Some (r, db') \<and>
    (case filter (holds_key p) (t_workflow_status db) of
       [] \<Rightarrow> (\<exists>new. db' = db\<lparr>t_workflow_status := t_workflow_status db @ [new]\<rparr> \<and> r = Inr (ws_workflow_uuid new) \<and> bounceable p new \<and>
         ws_inputs new = sv_serializedValue v \<and> ws_debounce_deadline_epoch_ms new = dl \<and>
         ws_delay_until_epoch_ms new = Some (case dl of None \<Rightarrow> ae_now (envs 0) + period | Some d \<Rightarrow> min d (ae_now (envs 0) + period)))
     | h # _ \<Rightarrow> if bounceable p h
         then r = Inr (ws_workflow_uuid h) \<and> db' = db\<lparr>t_workflow_status := map (\<lambda>r. if r = h then
             h\<lparr>ws_inputs := sv_serializedValue v, ws_serialization := sv_serialization v, ws_updated_at := ae_now (envs 0),
               ws_delay_until_epoch_ms := Some (case ws_debounce_deadline_epoch_ms h of None \<Rightarrow> ae_now (envs 0) + period
                 | Some d \<Rightarrow> min d (ae_now (envs 0) + period))\<rparr> else r) (t_workflow_status db)\<rparr>
         else r = Inl (DBOSQueueDuplicatedError (coalesce (sp_workflowID (bp_startWorkflowParams cfg)) []) (debounce_queue cfg) (debounce_id cfg debounceKey)) \<and>
           db' = db)"
proof -
  let ?a = "envs 0" and ?opts = "debounced_options cfg debounceKey period fmt"
  have dl: "debounce_deadline cfg (ae_now ?a) = dl"
    by (simp add: assms(10) debounce_deadline_def truthy_int_def coalesce_def split: option.splits)
  define st where "st = debounced_status ?a ?opts dl v"
  have run: "DebouncerClient_debounce (Suc fuel) envs others cfg fmt debounceKey period args db =
      client_debounce_loop (Suc fuel) envs others 0 cfg fmt debounceKey period args db"
    using assms(3,4) by (simp add: DebouncerClient_debounce_def)
  have uniq: "dedup_unique (t_workflow_status db)" using assms(1) by (simp add: db_wf_def)
  have db1: "db = others (2 * 0) db" by (simp add: assms(7))
  note round = client_debounce_round [where others = others and fuel = fuel and envs = envs and n = 0, OF uniq assms(6,11) db1]
  note hit = undisturbed_hit [OF uniq assms(2,11)]
  show ?thesis
  proof (cases "filter (holds_key p) (t_workflow_status db)")
    case Nil
    have key: "si_queueName st = Some (debounce_queue cfg)" "si_deduplicationID st = Some (debounce_id cfg debounceKey)"
      "si_workflowUUID st \<notin> workflow_ids db" using assms(9) by (simp_all add: st_def debounced_status_key)
    have "enqueueDebounced ?a ?opts dl args db = and_then (client_init (ae_now ?a) st) (\<lambda>_. ret (si_workflowUUID st)) db"
      unfolding st_def using assms(5,6) by (intro enqueueDebounced_built) (simp_all add: debounced_options_def Let_def)
    moreover have "\<not> (\<exists>r\<in>set (t_workflow_status db). ws_queue_name r = Some (debounce_queue cfg) \<and> ws_deduplication_id r = Some (debounce_id cfg debounceKey))"
      using Nil assms(11) by (auto simp: filter_empty_conv holds_key_def bounce_params_def)
    ultimately have enq: "enqueueDebounced ?a ?opts dl args db =
        (Inr (si_workflowUUID st), db\<lparr>t_workflow_status := t_workflow_status db @ [new_status_row (ae_now ?a) st None]\<rparr>)"
      using client_init_new [OF key(3,1,2), of "ae_now ?a"] by simp
    have "bounceable p (new_status_row (ae_now ?a) st None)"
      using assms(3,11) by (auto simp: bounceable_def holds_key_def bounce_params_def st_def debounced_status_def enqueue_status_def debounced_options_def
          new_status_row_def client_delay_def Let_def or_null_def truthy_def empty_to_null_def split: option.splits)
    moreover have "ws_delay_until_epoch_ms (new_status_row (ae_now ?a) st None) =
        Some (case dl of None \<Rightarrow> ae_now ?a + period | Some d \<Rightarrow> min d (ae_now ?a + period))"
      using assms(3) by (cases dl) (simp_all add: st_def debounced_status_def debounced_options_def new_status_row_def client_delay_def Let_def)
    moreover have "ws_inputs (new_status_row (ae_now ?a) st None) = sv_serializedValue v" "ws_debounce_deadline_epoch_ms (new_status_row (ae_now ?a) st None) = dl"
      "ws_workflow_uuid (new_status_row (ae_now ?a) st None) = si_workflowUUID st"
      by (simp_all add: st_def debounced_status_def enqueue_status_def new_status_row_def)
    ultimately show ?thesis unfolding run round using Nil hit enq assms(8) dl
      by (auto simp del: client_debounce_loop.simps intro!: exI [of _ "new_status_row (ae_now ?a) st None"])
  next
    case (Cons h rest)
    then have h: "h \<in> set (t_workflow_status db)" "holds_key p h" by (auto dest!: filter_eq_ConsD)
    have own: "bounceable p h \<longleftrightarrow> own_holder cfg h" using bounceable_own [OF assms(2) h(1)] h(2) by (simp add: assms(11))
    have "update_where (\<lambda>r. r = h) (bounce_row (ae_now ?a) p) (t_workflow_status db) = map (\<lambda>r. if r = h then
        h\<lparr>ws_inputs := sv_serializedValue v, ws_serialization := sv_serialization v, ws_updated_at := ae_now ?a,
          ws_delay_until_epoch_ms := Some (case ws_debounce_deadline_epoch_ms h of None \<Rightarrow> ae_now ?a + period
            | Some d \<Rightarrow> min d (ae_now ?a + period))\<rparr> else r) (t_workflow_status db)"
      by (auto simp: update_where_def bounce_row_def bounce_params_def assms(11) min_def split: option.splits)
    with Cons hit own show ?thesis unfolding run round by (cases "own_holder cfg h") (simp_all del: client_debounce_loop.simps)
  qed
qed

text \<open>A debounced workflow that holds its key is delayed. Every operation of the system database keeps it so: releasing a delayed workflow, cancelling,
  resuming and finishing take the key away. It holds of the rows that a debounce adds, from a client or from an application; the only other rows that an
  operation could add with a key and the mark of a debounce are imported ones.\<close>

lemma debounced_keys_stay_delayed:
  assumes "sysdb_step db db'" and "debounced_keys_delayed db"
    and "\<forall>r\<in>set (t_workflow_status db'). ws_workflow_uuid r \<notin> workflow_ids db \<longrightarrow> key_ok r" and "0 < period"
  shows "debounced_keys_delayed db' \<and>
    key_ok (new_status_row now (debounced_status a (debounced_options cfg debounceKey period fmt) deadline v) None) \<and>
    key_ok (new_status_row now (start_status now g executorID w wfname cls
      (start_params target (debounced_start cfg debounceKey period now pinned) ctx uuid wfDeadline) pctx callerID funcArgs) xid)"
proof (intro conjI)
  show "debounced_keys_delayed db'"
    using sysdb_step_keys [OF assms(1,2)] assms(3) by (auto simp: debounced_keys_delayed_def list_all_iff)
  show "key_ok (new_status_row now (debounced_status a (debounced_options cfg debounceKey period fmt) deadline v) None)"
    using assms(4) by (simp add: key_ok_def new_status_row_def debounced_status_def enqueue_status_def debounced_options_def client_delay_def Let_def)
  show "key_ok (new_status_row now (start_status now g executorID w wfname cls
      (start_params target (debounced_start cfg debounceKey period now pinned) ctx uuid wfDeadline) pctx callerID funcArgs) xid)"
    using assms(4) by (simp add: key_ok_def new_status_row_def start_status_def start_params_def debounced_start_def start_delay_def no_enqueue_options_def Let_def
        coalesce_opt_def split: option.splits)
qed

subsection \<open>An example\<close>

definition example_start :: StartWorkflowParams where
  "example_start = \<lparr>sp_workflowID = None, sp_queueName = Some ''q'', sp_timeoutMS = None, sp_enqueueOptions = no_enqueue_options,
     sp_returnExisting = False, sp_workflowAttributes = None\<rparr>"

definition example_debouncer :: DebouncerParams where
  "example_debouncer = \<lparr>bp_workflowName = ''checkout'', bp_workflowClassName = ''Shop'', bp_startWorkflowParams = example_start,
     bp_debounceTimeoutMs = Some 1000\<rparr>"

definition example_bounced :: sysdb where
  "example_bounced = example_db [(example_row ''w'' DELAYED)\<lparr>ws_deduplication_id := Some ''Shop.checkout-k'', ws_is_debounced := True,
     ws_delay_until_epoch_ms := Some 150, ws_debounce_deadline_epoch_ms := Some 600\<rparr>]"

lemma example_bounced_ok: "db_wf example_bounced" "debounce_ready example_bounced"
  by (simp add: example_bounced_def unique_key_def)
    (simp add: example_bounced_def debounce_ready_def debounced_keys_delayed_def key_ok_def)

lemma example_options_accepted: "rejectConflictingOptions (bp_startWorkflowParams example_debouncer) = None"
  by (simp add: rejectConflictingOptions_def example_debouncer_def example_start_def no_enqueue_options_def Let_def)

theorem debounce_settles_witness:
  "\<exists>r db'. DebouncerClient_debounce 2 (\<lambda>_. example_api 200) (\<lambda>_ db. db) example_debouncer None ''k'' 500 [JsNum 1] example_bounced = Some (r, db') \<and>
     (\<forall>w. r = Inr w \<longrightarrow> w \<in> workflow_ids db')"
proof -
  have "(\<forall>n db. db_wf db \<and> debounce_ready db \<longrightarrow> db_wf ((\<lambda>_ db. db) (n::nat) db) \<and> debounce_ready ((\<lambda>_ db. db) n db))" "(1::nat) < 2" "0 < (500::int)" by simp_all
  from debounce_settles [where others = "\<lambda>_ db. db", OF this(1) example_bounced_ok this(2) refl refl this(3) example_options_accepted]
  show ?thesis by fastforce
qed

theorem debounce_coalesces_witness:
  "\<exists>db'. DebouncerClient_debounce 1 (\<lambda>_. example_api 200) (\<lambda>_ db. db) example_debouncer None ''k'' 500 [JsNum 1] example_bounced = Some (Inr ''w'', db') \<and>
     map ws_delay_until_epoch_ms (t_workflow_status db') = [Some 600]"
proof -
  have "\<not> isl (serializeArgs (ae_ser (example_api 200)) [JsNum 1] None None)" by code_simp
  then obtain v where v: "serializeArgs (ae_ser (example_api 200)) [JsNum 1] None None = Inr v"
    by (cases "serializeArgs (ae_ser (example_api 200)) [JsNum 1] None None") auto
  let ?p = "bounce_params example_debouncer ''k'' (ae_now (example_api 200) + 500) (sv_serializedValue v) (sv_serialization v)"
  let ?h = "(example_row ''w'' DELAYED)\<lparr>ws_deduplication_id := Some ''Shop.checkout-k'', ws_is_debounced := True,
     ws_delay_until_epoch_ms := Some 150, ws_debounce_deadline_epoch_ms := Some 600\<rparr>"
  have "rejectConflictingOptions (bp_startWorkflowParams example_debouncer) = None"
    "validateWorkflowAttributes (sp_workflowAttributes (bp_startWorkflowParams example_debouncer)) = None"
    "coalesce (sp_workflowID (bp_startWorkflowParams example_debouncer)) (ae_uuid (example_api 200)) \<notin> workflow_ids example_bounced"
    by (simp_all add: rejectConflictingOptions_def example_debouncer_def example_start_def no_enqueue_options_def validateWorkflowAttributes_def
        example_api_def workflow_ids_def example_bounced_def Let_def)
  note run = debounce_coalesces [where envs = "\<lambda>_. example_api 200" and others = "\<lambda>_ db. db" and period = 500 and fuel = 0,
      OF example_bounced_ok _ this(1,2) v refl refl this(3) refl refl]
  have h: "holds_key ?p ?h" "bounceable ?p ?h"
    by (simp_all add: holds_key_def bounceable_def bounce_params_def debounce_queue_def debounce_id_def example_debouncer_def example_start_def)
  then have rows: "filter (holds_key ?p) (t_workflow_status example_bounced) = [?h]" by (simp add: example_bounced_def)
  from run [of "''k''", unfolded rows] h(2) show ?thesis
    by (auto simp: example_bounced_def bounce_row_def bounce_params_def example_api_def)
qed

end
