(* ===== verification/Conductor_Connection.thy ===== *)
theory Conductor_Connection
  imports DBOS_Prelude
begin

text \<open>
  The connection of an application to the conductor (\<open>src/conductor/conductor.ts\<close>, the class \<open>Conductor\<close> without its requests): a websocket that is
  pinged and opened again when it is lost.

  Sockets are numbered in the order of their creation. Every one of them keeps its handlers after it has been replaced, and its
  state is what the library \<open>ws\<close> reports. A timer is \<open>Unset\<close> (the variable is \<open>undefined\<close>), \<open>Armed\<close>, or \<open>Spent\<close>: fired or cleared, but
  with the variable still set. The events are the callbacks of the sockets and of the timers.
\<close>

section \<open>The state\<close>

datatype ready_state = CONNECTING | OPEN | CLOSING | CLOSED
datatype timer = Unset | Armed | Spent

record conductor =
  cn_sockets :: "ready_state list"
  cn_websocket :: "nat option"
  cn_isShuttingDown :: bool
  cn_isClosed :: bool
  cn_reconnectTimeout :: timer
  cn_interval :: "nat set"
  cn_timeout :: "nat set"
  cn_ping :: "nat option"

text \<open>\<open>cn_interval\<close> and \<open>cn_timeout\<close> are the sockets whose ping interval and ping timeout run, \<open>cn_ping\<close> is \<open>pingIntervalTimeout\<close>.\<close>

definition new_Conductor :: conductor where
  "new_Conductor = \<lparr>cn_sockets = [], cn_websocket = None, cn_isShuttingDown = False, cn_isClosed = False, cn_reconnectTimeout = Unset,
     cn_interval = {}, cn_timeout = {}, cn_ping = None\<rparr>"

definition clear_ping :: "nat option \<Rightarrow> conductor \<Rightarrow> conductor" where
  "clear_ping p s = (case p of None \<Rightarrow> s | Some i \<Rightarrow> s\<lparr>cn_interval := cn_interval s - {i}, cn_timeout := cn_timeout s - {i}\<rparr>)"

text \<open>\<open>terminate()\<close> and \<open>close()\<close> of the library: the socket is closing until its \<open>close\<close> event.\<close>

definition ws_terminate :: "nat \<Rightarrow> conductor \<Rightarrow> conductor" where
  "ws_terminate i s = (if i < length (cn_sockets s) \<and> cn_sockets s ! i \<noteq> CLOSED then s\<lparr>cn_sockets := (cn_sockets s)[i := CLOSING]\<rparr> else s)"

definition is_live :: "nat \<Rightarrow> conductor \<Rightarrow> bool" where
  "is_live i s = (i < length (cn_sockets s) \<and> (cn_sockets s ! i = OPEN \<or> cn_sockets s ! i = CONNECTING))"

section \<open>The methods\<close>

definition resetWebsocket :: "nat option \<Rightarrow> nat option \<Rightarrow> conductor \<Rightarrow> conductor" where
  "resetWebsocket currWebsocket currPing s =
     (let s1 = clear_ping currPing s;
          s2 = (case currWebsocket of
                  None \<Rightarrow> s1
                | Some i \<Rightarrow> (let s' = ws_terminate i s1 in if cn_websocket s' = Some i then s'\<lparr>cn_websocket := None\<rparr> else s'))
      in if cn_reconnectTimeout s2 \<noteq> Unset \<or> cn_isShuttingDown s2 then s2 else s2\<lparr>cn_reconnectTimeout := Armed\<rparr>)"

definition setPingInterval :: "nat \<Rightarrow> conductor \<Rightarrow> conductor" where
  "setPingInterval i s = (clear_ping (Some i) s)\<lparr>cn_interval := insert i (cn_interval s)\<rparr>"

text \<open>\<open>constructed\<close> says whether the constructor of the websocket succeeds.\<close>

definition cn_dispatchLoop :: "bool \<Rightarrow> conductor \<Rightarrow> conductor" where
  "cn_dispatchLoop constructed s =
     (if (case cn_websocket s of None \<Rightarrow> False | Some i \<Rightarrow> is_live i s) then s
      else (let s1 = (clear_ping (cn_ping s) s)\<lparr>cn_reconnectTimeout := Unset\<rparr> in
        if cn_isShuttingDown s1 then s1
        else if constructed then
          (let i = length (cn_sockets s1);
               s2 = s1\<lparr>cn_sockets := cn_sockets s1 @ [CONNECTING], cn_websocket := Some i\<rparr>
           in (setPingInterval i s2)\<lparr>cn_ping := Some i\<rparr>)
        else if cn_reconnectTimeout s1 = Unset then resetWebsocket (cn_websocket s1) (cn_ping s1) s1 else s1))"

definition cn_stop :: "conductor \<Rightarrow> conductor" where
  "cn_stop s =
     (let s1 = clear_ping (cn_ping s) (s\<lparr>cn_isShuttingDown := True\<rparr>);
          s2 = (if cn_reconnectTimeout s1 = Armed then s1\<lparr>cn_reconnectTimeout := Spent\<rparr> else s1);
          s3 = (case cn_websocket s2 of None \<Rightarrow> s2 | Some i \<Rightarrow> ws_terminate i s2)
      in s3\<lparr>cn_isClosed := True\<rparr>)"

section \<open>Events\<close>

datatype conn_event =
    Opened nat
  | Ponged nat
  | Received nat
  | Closed nat
  | UnexpectedResponse nat
  | Errored nat
  | PingInterval nat
  | PingTimeout nat
  | ReconnectTimeout bool
  | Stop

definition reset_unless_pending :: "nat \<Rightarrow> conductor \<Rightarrow> conductor" where
  "reset_unless_pending i s = (if cn_reconnectTimeout s = Unset then resetWebsocket (Some i) (Some i) s else s)"

fun on_event :: "conn_event \<Rightarrow> conductor \<Rightarrow> conductor" where
  "on_event (Opened i) s = s\<lparr>cn_sockets := (cn_sockets s)[i := OPEN], cn_timeout := cn_timeout s - {i}\<rparr>"
| "on_event (Ponged i) s = s\<lparr>cn_timeout := cn_timeout s - {i}\<rparr>"
| "on_event (Received i) s = s\<lparr>cn_timeout := cn_timeout s - {i}\<rparr>"
| "on_event (Closed i) s =
     (let s1 = s\<lparr>cn_sockets := (cn_sockets s)[i := CLOSED]\<rparr> in if cn_isShuttingDown s1 then s1 else reset_unless_pending i s1)"
| "on_event (UnexpectedResponse i) s = reset_unless_pending i s"
| "on_event (Errored i) s = reset_unless_pending i s"
| "on_event (PingInterval i) s = s\<lparr>cn_timeout := insert i (cn_timeout s)\<rparr>"
| "on_event (PingTimeout i) s =
     (let s1 = s\<lparr>cn_timeout := cn_timeout s - {i}\<rparr> in if cn_isShuttingDown s1 then s1 else reset_unless_pending i s1)"
| "on_event (ReconnectTimeout constructed) s = cn_dispatchLoop constructed (s\<lparr>cn_reconnectTimeout := Spent\<rparr>)"
| "on_event Stop s = cn_stop s"

text \<open>When an event can occur: what the library documents of a socket's events, and that timers fire only while they run.\<close>

fun enabled :: "conn_event \<Rightarrow> conductor \<Rightarrow> bool" where
  "enabled (Opened i) s = (i < length (cn_sockets s) \<and> cn_sockets s ! i = CONNECTING)"
| "enabled (Ponged i) s = (i < length (cn_sockets s) \<and> cn_sockets s ! i = OPEN)"
| "enabled (Received i) s = (i < length (cn_sockets s) \<and> cn_sockets s ! i = OPEN)"
| "enabled (Closed i) s = (i < length (cn_sockets s) \<and> cn_sockets s ! i \<noteq> CLOSED)"
| "enabled (UnexpectedResponse i) s = (i < length (cn_sockets s) \<and> cn_sockets s ! i \<noteq> OPEN)"
| "enabled (Errored i) s = (i < length (cn_sockets s) \<and> cn_sockets s ! i \<noteq> CLOSED)"
| "enabled (PingInterval i) s = (i \<in> cn_interval s)"
| "enabled (PingTimeout i) s = (i \<in> cn_timeout s)"
| "enabled (ReconnectTimeout _) s = (cn_reconnectTimeout s = Armed)"
| "enabled Stop s = True"

text \<open>An event of a socket that is lost is late when it arrives after another one has been opened.\<close>

fun late :: "conn_event \<Rightarrow> conductor \<Rightarrow> bool" where
  "late (Closed i) s = (cn_reconnectTimeout s = Unset \<and> cn_websocket s \<noteq> Some i)"
| "late (UnexpectedResponse i) s = (cn_reconnectTimeout s = Unset \<and> cn_websocket s \<noteq> Some i)"
| "late (Errored i) s = (cn_reconnectTimeout s = Unset \<and> cn_websocket s \<noteq> Some i)"
| "late _ s = False"

inductive conn_step :: "conductor \<Rightarrow> conductor \<Rightarrow> bool" where
  occurs: "enabled e s \<Longrightarrow> conn_step s (on_event e s)"

inductive timely_step :: "conductor \<Rightarrow> conductor \<Rightarrow> bool" where
  occurs: "enabled e s \<Longrightarrow> \<not> late e s \<Longrightarrow> timely_step s (on_event e s)"

inductive_cases conn_stepE: "conn_step s s'"
inductive_cases timely_stepE: "timely_step s s'"

definition launched :: "conductor \<Rightarrow> bool" where
  "launched s = (\<exists>constructed. s = cn_dispatchLoop constructed new_Conductor)"

section \<open>One connection at a time\<close>

definition live :: "conductor \<Rightarrow> nat set" where
  "live s = {i. is_live i s}"

lemma clear_ping_fields [simp]:
  "cn_sockets (clear_ping p s) = cn_sockets s" "cn_websocket (clear_ping p s) = cn_websocket s" "cn_ping (clear_ping p s) = cn_ping s"
  "cn_reconnectTimeout (clear_ping p s) = cn_reconnectTimeout s" "cn_isShuttingDown (clear_ping p s) = cn_isShuttingDown s"
  "cn_interval (clear_ping p s) = cn_interval s - set_option p" "cn_timeout (clear_ping p s) = cn_timeout s - set_option p"
  by (simp_all add: clear_ping_def split: option.splits)

lemma ws_terminate_fields [simp]:
  "length (cn_sockets (ws_terminate i s)) = length (cn_sockets s)" "cn_websocket (ws_terminate i s) = cn_websocket s"
  "cn_ping (ws_terminate i s) = cn_ping s" "cn_reconnectTimeout (ws_terminate i s) = cn_reconnectTimeout s"
  "cn_isShuttingDown (ws_terminate i s) = cn_isShuttingDown s" "cn_interval (ws_terminate i s) = cn_interval s"
  "cn_timeout (ws_terminate i s) = cn_timeout s" "live (ws_terminate i s) = live s - {i}"
  by (auto simp: ws_terminate_def live_def is_live_def nth_list_update)

lemma live_upd [simp]:
  "live (s\<lparr>cn_websocket := w\<rparr>) = live s" "live (s\<lparr>cn_reconnectTimeout := x\<rparr>) = live s" "live (s\<lparr>cn_timeout := y\<rparr>) = live s"
  "live (s\<lparr>cn_interval := y\<rparr>) = live s" "live (s\<lparr>cn_ping := p\<rparr>) = live s" "live (s\<lparr>cn_isShuttingDown := b\<rparr>) = live s"
  "live (s\<lparr>cn_isClosed := b\<rparr>) = live s" "live (clear_ping q s) = live s"
  by (simp_all add: live_def is_live_def)

lemma resetWebsocket_fields [simp]:
  "length (cn_sockets (resetWebsocket w p s)) = length (cn_sockets s)" "cn_ping (resetWebsocket w p s) = cn_ping s"
  "live (resetWebsocket w p s) = live s - set_option w"
  "cn_websocket (resetWebsocket w p s) = (if w \<noteq> None \<and> cn_websocket s = w then None else cn_websocket s)"
  "cn_reconnectTimeout (resetWebsocket w p s) = (if cn_reconnectTimeout s \<noteq> Unset \<or> cn_isShuttingDown s then cn_reconnectTimeout s else Armed)"
  "cn_isShuttingDown (resetWebsocket w p s) = cn_isShuttingDown s"
  "cn_interval (resetWebsocket w p s) = cn_interval s - set_option p" "cn_timeout (resetWebsocket w p s) = cn_timeout s - set_option p"
  by (auto simp: resetWebsocket_def Let_def split: option.splits)

text \<open>Only the current socket is open or being opened, and only the last one is pinged.\<close>

definition single :: "conductor \<Rightarrow> bool" where
  "single s = (live s \<subseteq> set_option (cn_websocket s) \<and> set_option (cn_websocket s) \<subseteq> {..<length (cn_sockets s)} \<and>
     cn_interval s \<union> cn_timeout s \<subseteq> set_option (cn_ping s) \<and> set_option (cn_ping s) \<subseteq> {..<length (cn_sockets s)})"

lemma single_reset: "single s \<Longrightarrow> single (resetWebsocket w p s)"
  by (auto simp: single_def)

lemma live_append: "live (s\<lparr>cn_sockets := cn_sockets s @ [CONNECTING], cn_websocket := w\<rparr>) = insert (length (cn_sockets s)) (live s)"
  by (auto simp: live_def is_live_def nth_append less_Suc_eq)

lemma current_live: "(case cn_websocket s of None \<Rightarrow> False | Some i \<Rightarrow> is_live i s) \<longleftrightarrow> set_option (cn_websocket s) \<inter> live s \<noteq> {}"
  by (auto simp: live_def split: option.splits)

text \<open>What \<open>dispatchLoop\<close> makes of the fields.\<close>

lemma dispatch_keeps: "set_option (cn_websocket s) \<inter> live s \<noteq> {} \<Longrightarrow> cn_dispatchLoop constructed s = s"
  unfolding cn_dispatchLoop_def current_live by simp

lemma dispatch_new:
  assumes "set_option (cn_websocket s) \<inter> live s = {}"
  shows "cn_dispatchLoop constructed s = (let s1 = (clear_ping (cn_ping s) s)\<lparr>cn_reconnectTimeout := Unset\<rparr> in
     if cn_isShuttingDown s then s1
     else if constructed then (setPingInterval (length (cn_sockets s))
       (s1\<lparr>cn_sockets := cn_sockets s @ [CONNECTING], cn_websocket := Some (length (cn_sockets s))\<rparr>))\<lparr>cn_ping := Some (length (cn_sockets s))\<rparr>
     else resetWebsocket (cn_websocket s) (cn_ping s) s1)"
  unfolding cn_dispatchLoop_def current_live using assms by (simp add: Let_def)

lemma single_dispatch:
  assumes "single s"
  shows "single (cn_dispatchLoop constructed s)"
proof (cases "set_option (cn_websocket s) \<inter> live s = {}")
  case True
  let ?s1 = "(clear_ping (cn_ping s) s)\<lparr>cn_reconnectTimeout := Unset\<rparr>" and ?n = "length (cn_sockets s)"
  have s1: "single ?s1" using assms by (auto simp: single_def)
  have "live s = {}" "cn_interval ?s1 = {}" "cn_timeout ?s1 = {}" using True assms by (auto simp: single_def)
  moreover have "live (?s1\<lparr>cn_sockets := cn_sockets s @ [CONNECTING], cn_websocket := Some ?n\<rparr>) = insert ?n (live s)"
    using live_append [of "Some ?n" ?s1] by simp
  ultimately have "single ((setPingInterval ?n (?s1\<lparr>cn_sockets := cn_sockets s @ [CONNECTING], cn_websocket := Some ?n\<rparr>))\<lparr>cn_ping := Some ?n\<rparr>)"
    by (auto simp: single_def setPingInterval_def)
  with s1 single_reset show ?thesis by (simp add: dispatch_new [OF True] Let_def)
qed (simp add: assms dispatch_keeps)

lemma single_new: "single new_Conductor"
  by (simp add: single_def new_Conductor_def live_def is_live_def)

lemma single_pending: "single s \<Longrightarrow> single (reset_unless_pending i s)"
  by (simp add: reset_unless_pending_def single_reset)

lemma live_closed: "live (s\<lparr>cn_sockets := (cn_sockets s)[i := CLOSED]\<rparr>) = live s - {i}"
  by (cases "i < length (cn_sockets s)") (auto simp: live_def is_live_def nth_list_update split: if_splits)

lemma live_opened: "i < length (cn_sockets s) \<Longrightarrow> cn_sockets s ! i = CONNECTING \<Longrightarrow>
  live (s\<lparr>cn_sockets := (cn_sockets s)[i := OPEN]\<rparr>) = live s"
  by (auto simp: live_def is_live_def nth_list_update)

lemma single_event: "enabled e s \<Longrightarrow> single s \<Longrightarrow> single (on_event e s)"
proof (cases e)
  case (Closed i)
  assume "single s"
  then have "single (s\<lparr>cn_sockets := (cn_sockets s)[i := CLOSED]\<rparr>)" by (auto simp: single_def live_closed)
  with Closed single_pending show ?thesis by (simp add: Let_def)
next
  case (PingTimeout i)
  assume "single s"
  then have "single (s\<lparr>cn_timeout := cn_timeout s - {i}\<rparr>)" by (auto simp: single_def)
  with PingTimeout single_pending show ?thesis by (simp add: Let_def)
next
  case (ReconnectTimeout c)
  assume "single s"
  then have "single (s\<lparr>cn_reconnectTimeout := Spent\<rparr>)" by (auto simp: single_def)
  with ReconnectTimeout single_dispatch show ?thesis by simp
next
  case Stop
  assume s: "single s"
  show ?thesis
  proof (cases "cn_websocket s")
    case None
    with s Stop show ?thesis by (auto simp: single_def cn_stop_def Let_def)
  next
    case (Some i)
    with s Stop show ?thesis by (auto simp: single_def cn_stop_def Let_def)
  qed
next
  case (Opened i)
  assume "enabled e s" "single s"
  with Opened show ?thesis by (auto simp: single_def live_opened)
next
  case (PingInterval i)
  assume "enabled e s" "single s"
  with PingInterval show ?thesis by (auto simp: single_def)
next
  case (UnexpectedResponse i)
  assume "single s" then show ?thesis by (simp add: UnexpectedResponse single_pending)
next
  case (Errored i)
  assume "single s" then show ?thesis by (simp add: Errored single_pending)
qed (auto simp: single_def)

section \<open>Connections come back\<close>

text \<open>
  While the connection is not being shut down, either there is a socket that is not closed yet, whose loss will be noticed, or the timer that opens
  the next one runs.
\<close>

definition watched :: "conductor \<Rightarrow> bool" where
  "watched s = (cn_isShuttingDown s \<or> cn_reconnectTimeout s = Armed \<and> cn_websocket s = None \<or>
     cn_reconnectTimeout s = Unset \<and> (\<exists>i. cn_websocket s = Some i \<and> cn_ping s = Some i \<and> i < length (cn_sockets s) \<and> cn_sockets s ! i \<noteq> CLOSED))"

lemma watched_reset: "cn_reconnectTimeout s = Unset \<Longrightarrow> cn_websocket s = Some i \<Longrightarrow> watched (resetWebsocket (Some i) p s)"
  by (simp add: watched_def)

lemma setPingInterval_fields [simp]:
  "cn_sockets (setPingInterval i s) = cn_sockets s" "cn_websocket (setPingInterval i s) = cn_websocket s"
  "cn_reconnectTimeout (setPingInterval i s) = cn_reconnectTimeout s" "cn_isShuttingDown (setPingInterval i s) = cn_isShuttingDown s"
  by (simp_all add: setPingInterval_def)

lemma watched_dispatch:
  assumes "cn_websocket s = None"
  shows "watched (cn_dispatchLoop constructed s)"
proof -
  have "set_option (cn_websocket s) \<inter> live s = {}" using assms by simp
  from dispatch_new [OF this, of constructed] assms show ?thesis by (simp add: Let_def watched_def)
qed

text \<open>An event of a lost socket, in time.\<close>

lemma watched_loss:
  assumes "watched s" and "cn_isShuttingDown s \<or> cn_reconnectTimeout s \<noteq> Unset \<or> cn_websocket s = Some i"
    and "t = s \<or> (\<exists>x. t = s\<lparr>cn_timeout := x\<rparr>) \<or> t = s\<lparr>cn_sockets := (cn_sockets s)[i := CLOSED]\<rparr>"
  shows "watched (reset_unless_pending i t)"
proof -
  have fields: "cn_reconnectTimeout t = cn_reconnectTimeout s" "cn_websocket t = cn_websocket s" "cn_isShuttingDown t = cn_isShuttingDown s"
    using assms(3) by auto
  show ?thesis
  proof (cases "cn_reconnectTimeout s = Unset \<and> \<not> cn_isShuttingDown s")
    case True
    with assms(2) fields show ?thesis by (simp add: reset_unless_pending_def watched_reset)
  next
    case False
    with assms(1) fields show ?thesis by (auto simp: reset_unless_pending_def watched_def)
  qed
qed

lemma dispatch_shutting [simp]: "cn_isShuttingDown (cn_dispatchLoop constructed s) = cn_isShuttingDown s"
  by (cases "set_option (cn_websocket s) \<inter> live s = {}") (simp_all add: dispatch_new dispatch_keeps Let_def)

lemma watched_event:
  assumes "enabled e s" and "\<not> late e s" and "watched s" and "single s"
  shows "watched (on_event e s)"
proof (cases "cn_isShuttingDown s")
  case True
  then show ?thesis by (cases e) (auto simp: watched_def Let_def reset_unless_pending_def cn_stop_def split: option.splits)
next
  case False
  note running = this
  show ?thesis
  proof (cases e)
    case (Closed i)
    then show ?thesis using watched_loss [OF assms(3), of i "s\<lparr>cn_sockets := (cn_sockets s)[i := CLOSED]\<rparr>"] assms(2) running
      by (auto simp: Let_def)
  next
    case (PingTimeout i)
    have "cn_reconnectTimeout s \<noteq> Unset \<or> cn_websocket s = Some i"
      using PingTimeout assms(1,3,4) running by (auto simp: watched_def single_def)
    then show ?thesis using PingTimeout watched_loss [OF assms(3), of i "s\<lparr>cn_timeout := cn_timeout s - {i}\<rparr>"] running
      by (auto simp: Let_def)
  next
    case (ReconnectTimeout c)
    then have "cn_websocket (s\<lparr>cn_reconnectTimeout := Spent\<rparr>) = None" using assms(1,3) running by (simp add: watched_def)
    from watched_dispatch [OF this, of c] ReconnectTimeout show ?thesis by simp
  next
    case (UnexpectedResponse i)
    then show ?thesis using watched_loss [OF assms(3), of i s] assms(2) by auto
  next
    case (Errored i)
    then show ?thesis using watched_loss [OF assms(3), of i s] assms(2) by auto
  next
    case (Opened i)
    then show ?thesis using assms(1,3) by (auto simp: watched_def nth_list_update)
  qed (use assms(3) in \<open>auto simp: watched_def cn_stop_def Let_def split: option.splits\<close>)
qed

definition connected_ok :: "conductor \<Rightarrow> bool" where
  "connected_ok s = (single s \<and> watched s)"

interpretation connection: invariant_system launched timely_step connected_ok
proof
  show "launched s \<Longrightarrow> connected_ok s" for s
    using single_dispatch [OF single_new] watched_dispatch [of new_Conductor] by (auto simp: launched_def connected_ok_def new_Conductor_def)
  show "timely_step s s' \<Longrightarrow> connected_ok s \<Longrightarrow> connected_ok s'" for s s'
    by (auto simp: connected_ok_def single_event watched_event elim: timely_stepE)
qed

interpretation sockets: invariant_system launched conn_step single
proof
  show "launched s \<Longrightarrow> single s" for s using single_dispatch [OF single_new] by (auto simp: launched_def)
  show "conn_step s s' \<Longrightarrow> single s \<Longrightarrow> single s'" for s s' by (auto simp: single_event elim: conn_stepE)
qed

text \<open>C25: the connection to the conductor is kept. There is never more than one socket that is open or being opened, and it is the current one,
  whatever order events arrive in. As long as no event of a lost socket arrives after the next one has been opened, and the connection is not being shut down,
  there is a current socket that is not closed or the timer that opens the next one runs; when that timer fires, a new socket is
  opened or, if that fails, the timer is set again.\<close>

theorem conductor_connection_kept:
  assumes "launched s"
  shows "(\<forall>s'. conn_step\<^sup>*\<^sup>* s s' \<longrightarrow> (\<forall>i. is_live i s' \<longrightarrow> cn_websocket s' = Some i)) \<and>
    (\<forall>s'. timely_step\<^sup>*\<^sup>* s s' \<and> \<not> cn_isShuttingDown s' \<longrightarrow>
      (\<exists>i. cn_websocket s' = Some i \<and> cn_sockets s' ! i \<noteq> CLOSED) \<or>
      (\<forall>constructed. enabled (ReconnectTimeout constructed) s' \<and>
        (if constructed then is_live (length (cn_sockets s')) (on_event (ReconnectTimeout constructed) s')
         else enabled (ReconnectTimeout True) (on_event (ReconnectTimeout constructed) s'))))"
proof (intro conjI allI impI)
  fix s' i assume "conn_step\<^sup>*\<^sup>* s s'" and "is_live i s'"
  moreover from this have "single s'" using sockets.reachable_inv [OF assms] by blast
  ultimately show "cn_websocket s' = Some i" by (auto simp: single_def live_def)
next
  fix s' assume s': "timely_step\<^sup>*\<^sup>* s s' \<and> \<not> cn_isShuttingDown s'"
  then have w: "watched s'" using connection.reachable_inv [OF assms] by (auto simp: connected_ok_def)
  show "(\<exists>i. cn_websocket s' = Some i \<and> cn_sockets s' ! i \<noteq> CLOSED) \<or>
      (\<forall>constructed. enabled (ReconnectTimeout constructed) s' \<and>
        (if constructed then is_live (length (cn_sockets s')) (on_event (ReconnectTimeout constructed) s')
         else enabled (ReconnectTimeout True) (on_event (ReconnectTimeout constructed) s')))"
  proof (cases "cn_websocket s' = None")
    case True
    then have "set_option (cn_websocket (s'\<lparr>cn_reconnectTimeout := Spent\<rparr>)) \<inter> live (s'\<lparr>cn_reconnectTimeout := Spent\<rparr>) = {}" by simp
    note new = dispatch_new [OF this]
    show ?thesis using True w s' by (simp add: new watched_def is_live_def Let_def)
  qed (use w s' in \<open>auto simp: watched_def\<close>)
qed

theorem conductor_connection_kept_witness:
  "cn_websocket (on_event (ReconnectTimeout True) (on_event (Errored 0) (cn_dispatchLoop True new_Conductor))) = Some 1"
proof -
  let ?s = "cn_dispatchLoop True new_Conductor" and ?lost = "on_event (Errored 0) (cn_dispatchLoop True new_Conductor)"
  have s: "?s = \<lparr>cn_sockets = [CONNECTING], cn_websocket = Some 0, cn_isShuttingDown = False, cn_isClosed = False, cn_reconnectTimeout = Unset,
     cn_interval = {0}, cn_timeout = {}, cn_ping = Some 0\<rparr>"
    by (simp add: cn_dispatchLoop_def new_Conductor_def setPingInterval_def clear_ping_def Let_def)
  have lost: "cn_websocket ?lost = None" "length (cn_sockets ?lost) = 1" "\<not> cn_isShuttingDown ?lost"
    unfolding s by (simp_all add: reset_unless_pending_def)
  have launched: "launched ?s" unfolding launched_def by blast
  have "enabled (Errored 0) ?s" "\<not> late (Errored 0) ?s" unfolding s by simp_all
  then have "timely_step\<^sup>*\<^sup>* ?s ?lost" by (intro r_into_rtranclp timely_step.occurs)
  with lost(3) conductor_connection_kept [OF launched, THEN conjunct2, THEN spec, of ?lost]
  have "\<forall>c. enabled (ReconnectTimeout c) ?lost \<and>
      (if c then is_live (length (cn_sockets ?lost)) (on_event (ReconnectTimeout c) ?lost)
       else enabled (ReconnectTimeout True) (on_event (ReconnectTimeout c) ?lost))"
    unfolding lost(1) by blast
  from spec [OF this, of True]
  have up: "enabled (ReconnectTimeout True) ?lost" "is_live (length (cn_sockets ?lost)) (on_event (ReconnectTimeout True) ?lost)"
    unfolding if_True by blast+
  have "conn_step\<^sup>*\<^sup>* ?s (on_event (ReconnectTimeout True) ?lost)"
    using conn_step.occurs [OF \<open>enabled (Errored 0) ?s\<close>] conn_step.occurs [OF up(1)] by (meson converse_rtranclp_into_rtranclp r_into_rtranclp)
  with conductor_connection_kept [OF launched, THEN conjunct1] up(2) show ?thesis unfolding lost(2) by blast
qed

section \<open>A late event\<close>

fun run_events :: "conn_event list \<Rightarrow> conductor \<Rightarrow> conductor option" where
  "run_events [] s = Some s"
| "run_events (e # es) s = (if enabled e s then run_events es (on_event e s) else None)"

text \<open>The variable of a timer that has fired is still set: no handler sets the timer again, and no socket is opened.\<close>

definition wedged :: "nat \<Rightarrow> conductor \<Rightarrow> bool" where
  "wedged n s = (cn_reconnectTimeout s = Spent \<and> length (cn_sockets s) = n)"

lemma wedged_event: "enabled e s \<Longrightarrow> wedged n s \<Longrightarrow> wedged n (on_event e s)"
  by (cases e) (auto simp: wedged_def reset_unless_pending_def cn_stop_def Let_def split: option.splits)

lemma wedged_run: "conn_step\<^sup>*\<^sup>* s s' \<Longrightarrow> wedged n s \<Longrightarrow> wedged n s'"
  by (induction rule: rtranclp_induct) (auto simp: wedged_event elim: conn_stepE)

lemma fires_while_live:
  assumes "cn_websocket t = Some j" and "is_live j t"
  shows "wedged (length (cn_sockets t)) (on_event (ReconnectTimeout constructed) t)"
proof -
  have "set_option (cn_websocket (t\<lparr>cn_reconnectTimeout := Spent\<rparr>)) \<inter> live (t\<lparr>cn_reconnectTimeout := Spent\<rparr>) \<noteq> {}"
    using assms by (auto simp: live_def is_live_def)
  from dispatch_keeps [OF this] show ?thesis by (simp add: wedged_def)
qed

lemma late_event_arms:
  assumes "late e s" and "cn_websocket s = Some j" and "is_live j s" and "\<not> cn_isShuttingDown s"
  shows "cn_websocket (on_event e s) = Some j \<and> is_live j (on_event e s) \<and> cn_reconnectTimeout (on_event e s) = Armed"
proof -
  have "j \<in> live s" using assms(3) by (simp add: live_def)
  then have "j \<in> live (on_event e s)" using assms by (cases e) (auto simp: reset_unless_pending_def live_closed Let_def)
  then show ?thesis using assms by (cases e) (auto simp: reset_unless_pending_def live_def Let_def)
qed

text \<open>C26: one late event can end reconnecting for good. When the \<open>close\<close> or \<open>error\<close> event of a lost socket, or its unexpected response, arrives while
  the next socket is open or being opened, the timer to reconnect is armed again beside that socket. If the socket is still there when the
  timer fires, \<open>dispatchLoop\<close> returns because a websocket exists, and does so before it resets \<open>reconnectTimeout\<close>. From then on every handler takes a
  reconnect to be pending: whatever happens, also when the socket is lost, the timer is never set and no socket is ever opened again.
  (If the socket is lost before the timer fires, the timer opens the next one.)\<close>

theorem late_event_ends_reconnecting:
  assumes "late e s" and "cn_websocket s = Some j" and "is_live j s" and "\<not> cn_isShuttingDown s"
  shows "cn_websocket (on_event e s) = Some j \<and> is_live j (on_event e s) \<and> enabled (ReconnectTimeout constructed) (on_event e s) \<and>
    (\<forall>t c u. conn_step\<^sup>*\<^sup>* (on_event e s) t \<and> cn_websocket t = Some j \<and> is_live j t \<and> enabled (ReconnectTimeout c) t \<and>
       conn_step\<^sup>*\<^sup>* (on_event (ReconnectTimeout c) t) u \<longrightarrow>
       cn_reconnectTimeout u = Spent \<and> length (cn_sockets u) = length (cn_sockets t))"
  using late_event_arms [OF assms] wedged_run fires_while_live by (fastforce simp: wedged_def)

text \<open>The ping of socket 0 times out and socket 1 is opened; then the \<open>close\<close> event of socket 0 arrives, the timer fires, and socket 1 is lost.\<close>

definition second_socket :: conductor where
  "second_socket = \<lparr>cn_sockets = [CLOSING, OPEN], cn_websocket = Some 1, cn_isShuttingDown = False, cn_isClosed = False, cn_reconnectTimeout = Unset,
     cn_interval = {1}, cn_timeout = {}, cn_ping = Some 1\<rparr>"

theorem late_event_ends_reconnecting_witness:
  "run_events [PingInterval 0, PingTimeout 0, ReconnectTimeout True, Opened 1] (cn_dispatchLoop True new_Conductor) = Some second_socket \<and>
   (\<exists>s'. run_events [Closed 0, ReconnectTimeout True, Closed 1] second_socket = Some s' \<and> cn_sockets s' = [CLOSED, CLOSED] \<and> \<not> cn_isShuttingDown s' \<and>
     {u. conn_step\<^sup>*\<^sup>* s' u} \<subseteq> {u. cn_reconnectTimeout u = Spent \<and> length (cn_sockets u) = 2})"
proof -
  note events = cn_dispatchLoop_def setPingInterval_def clear_ping_def reset_unless_pending_def resetWebsocket_def ws_terminate_def is_live_def Let_def
  let ?t = "on_event (Closed 0) second_socket"
  let ?w = "on_event (ReconnectTimeout True) ?t"
  have "late (Closed 0) second_socket" "cn_websocket second_socket = Some 1" "is_live 1 second_socket" "\<not> cn_isShuttingDown second_socket"
    by (simp_all add: second_socket_def is_live_def)
  note late = late_event_ends_reconnecting [OF this, of True]
  have "run_events [PingInterval 0, PingTimeout 0, ReconnectTimeout True, Opened 1] (cn_dispatchLoop True new_Conductor) = Some second_socket"
    by (simp add: events new_Conductor_def second_socket_def)
  moreover have "run_events [Closed 0, ReconnectTimeout True, Closed 1] second_socket = Some (on_event (Closed 1) ?w)"
    "cn_sockets (on_event (Closed 1) ?w) = [CLOSED, CLOSED]" "\<not> cn_isShuttingDown (on_event (Closed 1) ?w)" "length (cn_sockets ?t) = 2" "enabled (Closed 1) ?w"
    by (simp_all add: events second_socket_def)
  moreover have "conn_step\<^sup>*\<^sup>* ?w u" if "conn_step\<^sup>*\<^sup>* (on_event (Closed 1) ?w) u" for u
    using that conn_step.occurs [OF calculation(6)] by (meson converse_rtranclp_into_rtranclp)
  ultimately show ?thesis using late by fastforce
qed

end
