(* ===== verification/Aggregates.thy ===== *)
theory Aggregates
  imports SysDB_Query "HOL-Library.Signed_Division"
begin

text \<open>
  Aggregates over workflows and steps, and metrics (\<open>getWorkflowAggregates\<close>, \<open>getStepAggregates\<close> and \<open>getMetrics\<close> of
  \<open>src/system_database.ts\<close>). \<open>GROUP BY\<close> is \<open>group_rows\<close>; SQL leaves the order of the groups open, the model takes that of their first rows.
\<close>

section \<open>Grouping\<close>

definition group_rows :: "('r \<Rightarrow> 'k) \<Rightarrow> 'r list \<Rightarrow> ('k \<times> 'r list) list" where
  "group_rows key rows = map (\<lambda>k. (k, filter (\<lambda>r. key r = k) rows)) (remdups (map key rows))"

type_synonym agg_group = "(string \<times> string option) list"

text \<open>Groups that are switched on, with their names.\<close>

definition grouped :: "(string \<times> bool \<times> ('r \<Rightarrow> string option)) list \<Rightarrow> 'r \<Rightarrow> agg_group" where
  "grouped flags r = map (\<lambda>(name, _, column). (name, column r)) (filter (\<lambda>(_, enabled, _). enabled) flags)"

text \<open>\<open>CAST(FLOOR(t / bucket) AS BIGINT) * bucket\<close> on integers: the division of the database rounds towards zero.\<close>

definition time_bucket :: "int \<Rightarrow> int \<Rightarrow> int" where
  "time_bucket bucket t = (t sdiv bucket) * bucket"

definition bucket_flag :: "int option \<Rightarrow> ('r \<Rightarrow> int option) \<Rightarrow> string \<times> bool \<times> ('r \<Rightarrow> string option)" where
  "bucket_flag bucketSize time = (''time_bucket'', bucketSize \<noteq> None, \<lambda>r. map_option (\<lambda>t. show_int (time_bucket (coalesce bucketSize 1) t)) (time r))"

definition check_aggregate :: "int option \<Rightarrow> (string \<times> bool \<times> 'x) list \<Rightarrow> bool list \<Rightarrow> dbos_error option" where
  "check_aggregate bucketSize groups selects =
     (if (case bucketSize of None \<Rightarrow> False | Some n \<Rightarrow> n \<le> 0) then Some (PlainError ''time_bucket_size_ms must be > 0'')
      else if list_all (\<lambda>(_, enabled, _). \<not> enabled) groups then Some (PlainError ''At least one group_by flag must be set to True'')
      else if True \<notin> set selects then Some (PlainError ''At least one select_ flag must be set to True'')
      else None)"

definition select_when :: "bool \<Rightarrow> int option \<Rightarrow> int option" where
  "select_when selected v = (if selected then v else None)"

text \<open>\<open>addFilter\<close> of the aggregates: an empty list filters nothing.\<close>

definition list_filter :: "('r \<Rightarrow> string option) \<Rightarrow> string list option \<Rightarrow> 'r \<Rightarrow> bool" where
  "list_filter column values r = (case values of Some (v # vs) \<Rightarrow> column r \<in> Some ` set (v # vs) | _ \<Rightarrow> True)"

definition list_prefix_filter :: "('r \<Rightarrow> string) \<Rightarrow> string list option \<Rightarrow> 'r \<Rightarrow> bool" where
  "list_prefix_filter column ps r = (case ps of Some (p # ps') \<Rightarrow> \<exists>q\<in>set (p # ps'). sql_like (q @ ''%'') (column r) | _ \<Rightarrow> True)"

section \<open>Workflows\<close>

record GetWorkflowAggregatesInput =
  wi_groupByStatus :: bool
  wi_groupByName :: bool
  wi_groupByQueueName :: bool
  wi_groupByExecutorId :: bool
  wi_groupByApplicationVersion :: bool
  wi_selectCount :: bool
  wi_selectMinCreatedAt :: bool
  wi_selectMaxQueueWaitMs :: bool
  wi_selectMaxTotalLatencyMs :: bool
  wi_timeBucketSizeMs :: "int option"
  wi_status :: "string list option"
  wi_startTime :: "int option"
  wi_endTime :: "int option"
  wi_completedAfter :: "int option"
  wi_completedBefore :: "int option"
  wi_dequeuedAfter :: "int option"
  wi_dequeuedBefore :: "int option"
  wi_name :: "string list option"
  wi_appVersion :: "string list option"
  wi_executorId :: "string list option"
  wi_queueName :: "string list option"
  wi_workflowIdPrefix :: "string list option"
  wi_workflowIDs :: "string list option"
  wi_authenticatedUser :: "string list option"
  wi_forkedFrom :: "string list option"
  wi_wasForkedFrom :: "bool option"
  wi_parentWorkflowID :: "string list option"
  wi_hasParent :: "bool option"
  wi_queuesOnly :: bool
  wi_attributes :: "(string \<times> json) list option"
  wi_scheduleName :: "string list option"

record WorkflowAggregateRow =
  ag_group :: agg_group
  ag_count :: "int option"
  ag_minCreatedAt :: "int option"
  ag_maxQueueWaitMs :: "int option"
  ag_maxTotalLatencyMs :: "int option"

definition aggregate_matches :: "GetWorkflowAggregatesInput \<Rightarrow> workflow_status \<Rightarrow> bool" where
  "aggregate_matches wi r =
     (list_filter (Some \<circ> status_string \<circ> ws_status) (wi_status wi) r \<and>
      list_filter (Some \<circ> ws_name) (wi_name wi) r \<and>
      list_filter ws_application_version (wi_appVersion wi) r \<and>
      list_filter ws_executor_id (wi_executorId wi) r \<and>
      list_filter ws_queue_name (wi_queueName wi) r \<and>
      list_prefix_filter ws_workflow_uuid (wi_workflowIdPrefix wi) r \<and>
      list_filter (Some \<circ> ws_workflow_uuid) (wi_workflowIDs wi) r \<and>
      list_filter ws_authenticated_user (wi_authenticatedUser wi) r \<and>
      list_filter ws_forked_from (wi_forkedFrom wi) r \<and>
      list_filter ws_parent_workflow_id (wi_parentWorkflowID wi) r \<and>
      list_filter ws_schedule_name (wi_scheduleName wi) r \<and>
      (wi_queuesOnly wi \<longrightarrow> ws_queue_name r \<noteq> None \<and> ws_status r \<in> {ENQUEUED, PENDING, DELAYED}) \<and>
      (case wi_wasForkedFrom wi of None \<Rightarrow> True | Some b \<Rightarrow> ws_was_forked_from r = b) \<and>
      (case wi_hasParent wi of None \<Rightarrow> True | Some b \<Rightarrow> (ws_parent_workflow_id r \<noteq> None) = b) \<and>
      (case wi_attributes wi of
         Some (a # as) \<Rightarrow> (case ws_attributes r of None \<Rightarrow> False | Some j \<Rightarrow> jsonb_contains j (JObj (a # as)))
       | _ \<Rightarrow> True) \<and>
      at_least (wi_startTime wi) (Some (ws_created_at r)) \<and> at_most (wi_endTime wi) (Some (ws_created_at r)) \<and>
      at_least (wi_completedAfter wi) (ws_completed_at r) \<and> at_most (wi_completedBefore wi) (ws_completed_at r) \<and>
      at_least (wi_dequeuedAfter wi) (ws_started_at_epoch_ms r) \<and> at_most (wi_dequeuedBefore wi) (ws_started_at_epoch_ms r))"

definition workflow_groups :: "GetWorkflowAggregatesInput \<Rightarrow> (string \<times> bool \<times> (workflow_status \<Rightarrow> string option)) list" where
  "workflow_groups wi = [(''status'', wi_groupByStatus wi, Some \<circ> status_string \<circ> ws_status), (''name'', wi_groupByName wi, Some \<circ> ws_name),
     (''queue_name'', wi_groupByQueueName wi, ws_queue_name), (''executor_id'', wi_groupByExecutorId wi, ws_executor_id),
     (''application_version'', wi_groupByApplicationVersion wi, ws_application_version),
     bucket_flag (wi_timeBucketSizeMs wi) (Some \<circ> ws_created_at)]"

definition workflow_aggregate :: "GetWorkflowAggregatesInput \<Rightarrow> agg_group \<times> workflow_status list \<Rightarrow> WorkflowAggregateRow" where
  "workflow_aggregate wi = (\<lambda>(group, rows). \<lparr>ag_group = group,
     ag_count = select_when (wi_selectCount wi) (Some (int (length rows))),
     ag_minCreatedAt = select_when (wi_selectMinCreatedAt wi) (sql_min (map ws_created_at rows)),
     ag_maxQueueWaitMs = select_when (wi_selectMaxQueueWaitMs wi)
       (sql_max (List.map_filter (\<lambda>r. map_option (\<lambda>t. t - ws_created_at r) (ws_started_at_epoch_ms r)) rows)),
     ag_maxTotalLatencyMs = select_when (wi_selectMaxTotalLatencyMs wi)
       (sql_max (List.map_filter (\<lambda>r. map_option (\<lambda>t. t - ws_created_at r) (ws_completed_at r)) rows))\<rparr>)"

definition getWorkflowAggregates :: "GetWorkflowAggregatesInput \<Rightarrow> WorkflowAggregateRow list db_op" where
  "getWorkflowAggregates wi db =
     (case check_aggregate (wi_timeBucketSizeMs wi) (workflow_groups wi)
         [wi_selectCount wi, wi_selectMinCreatedAt wi, wi_selectMaxQueueWaitMs wi, wi_selectMaxTotalLatencyMs wi] of
        Some e \<Rightarrow> (Inl e, db)
      | None \<Rightarrow> (Inr (map (workflow_aggregate wi)
          (group_rows (grouped (workflow_groups wi)) (filter (aggregate_matches wi) (t_workflow_status db)))), db))"

section \<open>Steps\<close>

record GetStepAggregatesInput =
  ti_groupByFunctionName :: bool
  ti_groupByStatus :: bool
  ti_selectCount :: bool
  ti_selectMaxDurationMs :: bool
  ti_timeBucketSizeMs :: "int option"
  ti_status :: "string list option"
  ti_functionName :: "string list option"
  ti_workflowIdPrefix :: "string list option"
  ti_completedAfter :: "int option"
  ti_completedBefore :: "int option"

record StepAggregateRow =
  sa_group :: agg_group
  sa_count :: "int option"
  sa_maxDurationMs :: "int option"

definition step_status :: "operation_outputs \<Rightarrow> string" where
  "step_status r = (if oo_error r = None then ''SUCCESS'' else ''ERROR'')"

definition step_matches :: "GetStepAggregatesInput \<Rightarrow> operation_outputs \<Rightarrow> bool" where
  "step_matches ti r =
     (list_filter (Some \<circ> step_status) (ti_status ti) r \<and> list_filter (Some \<circ> oo_function_name) (ti_functionName ti) r \<and>
      list_prefix_filter oo_workflow_uuid (ti_workflowIdPrefix ti) r \<and>
      at_least (ti_completedAfter ti) (oo_completed_at_epoch_ms r) \<and> at_most (ti_completedBefore ti) (oo_completed_at_epoch_ms r))"

definition step_groups :: "GetStepAggregatesInput \<Rightarrow> (string \<times> bool \<times> (operation_outputs \<Rightarrow> string option)) list" where
  "step_groups ti = [(''function_name'', ti_groupByFunctionName ti, Some \<circ> oo_function_name), (''status'', ti_groupByStatus ti, Some \<circ> step_status),
     bucket_flag (ti_timeBucketSizeMs ti) oo_completed_at_epoch_ms]"

definition step_duration :: "operation_outputs \<Rightarrow> int option" where
  "step_duration r = (case (oo_completed_at_epoch_ms r, oo_started_at_epoch_ms r) of (Some c, Some s) \<Rightarrow> Some (c - s) | _ \<Rightarrow> None)"

definition step_aggregate :: "GetStepAggregatesInput \<Rightarrow> agg_group \<times> operation_outputs list \<Rightarrow> StepAggregateRow" where
  "step_aggregate ti = (\<lambda>(group, rows). \<lparr>sa_group = group, sa_count = select_when (ti_selectCount ti) (Some (int (length rows))),
     sa_maxDurationMs = select_when (ti_selectMaxDurationMs ti) (sql_max (List.map_filter step_duration rows))\<rparr>)"

definition getStepAggregates :: "GetStepAggregatesInput \<Rightarrow> StepAggregateRow list db_op" where
  "getStepAggregates ti db =
     (case check_aggregate (ti_timeBucketSizeMs ti) (step_groups ti) [ti_selectCount ti, ti_selectMaxDurationMs ti] of
        Some e \<Rightarrow> (Inl e, db)
      | None \<Rightarrow> (Inr (map (step_aggregate ti) (group_rows (grouped (step_groups ti)) (filter (step_matches ti) (t_operation_outputs db)))), db))"

section \<open>Metrics\<close>

record MetricData =
  md_metricType :: string
  md_metricName :: string
  md_value :: int

definition count_by :: "string \<Rightarrow> ('r \<Rightarrow> string) \<Rightarrow> 'r list \<Rightarrow> MetricData list" where
  "count_by metricType name rows =
     map (\<lambda>(n, rs). \<lparr>md_metricType = metricType, md_metricName = n, md_value = int (length rs)\<rparr>) (group_rows name rows)"

definition getMetrics :: "int \<Rightarrow> int \<Rightarrow> sysdb \<Rightarrow> MetricData list" where
  "getMetrics startEpochMs endEpochMs db =
     count_by ''workflow_count'' ws_name (filter (\<lambda>r. startEpochMs \<le> ws_created_at r \<and> ws_created_at r < endEpochMs) (t_workflow_status db)) @
     count_by ''step_count'' oo_function_name
       (filter (\<lambda>r. case oo_completed_at_epoch_ms r of None \<Rightarrow> False | Some t \<Rightarrow> startEpochMs \<le> t \<and> t < endEpochMs) (t_operation_outputs db))"

section \<open>Aggregates and listings agree\<close>

lemma group_rows_keys: "distinct (map fst (group_rows key rows))" "set (map fst (group_rows key rows)) = key ` set rows"
  by (simp_all add: group_rows_def comp_def)

lemma group_rows_mem: "(k, rs) \<in> set (group_rows key rows) \<longleftrightarrow> k \<in> key ` set rows \<and> rs = filter (\<lambda>r. key r = k) rows"
  by (auto simp: group_rows_def)

text \<open>The groups are a partition of the rows.\<close>

lemma sum_over_keys:
  assumes "distinct ks" and "key ` set rows \<subseteq> set ks"
  shows "(\<Sum>k\<leftarrow>ks. length (filter (\<lambda>r. key r = k) rows)) = length rows"
  using assms(2)
proof (induction rows)
  case (Cons r rows)
  have "(\<Sum>k\<leftarrow>ks. length (filter (\<lambda>r. key r = k) (r # rows))) =
      (\<Sum>k\<leftarrow>ks. (if key r = k then 1 else 0) + length (filter (\<lambda>r. key r = k) rows))"
    by (rule arg_cong [where f = sum_list]) simp
  also have "\<dots> = (\<Sum>k\<leftarrow>ks. if key r = k then 1 else 0) + length rows" using Cons by (simp add: sum_list_addf)
  also have "(\<Sum>k\<leftarrow>ks. if key r = k then 1 else 0) = (1 :: nat)"
    using assms(1) Cons.prems by (simp add: sum_list_distinct_conv_sum_set sum.delta')
  finally show ?case by simp
qed simp

lemma group_rows_partition: "(\<Sum>(k, rs)\<leftarrow>group_rows key rows. length rs) = length rows"
  using sum_over_keys [of "remdups (map key rows)" key rows] by (simp add: group_rows_def comp_def)

lemma time_bucket_bounds:
  assumes "0 < b" and "0 \<le> t"
  shows "time_bucket b t \<le> t" and "t < time_bucket b t + b"
proof -
  have "t sdiv b = t div b" using assms by (simp add: signed_divide_int_def sgn_if)
  then show "time_bucket b t \<le> t" "t < time_bucket b t + b"
    using pos_mod_sign [OF assms(1), of t] pos_mod_bound [OF assms(1), of t] by (simp_all add: time_bucket_def minus_mod_eq_div_mult [symmetric])
qed

text \<open>The input of a listing with the same conditions.\<close>

definition many :: "string list option \<Rightarrow> string_filter option" where
  "many vs = (case vs of Some (v # vs') \<Rightarrow> Some (Many (v # vs')) | _ \<Rightarrow> None)"

definition listing_of :: "GetWorkflowAggregatesInput \<Rightarrow> GetWorkflowsInput" where
  "listing_of wi = all_workflows\<lparr>gi_workflowIDs := (case wi_workflowIDs wi of Some (v # vs) \<Rightarrow> Some (v # vs) | _ \<Rightarrow> None),
     gi_workflowName := many (wi_name wi), gi_status := many (wi_status wi), gi_startTime := wi_startTime wi, gi_endTime := wi_endTime wi,
     gi_completedAfter := wi_completedAfter wi, gi_completedBefore := wi_completedBefore wi, gi_dequeuedAfter := wi_dequeuedAfter wi,
     gi_dequeuedBefore := wi_dequeuedBefore wi, gi_authenticatedUser := many (wi_authenticatedUser wi), gi_applicationVersion := many (wi_appVersion wi),
     gi_executorId := many (wi_executorId wi), gi_workflow_id_prefix := many (wi_workflowIdPrefix wi), gi_queueName := many (wi_queueName wi),
     gi_queuesOnly := wi_queuesOnly wi, gi_forkedFrom := many (wi_forkedFrom wi), gi_wasForkedFrom := wi_wasForkedFrom wi,
     gi_parentWorkflowID := many (wi_parentWorkflowID wi), gi_hasParent := wi_hasParent wi, gi_attributes := wi_attributes wi,
     gi_scheduleName := many (wi_scheduleName wi)\<rparr>"

lemma addFilter_many [simp]: "addFilter column (many vs) r = list_filter column vs r"
  by (simp add: addFilter_def many_def list_filter_def split: option.splits list.splits)

lemma prefix_filter_many [simp]: "prefix_filter column (many ps) r = list_prefix_filter column ps r"
  by (simp add: prefix_filter_def many_def list_prefix_filter_def split: option.splits list.splits)

lemma ids_filter: "(case (case vs of Some (x # xs) \<Rightarrow> Some (x # xs) | _ \<Rightarrow> None) of None \<Rightarrow> True | Some ids \<Rightarrow> ws_workflow_uuid r \<in> set ids) =
  list_filter (Some \<circ> ws_workflow_uuid) vs r"
  by (auto simp: list_filter_def split: option.splits list.splits)

lemma listing_matches: "workflow_matches (listing_of wi) r = aggregate_matches wi r"
proof -
  have "gi_workflowIDs (listing_of wi) = (case wi_workflowIDs wi of Some (v # vs) \<Rightarrow> Some (v # vs) | _ \<Rightarrow> None)"
    by (simp add: listing_of_def)
  then have ids: "(case gi_workflowIDs (listing_of wi) of None \<Rightarrow> True | Some ids \<Rightarrow> ws_workflow_uuid r \<in> set ids) =
      list_filter (Some \<circ> ws_workflow_uuid) (wi_workflowIDs wi) r"
    by (simp only: ids_filter)
  show ?thesis unfolding workflow_matches_def aggregate_matches_def ids by (simp add: listing_of_def) blast
qed

lemma listing_rows: "mset (workflow_rows (listing_of wi) db) = mset (filter (aggregate_matches wi) (t_workflow_status db))"
proof -
  have "workflow_matches (listing_of wi) = aggregate_matches wi" by (rule ext) (rule listing_matches)
  then show ?thesis by (simp add: workflow_rows_def limit_offset_def slice_bound_def listing_of_def all_workflows_def)
qed

text \<open>C30: aggregates agree with listings. The two build their conditions separately; still the workflows that are aggregated are exactly those that
  a listing with the same conditions returns. Every group occurs once, its count is the number of listed workflows with its values, every
  listed workflow is counted in a group, and the counts add up to the length of the listing. A time bucket of positive size contains the times that fall into it.\<close>

theorem aggregates_agree_with_listing:
  assumes "getWorkflowAggregates wi db = (Inr ags, db')" and "wi_selectCount wi"
  shows "db' = db \<and> distinct (map ag_group ags) \<and>
    ag_group ` set ags = grouped (workflow_groups wi) ` set (workflow_rows (listing_of wi) db) \<and>
    (\<forall>a\<in>set ags. ag_count a =
      Some (int (length (filter (\<lambda>r. grouped (workflow_groups wi) r = ag_group a) (workflow_rows (listing_of wi) db))))) \<and>
    (\<Sum>a\<leftarrow>ags. coalesce (ag_count a) 0) = int (length (workflow_rows (listing_of wi) db)) \<and>
    (\<forall>b t. wi_timeBucketSizeMs wi = Some b \<and> 0 \<le> t \<longrightarrow> time_bucket b t \<le> t \<and> t < time_bucket b t + b)"
proof -
  let ?rows = "filter (aggregate_matches wi) (t_workflow_status db)" and ?key = "grouped (workflow_groups wi)"
  have ags: "ags = map (workflow_aggregate wi) (group_rows ?key ?rows)" "db' = db"
    and b: "\<And>b. wi_timeBucketSizeMs wi = Some b \<Longrightarrow> 0 < b"
    using assms(1) by (auto simp: getWorkflowAggregates_def check_aggregate_def split: option.splits if_splits)
  have rows: "set (workflow_rows (listing_of wi) db) = set ?rows" "length (workflow_rows (listing_of wi) db) = length ?rows"
    using listing_rows [of wi db] by (metis set_mset_mset, metis size_mset)
  have count: "length (filter P (workflow_rows (listing_of wi) db)) = length (filter P ?rows)" for P
    using listing_rows [of wi db] by (metis mset_filter size_mset)
  have groups: "map ag_group ags = map fst (group_rows ?key ?rows)" by (simp add: ags(1) workflow_aggregate_def comp_def case_prod_beta)
  then have "ag_group ` set ags = ?key ` set ?rows" using group_rows_keys(2) [of ?key ?rows] by (metis list.set_map)
  moreover have "distinct (map ag_group ags)" using groups group_rows_keys(1) [of ?key ?rows] by simp
  moreover have "\<forall>a\<in>set ags. ag_count a = Some (int (length (filter (\<lambda>r. ?key r = ag_group a) ?rows)))"
    using assms(2) by (auto simp: ags(1) workflow_aggregate_def select_when_def group_rows_mem)
  moreover have "(\<Sum>a\<leftarrow>ags. coalesce (ag_count a) 0) = int (length ?rows)"
  proof -
    have "(\<Sum>g\<leftarrow>gs. coalesce (ag_count (workflow_aggregate wi g)) 0) = int (\<Sum>(k, rs)\<leftarrow>gs. length rs)" for gs
      using assms(2) by (induction gs) (auto simp: workflow_aggregate_def select_when_def)
    then show ?thesis by (simp add: ags(1) comp_def group_rows_partition)
  qed
  ultimately show ?thesis using ags(2) b time_bucket_bounds unfolding count rows by auto
qed

definition example_aggregates :: GetWorkflowAggregatesInput where
  "example_aggregates = \<lparr>wi_groupByStatus = True, wi_groupByName = False, wi_groupByQueueName = False, wi_groupByExecutorId = False,
     wi_groupByApplicationVersion = False, wi_selectCount = True, wi_selectMinCreatedAt = False, wi_selectMaxQueueWaitMs = False,
     wi_selectMaxTotalLatencyMs = False, wi_timeBucketSizeMs = Some 60, wi_status = Some [''PENDING'', ''SUCCESS''], wi_startTime = None,
     wi_endTime = None, wi_completedAfter = None, wi_completedBefore = None, wi_dequeuedAfter = None, wi_dequeuedBefore = None, wi_name = None,
     wi_appVersion = None, wi_executorId = None, wi_queueName = None, wi_workflowIdPrefix = None, wi_workflowIDs = None,
     wi_authenticatedUser = None, wi_forkedFrom = None, wi_wasForkedFrom = None, wi_parentWorkflowID = None, wi_hasParent = None,
     wi_queuesOnly = False, wi_attributes = None, wi_scheduleName = Some []\<rparr>"

definition example_listed :: sysdb where
  "example_listed = example_db [example_row ''a'' PENDING, example_row ''b'' SUCCESS, example_row ''c'' PENDING, example_row ''d'' ENQUEUED]"

theorem aggregates_agree_with_listing_witness:
  "\<exists>ags. getWorkflowAggregates example_aggregates example_listed = (Inr ags, example_listed) \<and> (\<Sum>a\<leftarrow>ags. coalesce (ag_count a) 0) = 3"
proof -
  have "\<not> isl (fst (getWorkflowAggregates example_aggregates example_listed))" by code_simp
  then obtain ags db' where run: "getWorkflowAggregates example_aggregates example_listed = (Inr ags, db')"
    by (cases "getWorkflowAggregates example_aggregates example_listed"; cases "fst (getWorkflowAggregates example_aggregates example_listed)") auto
  have "length (workflow_rows (listing_of example_aggregates) example_listed) = 3" by code_simp
  with aggregates_agree_with_listing [OF run] run show ?thesis by (simp add: example_aggregates_def)
qed

end
