(* ===== verification/Export_JSON.thy ===== *)
theory Export_JSON
  imports SysDB_Fork
begin

text \<open>
  The text of exported workflows: what \<open>JSON.stringify\<close> makes of the rows that the export reads, and what the import reads from the
  parsed text (\<open>exportWorkflow\<close> and \<open>importWorkflow\<close> of \<open>src/system_database.ts\<close>, as called by \<open>src/conductor/conductor.ts\<close>).
  The driver delivers a \<open>BIGINT\<close> column as a text of digits and the smaller integers as numbers; both are accepted as parameters of an
  \<open>INSERT\<close>. A key that is missing is \<open>undefined\<close>, which the driver sends as \<open>NULL\<close>. Values that do not have the type of their column, which
  the driver would try to convert, are not read.
\<close>

section \<open>Columns\<close>

definition nullable :: "('a \<Rightarrow> json) \<Rightarrow> 'a option \<Rightarrow> json" where
  "nullable f v = (case v of None \<Rightarrow> JNull | Some x \<Rightarrow> f x)"

definition bigint_json :: "int \<Rightarrow> json" where
  "bigint_json n = JStr (show_int n)"

definition column :: "string \<Rightarrow> json \<Rightarrow> json" where
  "column k j = (case j of JObj ms \<Rightarrow> coalesce (map_of (rev ms) k) JNull | _ \<Rightarrow> JNull)"

fun read_text :: "json \<Rightarrow> string option" where
  "read_text (JStr s) = Some s"
| "read_text _ = None"

fun read_number :: "json \<Rightarrow> int option" where
  "read_number (JNum n) = Some n"
| "read_number _ = None"

fun read_bigint :: "json \<Rightarrow> int option" where
  "read_bigint (JNum n) = Some n"
| "read_bigint (JStr s) = (case parse_number s of Some (n, []) \<Rightarrow> Some n | _ \<Rightarrow> None)"
| "read_bigint _ = None"

definition read_null :: "(json \<Rightarrow> 'a option) \<Rightarrow> json \<Rightarrow> 'a option option" where
  "read_null f j = (if j = JNull then Some None else map_option Some (f j))"

text \<open>\<open>x ?? false\<close>.\<close>

fun read_flag :: "json \<Rightarrow> bool option" where
  "read_flag (JBool b) = Some b"
| "read_flag JNull = Some False"
| "read_flag _ = None"

definition read_status_column :: "json \<Rightarrow> wf_status option" where
  "read_status_column j = Option.bind (read_text j) (\<lambda>s. List.find (\<lambda>st. status_string st = s)
     [PENDING, SUCCESS, ERROR, MAX_RECOVERY_ATTEMPTS_EXCEEDED, CANCELLED, ENQUEUED, DELAYED])"

text \<open>\<open>x ? JSON.stringify(x) : null\<close>.\<close>

definition json_truthy :: "json \<Rightarrow> bool" where
  "json_truthy j = (j \<notin> {JNull, JBool False, JNum 0, JStr []})"

definition read_attributes :: "json \<Rightarrow> json option option" where
  "read_attributes j = Some (if json_truthy j then Some j else None)"

lemma read_back [simp]:
  "read_text (JStr s) = Some s" "read_number (JNum n) = Some n" "read_bigint (bigint_json n) = Some n" "read_flag (JBool b) = Some b"
  "read_null read_text (nullable JStr t) = Some t" "read_null read_bigint (nullable bigint_json m) = Some m"
  "read_status_column (JStr (status_string st)) = Some st"
proof -
  have num: "parse_number (show_int k) = Some (k, [])" for k using parse_number_show_int [of "[]" k] by (simp add: no_digit_first_def)
  then show "read_bigint (bigint_json n) = Some n" by (simp add: bigint_json_def)
  from num show "read_null read_bigint (nullable bigint_json m) = Some m"
    by (cases m) (simp_all add: read_null_def nullable_def bigint_json_def)
  show "read_null read_text (nullable JStr t) = Some t" by (cases t) (simp_all add: read_null_def nullable_def)
  show "read_status_column (JStr (status_string st)) = Some st" by (cases st) (simp_all add: read_status_column_def)
qed simp_all

lemma read_attributes_back [simp]: "pred_option json_truthy a \<Longrightarrow> read_attributes (nullable id a) = Some a"
  by (cases a) (simp_all add: read_attributes_def nullable_def json_truthy_def)

section \<open>Rows\<close>

definition workflow_status_json :: "workflow_status \<Rightarrow> json" where
  "workflow_status_json r = JObj [
     (''workflow_uuid'', JStr (ws_workflow_uuid r)), (''status'', JStr (status_string (ws_status r))), (''name'', JStr (ws_name r)),
     (''authenticated_user'', nullable JStr (ws_authenticated_user r)), (''assumed_role'', nullable JStr (ws_assumed_role r)),
     (''authenticated_roles'', nullable JStr (ws_authenticated_roles r)), (''request'', nullable JStr (ws_request r)),
     (''output'', nullable JStr (ws_output r)), (''error'', nullable JStr (ws_error r)), (''executor_id'', nullable JStr (ws_executor_id r)),
     (''created_at'', bigint_json (ws_created_at r)), (''updated_at'', bigint_json (ws_updated_at r)),
     (''application_version'', nullable JStr (ws_application_version r)), (''application_id'', nullable JStr (ws_application_id r)),
     (''class_name'', nullable JStr (ws_class_name r)), (''config_name'', nullable JStr (ws_config_name r)),
     (''recovery_attempts'', bigint_json (ws_recovery_attempts r)), (''queue_name'', nullable JStr (ws_queue_name r)),
     (''workflow_timeout_ms'', nullable bigint_json (ws_workflow_timeout_ms r)),
     (''workflow_deadline_epoch_ms'', nullable bigint_json (ws_workflow_deadline_epoch_ms r)),
     (''started_at_epoch_ms'', nullable bigint_json (ws_started_at_epoch_ms r)), (''deduplication_id'', nullable JStr (ws_deduplication_id r)),
     (''inputs'', nullable JStr (ws_inputs r)), (''priority'', JNum (ws_priority r)),
     (''queue_partition_key'', nullable JStr (ws_queue_partition_key r)), (''forked_from'', nullable JStr (ws_forked_from r)),
     (''parent_workflow_id'', nullable JStr (ws_parent_workflow_id r)), (''serialization'', nullable JStr (ws_serialization r)),
     (''delay_until_epoch_ms'', nullable bigint_json (ws_delay_until_epoch_ms r)), (''was_forked_from'', JBool (ws_was_forked_from r)),
     (''rate_limited'', JBool (ws_rate_limited r)), (''completed_at'', nullable bigint_json (ws_completed_at r)),
     (''attributes'', nullable id (ws_attributes r)), (''schedule_name'', nullable JStr (ws_schedule_name r)),
     (''debounce_deadline_epoch_ms'', nullable bigint_json (ws_debounce_deadline_epoch_ms r)), (''is_debounced'', JBool (ws_is_debounced r))]"

definition read_workflow_status :: "json \<Rightarrow> workflow_status option" where
  "read_workflow_status j =
     Option.bind (read_text (column ''workflow_uuid'' j)) (\<lambda>v0.
     Option.bind (read_status_column (column ''status'' j)) (\<lambda>v1.
     Option.bind (read_text (column ''name'' j)) (\<lambda>v2.
     Option.bind (read_null read_text (column ''authenticated_user'' j)) (\<lambda>v3.
     Option.bind (read_null read_text (column ''assumed_role'' j)) (\<lambda>v4.
     Option.bind (read_null read_text (column ''authenticated_roles'' j)) (\<lambda>v5.
     Option.bind (read_null read_text (column ''request'' j)) (\<lambda>v6.
     Option.bind (read_null read_text (column ''output'' j)) (\<lambda>v7.
     Option.bind (read_null read_text (column ''error'' j)) (\<lambda>v8.
     Option.bind (read_null read_text (column ''executor_id'' j)) (\<lambda>v9.
     Option.bind (read_bigint (column ''created_at'' j)) (\<lambda>v10.
     Option.bind (read_bigint (column ''updated_at'' j)) (\<lambda>v11.
     Option.bind (read_null read_text (column ''application_version'' j)) (\<lambda>v12.
     Option.bind (read_null read_text (column ''application_id'' j)) (\<lambda>v13.
     Option.bind (read_null read_text (column ''class_name'' j)) (\<lambda>v14.
     Option.bind (read_null read_text (column ''config_name'' j)) (\<lambda>v15.
     Option.bind (read_bigint (column ''recovery_attempts'' j)) (\<lambda>v16.
     Option.bind (read_null read_text (column ''queue_name'' j)) (\<lambda>v17.
     Option.bind (read_null read_bigint (column ''workflow_timeout_ms'' j)) (\<lambda>v18.
     Option.bind (read_null read_bigint (column ''workflow_deadline_epoch_ms'' j)) (\<lambda>v19.
     Option.bind (read_null read_bigint (column ''started_at_epoch_ms'' j)) (\<lambda>v20.
     Option.bind (read_null read_text (column ''deduplication_id'' j)) (\<lambda>v21.
     Option.bind (read_null read_text (column ''inputs'' j)) (\<lambda>v22.
     Option.bind (read_number (column ''priority'' j)) (\<lambda>v23.
     Option.bind (read_null read_text (column ''queue_partition_key'' j)) (\<lambda>v24.
     Option.bind (read_null read_text (column ''forked_from'' j)) (\<lambda>v25.
     Option.bind (read_null read_text (column ''parent_workflow_id'' j)) (\<lambda>v26.
     Option.bind (read_null read_text (column ''serialization'' j)) (\<lambda>v27.
     Option.bind (read_null read_bigint (column ''delay_until_epoch_ms'' j)) (\<lambda>v28.
     Option.bind (read_flag (column ''was_forked_from'' j)) (\<lambda>v29.
     Option.bind (read_flag (column ''rate_limited'' j)) (\<lambda>v30.
     Option.bind (read_null read_bigint (column ''completed_at'' j)) (\<lambda>v31.
     Option.bind (read_attributes (column ''attributes'' j)) (\<lambda>v32.
     Option.bind (read_null read_text (column ''schedule_name'' j)) (\<lambda>v33.
     Option.bind (read_null read_bigint (column ''debounce_deadline_epoch_ms'' j)) (\<lambda>v34.
     Option.bind (read_flag (column ''is_debounced'' j)) (\<lambda>v35.
     Some \<lparr>ws_workflow_uuid = v0, ws_status = v1, ws_name = v2, ws_class_name = v14, ws_config_name = v15, ws_authenticated_user = v3, ws_output = v7,
       ws_error = v8, ws_assumed_role = v4, ws_authenticated_roles = v5, ws_request = v6, ws_executor_id = v9, ws_application_version = v12,
       ws_queue_name = v17, ws_created_at = v10, ws_updated_at = v11, ws_application_id = v13, ws_recovery_attempts = v16,
       ws_workflow_timeout_ms = v18, ws_workflow_deadline_epoch_ms = v19, ws_inputs = v22, ws_started_at_epoch_ms = v20,
       ws_deduplication_id = v21, ws_priority = v23, ws_queue_partition_key = v24, ws_forked_from = v25, ws_was_forked_from = v29,
       ws_owner_xid = None, ws_parent_workflow_id = v26, ws_serialization = v27, ws_delay_until_epoch_ms = v28, ws_rate_limited = v30,
       ws_completed_at = v31, ws_attributes = v32, ws_schedule_name = v33, ws_debounce_deadline_epoch_ms = v34, ws_is_debounced = v35\<rparr>))))))))))))))))))))))))))))))))))))"

definition operation_outputs_json :: "operation_outputs \<Rightarrow> json" where
  "operation_outputs_json r = JObj [
     (''workflow_uuid'', JStr (oo_workflow_uuid r)), (''function_id'', JNum (oo_function_id r)), (''function_name'', JStr (oo_function_name r)),
     (''output'', nullable JStr (oo_output r)), (''error'', nullable JStr (oo_error r)),
     (''child_workflow_id'', nullable JStr (oo_child_workflow_id r)),
     (''started_at_epoch_ms'', nullable bigint_json (oo_started_at_epoch_ms r)),
     (''completed_at_epoch_ms'', nullable bigint_json (oo_completed_at_epoch_ms r)), (''serialization'', nullable JStr (oo_serialization r))]"

definition read_operation_outputs :: "json \<Rightarrow> operation_outputs option" where
  "read_operation_outputs j =
     Option.bind (read_text (column ''workflow_uuid'' j)) (\<lambda>v0.
     Option.bind (read_number (column ''function_id'' j)) (\<lambda>v1.
     Option.bind (read_text (column ''function_name'' j)) (\<lambda>v2.
     Option.bind (read_null read_text (column ''output'' j)) (\<lambda>v3.
     Option.bind (read_null read_text (column ''error'' j)) (\<lambda>v4.
     Option.bind (read_null read_text (column ''child_workflow_id'' j)) (\<lambda>v5.
     Option.bind (read_null read_bigint (column ''started_at_epoch_ms'' j)) (\<lambda>v6.
     Option.bind (read_null read_bigint (column ''completed_at_epoch_ms'' j)) (\<lambda>v7.
     Option.bind (read_null read_text (column ''serialization'' j)) (\<lambda>v8.
     Some \<lparr>oo_workflow_uuid = v0, oo_function_id = v1, oo_output = v3, oo_error = v4, oo_child_workflow_id = v5, oo_function_name = v2,
       oo_started_at_epoch_ms = v6, oo_completed_at_epoch_ms = v7, oo_serialization = v8\<rparr>)))))))))"

definition workflow_events_json :: "workflow_events \<Rightarrow> json" where
  "workflow_events_json r = JObj [
     (''workflow_uuid'', JStr (we_workflow_uuid r)), (''key'', JStr (we_key r)), (''value'', nullable JStr (we_value r)),
     (''serialization'', nullable JStr (we_serialization r))]"

definition read_workflow_events :: "json \<Rightarrow> workflow_events option" where
  "read_workflow_events j =
     Option.bind (read_text (column ''workflow_uuid'' j)) (\<lambda>v0.
     Option.bind (read_text (column ''key'' j)) (\<lambda>v1.
     Option.bind (read_null read_text (column ''value'' j)) (\<lambda>v2.
     Option.bind (read_null read_text (column ''serialization'' j)) (\<lambda>v3.
     Some \<lparr>we_workflow_uuid = v0, we_key = v1, we_value = v2, we_serialization = v3\<rparr>))))"

definition workflow_events_history_json :: "workflow_events_history \<Rightarrow> json" where
  "workflow_events_history_json r = JObj [
     (''workflow_uuid'', JStr (eh_workflow_uuid r)), (''function_id'', JNum (eh_function_id r)), (''key'', JStr (eh_key r)),
     (''value'', nullable JStr (eh_value r)), (''serialization'', nullable JStr (eh_serialization r))]"

definition read_workflow_events_history :: "json \<Rightarrow> workflow_events_history option" where
  "read_workflow_events_history j =
     Option.bind (read_text (column ''workflow_uuid'' j)) (\<lambda>v0.
     Option.bind (read_number (column ''function_id'' j)) (\<lambda>v1.
     Option.bind (read_text (column ''key'' j)) (\<lambda>v2.
     Option.bind (read_null read_text (column ''value'' j)) (\<lambda>v3.
     Option.bind (read_null read_text (column ''serialization'' j)) (\<lambda>v4.
     Some \<lparr>eh_workflow_uuid = v0, eh_function_id = v1, eh_key = v2, eh_value = v3, eh_serialization = v4\<rparr>)))))"

definition streams_json :: "streams \<Rightarrow> json" where
  "streams_json r = JObj [
     (''workflow_uuid'', JStr (st_workflow_uuid r)), (''key'', JStr (st_key r)), (''value'', JStr (st_value r)),
     (''offset'', JNum (st_offset r)), (''function_id'', JNum (st_function_id r)), (''serialization'', nullable JStr (st_serialization r))]"

definition read_streams :: "json \<Rightarrow> streams option" where
  "read_streams j =
     Option.bind (read_text (column ''workflow_uuid'' j)) (\<lambda>v0.
     Option.bind (read_text (column ''key'' j)) (\<lambda>v1.
     Option.bind (read_text (column ''value'' j)) (\<lambda>v2.
     Option.bind (read_number (column ''offset'' j)) (\<lambda>v3.
     Option.bind (read_number (column ''function_id'' j)) (\<lambda>v4.
     Option.bind (read_null read_text (column ''serialization'' j)) (\<lambda>v5.
     Some \<lparr>st_workflow_uuid = v0, st_key = v1, st_value = v2, st_offset = v3, st_function_id = v4, st_serialization = v5\<rparr>))))))"

section \<open>Workflows\<close>

definition ExportedWorkflow_json :: "ExportedWorkflow \<Rightarrow> json" where
  "ExportedWorkflow_json e = JObj [(''workflow_status'', workflow_status_json (ex_workflow_status e)),
     (''operation_outputs'', JArr (map operation_outputs_json (ex_operation_outputs e))),
     (''workflow_events'', JArr (map workflow_events_json (ex_workflow_events e))),
     (''workflow_events_history'', JArr (map workflow_events_history_json (ex_workflow_events_history e))),
     (''streams'', JArr (map streams_json (ex_streams e)))]"

definition read_rows :: "(json \<Rightarrow> 'r option) \<Rightarrow> json \<Rightarrow> 'r list option" where
  "read_rows f j = (case j of JArr js \<Rightarrow> those (map f js) | _ \<Rightarrow> None)"

definition read_ExportedWorkflow :: "json \<Rightarrow> ExportedWorkflow option" where
  "read_ExportedWorkflow j =
     Option.bind (read_workflow_status (column ''workflow_status'' j)) (\<lambda>s.
     Option.bind (read_rows read_operation_outputs (column ''operation_outputs'' j)) (\<lambda>os.
     Option.bind (read_rows read_workflow_events (column ''workflow_events'' j)) (\<lambda>es.
     Option.bind (read_rows read_workflow_events_history (column ''workflow_events_history'' j)) (\<lambda>hs.
     Option.bind (read_rows read_streams (column ''streams'' j)) (\<lambda>ss.
     Some \<lparr>ex_workflow_status = s, ex_operation_outputs = os, ex_workflow_events = es, ex_workflow_events_history = hs, ex_streams = ss\<rparr>)))))"

definition exported_text :: "ExportedWorkflow list \<Rightarrow> string" where
  "exported_text es = JSON_stringify (JArr (map ExportedWorkflow_json es))"

definition read_exported :: "string \<Rightarrow> ExportedWorkflow list option" where
  "read_exported text = Option.bind (JSON_parse text) (read_rows read_ExportedWorkflow)"

section \<open>What is written is read back\<close>

lemma read_rows_back:
  assumes "\<forall>r\<in>set rs. f (g r) = Some r"
  shows "read_rows f (JArr (map g rs)) = Some rs"
  using assms by (induction rs) (auto simp: read_rows_def split: option.splits)

lemma status_back:
  assumes "pred_option json_truthy (ws_attributes r)" and "ws_owner_xid r = None"
  shows "read_workflow_status (workflow_status_json r) = Some r"
  using assms unfolding workflow_status_json_def read_workflow_status_def by (simp add: column_def)

lemma rows_back:
  "read_operation_outputs (operation_outputs_json o') = Some o'" "read_workflow_events (workflow_events_json e) = Some e"
  "read_workflow_events_history (workflow_events_history_json h) = Some h" "read_streams (streams_json s) = Some s"
  by (simp_all add: operation_outputs_json_def read_operation_outputs_def workflow_events_json_def read_workflow_events_def
      workflow_events_history_json_def read_workflow_events_history_def streams_json_def read_streams_def column_def)

lemma exported_back:
  assumes "pred_option json_truthy (ws_attributes (ex_workflow_status e))" and "ws_owner_xid (ex_workflow_status e) = None"
  shows "read_ExportedWorkflow (ExportedWorkflow_json e) = Some e"
  unfolding read_ExportedWorkflow_def ExportedWorkflow_json_def
  using status_back [OF assms] by (simp add: column_def read_rows_back rows_back)

lemma read_exported_text:
  assumes "\<forall>e\<in>set es. pred_option json_truthy (ws_attributes (ex_workflow_status e)) \<and> ws_owner_xid (ex_workflow_status e) = None"
  shows "read_exported (exported_text es) = Some es"
  unfolding read_exported_def exported_text_def JSON_parse_stringify using assms by (simp add: exported_back read_rows_back)

end
