(* ===== verification/Conductor_Protocol.thy ===== *)
theory Conductor_Protocol
  imports Introspection Aggregates Export_JSON
begin

text \<open>
  The messages of the conductor (\<open>src/conductor/protocol.ts\<close>): requests with their bodies, responses, and the records in which
  workflows, steps, schedules, versions, queues, events and aggregates are shown; the messages of the error classes (\<open>src/error.ts\<close>).

  A request is the value of its JSON text; times that the text gives in ISO format are the milliseconds that \<open>new Date\<close> reads from them.
  A key that is absent is \<open>None\<close>.
\<close>

section \<open>Messages of errors\<close>

text \<open>The server's text for an SQLSTATE is a parameter.\<close>

fun error_message :: "(string \<Rightarrow> string) \<Rightarrow> dbos_error \<Rightarrow> string" where
  "error_message pg (DBOSError m) = m"
| "error_message pg (DBOSInitializationError m) = m"
| "error_message pg (DBOSWorkflowConflictError w) = ''Conflicting WF ID '' @ w"
| "error_message pg (DBOSNotRegisteredError m) = m"
| "error_message pg (DBOSDataValidationError m) = m"
| "error_message pg (DBOSNotAuthorizedError m) = m"
| "error_message pg (DBOSConfigKeyTypeError k expected actual) = k @ '' should be of type '' @ expected @ '', but got '' @ actual"
| "error_message pg (DBOSNonExistentWorkflowError m) = m"
| "error_message pg (DBOSFailLoadOperationsError m) = m"
| "error_message pg (DBOSMaxRecoveryAttemptsExceededError w n) =
     ''Workflow '' @ w @ '' has exceeded its maximum of '' @ show_int n @
     '' execution or recovery attempts. Further attempts to execute or recover it will fail.''"
| "error_message pg DBOSExecutorNotInitializedError = ''DBOS not initialized''"
| "error_message pg (DBOSInvalidWorkflowTransitionError m) = m"
| "error_message pg (DBOSConflictingWorkflowError w m) = ''Conflicting workflow invocation with the same ID ('' @ w @ ''): '' @ m"
| "error_message pg (DBOSMaxStepRetriesError step n errors) =
     ''Step '' @ step @ '' has exceeded its maximum of '' @ show_int n @ '' retries. Previous errors: '' @
     js_join ''. '' (map (\<lambda>(i, m). ''Error '' @ show_nat (i + 1) @ '': '' @ m) (enumerate 0 (map (error_message pg) errors)))"
| "error_message pg (DBOSWorkflowCancelledError w) = ''Workflow '' @ w @ '' has been cancelled''"
| "error_message pg (DBOSConflictingRegistrationError m) = m"
| "error_message pg (DBOSUnexpectedStepError w step expected recorded) =
     ''During execution of workflow '' @ w @ '' step '' @ show_int step @ '', function '' @ recorded @ '' was recorded when '' @ expected @
     '' was expected.'' @
     (if starts_with ''DBOS.patch'' recorded
      then [CHR 0x0A, CHR 0x0A] @ ''          Check that your patches are backward compatible, that you do not have older code trying to recover workflows '' @
        ''with newer patches, and that your workflow is deterministic.''
      else '' Check that your workflow is deterministic.'')"
| "error_message pg (DBOSAwaitedWorkflowCancelledError w) = ''Awaited '' @ w @ '' was cancelled''"
| "error_message pg (DBOSQueueDuplicatedError w q d) =
     ''Workflow '' @ w @ '' was deduplicated due to an existing workflow in queue '' @ q @ '' with deduplication ID '' @ d @ ''.''"
| "error_message pg (DBOSInvalidQueuePriorityError p lo hi) =
     ''Invalid priority '' @ show_int p @ ''. Priority must be between '' @ show_int lo @ '' and '' @ show_int hi @ ''.''"
| "error_message pg (DBOSAwaitedWorkflowExceededMaxRecoveryAttempts w) = ''Awaited '' @ w @ '' exceeded its maximum recovery attempts''"
| "error_message pg (DBOSStepTimeoutError step ms) = ''Step '' @ step @ '' timed out after '' @ show_int ms @ ''ms''"
| "error_message pg (DBOSInvalidWorkflowInputError name cause) = ''Could not serialize the arguments to workflow '' @ name @ '': '' @ cause"
| "error_message pg (PortableWorkflowError m name code data) = m"
| "error_message pg (PlainError m) = m"
| "error_message pg (PgError sqlstate) = pg sqlstate"

section \<open>The process that answers\<close>

text \<open>
  What a handler reads: the executor's environment, the identity of the process, Node's \<open>inspect\<close>, the text of a serialized error,
  compression (\<open>gzip\<close> with the base64 encoding, and its inverse, which may fail), the error for a text that does not hold exported workflows,
  the registered alert handler, and what other
  processes do between the statements of the global timeout.
\<close>

record conductor_env =
  cv_api :: api_env
  cv_executorID :: string
  cv_hostname :: string
  cv_dbosVersion :: string
  cv_executorMetadata :: "json option"
  cv_inspect :: "js_value \<Rightarrow> string"
  cv_pgMessage :: "string \<Rightarrow> string"
  cv_gzip :: "string \<Rightarrow> string"
  cv_gunzip :: "string \<Rightarrow> dbos_error + string"
  cv_malformed :: "string \<Rightarrow> dbos_error"
  cv_alertHandler :: "(string \<Rightarrow> string \<Rightarrow> (string \<times> string) list \<Rightarrow> dbos_error option) option"
  cv_others :: "nat \<Rightarrow> sysdb \<Rightarrow> sysdb"
  cv_uuids :: "nat \<Rightarrow> string"

definition cv_now :: "conductor_env \<Rightarrow> int" where
  "cv_now cv = ae_now (cv_api cv)"

definition cv_ser :: "conductor_env \<Rightarrow> serialization_env" where
  "cv_ser cv = ae_ser (cv_api cv)"

section \<open>Outputs\<close>

fun js_truthy :: "js_value \<Rightarrow> bool" where
  "js_truthy JsUndefined = False"
| "js_truthy JsNull = False"
| "js_truthy (JsBool b) = b"
| "js_truthy (JsNum n) = (n \<noteq> 0)"
| "js_truthy (JsStr s) = (s \<noteq> [])"
| "js_truthy (JsBigInt n) = (n \<noteq> 0)"
| "js_truthy _ = True"

definition inspectForConductor :: "conductor_env \<Rightarrow> js_value \<Rightarrow> string" where
  "inspectForConductor cv v = cv_inspect cv v"

definition shown :: "conductor_env \<Rightarrow> js_value option \<Rightarrow> string option" where
  "shown cv v = (case v of Some x \<Rightarrow> if js_truthy x then Some (inspectForConductor cv x) else None | None \<Rightarrow> None)"

definition shown_error :: "conductor_env \<Rightarrow> dbos_error option \<Rightarrow> string option" where
  "shown_error cv e = (case e of
       None \<Rightarrow> None
     | Some x \<Rightarrow> map_option JSON_stringify (json_of (se_serializeError (cv_ser cv) x)))"

text \<open>Roles are an array; \<open>.length > 0\<close> also holds of a text that is not empty.\<close>

definition shown_roles :: "json \<Rightarrow> string option" where
  "shown_roles j = (case j of JArr (x # xs) \<Rightarrow> Some (JSON_stringify j) | JStr (c # cs) \<Rightarrow> Some (JSON_stringify j) | _ \<Rightarrow> None)"

definition shown_int :: "int option \<Rightarrow> string option" where
  "shown_int n = map_option show_int n"

record WorkflowsOutput =
  wo_WorkflowUUID :: string
  wo_Status :: string
  wo_WorkflowName :: string
  wo_WorkflowClassName :: "string option"
  wo_WorkflowConfigName :: "string option"
  wo_AuthenticatedUser :: "string option"
  wo_AssumedRole :: "string option"
  wo_AuthenticatedRoles :: "string option"
  wo_Input :: "string option"
  wo_Output :: "string option"
  wo_Error :: "string option"
  wo_CreatedAt :: "string option"
  wo_UpdatedAt :: "string option"
  wo_QueueName :: "string option"
  wo_ApplicationVersion :: "string option"
  wo_ExecutorID :: "string option"
  wo_WorkflowTimeoutMS :: "string option"
  wo_WorkflowDeadlineEpochMS :: "string option"
  wo_DeduplicationID :: "string option"
  wo_Priority :: string
  wo_QueuePartitionKey :: "string option"
  wo_DequeuedAt :: "string option"
  wo_ForkedFrom :: "string option"
  wo_WasForkedFrom :: bool
  wo_ParentWorkflowID :: "string option"
  wo_DelayUntilEpochMS :: "string option"
  wo_CompletedAt :: "string option"
  wo_Attributes :: "string option"
  wo_ScheduleName :: "string option"

definition new_WorkflowsOutput :: "conductor_env \<Rightarrow> WorkflowStatus \<Rightarrow> WorkflowsOutput" where
  "new_WorkflowsOutput cv info = \<lparr>
     wo_WorkflowUUID = wv_workflowID info, wo_Status = status_string (wv_status info), wo_WorkflowName = wv_workflowName info,
     wo_WorkflowClassName = or_null (Some (wv_workflowClassName info)), wo_WorkflowConfigName = or_null (Some (wv_workflowConfigName info)),
     wo_AuthenticatedUser = or_null (wv_authenticatedUser info), wo_AssumedRole = or_null (wv_assumedRole info),
     wo_AuthenticatedRoles = shown_roles (wv_authenticatedRoles info),
     wo_Input = shown cv (wv_input info), wo_Output = shown cv (wv_output info), wo_Error = shown_error cv (wv_error info),
     wo_CreatedAt = shown_int (nonzero (Some (wv_createdAt info))), wo_UpdatedAt = shown_int (nonzero (wv_updatedAt info)),
     wo_QueueName = or_null (wv_queueName info), wo_ApplicationVersion = wv_applicationVersion info, wo_ExecutorID = wv_executorId info,
     wo_WorkflowTimeoutMS = shown_int (wv_timeoutMS info), wo_WorkflowDeadlineEpochMS = shown_int (wv_deadlineEpochMS info),
     wo_DeduplicationID = wv_deduplicationID info, wo_Priority = show_int (wv_priority info),
     wo_QueuePartitionKey = wv_queuePartitionKey info, wo_DequeuedAt = shown_int (wv_dequeuedAt info), wo_ForkedFrom = wv_forkedFrom info,
     wo_WasForkedFrom = wv_wasForkedFrom info, wo_ParentWorkflowID = wv_parentWorkflowID info,
     wo_DelayUntilEpochMS = shown_int (wv_delayUntilEpochMS info), wo_CompletedAt = shown_int (wv_completedAt info),
     wo_Attributes = map_option JSON_stringify (wv_attributes info), wo_ScheduleName = wv_scheduleName info\<rparr>"

record WorkflowSteps =
  wt_function_id :: int
  wt_function_name :: string
  wt_output :: "string option"
  wt_error :: "string option"
  wt_child_workflow_id :: "string option"
  wt_started_at_epoch_ms :: "string option"
  wt_completed_at_epoch_ms :: "string option"

definition new_WorkflowSteps :: "conductor_env \<Rightarrow> StepInfo \<Rightarrow> WorkflowSteps" where
  "new_WorkflowSteps cv info = \<lparr>wt_function_id = sn_functionID info, wt_function_name = sn_name info,
     wt_output = shown cv (Some (sn_output info)), wt_error = shown_error cv (sn_error info),
     wt_child_workflow_id = sn_childWorkflowID info, wt_started_at_epoch_ms = shown_int (sn_startedAtEpochMs info),
     wt_completed_at_epoch_ms = shown_int (sn_completedAtEpochMs info)\<rparr>"

record ScheduleOutput =
  co_schedule_id :: string
  co_schedule_name :: string
  co_workflow_name :: string
  co_workflow_class_name :: "string option"
  co_schedule :: string
  co_status :: string
  co_context :: "string option"
  co_last_fired_at :: "string option"
  co_automatic_backfill :: bool
  co_cron_timezone :: "string option"
  co_queue_name :: "string option"

text \<open>The context is parsed only when it is asked for; parsing may throw.\<close>

definition schedule_output :: "conductor_env \<Rightarrow> bool \<Rightarrow> WorkflowScheduleInternal \<Rightarrow> dbos_error + ScheduleOutput" where
  "schedule_output cv loadContext s =
     map_sum id (\<lambda>context. \<lparr>co_schedule_id = sw_scheduleId s, co_schedule_name = sw_scheduleName s, co_workflow_name = sw_workflowName s,
        co_workflow_class_name = or_null (Some (sw_workflowClassName s)), co_schedule = sw_schedule s, co_status = sw_status s,
        co_context = context, co_last_fired_at = sw_lastFiredAt s, co_automatic_backfill = sw_automaticBackfill s,
        co_cron_timezone = sw_cronTimezone s, co_queue_name = sw_queueName s\<rparr>)
      (if loadContext then map_sum id (\<lambda>v. Some (inspectForConductor cv v)) (sz_parse (se_serializer (cv_ser cv)) (Some (sw_context s)))
       else Inr None)"

fun schedule_outputs :: "conductor_env \<Rightarrow> bool \<Rightarrow> WorkflowScheduleInternal list \<Rightarrow> dbos_error + ScheduleOutput list" where
  "schedule_outputs cv loadContext [] = Inr []"
| "schedule_outputs cv loadContext (s # ss) = (case schedule_output cv loadContext s of
       Inl e \<Rightarrow> Inl e
     | Inr x \<Rightarrow> map_sum id (Cons x) (schedule_outputs cv loadContext ss))"

record ApplicationVersionOutput =
  vo_version_id :: string
  vo_version_name :: string
  vo_version_timestamp :: int
  vo_created_at :: int

definition version_output :: "VersionInfo \<Rightarrow> ApplicationVersionOutput" where
  "version_output v = \<lparr>vo_version_id = vi_versionId v, vo_version_name = vi_versionName v, vo_version_timestamp = vi_versionTimestamp v,
     vo_created_at = vi_createdAt v\<rparr>"

record NotificationOutput =
  no_topic :: "string option"
  no_message :: string
  no_created_at_epoch_ms :: int
  no_consumed :: bool

definition notification_output :: "conductor_env \<Rightarrow> js_value message_info \<Rightarrow> NotificationOutput" where
  "notification_output cv n = \<lparr>no_topic = mi_topic n, no_message = inspectForConductor cv (mi_message n),
     no_created_at_epoch_ms = mi_createdAtEpochMs n, no_consumed = mi_consumed n\<rparr>"

record WorkflowAggregateOutput =
  ao_group :: agg_group
  ao_count :: "int option"
  ao_min_created_at :: "int option"
  ao_max_queue_wait_ms :: "int option"
  ao_max_total_latency_ms :: "int option"

definition aggregate_output :: "WorkflowAggregateRow \<Rightarrow> WorkflowAggregateOutput" where
  "aggregate_output r = \<lparr>ao_group = ag_group r, ao_count = ag_count r, ao_min_created_at = ag_minCreatedAt r,
     ao_max_queue_wait_ms = ag_maxQueueWaitMs r, ao_max_total_latency_ms = ag_maxTotalLatencyMs r\<rparr>"

record StepAggregateOutput =
  tg_group :: agg_group
  tg_count :: "int option"
  tg_max_duration_ms :: "int option"

definition step_aggregate_output :: "StepAggregateRow \<Rightarrow> StepAggregateOutput" where
  "step_aggregate_output r = \<lparr>tg_group = sa_group r, tg_count = sa_count r, tg_max_duration_ms = sa_maxDurationMs r\<rparr>"

text \<open>The two durations of a queue are in milliseconds, as in its record.\<close>

record QueueOutput =
  qo_name :: string
  qo_concurrency :: "int option"
  qo_worker_concurrency :: "int option"
  qo_rate_limit_max :: "int option"
  qo_rate_limit_period :: "int option"
  qo_priority_enabled :: bool
  qo_partition_queue :: bool
  qo_polling_interval :: int

definition queue_output :: "QueueRecord \<Rightarrow> QueueOutput" where
  "queue_output q = \<lparr>qo_name = qr_name q, qo_concurrency = qr_concurrency q, qo_worker_concurrency = qr_workerConcurrency q,
     qo_rate_limit_max = qr_rateLimitMax q, qo_rate_limit_period = qr_rateLimitPeriodMS q, qo_priority_enabled = qr_priorityEnabled q,
     qo_partition_queue = qr_partitionQueue q, qo_polling_interval = qr_pollingIntervalMS q\<rparr>"

section \<open>Requests\<close>

record ListWorkflowsBody =
  lb_workflow_uuids :: "string list option"
  lb_workflow_name :: "string_filter option"
  lb_authenticated_user :: "string_filter option"
  lb_start_time :: "int option"
  lb_end_time :: "int option"
  lb_completed_after :: "int option"
  lb_completed_before :: "int option"
  lb_dequeued_after :: "int option"
  lb_dequeued_before :: "int option"
  lb_status :: "string_filter option"
  lb_application_version :: "string_filter option"
  lb_forked_from :: "string_filter option"
  lb_parent_workflow_id :: "string_filter option"
  lb_queue_name :: "string_filter option"
  lb_limit :: "int option"
  lb_offset :: "int option"
  lb_sort_desc :: bool
  lb_workflow_id_prefix :: "string_filter option"
  lb_load_input :: "bool option"
  lb_load_output :: "bool option"
  lb_executor_id :: "string_filter option"
  lb_queues_only :: "bool option"
  lb_was_forked_from :: "bool option"
  lb_has_parent :: "bool option"
  lb_attributes :: "(string \<times> json) list option"
  lb_schedule_name :: "string_filter option"

record ForkWorkflowBody =
  kb_workflow_id :: string
  kb_start_step :: int
  kb_application_version :: "string option"
  kb_new_workflow_id :: "string option"
  kb_queue_name :: "string option"
  kb_queue_partition_key :: "string option"

record ForkFromFailureBody =
  kf_workflow_ids :: "string list"
  kf_application_version :: "string option"
  kf_queue_name :: "string option"
  kf_queue_partition_key :: "string option"
  kf_from_last_failure :: "bool option"
  kf_from_last_step :: "bool option"
  kf_from_step :: "int option"
  kf_from_step_name :: "string option"

record RetentionBody =
  rb_gc_cutoff_epoch_ms :: "int option"
  rb_gc_rows_threshold :: "int option"
  rb_timeout_cutoff_epoch_ms :: "int option"

record ListSchedulesBody =
  sb_status :: "string_filter option"
  sb_workflow_name :: "string_filter option"
  sb_schedule_name_prefix :: "string_filter option"
  sb_load_context :: "bool option"

text \<open>The flags of an aggregate that the message may leave out; the filters are those of the operation's own input.\<close>

record GetWorkflowAggregatesBody =
  gb_group_by_status :: "bool option"
  gb_group_by_name :: "bool option"
  gb_group_by_queue_name :: "bool option"
  gb_group_by_executor_id :: "bool option"
  gb_group_by_application_version :: "bool option"
  gb_select_count :: "bool option"
  gb_select_min_created_at :: "bool option"
  gb_select_max_queue_wait_ms :: "bool option"
  gb_select_max_total_latency_ms :: "bool option"
  gb_time_bucket_size_ms :: "int option"
  gb_status :: "string list option"
  gb_start_time :: "int option"
  gb_end_time :: "int option"
  gb_completed_after :: "int option"
  gb_completed_before :: "int option"
  gb_dequeued_after :: "int option"
  gb_dequeued_before :: "int option"
  gb_name :: "string list option"
  gb_app_version :: "string list option"
  gb_executor_id :: "string list option"
  gb_queue_name :: "string list option"
  gb_workflow_id_prefix :: "string list option"
  gb_workflow_uuids :: "string list option"
  gb_authenticated_user :: "string list option"
  gb_forked_from :: "string list option"
  gb_parent_workflow_id :: "string list option"
  gb_schedule_name :: "string list option"
  gb_queues_only :: "bool option"
  gb_was_forked_from :: "bool option"
  gb_has_parent :: "bool option"
  gb_attributes :: "(string \<times> json) list option"

record GetStepAggregatesBody =
  tb_group_by_function_name :: "bool option"
  tb_group_by_status :: "bool option"
  tb_select_count :: "bool option"
  tb_select_max_duration_ms :: "bool option"
  tb_time_bucket_size_ms :: "int option"
  tb_status :: "string list option"
  tb_function_name :: "string list option"
  tb_workflow_id_prefix :: "string list option"
  tb_completed_after :: "int option"
  tb_completed_before :: "int option"

datatype conductor_request =
    ExecutorInfoRequest
  | RecoveryRequest "string list"
  | CancelRequest string bool "string list option"
  | DeleteRequest string "bool option" "string list option"
  | ListWorkflowsRequest ListWorkflowsBody
  | ListQueuedWorkflowsRequest ListWorkflowsBody
  | ResumeRequest string "string list option" "string option"
  | RestartRequest string
  | GetWorkflowRequest string "bool option" "bool option"
  | ExistPendingWorkflowsRequest string string
  | ListStepsRequest string "bool option" "nat option" "nat option"
  | ForkWorkflowRequest ForkWorkflowBody
  | RetentionRequest RetentionBody
  | GetMetricsRequest int int string
  | ExportWorkflowRequest string "bool option"
  | ImportWorkflowRequest string
  | AlertRequest string string "(string \<times> string) list"
  | ListSchedulesRequest ListSchedulesBody
  | GetScheduleRequest string "bool option"
  | PauseScheduleRequest string
  | ResumeScheduleRequest string
  | BackfillScheduleRequest string int int
  | TriggerScheduleRequest string
  | ListApplicationVersionsRequest
  | SetLatestApplicationVersionRequest string
  | GetWorkflowEventsRequest string
  | GetWorkflowNotificationsRequest string
  | GetWorkflowStreamsRequest string
  | GetWorkflowAggregatesRequest GetWorkflowAggregatesBody
  | GetStepAggregatesRequest GetStepAggregatesBody
  | ForkFromFailureRequest ForkFromFailureBody
  | ListQueuesRequest
  | GetQueueRequest string
  | UnknownRequest string

fun MessageType :: "conductor_request \<Rightarrow> string" where
  "MessageType ExecutorInfoRequest = ''executor_info''"
| "MessageType (RecoveryRequest _) = ''recovery''"
| "MessageType (CancelRequest _ _ _) = ''cancel''"
| "MessageType (DeleteRequest _ _ _) = ''delete''"
| "MessageType (ListWorkflowsRequest _) = ''list_workflows''"
| "MessageType (ListQueuedWorkflowsRequest _) = ''list_queued_workflows''"
| "MessageType (ResumeRequest _ _ _) = ''resume''"
| "MessageType (RestartRequest _) = ''restart''"
| "MessageType (GetWorkflowRequest _ _ _) = ''get_workflow''"
| "MessageType (ExistPendingWorkflowsRequest _ _) = ''exist_pending_workflows''"
| "MessageType (ListStepsRequest _ _ _ _) = ''list_steps''"
| "MessageType (ForkWorkflowRequest _) = ''fork_workflow''"
| "MessageType (RetentionRequest _) = ''retention''"
| "MessageType (GetMetricsRequest _ _ _) = ''get_metrics''"
| "MessageType (ExportWorkflowRequest _ _) = ''export_workflow''"
| "MessageType (ImportWorkflowRequest _) = ''import_workflow''"
| "MessageType (AlertRequest _ _ _) = ''alert''"
| "MessageType (ListSchedulesRequest _) = ''list_schedules''"
| "MessageType (GetScheduleRequest _ _) = ''get_schedule''"
| "MessageType (PauseScheduleRequest _) = ''pause_schedule''"
| "MessageType (ResumeScheduleRequest _) = ''resume_schedule''"
| "MessageType (BackfillScheduleRequest _ _ _) = ''backfill_schedule''"
| "MessageType (TriggerScheduleRequest _) = ''trigger_schedule''"
| "MessageType ListApplicationVersionsRequest = ''list_application_versions''"
| "MessageType (SetLatestApplicationVersionRequest _) = ''set_latest_application_version''"
| "MessageType (GetWorkflowEventsRequest _) = ''get_workflow_events''"
| "MessageType (GetWorkflowNotificationsRequest _) = ''get_workflow_notifications''"
| "MessageType (GetWorkflowStreamsRequest _) = ''get_workflow_streams''"
| "MessageType (GetWorkflowAggregatesRequest _) = ''get_workflow_aggregates''"
| "MessageType (GetStepAggregatesRequest _) = ''get_step_aggregates''"
| "MessageType (ForkFromFailureRequest _) = ''fork_from_failure''"
| "MessageType ListQueuesRequest = ''list_queues''"
| "MessageType (GetQueueRequest _) = ''get_queue''"
| "MessageType (UnknownRequest t) = t"

section \<open>Responses\<close>

text \<open>Events and streams are given as the maps from their keys; the order of the entries is left open.\<close>

datatype response_body =
    ExecutorInfoBody string string string string string "json option"
  | SuccessBody bool
  | NewWorkflowIDBody "string option"
  | ForkedWorkflowIDsBody "string list option"
  | WorkflowsBody "WorkflowsOutput list"
  | WorkflowBody "WorkflowsOutput option"
  | ExistBody bool
  | StepsBody "WorkflowSteps list option"
  | MetricsBody "MetricData list"
  | SerializedWorkflowBody "string option"
  | SchedulesBody "ScheduleOutput list"
  | ScheduleBody "ScheduleOutput option"
  | WorkflowIDsBody "string list"
  | WorkflowIDBody "string option"
  | VersionsBody "ApplicationVersionOutput list"
  | EventsBody "(string \<rightharpoonup> string) option"
  | NotificationsBody "NotificationOutput list option"
  | StreamsBody "(string \<rightharpoonup> string list) option"
  | WorkflowAggregatesBody "WorkflowAggregateOutput list"
  | StepAggregatesBody "StepAggregateOutput list"
  | QueuesBody "QueueOutput list"
  | QueueBody "QueueOutput option"
  | NoBody

record BaseResponse =
  rp_type :: string
  rp_request_id :: string
  rp_error_message :: "string option"
  rp_body :: response_body

end
