(* ===== verification/Conductor.thy ===== *)
theory Conductor
  imports Conductor_Protocol
begin

text \<open>
  The handler of the conductor's messages (the \<open>message\<close> listener in \<open>dispatchLoop\<close> of \<open>src/conductor/conductor.ts\<close>): one definition
  per message type, each a function of the process, the request's ID and the database to the response that is sent and the new database.
\<close>

section \<open>Answering\<close>

type_synonym answer = "sysdb \<Rightarrow> BaseResponse \<times> sysdb"

definition response :: "string \<Rightarrow> conductor_request \<Rightarrow> string option \<Rightarrow> response_body \<Rightarrow> BaseResponse" where
  "response request_id msg errorMsg body =
     \<lparr>rp_type = MessageType msg, rp_request_id = request_id, rp_error_message = errorMsg, rp_body = body\<rparr>"

text \<open>The \<open>try\<close> block of a case: \<open>good\<close> is the response's body for the value of \<open>m\<close>, \<open>bad\<close> its body when \<open>m\<close> throws.\<close>

definition attempt ::
  "conductor_env \<Rightarrow> string \<Rightarrow> conductor_request \<Rightarrow> string \<Rightarrow> ('a \<Rightarrow> response_body) \<Rightarrow> response_body \<Rightarrow> 'a db_op \<Rightarrow> answer" where
  "attempt cv rid msg what good bad m db =
     (case m db of
        (Inl e, db') \<Rightarrow> (response rid msg (Some (what @ '': '' @ error_message (cv_pgMessage cv) e)) bad, db')
      | (Inr x, db') \<Rightarrow> (response rid msg None (good x), db'))"

definition succeed :: "conductor_env \<Rightarrow> string \<Rightarrow> conductor_request \<Rightarrow> string \<Rightarrow> 'a db_op \<Rightarrow> answer" where
  "succeed cv rid msg what m = attempt cv rid msg what (\<lambda>_. SuccessBody True) (SuccessBody False) m"

definition given_ids :: "string list option \<Rightarrow> string \<Rightarrow> string list" where
  "given_ids ids workflow_id = coalesce ids [workflow_id]"

definition quoted :: "string \<Rightarrow> string" where
  "quoted s = [CHR 0x27] @ s @ [CHR 0x27]"

definition or_undefined :: "string option \<Rightarrow> string" where
  "or_undefined v = coalesce v ''undefined''"

section \<open>The process and its workflows\<close>

definition on_executor_info :: "conductor_env \<Rightarrow> string \<Rightarrow> answer" where
  "on_executor_info cv rid db = (response rid ExecutorInfoRequest None
     (ExecutorInfoBody (cv_executorID cv) (gp_appVersion (ae_globals (cv_api cv))) (cv_hostname cv) ''typescript'' (cv_dbosVersion cv)
       (cv_executorMetadata cv)), db)"

definition on_recovery :: "conductor_env \<Rightarrow> string \<Rightarrow> string list \<Rightarrow> answer" where
  "on_recovery cv rid executor_ids = succeed cv rid (RecoveryRequest executor_ids) ''Exception encountered when recovering workflows''
     (recoverPendingWorkflows (cv_now cv) (ae_globals (cv_api cv)) executor_ids)"

definition on_cancel :: "conductor_env \<Rightarrow> string \<Rightarrow> string \<Rightarrow> bool \<Rightarrow> string list option \<Rightarrow> answer" where
  "on_cancel cv rid workflow_id cancel_children ids =
     (let cancelIds = given_ids ids workflow_id
      in succeed cv rid (CancelRequest workflow_id cancel_children ids)
           (''Exception encountered when cancelling workflow(s) '' @ js_join '','' cancelIds)
           (cancelWorkflows (cv_now cv) cancelIds cancel_children))"

definition on_delete :: "conductor_env \<Rightarrow> string \<Rightarrow> string \<Rightarrow> bool option \<Rightarrow> string list option \<Rightarrow> answer" where
  "on_delete cv rid workflow_id delete_children ids =
     (let deleteIds = given_ids ids workflow_id
      in succeed cv rid (DeleteRequest workflow_id delete_children ids)
           (''Exception encountered when deleting workflow(s) '' @ js_join '','' deleteIds)
           (deleteWorkflows deleteIds (coalesce delete_children False)))"

definition on_resume :: "conductor_env \<Rightarrow> string \<Rightarrow> string \<Rightarrow> string list option \<Rightarrow> string option \<Rightarrow> answer" where
  "on_resume cv rid workflow_id ids queue_name =
     (let resumeIds = given_ids ids workflow_id
      in succeed cv rid (ResumeRequest workflow_id ids queue_name)
           (''Exception encountered when resuming workflow(s) '' @ js_join '','' resumeIds)
           (resumeWorkflows (cv_now cv) resumeIds queue_name))"

definition no_fork_options :: fork_options where
  "no_fork_options = \<lparr>fo_applicationVersion = None, fo_timeoutMS = None, fo_queueName = None, fo_queuePartitionKey = None, fo_replacementChildren = []\<rparr>"

definition on_restart :: "conductor_env \<Rightarrow> string \<Rightarrow> string \<Rightarrow> answer" where
  "on_restart cv rid workflow_id = succeed cv rid (RestartRequest workflow_id) (''Exception encountered when restarting workflow '' @ workflow_id)
     (forkWorkflow (cv_now cv) (ae_uuid (cv_api cv)) workflow_id 0 None no_fork_options)"

definition on_fork_workflow :: "conductor_env \<Rightarrow> string \<Rightarrow> ForkWorkflowBody \<Rightarrow> answer" where
  "on_fork_workflow cv rid b = attempt cv rid (ForkWorkflowRequest b)
     (''Exception encountered when forking workflow '' @ kb_workflow_id b @ '' to new workflow '' @ or_undefined (kb_new_workflow_id b) @ '' on step '' @
      show_int (kb_start_step b) @ '', app version '' @ or_undefined (kb_application_version b))
     (\<lambda>newWorkflowID. NewWorkflowIDBody (Some newWorkflowID)) (NewWorkflowIDBody None)
     (forkWorkflow (cv_now cv) (ae_uuid (cv_api cv)) (kb_workflow_id b) (kb_start_step b) (kb_new_workflow_id b)
       (no_fork_options\<lparr>fo_applicationVersion := kb_application_version b, fo_queueName := kb_queue_name b,
         fo_queuePartitionKey := kb_queue_partition_key b\<rparr>))"

definition on_fork_from_failure :: "conductor_env \<Rightarrow> string \<Rightarrow> ForkFromFailureBody \<Rightarrow> answer" where
  "on_fork_from_failure cv rid b = attempt cv rid (ForkFromFailureRequest b) ''Exception encountered when bulk forking workflows''
     (\<lambda>ids. ForkedWorkflowIDsBody (Some ids)) (ForkedWorkflowIDsBody None)
     (forkFromFailure (cv_now cv) (map (cv_uuids cv) [0..<length (kf_workflow_ids b)]) (kf_workflow_ids b)
       \<lparr>fm_fromLastFailure = coalesce (kf_from_last_failure b) False, fm_fromLastStep = coalesce (kf_from_last_step b) False,
        fm_fromStep = kf_from_step b, fm_fromStepName = kf_from_step_name b\<rparr>
       (no_fork_options\<lparr>fo_applicationVersion := kf_application_version b, fo_queueName := kf_queue_name b,
         fo_queuePartitionKey := kf_queue_partition_key b\<rparr>))"

section \<open>Listings\<close>

definition listed_input :: "ListWorkflowsBody \<Rightarrow> bool \<Rightarrow> GetWorkflowsInput" where
  "listed_input b queuesOnly = \<lparr>
     gi_workflowIDs = lb_workflow_uuids b, gi_workflowName = lb_workflow_name b, gi_status = lb_status b, gi_startTime = lb_start_time b,
     gi_endTime = lb_end_time b, gi_completedAfter = lb_completed_after b, gi_completedBefore = lb_completed_before b,
     gi_dequeuedAfter = lb_dequeued_after b, gi_dequeuedBefore = lb_dequeued_before b, gi_authenticatedUser = lb_authenticated_user b,
     gi_applicationVersion = lb_application_version b, gi_executorId = lb_executor_id b, gi_workflow_id_prefix = lb_workflow_id_prefix b,
     gi_queueName = lb_queue_name b, gi_queuesOnly = queuesOnly, gi_forkedFrom = lb_forked_from b, gi_wasForkedFrom = lb_was_forked_from b,
     gi_parentWorkflowID = lb_parent_workflow_id b, gi_hasParent = lb_has_parent b, gi_attributes = lb_attributes b,
     gi_scheduleName = lb_schedule_name b, gi_limit = lb_limit b, gi_offset = lb_offset b, gi_sortDesc = lb_sort_desc b,
     gi_loadInput = coalesce (lb_load_input b) False, gi_loadOutput = coalesce (lb_load_output b) False\<rparr>"

definition on_list_workflows :: "conductor_env \<Rightarrow> string \<Rightarrow> ListWorkflowsBody \<Rightarrow> answer" where
  "on_list_workflows cv rid b = attempt cv rid (ListWorkflowsRequest b) ''Exception encountered when listing workflows''
     (\<lambda>wfs. WorkflowsBody (map (new_WorkflowsOutput cv) wfs)) (WorkflowsBody [])
     (list_workflows (cv_ser cv) (listed_input b (coalesce (lb_queues_only b) False)))"

definition on_list_queued_workflows :: "conductor_env \<Rightarrow> string \<Rightarrow> ListWorkflowsBody \<Rightarrow> answer" where
  "on_list_queued_workflows cv rid b = attempt cv rid (ListQueuedWorkflowsRequest b) ''Exception encountered when listing queued workflows''
     (\<lambda>wfs. WorkflowsBody (map (new_WorkflowsOutput cv) wfs)) (WorkflowsBody [])
     (listQueuedWorkflows (cv_ser cv) (listed_input b False))"

definition on_get_workflow :: "conductor_env \<Rightarrow> string \<Rightarrow> string \<Rightarrow> bool option \<Rightarrow> bool option \<Rightarrow> answer" where
  "on_get_workflow cv rid workflow_id load_input load_output =
     attempt cv rid (GetWorkflowRequest workflow_id load_input load_output) (''Exception encountered when getting workflow '' @ workflow_id)
       (\<lambda>wfs. WorkflowBody (case wfs of [] \<Rightarrow> None | w # _ \<Rightarrow> Some (new_WorkflowsOutput cv w))) (WorkflowBody None)
       (list_workflows (cv_ser cv) (all_workflows\<lparr>gi_workflowIDs := Some [workflow_id],
          gi_loadInput := coalesce load_input True, gi_loadOutput := coalesce load_output True\<rparr>))"

definition on_exist_pending :: "conductor_env \<Rightarrow> string \<Rightarrow> string \<Rightarrow> string \<Rightarrow> answer" where
  "on_exist_pending cv rid executor_id application_version =
     attempt cv rid (ExistPendingWorkflowsRequest executor_id application_version) ''Exception encountered when checking for pending workflows''
       ExistBody (ExistBody False) (gets (\<lambda>db. getPendingWorkflows executor_id application_version db \<noteq> []))"

definition on_list_steps :: "conductor_env \<Rightarrow> string \<Rightarrow> string \<Rightarrow> bool option \<Rightarrow> nat option \<Rightarrow> nat option \<Rightarrow> answer" where
  "on_list_steps cv rid workflow_id load_output limit offset =
     attempt cv rid (ListStepsRequest workflow_id load_output limit offset) (''Exception encountered when listing steps '' @ workflow_id)
       (\<lambda>steps. StepsBody (map_option (map (new_WorkflowSteps cv)) steps)) (StepsBody None)
       (listWorkflowSteps (cv_ser cv) (cv_now cv) workflow_id (coalesce load_output True) limit offset)"

definition on_retention :: "conductor_env \<Rightarrow> string \<Rightarrow> RetentionBody \<Rightarrow> answer" where
  "on_retention cv rid b = succeed cv rid (RetentionRequest b) ''Exception encountered during enforcing retention policy''
     (and_then (garbageCollect (rb_gc_cutoff_epoch_ms b) (rb_gc_rows_threshold b)) (\<lambda>_.
       case nonzero (rb_timeout_cutoff_epoch_ms b) of
         None \<Rightarrow> ret ()
       | Some cutoff \<Rightarrow> globalTimeout (cv_ser cv) (cv_others cv) (cv_now cv) cutoff))"

definition on_get_metrics :: "conductor_env \<Rightarrow> string \<Rightarrow> int \<Rightarrow> int \<Rightarrow> string \<Rightarrow> answer" where
  "on_get_metrics cv rid start_time end_time metric_class =
     (if metric_class = ''workflow_step_count''
      then attempt cv rid (GetMetricsRequest start_time end_time metric_class) ''Exception encountered when getting metrics''
        MetricsBody (MetricsBody []) (gets (getMetrics start_time end_time))
      else (\<lambda>db. (response rid (GetMetricsRequest start_time end_time metric_class) (Some (''Unexpected metric class: '' @ metric_class))
        (MetricsBody []), db)))"

section \<open>Export, import and alerts\<close>

definition on_export_workflow :: "conductor_env \<Rightarrow> string \<Rightarrow> string \<Rightarrow> bool option \<Rightarrow> answer" where
  "on_export_workflow cv rid workflow_id export_children =
     attempt cv rid (ExportWorkflowRequest workflow_id export_children) (''Exception encountered when exporting workflow '' @ workflow_id)
       (\<lambda>exported. SerializedWorkflowBody (if exported = [] then None else Some (cv_gzip cv (exported_text exported))))
       (SerializedWorkflowBody None) (exportWorkflow workflow_id (coalesce export_children False))"

definition imported :: "conductor_env \<Rightarrow> string \<Rightarrow> dbos_error + ExportedWorkflow list" where
  "imported cv serialized = (case cv_gunzip cv serialized of
       Inl e \<Rightarrow> Inl e
     | Inr text \<Rightarrow> (case read_exported text of None \<Rightarrow> Inl (cv_malformed cv text) | Some es \<Rightarrow> Inr es))"

definition on_import_workflow :: "conductor_env \<Rightarrow> string \<Rightarrow> string \<Rightarrow> answer" where
  "on_import_workflow cv rid serialized_workflow =
     succeed cv rid (ImportWorkflowRequest serialized_workflow) ''Exception encountered when importing workflow''
       (and_then (lift_sum (imported cv serialized_workflow)) importWorkflow)"

definition on_alert :: "conductor_env \<Rightarrow> string \<Rightarrow> string \<Rightarrow> string \<Rightarrow> (string \<times> string) list \<Rightarrow> answer" where
  "on_alert cv rid name message metadata =
     succeed cv rid (AlertRequest name message metadata) ''Exception in alert handler''
       (case cv_alertHandler cv of
          None \<Rightarrow> ret ()
        | Some handler \<Rightarrow> (case handler name message metadata of None \<Rightarrow> ret () | Some e \<Rightarrow> throw e))"

section \<open>Schedules and versions\<close>

definition on_list_schedules :: "conductor_env \<Rightarrow> string \<Rightarrow> ListSchedulesBody \<Rightarrow> answer" where
  "on_list_schedules cv rid b = attempt cv rid (ListSchedulesRequest b) ''Exception encountered when listing schedules'' SchedulesBody (SchedulesBody [])
     (and_then (listSchedules \<lparr>sf_status = sb_status b, sf_workflowName = sb_workflow_name b, sf_scheduleNamePrefix = sb_schedule_name_prefix b\<rparr>)
       (\<lambda>scheds. lift_sum (schedule_outputs cv (coalesce (sb_load_context b) True) scheds)))"

definition on_get_schedule :: "conductor_env \<Rightarrow> string \<Rightarrow> string \<Rightarrow> bool option \<Rightarrow> answer" where
  "on_get_schedule cv rid schedule_name load_context =
     attempt cv rid (GetScheduleRequest schedule_name load_context) (''Exception encountered when getting schedule '' @ schedule_name)
       ScheduleBody (ScheduleBody None)
       (and_then (gets (getSchedule schedule_name)) (\<lambda>sched. case sched of
          None \<Rightarrow> ret None
        | Some s \<Rightarrow> lift_sum (map_sum id Some (schedule_output cv (coalesce load_context True) s))))"

definition on_pause_schedule :: "conductor_env \<Rightarrow> string \<Rightarrow> string \<Rightarrow> answer" where
  "on_pause_schedule cv rid schedule_name = succeed cv rid (PauseScheduleRequest schedule_name)
     (''Exception encountered when pausing schedule '' @ quoted schedule_name) (setScheduleStatus schedule_name ''PAUSED'')"

definition on_resume_schedule :: "conductor_env \<Rightarrow> string \<Rightarrow> string \<Rightarrow> answer" where
  "on_resume_schedule cv rid schedule_name = succeed cv rid (ResumeScheduleRequest schedule_name)
     (''Exception encountered when resuming schedule '' @ quoted schedule_name) (setScheduleStatus schedule_name ''ACTIVE'')"

definition on_backfill_schedule :: "conductor_env \<Rightarrow> string \<Rightarrow> string \<Rightarrow> int \<Rightarrow> int \<Rightarrow> answer" where
  "on_backfill_schedule cv rid schedule_name start end' =
     attempt cv rid (BackfillScheduleRequest schedule_name start end') (''Exception encountered when backfilling schedule '' @ quoted schedule_name)
       WorkflowIDsBody (WorkflowIDsBody []) (backfillSchedule (cv_ser cv) (ae_zones (cv_api cv)) (cv_now cv) schedule_name start end')"

definition on_trigger_schedule :: "conductor_env \<Rightarrow> string \<Rightarrow> string \<Rightarrow> answer" where
  "on_trigger_schedule cv rid schedule_name =
     attempt cv rid (TriggerScheduleRequest schedule_name) (''Exception encountered when triggering schedule '' @ quoted schedule_name)
       (\<lambda>w. WorkflowIDBody (Some w)) (WorkflowIDBody None) (triggerSchedule (cv_ser cv) (cv_now cv) schedule_name)"

definition on_list_application_versions :: "conductor_env \<Rightarrow> string \<Rightarrow> answer" where
  "on_list_application_versions cv rid =
     attempt cv rid ListApplicationVersionsRequest ''Exception encountered when listing application versions''
       VersionsBody (VersionsBody []) (gets (map version_output \<circ> listApplicationVersions))"

definition on_set_latest_application_version :: "conductor_env \<Rightarrow> string \<Rightarrow> string \<Rightarrow> answer" where
  "on_set_latest_application_version cv rid version_name = succeed cv rid (SetLatestApplicationVersionRequest version_name)
     (''Exception encountered when setting latest application version '' @ quoted version_name)
     (updateApplicationVersionTimestamp version_name (cv_now cv))"

section \<open>Events, messages and streams\<close>

text \<open>\<open>safeParse\<close> on a column that may be \<open>NULL\<close>.\<close>

definition parse_column :: "conductor_env \<Rightarrow> string option \<Rightarrow> string option \<Rightarrow> js_value" where
  "parse_column cv val serialization =
     (case deserializeValue (cv_ser cv) val serialization of Inr v \<Rightarrow> v | Inl _ \<Rightarrow> (case val of None \<Rightarrow> JsNull | Some s \<Rightarrow> JsStr s))"

definition on_get_workflow_events :: "conductor_env \<Rightarrow> string \<Rightarrow> string \<Rightarrow> answer" where
  "on_get_workflow_events cv rid workflow_id =
     attempt cv rid (GetWorkflowEventsRequest workflow_id) (''Exception encountered when getting events for workflow '' @ workflow_id)
       (EventsBody \<circ> Some) (EventsBody None)
       (gets (\<lambda>db. map_option (inspectForConductor cv) \<circ> getAllEvents (parse_column cv) workflow_id db))"

definition on_get_workflow_notifications :: "conductor_env \<Rightarrow> string \<Rightarrow> string \<Rightarrow> answer" where
  "on_get_workflow_notifications cv rid workflow_id =
     attempt cv rid (GetWorkflowNotificationsRequest workflow_id) (''Exception encountered when getting notifications for workflow '' @ workflow_id)
       (NotificationsBody \<circ> Some) (NotificationsBody None)
       (gets (\<lambda>db. map (notification_output cv) (getAllNotifications (parse_column cv) workflow_id db)))"

definition on_get_workflow_streams :: "conductor_env \<Rightarrow> string \<Rightarrow> string \<Rightarrow> answer" where
  "on_get_workflow_streams cv rid workflow_id =
     attempt cv rid (GetWorkflowStreamsRequest workflow_id) (''Exception encountered when getting streams for workflow '' @ workflow_id)
       (StreamsBody \<circ> Some) (StreamsBody None)
       (gets (\<lambda>db. map_option (map (inspectForConductor cv)) \<circ>
          getAllStreamEntries (parse_column cv) (\<lambda>v. v = JsStr DBOS_STREAM_CLOSED_SENTINEL) workflow_id db))"

section \<open>Aggregates and queues\<close>

text \<open>Older clients send no \<open>select_\<close> flags and expect counts.\<close>

definition aggregate_input :: "GetWorkflowAggregatesBody \<Rightarrow> GetWorkflowAggregatesInput" where
  "aggregate_input b =
     (let flag = (\<lambda>v. coalesce v False);
          minCreatedAt = flag (gb_select_min_created_at b); maxWait = flag (gb_select_max_queue_wait_ms b);
          maxLatency = flag (gb_select_max_total_latency_ms b);
          selectCount = (flag (gb_select_count b) \<or> \<not> (minCreatedAt \<or> maxWait \<or> maxLatency))
      in \<lparr>wi_groupByStatus = flag (gb_group_by_status b), wi_groupByName = flag (gb_group_by_name b),
          wi_groupByQueueName = flag (gb_group_by_queue_name b), wi_groupByExecutorId = flag (gb_group_by_executor_id b),
          wi_groupByApplicationVersion = flag (gb_group_by_application_version b), wi_selectCount = selectCount,
          wi_selectMinCreatedAt = minCreatedAt, wi_selectMaxQueueWaitMs = maxWait, wi_selectMaxTotalLatencyMs = maxLatency,
          wi_timeBucketSizeMs = gb_time_bucket_size_ms b, wi_status = gb_status b, wi_startTime = gb_start_time b, wi_endTime = gb_end_time b,
          wi_completedAfter = gb_completed_after b, wi_completedBefore = gb_completed_before b, wi_dequeuedAfter = gb_dequeued_after b,
          wi_dequeuedBefore = gb_dequeued_before b, wi_name = gb_name b, wi_appVersion = gb_app_version b, wi_executorId = gb_executor_id b,
          wi_queueName = gb_queue_name b, wi_workflowIdPrefix = gb_workflow_id_prefix b, wi_workflowIDs = gb_workflow_uuids b,
          wi_authenticatedUser = gb_authenticated_user b, wi_forkedFrom = gb_forked_from b, wi_wasForkedFrom = gb_was_forked_from b,
          wi_parentWorkflowID = gb_parent_workflow_id b, wi_hasParent = gb_has_parent b, wi_queuesOnly = flag (gb_queues_only b),
          wi_attributes = gb_attributes b, wi_scheduleName = gb_schedule_name b\<rparr>)"

definition on_get_workflow_aggregates :: "conductor_env \<Rightarrow> string \<Rightarrow> GetWorkflowAggregatesBody \<Rightarrow> answer" where
  "on_get_workflow_aggregates cv rid b =
     attempt cv rid (GetWorkflowAggregatesRequest b) ''Exception encountered when getting workflow aggregates''
       (\<lambda>rows. WorkflowAggregatesBody (map aggregate_output rows)) (WorkflowAggregatesBody []) (getWorkflowAggregates (aggregate_input b))"

definition step_aggregate_input :: "GetStepAggregatesBody \<Rightarrow> GetStepAggregatesInput" where
  "step_aggregate_input b =
     (let flag = (\<lambda>v. coalesce v False); maxDuration = flag (tb_select_max_duration_ms b)
      in \<lparr>ti_groupByFunctionName = flag (tb_group_by_function_name b), ti_groupByStatus = flag (tb_group_by_status b),
          ti_selectCount = (flag (tb_select_count b) \<or> \<not> maxDuration), ti_selectMaxDurationMs = maxDuration,
          ti_timeBucketSizeMs = tb_time_bucket_size_ms b, ti_status = tb_status b, ti_functionName = tb_function_name b,
          ti_workflowIdPrefix = tb_workflow_id_prefix b, ti_completedAfter = tb_completed_after b, ti_completedBefore = tb_completed_before b\<rparr>)"

definition on_get_step_aggregates :: "conductor_env \<Rightarrow> string \<Rightarrow> GetStepAggregatesBody \<Rightarrow> answer" where
  "on_get_step_aggregates cv rid b =
     attempt cv rid (GetStepAggregatesRequest b) ''Exception encountered when getting step aggregates''
       (\<lambda>rows. StepAggregatesBody (map step_aggregate_output rows)) (StepAggregatesBody []) (getStepAggregates (step_aggregate_input b))"

definition on_list_queues :: "conductor_env \<Rightarrow> string \<Rightarrow> answer" where
  "on_list_queues cv rid = attempt cv rid ListQueuesRequest ''Exception encountered when listing queues'' QueuesBody (QueuesBody [])
     (gets (map queue_output \<circ> listQueues))"

definition on_get_queue :: "conductor_env \<Rightarrow> string \<Rightarrow> string \<Rightarrow> answer" where
  "on_get_queue cv rid name = attempt cv rid (GetQueueRequest name) (''Exception encountered when getting queue '' @ name) QueueBody (QueueBody None)
     (gets (map_option queue_output \<circ> getQueue name))"

section \<open>The dispatch on the type\<close>

fun on_message :: "conductor_env \<Rightarrow> string \<Rightarrow> conductor_request \<Rightarrow> answer" where
  "on_message cv rid ExecutorInfoRequest = on_executor_info cv rid"
| "on_message cv rid (RecoveryRequest ids) = on_recovery cv rid ids"
| "on_message cv rid (CancelRequest w children ids) = on_cancel cv rid w children ids"
| "on_message cv rid (DeleteRequest w children ids) = on_delete cv rid w children ids"
| "on_message cv rid (ListWorkflowsRequest b) = on_list_workflows cv rid b"
| "on_message cv rid (ListQueuedWorkflowsRequest b) = on_list_queued_workflows cv rid b"
| "on_message cv rid (ResumeRequest w ids q) = on_resume cv rid w ids q"
| "on_message cv rid (RestartRequest w) = on_restart cv rid w"
| "on_message cv rid (GetWorkflowRequest w li lo) = on_get_workflow cv rid w li lo"
| "on_message cv rid (ExistPendingWorkflowsRequest x v) = on_exist_pending cv rid x v"
| "on_message cv rid (ListStepsRequest w lo n m) = on_list_steps cv rid w lo n m"
| "on_message cv rid (ForkWorkflowRequest b') = on_fork_workflow cv rid b'"
| "on_message cv rid (RetentionRequest rb) = on_retention cv rid rb"
| "on_message cv rid (GetMetricsRequest s e c) = on_get_metrics cv rid s e c"
| "on_message cv rid (ExportWorkflowRequest w children') = on_export_workflow cv rid w children'"
| "on_message cv rid (ImportWorkflowRequest t) = on_import_workflow cv rid t"
| "on_message cv rid (AlertRequest n t md) = on_alert cv rid n t md"
| "on_message cv rid (ListSchedulesRequest sb) = on_list_schedules cv rid sb"
| "on_message cv rid (GetScheduleRequest n lc) = on_get_schedule cv rid n lc"
| "on_message cv rid (PauseScheduleRequest n) = on_pause_schedule cv rid n"
| "on_message cv rid (ResumeScheduleRequest n) = on_resume_schedule cv rid n"
| "on_message cv rid (BackfillScheduleRequest n s e) = on_backfill_schedule cv rid n s e"
| "on_message cv rid (TriggerScheduleRequest n) = on_trigger_schedule cv rid n"
| "on_message cv rid ListApplicationVersionsRequest = on_list_application_versions cv rid"
| "on_message cv rid (SetLatestApplicationVersionRequest n) = on_set_latest_application_version cv rid n"
| "on_message cv rid (GetWorkflowEventsRequest w) = on_get_workflow_events cv rid w"
| "on_message cv rid (GetWorkflowNotificationsRequest w) = on_get_workflow_notifications cv rid w"
| "on_message cv rid (GetWorkflowStreamsRequest w) = on_get_workflow_streams cv rid w"
| "on_message cv rid (GetWorkflowAggregatesRequest gb) = on_get_workflow_aggregates cv rid gb"
| "on_message cv rid (GetStepAggregatesRequest tb) = on_get_step_aggregates cv rid tb"
| "on_message cv rid (ForkFromFailureRequest kf) = on_fork_from_failure cv rid kf"
| "on_message cv rid ListQueuesRequest = on_list_queues cv rid"
| "on_message cv rid (GetQueueRequest n) = on_get_queue cv rid n"
| "on_message cv rid (UnknownRequest t) = (\<lambda>db. (response rid (UnknownRequest t) (Some ''Unknown message type'') NoBody, db))"

end
