(* ===== verification/Conductor_Answers.thy ===== *)
theory Conductor_Answers
  imports Conductor
begin

text \<open>
  What the answers to the conductor's messages show: every message is answered, the error message tells whether the operation was
  performed, reading changes nothing and a failure leaves nothing behind; a workflow is moved between databases by its text.
\<close>

section \<open>Answers\<close>

lemma attempt_snd [simp]: "snd (attempt cv rid msg what good bad m db) = snd (m db)"
  by (auto simp: attempt_def split: prod.splits sum.splits)

lemma attempt_fields [simp]:
  "rp_type (fst (attempt cv rid msg what good bad m db)) = MessageType msg"
  "rp_request_id (fst (attempt cv rid msg what good bad m db)) = rid"
  "(rp_error_message (fst (attempt cv rid msg what good bad m db)) = None) = (\<not> isl (fst (m db)))"
  by (auto simp: attempt_def response_def split: prod.splits sum.splits)

lemma attempt_body: "rp_body (fst (attempt cv rid msg what good bad m db)) = case_sum (\<lambda>_. bad) good (fst (m db))"
  by (auto simp: attempt_def response_def split: prod.splits sum.splits)

lemma succeed_simps [simp]:
  "snd (succeed cv rid msg what m db) = snd (m db)" "rp_type (fst (succeed cv rid msg what m db)) = MessageType msg"
  "rp_request_id (fst (succeed cv rid msg what m db)) = rid"
  "(rp_error_message (fst (succeed cv rid msg what m db)) = None) = (\<not> isl (fst (m db)))"
  "rp_body (fst (succeed cv rid msg what m db)) = SuccessBody (\<not> isl (fst (m db)))"
  by (simp_all add: succeed_def attempt_body split: sum.splits)

lemmas handlers = on_executor_info_def on_recovery_def on_cancel_def on_delete_def on_resume_def on_restart_def on_fork_workflow_def
  on_fork_from_failure_def on_list_workflows_def on_list_queued_workflows_def on_get_workflow_def on_exist_pending_def on_list_steps_def
  on_retention_def on_get_metrics_def on_export_workflow_def on_import_workflow_def on_alert_def on_list_schedules_def on_get_schedule_def
  on_pause_schedule_def on_resume_schedule_def on_backfill_schedule_def on_trigger_schedule_def on_list_application_versions_def
  on_set_latest_application_version_def on_get_workflow_events_def on_get_workflow_notifications_def on_get_workflow_streams_def
  on_get_workflow_aggregates_def on_get_step_aggregates_def on_list_queues_def on_get_queue_def

lemma message_fields:
  "rp_type (fst (on_message cv rid msg db)) = MessageType msg" "rp_request_id (fst (on_message cv rid msg db)) = rid"
  by (cases msg; simp add: handlers Let_def; simp add: response_def)+

lemma message_success:
  "rp_body (fst (on_message cv rid msg db)) = SuccessBody b \<Longrightarrow> b = (rp_error_message (fst (on_message cv rid msg db)) = None)"
  by (cases msg; simp add: handlers attempt_body Let_def split: sum.splits if_splits; simp add: response_def)

section \<open>Reading\<close>

lemma listings_keep [keep_rules]: "preserves I (list_workflows env gi)" "preserves I (listQueuedWorkflows env gi)"
  unfolding list_workflows_def listQueuedWorkflows_def by (intro keep_rules)+

lemma status_read_keeps: "preserves I (getWorkflowStatus s e w None None)"
  by (auto simp: getWorkflowStatus_def funcGetStatus_def intro!: keep_rules split: sum.splits)

lemma readers_keep [keep_rules]:
  "preserves I (listWorkflowSteps env now w lo n m)" "preserves I (listSchedules sf)" "preserves I (getWorkflowAggregates wi)"
  "preserves I (getStepAggregates ti)" "preserves I (exportWorkflow w c)"
  unfolding listWorkflowSteps_def
  by (intro keep_rules status_read_keeps)
    (simp_all add: preserves_def listSchedules_def getWorkflowAggregates_def getStepAggregates_def exportWorkflow_def split: option.splits)

text \<open>Requests that only read.\<close>

fun reads :: "conductor_request \<Rightarrow> bool" where
  "reads (RecoveryRequest _) = False"
| "reads (CancelRequest _ _ _) = False"
| "reads (DeleteRequest _ _ _) = False"
| "reads (ResumeRequest _ _ _) = False"
| "reads (RestartRequest _) = False"
| "reads (ForkWorkflowRequest _) = False"
| "reads (RetentionRequest _) = False"
| "reads (ImportWorkflowRequest _) = False"
| "reads (PauseScheduleRequest _) = False"
| "reads (ResumeScheduleRequest _) = False"
| "reads (BackfillScheduleRequest _ _ _) = False"
| "reads (TriggerScheduleRequest _) = False"
| "reads (SetLatestApplicationVersionRequest _) = False"
| "reads (ForkFromFailureRequest _) = False"
| "reads _ = True"

lemma preserves_same: "(\<And>I. preserves I m) \<Longrightarrow> snd (m db) = db"
  using preserves_snd [of "\<lambda>s. s = db" m db] by simp

lemma alert_keeps: "preserves I (case h of None \<Rightarrow> ret () | Some f \<Rightarrow> (case f n t md of None \<Rightarrow> ret () | Some e \<Rightarrow> throw e))"
  by (intro keep_rules)

lemma get_schedule_keeps: "preserves I (and_then (gets f) (\<lambda>s. case s of None \<Rightarrow> ret None | Some x \<Rightarrow> lift_sum (g x)))"
  by (intro keep_rules)

lemma list_schedules_keeps: "preserves I (and_then (listSchedules sf) (\<lambda>x. lift_sum (g x)))"
  by (intro keep_rules)

lemma reads_nothing_written: "reads msg \<Longrightarrow> snd (on_message cv rid msg db) = db"
  by (cases msg; simp add: handlers; (rule preserves_same, (rule alert_keeps get_schedule_keeps list_schedules_keeps | intro keep_rules))?)

section \<open>Changing\<close>

lemma more_operations_reach [keep_rules]:
  "preserves (reaches db0) (deleteWorkflows ids cc)" "preserves (reaches db0) (resumeWorkflows now ids qn)"
  "preserves (reaches db0) (garbageCollect cutoff thr)" "preserves (reaches db0) (bulkForkWorkflows now origs forks steps fo)"
  "preserves (reaches db0) (forkFromFailure now us ids mode fo)" "preserves (reaches db0) (importWorkflow es)"
  "preserves (reaches db0) (setScheduleStatus n n')" "preserves (reaches db0) (updateApplicationVersionTimestamp n tm)"
  by (rule preserves_reachesI, rule sysdb_step.intros)+

lemma forkWorkflow_reaches [keep_rules]: "preserves (reaches db0) (forkWorkflow now u w s n opts)"
  unfolding forkWorkflow_def by (intro keep_rules)

lemma globalTimeout_reaches:
  assumes "\<And>n db. sysdb_step\<^sup>*\<^sup>* db (others n db)"
  shows "preserves (reaches db0) (globalTimeout env others now cutoff)"
proof -
  have "preserves (reaches db0) (modify (others n))" for n
    using assms by (intro preserves_modify) (auto simp: reaches_def intro: rtranclp_trans)
  then show ?thesis unfolding globalTimeout_def timeout_status_def cancel_each_eq by (intro keep_rules)
qed

lemma run_reaches: "preserves (reaches db) m \<Longrightarrow> sysdb_step\<^sup>*\<^sup>* db (snd (m db))"
  using preserves_snd [of "reaches db" m db] by (simp add: reaches_def)

lemma message_reaches:
  assumes "\<And>n db. sysdb_step\<^sup>*\<^sup>* db (cv_others cv n db)"
  shows "sysdb_step\<^sup>*\<^sup>* db (snd (on_message cv rid msg db))"
proof (cases "reads msg")
  case True
  then show ?thesis by (simp add: reads_nothing_written)
next
  case False
  note globalTimeout_reaches [OF assms, keep_rules]
  show ?thesis
    by (insert False, cases msg; simp add: handlers Let_def; (rule run_reaches, intro keep_rules)?)
qed

section \<open>Failing\<close>

text \<open>An operation that leaves nothing behind when it throws.\<close>

definition undone :: "'a db_op \<Rightarrow> bool" where
  "undone m = (\<forall>db. isl (fst (m db)) \<longrightarrow> snd (m db) = db)"

lemma undoneD: "undone m \<Longrightarrow> isl (fst (m db)) \<Longrightarrow> snd (m db) = db"
  by (simp add: undone_def)

lemma undone_basic: "undone (ret x)" "undone (throw e)" "undone (gets f)" "undone (lift_sum v)" "undone (transaction m)"
  by (auto simp: undone_def lift_sum_def transaction_def split: prod.splits sum.splits)

lemma undone_read: "(\<And>I. preserves I m) \<Longrightarrow> (\<And>x. undone (k x)) \<Longrightarrow> undone (and_then m k)"
  using preserves_same [of m] by (auto simp: undone_def and_then_def split: prod.splits sum.splits) (metis snd_conv)+

lemma undone_ret: "undone m \<Longrightarrow> undone (and_then m (\<lambda>x. ret (f x)))"
  by (auto simp: undone_def and_then_def split: prod.splits sum.splits) (metis fst_conv snd_conv sum.disc(1))

lemma undone_cases:
  "undone m \<Longrightarrow> undone m' \<Longrightarrow> undone (if b then m else m')"
  "undone m \<Longrightarrow> (\<And>x. undone (k x)) \<Longrightarrow> undone (case v of None \<Rightarrow> m | Some x \<Rightarrow> k x)"
  by (simp_all split: option.split)

lemma never_fails: "(\<And>db. \<not> isl (fst (m db))) \<Longrightarrow> undone m"
  by (simp add: undone_def)

lemma updates_never_fail:
  "undone (cancelWorkflows now ids cc)" "undone (resumeWorkflows now ids qn)" "undone (deleteWorkflows ids cc)" "undone (setScheduleStatus n n')"
  "undone (updateApplicationVersionTimestamp n t)"
  by (rule never_fails; simp add: cancelWorkflows_def resumeWorkflows_def deleteWorkflows_def setScheduleStatus_def
      updateApplicationVersionTimestamp_def Let_def)+

lemma forks_undone: "undone (bulkForkWorkflows now os fs ss opts)" "undone (forkWorkflow now u w s n opts)" "undone (forkFromFailure now us ws mode opts)"
proof -
  show bulk: "undone (bulkForkWorkflows now os fs ss opts)" for os fs ss
    unfolding bulkForkWorkflows_def by (intro undone_cases undone_basic)
  then show "undone (forkWorkflow now u w s n opts)" unfolding forkWorkflow_def by (intro undone_ret)
  from bulk show "undone (forkFromFailure now us ws mode opts)"
    unfolding undone_def by (auto simp: forkFromFailure_def split: option.splits)
qed

lemma init_undone: "undone (initWorkflowStatus now st xid False False None)"
  by (auto simp: undone_def initWorkflowStatus_def max_retries_exceeded_def Let_def split: prod.splits sum.splits if_splits)

lemma getLatest_keeps: "preserves I getLatestApplicationVersion"
  unfolding getLatestApplicationVersion_def by (intro keep_rules)

lemma trigger_undone: "undone (triggerSchedule env now name)"
  unfolding triggerSchedule_def enqueueScheduledWorkflow_def Let_def
  by (intro undone_read undone_cases undone_basic undone_ret init_undone getLatest_keeps keep_rules)

lemma import_undone: "undone (and_then (lift_sum v) importWorkflow)"
  unfolding importWorkflow_def by (intro undone_read undone_basic keep_rules)

lemmas undone_operations = updates_never_fail forks_undone trigger_undone import_undone

text \<open>Requests whose writes are one transaction. The others that write are performed in parts, each of which is kept when a later one
  fails (recovery, retention, backfilling, a cancellation or deletion with the descendants), or are single statements that fail
  only with the connection, which is not an outcome of the model.\<close>

fun one_transaction :: "conductor_request \<Rightarrow> bool" where
  "one_transaction (RestartRequest _) = True"
| "one_transaction (ForkWorkflowRequest _) = True"
| "one_transaction (ForkFromFailureRequest _) = True"
| "one_transaction (ImportWorkflowRequest _) = True"
| "one_transaction (TriggerScheduleRequest _) = True"
| "one_transaction _ = False"

lemma message_undone:
  assumes "one_transaction msg" and "rp_error_message (fst (on_message cv rid msg db)) \<noteq> None"
  shows "snd (on_message cv rid msg db) = db"
  by (insert assms, cases msg; simp add: handlers Let_def del: not_None_eq; (rule undoneD, (rule undone_operations), assumption)?)

text \<open>C6: every message of the conductor is answered once, with its own type and ID, whatever it asks for and in whatever state the database is.
  The flag \<open>success\<close> of an answer agrees with the absence of an error message. A request that reads does not change the database. A restart,
  a fork, a fork from the failed steps, an import and a trigger of a schedule that fail have not changed it either; of the other requests that write nothing is
  claimed when they fail. What a request changes is composed of the operations of the system database, so that every invariant of their runs is kept.\<close>

theorem conductor_answers_every_request:
  assumes "\<And>n db. sysdb_step\<^sup>*\<^sup>* db (cv_others cv n db)" and "on_message cv rid msg db = (resp, db')"
  shows "rp_type resp = MessageType msg \<and> rp_request_id resp = rid \<and>
    (\<forall>b. rp_body resp = SuccessBody b \<longrightarrow> b = (rp_error_message resp = None)) \<and>
    (reads msg \<or> one_transaction msg \<and> rp_error_message resp \<noteq> None \<longrightarrow> db' = db) \<and> sysdb_step\<^sup>*\<^sup>* db db'"
  using assms(2) message_fields [of cv rid msg db] message_success [of cv rid msg db] message_undone [of msg cv rid db]
    reads_nothing_written [of msg cv rid db] message_reaches [of cv db rid msg, OF assms(1)] by (auto simp del: not_None_eq)

text \<open>A process with an invertible encoding in place of \<open>gzip\<close>.\<close>

definition example_conductor :: conductor_env where
  "example_conductor = \<lparr>cv_api = example_api 500, cv_executorID = ''local'', cv_hostname = ''host'', cv_dbosVersion = ''1'', cv_executorMetadata = None,
     cv_inspect = (\<lambda>_. ''value''), cv_pgMessage = id, cv_gzip = rev, cv_gunzip = Inr \<circ> rev, cv_malformed = PlainError, cv_alertHandler = None,
     cv_others = (\<lambda>_ db. db), cv_uuids = show_nat\<rparr>"

theorem conductor_answers_every_request_witness:
  "rp_error_message (fst (on_message example_conductor ''r1'' (RestartRequest ''nope'') (example_db [example_row ''w'' PENDING]))) \<noteq> None \<and>
   rp_request_id (fst (on_message example_conductor ''r1'' (RestartRequest ''nope'') (example_db [example_row ''w'' PENDING]))) = ''r1'' \<and>
   snd (on_message example_conductor ''r1'' (RestartRequest ''nope'') (example_db [example_row ''w'' PENDING])) = example_db [example_row ''w'' PENDING]"
proof -
  let ?run = "on_message example_conductor ''r1'' (RestartRequest ''nope'') (example_db [example_row ''w'' PENDING])"
  have err: "rp_error_message (fst ?run) \<noteq> None"
    by (simp add: handlers forkWorkflow_def bulkForkWorkflows_def transaction_def missing_workflow_def workflow_ids_def del: not_None_eq)
  have "sysdb_step\<^sup>*\<^sup>* db (cv_others example_conductor n db)" for n db by (simp add: example_conductor_def)
  from conductor_answers_every_request [OF this prod.collapse [symmetric], of "''r1''" "RestartRequest ''nope''" "example_db [example_row ''w'' PENDING]"] err
  show ?thesis by (simp del: not_None_eq on_message.simps)
qed

section \<open>Moving a workflow\<close>

lemma exported_one:
  assumes "find_row ws_workflow_uuid w (t_workflow_status db) = Some r"
  obtains e where "exportWorkflow w False db = (Inr [e], db)" and "ex_workflow_status e = r\<lparr>ws_owner_xid := None\<rparr>"
  using assms by (auto simp: exportWorkflow_def export_one_def)

text \<open>C16: a workflow is moved from one application to another by its text. The answer to an export holds the workflow as compressed JSON; when
  another application imports that text into a well-formed database that does not know the workflow and does not hold its deduplication key, the
  import succeeds, the database stays well-formed, and an export from it gives the same text again: no column of the status, the steps, the
  events, their history and the streams is lost or changed by the serialization, for attributes that are an object.\<close>

theorem conductor_moves_workflow:
  assumes "find_row ws_workflow_uuid w (t_workflow_status db) = Some r" and "pred_option json_truthy (ws_attributes r)"
    and "db_wf db" and "db_wf db0" and "w \<notin> workflow_ids db0" and "\<forall>r'\<in>set (t_workflow_status db0). \<not> dedup_conflict r r'"
    and "\<And>t. cv_gunzip cv' (cv_gzip cv t) = Inr t"
  shows "\<exists>packed db1. on_message cv i (ExportWorkflowRequest w None) db =
      (response i (ExportWorkflowRequest w None) None (SerializedWorkflowBody (Some packed)), db) \<and>
    on_message cv' j (ImportWorkflowRequest packed) db0 = (response j (ImportWorkflowRequest packed) None (SuccessBody True), db1) \<and>
    db_wf db1 \<and> prefix (t_workflow_status db0) (t_workflow_status db1) \<and>
    on_message cv k (ExportWorkflowRequest w None) db1 =
      (response k (ExportWorkflowRequest w None) None (SerializedWorkflowBody (Some packed)), db1)"
proof -
  obtain e where e: "exportWorkflow w False db = (Inr [e], db)" "ex_workflow_status e = r\<lparr>ws_owner_xid := None\<rparr>"
    using exported_one [OF assms(1)] .
  have "\<forall>e'\<in>set [e]. \<forall>r'\<in>set (t_workflow_status db0). \<not> dedup_conflict (ex_workflow_status e') r'"
    using assms(6) by (simp add: e(2) dedup_conflict_def)
  from export_import_roundtrip [OF e(1) assms(3-5) this] obtain db1 where
    db1: "importWorkflow [e] db0 = (Inr (), db1)" "db_wf db1" "exportWorkflow w False db1 = (Inr [e], db1)"
      "prefix (t_workflow_status db0) (t_workflow_status db1)" by blast
  define packed where "packed = cv_gzip cv (exported_text [e])"
  have "read_exported (exported_text [e]) = Some [e]" using assms(2) by (intro read_exported_text) (simp add: e(2))
  then have "imported cv' packed = Inr [e]" by (simp add: imported_def packed_def assms(7))
  then have "on_message cv' j (ImportWorkflowRequest packed) db0 = (response j (ImportWorkflowRequest packed) None (SuccessBody True), db1)"
    using db1(1) by (simp add: on_import_workflow_def succeed_def attempt_def lift_sum_def and_then_def)
  moreover have "on_message cv l (ExportWorkflowRequest w None) d =
      (response l (ExportWorkflowRequest w None) None (SerializedWorkflowBody (Some packed)), d)" if "exportWorkflow w False d = (Inr [e], d)" for l d
    using that by (simp add: on_export_workflow_def attempt_def packed_def)
  ultimately show ?thesis using e(1) db1 by blast
qed

theorem conductor_moves_workflow_witness:
  "\<exists>packed db1. on_message example_conductor ''i'' (ExportWorkflowRequest ''w'' None) example_db2 =
      (response ''i'' (ExportWorkflowRequest ''w'' None) None (SerializedWorkflowBody (Some packed)), example_db2) \<and>
    on_message example_conductor ''j'' (ImportWorkflowRequest packed) (empty_sysdb ''e'' False) =
      (response ''j'' (ImportWorkflowRequest packed) None (SuccessBody True), db1) \<and> db_wf db1"
proof -
  let ?r = "hd (t_workflow_status example_db2)"
  have rows: "find_row ws_workflow_uuid ''w'' (t_workflow_status example_db2) = Some ?r" "ws_attributes ?r = None"
    by (simp_all add: example_db2_def example_row_def new_status_row_def example_init_def)
  have wf: "db_wf example_db2"
    by (simp add: example_db2_def db_wf_operation_outputs unique_key_def workflow_ids_def)
  have new: "''w'' \<notin> workflow_ids (empty_sysdb ''e'' False)" by (simp add: workflow_ids_def empty_sysdb_def)
  have gz: "cv_gunzip example_conductor (cv_gzip example_conductor t) = Inr t" for t by (simp add: example_conductor_def)
  have "\<forall>r'\<in>set (t_workflow_status (empty_sysdb ''e'' False)). \<not> dedup_conflict ?r r'" by (simp add: empty_sysdb_def)
  from conductor_moves_workflow [OF rows(1) _ wf db_wf_empty new this gz, of "''i''" "''j''" "''k''"] rows(2)
  show ?thesis by (auto simp del: on_message.simps)
qed

end
