(* ===== verification/Admin_Server.thy ===== *)
theory Admin_Server
  imports Conductor_Answers "HOL-Library.AList"
begin

text \<open>
  The admin server (\<open>src/adminserver.ts\<close>): its routes, the matching of paths, and the handlers, which call the same operations as the
  handler of the conductor's messages. A request has a method, the path of its URL and the text of its body; JSON values that do not have the
  type a handler expects are taken to be absent. \<open>new Date\<close> on a text is a parameter.
\<close>

section \<open>Requests, responses and routes\<close>

record admin_env =
  am_cv :: conductor_env
  am_date :: "string \<Rightarrow> int"
  am_wfQueuesByName :: "(string \<times> WorkflowQueue) list"

record http_request =
  hq_method :: string
  hq_pathname :: string
  hq_body :: string

record QueueMetadataResponse =
  qm_name :: string
  qm_concurrency :: "int option"
  qm_workerConcurrency :: "int option"
  qm_rateLimit :: "QueueRateLimit option"

datatype http_body =
    JsonError string
  | JsonWorkflowID string
  | JsonIDs "string list"
  | JsonSteps "WorkflowSteps list option"
  | JsonWorkflows "WorkflowsOutput list"
  | JsonWorkflow WorkflowsOutput
  | JsonQueues "QueueMetadataResponse list"
  | JsonStatus bool
  | JsonPerf
  | PlainText string
  | NoContent

record http_response =
  hr_status :: int
  hr_body :: http_body

definition sendJson :: "int \<Rightarrow> http_body \<Rightarrow> http_response" where
  "sendJson statusCode data = \<lparr>hr_status = statusCode, hr_body = data\<rparr>"

fun match_parts :: "string list \<Rightarrow> string list \<Rightarrow> (string \<times> string) list option" where
  "match_parts [] [] = Some []"
| "match_parts (p # ps) (q # qs) =
     (if starts_with '':'' p then map_option (Cons (drop 1 p, q)) (match_parts ps qs)
      else if p \<noteq> q then None else match_parts ps qs)"
| "match_parts _ _ = None"

definition matchPath :: "string \<Rightarrow> string \<Rightarrow> (string \<times> string) list option" where
  "matchPath pattern pathname = match_parts (js_split (CHR ''/'') pattern) (js_split (CHR ''/'') pathname)"

type_synonym handler = "admin_env \<Rightarrow> string \<Rightarrow> string \<Rightarrow> http_response db_op"

text \<open>A handler takes the value of \<open>workflow_id\<close>, the only parameter of any path (empty for paths without it), and the body.\<close>

record route =
  rt_method :: string
  rt_path :: string
  rt_handler :: handler

section \<open>Bodies\<close>

definition parseJsonBody :: "string \<Rightarrow> dbos_error + json" where
  "parseJsonBody body = (if body = [] then Inr (JObj [])
     else case JSON_parse body of Some j \<Rightarrow> Inr j | None \<Rightarrow> Inl (PlainError ''Invalid JSON''))"

text \<open>Reading a property of \<open>null\<close> throws.\<close>

definition object_body :: "string \<Rightarrow> json db_op" where
  "object_body body = and_then (lift_sum (parseJsonBody body)) (\<lambda>j. if j = JNull then throw (PlainError ''TypeError'') else ret j)"

definition body_field :: "string \<Rightarrow> json \<Rightarrow> json option" where
  "body_field k j = (case j of JObj ms \<Rightarrow> map_of (rev ms) k | _ \<Rightarrow> None)"

fun strings_of :: "json \<Rightarrow> string list option" where
  "strings_of (JArr js) = those (map (\<lambda>j. str_of (Some j)) js)"
| "strings_of (JStr s) = Some (map (\<lambda>c. [c]) s)"
| "strings_of _ = None"

definition filter_of :: "json option \<Rightarrow> string_filter option" where
  "filter_of v = (case v of
       Some (JStr s) \<Rightarrow> Some (One s)
     | Some (JArr js) \<Rightarrow> map_option Many (strings_of (JArr js))
     | _ \<Rightarrow> None)"

definition list_of :: "json option \<Rightarrow> string list option" where
  "list_of v = (case v of Some (JArr js) \<Rightarrow> strings_of (JArr js) | _ \<Rightarrow> None)"

section \<open>Handlers\<close>

definition health :: handler where
  "health am w body = ret (sendJson 200 (PlainText ''healthy''))"

definition queue_metadata :: "string \<Rightarrow> WorkflowQueue \<Rightarrow> QueueMetadataResponse" where
  "queue_metadata name q = \<lparr>qm_name = name, qm_concurrency = wq_concurrency q, qm_workerConcurrency = wq_workerConcurrency q, qm_rateLimit = wq_rateLimit q\<rparr>"

text \<open>The queues of the database, then those of the process, which win.\<close>

definition merged_queues :: "admin_env \<Rightarrow> sysdb \<Rightarrow> (string \<times> QueueMetadataResponse) list" where
  "merged_queues am db =
     fold (\<lambda>(qn, q). AList.update qn (queue_metadata qn q)) (am_wfQueuesByName am)
       (fold (\<lambda>r merged. if qr_name r = INTERNAL_QUEUE_NAME then merged
                else AList.update (qr_name r) (queue_metadata (qr_name r) (fromRecord r False)) merged) (listQueues db) [])"

definition queues_metadata :: handler where
  "queues_metadata am w body = gets (\<lambda>db. sendJson 200 (JsonQueues (map snd (merged_queues am db))))"

definition workflow_recovery :: handler where
  "workflow_recovery am w body =
     and_then (lift_sum (parseJsonBody body)) (\<lambda>j. case strings_of j of
         None \<Rightarrow> throw (PlainError ''TypeError'')
       | Some executorIDs \<Rightarrow>
           and_then (recoverPendingWorkflows (cv_now (am_cv am)) (ae_globals (cv_api (am_cv am))) executorIDs) (\<lambda>hs.
             ret (sendJson 200 (JsonIDs (map handle_id hs)))))"

definition perf :: handler where
  "perf am w body = ret (sendJson 200 JsonPerf)"

definition deactivate :: handler where
  "deactivate am w body = ret (sendJson 200 (PlainText ''Deactivated''))"

definition conductor_status :: handler where
  "conductor_status am w body = ret (sendJson 200 (JsonStatus True))"

definition garbage_collect :: handler where
  "garbage_collect am w body = and_then (object_body body) (\<lambda>j.
     and_then (garbageCollect (num_of (body_field ''cutoff_epoch_timestamp_ms'' j)) (num_of (body_field ''rows_threshold'' j))) (\<lambda>_.
       ret (sendJson 204 NoContent)))"

text \<open>\<open>new Date(undefined).toISOString()\<close> throws.\<close>

definition global_timeout :: handler where
  "global_timeout am w body = and_then (object_body body) (\<lambda>j.
     case num_of (body_field ''cutoff_epoch_timestamp_ms'' j) of
       None \<Rightarrow> throw (PlainError ''RangeError'')
     | Some cutoff \<Rightarrow> and_then (globalTimeout (cv_ser (am_cv am)) (cv_others (am_cv am)) (cv_now (am_cv am)) cutoff) (\<lambda>_.
         ret (sendJson 204 NoContent)))"

definition cancel_workflow :: handler where
  "cancel_workflow am w body = and_then (cancelWorkflows (cv_now (am_cv am)) [w] False) (\<lambda>_. ret (sendJson 204 NoContent))"

fun is_DBOSError :: "dbos_error \<Rightarrow> bool" where
  "is_DBOSError (PortableWorkflowError _ _ _ _) = False"
| "is_DBOSError (PlainError _) = False"
| "is_DBOSError (PgError _) = False"
| "is_DBOSError _ = True"

text \<open>The handlers that catch: other errors than those of this library are not shown.\<close>

definition caught :: "admin_env \<Rightarrow> string \<Rightarrow> http_response db_op \<Rightarrow> http_response db_op" where
  "caught am what m db = (case m db of
       (Inl e, db') \<Rightarrow> (Inr (sendJson 500 (JsonError (what @ '': '' @
          (if is_DBOSError e then error_message (cv_pgMessage (am_cv am)) e else ''Unknown error'')))), db')
     | r \<Rightarrow> r)"

definition resume_workflow :: handler where
  "resume_workflow am w body = caught am (''Error resuming workflow '' @ w)
     (and_then (resumeWorkflows (cv_now (am_cv am)) [w] None) (\<lambda>_. ret (sendJson 204 NoContent)))"

definition restart_workflow :: handler where
  "restart_workflow am w body =
     and_then (forkWorkflow (cv_now (am_cv am)) (ae_uuid (cv_api (am_cv am))) w 0 None no_fork_options) (\<lambda>i. ret (sendJson 200 (JsonWorkflowID i)))"

definition fork_workflow :: handler where
  "fork_workflow am w body = and_then (object_body body) (\<lambda>j.
     case num_of (body_field ''start_step'' j) of
       None \<Rightarrow> ret (sendJson 400 (JsonError ''Missing start_step in request body''))
     | Some start_step \<Rightarrow> caught am (''Error forking workflow '' @ w)
         (and_then (forkWorkflow (cv_now (am_cv am)) (ae_uuid (cv_api (am_cv am))) w start_step (str_of (body_field ''new_workflow_id'' j))
            (no_fork_options\<lparr>fo_applicationVersion := str_of (body_field ''application_version'' j), fo_timeoutMS := num_of (body_field ''timeout_ms'' j)\<rparr>))
          (\<lambda>i. ret (sendJson 200 (JsonWorkflowID i)))))"

definition list_steps :: handler where
  "list_steps am w body = and_then (listWorkflowSteps (cv_ser (am_cv am)) (cv_now (am_cv am)) w True None None) (\<lambda>steps.
     ret (sendJson 200 (JsonSteps (map_option (map (new_WorkflowSteps (am_cv am))) steps))))"

definition listed_body :: "admin_env \<Rightarrow> json \<Rightarrow> GetWorkflowsInput" where
  "listed_body am j = all_workflows\<lparr>
     gi_workflowIDs := list_of (body_field ''workflow_uuids'' j), gi_workflowName := filter_of (body_field ''workflow_name'' j),
     gi_authenticatedUser := filter_of (body_field ''authenticated_user'' j),
     gi_startTime := map_option (am_date am) (str_of (body_field ''start_time'' j)), gi_endTime := map_option (am_date am) (str_of (body_field ''end_time'' j)),
     gi_status := filter_of (body_field ''status'' j), gi_applicationVersion := filter_of (body_field ''application_version'' j),
     gi_forkedFrom := filter_of (body_field ''fork_from'' j), gi_parentWorkflowID := filter_of (body_field ''parent_workflow_id'' j),
     gi_limit := num_of (body_field ''limit'' j), gi_offset := num_of (body_field ''offset'' j),
     gi_sortDesc := coalesce (bool_of (body_field ''sort_desc'' j)) False, gi_workflow_id_prefix := filter_of (body_field ''workflow_id_prefix'' j),
     gi_loadInput := coalesce (bool_of (body_field ''load_input'' j)) False, gi_loadOutput := coalesce (bool_of (body_field ''load_output'' j)) False\<rparr>"

definition post_workflows :: handler where
  "post_workflows am w body = and_then (object_body body) (\<lambda>j.
     and_then (list_workflows (cv_ser (am_cv am)) (listed_body am j)) (\<lambda>wfs. ret (sendJson 200 (JsonWorkflows (map (new_WorkflowsOutput (am_cv am)) wfs)))))"

definition queued_body :: "admin_env \<Rightarrow> json \<Rightarrow> GetWorkflowsInput" where
  "queued_body am j = all_workflows\<lparr>
     gi_workflowName := filter_of (body_field ''workflow_name'' j),
     gi_startTime := map_option (am_date am) (str_of (body_field ''start_time'' j)), gi_endTime := map_option (am_date am) (str_of (body_field ''end_time'' j)),
     gi_status := filter_of (body_field ''status'' j), gi_forkedFrom := filter_of (body_field ''fork_from'' j),
     gi_parentWorkflowID := filter_of (body_field ''parent_workflow_id'' j), gi_queueName := filter_of (body_field ''queue_name'' j),
     gi_limit := num_of (body_field ''limit'' j), gi_offset := num_of (body_field ''offset'' j),
     gi_sortDesc := coalesce (bool_of (body_field ''sort_desc'' j)) False, gi_loadInput := coalesce (bool_of (body_field ''load_input'' j)) False\<rparr>"

definition post_queues :: handler where
  "post_queues am w body = and_then (object_body body) (\<lambda>j.
     and_then (listQueuedWorkflows (cv_ser (am_cv am)) (queued_body am j)) (\<lambda>wfs. ret (sendJson 200 (JsonWorkflows (map (new_WorkflowsOutput (am_cv am)) wfs)))))"

definition get_workflow :: handler where
  "get_workflow am w body = and_then (getWorkflow (cv_ser (am_cv am)) (cv_now (am_cv am)) w) (\<lambda>wf. ret (case wf of
       Some s \<Rightarrow> sendJson 200 (JsonWorkflow (new_WorkflowsOutput (am_cv am) s))
     | None \<Rightarrow> sendJson 404 (JsonError (''Workflow '' @ w @ '' not found''))))"

section \<open>The server\<close>

text \<open>In the order in which \<open>setupAdminApp\<close> registers them.\<close>

definition routes :: "route list" where
  "routes = map (\<lambda>(m, p, h). \<lparr>rt_method = m, rt_path = p, rt_handler = h\<rparr>)
    [(''GET'', ''/dbos-healthz'', health), (''POST'', ''/dbos-workflow-recovery'', workflow_recovery), (''GET'', ''/dbos-perf'', perf),
     (''GET'', ''/deactivate'', deactivate), (''GET'', ''/conductor'', conductor_status),
     (''POST'', ''/workflows/:workflow_id/cancel'', cancel_workflow), (''POST'', ''/workflows/:workflow_id/resume'', resume_workflow),
     (''POST'', ''/workflows/:workflow_id/restart'', restart_workflow), (''GET'', ''/dbos-workflow-queues-metadata'', queues_metadata),
     (''GET'', ''/workflows/:workflow_id/steps'', list_steps), (''POST'', ''/workflows'', post_workflows), (''POST'', ''/queues'', post_queues),
     (''GET'', ''/workflows/:workflow_id'', get_workflow), (''POST'', ''/workflows/:workflow_id/fork'', fork_workflow),
     (''POST'', ''/dbos-garbage-collect'', garbage_collect), (''POST'', ''/dbos-global-timeout'', global_timeout)]"

definition route_matches :: "http_request \<Rightarrow> route \<Rightarrow> bool" where
  "route_matches req r = (hq_method req = rt_method r \<and> matchPath (rt_path r) (hq_pathname req) \<noteq> None)"

definition workflow_param :: "route \<Rightarrow> http_request \<Rightarrow> string" where
  "workflow_param r req = coalesce (map_of (coalesce (matchPath (rt_path r) (hq_pathname req)) []) ''workflow_id'') []"

definition serve :: "admin_env \<Rightarrow> http_request \<Rightarrow> sysdb \<Rightarrow> http_response \<times> sysdb" where
  "serve am req db =
     (if hq_method req = ''OPTIONS'' then (sendJson 200 NoContent, db)
      else case List.find (route_matches req) routes of
        None \<Rightarrow> (sendJson 404 (PlainText ''Not Found''), db)
      | Some r \<Rightarrow> (case rt_handler r am (workflow_param r req) (hq_body req) db of
            (Inl e, db') \<Rightarrow> (sendJson 500 (JsonError ''Internal server error''), db')
          | (Inr resp, db') \<Rightarrow> (resp, db')))"

section \<open>Routing\<close>

lemma match_parts_length: "match_parts ps qs = Some params \<Longrightarrow> length ps = length qs"
  by (induction ps qs arbitrary: params rule: match_parts.induct) (auto split: if_splits)

text \<open>Two patterns that some path may match.\<close>

fun compatible :: "string list \<Rightarrow> string list \<Rightarrow> bool" where
  "compatible [] [] = True"
| "compatible (p # ps) (q # qs) = ((starts_with '':'' p \<or> starts_with '':'' q \<or> p = q) \<and> compatible ps qs)"
| "compatible _ _ = False"

lemma both_match: "match_parts ps xs \<noteq> None \<Longrightarrow> match_parts qs xs \<noteq> None \<Longrightarrow> compatible ps qs"
proof (induction ps xs arbitrary: qs rule: match_parts.induct)
  case (2 p ps x xs)
  then show ?case by (cases qs) (auto split: if_splits)
qed (auto elim: match_parts.elims)

definition patterns :: "(string \<times> string list \<times> string) list" where
  "patterns = map (\<lambda>r. (rt_method r, js_split (CHR ''/'') (rt_path r), rt_path r)) routes"

lemma patterns_distinct:
  "\<forall>(m, ps, p)\<in>set patterns. \<forall>(m', ps', p')\<in>set patterns. m = m' \<and> compatible ps ps' \<longrightarrow> p = p'"
  by (simp add: patterns_def routes_def)

lemma patterns_short: "r \<in> set routes \<Longrightarrow> length (js_split (CHR ''/'') (rt_path r)) \<le> 4"
  by (auto simp: routes_def)

lemma one_route:
  assumes "r \<in> set routes" and "r' \<in> set routes" and "route_matches req r" and "route_matches req r'"
  shows "rt_path r = rt_path r'"
proof -
  have "compatible (js_split (CHR ''/'') (rt_path r)) (js_split (CHR ''/'') (rt_path r'))"
    using assms(3,4) by (intro both_match) (auto simp: route_matches_def matchPath_def)
  moreover have "(rt_method r, js_split (CHR ''/'') (rt_path r), rt_path r) \<in> set patterns"
    "(rt_method r', js_split (CHR ''/'') (rt_path r'), rt_path r') \<in> set patterns" using assms(1,2) by (auto simp: patterns_def)
  moreover have "rt_method r = rt_method r'" using assms(3,4) by (simp add: route_matches_def)
  ultimately show ?thesis using patterns_distinct by fast
qed

lemma length_js_split: "length (js_split d s) = Suc (count_list s d)"
proof (induction s)
  case (Cons c s)
  then show ?case by (cases "js_split d s") auto
qed simp

text \<open>Paths below \<open>/workflows/\<close>.\<close>

definition workflow_path :: "string \<Rightarrow> string \<Rightarrow> string" where
  "workflow_path w action = ''/workflows/'' @ w @ (if action = [] then [] else CHR ''/'' # action)"

lemma split_workflow_path:
  assumes "CHR ''/'' \<notin> set w" and "CHR ''/'' \<notin> set action"
  shows "js_split (CHR ''/'') (workflow_path w action) = [[], ''workflows'', w] @ (if action = [] then [] else [action])"
  using assms js_split_append [of "CHR ''/''" w action] js_split_word [of "CHR ''/''"] by (simp add: workflow_path_def)

lemma deep_path_not_found:
  assumes "CHR ''/'' \<in> set w" and "action \<noteq> []" and "m \<noteq> ''OPTIONS''"
  shows "serve am \<lparr>hq_method = m, hq_pathname = workflow_path w action, hq_body = body\<rparr> db = (sendJson 404 (PlainText ''Not Found''), db)"
proof -
  have "4 < length (js_split (CHR ''/'') (workflow_path w action))"
    using assms(1,2) count_list_0_iff [of w "CHR ''/''"] by (simp add: length_js_split workflow_path_def)
  then have "matchPath (rt_path r) (workflow_path w action) = None" if "r \<in> set routes" for r
    using patterns_short [OF that] match_parts_length unfolding matchPath_def by (metis leD not_None_eq)
  then have "List.find (route_matches \<lparr>hq_method = m, hq_pathname = workflow_path w action, hq_body = body\<rparr>) routes = None"
    by (auto simp: find_None_iff route_matches_def)
  with assms(3) show ?thesis by (simp add: serve_def)
qed

definition handled :: "http_response db_op \<Rightarrow> sysdb \<Rightarrow> http_response \<times> sysdb" where
  "handled m db = (case m db of (Inl e, db') \<Rightarrow> (sendJson 500 (JsonError ''Internal server error''), db') | (Inr resp, db') \<Rightarrow> (resp, db'))"

lemma serve_workflow_path:
  assumes "CHR ''/'' \<notin> set w"
  shows "serve am \<lparr>hq_method = ''POST'', hq_pathname = workflow_path w ''cancel'', hq_body = body\<rparr> = handled (cancel_workflow am w body)"
    "serve am \<lparr>hq_method = ''POST'', hq_pathname = workflow_path w ''resume'', hq_body = body\<rparr> = handled (resume_workflow am w body)"
    "serve am \<lparr>hq_method = ''POST'', hq_pathname = workflow_path w ''restart'', hq_body = body\<rparr> = handled (restart_workflow am w body)"
    "serve am \<lparr>hq_method = ''POST'', hq_pathname = workflow_path w ''fork'', hq_body = body\<rparr> = handled (fork_workflow am w body)"
    "serve am \<lparr>hq_method = ''GET'', hq_pathname = workflow_path w ''steps'', hq_body = body\<rparr> = handled (list_steps am w body)"
    "serve am \<lparr>hq_method = ''GET'', hq_pathname = workflow_path w [], hq_body = body\<rparr> = handled (get_workflow am w body)"
  by (rule ext, simp add: serve_def routes_def route_matches_def matchPath_def workflow_param_def split_workflow_path [OF assms] handled_def)+

text \<open>the routes of the admin server do not overlap: at most one of them matches a request, so that the order of registration does not matter. A
  workflow whose ID has no slash is reached under its ID: cancelling it over HTTP cancels that workflow and no other. An ID
  with a slash cannot be addressed at all, since paths are split at slashes and their parts are not decoded: the answer is 404, and nothing is changed.\<close>

lemma admin_routes_requests:
  "(\<forall>req. \<forall>r\<in>set routes. \<forall>r'\<in>set routes. route_matches req r \<and> route_matches req r' \<longrightarrow> rt_path r = rt_path r') \<and>
   (\<forall>am w body db. serve am \<lparr>hq_method = ''POST'', hq_pathname = ''/workflows/'' @ w @ ''/cancel'', hq_body = body\<rparr> db =
     (if CHR ''/'' \<in> set w then (sendJson 404 (PlainText ''Not Found''), db)
      else (sendJson 204 NoContent, snd (cancelWorkflows (cv_now (am_cv am)) [w] False db))))"
proof (intro conjI ballI allI impI)
  show "rt_path r = rt_path r'" if "r \<in> set routes" "r' \<in> set routes" "route_matches req r \<and> route_matches req r'" for req r r'
    using that one_route by blast
  fix am w body db
  have "''/workflows/'' @ w @ ''/cancel'' = workflow_path w ''cancel''" by (simp add: workflow_path_def)
  then show "serve am \<lparr>hq_method = ''POST'', hq_pathname = ''/workflows/'' @ w @ ''/cancel'', hq_body = body\<rparr> db =
     (if CHR ''/'' \<in> set w then (sendJson 404 (PlainText ''Not Found''), db)
      else (sendJson 204 NoContent, snd (cancelWorkflows (cv_now (am_cv am)) [w] False db)))"
    using deep_path_not_found [of w "''cancel''" "''POST''"] serve_workflow_path(1) [of w]
    by (simp add: handled_def cancel_workflow_def cancelWorkflows_def)
qed

section \<open>The same answers as for the conductor\<close>

lemma getWorkflow_listed:
  assumes "db_wf db"
  shows "getWorkflow env now w db =
    and_then (list_workflows env (all_workflows\<lparr>gi_workflowIDs := Some [w]\<rparr>)) (\<lambda>wfs. ret (case wfs of [] \<Rightarrow> None | s # _ \<Rightarrow> Some s)) db"
proof (cases "find_row ws_workflow_uuid w (t_workflow_status db)")
  case None
  then show ?thesis using getWorkflowStatus_none [OF assms None] workflow_rows_id [OF assms, of w]
    by (simp add: getWorkflow_def list_workflows_def listWorkflows_def has_empty_list_def all_workflows_def and_then_def)
next
  case (Some r)
  have sel: "select_columns (all_workflows\<lparr>gi_workflowIDs := Some [w]\<rparr>) r = r" by (simp add: select_columns_def all_workflows_def)
  have listed: "listWorkflows (all_workflows\<lparr>gi_workflowIDs := Some [w]\<rparr>) db = (case mapWorkflowStatus r of
      None \<Rightarrow> (Inl (PlainError ''SyntaxError''), db) | Some st \<Rightarrow> (Inr [st], db))"
    using Some workflow_rows_id [OF assms, of w] sel
    by (simp add: listWorkflows_def has_empty_list_def all_workflows_def split: option.splits)
  show ?thesis
  proof (cases "mapWorkflowStatus r")
    case None
    with listed have "getWorkflowStatus now now w None None db = (Inl (PlainError ''SyntaxError''), db)"
      by (simp add: getWorkflowStatus_def funcGetStatus_def and_then_def)
    with None listed show ?thesis by (simp add: getWorkflow_def list_workflows_def and_then_def)
  next
    case (Some st)
    with listed getWorkflowStatus_row [OF assms \<open>find_row _ _ _ = Some r\<close> Some] show ?thesis
      by (simp add: getWorkflow_def list_workflows_def and_then_def)
  qed
qed

text \<open>How the admin server shows an answer to the conductor.\<close>

definition http_of :: "string \<Rightarrow> BaseResponse \<Rightarrow> http_response" where
  "http_of w r = (if rp_error_message r \<noteq> None then sendJson 500 (JsonError ''Internal server error'')
     else case rp_body r of
       WorkflowBody None \<Rightarrow> sendJson 404 (JsonError (''Workflow '' @ w @ '' not found''))
     | WorkflowBody (Some s) \<Rightarrow> sendJson 200 (JsonWorkflow s)
     | StepsBody steps \<Rightarrow> sendJson 200 (JsonSteps steps)
     | _ \<Rightarrow> sendJson 204 NoContent)"

lemma attempt_http:
  "map_prod (http_of w) id (attempt cv rid msg what good bad m db) =
     (case m db of (Inl e, db') \<Rightarrow> (sendJson 500 (JsonError ''Internal server error''), db')
      | (Inr x, db') \<Rightarrow> (http_of w (response rid msg None (good x)), db'))"
  by (auto simp: attempt_def http_of_def response_def split: prod.splits sum.splits)

text \<open>C29: the two management interfaces agree. Cancelling, resuming and reading a workflow and listing its steps over HTTP has the
  same effect on the database as the conductor's message for it, and shows the same data; an error of the conductor's answer is status 500, a
  missing workflow status 404. The admin server reads one status and the conductor lists workflows by ID; the two give the same.\<close>

theorem admin_agrees_with_conductor:
  assumes "CHR ''/'' \<notin> set w" and "db_wf db"
  shows "serve am \<lparr>hq_method = ''POST'', hq_pathname = ''/workflows/'' @ w @ ''/cancel'', hq_body = body\<rparr> db =
      map_prod (http_of w) id (on_message (am_cv am) i (CancelRequest w False None) db) \<and>
    serve am \<lparr>hq_method = ''POST'', hq_pathname = ''/workflows/'' @ w @ ''/resume'', hq_body = body\<rparr> db =
      map_prod (http_of w) id (on_message (am_cv am) i (ResumeRequest w None None) db) \<and>
    serve am \<lparr>hq_method = ''GET'', hq_pathname = ''/workflows/'' @ w @ ''/steps'', hq_body = body\<rparr> db =
      map_prod (http_of w) id (on_message (am_cv am) i (ListStepsRequest w None None None) db) \<and>
    serve am \<lparr>hq_method = ''GET'', hq_pathname = ''/workflows/'' @ w, hq_body = body\<rparr> db =
      map_prod (http_of w) id (on_message (am_cv am) i (GetWorkflowRequest w None None) db)"
proof (intro conjI)
  have paths: "''/workflows/'' @ w @ ''/cancel'' = workflow_path w ''cancel''" "''/workflows/'' @ w @ ''/resume'' = workflow_path w ''resume''"
    "''/workflows/'' @ w @ ''/steps'' = workflow_path w ''steps''" "''/workflows/'' @ w = workflow_path w []" by (simp_all add: workflow_path_def)
  note served = serve_workflow_path [OF assms(1)]
  show "serve am \<lparr>hq_method = ''POST'', hq_pathname = ''/workflows/'' @ w @ ''/cancel'', hq_body = body\<rparr> db =
      map_prod (http_of w) id (on_message (am_cv am) i (CancelRequest w False None) db)"
    unfolding paths served by (simp add: on_cancel_def succeed_def attempt_http handled_def cancel_workflow_def cancelWorkflows_def given_ids_def
        http_of_def response_def)
  show "serve am \<lparr>hq_method = ''POST'', hq_pathname = ''/workflows/'' @ w @ ''/resume'', hq_body = body\<rparr> db =
      map_prod (http_of w) id (on_message (am_cv am) i (ResumeRequest w None None) db)"
    unfolding paths served by (simp add: on_resume_def succeed_def attempt_http handled_def resume_workflow_def caught_def resumeWorkflows_def
        given_ids_def http_of_def response_def)
  show "serve am \<lparr>hq_method = ''GET'', hq_pathname = ''/workflows/'' @ w @ ''/steps'', hq_body = body\<rparr> db =
      map_prod (http_of w) id (on_message (am_cv am) i (ListStepsRequest w None None None) db)"
    unfolding paths served by (simp add: on_list_steps_def attempt_http handled_def list_steps_def and_then_def http_of_def response_def
        split: prod.splits sum.splits)
  have all: "all_workflows\<lparr>gi_workflowIDs := Some [w], gi_loadInput := True, gi_loadOutput := True\<rparr> = all_workflows\<lparr>gi_workflowIDs := Some [w]\<rparr>"
    by (simp add: all_workflows_def)
  show "serve am \<lparr>hq_method = ''GET'', hq_pathname = ''/workflows/'' @ w, hq_body = body\<rparr> db =
      map_prod (http_of w) id (on_message (am_cv am) i (GetWorkflowRequest w None None) db)"
    unfolding paths served by (simp add: on_get_workflow_def attempt_http handled_def get_workflow_def getWorkflow_listed [OF assms(2)] and_then_def all
        http_of_def response_def split: prod.splits sum.splits list.splits)
qed

theorem admin_agrees_with_conductor_witness:
  "fst (serve \<lparr>am_cv = example_conductor, am_date = (\<lambda>_. 0), am_wfQueuesByName = []\<rparr>
     \<lparr>hq_method = ''GET'', hq_pathname = ''/workflows/'' @ ''nope'', hq_body = []\<rparr> (example_db [example_row ''w'' PENDING])) =
   http_of ''nope'' (fst (on_message example_conductor ''i'' (GetWorkflowRequest ''nope'' None None) (example_db [example_row ''w'' PENDING])))"
proof -
  have "db_wf (example_db [example_row ''w'' PENDING])" by (rule db_wf_example) (simp_all add: unique_key_def dedup_unique_def dedup_conflict_def)
  from admin_agrees_with_conductor [OF _ this, of "''nope''" "\<lparr>am_cv = example_conductor, am_date = (\<lambda>_. 0), am_wfQueuesByName = []\<rparr>" "[]" "''i''"]
  show ?thesis by (simp del: on_message.simps)
qed

end
