(* ===== verification/Migrations.thy ===== *)
theory Migrations
  imports DBOS_Prelude JS_Text
begin

text \<open>
  The runner of the system database's migrations (\<open>src/sysdb_migrations/migration_runner.ts\<close>): the version table, errors that are ignored because a statement
  was applied before, indexes left invalid by an interrupted build, and the loop. The PostgreSQL server is a parameter: what a statement does to the
  objects of a database, and which indexes are invalid. Every statement commits by itself.
\<close>

section \<open>The server\<close>

record pg_error =
  pe_code :: "string option"
  pe_message :: "string option"

record 'd pg_client =
  pc_query :: "string \<Rightarrow> 'd \<Rightarrow> pg_error option \<times> 'd"
  pc_hasTable :: "'d \<Rightarrow> bool"
  pc_invalidIndexes :: "'d \<Rightarrow> string list"

record DBMigration =
  mg_name :: "string option"
  mg_pg :: "string list option"
  mg_online :: bool

text \<open>The state is the objects of the database and the rows of \<open>dbos_migrations\<close>, which count only if that table exists.\<close>

type_synonym 'd mig_state = "'d \<times> int list"
type_synonym ('d, 'a) mig_op = "('d mig_state, pg_error, 'a) op"

definition query :: "'d pg_client \<Rightarrow> string \<Rightarrow> ('d, unit) mig_op" where
  "query client stmt = (\<lambda>(d, vs). case pc_query client stmt d of
       (Some e, d') \<Rightarrow> (Inl e, (d', vs))
     | (None, d') \<Rightarrow> (Inr (), (d', vs)))"

definition getCurrentSysDBVersion :: "'d pg_client \<Rightarrow> 'd mig_state \<Rightarrow> int" where
  "getCurrentSysDBVersion client = (\<lambda>(d, vs). if \<not> pc_hasTable client d then 0 else if vs = [] then 0 else Max (set vs))"

section \<open>Statements\<close>

definition DEFAULT_IGNORABLE_CODES :: "string list" where
  "DEFAULT_IGNORABLE_CODES = [''42P07'', ''42710'', ''42701'', ''42P06'', ''23505'']"

text \<open>The pattern \<open>multiple.*?not allowed\<close> on one line.\<close>

fun multiple_not_allowed :: "string \<Rightarrow> bool" where
  "multiple_not_allowed [] = False"
| "multiple_not_allowed (c # cs) =
     (starts_with ''multiple'' (c # cs) \<and>
        js_includes ''not allowed'' (takeWhile (\<lambda>x. x \<noteq> CHR 0x0A \<and> x \<noteq> CHR 0x0D) (drop 8 (c # cs))) \<or>
      multiple_not_allowed cs)"

definition isDDLAlreadyAppliedPgError :: "pg_error \<Rightarrow> string list \<Rightarrow> bool" where
  "isDDLAlreadyAppliedPgError err ignoreCodes =
     (truthy (pe_code err) \<and> coalesce (pe_code err) [] \<in> set ignoreCodes \<or>
      (let msg = to_lower (coalesce (pe_message err) [])
       in js_includes ''already exists'' msg \<or> js_includes ''duplicate'' msg \<or> multiple_not_allowed msg))"

definition run_ignoring :: "'d pg_client \<Rightarrow> string list \<Rightarrow> string \<Rightarrow> ('d, unit) mig_op" where
  "run_ignoring client ignoreCodes stmt st = (case query client stmt st of
       (Inl err, st') \<Rightarrow> if isDDLAlreadyAppliedPgError err ignoreCodes then (Inr (), st') else (Inl err, st')
     | r \<Rightarrow> r)"

definition runStatementsIgnoring :: "'d pg_client \<Rightarrow> string list \<Rightarrow> string list \<Rightarrow> ('d, unit) mig_op" where
  "runStatementsIgnoring client stmts ignoreCodes = for_each (run_ignoring client ignoreCodes) stmts"

definition in_quotes :: "string \<Rightarrow> string" where
  "in_quotes s = dquote # s @ [dquote]"

definition drop_index :: "string \<Rightarrow> string \<Rightarrow> string" where
  "drop_index schemaName relname = ''DROP INDEX CONCURRENTLY IF EXISTS '' @ in_quotes schemaName @ ''.'' @ in_quotes relname"

definition cleanupInvalidIndexes :: "'d pg_client \<Rightarrow> string \<Rightarrow> ('d, unit) mig_op" where
  "cleanupInvalidIndexes client schemaName =
     and_then (gets (pc_invalidIndexes client \<circ> fst)) (\<lambda>rels. for_each (\<lambda>r. query client (drop_index schemaName r)) rels)"

definition bumpMigrationVersion :: "'d pg_client \<Rightarrow> int \<Rightarrow> ('d, unit) mig_op" where
  "bumpMigrationVersion client version = modify (\<lambda>(d, vs).
     if \<not> pc_hasTable client d then (d, vs) else if vs = [] then (d, [version]) else (d, map (\<lambda>_. version) vs))"

section \<open>The loop\<close>

record migrator =
  mr_client_schema :: string
  mr_ignoreErrorCodes :: "string list"
  mr_isCockroach :: bool

definition concurrently :: "migrator \<Rightarrow> DBMigration \<Rightarrow> bool" where
  "concurrently opts m = (mg_online m \<and> \<not> mr_isCockroach opts)"

definition stmts_of :: "DBMigration \<Rightarrow> string list" where
  "stmts_of m = coalesce (mg_pg m) []"

definition run_statements :: "'d pg_client \<Rightarrow> migrator \<Rightarrow> DBMigration \<Rightarrow> ('d, unit) mig_op" where
  "run_statements client opts m =
     (if concurrently opts m
      then and_then (cleanupInvalidIndexes client (mr_client_schema opts)) (\<lambda>_. for_each (query client) (stmts_of m))
      else runStatementsIgnoring client (stmts_of m) (mr_ignoreErrorCodes opts))"

record mig_counts =
  mc_applied :: int
  mc_skipped :: int
  mc_lastAppliedVersion :: int

fun apply_migrations :: "'d pg_client \<Rightarrow> migrator \<Rightarrow> int \<Rightarrow> int \<Rightarrow> DBMigration list \<Rightarrow> mig_counts \<Rightarrow> ('d, mig_counts) mig_op" where
  "apply_migrations client opts current i [] counts = ret counts"
| "apply_migrations client opts current i (m # ms) counts =
     (let v = i + 1 in
      if v \<le> current then apply_migrations client opts current v ms (counts\<lparr>mc_skipped := mc_skipped counts + 1\<rparr>)
      else if stmts_of m = [] then
        and_then (bumpMigrationVersion client v) (\<lambda>_.
          apply_migrations client opts current v ms (counts\<lparr>mc_skipped := mc_skipped counts + 1, mc_lastAppliedVersion := v\<rparr>))
      else
        and_then (run_statements client opts m) (\<lambda>_. and_then (bumpMigrationVersion client v) (\<lambda>_.
          apply_migrations client opts current v ms (counts\<lparr>mc_applied := mc_applied counts + 1, mc_lastAppliedVersion := v\<rparr>))))"

record mig_result =
  ms_fromVersion :: int
  ms_toVersion :: int
  ms_appliedCount :: int
  ms_skippedCount :: int
  ms_notice :: "string option"

definition ahead_notice :: "int \<Rightarrow> int \<Rightarrow> string" where
  "ahead_notice current maxKnown = ''Database version ('' @ show_int current @ '') is ahead of this build'' @ [CHR 0x27] @ ''s max ('' @ show_int maxKnown @ ''). '' @
     ''A newer software version may be running concurrently.''"

definition runSysMigrationsPg :: "'d pg_client \<Rightarrow> migrator \<Rightarrow> DBMigration list \<Rightarrow> ('d, mig_result) mig_op" where
  "runSysMigrationsPg client opts allMigrations =
     (let maxKnown = int (length allMigrations) in
      and_then (gets (getCurrentSysDBVersion client)) (\<lambda>current.
       if current > maxKnown
       then ret \<lparr>ms_fromVersion = current, ms_toVersion = current, ms_appliedCount = 0, ms_skippedCount = maxKnown, ms_notice = Some (ahead_notice current maxKnown)\<rparr>
       else and_then (apply_migrations client opts current 0 allMigrations
           \<lparr>mc_applied = 0, mc_skipped = 0, mc_lastAppliedVersion = current\<rparr>) (\<lambda>counts.
         ret \<lparr>ms_fromVersion = current, ms_toVersion = mc_lastAppliedVersion counts, ms_appliedCount = mc_applied counts,
           ms_skippedCount = mc_skipped counts,
           ms_notice = if current < maxKnown \<and> mc_applied counts = 0 \<and> 0 < mc_skipped counts
             then Some ''Nothing to apply; DB is already up-to-date relative to known migrations.'' else None\<rparr>)))"

section \<open>Interruption\<close>

text \<open>
  Where a run can be interrupted: before a migration, between its statements, between the removals of invalid indexes, and in the middle of a concurrent
  statement, which leaves what \<open>broken\<close> says.
\<close>

definition migrate_one :: "'d pg_client \<Rightarrow> migrator \<Rightarrow> int \<Rightarrow> DBMigration \<Rightarrow> ('d, unit) mig_op" where
  "migrate_one client opts v m =
     and_then (if stmts_of m = [] then ret () else run_statements client opts m) (\<lambda>_. bumpMigrationVersion client v)"

inductive interrupted ::
  "'d pg_client \<Rightarrow> migrator \<Rightarrow> (string \<Rightarrow> 'd \<Rightarrow> 'd) \<Rightarrow> int \<Rightarrow> DBMigration list \<Rightarrow> 'd mig_state \<Rightarrow> 'd mig_state \<Rightarrow> bool"
  for client opts broken where
  before: "interrupted client opts broken i ms st st"
| between: "\<not> concurrently opts m \<Longrightarrow> stmts_of m = past @ rest \<Longrightarrow>
    runStatementsIgnoring client past (mr_ignoreErrorCodes opts) st = (Inr (), st') \<Longrightarrow> interrupted client opts broken i (m # ms) st st'"
| dropping: "concurrently opts m \<Longrightarrow> stmts_of m \<noteq> [] \<Longrightarrow> pc_invalidIndexes client (fst st) = past @ rest \<Longrightarrow>
    for_each (\<lambda>r. query client (drop_index (mr_client_schema opts) r)) past st = (Inr (), st') \<Longrightarrow> interrupted client opts broken i (m # ms) st st'"
| building: "concurrently opts m \<Longrightarrow> cleanupInvalidIndexes client (mr_client_schema opts) st = (Inr (), st1) \<Longrightarrow> stmts_of m = past @ s # rest \<Longrightarrow>
    for_each (query client) past st1 = (Inr (), (d, vs)) \<Longrightarrow> d' \<in> {d, broken s d} \<Longrightarrow> interrupted client opts broken i (m # ms) st (d', vs)"
| later: "migrate_one client opts (i + 1) m st = (Inr (), st1) \<Longrightarrow> interrupted client opts broken (i + 1) ms st1 st' \<Longrightarrow>
    interrupted client opts broken i (m # ms) st st'"

text \<open>
  What a migration has to satisfy to be repeated, for a predicate \<open>applied\<close> on its statements: a statement that succeeds, or fails because it was applied, is applied;
  it stays so while the migration runs on; an applied statement changes nothing, and the server accepts it, or, if it is not run concurrently, rejects it with an error that is
  ignored. Removing the first invalid index leaves the others, concurrent statements that succeed leave none, and removing what an interrupted one left gives
  the database as it was before that statement (an index being built) or as it is after it (an index being dropped).
\<close>

definition repeatable :: "'d pg_client \<Rightarrow> migrator \<Rightarrow> (string \<Rightarrow> 'd \<Rightarrow> 'd) \<Rightarrow> (string \<Rightarrow> 'd \<Rightarrow> bool) \<Rightarrow> DBMigration \<Rightarrow> bool" where
  "repeatable client opts broken applied m \<longleftrightarrow> (\<forall>s\<in>set (stmts_of m). \<forall>d.
     (\<forall>d'. pc_query client s d = (None, d') \<longrightarrow> applied s d' \<and> (\<forall>t\<in>set (stmts_of m). applied t d \<longrightarrow> applied t d') \<and>
        (pc_hasTable client d \<longrightarrow> pc_hasTable client d') \<and>
        (concurrently opts m \<and> pc_invalidIndexes client d = [] \<longrightarrow> pc_invalidIndexes client d' = [])) \<and>
     (\<forall>e d'. pc_query client s d = (Some e, d') \<and> isDDLAlreadyAppliedPgError e (mr_ignoreErrorCodes opts) \<longrightarrow> d' = d \<and> applied s d) \<and>
     (applied s d \<longrightarrow> pc_query client s d = (None, d) \<or>
        \<not> concurrently opts m \<and> (\<exists>e. pc_query client s d = (Some e, d) \<and> isDDLAlreadyAppliedPgError e (mr_ignoreErrorCodes opts))) \<and>
     (concurrently opts m \<and> pc_invalidIndexes client d = [] \<longrightarrow> pc_hasTable client (broken s d) = pc_hasTable client d \<and>
        (\<exists>d1. (\<forall>vs. cleanupInvalidIndexes client (mr_client_schema opts) (broken s d, vs) = (Inr (), (d1, vs))) \<and>
          (d1 = d \<or> pc_query client s d = (None, d1)))))"

definition drops_cleanly :: "'d pg_client \<Rightarrow> string \<Rightarrow> bool" where
  "drops_cleanly client schemaName \<longleftrightarrow> (\<forall>d r rs d'. pc_invalidIndexes client d = r # rs \<and> pc_query client (drop_index schemaName r) d = (None, d') \<longrightarrow>
     pc_invalidIndexes client d' = rs \<and> (pc_hasTable client d \<longrightarrow> pc_hasTable client d'))"


section \<open>Resuming a run\<close>

text \<open>The loop without its counters.\<close>

fun migrate_all :: "'d pg_client \<Rightarrow> migrator \<Rightarrow> int \<Rightarrow> DBMigration list \<Rightarrow> ('d, unit) mig_op" where
  "migrate_all client opts i [] = ret ()"
| "migrate_all client opts i (m # ms) = and_then (migrate_one client opts (i + 1) m) (\<lambda>_. migrate_all client opts (i + 1) ms)"

lemma apply_migrations_new:
  "current \<le> i \<Longrightarrow> (\<exists>c. apply_migrations client opts current i ms counts st = (Inr c, fin)) \<longleftrightarrow> migrate_all client opts i ms st = (Inr (), fin)"
proof (induction ms arbitrary: i counts st)
  case (Cons m ms)
  from Cons.prems have step: "\<not> i + 1 \<le> current" and later: "current \<le> i + 1" by simp_all
  have split: "migrate_all client opts i (m # ms) st = (Inr (), fin) \<longleftrightarrow>
      (\<exists>st1. migrate_one client opts (i + 1) m st = (Inr (), st1) \<and> migrate_all client opts (i + 1) ms st1 = (Inr (), fin))"
    by (simp add: and_then_success del: split_paired_Ex)
  show ?case
    unfolding split
    by (cases "stmts_of m = []")
      (use step in \<open>auto simp: Let_def migrate_one_def and_then_success Cons.IH[OF later] dest!: iffD1[OF Cons.IH[OF later], OF exI]\<close>)
qed simp

lemma apply_migrations_skips:
  "i + int (length pre) \<le> current \<Longrightarrow> apply_migrations client opts current i (pre @ ms) counts =
     apply_migrations client opts current (i + int (length pre)) ms (counts\<lparr>mc_skipped := mc_skipped counts + int (length pre)\<rparr>)"
  by (induction pre arbitrary: i counts) (simp_all add: Let_def algebra_simps)

lemma run_from_version:
  assumes "pc_hasTable client d" and "c \<le> length ms"
  shows "(\<exists>r. runSysMigrationsPg client opts ms (d, [int c]) = (Inr r, fin)) \<longleftrightarrow>
    migrate_all client opts (int c) (drop c ms) (d, [int c]) = (Inr (), fin)"
proof -
  have "apply_migrations client opts (int c) 0 ms counts = apply_migrations client opts (int c) (int c) (drop c ms)
      (counts\<lparr>mc_skipped := mc_skipped counts + int c\<rparr>)" for counts
    using apply_migrations_skips[of 0 "take c ms" "int c" client opts "drop c ms" counts] assms(2) by (simp add: min_def)
  then show ?thesis
    using assms apply_migrations_new[of "int c" "int c" client opts "drop c ms" _ "(d, [int c])" fin]
    by (cases fin) (auto simp: runSysMigrationsPg_def Let_def getCurrentSysDBVersion_def and_then_success)
qed

lemma for_each_append: "for_each f (xs @ ys) st = and_then (for_each f xs) (\<lambda>_. for_each f ys) st"
  by (induction xs arbitrary: st) (simp_all add: and_then_def split: prod.splits sum.splits)

text \<open>Statements that can be repeated: a list of them that was run up to some point runs from the start as from that point.\<close>

definition repeats :: "(string \<Rightarrow> ('d, unit) mig_op) \<Rightarrow> string set \<Rightarrow> (string \<Rightarrow> 'd \<Rightarrow> bool) \<Rightarrow> ('d \<Rightarrow> bool) \<Rightarrow> bool" where
  "repeats step S applied keep \<longleftrightarrow> (\<forall>s\<in>S. \<forall>d vs.
     (\<forall>st'. step s (d, vs) = (Inr (), st') \<longrightarrow> (\<exists>d'. st' = (d', vs) \<and> applied s d' \<and> (\<forall>t\<in>S. applied t d \<longrightarrow> applied t d') \<and> (keep d \<longrightarrow> keep d'))) \<and>
     (applied s d \<longrightarrow> step s (d, vs) = (Inr (), (d, vs))))"

lemma repeats_run:
  assumes "repeats step S applied keep" and "set past \<subseteq> S" and "for_each step past (d, vs) = (Inr (), st')"
  shows "\<exists>d'. st' = (d', vs) \<and> (\<forall>s\<in>set past. applied s d') \<and> (\<forall>t\<in>S. applied t d \<longrightarrow> applied t d') \<and> (keep d \<longrightarrow> keep d')"
  using assms(2,3)
proof (induction past arbitrary: d)
  case (Cons s past)
  then obtain st1 where st1: "step s (d, vs) = (Inr (), st1)" "for_each step past st1 = (Inr (), st')"
    by (auto simp: and_then_success)
  from Cons.prems(1) have "s \<in> S" by simp
  with assms(1) st1(1) obtain d1 where d1: "st1 = (d1, vs)" "applied s d1" "\<forall>t\<in>S. applied t d \<longrightarrow> applied t d1" "keep d \<longrightarrow> keep d1"
    unfolding repeats_def by blast
  from Cons.IH[of d1] Cons.prems(1) st1(2) d1(1) obtain d' where
    "st' = (d', vs)" "\<forall>s\<in>set past. applied s d'" "\<forall>t\<in>S. applied t d1 \<longrightarrow> applied t d'" "keep d1 \<longrightarrow> keep d'"
    by auto
  with d1 \<open>s \<in> S\<close> show ?case by auto
qed auto

lemma repeats_noop:
  assumes "repeats step S applied keep" and "set past \<subseteq> S" and "\<forall>s\<in>set past. applied s d"
  shows "for_each step past (d, vs) = (Inr (), (d, vs))"
  using assms(2,3)
proof (induction past)
  case (Cons s past)
  then have "step s (d, vs) = (Inr (), (d, vs))" using assms(1) by (simp add: repeats_def)
  with Cons show ?case by simp
qed simp

lemma repeats_resume:
  assumes rep: "repeats step S applied keep" and S: "set past \<subseteq> S" and run: "for_each step past (d, vs) = (Inr (), st')"
  shows "\<exists>d'. st' = (d', vs) \<and> (keep d \<longrightarrow> keep d') \<and> for_each step (past @ rest) st' = for_each step (past @ rest) (d, vs)"
proof -
  from repeats_run[OF rep S run] obtain d' where d': "st' = (d', vs)" "\<forall>s\<in>set past. applied s d'" "keep d \<longrightarrow> keep d'" by blast
  from repeats_noop[OF rep S d'(2)] d' run show ?thesis by (simp add: for_each_append)
qed

lemma repeatable_ignoring:
  assumes "repeatable client opts broken applied m" and "\<not> concurrently opts m"
  shows "repeats (run_ignoring client (mr_ignoreErrorCodes opts)) (set (stmts_of m)) applied (pc_hasTable client)"
  unfolding repeats_def
proof (intro ballI allI conjI impI)
  fix s d vs
  assume s: "s \<in> set (stmts_of m)"
  obtain r d1 where q: "pc_query client s d = (r, d1)" by fastforce
  note R = assms(1)[unfolded repeatable_def, rule_format, OF s, of d]
  {
    fix st' assume run: "run_ignoring client (mr_ignoreErrorCodes opts) s (d, vs) = (Inr (), st')"
    show "\<exists>d'. st' = (d', vs) \<and> applied s d' \<and> (\<forall>t\<in>set (stmts_of m). applied t d \<longrightarrow> applied t d') \<and>
        (pc_hasTable client d \<longrightarrow> pc_hasTable client d')"
    proof (cases r)
      case None
      with run q have "st' = (d1, vs)" by (simp add: run_ignoring_def query_def)
      with None q R show ?thesis by simp
    next
      case (Some e)
      with run q R show ?thesis by (auto simp: run_ignoring_def query_def split: if_splits)
    qed
  next
    assume "applied s d"
    with R q assms(2) show "run_ignoring client (mr_ignoreErrorCodes opts) s (d, vs) = (Inr (), (d, vs))"
      by (auto simp: run_ignoring_def query_def)
  }
qed

lemma repeatable_concurrently:
  assumes "repeatable client opts broken applied m" and "concurrently opts m"
  shows "repeats (query client) (set (stmts_of m)) applied (\<lambda>d. pc_hasTable client d \<and> pc_invalidIndexes client d = [])"
  unfolding repeats_def
proof (intro ballI allI conjI impI)
  fix s d vs
  assume s: "s \<in> set (stmts_of m)"
  obtain r d1 where q: "pc_query client s d = (r, d1)" by fastforce
  note R = assms(1)[unfolded repeatable_def, rule_format, OF s, of d]
  {
    fix st' assume run: "query client s (d, vs) = (Inr (), st')"
    with q have "r = None" "st' = (d1, vs)" by (auto simp: query_def split: option.splits)
    with q R assms(2) show "\<exists>d'. st' = (d', vs) \<and> applied s d' \<and> (\<forall>t\<in>set (stmts_of m). applied t d \<longrightarrow> applied t d') \<and>
        (pc_hasTable client d \<and> pc_invalidIndexes client d = [] \<longrightarrow> pc_hasTable client d' \<and> pc_invalidIndexes client d' = [])"
      by simp
  next
    assume "applied s d"
    with R assms(2) show "query client s (d, vs) = (Inr (), (d, vs))" by (simp add: query_def)
  }
qed

lemma query_ok:
  "query client s (d, vs) = (Inr (), st') \<longleftrightarrow> (\<exists>d'. pc_query client s d = (None, d') \<and> st' = (d', vs))"
  by (auto simp: query_def split: prod.splits option.splits)

lemma drops_run:
  assumes "drops_cleanly client schemaName" and "pc_invalidIndexes client d = past @ rest"
    and "for_each (\<lambda>r. query client (drop_index schemaName r)) past (d, vs) = (Inr (), st')"
  shows "\<exists>d'. st' = (d', vs) \<and> pc_invalidIndexes client d' = rest \<and> (pc_hasTable client d \<longrightarrow> pc_hasTable client d')"
  using assms(2,3)
proof (induction past arbitrary: d)
  case (Cons r past)
  from Cons.prems(2) obtain d1 where d1: "pc_query client (drop_index schemaName r) d = (None, d1)"
      "for_each (\<lambda>r. query client (drop_index schemaName r)) past (d1, vs) = (Inr (), st')"
    by (auto simp: and_then_success query_ok)
  from assms(1) Cons.prems(1) d1(1) have "pc_invalidIndexes client d1 = past @ rest" "pc_hasTable client d \<longrightarrow> pc_hasTable client d1"
    unfolding drops_cleanly_def by (metis append_Cons)+
  with Cons.IH[OF _ d1(2)] show ?case by blast
qed auto

lemma cleanup_run:
  assumes "drops_cleanly client (mr_client_schema opts)" and "cleanupInvalidIndexes client (mr_client_schema opts) (d, vs) = (Inr (), st')"
  shows "\<exists>d'. st' = (d', vs) \<and> pc_invalidIndexes client d' = [] \<and> (pc_hasTable client d \<longrightarrow> pc_hasTable client d')"
  using drops_run[OF assms(1), of d "pc_invalidIndexes client d" "[]" vs st'] assms(2) by (simp add: cleanupInvalidIndexes_def)

lemma cleanup_noop: "pc_invalidIndexes client d = [] \<Longrightarrow> cleanupInvalidIndexes client schemaName (d, vs) = (Inr (), (d, vs))"
  by (simp add: cleanupInvalidIndexes_def)

lemma cleanup_resume:
  assumes "drops_cleanly client schemaName" and "pc_invalidIndexes client d = past @ rest"
    and "for_each (\<lambda>r. query client (drop_index schemaName r)) past (d, vs) = (Inr (), st')"
  shows "cleanupInvalidIndexes client schemaName st' = cleanupInvalidIndexes client schemaName (d, vs)"
  using drops_run[OF assms] assms(2,3) by (auto simp: cleanupInvalidIndexes_def for_each_append)

text \<open>A migration run to its end keeps the table and leaves its number as the only row.\<close>

lemma run_statements_table:
  assumes "repeatable client opts broken applied m" and "drops_cleanly client (mr_client_schema opts)"
    and "pc_hasTable client d" and "run_statements client opts m (d, vs) = (Inr (), st')"
  shows "\<exists>d'. st' = (d', vs) \<and> pc_hasTable client d'"
proof (cases "concurrently opts m")
  case True
  with assms(4) obtain st1 where st1: "cleanupInvalidIndexes client (mr_client_schema opts) (d, vs) = (Inr (), st1)"
      "for_each (query client) (stmts_of m) st1 = (Inr (), st')"
    by (auto simp: run_statements_def and_then_success)
  from cleanup_run[OF assms(2) st1(1)] obtain d1 where "st1 = (d1, vs)" "pc_invalidIndexes client d1 = []" "pc_hasTable client d1"
    using assms(3) by blast
  with repeats_run[OF repeatable_concurrently[OF assms(1) True] subset_refl, of d1 vs st'] st1(2) show ?thesis by auto
next
  case False
  with repeats_run[OF repeatable_ignoring[OF assms(1) False] subset_refl, of d vs st'] assms(3,4) show ?thesis
    by (auto simp: run_statements_def runStatementsIgnoring_def)
qed

lemma migrate_one_table:
  assumes "repeatable client opts broken applied m" and "drops_cleanly client (mr_client_schema opts)"
    and "pc_hasTable client d" and "migrate_one client opts v m (d, [c]) = (Inr (), st')"
  shows "\<exists>d'. st' = (d', [v]) \<and> pc_hasTable client d'"
  using assms run_statements_table[OF assms(1-3), of "[c]"]
  by (fastforce simp: migrate_one_def and_then_success bumpMigrationVersion_def modify_def split: if_splits)

text \<open>An interrupted migration has the same outcome when it is run again.\<close>

lemma same_statements_same_run:
  assumes "run_statements client opts m st' = run_statements client opts m st" and "stmts_of m \<noteq> []"
  shows "migrate_all client opts i (m # ms) st' = migrate_all client opts i (m # ms) st"
  using assms by (simp add: migrate_one_def and_then_def)

lemma between_resumes:
  assumes "repeatable client opts broken applied m" and "\<not> concurrently opts m" and "stmts_of m = past @ rest"
    and "runStatementsIgnoring client past (mr_ignoreErrorCodes opts) (d, vs) = (Inr (), st')" and "pc_hasTable client d"
  shows "\<exists>d'. st' = (d', vs) \<and> pc_hasTable client d' \<and> run_statements client opts m st' = run_statements client opts m (d, vs)"
  using repeats_resume[OF repeatable_ignoring[OF assms(1,2)], of past d vs st' rest] assms(2-5)
  by (auto simp: runStatementsIgnoring_def run_statements_def)

lemma building_resumes:
  assumes rep: "repeatable client opts broken applied m" and dr: "drops_cleanly client (mr_client_schema opts)" and conc: "concurrently opts m"
    and clean: "cleanupInvalidIndexes client (mr_client_schema opts) (d0, vs) = (Inr (), st1)" and m: "stmts_of m = past @ s # rest"
    and run: "for_each (query client) past st1 = (Inr (), (d, vs1))" and d': "d' \<in> {d, broken s d}" and tab: "pc_hasTable client d0"
  shows "vs1 = vs \<and> pc_hasTable client d' \<and> run_statements client opts m (d', vs1) = run_statements client opts m (d0, vs)"
proof -
  from cleanup_run[OF dr clean] tab obtain d1 where d1: "st1 = (d1, vs)" "pc_invalidIndexes client d1 = []" "pc_hasTable client d1" by blast
  from repeats_resume[OF repeatable_concurrently[OF rep conc], of past d1 vs "(d, vs1)" "s # rest"] m run d1
  have d: "vs1 = vs" "pc_hasTable client d" "pc_invalidIndexes client d = []"
      "for_each (query client) (stmts_of m) (d, vs) = for_each (query client) (stmts_of m) (d1, vs)" by auto
  have s: "s \<in> set (stmts_of m)" using m by simp
  have "\<exists>d2. cleanupInvalidIndexes client (mr_client_schema opts) (d', vs) = (Inr (), (d2, vs)) \<and> (d2 = d \<or> pc_query client s d = (None, d2))"
      and tab': "pc_hasTable client d'"
    using rep[unfolded repeatable_def, THEN bspec, OF s, THEN spec, of d, THEN conjunct2, THEN conjunct2, THEN conjunct2] conc d(2,3) d'
    by (auto simp: cleanup_noop)
  then obtain d2 where d2: "cleanupInvalidIndexes client (mr_client_schema opts) (d', vs) = (Inr (), (d2, vs))" "d2 = d \<or> pc_query client s d = (None, d2)"
    by blast
  from d2(2) have "for_each (query client) (stmts_of m) (d2, vs) = for_each (query client) (stmts_of m) (d1, vs)"
  proof
    assume "pc_query client s d = (None, d2)"
    then have "for_each (query client) (past @ [s]) (d1, vs) = (Inr (), (d2, vs))"
      using run d(1) d1(1) by (simp add: for_each_append query_def)
    from repeats_resume[OF repeatable_concurrently[OF rep conc] _ this, of rest] m show ?thesis by auto
  qed (simp add: d(4))
  with d2(1) d clean d1(1) tab' conc show ?thesis by (simp add: run_statements_def)
qed

lemma interrupted_resumes:
  assumes "interrupted client opts broken i ms st st'" and "st = (d, [i])" and "pc_hasTable client d"
    and "\<forall>m\<in>set ms. repeatable client opts broken applied m" and "drops_cleanly client (mr_client_schema opts)"
    and "migrate_all client opts i ms st = (Inr (), fin)"
  shows "\<exists>d' k. st' = (d', [i + int k]) \<and> k \<le> length ms \<and> pc_hasTable client d' \<and>
    migrate_all client opts (i + int k) (drop k ms) st' = (Inr (), fin)"
  using assms
proof (induction arbitrary: d)
  case (before i ms st)
  then show ?case by (intro exI[of _ d] exI[of _ "0 :: nat"]) simp
next
  case (between m past rest st st' i ms)
  then have "repeatable client opts broken applied m" by simp
  show ?case
  proof (cases "stmts_of m = []")
    case True
    with between have "st' = st" by (simp add: runStatementsIgnoring_def)
    with between show ?thesis by (intro exI[of _ d] exI[of _ "0 :: nat"]) simp
  next
    case False
    from between_resumes[OF \<open>repeatable _ _ _ _ m\<close> between(1,2)] between obtain d' where
      "st' = (d', [i])" "pc_hasTable client d'" "run_statements client opts m st' = run_statements client opts m st" by blast
    with same_statements_same_run[OF _ False, of client opts st' st i ms] between.prems(5) show ?thesis
      by (intro exI[of _ d'] exI[of _ "0 :: nat"]) (simp del: migrate_all.simps)
  qed
next
  case (dropping m st past rest st' i ms)
  from drops_run[OF dropping.prems(4), of d past rest "[i]" st'] dropping obtain d' where
    d': "st' = (d', [i])" "pc_hasTable client d'" by auto
  from cleanup_resume[OF dropping.prems(4), of d past rest "[i]" st'] dropping have
    "run_statements client opts m st' = run_statements client opts m st" by (simp add: run_statements_def and_then_def)
  with same_statements_same_run[OF _ dropping(2), of client opts st' st i ms] dropping.prems(5) d' show ?case
    by (intro exI[of _ d'] exI[of _ "0 :: nat"]) (simp del: migrate_all.simps)
next
  case (building m st st1 past s rest d1 vs d' i ms)
  then have "repeatable client opts broken applied m" "stmts_of m \<noteq> []" by simp_all
  from building_resumes[OF this(1) building.prems(4) building(1) _ building(3,4,5)] building have
    "vs = [i]" "pc_hasTable client d'" "run_statements client opts m (d', vs) = run_statements client opts m st" by auto
  with same_statements_same_run[OF _ \<open>stmts_of m \<noteq> []\<close>, of client opts "(d', vs)" st i ms] building.prems(5) show ?case
    by (intro exI[of _ d'] exI[of _ "0 :: nat"]) (simp del: migrate_all.simps)
next
  case (later i m st st1 ms st')
  from later.prems migrate_one_table[of client opts broken applied m d "i + 1" i st1] later.hyps obtain d1 where
    d1: "st1 = (d1, [i + 1])" "pc_hasTable client d1" by auto
  from later.prems later.hyps have "migrate_all client opts (i + 1) ms st1 = (Inr (), fin)" by simp
  with later.IH[OF d1] later.prems obtain d' k where
    "st' = (d', [i + 1 + int k])" "k \<le> length ms" "pc_hasTable client d'" "migrate_all client opts (i + 1 + int k) (drop k ms) st' = (Inr (), fin)"
    by auto
  then show ?case by (intro exI[of _ d'] exI[of _ "Suc k"]) (simp add: algebra_simps)
qed

lemma apply_migrations_version:
  "current \<le> i \<Longrightarrow> apply_migrations client opts current i ms counts st = (Inr c, st') \<Longrightarrow>
     mc_lastAppliedVersion c = (if ms = [] then mc_lastAppliedVersion counts else i + int (length ms))"
proof (induction ms arbitrary: i counts st)
  case (Cons m ms)
  from Cons.prems(1) have step: "\<not> i + 1 \<le> current" and later: "current \<le> i + 1" by simp_all
  show ?case
    using Cons.prems(2) step by (cases "stmts_of m = []") (auto simp: Let_def and_then_success dest!: Cons.IH[OF later])
qed simp

lemma run_to_version:
  assumes "pc_hasTable client d" and "runSysMigrationsPg client opts ms (d, [int c]) = (Inr r, fin)"
  shows "ms_toVersion r = int (max c (length ms))"
proof (cases "c \<le> length ms")
  case True
  then have "apply_migrations client opts (int c) 0 ms counts = apply_migrations client opts (int c) (int c) (drop c ms)
      (counts\<lparr>mc_skipped := mc_skipped counts + int c\<rparr>)" for counts
    using apply_migrations_skips[of 0 "take c ms" "int c" client opts "drop c ms" counts] by (simp add: min_def)
  with assms True show ?thesis
    by (auto simp: runSysMigrationsPg_def Let_def getCurrentSysDBVersion_def and_then_success of_nat_diff dest!: apply_migrations_version[OF order_refl])
next
  case False
  with assms show ?thesis by (auto simp: runSysMigrationsPg_def Let_def getCurrentSysDBVersion_def)
qed

inductive_cases interrupted_none: "interrupted client opts broken i [] st st'"

text \<open>
  C24: An interrupted run of the migrations is completed by the next one. Suppose that the version table has its row, that the statements can be repeated, and that from some state all
  migrations would run without an error. If the process dies anywhere on the way, between two statements, between two removals of invalid indexes, or in the middle of
  a concurrent statement, a new run from what it left ends without an error in the same database, with the same version recorded and reported.
\<close>

theorem migrations_resume:
  assumes "pc_hasTable client d" and "\<forall>m\<in>set ms. repeatable client opts broken applied m" and "drops_cleanly client (mr_client_schema opts)"
    and "runSysMigrationsPg client opts ms (d, [int c]) = (Inr r, fin)"
    and "interrupted client opts broken (int c) (drop c ms) (d, [int c]) st'"
  shows "\<exists>r'. runSysMigrationsPg client opts ms st' = (Inr r', fin) \<and> ms_toVersion r' = ms_toVersion r"
proof (cases "c \<le> length ms")
  case True
  have drop: "\<forall>m\<in>set (drop c ms). repeatable client opts broken applied m" using assms(2) by (meson in_set_dropD)
  from run_from_version[OF assms(1) True] assms(4) have "migrate_all client opts (int c) (drop c ms) (d, [int c]) = (Inr (), fin)" by blast
  from interrupted_resumes[OF assms(5) refl assms(1) drop assms(3) this] obtain d' k where k:
      "st' = (d', [int (c + k)])" "c + k \<le> length ms" "pc_hasTable client d'" "migrate_all client opts (int (c + k)) (drop (c + k) ms) st' = (Inr (), fin)"
    using True by (auto simp: add.commute)
  from run_from_version[OF k(3,2)] k(1,4) obtain r' where r': "runSysMigrationsPg client opts ms st' = (Inr r', fin)" by blast
  from run_to_version[OF k(3) r'[unfolded k(1)]] r' k(2) run_to_version[OF assms(1,4)] show ?thesis by (auto simp: max_def)
next
  case False
  with assms(4,5) show ?thesis by (auto elim: interrupted_none)
qed

text \<open>
  A server on which this can be seen: its objects are the statements that made them, a second \<open>A\<close> or \<open>B\<close> is an error \<open>42P07\<close>, the concurrent \<open>X\<close> is one with \<open>IF NOT EXISTS\<close>,
  and an interrupted \<open>X\<close> leaves an invalid index.
\<close>

definition sample_query :: "string \<Rightarrow> string list \<times> string list \<Rightarrow> pg_error option \<times> string list \<times> string list" where
  "sample_query stmt = (\<lambda>(os, bad). case find (\<lambda>r. drop_index ''dbos'' r = stmt) bad of
       Some r \<Rightarrow> (None, (os, remove1 r bad))
     | None \<Rightarrow> if stmt \<notin> set os then (None, (stmt # os, bad))
               else if stmt = ''X'' then (None, (os, bad))
               else (Some \<lparr>pe_code = Some ''42P07'', pe_message = Some ''exists''\<rparr>, (os, bad)))"

definition sample_server :: "(string list \<times> string list) pg_client" where
  "sample_server = \<lparr>pc_query = sample_query, pc_hasTable = (\<lambda>(os, bad). ''T'' \<in> set os), pc_invalidIndexes = snd\<rparr>"

definition sample_migrator :: migrator where
  "sample_migrator = \<lparr>mr_client_schema = ''dbos'', mr_ignoreErrorCodes = DEFAULT_IGNORABLE_CODES, mr_isCockroach = False\<rparr>"

definition sample_migrations :: "DBMigration list" where
  "sample_migrations = [\<lparr>mg_name = None, mg_pg = Some [''T''], mg_online = False\<rparr>, \<lparr>mg_name = None, mg_pg = Some [''A'', ''B''], mg_online = False\<rparr>,
     \<lparr>mg_name = None, mg_pg = Some [''X''], mg_online = True\<rparr>]"

definition sample_broken :: "string \<Rightarrow> string list \<times> string list \<Rightarrow> string list \<times> string list" where
  "sample_broken s = (\<lambda>(os, bad). (os, s # bad))"

definition sample_applied :: "string \<Rightarrow> string list \<times> string list \<Rightarrow> bool" where
  "sample_applied s = (\<lambda>(os, bad). s \<in> set os)"

lemmas sample_defs = sample_server_def sample_migrator_def sample_applied_def sample_broken_def

lemma sample_query_drop: "sample_query (drop_index ''dbos'' r) (os, r # bad) = (None, (os, bad))"
  by (simp add: sample_query_def)

lemma sample_query_create:
  assumes "s \<in> {''T'', ''A'', ''B'', ''X''}"
  shows "sample_query s (os, bad) = (if s \<notin> set os then (None, (s # os, bad)) else if s = ''X'' then (None, (os, bad))
      else (Some \<lparr>pe_code = Some ''42P07'', pe_message = Some ''exists''\<rparr>, (os, bad)))"
proof -
  from assms have "find (\<lambda>r. drop_index ''dbos'' r = s) bad = None" by (auto simp: find_None_iff drop_index_def)
  then show ?thesis by (simp add: sample_query_def)
qed

lemma sample_ignored: "isDDLAlreadyAppliedPgError \<lparr>pe_code = Some ''42P07'', pe_message = m\<rparr> DEFAULT_IGNORABLE_CODES"
  by (simp add: isDDLAlreadyAppliedPgError_def DEFAULT_IGNORABLE_CODES_def truthy_def)

lemma sample_drops: "drops_cleanly sample_server (mr_client_schema sample_migrator)"
  by (auto simp: drops_cleanly_def sample_defs sample_query_drop)

lemma sample_repeatable: "\<forall>m\<in>set sample_migrations. repeatable sample_server sample_migrator sample_broken sample_applied m"
  by (auto simp: repeatable_def sample_migrations_def stmts_of_def concurrently_def sample_defs sample_query_create sample_query_drop sample_ignored
      cleanupInvalidIndexes_def query_def split: if_splits)

lemma sample_interrupted:
  "interrupted sample_server sample_migrator sample_broken 1 (drop 1 sample_migrations) (([''T''], []), [1]) (([''B'', ''A'', ''T''], [''X'']), [2])"
proof -
  let ?m = "\<lparr>mg_name = None, mg_pg = Some [''A'', ''B''], mg_online = False\<rparr> :: DBMigration"
  let ?x = "\<lparr>mg_name = None, mg_pg = Some [''X''], mg_online = True\<rparr> :: DBMigration"
  have "migrate_one sample_server sample_migrator (1 + 1) ?m (([''T''], []), [1]) = (Inr (), (([''B'', ''A'', ''T''], []), [2]))"
    by (simp add: migrate_one_def run_statements_def concurrently_def stmts_of_def runStatementsIgnoring_def run_ignoring_def query_def
        bumpMigrationVersion_def modify_def sample_defs sample_query_create)
  moreover have "interrupted sample_server sample_migrator sample_broken (1 + 1) [?x] (([''B'', ''A'', ''T''], []), [2]) (([''B'', ''A'', ''T''], [''X'']), [2])"
    by (rule interrupted.building[where past = "[]" and s = "''X''" and rest = "[]" and d = "([''B'', ''A'', ''T''], [])"])
      (simp_all add: concurrently_def stmts_of_def cleanupInvalidIndexes_def sample_defs)
  ultimately show ?thesis unfolding sample_migrations_def by (simp add: interrupted.later)
qed

lemma sample_run:
  "runSysMigrationsPg sample_server sample_migrator sample_migrations (([''T''], []), [int 1]) =
     (Inr \<lparr>ms_fromVersion = 1, ms_toVersion = 3, ms_appliedCount = 2, ms_skippedCount = 1, ms_notice = None\<rparr>, (([''X'', ''B'', ''A'', ''T''], []), [3]))"
  by (simp add: runSysMigrationsPg_def Let_def getCurrentSysDBVersion_def sample_migrations_def Let_def run_statements_def concurrently_def stmts_of_def
      runStatementsIgnoring_def run_ignoring_def query_def cleanupInvalidIndexes_def bumpMigrationVersion_def modify_def sample_defs sample_query_create)

theorem migrations_resume_witness:
  "\<exists>r'. runSysMigrationsPg sample_server sample_migrator sample_migrations (([''B'', ''A'', ''T''], [''X'']), [2]) =
     (Inr r', (([''X'', ''B'', ''A'', ''T''], []), [3])) \<and> ms_toVersion r' = 3"
  using migrations_resume[OF _ sample_repeatable sample_drops sample_run] sample_interrupted by (simp add: sample_defs)

end
