(* ===== verification/Registry.thy ===== *)
theory Registry
  imports Executor_Workflow Crontab "HOL-Library.AList"
begin

text \<open>
  The registries of classes and functions (\<open>src/decorators.ts\<close>), the decorators of \<open>src/dbos.ts\<close> that fill them, and the check of roles
  (\<open>src/authdecorators.ts\<close>). Registrations are objects that the registries refer to: the state has a list of class registrations and
  a list of method registrations, and a reference is a position in it. A JavaScript \<open>Map\<close> is an association list in the order of insertion. Stack traces, which only
  occur in messages, are left out.
\<close>

section \<open>Data types of parameters\<close>

record DBOSDataType =
  dy_dataType :: string
  dy_length :: int
  dy_precision :: int
  dy_scale :: int

definition new_type :: "string \<Rightarrow> DBOSDataType" where
  "new_type t = \<lparr>dy_dataType = t, dy_length = -1, dy_precision = -1, dy_scale = -1\<rparr>"

definition DBOSDataType_varchar :: "int \<Rightarrow> DBOSDataType" where
  "DBOSDataType_varchar len = (new_type ''varchar'')\<lparr>dy_length := len\<rparr>"

definition DBOSDataType_decimal :: "int \<Rightarrow> int \<Rightarrow> DBOSDataType" where
  "DBOSDataType_decimal precision scale = (new_type ''decimal'')\<lparr>dy_precision := precision, dy_scale := scale\<rparr>"

text \<open>The constructors that the metadata of a parameter may name.\<close>

datatype js_type = StringType | DateType | NumberType | BooleanType | OtherType

fun type_name :: "js_type \<Rightarrow> string" where
  "type_name StringType = ''text''"
| "type_name DateType = ''timestamp''"
| "type_name NumberType = ''double''"
| "type_name BooleanType = ''boolean''"
| "type_name OtherType = ''json''"

definition DBOSDataType_fromArg :: "js_type option \<Rightarrow> DBOSDataType option" where
  "DBOSDataType_fromArg arg = map_option (\<lambda>t. new_type (type_name t)) arg"

definition formatAsString :: "DBOSDataType \<Rightarrow> string" where
  "formatAsString dt = dy_dataType dt @
     (if dy_dataType dt = ''varchar'' \<and> 0 < dy_length dt then ''('' @ show_int (dy_length dt) @ '')'' else []) @
     (if dy_dataType dt = ''decimal'' \<and> 0 < dy_precision dt
      then (if 0 < dy_scale dt then ''('' @ show_int (dy_precision dt) @ '','' @ show_int (dy_scale dt) @ '')'' else ''('' @ show_int (dy_precision dt) @ '')'')
      else [])"

section \<open>The names of a function's parameters\<close>

text \<open>\<open>getArgNames\<close> scans the text of a function.\<close>

record arg_scan =
  sc_args :: "string list"
  sc_currentArgName :: string
  sc_nestDepth :: nat
  sc_inSingleQuote :: bool
  sc_inDoubleQuote :: bool
  sc_inBacktick :: bool
  sc_inComment :: bool
  sc_inBlockComment :: bool
  sc_inDefaultValue :: bool

definition scan_start :: arg_scan where
  "scan_start = \<lparr>sc_args = [], sc_currentArgName = [], sc_nestDepth = 0, sc_inSingleQuote = False, sc_inDoubleQuote = False, sc_inBacktick = False,
     sc_inComment = False, sc_inBlockComment = False, sc_inDefaultValue = False\<rparr>"

definition scan_quotes :: "char \<Rightarrow> arg_scan \<Rightarrow> arg_scan" where
  "scan_quotes c s =
     (if c = CHR 0x27 \<and> \<not> sc_inDoubleQuote s \<and> \<not> sc_inBacktick s then s\<lparr>sc_inSingleQuote := \<not> sc_inSingleQuote s\<rparr>
      else if c = dquote \<and> \<not> sc_inSingleQuote s \<and> \<not> sc_inBacktick s then s\<lparr>sc_inDoubleQuote := \<not> sc_inDoubleQuote s\<rparr>
      else if c = CHR 0x60 \<and> \<not> sc_inSingleQuote s \<and> \<not> sc_inDoubleQuote s then s\<lparr>sc_inBacktick := \<not> sc_inBacktick s\<rparr>
      else s)"

definition push_arg :: "arg_scan \<Rightarrow> arg_scan" where
  "push_arg s = (if js_trim (sc_currentArgName s) \<noteq> [] then s\<lparr>sc_args := sc_args s @ [js_trim (sc_currentArgName s)]\<rparr> else s)"

function scan_args :: "string \<Rightarrow> arg_scan \<Rightarrow> arg_scan" where
  "scan_args [] s = s"
| "scan_args (c # cs) s =
     (if sc_inBlockComment s then
        (if c = CHR ''*'' \<and> starts_with ''/'' cs then scan_args (drop 1 cs) (s\<lparr>sc_inBlockComment := False\<rparr>) else scan_args cs s)
      else if sc_inComment s then scan_args cs (if c = CHR 0x0A then s\<lparr>sc_inComment := False\<rparr> else s)
      else if c = CHR ''/'' \<and> starts_with ''*'' cs then scan_args (drop 1 cs) (s\<lparr>sc_inBlockComment := True\<rparr>)
      else if c = CHR ''/'' \<and> starts_with ''/'' cs then scan_args cs (s\<lparr>sc_inComment := True\<rparr>)
      else (let s1 = scan_quotes c s in
        if sc_inSingleQuote s1 \<or> sc_inDoubleQuote s1 \<or> sc_inBacktick s1 then scan_args cs s1
        else if c = CHR ''='' \<and> sc_nestDepth s1 = 0 then scan_args cs (s1\<lparr>sc_inDefaultValue := True\<rparr>)
        else if c \<in> set '')}]'' \<and> sc_nestDepth s1 = 0 then s1
        else (let s2 = (if c \<in> set ''({['' then s1\<lparr>sc_nestDepth := sc_nestDepth s1 + 1\<rparr>
                 else if c \<in> set '')}]'' then s1\<lparr>sc_nestDepth := sc_nestDepth s1 - 1\<rparr> else s1) in
          if c = CHR ''.'' \<and> starts_with ''..'' cs then scan_args (drop 2 cs) s2
          else if c = CHR '','' \<and> sc_nestDepth s2 = 0 then scan_args cs ((push_arg s2)\<lparr>sc_currentArgName := [], sc_inDefaultValue := False\<rparr>)
          else scan_args cs (if sc_inDefaultValue s2 then s2 else s2\<lparr>sc_currentArgName := sc_currentArgName s2 @ [c]\<rparr>))))"
  by pat_completeness auto
termination by (relation "measure (length \<circ> fst)") auto

definition getArgNames :: "string \<Rightarrow> string list" where
  "getArgNames fstr =
     (if CHR ''('' \<notin> set fstr then []
      else sc_args (push_arg (scan_args (drop 1 (dropWhile (\<lambda>c. c \<noteq> CHR ''('') fstr)) scan_start)))"

section \<open>Registrations\<close>

text \<open>
  A constructor and a function have an identity and a name, a function of the program also a text. The registry makes functions too: that of a registration and its wrappers.
  A decorator is given the constructor for a static method and the prototype for an instance method.
\<close>

datatype ctor = Ctor nat (ctor_name: string)

datatype js_fun = OrigFn nat string string | RegisteredFn nat | WrapperFn nat nat

datatype target = StaticOf (regTarget: ctor) | PrototypeOf (regTarget: ctor)

fun fun_text :: "js_fun \<Rightarrow> string" where
  "fun_text (OrigFn i name txt) = txt"
| "fun_text (RegisteredFn m) = ''async function (...rawArgs) {''"
| "fun_text (WrapperFn m i) = ''async function (...rawArgs) {''"

text \<open>Information kept for others: by a name or an object, an object with properties that are lists of strings.\<close>

datatype external = ExternalName string | ExternalObject nat

type_synonym reg_info = "(string \<times> string list) list"

definition DBOS_AUTH :: external where
  "DBOS_AUTH = ExternalName ''auth''"

record MethodParameter =
  mp_name :: string
  mp_index :: nat
  mp_dataType :: "DBOSDataType option"
  mp_externalRegInfo :: "(external \<times> reg_info) list"

definition new_parameter :: "nat \<Rightarrow> js_type option \<Rightarrow> MethodParameter" where
  "new_parameter idx ty = \<lparr>mp_name = [], mp_index = idx, mp_dataType = DBOSDataType_fromArg ty, mp_externalRegInfo = [(ExternalName ''type'', [])]\<rparr>"

datatype interceptor = CheckMethodAuth | InputSchema nat | OtherInterceptor nat

record ClassRegistration =
  cr_name :: string
  cr_needsInitialized :: bool
  cr_registeredOperationsByName :: "(string \<times> nat) list"
  cr_allRegisteredOperations :: "(js_fun \<times> nat) list"
  cr_configuredInstances :: "(string \<times> nat) list"
  cr_externalRegInfo :: "(external \<times> reg_info) list"
  cr_ctor :: "ctor option"

record MethodRegistration =
  mt_name :: string
  mt_className :: string
  mt_classReg :: nat
  mt_onEnter :: "(int \<times> interceptor) list"
  mt_isInstance :: bool
  mt_origFunction :: js_fun
  mt_registeredFunction :: "js_fun option"
  mt_wrappedFunction :: "js_fun option"
  mt_workflowConfig :: "WorkflowConfig option"
  mt_stepConfig :: "StepConfig option"
  mt_externalRegInfo :: "(external \<times> reg_info) list"

datatype installer = AuthChecker | OtherInstaller nat

text \<open>The parameters of a function are shared by the registry of parameters and the registration of the function; the latter refers to the former.\<close>

record registry =
  re_classes :: "ClassRegistration list"
  re_methods :: "MethodRegistration list"
  re_classesByName :: "(string \<times> nat \<times> ctor option) list"
  re_classesByCtor :: "(ctor \<times> string \<times> nat) list"
  re_functionToRegistration :: "(js_fun \<times> nat) list"
  re_methodArgsByFunction :: "(js_fun \<times> MethodParameter list) list"
  re_transactionalDataSources :: "(string \<times> nat) list"
  re_launched :: bool
  re_lifecycleListeners :: "nat list"
  re_installedMiddleware :: bool
  re_middlewareInstallers :: "installer list"
  re_alertHandler :: "nat option"
  re_made :: nat

type_synonym 'a reg_op = "(registry, dbos_error, 'a) op"

definition empty_registry :: registry where
  "empty_registry = \<lparr>re_classes = [], re_methods = [], re_classesByName = [], re_classesByCtor = [], re_functionToRegistration = [], re_methodArgsByFunction = [],
     re_transactionalDataSources = [], re_launched = False, re_lifecycleListeners = [], re_installedMiddleware = False, re_middlewareInstallers = [],
     re_alertHandler = None, re_made = 0\<rparr>"

definition new_class :: "ctor option \<Rightarrow> ClassRegistration" where
  "new_class c = \<lparr>cr_name = [], cr_needsInitialized = True, cr_registeredOperationsByName = [], cr_allRegisteredOperations = [], cr_configuredInstances = [],
     cr_externalRegInfo = [], cr_ctor = c\<rparr>"

definition update_class :: "nat \<Rightarrow> (ClassRegistration \<Rightarrow> ClassRegistration) \<Rightarrow> registry \<Rightarrow> registry" where
  "update_class c f r = r\<lparr>re_classes := (re_classes r)[c := f (re_classes r ! c)]\<rparr>"

definition update_method :: "nat \<Rightarrow> (MethodRegistration \<Rightarrow> MethodRegistration) \<Rightarrow> registry \<Rightarrow> registry" where
  "update_method m f r = r\<lparr>re_methods := (re_methods r)[m := f (re_methods r ! m)]\<rparr>"

definition method_of :: "registry \<Rightarrow> nat \<Rightarrow> MethodRegistration" where
  "method_of r m = re_methods r ! m"

definition class_of :: "registry \<Rightarrow> nat \<Rightarrow> ClassRegistration" where
  "class_of r c = re_classes r ! c"

definition addEntryInterceptor :: "interceptor \<Rightarrow> int \<Rightarrow> MethodRegistration \<Rightarrow> MethodRegistration" where
  "addEntryInterceptor f seqNum m = m\<lparr>mt_onEnter := sort_key fst (mt_onEnter m @ [(seqNum, f)])\<rparr>"

definition class_getClassName :: "ClassRegistration \<Rightarrow> string" where
  "class_getClassName c = (if cr_name c \<noteq> [] then cr_name c else case cr_ctor c of None \<Rightarrow> [] | Some k \<Rightarrow> ctor_name k)"

definition getClassName :: "registry \<Rightarrow> MethodRegistration \<Rightarrow> string" where
  "getClassName r m = (if mt_className m \<noteq> [] then mt_className m else class_getClassName (class_of r (mt_classReg m)))"

definition getAssignedType :: "MethodRegistration \<Rightarrow> string option" where
  "getAssignedType m = (if mt_workflowConfig m \<noteq> None then Some ''Workflow'' else if mt_stepConfig m \<noteq> None then Some ''Step'' else None)"

definition operation_text :: "string \<Rightarrow> string \<Rightarrow> string" where
  "operation_text className name = ''Operation (Name: '' @ className @ ''.'' @ name @ '')''"

definition checkFuncTypeUnassigned :: "nat \<Rightarrow> string \<Rightarrow> unit reg_op" where
  "checkFuncTypeUnassigned m newType = and_then (gets (\<lambda>r. (getAssignedType (method_of r m), operation_text (getClassName r (method_of r m)) (mt_name (method_of r m)))))
     (\<lambda>(oldType, operation). case oldType of
        None \<Rightarrow> ret ()
      | Some old \<Rightarrow> throw (DBOSConflictingRegistrationError (operation @ (if newType \<noteq> old
          then '' is already registered with a conflicting function type: '' @ old @ '' vs. '' @ newType else '' is already registered.''))))"

definition setStepConfig :: "nat \<Rightarrow> StepConfig \<Rightarrow> unit reg_op" where
  "setStepConfig m stepCfg = and_then (checkFuncTypeUnassigned m ''Step'') (\<lambda>_.
     and_then (gets (\<lambda>r. validateStepConfig stepCfg (getClassName r (method_of r m) @ ''.'' @ mt_name (method_of r m)))) (\<lambda>err. case err of
        Some e \<Rightarrow> throw e
      | None \<Rightarrow> modify (update_method m (\<lambda>x. x\<lparr>mt_stepConfig := Some stepCfg\<rparr>))))"

definition setWorkflowConfig :: "nat \<Rightarrow> WorkflowConfig \<Rightarrow> unit reg_op" where
  "setWorkflowConfig m wfCfg = and_then (checkFuncTypeUnassigned m ''Workflow'') (\<lambda>_.
     modify (update_method m (\<lambda>x. x\<lparr>mt_workflowConfig := Some wfCfg\<rparr>)))"

text \<open>Required roles; an empty list given for a method replaces that of its class.\<close>

definition info_of :: "(external \<times> reg_info) list \<Rightarrow> external \<Rightarrow> string \<Rightarrow> string list option" where
  "info_of infos ext prop = Option.bind (map_of infos ext) (\<lambda>info. map_of info prop)"

definition requiredRole_of :: "(external \<times> reg_info) list \<Rightarrow> string list option" where
  "requiredRole_of infos = info_of infos DBOS_AUTH ''requiredRole''"

definition getRequiredRoles :: "registry \<Rightarrow> nat \<Rightarrow> string list" where
  "getRequiredRoles r m = (case requiredRole_of (mt_externalRegInfo (method_of r m)) of
       Some roles \<Rightarrow> roles
     | None \<Rightarrow> coalesce (requiredRole_of (cr_externalRegInfo (class_of r (mt_classReg (method_of r m))))) [])"

section \<open>Launching\<close>

definition ensureDBOSIsNotLaunched :: "unit reg_op" where
  "ensureDBOSIsNotLaunched = and_then (gets re_launched) (\<lambda>launched.
     if launched then throw (DBOSConflictingRegistrationError ''DBOS code is being registered after DBOS.launch().'') else ret ())"

definition recordDBOSLaunch :: "registry \<Rightarrow> registry" where
  "recordDBOSLaunch r = r\<lparr>re_launched := True\<rparr>"

definition recordDBOSShutdown :: "registry \<Rightarrow> registry" where
  "recordDBOSShutdown r = r\<lparr>re_launched := False\<rparr>"

definition clearAllRegistrations :: "registry \<Rightarrow> registry" where
  "clearAllRegistrations r = r\<lparr>re_lifecycleListeners := [], re_installedMiddleware := False, re_middlewareInstallers := [], re_functionToRegistration := [],
     re_methodArgsByFunction := [], re_classesByName := [], re_classesByCtor := [], re_transactionalDataSources := [], re_alertHandler := None\<rparr>"

definition setAlertHandler :: "nat \<Rightarrow> registry \<Rightarrow> registry" where
  "setAlertHandler handler r = r\<lparr>re_alertHandler := Some handler\<rparr>"

definition registerLifecycleCallback :: "nat \<Rightarrow> registry \<Rightarrow> registry" where
  "registerLifecycleCallback lcl r = (if lcl \<in> set (re_lifecycleListeners r) then r else r\<lparr>re_lifecycleListeners := re_lifecycleListeners r @ [lcl]\<rparr>)"

definition registerMiddlewareInstaller :: "installer \<Rightarrow> unit reg_op" where
  "registerMiddlewareInstaller i = and_then (gets re_installedMiddleware) (\<lambda>installed.
     if installed then throw (PlainError ''Attempt to provide method middleware after insertion was performed'')
     else modify (\<lambda>r. if i \<in> set (re_middlewareInstallers r) then r else r\<lparr>re_middlewareInstallers := re_middlewareInstallers r @ [i]\<rparr>))"

section \<open>Classes\<close>

definition getClassRegistration :: "ctor \<Rightarrow> bool \<Rightarrow> (string \<times> nat) option reg_op" where
  "getClassRegistration k create = and_then (gets (\<lambda>r. map_of (re_classesByCtor r) k)) (\<lambda>found.
     if found \<noteq> None \<or> \<not> create then ret found
     else and_then (gets (\<lambda>r. length (re_classes r))) (\<lambda>c.
       and_then (modify (\<lambda>r. r\<lparr>re_classes := re_classes r @ [new_class (Some k)], re_classesByCtor := AList.update k (ctor_name k, c) (re_classesByCtor r)\<rparr>))
         (\<lambda>_. ret (Some (ctor_name k, c)))))"

definition getNameForClass :: "registry \<Rightarrow> ctor \<Rightarrow> string" where
  "getNameForClass r k = (case map_of (re_classesByCtor r) k of
       None \<Rightarrow> ctor_name k
     | Some (name, _) \<Rightarrow> if name \<noteq> [] then name else ctor_name k)"

text \<open>A class registered by name is given that name at once; one that came here from a constructor has it already.\<close>

definition initialize_class :: "string \<Rightarrow> ClassRegistration \<Rightarrow> ClassRegistration" where
  "initialize_class name c = (if cr_needsInitialized c then c\<lparr>cr_name := name, cr_needsInitialized := False\<rparr> else c)"

definition getClassRegistrationByName :: "string \<Rightarrow> bool \<Rightarrow> nat reg_op" where
  "getClassRegistrationByName name create = and_then (gets (\<lambda>r. map_of (re_classesByName r) name)) (\<lambda>found. case found of
       Some (c, _) \<Rightarrow> and_then (modify (update_class c (initialize_class name))) (\<lambda>_. ret c)
     | None \<Rightarrow>
         if \<not> create then throw (DBOSNotRegisteredError name)
         else and_then (gets (\<lambda>r. length (re_classes r))) (\<lambda>c.
           and_then (modify (\<lambda>r. r\<lparr>re_classes := re_classes r @ [initialize_class name (new_class None)],
               re_classesByName := AList.update name (c, None) (re_classesByName r)\<rparr>)) (\<lambda>_. ret c)))"

definition set_ctor_name :: "ctor \<Rightarrow> string \<Rightarrow> registry \<Rightarrow> registry" where
  "set_ctor_name k name r = r\<lparr>re_classesByCtor := map (\<lambda>(k', n, c). (k', if k' = k then name else n, c)) (re_classesByCtor r)\<rparr>"

definition created :: "(string \<times> nat) option \<Rightarrow> string \<times> nat" where
  "created found = (case found of Some e \<Rightarrow> e | None \<Rightarrow> ([], 0))"

definition getOrCreateClassRegistration :: "target option \<Rightarrow> string option \<Rightarrow> (nat \<times> bool) reg_op" where
  "getOrCreateClassRegistration tgt className =
     (let className' = (if tgt = None \<and> className = None then Some [] else className);
          isInstance = (case tgt of Some (PrototypeOf _) \<Rightarrow> True | _ \<Rightarrow> False) in
      case (tgt, className') of
        (None, cn) \<Rightarrow> and_then (getClassRegistrationByName (coalesce cn []) True) (\<lambda>c. ret (c, False))
      | (Some t, None) \<Rightarrow> and_then (getClassRegistration (regTarget t) True) (\<lambda>found. ret (snd (created found), isInstance))
      | (Some t, Some cn) \<Rightarrow> and_then (getClassRegistration (regTarget t) True) (\<lambda>found.
          let (name, c) = created found in
          if name \<noteq> [] \<and> name \<noteq> cn then throw (PlainError (''Attempt to register class under two names: '' @ name @ '' vs. '' @ cn))
          else and_then (modify (set_ctor_name (regTarget t) cn)) (\<lambda>_. ret (c, isInstance))))"

definition registerClassInstance :: "ctor \<Rightarrow> nat \<Rightarrow> string \<Rightarrow> unit reg_op" where
  "registerClassInstance k inst instname = and_then (getClassRegistration k True) (\<lambda>found.
     let c = snd (created found) in
     and_then (gets (\<lambda>r. map_of (cr_configuredInstances (class_of r c)) instname)) (\<lambda>earlier.
       if earlier \<noteq> None
       then throw (DBOSConflictingRegistrationError (''An instance of class '' @ [CHR 0x27] @ ctor_name k @ [CHR 0x27] @ '' with name '' @ [CHR 0x27] @ instname @ [CHR 0x27] @
         '' was already registered.''))
       else modify (update_class c (\<lambda>x. x\<lparr>cr_configuredInstances := AList.update instname inst (cr_configuredInstances x)\<rparr>))))"

definition getConfiguredInstance :: "string \<Rightarrow> string \<Rightarrow> nat option reg_op" where
  "getConfiguredInstance clsname cfgname = and_then (getClassRegistrationByName clsname False) (\<lambda>c.
     gets (\<lambda>r. map_of (cr_configuredInstances (class_of r c)) cfgname))"

definition DBOS_className :: "ctor \<Rightarrow> string \<Rightarrow> unit reg_op" where
  "DBOS_className k name = and_then (getClassRegistration k True) (\<lambda>found.
     let old = fst (created found) in
     if old \<noteq> [] \<and> old \<noteq> name \<and> old \<noteq> ctor_name k
     then throw (DBOSConflictingRegistrationError (''Attempt to assign name '' @ name @ '' to class '' @ ctor_name k @ '', which has already been aliased to '' @ old))
     else modify (set_ctor_name k name))"

text \<open>At launch, the classes known by their constructor become known by name, and their functions learn the name.\<close>

definition setName :: "nat \<Rightarrow> string \<Rightarrow> registry \<Rightarrow> registry" where
  "setName c cname r =
     fold (\<lambda>(_, m). update_method m (\<lambda>x. x\<lparr>mt_className := cname\<rparr>)) (cr_registeredOperationsByName (class_of r c))
       (update_class c (\<lambda>x. x\<lparr>cr_name := cname, cr_needsInitialized := False\<rparr>) r)"

definition name_class :: "ctor \<Rightarrow> nat \<Rightarrow> string \<Rightarrow> registry \<Rightarrow> registry" where
  "name_class k c cname r =
     setName c cname (set_ctor_name k cname (r\<lparr>re_classesByName := AList.update cname (c, Some k) (re_classesByName r)\<rparr>))"

definition finalize_class :: "ctor \<Rightarrow> unit reg_op" where
  "finalize_class k = and_then (gets (\<lambda>r. (created (map_of (re_classesByCtor r) k), r))) (\<lambda>((name, c), r0).
     let cname = (if name \<noteq> [] then name else if cr_name (class_of r0 c) \<noteq> [] then cr_name (class_of r0 c) else getNameForClass r0 k) in
     case map_of (re_classesByName r0) cname of
       None \<Rightarrow> modify (name_class k c cname)
     | Some (c', k') \<Rightarrow>
         if k' \<noteq> None \<and> k' \<noteq> Some k
         then throw (DBOSConflictingRegistrationError (''Class '' @ cname @ ''('' @ ctor_name k @ '') has been given a name that conflicts with another class '' @
           (case k' of Some k2 \<Rightarrow> ctor_name k2 | None \<Rightarrow> ''undefined'') @ ''.''))
         else if c' \<noteq> c
         then throw (DBOSConflictingRegistrationError (''Class: '' @ cname @ ''('' @ ctor_name k @ '') has been given a name that was registered directly by name without a class.''))
         else modify (name_class k c cname))"

definition finalizeClassRegistrations :: "unit reg_op" where
  "finalizeClassRegistrations = and_then (gets (map fst \<circ> re_classesByCtor)) (for_each finalize_class)"

section \<open>Functions\<close>

definition registerOperationByName :: "nat \<Rightarrow> string \<Rightarrow> nat \<Rightarrow> unit reg_op" where
  "registerOperationByName c name m = and_then (gets (\<lambda>r. (map_of (cr_registeredOperationsByName (class_of r c)) name, cr_name (class_of r c)))) (\<lambda>(er, cname).
     if er \<noteq> None \<and> er \<noteq> Some m then throw (DBOSConflictingRegistrationError (operation_text cname name @ '' is already registered.''))
     else modify (update_class c (\<lambda>x. x\<lparr>cr_registeredOperationsByName := AList.update name m (cr_registeredOperationsByName x)\<rparr>)))"

definition getFunctionRegistration :: "registry \<Rightarrow> js_fun \<Rightarrow> nat option" where
  "getFunctionRegistration r f = map_of (re_functionToRegistration r) f"

definition fun_name :: "registry \<Rightarrow> js_fun \<Rightarrow> string" where
  "fun_name r f = (case f of OrigFn _ name _ \<Rightarrow> name | RegisteredFn m \<Rightarrow> mt_name (method_of r m) | WrapperFn m _ \<Rightarrow> mt_name (method_of r m))"

definition getRegisteredFunctionFullName :: "registry \<Rightarrow> js_fun \<Rightarrow> string \<times> string" where
  "getRegisteredFunctionFullName r f = (case getFunctionRegistration r f of
       None \<Rightarrow> ([], fun_name r f)
     | Some m \<Rightarrow> (getClassName r (method_of r m), mt_name (method_of r m)))"

definition getRegisteredFunctionQualifiedName :: "registry \<Rightarrow> js_fun \<Rightarrow> string" where
  "getRegisteredFunctionQualifiedName r f = (let (className, name) = getRegisteredFunctionFullName r f in className @ ''.'' @ name)"

definition registerFunctionWrapper :: "nat \<Rightarrow> js_fun reg_op" where
  "registerFunctionWrapper m = and_then (gets re_made) (\<lambda>i.
     and_then (modify (\<lambda>r. (update_method m (\<lambda>x. x\<lparr>mt_wrappedFunction := Some (WrapperFn m i)\<rparr>) r)
         \<lparr>re_functionToRegistration := AList.update (WrapperFn m i) m (re_functionToRegistration r), re_made := i + 1\<rparr>))
       (\<lambda>_. ret (WrapperFn m i)))"

definition getFunctionRegistrationByName :: "string \<Rightarrow> string \<Rightarrow> nat option reg_op" where
  "getFunctionRegistrationByName className name = and_then (getClassRegistrationByName className False) (\<lambda>c.
     gets (\<lambda>r. map_of (cr_registeredOperationsByName (class_of r c)) name))"

text \<open>What the metadata of a method says of its parameters is an argument (\<open>design\<close>).\<close>

definition make_args :: "(target \<Rightarrow> string \<Rightarrow> js_type option list option) \<Rightarrow> target option \<Rightarrow> string \<Rightarrow> js_fun \<Rightarrow> MethodParameter list" where
  "make_args design tgt funcName func = (case Option.bind tgt (\<lambda>t. design t funcName) of
       Some types \<Rightarrow> map (\<lambda>(i, t). new_parameter i t) (enumerate 0 types)
     | None \<Rightarrow> map (\<lambda>i. new_parameter i None) [0..<length (getArgNames (fun_text func))])"

definition getOrCreateMethodArgsRegistration ::
  "(target \<Rightarrow> string \<Rightarrow> js_type option list option) \<Rightarrow> target option \<Rightarrow> string \<Rightarrow> js_fun \<Rightarrow> registry \<Rightarrow> registry" where
  "getOrCreateMethodArgsRegistration design tgt funcName func r = (case map_of (re_methodArgsByFunction r) func of
       Some _ \<Rightarrow> r
     | None \<Rightarrow> r\<lparr>re_methodArgsByFunction := AList.update func (make_args design tgt funcName func) (re_methodArgsByFunction r)\<rparr>)"

definition args_of :: "registry \<Rightarrow> js_fun \<Rightarrow> MethodParameter list" where
  "args_of r f = coalesce (map_of (re_methodArgsByFunction r) f) []"

definition name_parameter :: "string list \<Rightarrow> MethodParameter \<Rightarrow> MethodParameter" where
  "name_parameter argNames e = (if mp_name e = [] \<and> mp_index e < length argNames then e\<lparr>mp_name := argNames ! mp_index e\<rparr> else e)"

definition update_args :: "js_fun \<Rightarrow> (MethodParameter list \<Rightarrow> MethodParameter list) \<Rightarrow> registry \<Rightarrow> registry" where
  "update_args f g r = r\<lparr>re_methodArgsByFunction := AList.update f (g (args_of r f)) (re_methodArgsByFunction r)\<rparr>"

definition new_method :: "nat \<Rightarrow> nat \<Rightarrow> string \<Rightarrow> string \<Rightarrow> bool \<Rightarrow> js_fun \<Rightarrow> MethodRegistration" where
  "new_method m c name className isInstance func =
     \<lparr>mt_name = name, mt_className = className, mt_classReg = c, mt_onEnter = [], mt_isInstance = isInstance, mt_origFunction = func,
      mt_registeredFunction = Some (RegisteredFn m), mt_wrappedFunction = None, mt_workflowConfig = None, mt_stepConfig = None, mt_externalRegInfo = []\<rparr>"

text \<open>A new registration is initialized when it is made.\<close>

definition create_method ::
  "(target \<Rightarrow> string \<Rightarrow> js_type option list option) \<Rightarrow> target option \<Rightarrow> string \<Rightarrow> nat \<Rightarrow> bool \<Rightarrow> string \<Rightarrow> js_fun \<Rightarrow> registry \<Rightarrow> registry" where
  "create_method design tgt propertyKey c isInstance fname func r =
     (let m = length (re_methods r);
          r1 = update_class c (\<lambda>x. x\<lparr>cr_allRegisteredOperations := AList.update func m (cr_allRegisteredOperations x)\<rparr>)
                 (r\<lparr>re_methods := re_methods r @ [new_method m c fname (cr_name (class_of r c)) isInstance func]\<rparr>);
          r2 = update_args func (map (name_parameter (getArgNames (fun_text func)))) (getOrCreateMethodArgsRegistration design tgt propertyKey func r1)
      in r2\<lparr>re_functionToRegistration := AList.update func m (AList.update (RegisteredFn m) m (re_functionToRegistration r2))\<rparr>)"

definition getOrCreateMethodRegistration ::
  "(target \<Rightarrow> string \<Rightarrow> js_type option list option) \<Rightarrow> target option \<Rightarrow> string option \<Rightarrow> string \<Rightarrow> string option \<Rightarrow> js_fun \<Rightarrow> nat reg_op" where
  "getOrCreateMethodRegistration design tgt className propertyKey name func = and_then (getOrCreateClassRegistration tgt className) (\<lambda>(c, isInstance).
     and_then (gets (\<lambda>r. (map_of (cr_allRegisteredOperations (class_of r c)) func, length (re_methods r)))) (\<lambda>(existing, m). case existing of
        Some m' \<Rightarrow> ret m'
      | None \<Rightarrow> and_then (modify (create_method design tgt propertyKey c isInstance (coalesce name propertyKey) func)) (\<lambda>_. ret m)))"

definition wrapDBOSFunctionAndRegisterByUniqueName ::
  "(target \<Rightarrow> string \<Rightarrow> js_type option list option) \<Rightarrow> target option \<Rightarrow> string option \<Rightarrow> string \<Rightarrow> string option \<Rightarrow> js_fun \<Rightarrow> nat reg_op" where
  "wrapDBOSFunctionAndRegisterByUniqueName design tgt className propertyKey name0 func = and_then ensureDBOSIsNotLaunched (\<lambda>_.
     let name = (if truthy name0 then coalesce name0 [] else propertyKey) in
     and_then (gets (\<lambda>r. getFunctionRegistration r func)) (\<lambda>freg.
       and_then (case freg of Some m \<Rightarrow> ret m | None \<Rightarrow> getOrCreateMethodRegistration design tgt className propertyKey (Some name) func) (\<lambda>m.
         and_then (getOrCreateClassRegistration tgt className) (\<lambda>(c, _).
           and_then (registerOperationByName c name m) (\<lambda>_. ret m)))))"

definition wrapDBOSFunctionAndRegister ::
  "(target \<Rightarrow> string \<Rightarrow> js_type option list option) \<Rightarrow> target option \<Rightarrow> string option \<Rightarrow> string \<Rightarrow> string option \<Rightarrow> js_fun \<Rightarrow> nat reg_op" where
  "wrapDBOSFunctionAndRegister design tgt className propertyKey name func = and_then ensureDBOSIsNotLaunched (\<lambda>_.
     and_then (gets (\<lambda>r. getFunctionRegistration r func)) (\<lambda>freg. case freg of
        Some m \<Rightarrow> ret m
      | None \<Rightarrow> getOrCreateMethodRegistration design tgt className propertyKey name func))"

text \<open>The function that a decorator leaves in the class.\<close>

definition current_function :: "registry \<Rightarrow> nat \<Rightarrow> js_fun" where
  "current_function r m = (case mt_wrappedFunction (method_of r m) of
       Some f \<Rightarrow> f
     | None \<Rightarrow> coalesce (mt_registeredFunction (method_of r m)) (mt_origFunction (method_of r m)))"

definition wrapDBOSFunctionAndRegisterByTarget ::
  "(target \<Rightarrow> string \<Rightarrow> js_type option list option) \<Rightarrow> target \<Rightarrow> string \<Rightarrow> string option \<Rightarrow> js_fun option \<Rightarrow> nat reg_op" where
  "wrapDBOSFunctionAndRegisterByTarget design tgt propertyKey name descriptor = (case descriptor of
       None \<Rightarrow> throw (PlainError ''Use of decorator when original method is undefined'')
     | Some func \<Rightarrow> wrapDBOSFunctionAndRegisterByUniqueName design (Some tgt) None propertyKey name func)"

definition getAllClassRegistrations :: "registry \<Rightarrow> nat list" where
  "getAllClassRegistrations r = rev (remdups (rev (map (fst \<circ> snd) (re_classesByName r) @ map (snd \<circ> snd) (re_classesByCtor r))))"

definition getAllRegisteredClassNames :: "registry \<Rightarrow> string list" where
  "getAllRegisteredClassNames r = map fst (re_classesByName r)"

definition getAllRegisteredFunctions :: "registry \<Rightarrow> nat list" where
  "getAllRegisteredFunctions r = rev (remdups (rev (map snd (re_functionToRegistration r))))"

text \<open>The operations of a class, or of an object: those of the constructors along its chain of prototypes.\<close>

datatype operations_of = OfConstructor ctor | OfObject "ctor list"

definition ctor_operations :: "registry \<Rightarrow> ctor \<Rightarrow> nat list" where
  "ctor_operations r k = (case map_of (re_classesByCtor r) k of
       None \<Rightarrow> []
     | Some (_, c) \<Rightarrow> map snd (cr_allRegisteredOperations (class_of r c)))"

fun getRegisteredOperations :: "registry \<Rightarrow> operations_of \<Rightarrow> nat list" where
  "getRegisteredOperations r (OfConstructor k) = ctor_operations r k"
| "getRegisteredOperations r (OfObject ks) = concat (map (ctor_operations r) ks)"

section \<open>Information of others\<close>

definition ensure_info :: "external \<Rightarrow> (external \<times> reg_info) list \<Rightarrow> (external \<times> reg_info) list" where
  "ensure_info ext infos = (if map_of infos ext = None then AList.update ext [] infos else infos)"

definition set_info :: "external \<Rightarrow> string \<Rightarrow> string list \<Rightarrow> (external \<times> reg_info) list \<Rightarrow> (external \<times> reg_info) list" where
  "set_info ext prop v infos = AList.update ext (AList.update prop v (coalesce (map_of infos ext) [])) infos"

definition class_info :: "nat \<Rightarrow> ((external \<times> reg_info) list \<Rightarrow> (external \<times> reg_info) list) \<Rightarrow> registry \<Rightarrow> registry" where
  "class_info c f = update_class c (\<lambda>x. x\<lparr>cr_externalRegInfo := f (cr_externalRegInfo x)\<rparr>)"

definition method_info :: "nat \<Rightarrow> ((external \<times> reg_info) list \<Rightarrow> (external \<times> reg_info) list) \<Rightarrow> registry \<Rightarrow> registry" where
  "method_info m f = update_method m (\<lambda>x. x\<lparr>mt_externalRegInfo := f (mt_externalRegInfo x)\<rparr>)"

datatype class_spec = ClassNamed string | ClassOf ctor

definition associateClassWithExternal :: "external \<Rightarrow> class_spec \<Rightarrow> nat reg_op" where
  "associateClassWithExternal ext cls = and_then (case cls of
       ClassNamed n \<Rightarrow> getClassRegistrationByName n True
     | ClassOf k \<Rightarrow> and_then (getClassRegistration k True) (\<lambda>found. ret (snd (created found)))) (\<lambda>c.
     and_then (modify (class_info c (ensure_info ext))) (\<lambda>_. ret c))"

definition associateMethodWithExternal ::
  "(target \<Rightarrow> string \<Rightarrow> js_type option list option) \<Rightarrow> external \<Rightarrow> target option \<Rightarrow> string option \<Rightarrow> string \<Rightarrow> js_fun \<Rightarrow> nat reg_op" where
  "associateMethodWithExternal design ext tgt className funcName func =
     and_then (wrapDBOSFunctionAndRegister design tgt className funcName (Some funcName) func) (\<lambda>m.
       and_then (modify (method_info m (ensure_info ext))) (\<lambda>_. ret m))"

datatype param_id = ParamIndex nat | ParamName string

definition find_param :: "param_id \<Rightarrow> MethodParameter list \<Rightarrow> nat option" where
  "find_param p args = (case p of
       ParamIndex i \<Rightarrow> if i < length args then Some i else None
     | ParamName n \<Rightarrow> find (\<lambda>i. mp_name (args ! i) = n) [0..<length args])"

definition associateParameterWithExternal ::
  "(target \<Rightarrow> string \<Rightarrow> js_type option list option) \<Rightarrow> external \<Rightarrow> target option \<Rightarrow> string option \<Rightarrow> string \<Rightarrow> js_fun \<Rightarrow> param_id \<Rightarrow> (js_fun \<times> nat) option reg_op" where
  "associateParameterWithExternal design ext tgt className funcName func paramId =
     and_then (wrapDBOSFunctionAndRegister design tgt className funcName (Some funcName) func) (\<lambda>m.
       and_then (gets (\<lambda>r. (mt_origFunction (method_of r m), find_param paramId (args_of r (mt_origFunction (method_of r m)))))) (\<lambda>(f, found). case found of
          None \<Rightarrow> ret None
        | Some i \<Rightarrow> and_then (modify (update_args f (\<lambda>args. args[i := (args ! i)\<lparr>mp_externalRegInfo := ensure_info ext (mp_externalRegInfo (args ! i))\<rparr>])))
            (\<lambda>_. ret (Some (f, i)))))"

definition ArgName :: "(target \<Rightarrow> string \<Rightarrow> js_type option list option) \<Rightarrow> string \<Rightarrow> target \<Rightarrow> string \<Rightarrow> js_fun \<Rightarrow> nat \<Rightarrow> unit reg_op" where
  "ArgName design name tgt propertyKey func parameterIndex =
     and_then (modify (getOrCreateMethodArgsRegistration design (Some tgt) propertyKey func)) (\<lambda>_.
       and_then (gets (\<lambda>r. length (args_of r func))) (\<lambda>n.
         if n \<le> parameterIndex then throw (PlainError ''TypeError'')
         else modify (update_args func (\<lambda>args. args[parameterIndex := (args ! parameterIndex)\<lparr>mp_name := name\<rparr>]))))"

record ExternalRegistration =
  er_classConfig :: reg_info
  er_methodConfig :: "reg_info option"
  er_paramConfig :: "(string \<times> nat \<times> reg_info option) list"
  er_methodReg :: nat

definition collectRegForFunction :: "registry \<Rightarrow> external \<Rightarrow> nat \<Rightarrow> ExternalRegistration list" where
  "collectRegForFunction r ext m =
     (let x = method_of r m;
          methodConfig = map_of (mt_externalRegInfo x) ext;
          classConfig = map_of (cr_externalRegInfo (class_of r (mt_classReg x))) ext;
          paramConfig = map (\<lambda>a. (mp_name a, mp_index a, map_of (mp_externalRegInfo a) ext)) (args_of r (mt_origFunction x)) in
      if methodConfig = None \<and> classConfig = None \<and> \<not> list_ex (\<lambda>(_, _, p). p \<noteq> None) paramConfig then []
      else [\<lparr>er_classConfig = coalesce classConfig [], er_methodConfig = methodConfig, er_paramConfig = paramConfig, er_methodReg = m\<rparr>])"

definition collectRegForClass :: "registry \<Rightarrow> external \<Rightarrow> nat \<Rightarrow> ExternalRegistration list" where
  "collectRegForClass r ext c = concat (map (\<lambda>(_, m). collectRegForFunction r ext m) (cr_allRegisteredOperations (class_of r c)))"

definition getRegistrationsForExternal :: "registry \<Rightarrow> external \<Rightarrow> class_spec option \<Rightarrow> string option \<Rightarrow> ExternalRegistration list" where
  "getRegistrationsForExternal r ext cls funcName =
     (if cls = None \<or> cls = Some (ClassNamed []) then concat (map (collectRegForClass r ext) (getAllClassRegistrations r))
      else case (case cls of Some (ClassNamed n) \<Rightarrow> map_option fst (map_of (re_classesByName r) n)
                           | Some (ClassOf k) \<Rightarrow> map_option snd (map_of (re_classesByCtor r) k) | None \<Rightarrow> None) of
        None \<Rightarrow> []
      | Some c \<Rightarrow> if truthy funcName
          then (case map_of (cr_registeredOperationsByName (class_of r c)) (coalesce funcName []) of None \<Rightarrow> [] | Some m \<Rightarrow> collectRegForFunction r ext m)
          else collectRegForClass r ext c)"

section \<open>Decorators\<close>

definition getWorkflowInvoker :: "nat \<Rightarrow> WorkflowConfig \<Rightarrow> nat option \<Rightarrow> js_fun reg_op" where
  "getWorkflowInvoker m config inputSchema = and_then (setWorkflowConfig m config) (\<lambda>_.
     and_then (case inputSchema of None \<Rightarrow> ret () | Some schema \<Rightarrow> modify (update_method m (addEntryInterceptor (InputSchema schema) 10))) (\<lambda>_.
       registerFunctionWrapper m))"

definition workflow_decorator ::
  "(target \<Rightarrow> string \<Rightarrow> js_type option list option) \<Rightarrow> string option \<Rightarrow> WorkflowConfig \<Rightarrow> nat option \<Rightarrow> target \<Rightarrow> string \<Rightarrow> js_fun option \<Rightarrow> js_fun reg_op" where
  "workflow_decorator design name config inputSchema tgt propertyKey descriptor =
     and_then (wrapDBOSFunctionAndRegisterByTarget design tgt propertyKey (Some (coalesce name propertyKey)) descriptor) (\<lambda>m.
       getWorkflowInvoker m config inputSchema)"

definition registerWorkflow ::
  "(target \<Rightarrow> string \<Rightarrow> js_type option list option) \<Rightarrow> target option \<Rightarrow> string option \<Rightarrow> string option \<Rightarrow> WorkflowConfig \<Rightarrow> nat option \<Rightarrow> js_fun \<Rightarrow> js_fun reg_op" where
  "registerWorkflow design ctorOrProto className name config inputSchema func =
     and_then (gets (\<lambda>r. coalesce name (fun_name r func))) (\<lambda>n.
       and_then (wrapDBOSFunctionAndRegisterByUniqueName design ctorOrProto className n (Some n) func) (\<lambda>m.
         getWorkflowInvoker m config inputSchema))"

definition step_decorator ::
  "(target \<Rightarrow> string \<Rightarrow> js_type option list option) \<Rightarrow> string option \<Rightarrow> StepConfig \<Rightarrow> target \<Rightarrow> string \<Rightarrow> js_fun option \<Rightarrow> js_fun reg_op" where
  "step_decorator design name config tgt propertyKey descriptor =
     and_then (wrapDBOSFunctionAndRegisterByTarget design tgt propertyKey name descriptor) (\<lambda>m.
       and_then (setStepConfig m config) (\<lambda>_. registerFunctionWrapper m))"

definition registerStep ::
  "(target \<Rightarrow> string \<Rightarrow> js_type option list option) \<Rightarrow> target option \<Rightarrow> string option \<Rightarrow> string option \<Rightarrow> StepConfig \<Rightarrow> js_fun \<Rightarrow> js_fun reg_op" where
  "registerStep design ctorOrProto className name config func =
     and_then (gets (\<lambda>r. coalesce name (fun_name r func))) (\<lambda>n.
       case validateStepConfig config n of
         Some e \<Rightarrow> throw e
       | None \<Rightarrow> and_then (wrapDBOSFunctionAndRegister design ctorOrProto className n (Some n) func) registerFunctionWrapper)"

definition registerAuthChecker :: "unit reg_op" where
  "registerAuthChecker = registerMiddlewareInstaller AuthChecker"

definition defaultRequiredRole :: "string list \<Rightarrow> ctor \<Rightarrow> unit reg_op" where
  "defaultRequiredRole anyOf k = and_then (associateClassWithExternal DBOS_AUTH (ClassOf k)) (\<lambda>c.
     and_then (modify (class_info c (set_info DBOS_AUTH ''requiredRole'' anyOf))) (\<lambda>_. registerAuthChecker))"

definition requiredRole ::
  "(target \<Rightarrow> string \<Rightarrow> js_type option list option) \<Rightarrow> string list \<Rightarrow> target \<Rightarrow> string \<Rightarrow> js_fun \<Rightarrow> js_fun reg_op" where
  "requiredRole design anyOf tgt propertyKey func = and_then (associateMethodWithExternal design DBOS_AUTH (Some tgt) None propertyKey func) (\<lambda>m.
     and_then (modify (method_info m (set_info DBOS_AUTH ''requiredRole'' anyOf))) (\<lambda>_.
       and_then registerAuthChecker (\<lambda>_. gets (\<lambda>r. current_function r m))))"

section \<open>Middleware and roles\<close>

text \<open>What an installer of the program adds to a function is an argument (\<open>adds\<close>).\<close>

definition install_auth :: "nat \<Rightarrow> registry \<Rightarrow> registry" where
  "install_auth m r =
     (let r1 = method_info m (ensure_info DBOS_AUTH) (class_info (mt_classReg (method_of r m)) (ensure_info DBOS_AUTH) r) in
      if requiredRole_of (cr_externalRegInfo (class_of r1 (mt_classReg (method_of r1 m)))) \<noteq> None \<or> requiredRole_of (mt_externalRegInfo (method_of r1 m)) \<noteq> None
      then update_method m (addEntryInterceptor CheckMethodAuth 10) r1 else r1)"

definition installMiddleware :: "(nat \<Rightarrow> MethodRegistration \<Rightarrow> (int \<times> interceptor) list) \<Rightarrow> nat \<Rightarrow> installer \<Rightarrow> registry \<Rightarrow> registry" where
  "installMiddleware adds m i r = (case i of
       AuthChecker \<Rightarrow> install_auth m r
     | OtherInstaller k \<Rightarrow> fold (\<lambda>(seqNum, f). update_method m (addEntryInterceptor f seqNum)) (adds k (method_of r m)) r)"

definition insertAllMiddleware :: "(nat \<Rightarrow> MethodRegistration \<Rightarrow> (int \<times> interceptor) list) \<Rightarrow> registry \<Rightarrow> registry" where
  "insertAllMiddleware adds r =
     (if re_installedMiddleware r then r
      else fold (\<lambda>m r1. fold (installMiddleware adds m) (re_middlewareInstallers r1) r1)
        (concat (map (\<lambda>c. map snd (cr_allRegisteredOperations (class_of r c))) (getAllClassRegistrations r))) (r\<lparr>re_installedMiddleware := True\<rparr>))"

type_synonym ('a, 'b) call_op = "(DBOSLocalCtx option, dbos_error, 'b) op"

definition DBOS_authenticatedRoles :: "DBOSLocalCtx option \<Rightarrow> string list" where
  "DBOS_authenticatedRoles ctx = coalesce (Option.bind ctx cx_authenticatedRoles) []"

definition checkMethodAuth :: "registry \<Rightarrow> nat \<Rightarrow> 'a list \<Rightarrow> ('a, 'a list) call_op" where
  "checkMethodAuth r m args = (let requiredRoles = getRequiredRoles r m in
     if requiredRoles = [] then ret args
     else and_then (gets DBOS_authenticatedRoles) (\<lambda>curRoles. case find (\<lambda>role. role \<in> set curRoles) requiredRoles of
        Some role \<Rightarrow> and_then (modify (map_option (\<lambda>c. c\<lparr>cx_assumedRole := Some role\<rparr>))) (\<lambda>_. ret args)
      | None \<Rightarrow> throw (DBOSNotAuthorizedError (''User does not have a role with permission to call '' @ mt_name (method_of r m)))))"

record 'a intercept_env =
  ie_parse :: "nat \<Rightarrow> 'a list \<Rightarrow> dbos_error + 'a list"
  ie_other :: "nat \<Rightarrow> 'a list \<Rightarrow> dbos_error + 'a list"

definition intercept :: "'a intercept_env \<Rightarrow> registry \<Rightarrow> nat \<Rightarrow> interceptor \<Rightarrow> 'a list \<Rightarrow> ('a, 'a list) call_op" where
  "intercept env r m f args = (case f of
       CheckMethodAuth \<Rightarrow> checkMethodAuth r m args
     | InputSchema i \<Rightarrow> (case ie_parse env i args of Inl e \<Rightarrow> throw e | Inr args' \<Rightarrow> ret args')
     | OtherInterceptor i \<Rightarrow> (case ie_other env i args of Inl e \<Rightarrow> throw e | Inr args' \<Rightarrow> ret args'))"

fun run_onEnter :: "'a intercept_env \<Rightarrow> registry \<Rightarrow> nat \<Rightarrow> (int \<times> interceptor) list \<Rightarrow> 'a list \<Rightarrow> ('a, 'a list) call_op" where
  "run_onEnter env r m [] args = ret args"
| "run_onEnter env r m (vf # vfs) args = and_then (intercept env r m (snd vf) args) (run_onEnter env r m vfs)"

text \<open>\<open>registeredFunction\<close>: the interceptors, then the program's function.\<close>

definition wrappedMethod :: "'a intercept_env \<Rightarrow> registry \<Rightarrow> nat \<Rightarrow> ('a list \<Rightarrow> ('a, 'b) call_op) \<Rightarrow> 'a list \<Rightarrow> ('a, 'b) call_op" where
  "wrappedMethod env r m origFunction rawArgs = and_then (run_onEnter env r m (mt_onEnter (method_of r m)) rawArgs) origFunction"

section \<open>Data sources\<close>

definition registerTransactionalDataSource :: "string \<Rightarrow> nat \<Rightarrow> unit reg_op" where
  "registerTransactionalDataSource name ds = and_then (gets (\<lambda>r. map_of (re_transactionalDataSources r) name)) (\<lambda>found. case found of
       Some ds' \<Rightarrow> if ds' \<noteq> ds then throw (DBOSConflictingRegistrationError (''Data source with name '' @ name @ '' is already registered'')) else ret ()
     | None \<Rightarrow> and_then ensureDBOSIsNotLaunched (\<lambda>_.
         modify (\<lambda>r. r\<lparr>re_transactionalDataSources := AList.update name ds (re_transactionalDataSources r)\<rparr>)))"

definition getTransactionalDataSource :: "string \<Rightarrow> nat reg_op" where
  "getTransactionalDataSource name = and_then (gets (\<lambda>r. map_of (re_transactionalDataSources r) name)) (\<lambda>found. case found of
       Some ds \<Rightarrow> ret ds
     | None \<Rightarrow> throw (DBOSNotRegisteredError name))"

end
