(* ===== verification/Registry_Invariant.thy ===== *)
theory Registry_Invariant
  imports Registry
begin

text \<open>
  What the operations on the registries keep: an invariant of the registries as a whole, and that what has been registered stays registered
  (\<open>registry_extends\<close>). Both are carried through every operation as triples of a precondition, an operation and what holds of its result.
\<close>

section \<open>What the registries keep\<close>

text \<open>
  The fields that later lookups depend on. Every class is found by its constructor or, if it has none, by its name; every registration is found by its functions
  and in its class; a function of a class without a constructor bears the name of the class unless it was also registered elsewhere.
\<close>

definition sole :: "registry \<Rightarrow> nat \<Rightarrow> bool" where
  "sole r m \<longleftrightarrow> (\<forall>c<length (re_classes r). m \<in> ran (map_of (cr_registeredOperationsByName (class_of r c))) \<longrightarrow> c = mt_classReg (method_of r m))"

definition classes_inv :: "registry \<Rightarrow> bool" where
  "classes_inv r \<longleftrightarrow>
     (\<forall>k n c. map_of (re_classesByCtor r) k = Some (n, c) \<longrightarrow> c < length (re_classes r) \<and> cr_ctor (class_of r c) = Some k) \<and>
     (\<forall>n c k. map_of (re_classesByName r) n = Some (c, k) \<longrightarrow> c < length (re_classes r) \<and> \<not> cr_needsInitialized (class_of r c) \<and>
        cr_ctor (class_of r c) = k \<and> (k = None \<longrightarrow> cr_name (class_of r c) = n)) \<and>
     (\<forall>c<length (re_classes r). cr_ctor (class_of r c) = None \<longrightarrow> map_of (re_classesByName r) (cr_name (class_of r c)) = Some (c, None)) \<and>
     (\<forall>c<length (re_classes r). \<forall>k. cr_ctor (class_of r c) = Some k \<longrightarrow> (\<exists>n. map_of (re_classesByCtor r) k = Some (n, c)))"

definition linked :: "registry \<Rightarrow> bool" where
  "linked r \<longleftrightarrow> (\<forall>m<length (re_methods r). mt_classReg (method_of r m) < length (re_classes r) \<and>
     map_of (cr_allRegisteredOperations (class_of r (mt_classReg (method_of r m)))) (mt_origFunction (method_of r m)) = Some m \<and>
     map_of (re_functionToRegistration r) (mt_origFunction (method_of r m)) = Some m \<and> map_of (re_functionToRegistration r) (RegisteredFn m) = Some m \<and>
     mt_registeredFunction (method_of r m) = Some (RegisteredFn m))"

definition operations_inv :: "registry \<Rightarrow> bool" where
  "operations_inv r \<longleftrightarrow>
     (\<forall>c<length (re_classes r). \<forall>f m. map_of (cr_allRegisteredOperations (class_of r c)) f = Some m \<longrightarrow> m < length (re_methods r) \<and> mt_origFunction (method_of r m) = f) \<and>
     (\<forall>c<length (re_classes r). \<forall>n m. map_of (cr_registeredOperationsByName (class_of r c)) n = Some m \<longrightarrow> m < length (re_methods r)) \<and>
     (\<forall>c<length (re_classes r). distinct (map fst (cr_registeredOperationsByName (class_of r c))))"

fun made_for :: "nat \<Rightarrow> js_fun \<Rightarrow> nat \<Rightarrow> bool" where
  "made_for i (OrigFn _ _ _) m \<longleftrightarrow> True"
| "made_for i (RegisteredFn m') m \<longleftrightarrow> m' = m"
| "made_for i (WrapperFn m' j) m \<longleftrightarrow> m' = m \<and> j < i"

definition functions_inv :: "registry \<Rightarrow> bool" where
  "functions_inv r \<longleftrightarrow> (\<forall>f m. map_of (re_functionToRegistration r) f = Some m \<longrightarrow> m < length (re_methods r) \<and> made_for (re_made r) f m)"

definition names_inv :: "registry \<Rightarrow> bool" where
  "names_inv r \<longleftrightarrow> (\<forall>m<length (re_methods r). cr_ctor (class_of r (mt_classReg (method_of r m))) = None \<and> sole r m \<longrightarrow>
     mt_className (method_of r m) = cr_name (class_of r (mt_classReg (method_of r m))))"

definition methods_inv :: "registry \<Rightarrow> bool" where
  "methods_inv r \<longleftrightarrow> linked r \<and> operations_inv r \<and> functions_inv r \<and> names_inv r"

definition registry_inv :: "registry \<Rightarrow> bool" where
  "registry_inv r \<longleftrightarrow> classes_inv r \<and> methods_inv r"

text \<open>What no operation takes back: registrations, their names and classes, and where functions are found.\<close>

definition registry_extends :: "registry \<Rightarrow> registry \<Rightarrow> bool" where
  "registry_extends r r' \<longleftrightarrow> length (re_classes r) \<le> length (re_classes r') \<and> length (re_methods r) \<le> length (re_methods r') \<and>
     (\<forall>m<length (re_methods r). mt_name (method_of r' m) = mt_name (method_of r m) \<and> mt_classReg (method_of r' m) = mt_classReg (method_of r m)) \<and>
     (\<forall>c<length (re_classes r). map_of (cr_registeredOperationsByName (class_of r c)) \<subseteq>\<^sub>m map_of (cr_registeredOperationsByName (class_of r' c)) \<and>
        cr_ctor (class_of r' c) = cr_ctor (class_of r c)) \<and>
     (\<forall>k n c. map_of (re_classesByCtor r) k = Some (n, c) \<longrightarrow> (\<exists>n'. map_of (re_classesByCtor r') k = Some (n', c))) \<and>
     map_of (re_functionToRegistration r) \<subseteq>\<^sub>m map_of (re_functionToRegistration r')"

lemma registry_extends_refl [simp]: "registry_extends r r"
  by (simp add: registry_extends_def)

lemma registry_extends_trans: "registry_extends r1 r2 \<Longrightarrow> registry_extends r2 r3 \<Longrightarrow> registry_extends r1 r3"
  unfolding registry_extends_def by (auto intro: map_le_trans) (meson order_less_le_trans map_le_trans)+

subsection \<open>Fields that do not matter\<close>

definition class_core :: "ClassRegistration \<Rightarrow> string \<times> bool \<times> (string \<times> nat) list \<times> (js_fun \<times> nat) list \<times> ctor option" where
  "class_core c = (cr_name c, cr_needsInitialized c, cr_registeredOperationsByName c, cr_allRegisteredOperations c, cr_ctor c)"

definition method_core :: "MethodRegistration \<Rightarrow> string \<times> string \<times> nat \<times> js_fun \<times> js_fun option" where
  "method_core m = (mt_name m, mt_className m, mt_classReg m, mt_origFunction m, mt_registeredFunction m)"

definition same_core :: "registry \<Rightarrow> registry \<Rightarrow> bool" where
  "same_core r r' \<longleftrightarrow> map class_core (re_classes r') = map class_core (re_classes r) \<and> map method_core (re_methods r') = map method_core (re_methods r) \<and>
     re_classesByName r' = re_classesByName r \<and> re_classesByCtor r' = re_classesByCtor r \<and> re_functionToRegistration r' = re_functionToRegistration r \<and>
     re_made r' = re_made r"

lemma same_core_refl [simp]: "same_core r r"
  by (simp add: same_core_def)

lemma same_core_trans: "same_core r1 r2 \<Longrightarrow> same_core r2 r3 \<Longrightarrow> same_core r1 r3"
  by (simp add: same_core_def)

lemma same_core_fields:
  assumes "same_core r r'"
  shows "length (re_classes r') = length (re_classes r)" and "length (re_methods r') = length (re_methods r)"
    and "c < length (re_classes r) \<Longrightarrow> class_core (class_of r' c) = class_core (class_of r c)"
    and "m < length (re_methods r) \<Longrightarrow> method_core (method_of r' m) = method_core (method_of r m)"
proof -
  from assms have eqs: "map class_core (re_classes r') = map class_core (re_classes r)" "map method_core (re_methods r') = map method_core (re_methods r)"
    by (simp_all add: same_core_def)
  from eqs show len: "length (re_classes r') = length (re_classes r)" "length (re_methods r') = length (re_methods r)" by (metis length_map)+
  show "c < length (re_classes r) \<Longrightarrow> class_core (class_of r' c) = class_core (class_of r c)"
    using arg_cong[OF eqs(1), of "\<lambda>xs. xs ! c"] len by (simp add: class_of_def)
  show "m < length (re_methods r) \<Longrightarrow> method_core (method_of r' m) = method_core (method_of r m)"
    using arg_cong[OF eqs(2), of "\<lambda>xs. xs ! m"] len by (simp add: method_of_def)
qed

lemma same_core_extends: "same_core r r' \<Longrightarrow> registry_extends r r'"
  using same_core_fields[of r r'] by (simp add: registry_extends_def same_core_def class_core_def method_core_def)

lemma classes_inv_cong:
  assumes "classes_inv r" and "length (re_classes r') = length (re_classes r)"
    and "re_classesByName r' = re_classesByName r" and "re_classesByCtor r' = re_classesByCtor r"
    and "\<And>c. c < length (re_classes r) \<Longrightarrow> cr_name (class_of r' c) = cr_name (class_of r c) \<and> cr_ctor (class_of r' c) = cr_ctor (class_of r c) \<and>
      cr_needsInitialized (class_of r' c) = cr_needsInitialized (class_of r c)"
  shows "classes_inv r'"
  using assms(1,5) unfolding classes_inv_def assms(2-4) by simp

lemma same_core_classes_inv:
  assumes "same_core r r'" and "classes_inv r" shows "classes_inv r'"
  using assms(2) same_core_fields(1)[OF assms(1)]
proof (rule classes_inv_cong)
  show "cr_name (class_of r' c) = cr_name (class_of r c) \<and> cr_ctor (class_of r' c) = cr_ctor (class_of r c) \<and>
      cr_needsInitialized (class_of r' c) = cr_needsInitialized (class_of r c)" if "c < length (re_classes r)" for c
    using same_core_fields(3)[OF assms(1) that] by (simp add: class_core_def)
qed (use assms(1) in \<open>simp_all add: same_core_def\<close>)

lemma same_core_methods_inv:
  assumes "same_core r r'" and "methods_inv r" shows "methods_inv r'"
proof -
  note F = same_core_fields[OF assms(1)]
  from assms(1) have T: "re_functionToRegistration r' = re_functionToRegistration r" "re_made r' = re_made r" by (simp_all add: same_core_def)
  have C: "c < length (re_classes r) \<Longrightarrow> cr_name (class_of r' c) = cr_name (class_of r c) \<and> cr_ctor (class_of r' c) = cr_ctor (class_of r c) \<and>
      cr_registeredOperationsByName (class_of r' c) = cr_registeredOperationsByName (class_of r c) \<and>
      cr_allRegisteredOperations (class_of r' c) = cr_allRegisteredOperations (class_of r c)" for c
    using F(3)[of c] by (simp add: class_core_def)
  have M: "m < length (re_methods r) \<Longrightarrow> mt_className (method_of r' m) = mt_className (method_of r m) \<and> mt_classReg (method_of r' m) = mt_classReg (method_of r m) \<and>
      mt_origFunction (method_of r' m) = mt_origFunction (method_of r m) \<and> mt_registeredFunction (method_of r' m) = mt_registeredFunction (method_of r m)" for m
    using F(4)[of m] by (simp add: method_core_def)
  have S: "m < length (re_methods r) \<Longrightarrow> sole r' m = sole r m" for m
    using C M[of m] by (simp add: sole_def F(1))
  from assms(2) show ?thesis
    unfolding methods_inv_def linked_def operations_inv_def functions_inv_def names_inv_def T F(1,2) using C M S by simp
qed

lemma classes_invD:
  assumes "classes_inv r"
  shows byCtor_class: "map_of (re_classesByCtor r) k = Some (n, c) \<Longrightarrow> c < length (re_classes r) \<and> cr_ctor (class_of r c) = Some k"
    and byName_class: "map_of (re_classesByName r) n = Some (c, ko) \<Longrightarrow> c < length (re_classes r) \<and> \<not> cr_needsInitialized (class_of r c) \<and>
      cr_ctor (class_of r c) = ko \<and> (ko = None \<longrightarrow> cr_name (class_of r c) = n)"
    and plain_class: "c < length (re_classes r) \<Longrightarrow> cr_ctor (class_of r c) = None \<Longrightarrow> map_of (re_classesByName r) (cr_name (class_of r c)) = Some (c, None)"
    and ctor_class: "c < length (re_classes r) \<Longrightarrow> cr_ctor (class_of r c) = Some k \<Longrightarrow> \<exists>n. map_of (re_classesByCtor r) k = Some (n, c)"
  using assms unfolding classes_inv_def by blast+

lemma classes_invI:
  assumes "\<And>k n c. map_of (re_classesByCtor r) k = Some (n, c) \<Longrightarrow> c < length (re_classes r) \<and> cr_ctor (class_of r c) = Some k"
    and "\<And>n c ko. map_of (re_classesByName r) n = Some (c, ko) \<Longrightarrow> c < length (re_classes r) \<and> \<not> cr_needsInitialized (class_of r c) \<and>
      cr_ctor (class_of r c) = ko \<and> (ko = None \<longrightarrow> cr_name (class_of r c) = n)"
    and "\<And>c. c < length (re_classes r) \<Longrightarrow> cr_ctor (class_of r c) = None \<Longrightarrow> map_of (re_classesByName r) (cr_name (class_of r c)) = Some (c, None)"
    and "\<And>c k. c < length (re_classes r) \<Longrightarrow> cr_ctor (class_of r c) = Some k \<Longrightarrow> \<exists>n. map_of (re_classesByCtor r) k = Some (n, c)"
  shows "classes_inv r"
  using assms unfolding classes_inv_def by blast

lemma same_core_inv: "same_core r r' \<Longrightarrow> registry_inv r \<Longrightarrow> registry_inv r'"
  by (simp add: registry_inv_def same_core_classes_inv same_core_methods_inv)

lemma nth_update_at: "j < length xs \<Longrightarrow> xs[i := x] ! j = (if j = i then x else xs ! j)"
  by (simp add: nth_list_update)

lemma update_same_core:
  "(\<And>x. class_core (f x) = class_core x) \<Longrightarrow> same_core r (update_class c f r)"
  "(\<And>x. method_core (g x) = method_core x) \<Longrightarrow> same_core r (update_method m g r)"
  by (auto simp: same_core_def update_class_def update_method_def nth_update_at intro!: nth_equalityI)

subsection \<open>Contracts\<close>

text \<open>An operation started in a state that satisfies the invariant and \<open>P\<close> keeps the invariant, takes nothing back, and if it returns, \<open>Q\<close> holds of the result.\<close>

definition triple :: "(registry \<Rightarrow> bool) \<Rightarrow> 'a reg_op \<Rightarrow> ('a \<Rightarrow> registry \<Rightarrow> bool) \<Rightarrow> bool" where
  "triple P f Q \<longleftrightarrow> (\<forall>r. registry_inv r \<longrightarrow> P r \<longrightarrow> registry_inv (snd (f r)) \<and> registry_extends r (snd (f r)) \<and> (\<forall>x. fst (f r) = Inr x \<longrightarrow> Q x (snd (f r))))"

lemma tripleD:
  assumes "triple P f Q" and "registry_inv r" and "P r" and "f r = (res, r')"
  shows "registry_inv r'" and "registry_extends r r'" and "res = Inr x \<Longrightarrow> Q x r'"
  using assms unfolding triple_def by (metis fst_conv snd_conv)+

lemma triple_ret: "(\<And>r. P r \<Longrightarrow> Q x r) \<Longrightarrow> triple P (ret x) Q"
  by (simp add: triple_def)

lemma triple_throw: "triple P (throw e) Q"
  by (simp add: triple_def throw_def)

lemma triple_gets: "(\<And>r. registry_inv r \<Longrightarrow> P r \<Longrightarrow> Q (f r) r) \<Longrightarrow> triple P (gets f) Q"
  by (simp add: triple_def gets_def)

lemma triple_modify:
  "(\<And>r. registry_inv r \<Longrightarrow> P r \<Longrightarrow> registry_inv (f r) \<and> registry_extends r (f r) \<and> Q () (f r)) \<Longrightarrow> triple P (modify f) Q"
  by (simp add: triple_def modify_def)

lemma triple_and_then:
  assumes "triple P f Q" and "\<And>x. triple (Q x) (g x) R"
  shows "triple P (and_then f g) R"
  unfolding triple_def
proof (intro allI impI)
  fix r assume r: "registry_inv r" "P r"
  obtain res r1 where f: "f r = (res, r1)" by fastforce
  note D = tripleD[OF assms(1) r f]
  show "registry_inv (snd (and_then f g r)) \<and> registry_extends r (snd (and_then f g r)) \<and> (\<forall>x. fst (and_then f g r) = Inr x \<longrightarrow> R x (snd (and_then f g r)))"
  proof (cases res)
    case (Inl e)
    then show ?thesis using D(1,2) f by simp
  next
    case (Inr x)
    obtain res2 r2 where g: "g x r1 = (res2, r2)" by fastforce
    from tripleD[OF assms(2) D(1) D(3)[OF Inr] g] registry_extends_trans[OF D(2)] f Inr g show ?thesis by simp
  qed
qed

lemma triple_weaken: "triple P f Q \<Longrightarrow> (\<And>r. P' r \<Longrightarrow> P r) \<Longrightarrow> (\<And>x r. Q x r \<Longrightarrow> Q' x r) \<Longrightarrow> triple P' f Q'"
  unfolding triple_def by blast

definition lasting :: "(registry \<Rightarrow> bool) \<Rightarrow> bool" where
  "lasting P \<longleftrightarrow> (\<forall>r r'. registry_extends r r' \<longrightarrow> P r \<longrightarrow> P r')"

lemma triple_lasting: "lasting P \<Longrightarrow> triple P f Q \<Longrightarrow> triple P f (\<lambda>x r. P r \<and> Q x r)"
  unfolding triple_def lasting_def by blast

text \<open>A state in which \<open>c\<close> is a class, or \<open>m\<close> a registration.\<close>

definition is_class :: "nat \<Rightarrow> registry \<Rightarrow> bool" where
  "is_class c r \<longleftrightarrow> c < length (re_classes r)"

definition is_method :: "nat \<Rightarrow> registry \<Rightarrow> bool" where
  "is_method m r \<longleftrightarrow> m < length (re_methods r)"

lemma lasting_is [intro]: "lasting (is_class c)" "lasting (is_method m)"
  by (auto simp: lasting_def is_class_def is_method_def registry_extends_def)

lemma lasting_conj [intro]: "lasting P \<Longrightarrow> lasting Q \<Longrightarrow> lasting (\<lambda>r. P r \<and> Q r)"
  by (auto simp: lasting_def)

lemma lasting_True [intro]: "lasting (\<lambda>_. True)"
  by (simp add: lasting_def)

lemma triple_same_core: "(\<And>r. same_core r (f r)) \<Longrightarrow> (\<And>r r'. registry_extends r r' \<Longrightarrow> P r \<Longrightarrow> Q r') \<Longrightarrow> triple P (modify f) (\<lambda>_. Q)"
  by (rule triple_modify) (auto intro: same_core_inv same_core_extends)

subsection \<open>Classes\<close>

lemma new_class_fields [simp]:
  "cr_name (new_class k) = []" "cr_needsInitialized (new_class k)" "cr_registeredOperationsByName (new_class k) = []"
  "cr_allRegisteredOperations (new_class k) = []" "cr_ctor (new_class k) = k"
  "cr_name (initialize_class n (new_class k)) = n" "\<not> cr_needsInitialized (initialize_class n (new_class k))"
  "cr_registeredOperationsByName (initialize_class n c) = cr_registeredOperationsByName c"
  "cr_allRegisteredOperations (initialize_class n c) = cr_allRegisteredOperations c" "cr_ctor (initialize_class n c) = cr_ctor c"
  by (simp_all add: new_class_def initialize_class_def)

text \<open>A class is added to one of the two tables.\<close>

lemma grow_methods_inv:
  assumes inv: "methods_inv r" and r': "re_classes r' = re_classes r @ [x]" "re_methods r' = re_methods r"
      "re_functionToRegistration r' = re_functionToRegistration r" "re_made r' = re_made r"
    and x: "cr_registeredOperationsByName x = []" "cr_allRegisteredOperations x = []"
  shows "methods_inv r'"
proof -
  have old: "c < length (re_classes r) \<Longrightarrow> class_of r' c = class_of r c" for c by (simp add: r'(1) class_of_def nth_append)
  have new: "class_of r' (length (re_classes r)) = x" by (simp add: r'(1) class_of_def)
  have L: "length (re_classes r') = Suc (length (re_classes r))" by (simp add: r'(1))
  have M: "method_of r' m = method_of r m" for m by (simp add: r'(2) method_of_def)
  have S: "sole r' m = sole r m" for m
    by (auto simp: sole_def L M old new x less_Suc_eq)
  from inv show ?thesis
    unfolding methods_inv_def linked_def operations_inv_def functions_inv_def names_inv_def r'(2-4) L M S by (auto simp: old new x less_Suc_eq)
qed

lemma grow_extends:
  assumes r': "re_classes r' = re_classes r @ [x]" "re_methods r' = re_methods r" "re_functionToRegistration r' = re_functionToRegistration r"
    and "map_of (re_classesByCtor r) \<subseteq>\<^sub>m map_of (re_classesByCtor r')"
  shows "registry_extends r r'"
  using assms by (auto simp: registry_extends_def class_of_def method_of_def nth_append map_le_def) (metis domI)

lemma add_ctor_class:
  assumes inv: "registry_inv r" and fresh: "map_of (re_classesByCtor r) k = None"
  shows "registry_inv (r\<lparr>re_classes := re_classes r @ [new_class (Some k)], re_classesByCtor := AList.update k (ctor_name k, length (re_classes r)) (re_classesByCtor r)\<rparr>) \<and>
    registry_extends r (r\<lparr>re_classes := re_classes r @ [new_class (Some k)], re_classesByCtor := AList.update k (ctor_name k, length (re_classes r)) (re_classesByCtor r)\<rparr>)"
    (is "registry_inv ?r \<and> registry_extends r ?r")
proof -
  have old: "c < length (re_classes r) \<Longrightarrow> class_of ?r c = class_of r c" for c by (simp add: class_of_def nth_append)
  have new: "class_of ?r (length (re_classes r)) = new_class (Some k)" by (simp add: class_of_def)
  have "classes_inv ?r"
    using inv fresh unfolding registry_inv_def classes_inv_def by (auto simp: old new less_Suc_eq update_conv')
  moreover have "methods_inv ?r"
    using inv by (auto simp: registry_inv_def intro!: grow_methods_inv[of r])
  moreover have "registry_extends r ?r"
    using fresh by (auto simp: update_conv' map_le_def intro!: grow_extends)
  ultimately show ?thesis by (simp add: registry_inv_def)
qed

lemma add_named_class:
  assumes inv: "registry_inv r" and fresh: "map_of (re_classesByName r) n = None"
  shows "registry_inv (r\<lparr>re_classes := re_classes r @ [initialize_class n (new_class None)], re_classesByName := AList.update n (length (re_classes r), None) (re_classesByName r)\<rparr>) \<and>
    registry_extends r (r\<lparr>re_classes := re_classes r @ [initialize_class n (new_class None)], re_classesByName := AList.update n (length (re_classes r), None) (re_classesByName r)\<rparr>)"
    (is "registry_inv ?r \<and> registry_extends r ?r")
proof -
  have old: "c < length (re_classes r) \<Longrightarrow> class_of ?r c = class_of r c" for c by (simp add: class_of_def nth_append)
  have new: "class_of ?r (length (re_classes r)) = initialize_class n (new_class None)" by (simp add: class_of_def)
  from inv have I: "classes_inv r" by (simp add: registry_inv_def)
  note D = classes_invD[OF I]
  have "classes_inv ?r"
  proof (rule classes_invI)
    show "c < length (re_classes ?r) \<and> cr_ctor (class_of ?r c) = Some k" if "map_of (re_classesByCtor ?r) k = Some (n', c)" for k n' c
      using D(1)[of k n' c] that by (simp add: old)
    show "c < length (re_classes ?r) \<and> \<not> cr_needsInitialized (class_of ?r c) \<and> cr_ctor (class_of ?r c) = ko \<and> (ko = None \<longrightarrow> cr_name (class_of ?r c) = n')"
      if "map_of (re_classesByName ?r) n' = Some (c, ko)" for n' c ko
      using D(2)[of n' c ko] that by (auto simp: old new update_conv' split: if_splits)
    show "map_of (re_classesByName ?r) (cr_name (class_of ?r c)) = Some (c, None)" if "c < length (re_classes ?r)" "cr_ctor (class_of ?r c) = None" for c
      using D(3)[of c] that fresh by (auto simp: old new update_conv' less_Suc_eq)
    show "\<exists>n'. map_of (re_classesByCtor ?r) k = Some (n', c)" if "c < length (re_classes ?r)" "cr_ctor (class_of ?r c) = Some k" for c k
      using D(4)[of c k] that by (auto simp: old new less_Suc_eq)
  qed
  moreover have "methods_inv ?r"
    using inv by (auto simp: registry_inv_def intro!: grow_methods_inv[of r])
  moreover have "registry_extends r ?r" by (auto intro!: grow_extends)
  ultimately show ?thesis by (simp add: registry_inv_def)
qed

lemma map_of_set_ctor_name:
  "map_of (re_classesByCtor (set_ctor_name k name r)) k' = map_option (\<lambda>(n, c). (if k' = k then name else n, c)) (map_of (re_classesByCtor r) k')"
proof -
  have "map_of (map (\<lambda>(k', n, c). (k', if k' = k then name else n, c)) xs) k' = map_option (\<lambda>(n, c). (if k' = k then name else n, c)) (map_of xs k')"
    for xs :: "(ctor \<times> string \<times> nat) list"
    by (induction xs) auto
  then show ?thesis by (simp add: set_ctor_name_def)
qed

lemma set_ctor_name_fields [simp]:
  "re_classes (set_ctor_name k name r) = re_classes r" "re_methods (set_ctor_name k name r) = re_methods r"
  "re_classesByName (set_ctor_name k name r) = re_classesByName r" "re_functionToRegistration (set_ctor_name k name r) = re_functionToRegistration r"
  "re_made (set_ctor_name k name r) = re_made r" "class_of (set_ctor_name k name r) c = class_of r c" "method_of (set_ctor_name k name r) m = method_of r m"
  by (simp_all add: set_ctor_name_def class_of_def method_of_def)

lemma set_ctor_name_inv:
  assumes "registry_inv r"
  shows "registry_inv (set_ctor_name k name r) \<and> registry_extends r (set_ctor_name k name r)" (is "registry_inv ?r \<and> registry_extends r ?r")
proof -
  have "classes_inv ?r"
    using assms by (auto simp: registry_inv_def map_of_set_ctor_name intro!: classes_invI dest: classes_invD)
  moreover have S: "sole ?r m = sole r m" for m by (simp add: sole_def)
  have "methods_inv ?r"
    using assms by (simp add: registry_inv_def methods_inv_def linked_def operations_inv_def functions_inv_def names_inv_def S)
  moreover have "registry_extends r ?r" by (auto simp: registry_extends_def map_of_set_ctor_name)
  ultimately show ?thesis by (simp add: registry_inv_def)
qed

lemma update_class_fields [simp]:
  "re_methods (update_class c f r) = re_methods r" "re_classesByName (update_class c f r) = re_classesByName r"
  "re_classesByCtor (update_class c f r) = re_classesByCtor r" "re_functionToRegistration (update_class c f r) = re_functionToRegistration r"
  "re_made (update_class c f r) = re_made r" "length (re_classes (update_class c f r)) = length (re_classes r)" "method_of (update_class c f r) m = method_of r m"
  by (simp_all add: update_class_def method_of_def)

lemma class_of_update [simp]:
  "c' < length (re_classes r) \<Longrightarrow> class_of (update_class c f r) c' = (if c' = c then f (class_of r c) else class_of r c')"
  by (simp add: update_class_def class_of_def)

text \<open>A registration gets a name in a class.\<close>

lemma register_name_inv:
  assumes inv: "registry_inv r" and c: "c < length (re_classes r)" and m: "m < length (re_methods r)"
    and free: "map_of (cr_registeredOperationsByName (class_of r c)) name \<in> {None, Some m}"
  shows "registry_inv (update_class c (\<lambda>x. x\<lparr>cr_registeredOperationsByName := AList.update name m (cr_registeredOperationsByName x)\<rparr>) r) \<and>
    registry_extends r (update_class c (\<lambda>x. x\<lparr>cr_registeredOperationsByName := AList.update name m (cr_registeredOperationsByName x)\<rparr>) r)"
    (is "registry_inv ?r \<and> registry_extends r ?r")
proof -
  have sub: "c' < length (re_classes r) \<Longrightarrow> map_of (cr_registeredOperationsByName (class_of r c')) \<subseteq>\<^sub>m map_of (cr_registeredOperationsByName (class_of ?r c'))" for c'
    using free by (auto simp: update_conv' map_le_def dom_def)
  have less: "sole ?r m' \<Longrightarrow> sole r m'" for m'
    unfolding sole_def using sub by (fastforce simp: ran_def map_le_def dom_def simp del: class_of_update)
  from inv have I: "classes_inv r" "linked r" "operations_inv r" "functions_inv r" "names_inv r" by (simp_all add: registry_inv_def methods_inv_def)
  have "classes_inv ?r" using I(1) by (rule classes_inv_cong) simp_all
  moreover have "linked ?r" using I(2) by (auto simp: linked_def)
  moreover have "operations_inv ?r"
    unfolding operations_inv_def using I(3)[unfolded operations_inv_def] m by (auto simp: update_conv' distinct_update simp del: map_of_eq_Some_iff)
  moreover have "functions_inv ?r" using I(4) by (simp add: functions_inv_def)
  moreover have "names_inv ?r" using I(2,5) less by (simp add: names_inv_def linked_def)
  moreover have "registry_extends r ?r" using sub by (simp add: registry_extends_def)
  ultimately show ?thesis by (simp add: registry_inv_def methods_inv_def)
qed

text \<open>A registration is made.\<close>

lemma create_method_fields:
  fixes r design tgt key c isInstance name func
  defines "r' \<equiv> create_method design tgt key c isInstance name func r"
  assumes "c < length (re_classes r)"
  shows "re_methods r' = re_methods r @ [new_method (length (re_methods r)) c name (cr_name (class_of r c)) isInstance func]"
    and "map_of (re_functionToRegistration r') = (map_of (re_functionToRegistration r))(RegisteredFn (length (re_methods r)) \<mapsto> length (re_methods r), func \<mapsto> length (re_methods r))"
    and "re_classesByName r' = re_classesByName r" and "re_classesByCtor r' = re_classesByCtor r" and "re_made r' = re_made r"
    and "length (re_classes r') = length (re_classes r)"
    and "c' < length (re_classes r) \<Longrightarrow> class_of r' c' = (if c' = c
      then (class_of r c)\<lparr>cr_allRegisteredOperations := AList.update func (length (re_methods r)) (cr_allRegisteredOperations (class_of r c))\<rparr> else class_of r c')"
  using assms(2)
  by (simp_all add: r'_def create_method_def Let_def update_args_def getOrCreateMethodArgsRegistration_def update_conv' class_of_def update_class_def split: option.splits)

lemma create_method_inv:
  assumes inv: "registry_inv r" and c: "c < length (re_classes r)" and func: "map_of (re_functionToRegistration r) (OrigFn i n txt) = None"
  shows "registry_inv (create_method design tgt key c isInstance name (OrigFn i n txt) r) \<and> registry_extends r (create_method design tgt key c isInstance name (OrigFn i n txt) r)"
    (is "registry_inv ?r \<and> registry_extends r ?r")
proof -
  let ?f = "OrigFn i n txt" and ?m = "length (re_methods r)"
  note F = create_method_fields[OF c, where design = design and tgt = tgt and key = key and isInstance = isInstance and name = name and func = ?f]
  have M: "m < ?m \<Longrightarrow> method_of ?r m = method_of r m" for m by (simp add: F(1) method_of_def nth_append)
  have N: "method_of ?r ?m = new_method ?m c name (cr_name (class_of r c)) isInstance ?f" by (simp add: F(1) method_of_def)
  from inv have I: "classes_inv r" "linked r" "operations_inv r" "functions_inv r" "names_inv r" by (simp_all add: registry_inv_def methods_inv_def)
  have fresh: "map_of (re_functionToRegistration r) (RegisteredFn ?m) = None"
    using I(4) by (metis functions_inv_def made_for.simps(2) nat_neq_iff not_Some_eq)
  have other: "m < ?m \<Longrightarrow> mt_origFunction (method_of r m) \<noteq> ?f" for m using I(2) func by (force simp: linked_def)
  have "classes_inv ?r" using I(1) by (rule classes_inv_cong) (simp_all add: F)
  moreover have "linked ?r"
    unfolding linked_def
  proof (intro allI impI)
    fix m assume "m < length (re_methods ?r)"
    then consider "m < ?m" | "m = ?m" by (auto simp: F(1) less_Suc_eq)
    then show "mt_classReg (method_of ?r m) < length (re_classes ?r) \<and>
     map_of (cr_allRegisteredOperations (class_of ?r (mt_classReg (method_of ?r m)))) (mt_origFunction (method_of ?r m)) = Some m \<and>
     map_of (re_functionToRegistration ?r) (mt_origFunction (method_of ?r m)) = Some m \<and> map_of (re_functionToRegistration ?r) (RegisteredFn m) = Some m \<and>
     mt_registeredFunction (method_of ?r m) = Some (RegisteredFn m)"
    proof cases
      case 1
      with I(2) other[OF 1] fresh show ?thesis by (auto simp: linked_def M F(2,6,7) update_conv')
    next
      case 2
      then show ?thesis using c by (simp add: N F(2,6,7) new_method_def update_conv')
    qed
  qed
  moreover have "operations_inv ?r"
    using I(3) unfolding operations_inv_def
    by (auto simp: F(1,6,7) M N update_conv' new_method_def less_Suc_eq simp del: map_of_eq_Some_iff split: if_splits)
  moreover have "functions_inv ?r" using I(4) by (auto simp: functions_inv_def F(1,2,5) less_Suc_eq split: if_splits)
  moreover have "names_inv ?r"
    unfolding names_inv_def
  proof (intro allI impI)
    fix m assume m: "m < length (re_methods ?r)" and pre: "cr_ctor (class_of ?r (mt_classReg (method_of ?r m))) = None \<and> sole ?r m"
    from m consider "m < ?m" | "m = ?m" by (auto simp: F(1) less_Suc_eq)
    then show "mt_className (method_of ?r m) = cr_name (class_of ?r (mt_classReg (method_of ?r m)))"
    proof cases
      case 1
      have "sole r m" using pre 1 by (auto simp: sole_def F(6,7) M split: if_splits)
      with pre 1 I(2,5) show ?thesis by (auto simp: names_inv_def linked_def M F(7) split: if_splits)
    next
      case 2
      then show ?thesis using c by (simp add: N F(7) new_method_def)
    qed
  qed
  moreover have "registry_extends r ?r"
    using func fresh by (auto simp: registry_extends_def F(1,2,4,6,7) M map_le_def)
  ultimately show ?thesis by (simp add: registry_inv_def methods_inv_def)
qed

lemma update_method_fields [simp]:
  "re_classes (update_method m f r) = re_classes r" "re_classesByName (update_method m f r) = re_classesByName r"
  "re_classesByCtor (update_method m f r) = re_classesByCtor r" "re_functionToRegistration (update_method m f r) = re_functionToRegistration r"
  "re_made (update_method m f r) = re_made r" "length (re_methods (update_method m f r)) = length (re_methods r)" "class_of (update_method m f r) c = class_of r c"
  by (simp_all add: update_method_def class_of_def)

lemma method_of_update [simp]:
  "m' < length (re_methods r) \<Longrightarrow> method_of (update_method m f r) m' = (if m' = m then f (method_of r m) else method_of r m')"
  by (simp add: update_method_def method_of_def)

text \<open>The name of a class is passed on to its functions.\<close>

lemma fold_class_name:
  fixes cname r and xs :: "(string \<times> nat) list"
  defines "r' \<equiv> fold (\<lambda>(_, m). update_method m (\<lambda>x. x\<lparr>mt_className := cname\<rparr>)) xs r"
  shows "re_classes r' = re_classes r" "re_classesByName r' = re_classesByName r" "re_classesByCtor r' = re_classesByCtor r"
    "re_functionToRegistration r' = re_functionToRegistration r" "re_made r' = re_made r" "length (re_methods r') = length (re_methods r)"
  unfolding r'_def by (induction xs arbitrary: r) auto

lemma fold_class_name_method:
  "m < length (re_methods r) \<Longrightarrow> method_of (fold (\<lambda>(_, m). update_method m (\<lambda>x. x\<lparr>mt_className := cname\<rparr>)) xs r) m =
     (if m \<in> snd ` set xs then (method_of r m)\<lparr>mt_className := cname\<rparr> else method_of r m)"
proof (induction xs arbitrary: r)
  case (Cons x xs)
  show ?case
    using Cons.IH[of "update_method (snd x) (\<lambda>y. y\<lparr>mt_className := cname\<rparr>) r"] Cons.prems by (simp add: case_prod_beta)
qed simp

lemma name_class_fields:
  fixes k c cname r
  defines "r' \<equiv> name_class k c cname r"
  assumes c: "c < length (re_classes r)" and dist: "distinct (map fst (cr_registeredOperationsByName (class_of r c)))"
  shows "length (re_classes r') = length (re_classes r)" and "length (re_methods r') = length (re_methods r)" and "re_made r' = re_made r"
    and "re_functionToRegistration r' = re_functionToRegistration r"
    and "map_of (re_classesByName r') = (map_of (re_classesByName r))(cname \<mapsto> (c, Some k))"
    and "map_of (re_classesByCtor r') k' = map_option (\<lambda>(n, c). (if k' = k then cname else n, c)) (map_of (re_classesByCtor r) k')"
    and "c' < length (re_classes r) \<Longrightarrow> class_of r' c' = (if c' = c then (class_of r c)\<lparr>cr_name := cname, cr_needsInitialized := False\<rparr> else class_of r c')"
    and "m < length (re_methods r) \<Longrightarrow> method_of r' m = (if m \<in> ran (map_of (cr_registeredOperationsByName (class_of r c)))
      then (method_of r m)\<lparr>mt_className := cname\<rparr> else method_of r m)"
proof -
  have ran: "ran (map_of (cr_registeredOperationsByName (class_of r c))) = snd ` set (cr_registeredOperationsByName (class_of r c))"
    by (rule ran_distinct[OF dist])
  have co: "class_of (r\<lparr>re_classesByName := x\<rparr>) c' = class_of r c'" "method_of (r\<lparr>re_classesByName := x\<rparr>) m = method_of r m" for x c' m
    by (simp_all add: class_of_def method_of_def)
  note defs = r'_def name_class_def setName_def
  show "length (re_classes r') = length (re_classes r)" "length (re_methods r') = length (re_methods r)" "re_made r' = re_made r"
    "re_functionToRegistration r' = re_functionToRegistration r" "map_of (re_classesByName r') = (map_of (re_classesByName r))(cname \<mapsto> (c, Some k))"
    by (simp_all add: defs fold_class_name update_conv')
  show "map_of (re_classesByCtor r') k' = map_option (\<lambda>(n, c). (if k' = k then cname else n, c)) (map_of (re_classesByCtor r) k')"
    by (simp add: defs fold_class_name map_of_set_ctor_name)
  show "class_of r' c' = (if c' = c then (class_of r c)\<lparr>cr_name := cname, cr_needsInitialized := False\<rparr> else class_of r c')" if "c' < length (re_classes r)"
  proof -
    have "class_of r' c' = class_of (update_class c (\<lambda>x. x\<lparr>cr_name := cname, cr_needsInitialized := False\<rparr>)
        (set_ctor_name k cname (r\<lparr>re_classesByName := AList.update cname (c, Some k) (re_classesByName r)\<rparr>))) c'"
      by (simp add: defs class_of_def fold_class_name)
    with that show ?thesis by (simp add: co)
  qed
  show "method_of r' m = (if m \<in> ran (map_of (cr_registeredOperationsByName (class_of r c)))
      then (method_of r m)\<lparr>mt_className := cname\<rparr> else method_of r m)" if "m < length (re_methods r)"
    using that by (simp add: defs fold_class_name_method co ran)
qed

lemma name_class_inv:
  assumes inv: "registry_inv r" and k: "map_of (re_classesByCtor r) k = Some (n, c)" and free: "map_of (re_classesByName r) cname \<in> {None, Some (c, Some k)}"
  shows "registry_inv (name_class k c cname r) \<and> registry_extends r (name_class k c cname r)" (is "registry_inv ?r \<and> registry_extends r ?r")
proof -
  from inv have I: "classes_inv r" "linked r" "operations_inv r" "functions_inv r" "names_inv r" by (simp_all add: registry_inv_def methods_inv_def)
  from byCtor_class[OF I(1) k] have c: "c < length (re_classes r)" "cr_ctor (class_of r c) = Some k" by simp_all
  from I(3) c(1) have dist: "distinct (map fst (cr_registeredOperationsByName (class_of r c)))" by (simp add: operations_inv_def)
  note F = name_class_fields[OF c(1) dist, where k = k and cname = cname]
  note D = classes_invD[OF I(1)]
  have ops: "c' < length (re_classes r) \<Longrightarrow> cr_registeredOperationsByName (class_of ?r c') = cr_registeredOperationsByName (class_of r c') \<and>
      cr_allRegisteredOperations (class_of ?r c') = cr_allRegisteredOperations (class_of r c') \<and> cr_ctor (class_of ?r c') = cr_ctor (class_of r c')" for c'
    by (simp add: F(7))
  have M: "m < length (re_methods r) \<Longrightarrow> mt_classReg (method_of ?r m) = mt_classReg (method_of r m) \<and> mt_origFunction (method_of ?r m) = mt_origFunction (method_of r m) \<and>
      mt_registeredFunction (method_of ?r m) = mt_registeredFunction (method_of r m) \<and> mt_name (method_of ?r m) = mt_name (method_of r m)" for m
    by (simp add: F(8))
  have "classes_inv ?r"
  proof (rule classes_invI)
    show "c' < length (re_classes ?r) \<and> cr_ctor (class_of ?r c') = Some k'" if "map_of (re_classesByCtor ?r) k' = Some (n', c')" for k' n' c'
      using that D(1) by (auto simp: F(1,6) ops)
    show "c' < length (re_classes ?r) \<and> \<not> cr_needsInitialized (class_of ?r c') \<and> cr_ctor (class_of ?r c') = ko \<and> (ko = None \<longrightarrow> cr_name (class_of ?r c') = n')"
      if "map_of (re_classesByName ?r) n' = Some (c', ko)" for n' c' ko
    proof (cases "n' = cname")
      case True
      with that have "c' = c" "ko = Some k" by (simp_all add: F(5))
      with c show ?thesis by (simp add: F(1,7))
    next
      case False
      with that have "map_of (re_classesByName r) n' = Some (c', ko)" by (simp add: F(5))
      from D(2)[OF this] c show ?thesis by (auto simp: F(1,7))
    qed
    show "map_of (re_classesByName ?r) (cr_name (class_of ?r c')) = Some (c', None)" if "c' < length (re_classes ?r)" "cr_ctor (class_of ?r c') = None" for c'
      using that D(3)[of c'] c free by (auto simp: F(1,5,7) split: if_splits)
    show "\<exists>n'. map_of (re_classesByCtor ?r) k' = Some (n', c')" if "c' < length (re_classes ?r)" "cr_ctor (class_of ?r c') = Some k'" for c' k'
      using that D(4)[of c' k'] by (auto simp: F(1,6) ops)
  qed
  moreover have "linked ?r" using I(2) by (simp add: linked_def F(1,2,4) ops M)
  moreover have "operations_inv ?r" using I(3) by (auto simp: operations_inv_def F(1,2) ops M simp del: map_of_eq_Some_iff)
  moreover have "functions_inv ?r" using I(4) by (simp add: functions_inv_def F(2-4))
  moreover have "names_inv ?r"
    unfolding names_inv_def
  proof (intro allI impI)
    fix m assume "m < length (re_methods ?r)" and pre: "cr_ctor (class_of ?r (mt_classReg (method_of ?r m))) = None \<and> sole ?r m"
    then have m: "m < length (re_methods r)" "mt_classReg (method_of r m) < length (re_classes r)" using I(2) by (auto simp: F(2) linked_def)
    from pre m have plain: "cr_ctor (class_of r (mt_classReg (method_of r m))) = None" "sole r m" by (auto simp: M ops sole_def F(1))
    with c have "m \<notin> ran (map_of (cr_registeredOperationsByName (class_of r c)))" by (auto simp: sole_def)
    moreover have "mt_classReg (method_of r m) \<noteq> c" using plain(1) c(2) by auto
    ultimately show "mt_className (method_of ?r m) = cr_name (class_of ?r (mt_classReg (method_of ?r m)))"
      using I(5) m plain by (simp add: F(7,8) names_inv_def)
  qed
  moreover have "registry_extends r ?r" by (auto simp: registry_extends_def F(1,2,4,6) M ops)
  ultimately show ?thesis by (simp add: registry_inv_def methods_inv_def)
qed

subsection \<open>Operations on classes\<close>

text \<open>Where a class is found, and that nothing happens to functions on the way to it; \<open>fs\<close> and \<open>ms\<close> are the functions and registrations before.\<close>

definition locates :: "target option \<Rightarrow> string option \<Rightarrow> nat \<Rightarrow> registry \<Rightarrow> bool" where
  "locates tgt className c r \<longleftrightarrow> (case tgt of
       None \<Rightarrow> \<exists>ko. map_of (re_classesByName r) (coalesce className []) = Some (c, ko)
     | Some t \<Rightarrow> \<exists>n. map_of (re_classesByCtor r) (regTarget t) = Some (n, c))"

definition at_functions :: "(js_fun \<times> nat) list \<Rightarrow> MethodRegistration list \<Rightarrow> registry \<Rightarrow> bool" where
  "at_functions fs ms r \<longleftrightarrow> re_functionToRegistration r = fs \<and> re_methods r = ms"

lemma getClassRegistration_triple:
  "triple (\<lambda>r. at_functions fs ms r \<and> (\<forall>e. before = Some e \<longrightarrow> map_of (re_classesByCtor r) k = Some e)) (getClassRegistration k True)
     (\<lambda>found r. at_functions fs ms r \<and> is_class (snd (created found)) r \<and> map_of (re_classesByCtor r) k = Some (created found) \<and> (\<forall>e. before = Some e \<longrightarrow> created found = e))"
  unfolding triple_def
proof (intro allI impI)
  fix r assume inv: "registry_inv r" and pre: "at_functions fs ms r \<and> (\<forall>e. before = Some e \<longrightarrow> map_of (re_classesByCtor r) k = Some e)"
  show "registry_inv (snd (getClassRegistration k True r)) \<and> registry_extends r (snd (getClassRegistration k True r)) \<and>
    (\<forall>x. fst (getClassRegistration k True r) = Inr x \<longrightarrow> at_functions fs ms (snd (getClassRegistration k True r)) \<and> is_class (snd (created x)) (snd (getClassRegistration k True r)) \<and>
      map_of (re_classesByCtor (snd (getClassRegistration k True r))) k = Some (created x) \<and> (\<forall>e. before = Some e \<longrightarrow> created x = e))"
  proof (cases "map_of (re_classesByCtor r) k")
    case None
    with add_ctor_class[OF inv None] pre show ?thesis
      by (auto simp: getClassRegistration_def created_def at_functions_def is_class_def update_conv')
  next
    case (Some e)
    then show ?thesis
      using inv pre byCtor_class[of r k "fst e" "snd e"]
      by (auto simp: getClassRegistration_def created_def is_class_def registry_inv_def)
  qed
qed

lemma initialized_class: "\<not> cr_needsInitialized (class_of r c) \<Longrightarrow> update_class c (initialize_class n) r = r"
  by (simp add: update_class_def initialize_class_def class_of_def)

lemma found_by_name:
  assumes "registry_inv r" and "map_of (re_classesByName r) n = Some (c, ko)"
  shows "getClassRegistrationByName n create r = (Inr c, r)"
  using assms byName_class[of r n c ko] by (simp add: getClassRegistrationByName_def registry_inv_def initialized_class)

lemma getClassRegistrationByName_triple:
  "triple (\<lambda>r. at_functions fs ms r \<and> (\<forall>c. before = Some c \<longrightarrow> (\<exists>ko. map_of (re_classesByName r) n = Some (c, ko)))) (getClassRegistrationByName n create)
     (\<lambda>c r. at_functions fs ms r \<and> is_class c r \<and> (\<exists>ko. map_of (re_classesByName r) n = Some (c, ko)) \<and> (\<forall>c'. before = Some c' \<longrightarrow> c = c'))"
  unfolding triple_def
proof (intro allI impI)
  fix r assume inv: "registry_inv r" and pre: "at_functions fs ms r \<and> (\<forall>c. before = Some c \<longrightarrow> (\<exists>ko. map_of (re_classesByName r) n = Some (c, ko)))"
  show "registry_inv (snd (getClassRegistrationByName n create r)) \<and> registry_extends r (snd (getClassRegistrationByName n create r)) \<and>
    (\<forall>x. fst (getClassRegistrationByName n create r) = Inr x \<longrightarrow> at_functions fs ms (snd (getClassRegistrationByName n create r)) \<and>
      is_class x (snd (getClassRegistrationByName n create r)) \<and> (\<exists>ko. map_of (re_classesByName (snd (getClassRegistrationByName n create r))) n = Some (x, ko)) \<and>
      (\<forall>c'. before = Some c' \<longrightarrow> x = c'))"
  proof (cases "map_of (re_classesByName r) n")
    case None
    with add_named_class[OF inv None] pre inv show ?thesis
      by (auto simp: getClassRegistrationByName_def at_functions_def is_class_def update_conv')
  next
    case (Some e)
    then obtain c ko where e: "map_of (re_classesByName r) n = Some (c, ko)" by (cases e) auto
    from byName_class[OF _ e] inv pre e show ?thesis by (auto simp: found_by_name[OF inv e] is_class_def registry_inv_def)
  qed
qed

lemma getOrCreateClassRegistration_triple:
  "triple (\<lambda>r. at_functions fs ms r \<and> (\<forall>c. before = Some c \<longrightarrow> locates tgt className c r)) (getOrCreateClassRegistration tgt className)
     (\<lambda>x r. at_functions fs ms r \<and> is_class (fst x) r \<and> locates tgt className (fst x) r \<and> (\<forall>c. before = Some c \<longrightarrow> fst x = c))"
proof (cases tgt)
  case None
  have "triple (\<lambda>r. at_functions fs ms r \<and> (\<forall>c. before = Some c \<longrightarrow> (\<exists>ko. map_of (re_classesByName r) (coalesce className []) = Some (c, ko))))
      (and_then (getClassRegistrationByName (coalesce className []) True) (\<lambda>c. ret (c, False)))
      (\<lambda>x r. at_functions fs ms r \<and> is_class (fst x) r \<and> (\<exists>ko. map_of (re_classesByName r) (coalesce className []) = Some (fst x, ko)) \<and> (\<forall>c. before = Some c \<longrightarrow> fst x = c))"
    by (rule triple_and_then[OF getClassRegistrationByName_triple]) (rule triple_ret, simp)
  moreover have "getOrCreateClassRegistration None className = and_then (getClassRegistrationByName (coalesce className []) True) (\<lambda>c. ret (c, False))"
    by (cases className) (simp_all add: getOrCreateClassRegistration_def)
  ultimately show ?thesis by (simp add: None locates_def)
next
  case (Some t)
  let ?P = "\<lambda>x r. at_functions fs ms r \<and> is_class x r \<and> (\<exists>n. map_of (re_classesByCtor r) (regTarget t) = Some (n, x)) \<and> (\<forall>c. before = Some c \<longrightarrow> x = c)"
  have get: "triple (\<lambda>r. at_functions fs ms r \<and> (\<forall>c. before = Some c \<longrightarrow> (\<exists>n. map_of (re_classesByCtor r) (regTarget t) = Some (n, c)))) (getClassRegistration (regTarget t) True)
      (\<lambda>found. ?P (snd (created found)))"
    unfolding triple_def
  proof (intro allI impI)
    fix r assume inv: "registry_inv r" and pre: "at_functions fs ms r \<and> (\<forall>c. before = Some c \<longrightarrow> (\<exists>n. map_of (re_classesByCtor r) (regTarget t) = Some (n, c)))"
    from getClassRegistration_triple[of fs ms "map_of (re_classesByCtor r) (regTarget t)" "regTarget t", unfolded triple_def, rule_format, OF inv] pre
    show "registry_inv (snd (getClassRegistration (regTarget t) True r)) \<and> registry_extends r (snd (getClassRegistration (regTarget t) True r)) \<and>
        (\<forall>x. fst (getClassRegistration (regTarget t) True r) = Inr x \<longrightarrow> ?P (snd (created x)) (snd (getClassRegistration (regTarget t) True r)))"
      by (metis prod.collapse snd_conv)
  qed
  show ?thesis
  proof (cases className)
    case None
    have "triple (\<lambda>r. at_functions fs ms r \<and> (\<forall>c. before = Some c \<longrightarrow> (\<exists>n. map_of (re_classesByCtor r) (regTarget t) = Some (n, c))))
        (and_then (getClassRegistration (regTarget t) True) (\<lambda>found. ret (snd (created found), i))) (\<lambda>x. ?P (fst x))" for i
      by (rule triple_and_then[OF get]) (rule triple_ret, simp)
    then show ?thesis by (simp add: Some None locates_def getOrCreateClassRegistration_def)
  next
    case (Some cn)
    have "triple (\<lambda>r. at_functions fs ms r \<and> (\<forall>c. before = Some c \<longrightarrow> (\<exists>n. map_of (re_classesByCtor r) (regTarget t) = Some (n, c))))
        (and_then (getClassRegistration (regTarget t) True) (\<lambda>found. let (name, c) = created found in
          if name \<noteq> [] \<and> name \<noteq> cn then throw (PlainError (''Attempt to register class under two names: '' @ name @ '' vs. '' @ cn))
          else and_then (modify (set_ctor_name (regTarget t) cn)) (\<lambda>_. ret (c, i)))) (\<lambda>x. ?P (fst x))" for i
    proof (rule triple_and_then[OF get])
      fix found
      obtain name c where found: "created found = (name, c)" by fastforce
      have "triple (?P c) (and_then (modify (set_ctor_name (regTarget t) cn)) (\<lambda>_. ret (c, i))) (\<lambda>x. ?P (fst x))"
        by (rule triple_and_then[where Q = "\<lambda>_. ?P c"])
          (auto intro!: triple_modify triple_ret simp: set_ctor_name_inv at_functions_def map_of_set_ctor_name is_class_def)
      then show "triple (?P (snd (created found))) (let (name, c) = created found in
          if name \<noteq> [] \<and> name \<noteq> cn then throw (PlainError (''Attempt to register class under two names: '' @ name @ '' vs. '' @ cn))
          else and_then (modify (set_ctor_name (regTarget t) cn)) (\<lambda>_. ret (c, i))) (\<lambda>x. ?P (fst x))"
        by (simp add: found triple_throw)
    qed
    then show ?thesis by (simp add: \<open>tgt = Some t\<close> Some locates_def getOrCreateClassRegistration_def)
  qed
qed

subsection \<open>Operations on functions\<close>

text \<open>A function that exists: one of the program's, or one that the registry made.\<close>

definition known :: "js_fun \<Rightarrow> registry \<Rightarrow> bool" where
  "known f r \<longleftrightarrow> (case f of OrigFn _ _ _ \<Rightarrow> True | _ \<Rightarrow> getFunctionRegistration r f \<noteq> None)"

definition names_function :: "js_fun \<Rightarrow> string \<Rightarrow> nat \<Rightarrow> registry \<Rightarrow> bool" where
  "names_function f name m r \<longleftrightarrow> is_method m r \<and> getFunctionRegistration r f = Some m \<and> mt_name (method_of r m) = name"

lemma lasting_names_function [intro]: "lasting (names_function f name m)"
  by (auto simp: lasting_def names_function_def is_method_def getFunctionRegistration_def registry_extends_def map_le_def dom_def)

lemma triple_if: "triple (\<lambda>r. P r \<and> b) f Q \<Longrightarrow> triple (\<lambda>r. P r \<and> \<not> b) g Q \<Longrightarrow> triple P (if b then f else g) Q"
  by (cases b) (simp_all add: triple_def)

lemma no_operation_yet:
  assumes "registry_inv r" and "getFunctionRegistration r f = None" and "c < length (re_classes r)"
  shows "map_of (cr_allRegisteredOperations (class_of r c)) f = None"
proof (rule ccontr)
  assume "map_of (cr_allRegisteredOperations (class_of r c)) f \<noteq> None"
  then obtain m where m: "map_of (cr_allRegisteredOperations (class_of r c)) f = Some m" by blast
  with assms(1,3) have "m < length (re_methods r)" "mt_origFunction (method_of r m) = f"
    unfolding registry_inv_def methods_inv_def operations_inv_def by blast+
  with assms(1,2) show False by (auto simp: registry_inv_def methods_inv_def linked_def getFunctionRegistration_def)
qed

lemma create_method_triple:
  "triple (\<lambda>r. at_functions fs ms r \<and> is_class c r \<and> locates tgt className c r \<and> map_of fs (OrigFn i n txt) = None \<and> length ms = m)
     (modify (create_method design tgt key c isInstance name (OrigFn i n txt)))
     (\<lambda>_ r. names_function (OrigFn i n txt) name m r \<and> mt_classReg (method_of r m) = c \<and> locates tgt className c r)"
proof (rule triple_modify, elim conjE)
  fix r assume inv: "registry_inv r" and pre: "at_functions fs ms r" "is_class c r" "locates tgt className c r" "map_of fs (OrigFn i n txt) = None" "length ms = m"
  let ?r = "create_method design tgt key c isInstance name (OrigFn i n txt) r"
  from pre have c: "c < length (re_classes r)" and m: "m = length (re_methods r)" by (simp_all add: is_class_def at_functions_def)
  note F = create_method_fields[OF c, where design = design and tgt = tgt and key = key and isInstance = isInstance and name = name and func = "OrigFn i n txt"]
  from create_method_inv[OF inv c] pre have "registry_inv ?r \<and> registry_extends r ?r" by (simp add: at_functions_def)
  moreover have "locates tgt className c ?r" using pre(3) unfolding locates_def F(3,4) .
  moreover have "names_function (OrigFn i n txt) name m ?r" "mt_classReg (method_of ?r m) = c"
    by (simp_all add: names_function_def is_method_def getFunctionRegistration_def F(1,2) m method_of_def new_method_def)
  ultimately show "registry_inv ?r \<and> registry_extends r ?r \<and> names_function (OrigFn i n txt) name m ?r \<and> mt_classReg (method_of ?r m) = c \<and> locates tgt className c ?r"
    by simp
qed

lemma getOrCreateMethodRegistration_triple:
  "triple (\<lambda>r. known f r \<and> getFunctionRegistration r f = None) (getOrCreateMethodRegistration design tgt className key name f)
     (\<lambda>m r. names_function f (coalesce name key) m r \<and> locates tgt className (mt_classReg (method_of r m)) r)"
  (is "triple ?P _ ?Q")
  unfolding triple_def
proof (intro allI impI)
  fix r0 assume inv: "registry_inv r0" and pre: "known f r0 \<and> getFunctionRegistration r0 f = None"
  define fs where "fs = re_functionToRegistration r0"
  define ms where "ms = re_methods r0"
  from pre obtain i n src where f: "f = OrigFn i n src" by (cases f) (auto simp: known_def)
  from pre have none: "map_of fs f = None" by (simp add: getFunctionRegistration_def fs_def)
  have create: "triple (\<lambda>r. (at_functions fs ms r \<and> is_class c r \<and> locates tgt className c r) \<and> (existing, m) = (None, length ms))
      (case existing of Some m' \<Rightarrow> ret m' | None \<Rightarrow> and_then (modify (create_method design tgt key c isInstance (coalesce name key) f)) (\<lambda>_. ret m)) ?Q"
    for existing :: "nat option" and m c isInstance
  proof (cases existing)
    case None
    have "triple (\<lambda>r. (at_functions fs ms r \<and> is_class c r \<and> locates tgt className c r) \<and> (existing, m) = (None, length ms))
        (modify (create_method design tgt key c isInstance (coalesce name key) f))
        (\<lambda>_ r. names_function f (coalesce name key) m r \<and> mt_classReg (method_of r m) = c \<and> locates tgt className c r)"
      unfolding f by (rule triple_weaken[OF create_method_triple[of fs ms c tgt className i n src m]]) (use none f in auto)
    then show ?thesis unfolding None option.case by (rule triple_and_then) (auto intro: triple_ret)
  qed (simp add: triple_def)
  have body: "triple (\<lambda>r. at_functions fs ms r \<and> is_class c r \<and> locates tgt className c r)
     (and_then (gets (\<lambda>r. (map_of (cr_allRegisteredOperations (class_of r c)) f, length (re_methods r)))) (\<lambda>(existing, m). case existing of
        Some m' \<Rightarrow> ret m'
      | None \<Rightarrow> and_then (modify (create_method design tgt key c isInstance (coalesce name key) f)) (\<lambda>_. ret m))) ?Q" for c isInstance
  proof (rule triple_and_then[where Q = "\<lambda>x r. (at_functions fs ms r \<and> is_class c r \<and> locates tgt className c r) \<and> x = (None, length ms)"])
    show "triple (\<lambda>r. at_functions fs ms r \<and> is_class c r \<and> locates tgt className c r)
        (gets (\<lambda>r. (map_of (cr_allRegisteredOperations (class_of r c)) f, length (re_methods r))))
        (\<lambda>x r. (at_functions fs ms r \<and> is_class c r \<and> locates tgt className c r) \<and> x = (None, length ms))"
      using none by (auto intro!: triple_gets no_operation_yet simp: at_functions_def is_class_def getFunctionRegistration_def)
  qed (simp only: split_paired_all prod.case, rule create)
  have "triple (\<lambda>r. at_functions fs ms r) (getOrCreateMethodRegistration design tgt className key name f) ?Q"
    unfolding getOrCreateMethodRegistration_def
  proof (rule triple_and_then)
    show "triple (\<lambda>r. at_functions fs ms r) (getOrCreateClassRegistration tgt className)
        (\<lambda>x r. at_functions fs ms r \<and> is_class (fst x) r \<and> locates tgt className (fst x) r)"
      by (rule triple_weaken[OF getOrCreateClassRegistration_triple[of fs ms None]]) auto
  qed (use body in \<open>simp add: case_prod_beta\<close>)
  with inv show "registry_inv (snd (getOrCreateMethodRegistration design tgt className key name f r0)) \<and>
      registry_extends r0 (snd (getOrCreateMethodRegistration design tgt className key name f r0)) \<and>
      (\<forall>x. fst (getOrCreateMethodRegistration design tgt className key name f r0) = Inr x \<longrightarrow> ?Q x (snd (getOrCreateMethodRegistration design tgt className key name f r0)))"
    by (simp add: triple_def at_functions_def fs_def ms_def)
qed

lemma ensureDBOSIsNotLaunched_triple: "triple P ensureDBOSIsNotLaunched (\<lambda>_. P)"
  by (auto simp: triple_def ensureDBOSIsNotLaunched_def throw_def)

lemma registerOperationByName_triple:
  "triple (\<lambda>r. is_class c r \<and> is_method m r) (registerOperationByName c name m)
     (\<lambda>_ r. is_class c r \<and> map_of (cr_registeredOperationsByName (class_of r c)) name = Some m)"
  unfolding triple_def registerOperationByName_def
  using register_name_inv by (auto simp: is_class_def is_method_def throw_def modify_def update_conv')

lemma getFunctionRegistration_valid:
  assumes "registry_inv r" and "getFunctionRegistration r f = Some m" shows "is_method m r"
  using assms by (auto simp: registry_inv_def methods_inv_def functions_inv_def getFunctionRegistration_def is_method_def)

lemma names_function_method: "names_function f n m r \<Longrightarrow> is_method m r"
  by (simp add: names_function_def)

definition named_in_class :: "nat \<Rightarrow> registry \<Rightarrow> bool" where
  "named_in_class m r \<longleftrightarrow> mt_classReg (method_of r m) < length (re_classes r) \<and>
     map_of (cr_registeredOperationsByName (class_of r (mt_classReg (method_of r m)))) (mt_name (method_of r m)) = Some m"

lemma named_in_class_extends: "named_in_class m r \<Longrightarrow> is_method m r \<Longrightarrow> registry_extends r r' \<Longrightarrow> named_in_class m r'"
  by (auto simp: named_in_class_def is_method_def registry_extends_def map_le_def dom_def)

lemma wrap_unique_new_triple:
  "triple (\<lambda>r. known f r \<and> getFunctionRegistration r f = None) (wrapDBOSFunctionAndRegisterByUniqueName design tgt className key name0 f)
     (\<lambda>m r. is_method m r \<and> getFunctionRegistration r f = Some m \<and> named_in_class m r)"
proof -
  define name where "name = (if truthy name0 then coalesce name0 [] else key)"
  let ?Q = "\<lambda>m r. names_function f name m r \<and> locates tgt className (mt_classReg (method_of r m)) r"
  have reg: "triple (\<lambda>r. names_function f name m r \<and> mt_classReg (method_of r m) = fst x \<and> is_class (fst x) r) (and_then (registerOperationByName (fst x) name m) (\<lambda>_. ret m))
      (\<lambda>m r. is_method m r \<and> getFunctionRegistration r f = Some m \<and> named_in_class m r)" for m and x :: "nat \<times> bool"
  proof (rule triple_and_then)
    let ?S = "\<lambda>r. names_function f name m r \<and> mt_classReg (method_of r m) = fst x"
    have "lasting ?S" by (auto simp: lasting_def names_function_def is_method_def getFunctionRegistration_def registry_extends_def map_le_def dom_def)
    then have st: "lasting (\<lambda>r. ?S r \<and> is_class (fst x) r)" by (rule lasting_conj[OF _ lasting_is(1)])
    have "triple (\<lambda>r. ?S r \<and> is_class (fst x) r) (registerOperationByName (fst x) name m)
        (\<lambda>_ r. is_class (fst x) r \<and> map_of (cr_registeredOperationsByName (class_of r (fst x))) name = Some m)"
      by (rule triple_weaken[OF registerOperationByName_triple]) (auto dest: names_function_method)
    from triple_lasting[OF st this] show "triple (\<lambda>r. names_function f name m r \<and> mt_classReg (method_of r m) = fst x \<and> is_class (fst x) r) (registerOperationByName (fst x) name m)
        (\<lambda>_ r. is_method m r \<and> getFunctionRegistration r f = Some m \<and> named_in_class m r)"
      by (rule triple_weaken) (auto simp: names_function_def named_in_class_def is_class_def)
  qed (rule triple_ret, simp)
  have cls: "triple (?Q m) (and_then (getOrCreateClassRegistration tgt className) (\<lambda>x. and_then (registerOperationByName (fst x) name m) (\<lambda>_. ret m)))
      (\<lambda>m r. is_method m r \<and> getFunctionRegistration r f = Some m \<and> named_in_class m r)" for m
  proof (rule triple_and_then[OF _ reg])
    show "triple (?Q m) (getOrCreateClassRegistration tgt className)
        (\<lambda>x r. names_function f name m r \<and> mt_classReg (method_of r m) = fst x \<and> is_class (fst x) r)"
      unfolding triple_def
    proof (intro allI impI)
      fix r assume inv: "registry_inv r" and pre: "?Q m r"
      from getOrCreateClassRegistration_triple[of "re_functionToRegistration r" "re_methods r" "Some (mt_classReg (method_of r m))" tgt className,
          unfolded triple_def, rule_format, OF inv] pre
      show "registry_inv (snd (getOrCreateClassRegistration tgt className r)) \<and> registry_extends r (snd (getOrCreateClassRegistration tgt className r)) \<and>
          (\<forall>x. fst (getOrCreateClassRegistration tgt className r) = Inr x \<longrightarrow> names_function f name m (snd (getOrCreateClassRegistration tgt className r)) \<and>
            mt_classReg (method_of (snd (getOrCreateClassRegistration tgt className r)) m) = fst x \<and> is_class (fst x) (snd (getOrCreateClassRegistration tgt className r)))"
        by (auto simp: at_functions_def names_function_def is_method_def getFunctionRegistration_def method_of_def)
    qed
  qed
  have "triple (\<lambda>r. known f r \<and> getFunctionRegistration r f = None) (and_then (gets (\<lambda>r. getFunctionRegistration r f)) (\<lambda>freg.
       and_then (case freg of Some m \<Rightarrow> ret m | None \<Rightarrow> getOrCreateMethodRegistration design tgt className key (Some name) f) (\<lambda>m.
         and_then (getOrCreateClassRegistration tgt className) (\<lambda>x. and_then (registerOperationByName (fst x) name m) (\<lambda>_. ret m)))))
     (\<lambda>m r. is_method m r \<and> getFunctionRegistration r f = Some m \<and> named_in_class m r)"
  proof (rule triple_and_then[where Q = "\<lambda>x r. (known f r \<and> getFunctionRegistration r f = None) \<and> x = None"], rule triple_gets, simp, rule triple_and_then[OF _ cls])
    show "triple (\<lambda>r. (known f r \<and> getFunctionRegistration r f = None) \<and> freg = None)
        (case freg of Some m \<Rightarrow> ret m | None \<Rightarrow> getOrCreateMethodRegistration design tgt className key (Some name) f) ?Q" for freg
      using getOrCreateMethodRegistration_triple[of f design tgt className key "Some name"] by (cases freg) (simp_all add: triple_def)
  qed
  then show ?thesis
    unfolding wrapDBOSFunctionAndRegisterByUniqueName_def Let_def name_def[symmetric] case_prod_beta
    by (rule triple_and_then[OF ensureDBOSIsNotLaunched_triple])
qed

lemma lasting_known [intro]: "lasting (known f)"
  by (cases f) (auto simp: lasting_def known_def getFunctionRegistration_def registry_extends_def map_le_def dom_def)

lemma class_ops_lasting:
  assumes "lasting P"
  shows "triple P (getOrCreateClassRegistration tgt className) (\<lambda>x r. P r \<and> is_class (fst x) r)"
    and "triple P (getClassRegistrationByName n create) (\<lambda>c r. P r \<and> is_class c r)"
    and "triple P (getClassRegistration k True) (\<lambda>found r. P r \<and> is_class (snd (created found)) r)"
proof -
  have "triple P (getOrCreateClassRegistration tgt className) (\<lambda>x. is_class (fst x))"
    using getOrCreateClassRegistration_triple[of _ _ None tgt className] unfolding triple_def at_functions_def by blast
  moreover have "triple P (getClassRegistrationByName n create) is_class"
    using getClassRegistrationByName_triple[of _ _ None n create] unfolding triple_def at_functions_def by blast
  moreover have "triple P (getClassRegistration k True) (\<lambda>found. is_class (snd (created found)))"
    using getClassRegistration_triple[of _ _ None k] unfolding triple_def at_functions_def by blast
  ultimately show "triple P (getOrCreateClassRegistration tgt className) (\<lambda>x r. P r \<and> is_class (fst x) r)"
    "triple P (getClassRegistrationByName n create) (\<lambda>c r. P r \<and> is_class c r)"
    "triple P (getClassRegistration k True) (\<lambda>found r. P r \<and> is_class (snd (created found)) r)"
    by (simp_all add: triple_lasting[OF assms])
qed

lemma wrap_triple:
  "triple (known f) (wrapDBOSFunctionAndRegister design tgt className key name f) is_method"
  unfolding wrapDBOSFunctionAndRegister_def
proof (rule triple_and_then[OF ensureDBOSIsNotLaunched_triple], rule triple_and_then)
  show "triple (known f) (gets (\<lambda>r. getFunctionRegistration r f)) (\<lambda>x r. known f r \<and> registry_inv r \<and> getFunctionRegistration r f = x)"
    by (rule triple_gets) simp
  show "triple (\<lambda>r. known f r \<and> registry_inv r \<and> getFunctionRegistration r f = x)
      (case x of Some m \<Rightarrow> ret m | None \<Rightarrow> getOrCreateMethodRegistration design tgt className key name f) is_method" for x
  proof (cases x)
    case None
    show ?thesis
      unfolding None option.case by (rule triple_weaken[OF getOrCreateMethodRegistration_triple]) (auto dest: names_function_method)
  qed (auto intro!: triple_ret getFunctionRegistration_valid)
qed

lemma wrap_unique_triple:
  "triple (known f) (wrapDBOSFunctionAndRegisterByUniqueName design tgt className key name0 f) is_method"
proof -
  define name where "name = (if truthy name0 then coalesce name0 [] else key)"
  have reg: "triple (\<lambda>r. is_method m r \<and> is_class (fst x) r) (and_then (registerOperationByName (fst x) name m) (\<lambda>_. ret m)) is_method" for m and x :: "nat \<times> bool"
  proof (rule triple_and_then)
    show "triple (\<lambda>r. is_method m r \<and> is_class (fst x) r) (registerOperationByName (fst x) name m) (\<lambda>_. is_method m)"
      by (rule triple_weaken[OF triple_lasting[OF _ registerOperationByName_triple]]) auto
  qed (rule triple_ret)
  have cls: "triple (is_method m) (and_then (getOrCreateClassRegistration tgt className) (\<lambda>x. and_then (registerOperationByName (fst x) name m) (\<lambda>_. ret m))) is_method" for m
    by (rule triple_and_then[OF class_ops_lasting(1) reg]) auto
  have "triple (known f) (and_then (gets (\<lambda>r. getFunctionRegistration r f)) (\<lambda>freg.
       and_then (case freg of Some m \<Rightarrow> ret m | None \<Rightarrow> getOrCreateMethodRegistration design tgt className key (Some name) f) (\<lambda>m.
         and_then (getOrCreateClassRegistration tgt className) (\<lambda>x. and_then (registerOperationByName (fst x) name m) (\<lambda>_. ret m))))) is_method"
  proof (rule triple_and_then[where Q = "\<lambda>x r. known f r \<and> registry_inv r \<and> getFunctionRegistration r f = x"], rule triple_gets, simp, rule triple_and_then[OF _ cls])
    show "triple (\<lambda>r. known f r \<and> registry_inv r \<and> getFunctionRegistration r f = freg)
        (case freg of Some m \<Rightarrow> ret m | None \<Rightarrow> getOrCreateMethodRegistration design tgt className key (Some name) f) is_method" for freg
    proof (cases freg)
      case None
      show ?thesis
        unfolding None option.case by (rule triple_weaken[OF getOrCreateMethodRegistration_triple]) (auto dest: names_function_method)
    qed (auto intro!: triple_ret getFunctionRegistration_valid)
  qed
  then show ?thesis
    unfolding wrapDBOSFunctionAndRegisterByUniqueName_def Let_def name_def[symmetric] case_prod_beta
    by (rule triple_and_then[OF ensureDBOSIsNotLaunched_triple])
qed

lemma registerFunctionWrapper_triple: "triple (is_method m) (registerFunctionWrapper m) (\<lambda>_. is_method m)"
  unfolding triple_def
proof (intro allI impI)
  fix r assume inv: "registry_inv r" and m: "is_method m r"
  let ?i = "re_made r"
  let ?r1 = "update_method m (\<lambda>x. x\<lparr>mt_wrappedFunction := Some (WrapperFn m ?i)\<rparr>) r"
  let ?r = "?r1\<lparr>re_functionToRegistration := AList.update (WrapperFn m ?i) m (re_functionToRegistration r), re_made := Suc ?i\<rparr>"
  have "same_core r ?r1" by (rule update_same_core(2)) (simp add: method_core_def)
  from same_core_inv[OF this inv] have I: "classes_inv ?r1" "linked ?r1" "operations_inv ?r1" "functions_inv ?r1" "names_inv ?r1"
    by (simp_all add: registry_inv_def methods_inv_def)
  have same: "class_of ?r c = class_of ?r1 c" "method_of ?r j = method_of ?r1 j" for c j by (simp_all add: class_of_def method_of_def)
  have new: "map_of (re_functionToRegistration r) (WrapperFn m ?i) = None"
    using I(4) by (cases "map_of (re_functionToRegistration r) (WrapperFn m ?i)") (fastforce simp: functions_inv_def)+
  have funs: "map_of (re_functionToRegistration ?r) = (map_of (re_functionToRegistration r))(WrapperFn m ?i \<mapsto> m)" by (simp add: update_conv')
  have "classes_inv ?r" using I(1) by (rule classes_inv_cong) (simp_all add: class_of_def)
  moreover have "linked ?r"
    unfolding linked_def same funs
  proof (intro allI impI)
    fix j assume "j < length (re_methods ?r)"
    then have j: "j < length (re_methods ?r1)" by simp
    with I(2) have "map_of (re_functionToRegistration r) (mt_origFunction (method_of ?r1 j)) = Some j" by (simp add: linked_def del: method_of_update)
    with new have "mt_origFunction (method_of ?r1 j) \<noteq> WrapperFn m ?i" by auto
    with I(2) j show "mt_classReg (method_of ?r1 j) < length (re_classes ?r) \<and>
        map_of (cr_allRegisteredOperations (class_of ?r1 (mt_classReg (method_of ?r1 j)))) (mt_origFunction (method_of ?r1 j)) = Some j \<and>
        ((map_of (re_functionToRegistration r))(WrapperFn m ?i \<mapsto> m)) (mt_origFunction (method_of ?r1 j)) = Some j \<and>
        ((map_of (re_functionToRegistration r))(WrapperFn m ?i \<mapsto> m)) (RegisteredFn j) = Some j \<and> mt_registeredFunction (method_of ?r1 j) = Some (RegisteredFn j)"
      by (simp add: linked_def del: method_of_update)
  qed
  moreover have "operations_inv ?r" using I(3) by (simp add: operations_inv_def same del: method_of_update)
  moreover have "functions_inv ?r"
    unfolding functions_inv_def funs
  proof (intro allI impI)
    fix f j assume f: "((map_of (re_functionToRegistration r))(WrapperFn m ?i \<mapsto> m)) f = Some j"
    show "j < length (re_methods ?r) \<and> made_for (re_made ?r) f j"
    proof (cases "f = WrapperFn m ?i")
      case True
      with f m show ?thesis by (simp add: is_method_def)
    next
      case False
      with f I(4) have "j < length (re_methods r) \<and> made_for ?i f j" by (simp add: functions_inv_def)
      then show ?thesis by (cases f) auto
    qed
  qed
  moreover have "sole ?r j = sole ?r1 j" for j by (simp add: sole_def same del: method_of_update)
  with I(5) have "names_inv ?r" by (simp add: names_inv_def same del: method_of_update)
  moreover have "registry_extends r ?r1" by (rule same_core_extends) fact
  then have "registry_extends r ?r" using new unfolding registry_extends_def same funs by (auto simp: map_le_def)
  ultimately show "registry_inv (snd (registerFunctionWrapper m r)) \<and> registry_extends r (snd (registerFunctionWrapper m r)) \<and>
      (\<forall>x. fst (registerFunctionWrapper m r) = Inr x \<longrightarrow> is_method m (snd (registerFunctionWrapper m r)))"
    using m by (simp add: registerFunctionWrapper_def registry_inv_def methods_inv_def is_method_def)
qed

subsection \<open>Launch\<close>

text \<open>After launch a class is found under the name that its functions bear.\<close>

definition class_named :: "registry \<Rightarrow> ctor \<Rightarrow> bool" where
  "class_named r k \<longleftrightarrow> (\<forall>n c. map_of (re_classesByCtor r) k = Some (n, c) \<longrightarrow>
     map_of (re_classesByName r) (cr_name (class_of r c)) = Some (c, Some k) \<and> (cr_name (class_of r c) = [] \<longrightarrow> ctor_name k = []) \<and>
     (\<forall>m. m \<in> ran (map_of (cr_registeredOperationsByName (class_of r c))) \<and> sole r m \<longrightarrow> mt_className (method_of r m) = cr_name (class_of r c)))"

lemma name_class_named:
  assumes inv: "registry_inv r" and k: "map_of (re_classesByCtor r) k = Some (n, c)" and free: "map_of (re_classesByName r) cname \<in> {None, Some (c, Some k)}"
    and empty: "cname = [] \<longrightarrow> ctor_name k = []"
  shows "class_named (name_class k c cname r) k" and "k' \<noteq> k \<Longrightarrow> class_named r k' \<Longrightarrow> class_named (name_class k c cname r) k'"
proof -
  let ?r = "name_class k c cname r"
  from inv have I: "classes_inv r" "linked r" "operations_inv r" by (simp_all add: registry_inv_def methods_inv_def)
  from byCtor_class[OF I(1) k] have c: "c < length (re_classes r)" "cr_ctor (class_of r c) = Some k" by simp_all
  from I(3) c(1) have dist: "distinct (map fst (cr_registeredOperationsByName (class_of r c)))" by (simp add: operations_inv_def)
  note F = name_class_fields[OF c(1) dist, where k = k and cname = cname]
  have valid: "m \<in> ran (map_of (cr_registeredOperationsByName (class_of r c'))) \<Longrightarrow> c' < length (re_classes r) \<Longrightarrow> m < length (re_methods r)" for m c'
    using I(3) unfolding operations_inv_def ran_def by blast
  have ops: "c' < length (re_classes r) \<Longrightarrow> cr_registeredOperationsByName (class_of ?r c') = cr_registeredOperationsByName (class_of r c')" for c' by (simp add: F(7))
  have sole: "m < length (re_methods r) \<Longrightarrow> sole ?r m = sole r m" for m by (simp add: sole_def F(1,8) ops)
  show "class_named ?r k"
    unfolding class_named_def using k c(1) empty by (auto simp: F(5,6,7) F(8)[OF valid])
  assume k': "k' \<noteq> k" and named: "class_named r k'"
  show "class_named ?r k'"
    unfolding class_named_def
  proof (intro allI impI)
    fix n' c' assume "map_of (re_classesByCtor ?r) k' = Some (n', c')"
    with k' obtain n0 where n0: "map_of (re_classesByCtor r) k' = Some (n0, c')" by (auto simp: F(6))
    from byCtor_class[OF I(1) n0] k' c have c': "c' < length (re_classes r)" "c' \<noteq> c" by auto
    from named n0 have N: "map_of (re_classesByName r) (cr_name (class_of r c')) = Some (c', Some k')" "cr_name (class_of r c') = [] \<longrightarrow> ctor_name k' = []"
        "\<And>m. m \<in> ran (map_of (cr_registeredOperationsByName (class_of r c'))) \<Longrightarrow> sole r m \<Longrightarrow> mt_className (method_of r m) = cr_name (class_of r c')"
      by (auto simp: class_named_def)
    from N(1) free k' have "cname \<noteq> cr_name (class_of r c')" by auto
    moreover have "mt_className (method_of ?r m) = cr_name (class_of r c')"
      if m: "m \<in> ran (map_of (cr_registeredOperationsByName (class_of r c')))" "sole ?r m" for m
    proof -
      have "m < length (re_methods r)" by (rule valid[OF m(1) c'(1)])
      with m(2) have so: "sole r m" by (simp add: sole)
      with m(1) c' c(1) have "m \<notin> ran (map_of (cr_registeredOperationsByName (class_of r c)))" unfolding sole_def by metis
      with N(3)[OF m(1) so] \<open>m < length (re_methods r)\<close> show ?thesis by (simp add: F(8))
    qed
    ultimately show "map_of (re_classesByName ?r) (cr_name (class_of ?r c')) = Some (c', Some k') \<and> (cr_name (class_of ?r c') = [] \<longrightarrow> ctor_name k' = []) \<and>
        (\<forall>m. m \<in> ran (map_of (cr_registeredOperationsByName (class_of ?r c'))) \<and> sole ?r m \<longrightarrow> mt_className (method_of ?r m) = cr_name (class_of ?r c'))"
      using N(1,2) c' by (simp add: F(5,7))
  qed
qed

definition has_ctor :: "ctor \<Rightarrow> registry \<Rightarrow> bool" where
  "has_ctor k r \<longleftrightarrow> map_of (re_classesByCtor r) k \<noteq> None"

lemma lasting_has_ctor [intro]: "lasting (has_ctor k)"
  unfolding lasting_def has_ctor_def registry_extends_def by (metis not_None_eq prod.exhaust)

lemma finalize_class_triple:
  "triple (\<lambda>r. has_ctor k r \<and> (\<forall>k'\<in>K. class_named r k')) (finalize_class k) (\<lambda>_ r. \<forall>k'\<in>insert k K. class_named r k')"
  unfolding triple_def
proof (intro allI impI)
  fix r assume inv: "registry_inv r" and pre: "has_ctor k r \<and> (\<forall>k'\<in>K. class_named r k')"
  then obtain n c where k: "map_of (re_classesByCtor r) k = Some (n, c)" by (auto simp: has_ctor_def)
  define cname where "cname = (if n \<noteq> [] then n else if cr_name (class_of r c) \<noteq> [] then cr_name (class_of r c) else getNameForClass r k)"
  have empty: "cname = [] \<longrightarrow> ctor_name k = []" using k by (auto simp: cname_def getNameForClass_def)
  show "registry_inv (snd (finalize_class k r)) \<and> registry_extends r (snd (finalize_class k r)) \<and>
      (\<forall>x. fst (finalize_class k r) = Inr x \<longrightarrow> (\<forall>k'\<in>insert k K. class_named (snd (finalize_class k r)) k'))"
  proof (cases "finalize_class k r = (Inr (), name_class k c cname r)")
    case True
    then have free: "map_of (re_classesByName r) cname \<in> {None, Some (c, Some k)}"
      using inv k byName_class[of r cname c None] byCtor_class[of r k n c]
      by (auto simp: finalize_class_def created_def cname_def[symmetric] registry_inv_def throw_def modify_def split: option.splits if_splits)
    note N = name_class_named[OF inv k free empty]
    have "class_named (name_class k c cname r) k'" if "k' \<in> insert k K" for k' using N pre that by (cases "k' = k") auto
    with name_class_inv[OF inv k free] show ?thesis by (simp add: True)
  next
    case False
    then have "snd (finalize_class k r) = r" "\<And>x. fst (finalize_class k r) \<noteq> Inr x"
      using k by (auto simp: finalize_class_def created_def cname_def[symmetric] throw_def modify_def split: option.splits if_splits)
    with inv show ?thesis by simp
  qed
qed

lemma finalize_all_triple:
  "triple (\<lambda>r. (\<forall>k\<in>set ks. has_ctor k r) \<and> (\<forall>k\<in>K. class_named r k)) (for_each finalize_class ks) (\<lambda>_ r. \<forall>k\<in>K \<union> set ks. class_named r k)"
proof (induction ks arbitrary: K)
  case Nil
  show ?case unfolding for_each.simps by (rule triple_ret) simp
next
  case (Cons k ks)
  have "lasting (\<lambda>r. \<forall>k\<in>set ks. has_ctor k r)" using lasting_has_ctor by (fastforce simp: lasting_def)
  from triple_lasting[OF this] have "triple (\<lambda>r. (\<forall>k\<in>set ks. has_ctor k r) \<and> has_ctor k r \<and> (\<forall>k\<in>K. class_named r k)) (finalize_class k)
      (\<lambda>_ r. (\<forall>k\<in>set ks. has_ctor k r) \<and> (\<forall>k\<in>insert k K. class_named r k))"
    using finalize_class_triple[of k K] \<open>lasting _\<close> unfolding triple_def lasting_def by blast
  from triple_and_then[OF this Cons.IH] show ?case by (auto simp: triple_def)
qed

lemma finalize_triple:
  "triple (\<lambda>r. has_ctor k r) finalizeClassRegistrations (\<lambda>_ r. class_named r k)"
proof -
  have "triple (\<lambda>r. has_ctor k r) (gets (map fst \<circ> re_classesByCtor)) (\<lambda>ks r. (\<forall>k\<in>set ks. has_ctor k r) \<and> k \<in> set ks)"
    by (rule triple_gets) (auto simp: has_ctor_def map_of_eq_None_iff)
  moreover have "triple (\<lambda>r. (\<forall>k\<in>set ks. has_ctor k r) \<and> k \<in> set ks) (for_each finalize_class ks) (\<lambda>_ r. class_named r k)" for ks
    using finalize_all_triple[of ks "{}"] by (auto simp: triple_def)
  ultimately show ?thesis unfolding finalizeClassRegistrations_def by (rule triple_and_then)
qed

lemma finalize_safe: "triple P finalizeClassRegistrations (\<lambda>_ _. True)"
proof -
  have "triple P (gets (map fst \<circ> re_classesByCtor)) (\<lambda>ks r. \<forall>k\<in>set ks. has_ctor k r)"
    by (rule triple_gets) (auto simp: has_ctor_def map_of_eq_None_iff)
  moreover have "triple (\<lambda>r. \<forall>k\<in>set ks. has_ctor k r) (for_each finalize_class ks) (\<lambda>_ _. True)" for ks
    using finalize_all_triple[of ks "{}"] by (auto simp: triple_def)
  ultimately show ?thesis unfolding finalizeClassRegistrations_def by (rule triple_and_then)
qed

text \<open>So a registration that has its own name in its class, and is in no other, is found under the names that are recorded for its functions.\<close>

lemma found_by_recorded_name:
  assumes inv: "registry_inv r" and f: "getFunctionRegistration r f = Some m" and named: "named_in_class m r" "sole r m"
    and ctor: "\<And>k. cr_ctor (class_of r (mt_classReg (method_of r m))) = Some k \<Longrightarrow> class_named r k"
  shows "getFunctionRegistrationByName (fst (getRegisteredFunctionFullName r f)) (snd (getRegisteredFunctionFullName r f)) r = (Inr (Some m), r)"
proof -
  define c where "c = mt_classReg (method_of r m)"
  from named(1) have c: "c < length (re_classes r)" "map_of (cr_registeredOperationsByName (class_of r c)) (mt_name (method_of r m)) = Some m"
    by (simp_all add: named_in_class_def c_def)
  from getFunctionRegistration_valid[OF inv f] have m: "m < length (re_methods r)" by (simp add: is_method_def)
  have I: "classes_inv r" "names_inv r" using inv by (simp_all add: registry_inv_def methods_inv_def)
  have "\<exists>ko. map_of (re_classesByName r) (getClassName r (method_of r m)) = Some (c, ko)"
  proof (cases "cr_ctor (class_of r c)")
    case None
    with I(2) m named(2) have "mt_className (method_of r m) = cr_name (class_of r c)" by (simp add: names_inv_def c_def)
    moreover have "class_getClassName (class_of r c) = cr_name (class_of r c)" using None by (simp add: class_getClassName_def)
    ultimately have "getClassName r (method_of r m) = cr_name (class_of r c)" by (simp add: getClassName_def c_def)
    with plain_class[OF I(1) c(1) None] show ?thesis by simp
  next
    case (Some k)
    from ctor_class[OF I(1) c(1) Some] obtain n where n: "map_of (re_classesByCtor r) k = Some (n, c)" by blast
    have ran: "m \<in> ran (map_of (cr_registeredOperationsByName (class_of r c)))" using c(2) by (auto simp: ran_def)
    from ctor Some n ran named(2) have N: "map_of (re_classesByName r) (cr_name (class_of r c)) = Some (c, Some k)"
        "cr_name (class_of r c) = [] \<longrightarrow> ctor_name k = []" "mt_className (method_of r m) = cr_name (class_of r c)"
      by (auto simp: class_named_def c_def)
    then have "getClassName r (method_of r m) = cr_name (class_of r c)"
      using Some by (auto simp: getClassName_def class_getClassName_def c_def)
    with N(1) show ?thesis by simp
  qed
  then obtain ko where "map_of (re_classesByName r) (getClassName r (method_of r m)) = Some (c, ko)" by blast
  from found_by_name[OF inv this] c(2) f show ?thesis
    by (simp add: getFunctionRegistrationByName_def getRegisteredFunctionFullName_def gets_def)
qed

section \<open>The registries as a system\<close>

text \<open>What a program can do to the registries. Information of others is any but that on roles, which only the decorators set.\<close>

inductive reg_step :: "registry \<Rightarrow> registry \<Rightarrow> bool" where
  workflow: "known f r \<Longrightarrow> reg_step r (snd (workflow_decorator design name config schema tgt key (Some f) r))"
| register_workflow: "known f r \<Longrightarrow> reg_step r (snd (registerWorkflow design tgto className name config schema f r))"
| step: "known f r \<Longrightarrow> reg_step r (snd (step_decorator design name sconfig tgt key (Some f) r))"
| register_step: "known f r \<Longrightarrow> reg_step r (snd (registerStep design tgto className name sconfig f r))"
| required_role: "known f r \<Longrightarrow> reg_step r (snd (requiredRole design roles tgt key f r))"
| default_required_role: "reg_step r (snd (defaultRequiredRole roles k r))"
| class_name: "reg_step r (snd (DBOS_className k cname r))"
| configured_instance: "reg_step r (snd (registerClassInstance k inst iname r))"
| associate_class: "ext \<noteq> DBOS_AUTH \<Longrightarrow> reg_step r (snd (associateClassWithExternal ext cls r))"
| associate_method: "ext \<noteq> DBOS_AUTH \<Longrightarrow> known f r \<Longrightarrow> reg_step r (snd (associateMethodWithExternal design ext tgto className key f r))"
| associate_parameter: "ext \<noteq> DBOS_AUTH \<Longrightarrow> known f r \<Longrightarrow> reg_step r (snd (associateParameterWithExternal design ext tgto className key f pid r))"
| arg_name: "reg_step r (snd (ArgName design name' tgt key f i r))"
| data_source: "reg_step r (snd (registerTransactionalDataSource dname ds r))"
| installer: "reg_step r (snd (registerMiddlewareInstaller (OtherInstaller i) r))"
| listener: "reg_step r (registerLifecycleCallback l r)"
| alert_handler: "reg_step r (setAlertHandler l r)"
| lookup: "reg_step r (snd (getFunctionRegistrationByName cname fname r))"
| finalize: "reg_step r (snd (finalizeClassRegistrations r))"
| middleware: "reg_step r (insertAllMiddleware adds r)"
| launched: "reg_step r (recordDBOSLaunch r)"
| shut_down: "reg_step r (recordDBOSShutdown r)"

text \<open>Each keeps the invariant and takes nothing back.\<close>

lemma same_core_fold: "(\<And>x r. same_core r (f x r)) \<Longrightarrow> same_core r (fold f xs r)"
  by (induction xs arbitrary: r) (auto intro: same_core_trans)

lemma same_core_updates:
  "same_core r (class_info c f r)" "same_core r (method_info m f r)" "same_core r (update_args g h r)"
  "same_core r (getOrCreateMethodArgsRegistration design tgt key g r)" "same_core r (update_method m (addEntryInterceptor i n) r)"
  "same_core r (installMiddleware adds m j r)" "same_core r (insertAllMiddleware adds r)"
proof -
  show info: "same_core r (class_info c f r)" "same_core r (method_info m f r)" for r c m f
    by (auto simp: class_info_def method_info_def class_core_def method_core_def intro!: update_same_core)
  show "same_core r (update_args g h r)" "same_core r (getOrCreateMethodArgsRegistration design tgt key g r)"
    by (simp_all add: update_args_def getOrCreateMethodArgsRegistration_def same_core_def split: option.split)
  show add: "same_core r (update_method m (addEntryInterceptor i n) r)" for r m i n
    by (auto simp: method_core_def addEntryInterceptor_def intro!: update_same_core)
  show inst: "same_core r (installMiddleware adds m j r)" for r m j
  proof (cases j)
    case AuthChecker
    have "same_core r (install_auth m r)"
      unfolding install_auth_def Let_def using same_core_trans[OF same_core_trans[OF info(1) info(2)] add] same_core_trans[OF info(1) info(2)] by simp
    then show ?thesis by (simp add: AuthChecker installMiddleware_def)
  next
    case (OtherInstaller k)
    then show ?thesis by (auto simp: installMiddleware_def intro!: same_core_fold add)
  qed
  have "same_core r (r\<lparr>re_installedMiddleware := True\<rparr>)" by (simp add: same_core_def)
  then show "same_core r (insertAllMiddleware adds r)"
    unfolding insertAllMiddleware_def by (auto intro!: same_core_trans[OF _ same_core_fold] same_core_fold inst)
qed

lemma triple_update:
  assumes "\<And>r. same_core r (f r)" and "lasting P"
  shows "triple P (modify f) (\<lambda>_. P)"
proof (rule triple_modify)
  fix r assume "registry_inv r" "P r"
  with same_core_inv[OF assms(1)] same_core_extends[OF assms(1)] assms(2) show "registry_inv (f r) \<and> registry_extends r (f r) \<and> P (f r)"
    by (simp add: lasting_def) blast
qed

lemma triple_True: "triple P f Q \<Longrightarrow> triple P f (\<lambda>_ _. True)"
  by (simp add: triple_def)

lemma triple_throw_or: "triple P f Q \<Longrightarrow> triple P (if b then throw e else f) Q"
  by (simp add: triple_throw)

lemma config_triples:
  "triple (is_method m) (setWorkflowConfig m config) (\<lambda>_. is_method m)" "triple (is_method m) (setStepConfig m sconfig) (\<lambda>_. is_method m)"
proof -
  have upd: "triple (is_method m) (modify (update_method m (\<lambda>x. x\<lparr>mt_workflowConfig := Some config\<rparr>))) (\<lambda>_. is_method m)"
    "triple (is_method m) (modify (update_method m (\<lambda>x. x\<lparr>mt_stepConfig := Some sconfig\<rparr>))) (\<lambda>_. is_method m)"
    by (rule triple_update; auto intro!: update_same_core simp: method_core_def)+
  have check: "triple (is_method m) (checkFuncTypeUnassigned m t) (\<lambda>_. is_method m)" for t
    by (auto simp: triple_def checkFuncTypeUnassigned_def throw_def split: option.splits)
  show "triple (is_method m) (setWorkflowConfig m config) (\<lambda>_. is_method m)"
    unfolding setWorkflowConfig_def by (rule triple_and_then[OF check upd(1)])
  show "triple (is_method m) (setStepConfig m sconfig) (\<lambda>_. is_method m)"
    unfolding setStepConfig_def
  proof (rule triple_and_then[OF check], rule triple_and_then)
    show "triple (is_method m) (gets (\<lambda>r. validateStepConfig sconfig (getClassName r (method_of r m) @ ''.'' @ mt_name (method_of r m)))) (\<lambda>_. is_method m)"
      by (rule triple_gets)
    show "triple (is_method m) (case err of Some e \<Rightarrow> throw e | None \<Rightarrow> modify (update_method m (\<lambda>x. x\<lparr>mt_stepConfig := Some sconfig\<rparr>))) (\<lambda>_. is_method m)" for err
      using upd(2) by (cases err) (simp_all add: triple_throw)
  qed
qed

lemma getWorkflowInvoker_triple: "triple (is_method m) (getWorkflowInvoker m config schema) (\<lambda>_. is_method m)"
  unfolding getWorkflowInvoker_def
proof (rule triple_and_then[OF config_triples(1)], rule triple_and_then[OF _ registerFunctionWrapper_triple])
  show "triple (is_method m) (case schema of None \<Rightarrow> ret () | Some s \<Rightarrow> modify (update_method m (addEntryInterceptor (InputSchema s) 10))) (\<lambda>_. is_method m)"
    by (cases schema) (simp_all add: triple_update[OF same_core_updates(5) lasting_is(2)] triple_ret)
qed

lemma gets_triple: "triple P (gets f) (\<lambda>_. P)"
  by (rule triple_gets)

lemma decorators_safe:
  "triple (known f) (workflow_decorator design name config schema tgt key (Some f)) (\<lambda>_ _. True)"
  "triple (known f) (registerWorkflow design tgto className name config schema f) (\<lambda>_ _. True)"
  "triple (known f) (step_decorator design name sconfig tgt key (Some f)) (\<lambda>_ _. True)"
  "triple (known f) (registerStep design tgto className name sconfig f) (\<lambda>_ _. True)"
proof -
  note invoker = triple_True[OF getWorkflowInvoker_triple] and wrapper = triple_True[OF registerFunctionWrapper_triple]
  show "triple (known f) (workflow_decorator design name config schema tgt key (Some f)) (\<lambda>_ _. True)"
    unfolding workflow_decorator_def wrapDBOSFunctionAndRegisterByTarget_def option.case by (rule triple_and_then[OF wrap_unique_triple invoker])
  show "triple (known f) (registerWorkflow design tgto className name config schema f) (\<lambda>_ _. True)"
    unfolding registerWorkflow_def by (rule triple_and_then[OF gets_triple], rule triple_and_then[OF wrap_unique_triple invoker])
  show "triple (known f) (step_decorator design name sconfig tgt key (Some f)) (\<lambda>_ _. True)"
    unfolding step_decorator_def wrapDBOSFunctionAndRegisterByTarget_def option.case
    by (rule triple_and_then[OF wrap_unique_triple], rule triple_and_then[OF config_triples(2) wrapper])
  show "triple (known f) (registerStep design tgto className name sconfig f) (\<lambda>_ _. True)"
    unfolding registerStep_def
  proof (rule triple_and_then[OF gets_triple])
    show "triple (known f) (case validateStepConfig sconfig n of Some e \<Rightarrow> throw e
        | None \<Rightarrow> and_then (wrapDBOSFunctionAndRegister design tgto className n (Some n) f) registerFunctionWrapper) (\<lambda>_ _. True)" for n
      using triple_and_then[OF wrap_triple wrapper] by (cases "validateStepConfig sconfig n") (simp_all add: triple_throw)
  qed
qed

lemma registerMiddlewareInstaller_triple: "lasting P \<Longrightarrow> triple P (registerMiddlewareInstaller i) (\<lambda>_. P)"
  unfolding registerMiddlewareInstaller_def
  by (rule triple_and_then[OF gets_triple]) (auto simp: triple_throw same_core_def intro!: triple_update)

lemma associate_triples:
  "triple P (associateClassWithExternal ext cls) is_class"
  "triple (known f) (associateMethodWithExternal design ext tgto className key f) is_method"
  "triple (known f) (associateParameterWithExternal design ext tgto className key f pid) (\<lambda>_ _. True)"
proof -
  have cls: "triple P (case cls of ClassNamed n \<Rightarrow> getClassRegistrationByName n True | ClassOf k \<Rightarrow> and_then (getClassRegistration k True) (\<lambda>found. ret (snd (created found)))) is_class"
  proof (cases cls)
    case (ClassNamed n)
    show ?thesis unfolding ClassNamed class_spec.case by (rule triple_weaken[OF class_ops_lasting(2)[OF lasting_True]]) simp_all
  next
    case (ClassOf k)
    have "triple P (and_then (getClassRegistration k True) (\<lambda>found. ret (snd (created found)))) is_class"
      by (rule triple_and_then, rule triple_weaken[OF class_ops_lasting(3)[OF lasting_True], where P' = P and Q' = "\<lambda>found. is_class (snd (created found))"])
        (auto intro: triple_ret)
    then show ?thesis by (simp add: ClassOf)
  qed
  show "triple P (associateClassWithExternal ext cls) is_class"
    unfolding associateClassWithExternal_def
    by (rule triple_and_then[OF cls], rule triple_and_then[OF triple_update[OF same_core_updates(1) lasting_is(1)]]) (rule triple_ret)
  show "triple (known f) (associateMethodWithExternal design ext tgto className key f) is_method"
    unfolding associateMethodWithExternal_def
    by (rule triple_and_then[OF wrap_triple], rule triple_and_then[OF triple_update[OF same_core_updates(2) lasting_is(2)]]) (rule triple_ret)
  show "triple (known f) (associateParameterWithExternal design ext tgto className key f pid) (\<lambda>_ _. True)"
    unfolding associateParameterWithExternal_def
  proof (rule triple_and_then[OF wrap_triple], rule triple_and_then[OF gets_triple])
    show "triple (is_method m) (case x of (g, found) \<Rightarrow> (case found of None \<Rightarrow> ret None
        | Some i \<Rightarrow> and_then (modify (update_args g (\<lambda>args. args[i := (args ! i)\<lparr>mp_externalRegInfo := ensure_info ext (mp_externalRegInfo (args ! i))\<rparr>])))
            (\<lambda>_. ret (Some (g, i))))) (\<lambda>_ _. True)" for m and x :: "js_fun \<times> nat option"
    proof (cases x)
      case (Pair g found)
      have "triple (is_method m) (and_then (modify (update_args g h)) (\<lambda>_. ret y)) (\<lambda>_ _. True)" for h and y :: "(js_fun \<times> nat) option"
        by (rule triple_and_then[OF triple_update[OF same_core_updates(3) lasting_is(2)]]) (rule triple_ret, simp)
      then show ?thesis by (cases found) (simp_all add: Pair triple_ret)
    qed
  qed
qed

lemma role_decorators_safe:
  "triple (known f) (requiredRole design roles tgt key f) (\<lambda>_ _. True)"
  "triple P (defaultRequiredRole roles k) (\<lambda>_ _. True)"
proof -
  show "triple (known f) (requiredRole design roles tgt key f) (\<lambda>_ _. True)"
    unfolding requiredRole_def registerAuthChecker_def
    by (rule triple_and_then[OF associate_triples(2)], rule triple_and_then[OF triple_update[OF same_core_updates(2) lasting_is(2)]],
        rule triple_and_then[OF registerMiddlewareInstaller_triple[OF lasting_is(2)]]) (rule triple_True[OF gets_triple])
  show "triple P (defaultRequiredRole roles k) (\<lambda>_ _. True)"
    unfolding defaultRequiredRole_def registerAuthChecker_def
    by (rule triple_and_then[OF associate_triples(1)], rule triple_and_then[OF triple_update[OF same_core_updates(1) lasting_is(1)]])
      (rule triple_True[OF registerMiddlewareInstaller_triple[OF lasting_is(1)]])
qed

lemma class_decorators_safe:
  "triple (\<lambda>_. True) (DBOS_className k cname) (\<lambda>_ _. True)" "triple (\<lambda>_. True) (registerClassInstance k inst iname) (\<lambda>_ _. True)"
proof -
  have name: "triple P (modify (set_ctor_name k cname)) (\<lambda>_ _. True)" for P
    by (rule triple_modify) (simp add: set_ctor_name_inv)
  show "triple (\<lambda>_. True) (DBOS_className k cname) (\<lambda>_ _. True)"
    unfolding DBOS_className_def Let_def by (rule triple_and_then[OF class_ops_lasting(3)[OF lasting_True]], rule triple_throw_or, rule name)
  show "triple (\<lambda>_. True) (registerClassInstance k inst iname) (\<lambda>_ _. True)"
    unfolding registerClassInstance_def Let_def
  proof (rule triple_and_then[OF class_ops_lasting(3)[OF lasting_True]], rule triple_and_then[OF gets_triple], rule triple_throw_or)
    show "triple (\<lambda>r. True \<and> is_class (snd (created found)) r)
        (modify (update_class (snd (created found)) (\<lambda>x. x\<lparr>cr_configuredInstances := AList.update iname inst (cr_configuredInstances x)\<rparr>))) (\<lambda>_ _. True)" for found
      by (rule triple_True[OF triple_update]) (auto intro!: update_same_core simp: class_core_def)
  qed
qed

lemma other_operations_safe:
  "triple P (ArgName design name tgt key f i) (\<lambda>_ _. True)" "triple P (registerTransactionalDataSource dname ds) (\<lambda>_ _. True)"
  "triple (\<lambda>_. True) (getFunctionRegistrationByName cname fname) (\<lambda>_ _. True)"
proof -
  have "triple (\<lambda>_. True) (ArgName design name tgt key f i) (\<lambda>_ _. True)"
    unfolding ArgName_def
    by (rule triple_and_then[OF triple_update[OF same_core_updates(4) lasting_True]], rule triple_and_then[OF gets_triple], rule triple_throw_or,
        rule triple_update[OF same_core_updates(3) lasting_True])
  then show "triple P (ArgName design name tgt key f i) (\<lambda>_ _. True)" by (rule triple_weaken) simp_all
  have "triple P (modify (\<lambda>r. r\<lparr>re_transactionalDataSources := AList.update dname ds (re_transactionalDataSources r)\<rparr>)) (\<lambda>_ _. True)"
    by (rule triple_modify) (auto intro!: same_core_inv[of r "r\<lparr>re_transactionalDataSources := x\<rparr>" for r x] same_core_extends simp: same_core_def)
  then show "triple P (registerTransactionalDataSource dname ds) (\<lambda>_ _. True)"
    unfolding registerTransactionalDataSource_def
    using triple_and_then[OF ensureDBOSIsNotLaunched_triple[of P]]
    by (intro triple_and_then[OF gets_triple]) (auto simp: triple_throw triple_ret split: option.split)
  show "triple (\<lambda>_. True) (getFunctionRegistrationByName cname fname) (\<lambda>_ _. True)"
    unfolding getFunctionRegistrationByName_def
    by (rule triple_and_then[OF class_ops_lasting(2)[OF lasting_True]], rule triple_True[OF gets_triple])
qed

lemma safe_step: "triple P f Q \<Longrightarrow> registry_inv r \<Longrightarrow> P r \<Longrightarrow> registry_inv (snd (f r)) \<and> registry_extends r (snd (f r))"
  by (simp add: triple_def)

lemma same_core_step: "same_core r r' \<Longrightarrow> registry_inv r \<Longrightarrow> registry_inv r' \<and> registry_extends r r'"
  by (simp add: same_core_inv same_core_extends)

lemma reg_step_safe: "reg_step r r' \<Longrightarrow> registry_inv r \<Longrightarrow> registry_inv r' \<and> registry_extends r r'"
proof (induction rule: reg_step.induct)
  case workflow then show ?case by (simp add: safe_step[OF decorators_safe(1)])
next
  case register_workflow then show ?case by (simp add: safe_step[OF decorators_safe(2)])
next
  case step then show ?case by (simp add: safe_step[OF decorators_safe(3)])
next
  case register_step then show ?case by (simp add: safe_step[OF decorators_safe(4)])
next
  case required_role then show ?case by (simp add: safe_step[OF role_decorators_safe(1)])
next
  case default_required_role then show ?case by (simp add: safe_step[OF role_decorators_safe(2)[of "\<lambda>_. True"]])
next
  case class_name then show ?case by (simp add: safe_step[OF class_decorators_safe(1)])
next
  case configured_instance then show ?case by (simp add: safe_step[OF class_decorators_safe(2)])
next
  case associate_class then show ?case by (simp add: safe_step[OF associate_triples(1)[of "\<lambda>_. True"]])
next
  case associate_method then show ?case by (simp add: safe_step[OF associate_triples(2)])
next
  case associate_parameter then show ?case by (simp add: safe_step[OF associate_triples(3)])
next
  case arg_name then show ?case by (simp add: safe_step[OF other_operations_safe(1)[of "\<lambda>_. True"]])
next
  case data_source then show ?case by (simp add: safe_step[OF other_operations_safe(2)[of "\<lambda>_. True"]])
next
  case installer then show ?case by (simp add: safe_step[OF registerMiddlewareInstaller_triple[OF lasting_True]])
next
  case lookup then show ?case by (simp add: safe_step[OF other_operations_safe(3)])
next
  case finalize then show ?case by (simp add: safe_step[OF finalize_safe[of "\<lambda>_. True"]])
next
  case (middleware r adds) show ?case by (rule same_core_step[OF same_core_updates(7) middleware])
qed (auto intro!: same_core_step simp: same_core_def registerLifecycleCallback_def setAlertHandler_def recordDBOSLaunch_def recordDBOSShutdown_def)

interpretation registries: invariant_system "\<lambda>r. r = empty_registry" reg_step registry_inv
proof
  show "registry_inv r" if "r = empty_registry" for r
    unfolding that by (simp add: registry_inv_def classes_inv_def methods_inv_def linked_def operations_inv_def functions_inv_def names_inv_def empty_registry_def)
qed (blast dest: reg_step_safe)

lemma reg_run_extends: "reg_step\<^sup>*\<^sup>* r r' \<Longrightarrow> registry_inv r \<Longrightarrow> registry_extends r r'"
  by (induction rule: rtranclp_induct) (auto intro: registry_extends_trans dest: reg_step_safe registries.run_inv)

end
