(* ===== verification/Registration.thy ===== *)
theory Registration
  imports Registry_Invariant
begin

text \<open>
  What registrations are for: a workflow is found again by the names that are recorded for it in the system database, whatever is registered
  besides it, and a function that requires a role runs only for callers that have it.
\<close>

section \<open>Workflows are found by the names recorded for them\<close>

definition registered_as :: "js_fun \<Rightarrow> js_fun \<Rightarrow> nat \<Rightarrow> registry \<Rightarrow> bool" where
  "registered_as f w m r \<longleftrightarrow> is_method m r \<and> getFunctionRegistration r f = Some m \<and> getFunctionRegistration r w = Some m \<and> named_in_class m r"

lemma registered_as_extends: "registered_as f w m r \<Longrightarrow> registry_extends r r' \<Longrightarrow> registered_as f w m r'"
  using named_in_class_extends[of m r r']
  by (auto simp: registered_as_def is_method_def getFunctionRegistration_def registry_extends_def map_le_def dom_def)

lemma workflow_invoker_triple:
  "triple (\<lambda>r. is_method m r \<and> getFunctionRegistration r f = Some m \<and> named_in_class m r) (getWorkflowInvoker m config schema) (\<lambda>w. registered_as f w m)"
proof -
  have last: "lasting (\<lambda>r. is_method m r \<and> getFunctionRegistration r f = Some m \<and> named_in_class m r)"
    unfolding lasting_def using registered_as_extends[of f f m, unfolded registered_as_def] by blast
  have wrapper: "triple (is_method m) (registerFunctionWrapper m) (\<lambda>w r. getFunctionRegistration r w = Some m)"
    using registerFunctionWrapper_triple[of m] by (auto simp: triple_def registerFunctionWrapper_def getFunctionRegistration_def update_conv')
  have "triple (is_method m) (getWorkflowInvoker m config schema) (\<lambda>w r. getFunctionRegistration r w = Some m)"
    unfolding getWorkflowInvoker_def
  proof (rule triple_and_then[OF config_triples(1)], rule triple_and_then[OF _ wrapper])
    show "triple (is_method m) (case schema of None \<Rightarrow> ret () | Some s \<Rightarrow> modify (update_method m (addEntryInterceptor (InputSchema s) 10))) (\<lambda>_. is_method m)"
      by (cases schema) (simp_all add: triple_update[OF same_core_updates(5) lasting_is(2)] triple_ret)
  qed
  then have "triple (\<lambda>r. is_method m r \<and> getFunctionRegistration r f = Some m \<and> named_in_class m r) (getWorkflowInvoker m config schema)
      (\<lambda>w r. getFunctionRegistration r w = Some m)"
    by (rule triple_weaken) simp_all
  from triple_lasting[OF last this] show ?thesis by (rule triple_weaken) (auto simp: registered_as_def)
qed

lemma new_workflow_triples:
  "triple (\<lambda>r. known f r \<and> getFunctionRegistration r f = None) (workflow_decorator design name config schema tgt key (Some f)) (\<lambda>w r. \<exists>m. registered_as f w m r)"
  "triple (\<lambda>r. known f r \<and> getFunctionRegistration r f = None) (registerWorkflow design tgto className name config schema f) (\<lambda>w r. \<exists>m. registered_as f w m r)"
proof -
  have invoker: "triple (\<lambda>r. is_method m r \<and> getFunctionRegistration r f = Some m \<and> named_in_class m r) (getWorkflowInvoker m config schema) (\<lambda>w r. \<exists>m. registered_as f w m r)" for m
    by (rule triple_weaken[OF workflow_invoker_triple]) auto
  show "triple (\<lambda>r. known f r \<and> getFunctionRegistration r f = None) (workflow_decorator design name config schema tgt key (Some f)) (\<lambda>w r. \<exists>m. registered_as f w m r)"
    unfolding workflow_decorator_def wrapDBOSFunctionAndRegisterByTarget_def option.case by (rule triple_and_then[OF wrap_unique_new_triple invoker])
  show "triple (\<lambda>r. known f r \<and> getFunctionRegistration r f = None) (registerWorkflow design tgto className name config schema f) (\<lambda>w r. \<exists>m. registered_as f w m r)"
    unfolding registerWorkflow_def by (rule triple_and_then[OF gets_triple], rule triple_and_then[OF wrap_unique_new_triple invoker])
qed


definition sample_class :: target where
  "sample_class = StaticOf (Ctor 0 ''C'')"

definition sample_function :: js_fun where
  "sample_function = OrigFn 0 ''f'' ''f(a, b = 2) {}''"

definition sample_config :: WorkflowConfig where
  "sample_config = \<lparr>wc_maxRecoveryAttempts = None, wc_serialization = None\<rparr>"

definition sample_registered :: "(dbos_error + js_fun) \<times> registry" where
  "sample_registered = workflow_decorator (\<lambda>_ _. None) (Some ''wf'') sample_config None sample_class ''f'' (Some sample_function) empty_registry"

definition sample_launched :: "(dbos_error + unit) \<times> registry" where
  "sample_launched = finalizeClassRegistrations (snd sample_registered)"

lemma sample_registered_ok: "fst sample_registered = Inr (WrapperFn 0 0)"
  by code_simp

lemma sample_launched_ok: "fst sample_launched = Inr ()"
  by code_simp

lemma sample_names: "getRegisteredFunctionFullName (snd sample_launched) sample_function = (''C'', ''wf'')" "getFunctionRegistration (snd sample_launched) sample_function = Some 0"
  by code_simp+

lemma sample_sole: "sole (snd sample_launched) 0"
proof -
  have "length (re_classes (snd sample_launched)) = 1" "mt_classReg (method_of (snd sample_launched) 0) = 0" by code_simp+
  then show ?thesis by (simp add: sole_def)
qed


text \<open>
  A decorator that only associates information registers the function under the name of the method, and the registration keeps that name: if the decorator of the workflow, which comes
  after it, gives another name, the name that is recorded is not the one under which the workflow is found.
\<close>

definition sample_role_first :: "(dbos_error + js_fun) \<times> registry" where
  "sample_role_first = requiredRole (\<lambda>_ _. None) [''admin''] sample_class ''f'' sample_function empty_registry"

definition sample_renamed :: "(dbos_error + js_fun) \<times> registry" where
  "sample_renamed = workflow_decorator (\<lambda>_ _. None) (Some ''wf'') sample_config None sample_class ''f'' (Some (RegisteredFn 0)) (snd sample_role_first)"

lemma renamed_after_role_not_found:
  "fst sample_role_first = Inr (RegisteredFn 0)" "fst sample_renamed = Inr (WrapperFn 0 0)"
  "getRegisteredFunctionFullName (snd (finalizeClassRegistrations (snd sample_renamed))) (WrapperFn 0 0) = (''C'', ''f'')"
  "fst (getFunctionRegistrationByName ''C'' ''f'' (snd (finalizeClassRegistrations (snd sample_renamed)))) = Inr None"
  by code_simp+

text \<open>A class that is given by its constructor can be registered under no other name than that of the constructor.\<close>

lemma other_class_name_rejected:
  "ctor_name k \<noteq> [] \<Longrightarrow> cn \<noteq> ctor_name k \<Longrightarrow> map_of (re_classesByCtor r) k = None \<Longrightarrow>
     fst (getOrCreateClassRegistration (Some (StaticOf k)) (Some cn) r) =
       Inl (PlainError (''Attempt to register class under two names: '' @ ctor_name k @ '' vs. '' @ cn))"
  by (auto simp: getOrCreateClassRegistration_def getClassRegistration_def created_def throw_def and_then_def)

section \<open>Roles are checked\<close>

text \<open>Wherever a role is required, the installer of the check is registered, until it has been applied.\<close>

definition has_roles :: "registry \<Rightarrow> bool" where
  "has_roles r \<longleftrightarrow> (\<exists>x\<in>set (re_classes r). requiredRole_of (cr_externalRegInfo x) \<noteq> None) \<or> (\<exists>x\<in>set (re_methods r). requiredRole_of (mt_externalRegInfo x) \<noteq> None)"

definition auth_inv :: "registry \<Rightarrow> bool" where
  "auth_inv r \<longleftrightarrow> (\<not> re_installedMiddleware r \<longrightarrow> has_roles r \<longrightarrow> AuthChecker \<in> set (re_middlewareInstallers r))"

definition roleless :: "registry \<Rightarrow> registry \<Rightarrow> bool" where
  "roleless r r' \<longleftrightarrow> (has_roles r' \<longrightarrow> has_roles r) \<and> set (re_middlewareInstallers r) \<subseteq> set (re_middlewareInstallers r') \<and> (re_installedMiddleware r \<longrightarrow> re_installedMiddleware r')"

lemma roleless_refl [simp]: "roleless r r"
  by (simp add: roleless_def)

lemma roleless_trans: "roleless r1 r2 \<Longrightarrow> roleless r2 r3 \<Longrightarrow> roleless r1 r3"
  by (auto simp: roleless_def)

lemma roleless_auth_inv: "roleless r r' \<Longrightarrow> auth_inv r \<Longrightarrow> auth_inv r'"
  by (auto simp: roleless_def auth_inv_def)

definition roleless_op :: "'a reg_op \<Rightarrow> bool" where
  "roleless_op f \<longleftrightarrow> (\<forall>r. roleless r (snd (f r)))"

named_theorems roleless_rules \<open>operations that require no roles\<close>

lemma roleless_combinators [roleless_rules]:
  "roleless_op (ret x)" "roleless_op (throw e)" "roleless_op (gets g)" "(\<And>r. roleless r (h r)) \<Longrightarrow> roleless_op (modify h)"
  by (simp_all add: roleless_op_def throw_def gets_def modify_def ret_def)

lemma roleless_and_then [roleless_rules]: "roleless_op f \<Longrightarrow> (\<And>x. roleless_op (g x)) \<Longrightarrow> roleless_op (and_then f g)"
  unfolding roleless_op_def
proof
  fix r assume q: "\<forall>r. roleless r (snd (f r))" "\<And>x. \<forall>r. roleless r (snd (g x r))"
  obtain res r1 where f: "f r = (res, r1)" by fastforce
  with q(1) have "roleless r r1" by (metis snd_conv)
  with f q(2) show "roleless r (snd (and_then f g r))" by (cases res) (auto intro: roleless_trans)
qed

lemma roleless_cases [roleless_rules]:
  "roleless_op f \<Longrightarrow> roleless_op g \<Longrightarrow> roleless_op (if b then f else g)"
  "roleless_op f \<Longrightarrow> (\<And>x. roleless_op (h x)) \<Longrightarrow> roleless_op (case y of None \<Rightarrow> f | Some x \<Rightarrow> h x)"
  "(\<And>a b. roleless_op (i a b)) \<Longrightarrow> roleless_op (case z of (a, b) \<Rightarrow> i a b)"
  "(\<And>x. roleless_op (h x)) \<Longrightarrow> roleless_op (let x = v in h x)"
  by (auto split: option.split prod.split)

lemma set_list_update_at: "x \<in> set (xs[i := f (xs ! i)]) \<Longrightarrow> \<exists>y\<in>set xs. x = y \<or> x = f y"
proof (cases "i < length xs")
  case True
  assume "x \<in> set (xs[i := f (xs ! i)])"
  then have "x \<in> insert (f (xs ! i)) (set xs)" by (rule set_update_subset_insert[THEN subsetD])
  with True show ?thesis by auto
next
  case False
  then have "xs[i := f (xs ! i)] = xs" by (simp add: list_update_beyond)
  then show "x \<in> set (xs[i := f (xs ! i)]) \<Longrightarrow> ?thesis" by auto
qed

lemma roleless_update:
  "(\<And>x. requiredRole_of (cr_externalRegInfo (f x)) = requiredRole_of (cr_externalRegInfo x)) \<Longrightarrow> roleless r (update_class c f r)"
  "(\<And>x. requiredRole_of (mt_externalRegInfo (g x)) = requiredRole_of (mt_externalRegInfo x)) \<Longrightarrow> roleless r (update_method m g r)"
  by (force simp: roleless_def has_roles_def update_class_def update_method_def dest!: set_list_update_at)+

lemma requiredRole_of_ensure [simp]: "requiredRole_of (ensure_info ext infos) = requiredRole_of infos"
  by (auto simp: requiredRole_of_def info_of_def ensure_info_def update_conv')

lemma roleless_other: "re_classes r' = re_classes r \<Longrightarrow> re_methods r' = re_methods r \<Longrightarrow> re_middlewareInstallers r' = re_middlewareInstallers r \<Longrightarrow>
    re_installedMiddleware r' = re_installedMiddleware r \<Longrightarrow> roleless r r'"
  by (simp add: roleless_def has_roles_def)

lemma roleless_primitives [roleless_rules]:
  "roleless r (set_ctor_name k n r)" "roleless r (getOrCreateMethodArgsRegistration design tgt key f r)" "roleless r (update_args f h r)"
  "roleless r (class_info c (ensure_info ext) r)" "roleless r (method_info m (ensure_info ext) r)" "roleless r (update_class c (initialize_class n) r)"
  "roleless r (create_method design tgt key c isInstance n f r)" "roleless r (update_method m (addEntryInterceptor i s) r)" "roleless r (name_class k c n r)"
proof -
  show "roleless r (set_ctor_name k n r)" for r by (rule roleless_other) (simp_all add: set_ctor_name_def)
  show args: "roleless r (getOrCreateMethodArgsRegistration design tgt key f r)" for r
    by (rule roleless_other) (simp_all add: getOrCreateMethodArgsRegistration_def split: option.split)
  show upd: "roleless r (update_args f h r)" for r h by (rule roleless_other) (simp_all add: update_args_def)
  show "roleless r (class_info c (ensure_info ext) r)" "roleless r (method_info m (ensure_info ext) r)"
    unfolding class_info_def method_info_def by (rule roleless_update, simp)+
  show "roleless r (update_class c (initialize_class n) r)" by (rule roleless_update) (simp add: initialize_class_def)
  show "roleless r (update_method m (addEntryInterceptor i s) r)" by (rule roleless_update) (simp add: addEntryInterceptor_def)
  have new: "roleless r (r\<lparr>re_methods := re_methods r @ [new_method (length (re_methods r)) c n (cr_name (class_of r c)) isInstance f]\<rparr>)"
    by (simp add: roleless_def has_roles_def new_method_def requiredRole_of_def info_of_def)
  have all: "roleless r (update_class c (\<lambda>x. x\<lparr>cr_allRegisteredOperations := AList.update f j (cr_allRegisteredOperations x)\<rparr>) r)" for r j by (rule roleless_update) simp
  have funs: "roleless r (r\<lparr>re_functionToRegistration := fs\<rparr>)" for r fs by (rule roleless_other) simp_all
  show "roleless r (create_method design tgt key c isInstance n f r)"
    unfolding create_method_def Let_def by (rule roleless_trans[OF roleless_trans[OF roleless_trans[OF roleless_trans[OF new all] args] upd] funs])
  have names: "roleless r (fold (\<lambda>(_, m). update_method m (\<lambda>x. x\<lparr>mt_className := n\<rparr>)) xs r)" for r and xs :: "(string \<times> nat) list"
  proof (induction xs arbitrary: r)
    case (Cons x xs)
    have "roleless r (update_method (snd x) (\<lambda>x. x\<lparr>mt_className := n\<rparr>) r)" by (rule roleless_update) simp
    from roleless_trans[OF this Cons.IH] show ?case by (simp add: case_prod_beta)
  qed simp
  have cls: "roleless r (update_class c (\<lambda>x. x\<lparr>cr_name := n, cr_needsInitialized := False\<rparr>) r)" for r by (rule roleless_update) simp
  have tables: "roleless r (set_ctor_name k n (r\<lparr>re_classesByName := ns\<rparr>))" for ns by (rule roleless_other) (simp_all add: set_ctor_name_def)
  show "roleless r (name_class k c n r)" unfolding name_class_def setName_def by (rule roleless_trans[OF roleless_trans[OF tables cls] names])
qed

lemma roleless_classes [roleless_rules]:
  "roleless_op (getClassRegistration k create)" "roleless_op (getClassRegistrationByName n create)" "roleless_op (getOrCreateClassRegistration tgt className)"
proof -
  have "roleless r (r\<lparr>re_classes := re_classes r @ [new_class ko], re_classesByCtor := x\<rparr>)" "roleless r (r\<lparr>re_classes := re_classes r @ [initialize_class n' (new_class ko)], re_classesByName := y\<rparr>)"
    for r ko x y n' by (simp_all add: roleless_def has_roles_def new_class_def initialize_class_def requiredRole_of_def info_of_def)
  then show by_ctor: "roleless_op (getClassRegistration k create)" and by_name: "roleless_op (getClassRegistrationByName n create)" for k n create
    unfolding getClassRegistration_def getClassRegistrationByName_def by (auto intro!: roleless_rules)
  show "roleless_op (getOrCreateClassRegistration tgt className)"
    unfolding getOrCreateClassRegistration_def Let_def by (cases tgt; cases className) (auto intro!: roleless_rules by_ctor by_name)
qed

lemma roleless_functions [roleless_rules]:
  "roleless_op ensureDBOSIsNotLaunched" "roleless_op (registerOperationByName c n m)" "roleless_op (getOrCreateMethodRegistration design tgt className key no f)"
  "roleless_op (registerFunctionWrapper m)" "roleless_op (checkFuncTypeUnassigned m t)"
proof -
  have "roleless r (update_class c (\<lambda>x. x\<lparr>cr_registeredOperationsByName := AList.update n m (cr_registeredOperationsByName x)\<rparr>) r)" for r by (rule roleless_update) simp
  then show "roleless_op (registerOperationByName c n m)" unfolding registerOperationByName_def by (intro roleless_rules)
  show "roleless_op ensureDBOSIsNotLaunched" "roleless_op (checkFuncTypeUnassigned m t)"
    unfolding ensureDBOSIsNotLaunched_def checkFuncTypeUnassigned_def by (intro roleless_rules)+
  show "roleless_op (getOrCreateMethodRegistration design tgt className key no f)" unfolding getOrCreateMethodRegistration_def by (intro roleless_rules)
  have "roleless r (update_method m (\<lambda>x. x\<lparr>mt_wrappedFunction := w\<rparr>) r)" for r w by (rule roleless_update) simp
  moreover have "roleless r (r\<lparr>re_functionToRegistration := fs, re_made := i\<rparr>)" for r fs i by (rule roleless_other) simp_all
  ultimately have "roleless r ((update_method m (\<lambda>x. x\<lparr>mt_wrappedFunction := w\<rparr>) r)\<lparr>re_functionToRegistration := fs, re_made := i\<rparr>)" for r w fs i by (rule roleless_trans)
  then show "roleless_op (registerFunctionWrapper m)" unfolding registerFunctionWrapper_def by (intro roleless_rules)
qed

lemma roleless_registration [roleless_rules]:
  "roleless_op (wrapDBOSFunctionAndRegisterByUniqueName design tgt className key no f)" "roleless_op (wrapDBOSFunctionAndRegister design tgt className key no f)"
  "roleless_op (setWorkflowConfig m config)" "roleless_op (setStepConfig m sconfig)" "roleless_op (getWorkflowInvoker m config schema)" "roleless_op (finalize_class k)"
  "roleless_op (associateClassWithExternal ext cls)" "roleless_op (associateMethodWithExternal design ext tgt className key f)"
  "roleless_op (registerMiddlewareInstaller i)"
proof -
  show "roleless_op (wrapDBOSFunctionAndRegisterByUniqueName design tgt className key no f)" and wrap: "roleless_op (wrapDBOSFunctionAndRegister design tgt className key no f)" for no
    unfolding wrapDBOSFunctionAndRegisterByUniqueName_def wrapDBOSFunctionAndRegister_def by (intro roleless_rules)+
  have "roleless r (update_method m (\<lambda>x. x\<lparr>mt_workflowConfig := w\<rparr>) r)" "roleless r (update_method m (\<lambda>x. x\<lparr>mt_stepConfig := t\<rparr>) r)" for r w t
    by (rule roleless_update; simp)+
  then show config: "roleless_op (setWorkflowConfig m config)" "roleless_op (setStepConfig m sconfig)"
    unfolding setWorkflowConfig_def setStepConfig_def by (intro roleless_rules; simp)+
  show "roleless_op (getWorkflowInvoker m config schema)" unfolding getWorkflowInvoker_def by (intro roleless_rules config)
  show "roleless_op (finalize_class k)" unfolding finalize_class_def case_prod_beta by (intro roleless_rules)
  show "roleless_op (associateClassWithExternal ext cls)" unfolding associateClassWithExternal_def by (cases cls) (auto intro!: roleless_rules)
  show "roleless_op (associateMethodWithExternal design ext tgt className key f)" unfolding associateMethodWithExternal_def by (intro roleless_rules wrap)
  show "roleless_op (registerMiddlewareInstaller i)"
    unfolding registerMiddlewareInstaller_def by (intro roleless_rules) (auto simp: roleless_def has_roles_def)
qed

lemma roleless_for_each: "(\<And>x. roleless_op (f x)) \<Longrightarrow> roleless_op (for_each f xs)"
  by (induction xs) (auto intro!: roleless_rules)

lemma roleless_fold: "(\<And>x r. roleless r (f x r)) \<Longrightarrow> roleless r (fold f xs r)"
  by (induction xs arbitrary: r) (auto intro: roleless_trans)

lemma roleless_operations:
  "roleless_op (workflow_decorator design no config schema tgt key fo)" "roleless_op (registerWorkflow design tgto className no config schema f)"
  "roleless_op (step_decorator design no sconfig tgt key fo)" "roleless_op (registerStep design tgto className no sconfig f)"
  "roleless_op (DBOS_className k cname)" "roleless_op (registerClassInstance k inst iname)" "roleless_op (associateParameterWithExternal design ext tgto className key f pid)"
  "roleless_op (ArgName design n tgt key f i)" "roleless_op (registerTransactionalDataSource dname ds)" "roleless_op (getFunctionRegistrationByName cname fname)"
  "roleless_op finalizeClassRegistrations"
proof -
  have inst: "roleless r (update_class c (\<lambda>x. x\<lparr>cr_configuredInstances := y x\<rparr>) r)" for r c y by (rule roleless_update) simp
  have ds: "roleless r (r\<lparr>re_transactionalDataSources := y\<rparr>)" for r y by (rule roleless_other) simp_all
  show "roleless_op (workflow_decorator design no config schema tgt key fo)" "roleless_op (step_decorator design no sconfig tgt key fo)"
    unfolding workflow_decorator_def step_decorator_def wrapDBOSFunctionAndRegisterByTarget_def by (intro roleless_rules)+
  show "roleless_op (registerWorkflow design tgto className no config schema f)" "roleless_op (registerStep design tgto className no sconfig f)"
    unfolding registerWorkflow_def registerStep_def by (intro roleless_rules)+
  show "roleless_op (DBOS_className k cname)" "roleless_op (registerClassInstance k inst iname)"
    unfolding DBOS_className_def registerClassInstance_def by (intro roleless_rules inst)+
  show "roleless_op (associateParameterWithExternal design ext tgto className key f pid)" "roleless_op (ArgName design n tgt key f i)"
    unfolding associateParameterWithExternal_def ArgName_def by (intro roleless_rules)+
  show "roleless_op (registerTransactionalDataSource dname ds)" "roleless_op (getFunctionRegistrationByName cname fname)"
    unfolding registerTransactionalDataSource_def getFunctionRegistrationByName_def by (intro roleless_rules ds)+
  show "roleless_op finalizeClassRegistrations" unfolding finalizeClassRegistrations_def by (intro roleless_rules roleless_for_each)
qed

lemma roleless_step: "roleless_op f \<Longrightarrow> auth_inv r \<Longrightarrow> auth_inv (snd (f r))"
  by (auto simp: roleless_op_def intro: roleless_auth_inv)

lemma auth_checker_registered: "auth_inv (snd (and_then registerAuthChecker (\<lambda>_. gets g) r))" "auth_inv (snd (registerAuthChecker r))"
  by (auto simp: registerAuthChecker_def registerMiddlewareInstaller_def auth_inv_def and_then_def throw_def modify_def gets_def)

lemma auth_inv_and_then: "roleless_op f \<Longrightarrow> (\<And>x r'. auth_inv (snd (g x r'))) \<Longrightarrow> auth_inv r \<Longrightarrow> auth_inv (snd (and_then f g r))"
  using roleless_step[of f r] by (auto simp: and_then_def split: prod.split sum.split)

lemma reg_step_auth: "reg_step r r' \<Longrightarrow> auth_inv r \<Longrightarrow> auth_inv r'"
proof (induction rule: reg_step.induct)
  case (required_role f r design roles tgt key)
  then show ?case
    unfolding requiredRole_def by (intro auth_inv_and_then[OF roleless_registration(8)]) (simp_all add: auth_checker_registered)
next
  case (default_required_role r roles k)
  then show ?case
    unfolding defaultRequiredRole_def by (intro auth_inv_and_then[OF roleless_registration(7)]) (simp_all add: auth_checker_registered)
next
  case (middleware r adds)
  have install: "roleless r (installMiddleware adds m j r)" for r m j
  proof (cases j)
    case AuthChecker
    have "roleless r (install_auth m r)"
      unfolding install_auth_def Let_def
      using roleless_trans[OF roleless_trans[OF roleless_primitives(4) roleless_primitives(5)] roleless_primitives(8)] roleless_trans[OF roleless_primitives(4) roleless_primitives(5)] by simp
    then show ?thesis by (simp add: AuthChecker installMiddleware_def)
  next
    case (OtherInstaller k)
    then show ?thesis by (auto simp: installMiddleware_def intro!: roleless_fold roleless_primitives)
  qed
  have "roleless (r\<lparr>re_installedMiddleware := True\<rparr>) (fold (\<lambda>m r1. fold (installMiddleware adds m) (re_middlewareInstallers r1) r1)
      (concat (map (\<lambda>c. map snd (cr_allRegisteredOperations (class_of r c))) (getAllClassRegistrations r))) (r\<lparr>re_installedMiddleware := True\<rparr>))"
    by (intro roleless_fold install)
  then show ?case using middleware by (auto simp: insertAllMiddleware_def auth_inv_def roleless_def)
qed (auto intro!: roleless_step roleless_operations roleless_registration intro: roleless_auth_inv[OF roleless_other]
      simp: registerLifecycleCallback_def setAlertHandler_def recordDBOSLaunch_def recordDBOSShutdown_def)

interpretation roles: invariant_system "\<lambda>r. r = empty_registry" reg_step auth_inv
proof
  show "auth_inv r" if "r = empty_registry" for r unfolding that by (simp add: auth_inv_def has_roles_def empty_registry_def)
qed (rule reg_step_auth)

text \<open>Installing changes no requirement of a role, keeps what was installed, and adds the check to every function that requires a role.\<close>

definition role_view :: "registry \<Rightarrow> string list option list \<times> (nat \<times> string list option) list \<times> installer list" where
  "role_view r = (map (requiredRole_of \<circ> cr_externalRegInfo) (re_classes r), map (\<lambda>x. (mt_classReg x, requiredRole_of (mt_externalRegInfo x))) (re_methods r),
     re_middlewareInstallers r)"

definition checked :: "nat \<Rightarrow> registry \<Rightarrow> bool" where
  "checked m r \<longleftrightarrow> CheckMethodAuth \<in> snd ` set (mt_onEnter (method_of r m))"

lemma role_view_update:
  "(\<And>x. requiredRole_of (cr_externalRegInfo (f x)) = requiredRole_of (cr_externalRegInfo x)) \<Longrightarrow> role_view (update_class c f r) = role_view r"
  "(\<And>x. requiredRole_of (mt_externalRegInfo (g x)) = requiredRole_of (mt_externalRegInfo x) \<and> mt_classReg (g x) = mt_classReg x) \<Longrightarrow> role_view (update_method m g r) = role_view r"
  by (auto simp: role_view_def update_class_def update_method_def nth_update_at intro!: nth_equalityI)

lemma role_view_add: "role_view (update_method m (addEntryInterceptor i s) r) = role_view r"
  by (rule role_view_update) (simp add: addEntryInterceptor_def)

lemma role_view_info: "role_view (method_info m (ensure_info ext) (class_info c (ensure_info ext) r)) = role_view r"
  unfolding method_info_def class_info_def by (simp add: role_view_update)

lemma role_view_fold: "(\<And>x r. role_view (f x r) = role_view r) \<Longrightarrow> role_view (fold f xs r) = role_view r"
  by (induction xs arbitrary: r) auto

lemma role_view_install: "role_view (installMiddleware adds m j r) = role_view r"
  by (cases j) (auto simp: installMiddleware_def install_auth_def Let_def role_view_add role_view_info intro!: role_view_fold)

lemma getRequiredRoles_view:
  assumes "role_view r' = role_view r" and "m < length (re_methods r)" and "mt_classReg (method_of r m) < length (re_classes r)"
  shows "getRequiredRoles r' m = getRequiredRoles r m"
proof -
  from assms(1) have C: "map (requiredRole_of \<circ> cr_externalRegInfo) (re_classes r') = map (requiredRole_of \<circ> cr_externalRegInfo) (re_classes r)"
    and M: "map (\<lambda>x. (mt_classReg x, requiredRole_of (mt_externalRegInfo x))) (re_methods r') = map (\<lambda>x. (mt_classReg x, requiredRole_of (mt_externalRegInfo x))) (re_methods r)"
    by (simp_all add: role_view_def)
  from map_eq_imp_length_eq[OF C] map_eq_imp_length_eq[OF M] have L: "length (re_classes r') = length (re_classes r)" "length (re_methods r') = length (re_methods r)" by simp_all
  have m: "mt_classReg (method_of r' m) = mt_classReg (method_of r m)" "requiredRole_of (mt_externalRegInfo (method_of r' m)) = requiredRole_of (mt_externalRegInfo (method_of r m))"
    using arg_cong[OF M, of "\<lambda>xs. xs ! m"] assms(2) L by (simp_all add: method_of_def)
  have "requiredRole_of (cr_externalRegInfo (class_of r' (mt_classReg (method_of r m)))) = requiredRole_of (cr_externalRegInfo (class_of r (mt_classReg (method_of r m))))"
    using arg_cong[OF C, of "\<lambda>xs. xs ! mt_classReg (method_of r m)"] assms(3) L by (simp add: class_of_def)
  with m show ?thesis by (simp add: getRequiredRoles_def split: option.split)
qed

lemma checked_update:
  assumes "checked m r" and "m < length (re_methods r)"
  shows "checked m (update_method m' (addEntryInterceptor i s) r)" "checked m (method_info m' h r)" "checked m (class_info c h r)"
  using assms by (auto simp: checked_def addEntryInterceptor_def method_info_def class_info_def)

lemma length_methods_view: "role_view r' = role_view r \<Longrightarrow> length (re_methods r') = length (re_methods r)"
  by (auto simp: role_view_def dest!: map_eq_imp_length_eq)

lemma checked_fold:
  assumes "\<And>x r. P x \<Longrightarrow> checked m r \<Longrightarrow> m < length (re_methods r) \<Longrightarrow> checked m (f x r)" and "\<And>x r. role_view (f x r) = role_view r"
    and "checked m r" and "m < length (re_methods r)" and "\<forall>x\<in>set xs. P x"
  shows "checked m (fold f xs r)"
  using assms(3-5) length_methods_view[OF assms(2)] by (induction xs arbitrary: r) (simp_all add: assms(1))

lemma checked_install: "checked m r \<Longrightarrow> m < length (re_methods r) \<Longrightarrow> checked m (installMiddleware adds m' j r)"
proof (cases j)
  case AuthChecker
  assume r: "checked m r" "m < length (re_methods r)"
  let ?r = "method_info m' (ensure_info DBOS_AUTH) (class_info (mt_classReg (method_of r m')) (ensure_info DBOS_AUTH) r)"
  have len: "m < length (re_methods (class_info c h r))" "m < length (re_methods ?r)" for c h using r(2) by (simp_all add: class_info_def method_info_def)
  have "checked m ?r" by (rule checked_update(2)[OF checked_update(3)[OF r] len(1)])
  with checked_update(1)[OF this len(2)] have "checked m (install_auth m' r)" by (simp add: install_auth_def Let_def)
  then show ?thesis by (simp add: AuthChecker installMiddleware_def)
next
  case (OtherInstaller k)
  assume "checked m r" "m < length (re_methods r)"
  then show ?thesis
    by (auto simp: OtherInstaller installMiddleware_def role_view_add checked_update intro!: checked_fold[where P = "\<lambda>_. True"])
qed

lemma required_somewhere:
  "getRequiredRoles r m \<noteq> [] \<Longrightarrow> requiredRole_of (cr_externalRegInfo (class_of r (mt_classReg (method_of r m)))) \<noteq> None \<or> requiredRole_of (mt_externalRegInfo (method_of r m)) \<noteq> None"
  by (cases "requiredRole_of (cr_externalRegInfo (class_of r (mt_classReg (method_of r m))))") (auto simp: getRequiredRoles_def split: option.splits)

lemma install_auth_checks:
  assumes "getRequiredRoles r m \<noteq> []" and "m < length (re_methods r)" and "mt_classReg (method_of r m) < length (re_classes r)"
  shows "checked m (install_auth m r)"
proof -
  let ?r = "method_info m (ensure_info DBOS_AUTH) (class_info (mt_classReg (method_of r m)) (ensure_info DBOS_AUTH) r)"
  have same: "mt_classReg (method_of ?r m) = mt_classReg (method_of r m)" "length (re_methods ?r) = length (re_methods r)"
    using assms(2) by (simp_all add: method_info_def class_info_def)
  have "getRequiredRoles ?r m = getRequiredRoles r m" by (rule getRequiredRoles_view[OF role_view_info assms(2,3)])
  with assms(1) required_somewhere[of ?r m] have
    "requiredRole_of (cr_externalRegInfo (class_of ?r (mt_classReg (method_of ?r m)))) \<noteq> None \<or> requiredRole_of (mt_externalRegInfo (method_of ?r m)) \<noteq> None" by simp
  then have "install_auth m r = update_method m (addEntryInterceptor CheckMethodAuth 10) ?r" by (auto simp: install_auth_def Let_def)
  with assms(2) same(2) show ?thesis by (simp add: checked_def addEntryInterceptor_def)
qed

lemma role_view_classReg:
  assumes "role_view r' = role_view r" and "m < length (re_methods r)"
  shows "mt_classReg (method_of r' m) = mt_classReg (method_of r m)" and "length (re_classes r') = length (re_classes r)"
proof -
  from assms(1) have M: "map (\<lambda>x. (mt_classReg x, requiredRole_of (mt_externalRegInfo x))) (re_methods r') = map (\<lambda>x. (mt_classReg x, requiredRole_of (mt_externalRegInfo x))) (re_methods r)"
    and C: "map (requiredRole_of \<circ> cr_externalRegInfo) (re_classes r') = map (requiredRole_of \<circ> cr_externalRegInfo) (re_classes r)" by (simp_all add: role_view_def)
  show "mt_classReg (method_of r' m) = mt_classReg (method_of r m)"
    using arg_cong[OF M, of "\<lambda>xs. xs ! m"] assms(2) length_methods_view[OF assms(1)] by (simp add: method_of_def)
  show "length (re_classes r') = length (re_classes r)" using map_eq_imp_length_eq[OF C] .
qed

lemma install_all_checks:
  assumes "AuthChecker \<in> set is" and "getRequiredRoles r m \<noteq> []" and "m < length (re_methods r)" and "mt_classReg (method_of r m) < length (re_classes r)"
  shows "checked m (fold (installMiddleware adds m) is r)"
  using assms
proof (induction "is" arbitrary: r)
  case (Cons i js)
  let ?r = "installMiddleware adds m i r"
  have view: "role_view ?r = role_view r" by (rule role_view_install)
  have len: "m < length (re_methods ?r)" using Cons.prems(3) length_methods_view[OF view] by simp
  show ?case
  proof (cases "i = AuthChecker")
    case True
    with install_auth_checks[OF Cons.prems(2-4)] have "checked m ?r" by (simp add: installMiddleware_def)
    then have "checked m (fold (installMiddleware adds m) js ?r)"
      using len by (intro checked_fold[where P = "\<lambda>_. True"]) (simp_all add: checked_install role_view_install)
    then show ?thesis by simp
  next
    case False
    with Cons.IH[of ?r] Cons.prems len getRequiredRoles_view[OF view Cons.prems(3,4)] role_view_classReg[OF view Cons.prems(3)] show ?thesis by simp
  qed
qed simp

lemma insert_all_checks:
  assumes "m \<in> set ms" and "AuthChecker \<in> set (re_middlewareInstallers r)" and "getRequiredRoles r m \<noteq> []"
    and "m < length (re_methods r)" and "mt_classReg (method_of r m) < length (re_classes r)"
  shows "checked m (fold (\<lambda>m r1. fold (installMiddleware adds m) (re_middlewareInstallers r1) r1) ms r)"
  using assms
proof (induction ms arbitrary: r)
  case (Cons j ms)
  let ?f = "\<lambda>m r1. fold (installMiddleware adds m) (re_middlewareInstallers r1) r1"
  have view: "role_view (?f j r) = role_view r" for j r by (intro role_view_fold role_view_install)
  have len: "m < length (re_methods (?f j r))" using Cons.prems(4) length_methods_view[OF view] by simp
  show ?case
  proof (cases "j = m")
    case True
    have "checked m (?f j r)" using install_all_checks[OF Cons.prems(2-5)] True by simp
    moreover have "checked m (?f i r1)" if "checked m r1" "m < length (re_methods r1)" for i r1
      using that by (intro checked_fold[where P = "\<lambda>_. True"]) (simp_all add: checked_install role_view_install)
    ultimately have "checked m (fold ?f ms (?f j r))"
      by (intro checked_fold[where P = "\<lambda>_. True", OF _ view _ len]) simp_all
    then show ?thesis by simp
  next
    case False
    have "re_middlewareInstallers (?f j r) = re_middlewareInstallers r" using view[of j r] by (simp add: role_view_def)
    with False Cons.IH[of "?f j r"] Cons.prems len getRequiredRoles_view[OF view Cons.prems(4,5)] role_view_classReg[OF view Cons.prems(4)] show ?thesis by simp
  qed
qed simp

text \<open>A call with a check among its interceptors.\<close>

definition assume_role :: "string \<Rightarrow> DBOSLocalCtx option \<Rightarrow> DBOSLocalCtx option" where
  "assume_role role = map_option (\<lambda>c. c\<lparr>cx_assumedRole := Some role\<rparr>)"

definition granted_role :: "registry \<Rightarrow> nat \<Rightarrow> DBOSLocalCtx option \<Rightarrow> string option" where
  "granted_role r m ctx = find (\<lambda>role. role \<in> set (DBOS_authenticatedRoles ctx)) (getRequiredRoles r m)"

lemma granted_role_assume [simp]: "granted_role r m (assume_role role ctx) = granted_role r m ctx"
  by (cases ctx) (simp_all add: granted_role_def assume_role_def DBOS_authenticatedRoles_def)

lemma assume_role_twice [simp]: "assume_role role (assume_role role' ctx) = assume_role role ctx"
  by (cases ctx) (simp_all add: assume_role_def)

lemma check_outcome:
  "getRequiredRoles r m \<noteq> [] \<Longrightarrow> checkMethodAuth r m args ctx = (case granted_role r m ctx of
     None \<Rightarrow> (Inl (DBOSNotAuthorizedError (''User does not have a role with permission to call '' @ mt_name (method_of r m))), ctx)
   | Some role \<Rightarrow> (Inr args, assume_role role ctx))"
  by (simp add: checkMethodAuth_def Let_def granted_role_def assume_role_def throw_def split: option.split)

lemma onEnter_refused:
  assumes "getRequiredRoles r m \<noteq> []" and "granted_role r m ctx = None" and "CheckMethodAuth \<in> snd ` set vfs"
  shows "\<exists>e. run_onEnter env r m vfs args ctx = (Inl e, ctx)"
  using assms(3)
proof (induction vfs arbitrary: args)
  case (Cons vf vfs)
  then show ?case
    using check_outcome[OF assms(1), of args ctx] assms(2)
    by (cases "snd vf") (auto simp: intercept_def throw_def split: sum.split)
qed simp

lemma onEnter_granted:
  assumes "getRequiredRoles r m \<noteq> []" and "granted_role r m ctx = Some role" and "c \<in> {ctx, assume_role role ctx}"
  shows "(\<exists>e c'. run_onEnter env r m vfs args c = (Inl e, c')) \<or>
    (\<exists>args'. run_onEnter env r m vfs args c = (Inr args', if CheckMethodAuth \<in> snd ` set vfs then assume_role role ctx else c))"
  using assms(3)
proof (induction vfs arbitrary: args c)
  case (Cons vf vfs)
  have check: "checkMethodAuth r m args c = (Inr args, assume_role role ctx)"
    using check_outcome[OF assms(1), of args c] assms(2) Cons.prems by auto
  show ?case
  proof (cases "snd vf")
    case CheckMethodAuth
    with check Cons.IH[of "assume_role role ctx" args] show ?thesis by (auto simp: intercept_def)
  next
    case (InputSchema i)
    with Cons.IH[OF Cons.prems] show ?thesis by (cases "ie_parse env i args") (auto simp: intercept_def throw_def)
  next
    case (OtherInterceptor i)
    with Cons.IH[OF Cons.prems] show ?thesis by (cases "ie_other env i args") (auto simp: intercept_def throw_def)
  qed
qed simp

text \<open>
  C13: Roles are enforced. Whatever a program registers, in whatever order, once the middleware is inserted at launch every registered function that requires
  roles, by itself or by its class, is guarded: called without any of the roles, it throws, its own code does not run and the context stays as it was; called with one of them, its code runs at most
  with the first of the required roles that the caller has as its assumed role.
\<close>

theorem required_roles_enforced:
  assumes "reg_step\<^sup>*\<^sup>* empty_registry r" and "\<not> re_installedMiddleware r" and "r' = insertAllMiddleware adds r"
    and "getFunctionRegistration r' f = Some m" and "getRequiredRoles r' m \<noteq> []"
  shows "case granted_role r' m ctx of
      None \<Rightarrow> \<exists>e. \<forall>body. wrappedMethod env r' m body args ctx = (Inl e, ctx)
    | Some role \<Rightarrow> (\<exists>e c. \<forall>body. wrappedMethod env r' m body args ctx = (Inl e, c)) \<or> (\<exists>args'. \<forall>body. wrappedMethod env r' m body args ctx = body args' (assume_role role ctx))"
proof -
  let ?ms = "concat (map (\<lambda>c. map snd (cr_allRegisteredOperations (class_of r c))) (getAllClassRegistrations r))"
  let ?r = "r\<lparr>re_installedMiddleware := True\<rparr>"
  have inv: "registry_inv r" and auth: "auth_inv r" using registries.reachable_inv[OF refl assms(1)] roles.reachable_inv[OF refl assms(1)] .
  have r': "r' = fold (\<lambda>m r1. fold (installMiddleware adds m) (re_middlewareInstallers r1) r1) ?ms ?r" using assms(2,3) by (simp add: insertAllMiddleware_def)
  have view: "role_view r' = role_view r"
    unfolding r' by (subst role_view_fold) (simp_all add: role_view_fold role_view_install, simp add: role_view_def)
  have core: "same_core r r'" using assms(3) by (simp add: same_core_updates)
  from getFunctionRegistration_valid[OF same_core_inv[OF core inv] assms(4)] have m: "m < length (re_methods r)"
    using same_core_fields(2)[OF core] by (simp add: is_method_def)
  define c where "c = mt_classReg (method_of r m)"
  from inv m have c: "c < length (re_classes r)" "map_of (cr_allRegisteredOperations (class_of r c)) (mt_origFunction (method_of r m)) = Some m"
    by (simp_all add: c_def registry_inv_def methods_inv_def linked_def)
  have req: "getRequiredRoles r m \<noteq> []" using getRequiredRoles_view[OF view m] c(1) assms(5) by (simp add: c_def)
  have "c \<in> set (getAllClassRegistrations r)"
    using plain_class[of r c] ctor_class[of r c] c(1) inv
    by (cases "cr_ctor (class_of r c)") (force simp: getAllClassRegistrations_def registry_inv_def dest: map_of_SomeD)+
  with map_of_SomeD[OF c(2)] have in_ms: "m \<in> set ?ms" by force
  have "has_roles r" using required_somewhere[OF req] m c(1) by (auto simp: has_roles_def class_of_def method_of_def c_def)
  with auth assms(2) have inst: "AuthChecker \<in> set (re_middlewareInstallers ?r)" by (simp add: auth_inv_def)
  have "getRequiredRoles ?r m = getRequiredRoles r m" by (simp add: getRequiredRoles_def method_of_def class_of_def cong: option.case_cong)
  with req m c(1) have "checked m r'" unfolding r' by (intro insert_all_checks[OF in_ms inst]) (simp_all add: c_def method_of_def)
  then have chk: "CheckMethodAuth \<in> snd ` set (mt_onEnter (method_of r' m))" by (simp add: checked_def)
  show ?thesis
  proof (cases "granted_role r' m ctx")
    case None
    from onEnter_refused[OF assms(5) None chk] obtain e where "run_onEnter env r' m (mt_onEnter (method_of r' m)) args ctx = (Inl e, ctx)" by blast
    then show ?thesis by (auto simp: None wrappedMethod_def)
  next
    case (Some role)
    from onEnter_granted[OF assms(5) Some, of ctx env "mt_onEnter (method_of r' m)" args] chk
    consider e c where "run_onEnter env r' m (mt_onEnter (method_of r' m)) args ctx = (Inl e, c)"
      | args' where "run_onEnter env r' m (mt_onEnter (method_of r' m)) args ctx = (Inr args', assume_role role ctx)" by auto
    then show ?thesis by cases (auto simp: Some wrappedMethod_def)
  qed
qed

definition sample_guarded :: registry where
  "sample_guarded = insertAllMiddleware (\<lambda>_ _. []) (snd sample_role_first)"

theorem required_roles_enforced_witness:
  "\<exists>e. \<forall>body. wrappedMethod \<lparr>ie_parse = \<lambda>_ a. Inr a, ie_other = \<lambda>_ a. Inr a\<rparr> sample_guarded 0 body [''x''] None = ((Inl e, None) :: (dbos_error + unit) \<times> DBOSLocalCtx option)"
proof -
  have "reg_step empty_registry (snd sample_role_first)"
    unfolding sample_role_first_def by (rule reg_step.required_role) (simp add: known_def sample_function_def)
  moreover have "\<not> re_installedMiddleware (snd sample_role_first)" "getFunctionRegistration sample_guarded sample_function = Some 0" "getRequiredRoles sample_guarded 0 = [''admin'']"
    by code_simp+
  moreover have "granted_role sample_guarded 0 None = None" by code_simp
  ultimately show ?thesis
    using required_roles_enforced[where r = "snd sample_role_first" and r' = sample_guarded and adds = "\<lambda>_ _. []" and f = sample_function and m = 0 and ctx = None
        and env = "\<lparr>ie_parse = \<lambda>_ a. Inr a, ie_other = \<lambda>_ a. Inr a\<rparr>" and args = "[''x'']"]
    by (simp add: sample_guarded_def r_into_rtranclp)
qed

end
