(* ===== verification/Spec2Isabelle.thy ===== *)
theory Spec2Isabelle
  imports Queue_Runner SysDB_Retry Workflow_Replay Debouncer Conductor_Connection Admin_Server Migrations Registration
begin

text \<open>
  A verification of the DBOS durable execution library (TypeScript, \<open>src/\<close> of the repository).

  \<^bold>\<open>The program.\<close> A workflow is a function whose steps are checkpointed in a PostgreSQL database, the system database, so that
  after a crash it is run again and finds the outcomes of the steps it had completed. The system database
  (\<open>src/system_database.ts\<close>) is the only shared state: processes start, dequeue, cancel, fork, schedule and await workflows through its
  tables. The executor (\<open>src/dbos-executor.ts\<close>) runs workflows and steps of one process, the context (\<open>src/context.ts\<close>) numbers the
  calls of a workflow, the dispatcher (\<open>src/wfqueue.ts\<close>) polls queues, the scheduler (\<open>src/scheduler/\<close>) enqueues workflows at the times
  of cron expressions, and serializers (\<open>src/serialization.ts\<close>) turn values into the texts that are stored. Programs call
  the static methods of \<open>DBOS\<close> (\<open>src/dbos.ts\<close>) or, outside an application, those of a client (\<open>src/client.ts\<close>); the debouncer
  (\<open>src/debouncer.ts\<close>) is built on both. Operators manage workflows through the conductor (\<open>src/conductor/\<close>), to which a process keeps a websocket, and
  through an HTTP server (\<open>src/adminserver.ts\<close>).

  \<^bold>\<open>How it is modelled.\<close> The system database is a record of tables, lists of rows with the columns of
  \<open>schemas/system_db_schema.ts\<close>, together with the process-local maps that the class keeps (\<open>SysDB_Schema\<close>). A method is a function from its arguments and the
  database to a result or an error and the new database (\<open>db_op\<close> in \<open>SysDB_Schema\<close>, its combinators in \<open>DBOS_Prelude\<close>); the current time and
  random identifiers are arguments. An SQL statement is a function on rows: \<open>update_where\<close>, \<open>find_row\<close> and so on. A transaction
  discards the changes of its body when the body throws. Errors are the values of the type \<open>dbos_error\<close>, one constructor per class of \<open>src/error.ts\<close>.
  What runs concurrently is a sequence of such operations in any order (\<open>sysdb_step\<close> in \<open>DBOS_System\<close>).

  \<^item> \<open>DBOS_Prelude\<close>: operations that may throw, tables, the locales \<open>keyed_table\<close> (a table with a key), \<open>invariant_system\<close> (a step
    system and an invariant) and \<open>simulation\<close> (a step system over an abstract machine). \<open>JS_Text\<close>: numbers, \<open>split\<close>, \<open>join\<close> and JSON text with its
    parser, proved to read back what is written.
  \<^item> \<open>SysDB_Schema\<close>: rows, errors, statuses; \<open>db_wf\<close> is the conjunction of the schema's primary keys, foreign keys and the unique index on
    deduplication IDs.
  \<^item> \<open>SysDB_Status\<close>: \<open>initWorkflowStatus\<close>, \<open>updateWorkflowStatus\<close>, outcomes, recovery, batches. \<open>SysDB_Steps\<close>: checkpoints, replay,
    transactional steps, durable sleep, patches. \<open>SysDB_Await\<close>: awaiting a result. \<open>SysDB_Messaging\<close>: send and receive, events,
    streams, notifications. \<open>SysDB_Management\<close>: cancel, resume, delay, debounce, delete, garbage collection. \<open>SysDB_Fork\<close>: fork, export, import.
    \<open>SysDB_Queue\<close>: queue records and objects, the dequeue transaction. \<open>SysDB_Query\<close>: listing and reading statuses. \<open>SysDB_Schedule\<close>:
    schedules and versions. \<open>SysDB_Retry\<close>: the retry of operations on lost connections.
    Each shows that its operations keep \<open>db_wf\<close> and what they do on every branch.
  \<^item> \<open>SysDB_Lifecycle\<close>: the abstract machine \<open>lifecycle\<close> of a workflow's status and that every operation is at most one move of it.
  \<^item> \<open>Serialization\<close>: the formats, the dispatch on their names and round trips, with the locale \<open>lawful_serializer\<close> for a serializer that reads
    back what it writes. \<open>DBOS_Context\<close>: contexts, guards and call IDs.
  \<^item> \<open>Executor_Steps\<close>: a step with its attempts, timeouts and checkpoint. \<open>Executor_Workflow\<close>: start, finish, recovery and dispatch of a workflow.
  \<^item> \<open>DBOS_System\<close>: the step relation of the whole system, interpreted as a \<open>simulation\<close>; the operations of the executor as runs of it.
  \<^item> \<open>Crontab\<close>: cron expressions, with a reference semantics. \<open>Scheduler\<close>: polling, firing, triggering and backfilling of schedules.
    \<open>Queue_Runner\<close>: the dispatcher as a step system, interpreted as an \<open>invariant_system\<close>.
  \<^item> \<open>Datasource\<close>: transactions on an application database (\<open>src/datasource.ts\<close>, \<open>packages/nodepg-datasource\<close>), their completion table and retry loop. A handler is
    a program counter that moves statement by statement (\<open>tx_pc\<close>), a commit may be done, rejected or lost (\<open>commit_report\<close>), and any number of handlers run and crash concurrently (\<open>tx_step\<close>).
  \<^item> \<open>DBOS_API\<close>: the calls of \<open>src/dbos.ts\<close>, functions of the caller's context and the system database: guards, function IDs, internal steps, starting of workflows with the
    checks of their options, singletons, contexts, schedules, queues. \<open>Workflow_Replay\<close>: a workflow's function as a tree of such calls, and the proof that it is
    resumed where it was interrupted; each call is shown to be one operation that finds its checkpoint again (\<open>durable\<close>) and keeps the others (\<open>grows\<close>).
  \<^item> \<open>Introspection\<close>: what users see of workflows and steps (\<open>src/workflow_management.ts\<close>), the global timeout. \<open>Aggregates\<close>: counts, extremes and metrics by group,
    shown to agree with listings.
  \<^item> \<open>Client\<close>: the methods of a client. \<open>Debouncer\<close>: the two debouncers, their invariant on keys (carried through every step of the system), and that their
    loops settle and coalesce.
  \<^item> \<open>Conductor_Connection\<close>: sockets, pings and reconnection as a step system over events, interpreted as \<open>invariant_system\<close>s. \<open>Conductor_Protocol\<close>: messages and outputs.
    \<open>Export_JSON\<close>: the text of exported workflows, read back. \<open>Conductor\<close>: the handler of every message; \<open>Conductor_Answers\<close>: what its answers show.
    \<open>Admin_Server\<close>: routes and handlers of the HTTP server, shown to agree with the conductor's.
  \<^item> \<open>Migrations\<close>: the runner of the schema's migrations (\<open>src/sysdb_migrations/migration_runner.ts\<close>), where it can be interrupted (\<open>interrupted\<close>), and that the next run completes it.
  \<^item> \<open>Registry\<close>: the maps of \<open>src/decorators.ts\<close> in which classes and functions are registered, the decorators of \<open>src/dbos.ts\<close> that fill them, and the check of required
    roles (\<open>src/authdecorators.ts\<close>). \<open>Registry_Invariant\<close>: that the maps stay consistent and that registrations last. \<open>Registration\<close>: that a registered workflow is
    found by the names recorded of it, and that required roles are enforced.

  \<^bold>\<open>Parameters.\<close> Code that is not part of the repository is an argument: SuperJSON, serialize-error and a custom serializer
  (\<open>serialization_env\<close>), the time zone data (\<open>zones\<close>), what a workflow's or a step's own function does, and what the handlers of messages call of Node: compression, \<open>inspect\<close>, the
  host's name (\<open>conductor_env\<close>). The events of a websocket occur as its library documents (\<open>enabled\<close>). The PostgreSQL server that runs the
  statements of migrations is an argument (\<open>pg_client\<close>), and what makes them repeatable is a hypothesis (\<open>repeatable\<close>). Which rows another transaction has locked is an
  argument of the dequeue.

  \<^bold>\<open>Bounds and fuel.\<close> Loops that end are total functions with a termination measure (cascading cancellation, the search through error
  causes, range expansion, backfilling). A polling loop with a timeout takes an environment in which time advances
  (\<open>SysDB_Await\<close>), and the loop that retries on lost connections takes fuel, with theorems that enough fuel gives the result and that no
  fuel does when the connection stays down (\<open>SysDB_Retry\<close>). The loops of the debouncer and of singleton enqueues take fuel too, and what other processes do between their
  statements; they end in the first round without interference (\<open>debounce_settles\<close>). Times are integers in milliseconds, and rationals where the source scales and jitters them.
  Integers are unbounded: the database's 64-bit counters and JavaScript's safe integers are not exceeded by the values that occur.

  \<^bold>\<open>Not modelled.\<close> Connection pools, \<open>LISTEN\<close> and timers (a notification only shortens a wait), logging and tracing, process setup and the text of the migrations, launch and shutdown, the data sources other than the one for node-postgres, and the
  packages that bind third-party services. Isolation levels are abstracted: a transaction of the model is atomic, and the user's
  function in a transaction of a data source runs on the data of one moment. Operations of several statements are one operation of the model except where
  the race matters and is modelled (debouncing, data sources, singletons, the global timeout, awaiting): the cascade of \<open>cancelWorkflows\<close> is several
  autocommitted statements in the source, each with its own \<open>now()\<close>. Where a query leaves the order of rows open (ties of \<open>ORDER BY created_at\<close>, the queries of
  \<open>exportWorkflow\<close>) the rows come in the order of the table. Numbers of JavaScript values are integers.
\<close>

section \<open>Properties of the whole system\<close>

text \<open>The constraints of the schema hold in every reachable state. Whatever operations any processes perform from an
  empty system database, in any order and interleaving: primary keys are unique, every checkpoint, message, event and
  stream entry belongs to an existing workflow, and no two workflows hold the same deduplication ID on one queue.\<close>

lemma reachable_states_well_formed:
  assumes "sysdb_step\<^sup>*\<^sup>* (empty_sysdb executorID useListenNotify) db"
  shows "db_wf db"
  using assms by (intro dbos.reachable_inv) (auto simp: initial_def)

text \<open>C5: every operation is at most one move of the workflow life cycle. Whatever operation is performed, each workflow
  keeps its status or makes one move of the machine \<open>lifecycle\<close>: a cancelled workflow can only be enqueued again or
  removed, a delayed one is never started directly, and so on. A workflow that has ended with a result keeps a result
  through any run of the system for as long as it is not deleted.\<close>

theorem statuses_follow_lifecycle:
  assumes "db_wf db"
  shows "(\<forall>db'. sysdb_step db db' \<longrightarrow> lifecycle\<^sup>=\<^sup>= (getWorkflowStatusValue w db) (getWorkflowStatusValue w db')) \<and>
    (\<forall>db'. (\<lambda>a b. sysdb_step a b \<and> w \<in> workflow_ids b)\<^sup>*\<^sup>* db db' \<and>
        getWorkflowStatusValue w db \<in> {Some SUCCESS, Some ERROR} \<longrightarrow>
      getWorkflowStatusValue w db' \<in> {Some SUCCESS, Some ERROR})"
proof (intro conjI allI impI)
  show "lifecycle\<^sup>=\<^sup>= (getWorkflowStatusValue w db) (getWorkflowStatusValue w db')" if "sysdb_step db db'" for db'
    using dbos.simulates [OF that assms] .
  fix db' assume run: "(\<lambda>a b. sysdb_step a b \<and> w \<in> workflow_ids b)\<^sup>*\<^sup>* db db' \<and>
      getWorkflowStatusValue w db \<in> {Some SUCCESS, Some ERROR}"
  have "(w \<in> workflow_ids b) = (getWorkflowStatusValue w b \<notin> {None})" for b
    by (simp add: workflow_ids_iff getWorkflowStatusValue_def)
  then have "(\<lambda>a b. sysdb_step a b \<and> getWorkflowStatusValue w b \<notin> {None})\<^sup>*\<^sup>* db db'" using run by simp
  with run show "getWorkflowStatusValue w db' \<in> {Some SUCCESS, Some ERROR}"
    using dbos.run_closed [of "{Some SUCCESS, Some ERROR}" "{None}" w db db'] assms ended_absorbing by auto
qed

theorem statuses_follow_lifecycle_witness:
  "lifecycle\<^sup>=\<^sup>= (Some PENDING) (getWorkflowStatusValue ''w'' (snd (cancelWorkflows 300 [''w''] True (example_db [example_row ''w'' PENDING]))))"
proof -
  let ?db = "example_db [example_row ''w'' PENDING]"
  have "sysdb_step ?db (snd (cancelWorkflows 300 [''w''] True ?db))" by (rule sysdb_step.cancel)
  with statuses_follow_lifecycle [of ?db "''w''"] show ?thesis by (simp add: getWorkflowStatusValue_def unique_key_def)
qed

text \<open>What the executor, the scheduler and the dispatcher of queues do is a run of the system. Starting, dispatching, finishing, timing out and
  recovering workflows, recording steps, polling schedules, firing, triggering and backfilling them, and polling queues are sequences of system
  database operations and nothing else, so that the properties of all runs hold
  throughout them, whatever other processes do in between.\<close>

lemma executor_operations_are_runs:
  assumes "\<And>db. snd (getResult db) = db"
  shows "sysdb_step\<^sup>*\<^sup>* db (snd (internalWorkflow env now g u xid wn wc reg params pctx c f args db)) \<and>
    sysdb_step\<^sup>*\<^sup>* db (snd (executeWorkflowId env now g u xid registry instances w opts db)) \<and>
    sysdb_step\<^sup>*\<^sup>* db (snd (finishWorkflow env now w st ser getResult outcome db)) \<and>
    sysdb_step\<^sup>*\<^sup>* db (snd (callPromiseWithTimeout now w d fin outcome' db)) \<and>
    sysdb_step\<^sup>*\<^sup>* db (snd (recoverPendingWorkflows now g ids db)) \<and>
    sysdb_step\<^sup>*\<^sup>* db (snd (record_step env w f' n s e out mx db)) \<and>
    sysdb_step\<^sup>*\<^sup>* db (snd (poll_schedules env civil now (loops, db))) \<and>
    sysdb_step\<^sup>*\<^sup>* db (snd (scheduleLoop_round env now entry db)) \<and>
    sysdb_step\<^sup>*\<^sup>* db (snd (triggerSchedule env now name db)) \<and>
    sysdb_step\<^sup>*\<^sup>* db (snd (backfillSchedule env civil now name start end' db)) \<and>
    sysdb_step\<^sup>*\<^sup>* db (snd (run_poll pe q db))"
proof -
  have "preserves (reaches db) getResult" using assms by (simp add: preserves_def)
  then have "reaches db (snd (finishWorkflow env now w st ser getResult outcome db))"
    by (intro preserves_snd [OF finishWorkflow_reaches]) (simp_all add: reaches_def)
  then show ?thesis
    using preserves_snd [OF internalWorkflow_reaches] preserves_snd [OF executeWorkflowId_reaches]
      preserves_snd [OF callPromiseWithTimeout_reaches] preserves_snd [OF recoverPendingWorkflows_reaches]
      preserves_snd [OF record_step_reaches] poll_schedules_reaches [of db "(loops, db)"] scheduleLoop_round_reaches [of db db]
      preserves_snd [OF triggerSchedule_reaches] preserves_snd [OF backfillSchedule_reaches] run_poll_reaches [of db db]
    by (simp add: reaches_def)
qed

end
